(* ===== verification/Prelude.thy ===== *)
theory Prelude
  imports Main "HOL-Library.Word" "HOL-Library.State_Monad"
begin

text \<open>
  Shared vocabulary of the development: machine integers and byte strings, the read cursor that
  both CBOR readers of the trusted application walk over a buffer, the big-endian byte order of
  every encoder and decoder, the \<^verbatim>\<open>for\<close> loop of the map parsers, and a small Hoare logic for
  the state monad in which the code that calls the TEE is written.
\<close>

unbundle bit_operations_syntax

named_theorems wp \<open>Hoare rules for the state monad\<close>
named_theorems codec_simps \<open>unfolding of one field of an encoder against one field of a decoder\<close>

section \<open>Integers and byte strings\<close>

type_synonym byte = "8 word"
type_synonym u32 = "32 word"
type_synonym u64 = "64 word"
type_synonym bytes = "byte list"

text \<open>A C string literal without its terminating zero.\<close>

definition ascii :: "string \<Rightarrow> bytes" where
  "ascii s = map of_char s"

lemma length_ascii [simp]: "length (ascii s) = length s"
  by (simp add: ascii_def)

lemma ascii_Nil [simp]: "ascii [] = []"
  by (simp add: ascii_def)

lemma ascii_eq_Nil [simp]: "ascii s = [] \<longleftrightarrow> s = []"
  by (simp add: ascii_def)

lemma ascii_Cons [code]: "ascii (c # cs) = of_char c # ascii cs" "ascii [] = []"
  by (simp_all add: ascii_def)

lemma unat_of_char: "unat (of_char c :: byte) = of_char c"
proof -
  have "unat (of_nat (of_char c) :: byte) = of_char c mod 256"
    by (simp add: unat_of_nat)
  then show ?thesis by (simp add: of_nat_of_char)
qed

lemma ascii_inject [simp]: "ascii s = ascii t \<longleftrightarrow> s = t"
proof -
  have "inj (of_char :: char \<Rightarrow> byte)"
    by (rule injI) (metis unat_of_char of_char_eq_iff)
  then show ?thesis by (simp add: ascii_def inj_map_eq_map)
qed

text \<open>Comparisons of lengths with this limit are evaluated on binary integers.\<close>

definition UINT32_MAX :: nat where
  "UINT32_MAX = 0xffffffff"

lemma u32_limit [code_unfold]:
  "UINT32_MAX < n \<longleftrightarrow> 0xffffffff < int n" "n \<le> UINT32_MAX \<longleftrightarrow> int n \<le> 0xffffffff"
  by (auto simp: UINT32_MAX_def)

text \<open>
  \<^verbatim>\<open>TEE_MemCompare\<close> and \<^verbatim>\<open>memcmp\<close> on two buffers of the same length: the sign of the first
  difference of unsigned bytes.
\<close>

fun mem_compare :: "bytes \<Rightarrow> bytes \<Rightarrow> int" where
  "mem_compare (x # xs) (y # ys) = (if x < y then -1 else if y < x then 1 else mem_compare xs ys)"
| "mem_compare _ _ = 0"

lemma mem_compare_eq0: "length xs = length ys \<Longrightarrow> mem_compare xs ys = 0 \<longleftrightarrow> xs = ys"
  by (induction xs ys rule: mem_compare.induct) auto

lemma mem_compare_swap: "mem_compare ys xs = - mem_compare xs ys"
  by (induction xs ys rule: mem_compare.induct) auto

lemma mem_compare_trans:
  "length xs = length ys \<Longrightarrow> length ys = length zs \<Longrightarrow>
   mem_compare xs ys < 0 \<Longrightarrow> mem_compare ys zs < 0 \<Longrightarrow> mem_compare xs zs < 0"
proof (induction xs arbitrary: ys zs)
  case (Cons x xs)
  from Cons.prems(1,2) obtain y ys' z zs' where ys: "ys = y # ys'" and zs: "zs = z # zs'"
    by (metis length_Suc_conv)
  have IH: "mem_compare xs zs' < 0" if "mem_compare xs ys' < 0" "mem_compare ys' zs' < 0"
    using that Cons.prems(1,2) ys zs by (intro Cons.IH [of ys' zs']) auto
  consider "x < y" "y < z" | "x < y" "y = z" | "x = y" "y < z"
    | "x = y" "y = z" "mem_compare xs ys' < 0" "mem_compare ys' zs' < 0"
    using Cons.prems(3,4) ys zs by (force split: if_splits)
  then show ?case
    using ys zs IH by cases (auto dest: less_trans)
qed simp

lemma word_less_succ: "(x :: 'a::len word) \<noteq> -1 \<Longrightarrow> x < x + 1" "(x :: 'a::len word) \<noteq> -1 \<Longrightarrow> x + 1 \<noteq> 0"
proof -
  assume "x \<noteq> -1"
  then show nz: "x + 1 \<noteq> 0" by (simp add: add_eq_0_iff2)
  then have "unat (1 + x) = Suc (unat x)" by (intro unatSuc) (simp add: add.commute)
  then show "x < x + 1" by (simp add: word_less_nat_alt add.commute)
qed

section \<open>Big-endian integers\<close>

text \<open>
  \<open>be_bytes n v\<close> are the low \<open>n\<close> bytes of \<open>v\<close>, most significant first: the loop
  \<^verbatim>\<open>for (i = n; i > 0; i--) *out++ = (uint8_t)(v >> ((i - 1) * 8))\<close>.
  \<open>be_fold acc bs\<close> is the loop \<^verbatim>\<open>acc = (acc << 8) | b\<close> over \<open>bs\<close>.
\<close>

fun be_bytes :: "nat \<Rightarrow> u64 \<Rightarrow> bytes" where
  "be_bytes 0 v = []"
| "be_bytes (Suc n) v = ucast (drop_bit (8 * n) v) # be_bytes n v"

fun be_fold :: "u64 \<Rightarrow> bytes \<Rightarrow> u64" where
  "be_fold acc [] = acc"
| "be_fold acc (b # bs) = be_fold (push_bit 8 acc OR ucast b) bs"

lemma length_be_bytes [simp]: "length (be_bytes n v) = n"
  by (induction n) auto

lemma be_fold_be_bytes:
  "be_fold acc (be_bytes n v) = push_bit (8 * n) acc OR take_bit (8 * n) v"
proof (induction n arbitrary: acc)
  case (Suc n)
  show ?case
    by (simp add: Suc) (rule bit_word_eqI, auto simp: bit_simps add.commute)
qed simp

lemma take_bit_u64_small:
  assumes "v < 2 ^ n" and "n < 64"
  shows "take_bit n v = (v :: u64)"
proof -
  have "uint v < 2 ^ n" using assms by (simp add: word_2p_lem word_size)
  then have "take_bit n (uint v) = uint v" by (simp add: take_bit_int_eq_self_iff)
  then show ?thesis by (metis unsigned_take_bit_eq word_uint_eqI)
qed

lemma be_fold_be_bytes_0: "v < 2 ^ (8 * n) \<Longrightarrow> 8 * n < 64 \<Longrightarrow> be_fold 0 (be_bytes n v) = v"
  by (simp add: be_fold_be_bytes take_bit_u64_small)

lemma be_fold_be_bytes_64: "be_fold 0 (be_bytes 8 v) = v"
  by (simp add: be_fold_be_bytes take_bit_word_eq_self)

section \<open>The read cursor\<close>

text \<open>
  \<^verbatim>\<open>struct cursor\<close> (\<^verbatim>\<open>acceptance_state.c\<close>) and \<^verbatim>\<open>struct cbor_cursor\<close>
  (\<^verbatim>\<open>ta_runtime_internal.h\<close>): a buffer, its length and the offset of the next byte. The length
  field of the C structs is the length of the list \<open>cbuf\<close>.
\<close>

record cursor =
  cbuf :: bytes
  coff :: nat

definition mk_cursor :: "bytes \<Rightarrow> cursor" where
  "mk_cursor bs = \<lparr>cbuf = bs, coff = 0\<rparr>"

definition adv :: "nat \<Rightarrow> cursor \<Rightarrow> cursor" where
  "adv n c = c\<lparr>coff := coff c + n\<rparr>"

definition remaining :: "cursor \<Rightarrow> nat" where
  "remaining c = length (cbuf c) - coff c"

definition at_end :: "cursor \<Rightarrow> bool" where
  "at_end c \<longleftrightarrow> coff c = length (cbuf c)"

text \<open>The bytes a cursor has not read yet: the view of a cursor in which readers are specified.\<close>

definition rest :: "cursor \<Rightarrow> bytes" where
  "rest c = drop (coff c) (cbuf c)"

text \<open>\<open>good c\<close>: the offset is within the buffer, which every reader keeps.\<close>

definition good :: "cursor \<Rightarrow> bool" where
  "good c \<longleftrightarrow> coff c \<le> length (cbuf c)"

lemma cursor_simps [simp]:
  "cbuf (adv n c) = cbuf c" "coff (adv n c) = coff c + n" "adv 0 c = c"
  "adv m (adv n c) = adv (n + m) c"
  "cbuf (mk_cursor bs) = bs" "coff (mk_cursor bs) = 0"
  by (simp_all add: adv_def mk_cursor_def)

lemma rest_adv [simp]: "rest (adv n c) = drop n (rest c)"
  by (simp add: rest_def add.commute)

lemma rest_mk [simp]: "rest (mk_cursor bs) = bs"
  by (simp add: rest_def)

lemma remaining_rest: "remaining c = length (rest c)"
  by (simp add: remaining_def rest_def)

lemma length_rest_pos: "coff c < length (cbuf c) \<longleftrightarrow> rest c \<noteq> []"
  by (auto simp: rest_def)

lemma nth_rest: "rest c \<noteq> [] \<Longrightarrow> cbuf c ! coff c = hd (rest c)"
  by (simp add: rest_def hd_drop_conv_nth)

lemma take_rest: "take n (drop (coff c) (cbuf c)) = take n (rest c)"
  by (simp add: rest_def)

lemma good_mk [simp]: "good (mk_cursor bs)"
  by (simp add: good_def)

lemma good_adv: "good c \<Longrightarrow> n \<le> remaining c \<Longrightarrow> good (adv n c)"
  by (simp add: good_def remaining_def)

lemma at_end_rest: "good c \<Longrightarrow> at_end c \<longleftrightarrow> rest c = []"
  by (auto simp: good_def at_end_def rest_def)

text \<open>The loop that reads \<open>n\<close> bytes into an accumulator, with the cursor's own indexing.\<close>

fun read_be :: "nat \<Rightarrow> u64 \<Rightarrow> cursor \<Rightarrow> u64 \<times> cursor" where
  "read_be 0 out c = (out, c)"
| "read_be (Suc n) out c = read_be n (push_bit 8 out OR ucast (cbuf c ! coff c)) (adv 1 c)"

lemma read_be_eq: "n \<le> remaining c \<Longrightarrow> read_be n out c = (be_fold out (take n (rest c)), adv n c)"
proof (induction n arbitrary: out c)
  case (Suc n)
  then have ne: "rest c \<noteq> []" by (auto simp: remaining_rest)
  then have tk: "take (Suc n) (rest c) = cbuf c ! coff c # take n (rest (adv 1 c))"
    by (cases "rest c") (auto simp: nth_rest)
  from Suc.prems have "n \<le> remaining (adv 1 c)"
    by (simp add: remaining_def)
  then show ?case by (simp add: Suc.IH tk)
qed simp

section \<open>Loops\<close>

lemma ball_list: "P x \<Longrightarrow> \<forall>y \<in> set ys. P y \<Longrightarrow> \<forall>y \<in> set (x # ys). P y" "\<forall>y \<in> set []. P y"
  by simp_all


text \<open>
  \<^verbatim>\<open>for (i = 0; i < n; i++) { body }\<close> where the body either returns from the function with an
  error (\<open>Inl\<close>) or goes on with an updated state.
\<close>

fun for_loop :: "nat \<Rightarrow> ('s \<Rightarrow> 'e + 's) \<Rightarrow> 's \<Rightarrow> 'e + 's" where
  "for_loop n body s =
     (if n = 0 then Inr s
      else case body s of Inl e \<Rightarrow> Inl e | Inr s' \<Rightarrow> for_loop (n - 1) body s')"

declare for_loop.simps [simp del]

lemma for_loop_0 [simp]: "for_loop 0 body s = Inr s"
  by (simp add: for_loop.simps)

lemma for_loop_Suc: "for_loop (Suc n) body s =
    (case body s of Inl e \<Rightarrow> Inl e | Inr s' \<Rightarrow> for_loop n body s')"
  by (simp add: for_loop.simps [of "Suc n"] split: sum.split)

lemma for_loop_numeral [simp]: "for_loop (numeral k) body s =
    (case body s of Inl e \<Rightarrow> Inl e | Inr s' \<Rightarrow> for_loop (pred_numeral k) body s')"
  by (simp add: for_loop_Suc numeral_eq_Suc)

lemma for_loop_inv:
  assumes "for_loop n body s = Inr t" and "P s"
    and "\<And>s s'. P s \<Longrightarrow> body s = Inr s' \<Longrightarrow> P s'"
  shows "P t"
  using assms(1,2)
proof (induction n arbitrary: s)
  case (Suc n)
  then show ?case by (auto simp: for_loop_Suc split: sum.splits intro: assms(3))
qed simp

text \<open>
  One disjunct of a chain \<^verbatim>\<open>if (!f(..) || bad || !g(..)) return MALFORMED;\<close>: the chain is the
  composition of its disjuncts in the option monad.
\<close>

definition ensure :: "bool \<Rightarrow> unit option" where
  "ensure b = (if b then Some () else None)"

lemma ensure_simps [simp]: "ensure True = Some ()" "ensure False = None"
  by (simp_all add: ensure_def)

lemma ensure_Some [simp]: "ensure b = Some u \<longleftrightarrow> b"
  by (simp add: ensure_def)

section \<open>A Hoare logic for the state monad\<close>

definition hoare :: "('s \<Rightarrow> bool) \<Rightarrow> ('s, 'a) state \<Rightarrow> ('a \<Rightarrow> 's \<Rightarrow> bool) \<Rightarrow> bool" where
  "hoare P m Q \<longleftrightarrow> (\<forall>s. P s \<longrightarrow> Q (fst (run_state m s)) (snd (run_state m s)))"

lemma hoareD: "hoare P m Q \<Longrightarrow> P s \<Longrightarrow> run_state m s = (r, s') \<Longrightarrow> Q r s'"
  by (auto simp: hoare_def)

lemma hoareI: "(\<And>s r s'. P s \<Longrightarrow> run_state m s = (r, s') \<Longrightarrow> Q r s') \<Longrightarrow> hoare P m Q"
  by (auto simp: hoare_def intro: prod.collapse [symmetric])

lemma hoare_return [wp]: "(\<And>s. P s \<Longrightarrow> Q x s) \<Longrightarrow> hoare P (State_Monad.return x) Q"
  by (simp add: hoare_def)

lemma hoare_bind: "hoare P m R \<Longrightarrow> (\<And>x. hoare (R x) (f x) Q) \<Longrightarrow> hoare P (State_Monad.bind m f) Q"
  by (force simp: hoare_def split: prod.splits)

lemma hoare_if [wp]: "(b \<Longrightarrow> hoare P m Q) \<Longrightarrow> (\<not> b \<Longrightarrow> hoare P m' Q) \<Longrightarrow> hoare P (if b then m else m') Q"
  by simp

lemma hoare_case_sum [wp]:
  "(\<And>e. r = Inl e \<Longrightarrow> hoare P (f e) Q) \<Longrightarrow> (\<And>x. r = Inr x \<Longrightarrow> hoare P (g x) Q) \<Longrightarrow>
   hoare P (case r of Inl e \<Rightarrow> f e | Inr x \<Rightarrow> g x) Q"
  by (cases r) auto

lemma hoare_conseq:
  "hoare P m Q \<Longrightarrow> (\<And>s. P' s \<Longrightarrow> P s) \<Longrightarrow> (\<And>r s. Q r s \<Longrightarrow> Q' r s) \<Longrightarrow> hoare P' m Q'"
  by (auto simp: hoare_def)

lemma hoare_pre: "hoare P m Q \<Longrightarrow> (\<And>s. P' s \<Longrightarrow> P s) \<Longrightarrow> hoare P' m Q"
  by (rule hoare_conseq)

lemma hoare_post: "hoare P m Q \<Longrightarrow> (\<And>r s. Q r s \<Longrightarrow> Q' r s) \<Longrightarrow> hoare P m Q'"
  by (rule hoare_conseq)

lemma hoare_conj: "hoare P m Q \<Longrightarrow> hoare P' m Q' \<Longrightarrow> hoare (\<lambda>s. P s \<and> P' s) m (\<lambda>r s. Q r s \<and> Q' r s)"
  by (auto simp: hoare_def)

lemma hoare_assume: "(B \<Longrightarrow> hoare P m Q) \<Longrightarrow> hoare (\<lambda>s. B \<and> P s) m Q"
  by (auto simp: hoare_def)

lemma hoare_fst: "hoare (\<lambda>s. s = s0) m Q \<Longrightarrow> Q (fst (run_state m s0)) (snd (run_state m s0))"
  by (simp add: hoare_def)

end
