(* ===== verification/Cbor_Interface.thy ===== *)
theory Cbor_Interface
  imports Prelude "HOL-Library.Sublist"
begin

text \<open>
  The interface between the CBOR encoders and decoders of the program. The repository has four
  encoders and three decoders of a CBOR head (major type and argument); each pair that talks to
  each other interprets the locale \<open>cbor_codec\<close> in the theory that models it, and takes the
  lemmas on whole strings and on the size of what is written from here.
\<close>

text \<open>
  The step all string readers share after they have read the head: refuse a length that exceeds
  what is left, otherwise return a view of the bytes and advance the cursor over them.
\<close>

definition take_view :: "u64 \<Rightarrow> cursor \<Rightarrow> (bytes \<times> cursor) option" where
  "take_view n c =
     (if unat n > remaining c then None
      else Some (take (unat n) (drop (coff c) (cbuf c)), adv (unat n) c))"

lemma take_view_rest: "take_view n c =
    (if unat n > remaining c then None else Some (take (unat n) (rest c), adv (unat n) c))"
  by (simp add: take_view_def rest_def)

lemma take_view_Some:
  "take_view n c = Some (s, c') \<longleftrightarrow>
     unat n \<le> remaining c \<and> s = take (unat n) (rest c) \<and> c' = adv (unat n) c"
  by (auto simp: take_view_def take_rest)

lemma take_view_length: "take_view n c = Some (s, c') \<Longrightarrow> length s = unat n"
  by (auto simp: take_view_Some remaining_rest)

lemma take_view_good: "good c \<Longrightarrow> take_view n c = Some (s, c') \<Longrightarrow> good c'"
  by (auto simp: take_view_Some intro: good_adv)

lemma unat_of_nat_u64: "n < 2 ^ 64 \<Longrightarrow> unat (of_nat n :: u64) = n"
  by (simp add: unat_of_nat)

locale cbor_codec =
  fixes wr :: "byte \<Rightarrow> u64 \<Rightarrow> bytes"
    and rd :: "cursor \<Rightarrow> byte \<Rightarrow> (u64 \<times> cursor) option"
    and ok :: "u64 \<Rightarrow> bool"
    and sz :: "u64 \<Rightarrow> nat"
  assumes rd_wr: "major < 8 \<Longrightarrow> ok v \<Longrightarrow> rest c = wr major v @ zs \<Longrightarrow>
      rd c major = Some (v, adv (length (wr major v)) c)"
    and wr_size: "major < 8 \<Longrightarrow> ok v \<Longrightarrow> length (wr major v) = sz v"
    and rd_adv: "rd c major = Some (v, c') \<Longrightarrow> \<exists>k. 0 < k \<and> k \<le> remaining c \<and> c' = adv k c"
begin

lemma rd_good: "good c \<Longrightarrow> rd c major = Some (v, c') \<Longrightarrow> good c'"
  using rd_adv [of c major v c'] by (auto intro: good_adv)

lemma rd_progress: "rd c major = Some (v, c') \<Longrightarrow> remaining c' < remaining c"
  using rd_adv [of c major v c'] by (auto simp: remaining_def)

text \<open>A string written as head and contents is read back as one view.\<close>

lemma rd_view:
  assumes "major < 8" and "length s < 2 ^ 64" and "ok (of_nat (length s))"
    and "rest c = wr major (of_nat (length s)) @ s @ zs"
  shows "(case rd c major of None \<Rightarrow> None | Some (n, c1) \<Rightarrow> take_view n c1) =
         Some (s, adv (length (wr major (of_nat (length s))) + length s) c)"
proof -
  have "rd c major = Some (of_nat (length s), adv (length (wr major (of_nat (length s)))) c)"
    using assms by (intro rd_wr) auto
  then show ?thesis
    using assms(2,4) by (simp add: take_view_rest remaining_rest unat_of_nat_u64)
qed

text \<open>A reader of strings built on the codec stays within its buffer.\<close>

lemma rd_view_good:
  assumes "good c"
    and "(case rd c major of None \<Rightarrow> None | Some (n, c1) \<Rightarrow> take_view n c1) = Some (s, c')"
  shows "good c' \<and> remaining c' < remaining c \<and> length s \<le> remaining c"
proof -
  from assms(2) obtain n c1 where rd: "rd c major = Some (n, c1)" and tv: "take_view n c1 = Some (s, c')"
    by (auto split: option.splits)
  from rd have "remaining c1 < remaining c" and g: "good c1"
    using assms(1) by (auto intro: rd_progress rd_good)
  with tv show ?thesis
    by (auto simp: take_view_Some remaining_def intro: good_adv)
qed

lemma size_view: "major < 8 \<Longrightarrow> ok (of_nat (length s)) \<Longrightarrow>
   length (wr major (of_nat (length s)) @ s) = sz (of_nat (length s)) + length s"
  by (simp add: wr_size)

end

section \<open>Map readers\<close>

text \<open>
  The frame that the map parsers of the program share: a map head, and for every entry a text key and
  a value that the parser handles by its key. The trusted application and the host library have
  readers of their own for the head and the keys, and return different values on failure.
\<close>

type_synonym ('e, 's) field_parser = "bytes \<Rightarrow> cursor \<Rightarrow> 's \<Rightarrow> 'e + cursor \<times> 's"

definition map_entry ::
  "(cursor \<Rightarrow> (bytes \<times> cursor) option) \<Rightarrow> 'e \<Rightarrow> ('e, 's) field_parser \<Rightarrow> cursor \<times> 's \<Rightarrow> 'e + cursor \<times> 's" where
  "map_entry rd_key err field cs =
     (case rd_key (fst cs) of None \<Rightarrow> Inl err | Some (key, c1) \<Rightarrow> field key c1 (snd cs))"

definition map_entries ::
  "(cursor \<Rightarrow> (u64 \<times> cursor) option) \<Rightarrow> (cursor \<Rightarrow> (bytes \<times> cursor) option) \<Rightarrow> 'e \<Rightarrow>
   ('e, 's) field_parser \<Rightarrow> cursor \<Rightarrow> 's \<Rightarrow> 'e + cursor \<times> 's" where
  "map_entries rd_head rd_key err field cur s =
     (case rd_head cur of None \<Rightarrow> Inl err
      | Some (map_len, c1) \<Rightarrow> for_loop (unat map_len) (map_entry rd_key err field) (c1, s))"

text \<open>A value stored by an update of the parser's state, and a value that is only passed over.\<close>

definition stored :: "('v \<Rightarrow> 's \<Rightarrow> 's) \<Rightarrow> 's \<Rightarrow> 'e + 'v \<times> cursor \<Rightarrow> 'e + cursor \<times> 's" where
  "stored upd s r = (case r of Inl e \<Rightarrow> Inl e | Inr (v, c1) \<Rightarrow> Inr (c1, upd v s))"

definition passed :: "('s \<Rightarrow> 's) \<Rightarrow> 's \<Rightarrow> 'e + cursor \<Rightarrow> 'e + cursor \<times> 's" where
  "passed upd s r = (case r of Inl e \<Rightarrow> Inl e | Inr c1 \<Rightarrow> Inr (c1, upd s))"

lemma stored_Inr: "stored upd s r = Inr (c', s') \<longleftrightarrow> (\<exists>v. r = Inr (v, c') \<and> s' = upd v s)"
  by (auto simp: stored_def split: sum.splits)

lemma passed_Inr: "passed upd s r = Inr (c', s') \<longleftrightarrow> r = Inr c' \<and> s' = upd s"
  by (auto simp: passed_def split: sum.splits)

lemma stored_ok [simp]: "stored upd s (Inr (v, c)) = Inr (c, upd v s)"
  by (simp add: stored_def)

lemma passed_ok [simp]: "passed upd s (Inr c) = Inr (c, upd s)"
  by (simp add: passed_def)

lemma storedE: "stored upd s r = Inr (c', s') \<Longrightarrow> (\<And>v. r = Inr (v, c') \<Longrightarrow> s' = upd v s \<Longrightarrow> P) \<Longrightarrow> P"
  by (auto simp: stored_Inr)

lemma passedE: "passed upd s r = Inr (c', s') \<Longrightarrow> (r = Inr c' \<Longrightarrow> s' = upd s \<Longrightarrow> P) \<Longrightarrow> P"
  by (simp add: passed_Inr)

lemma if_chain: "(if b then x else y) = r \<Longrightarrow> (x = r \<Longrightarrow> P) \<Longrightarrow> (y = r \<Longrightarrow> P) \<Longrightarrow> P"
  by (simp split: if_splits)

text \<open>
  \<open>within buf c\<close>: the cursor reads \<open>buf\<close> and its offset lies within it. Every reader keeps this, and
  the views it returns are parts of \<open>buf\<close>.
\<close>

definition within :: "bytes \<Rightarrow> cursor \<Rightarrow> bool" where
  "within buf c \<longleftrightarrow> cbuf c = buf \<and> good c"

lemma within_mk [simp]: "within buf (mk_cursor buf)"
  by (simp add: within_def)

lemma within_adv: "within buf c \<Longrightarrow> rest c = s @ zs \<Longrightarrow> within buf (adv (length s) c)"
  by (simp add: within_def good_adv remaining_rest)

lemma within_sublist: "within buf c \<Longrightarrow> rest c = h @ v @ zs \<Longrightarrow> sublist v buf"
proof -
  assume w: "within buf c" and r: "rest c = h @ v @ zs"
  have "buf = take (coff c) buf @ rest c" using w by (simp add: within_def rest_def)
  then have "buf = (take (coff c) buf @ h) @ v @ zs" using r by simp
  then show ?thesis unfolding sublist_def by blast
qed

text \<open>
  The writing side: an entry is a byte string that a round of the loop consumes with a known effect
  on the state of the parser.
\<close>

definition entry_ok ::
  "(cursor \<Rightarrow> (bytes \<times> cursor) option) \<Rightarrow> 'e \<Rightarrow> ('e, 's) field_parser \<Rightarrow> bytes \<times> ('s \<Rightarrow> 's) \<Rightarrow> bool" where
  "entry_ok rd_key err field e \<longleftrightarrow>
     (\<forall>c zs s. rest c = fst e @ zs \<longrightarrow> map_entry rd_key err field (c, s) = Inr (adv (length (fst e)) c, snd e s))"

locale map_reader =
  fixes rd_head :: "cursor \<Rightarrow> (u64 \<times> cursor) option"
    and rd_key :: "cursor \<Rightarrow> (bytes \<times> cursor) option"
    and err :: 'e
  assumes head_adv: "rd_head c = Some (n, c') \<Longrightarrow> \<exists>h zs. rest c = h @ zs \<and> c' = adv (length h) c"
    and key_adv: "rd_key c = Some (k, c') \<Longrightarrow> \<exists>h zs. rest c = h @ zs \<and> c' = adv (length h) c"
begin

text \<open>A property of the parser's state that every field keeps holds at the end.\<close>

lemma entries_inv:
  assumes "map_entries rd_head rd_key err field c0 s = Inr (c2, s')" and "within buf c0" and "P s"
    and step: "\<And>key c s c' s'. within buf c \<Longrightarrow> P s \<Longrightarrow> field key c s = Inr (c', s') \<Longrightarrow> within buf c' \<and> P s'"
  shows "within buf c2 \<and> P s'"
proof -
  from assms(1) obtain n c1 where h: "rd_head c0 = Some (n, c1)"
    and l: "for_loop (unat n) (map_entry rd_key err field) (c1, s) = Inr (c2, s')"
    by (auto simp: map_entries_def split: option.splits)
  have "(\<lambda>(c, s). within buf c \<and> P s) (c2, s')"
  proof (rule for_loop_inv [OF l])
    show "(\<lambda>(c, s). within buf c \<and> P s) (c1, s)"
      using head_adv [OF h] assms(2,3) by (auto intro: within_adv)
    fix cs cs' assume cs: "(\<lambda>(c, s). within buf c \<and> P s) cs" and e: "map_entry rd_key err field cs = Inr cs'"
    from e obtain k c1 where k: "rd_key (fst cs) = Some (k, c1)" and f: "field k c1 (snd cs) = Inr cs'"
      by (auto simp: map_entry_def split: option.splits)
    from k cs have "within buf c1" by (auto dest!: key_adv intro: within_adv)
    with step [OF this, of "snd cs" k "fst cs'" "snd cs'"] f cs
    show "(\<lambda>(c, s). within buf c \<and> P s) cs'" by (cases cs; cases cs') auto
  qed
  then show ?thesis by simp
qed

lemma loop_entries:
  "\<forall>e \<in> set es. entry_ok rd_key err field e \<Longrightarrow> rest c = concat (map fst es) @ zs \<Longrightarrow>
   for_loop (length es) (map_entry rd_key err field) (c, s) =
     Inr (adv (length (concat (map fst es))) c, fold snd es s)"
proof (induction es arbitrary: c s)
  case (Cons e es)
  then have "map_entry rd_key err field (c, s) = Inr (adv (length (fst e)) c, snd e s)"
    by (simp add: entry_ok_def)
  with Cons show ?case by (simp add: for_loop_Suc)
qed simp

lemma entries_write:
  assumes "rd_head c = Some (n, adv (length h) c)" and "unat n = length es"
    and "\<forall>e \<in> set es. entry_ok rd_key err field e" and "rest c = h @ concat (map fst es) @ zs"
  shows "map_entries rd_head rd_key err field c s =
     Inr (adv (length (h @ concat (map fst es))) c, fold snd es s)"
  using loop_entries [OF assms(3), of "adv (length h) c" zs s] assms(1,2,4) by (simp add: map_entries_def)

lemma entryI:
  assumes "\<And>c zs. rest c = k @ zs \<Longrightarrow> rd_key c = Some (key, adv (length k) c)"
    and "\<And>c zs s. rest c = v @ zs \<Longrightarrow> field key c s = Inr (adv (length v) c, upd s)"
  shows "entry_ok rd_key err field (k @ v, upd)"
  unfolding entry_ok_def
proof (intro allI impI)
  fix c zs s assume r: "rest c = fst (k @ v, upd) @ zs"
  then have "rd_key c = Some (key, adv (length k) c)" by (intro assms(1)) simp
  moreover have "field key (adv (length k) c) s = Inr (adv (length v) (adv (length k) c), upd s)"
    by (rule assms(2)) (use r in simp)
  ultimately show "map_entry rd_key err field (c, s) = Inr (adv (length (fst (k @ v, upd))) c, snd (k @ v, upd) s)"
    by (simp add: map_entry_def)
qed

end

end
