(* ===== verification/Canonical_Cbor.thy ===== *)
theory Canonical_Cbor
  imports Cbor_Interface
begin

text \<open>
  The strict CBOR subset in which the trusted application keeps its own records
  (\<^verbatim>\<open>optee/twep-wr-ta/ta/acceptance_state.c\<close>): definite lengths, shortest heads only, and map keys
  in a fixed order. The reader refuses a head that is not the shortest one, so that the encoding
  of a value is unique.
\<close>

section \<open>Reading\<close>

text \<open>The number of argument bytes that follow the initial byte.\<close>

definition ai_bytes :: "byte \<Rightarrow> nat option" where
  "ai_bytes ai = (if ai = 24 then Some 1 else if ai = 25 then Some 2
     else if ai = 26 then Some 4 else if ai = 27 then Some 8 else None)"

definition read_uint :: "cursor \<Rightarrow> byte \<Rightarrow> (u64 \<times> cursor) option" where
  "read_uint cur major =
     (if coff cur \<ge> length (cbuf cur) then None
      else let initial = cbuf cur ! coff cur; c1 = adv 1 cur in
        if drop_bit 5 initial \<noteq> major then None
        else let ai = initial AND 0x1f in
          if ai < 24 then Some (ucast ai, c1)
          else case ai_bytes ai of None \<Rightarrow> None
          | Some n \<Rightarrow>
            if n > remaining c1 then None
            else let (out, c2) = read_be n 0 c1 in
              if (n = 1 \<and> out < 24) \<or> (n = 2 \<and> out \<le> 0xff) \<or>
                 (n = 4 \<and> out \<le> 0xffff) \<or> (n = 8 \<and> out \<le> 0xffffffff)
              then None else Some (out, c2))"

text \<open>
  The test \<^verbatim>\<open>n > SIZE_MAX\<close> of the source is subsumed by the test against what is left in the
  buffer, whose length is a \<^verbatim>\<open>size_t\<close>.
\<close>

definition read_bytes :: "cursor \<Rightarrow> byte \<Rightarrow> (bytes \<times> cursor) option" where
  "read_bytes cur major =
     (case read_uint cur major of None \<Rightarrow> None | Some (n, c1) \<Rightarrow> take_view n c1)"

definition read_expected_text :: "cursor \<Rightarrow> bytes \<Rightarrow> cursor option" where
  "read_expected_text cur expected =
     (case read_bytes cur 3 of None \<Rightarrow> None
      | Some (value, c1) \<Rightarrow>
          if length value = length expected \<and> mem_compare value expected = 0 then Some c1
          else None)"

definition canonical_bstr_compare :: "bytes \<Rightarrow> bytes \<Rightarrow> int" where
  "canonical_bstr_compare a b =
     (if length a < length b then -1 else if length a > length b then 1 else mem_compare a b)"

section \<open>Writing\<close>

definition type_len_size :: "u64 \<Rightarrow> nat" where
  "type_len_size value =
     (if value < 24 then 1 else if value \<le> 0xff then 2 else if value \<le> 0xffff then 3
      else if value \<le> 0xffffffff then 5 else 9)"

definition text_size :: "bytes \<Rightarrow> nat" where
  "text_size text = type_len_size (of_nat (length text)) + length text"

definition bstr_size :: "nat \<Rightarrow> nat" where
  "bstr_size len = type_len_size (of_nat len) + len"

definition write_type_len :: "byte \<Rightarrow> u64 \<Rightarrow> bytes" where
  "write_type_len major value =
     (let n = type_len_size value - 1 in
      if n = 0 then [push_bit 5 major OR ucast value]
      else (push_bit 5 major OR (if n = 1 then 24 else if n = 2 then 25 else if n = 4 then 26 else 27))
           # be_bytes n value)"

definition write_text :: "bytes \<Rightarrow> bytes" where
  "write_text text = write_type_len 3 (of_nat (length text)) @ text"

definition write_bstr :: "bytes \<Rightarrow> bytes" where
  "write_bstr bs = write_type_len 2 (of_nat (length bs)) @ bs"

section \<open>The codec\<close>

lemma byte_less_numeral_bits: "(major :: byte) < 8 \<Longrightarrow> x < 32 \<Longrightarrow>
    drop_bit 5 (push_bit 5 major OR x) = major \<and> (push_bit 5 major OR x) AND 31 = x"
proof -
  assume "major < 8" "x < 32"
  have "\<forall>m \<in> {0..<8 :: nat}. \<forall>y \<in> {0..<32 :: nat}.
     drop_bit 5 (push_bit 5 (of_nat m :: byte) OR of_nat y) = (of_nat m :: byte) \<and>
     (push_bit 5 (of_nat m) OR of_nat y) AND 31 = (of_nat y :: byte)"
    by code_simp
  moreover have "unat major < 8" "unat x < 32"
    using \<open>major < 8\<close> \<open>x < 32\<close> by (simp_all add: word_less_nat_alt)
  ultimately show ?thesis
    by (metis atLeastLessThan_iff le0 of_nat_unat ucast_id)
qed

lemma type_len_size_cases:
  obtains "v < 24" "type_len_size v = 1"
  | "24 \<le> v" "v \<le> 0xff" "type_len_size v = 2"
  | "0xff < v" "v \<le> 0xffff" "type_len_size v = 3"
  | "0xffff < v" "v \<le> 0xffffffff" "type_len_size v = 5"
  | "0xffffffff < v" "type_len_size v = 9"
  by (cases "v < 24"; cases "v \<le> 0xff"; cases "v \<le> 0xffff"; cases "v \<le> 0xffffffff")
    (auto simp: type_len_size_def not_less not_le word_less_nat_alt word_le_nat_alt)

lemma ucast_ucast_byte: "ucast (ucast (v :: u64) :: byte) = take_bit 8 v"
  by (rule bit_word_eqI) (auto simp: bit_simps)

lemma ucast_small:
  assumes "(v :: u64) < 24"
  shows "ucast (ucast v :: byte) = v" and "(ucast v :: byte) < 24"
proof -
  show eq: "ucast (ucast v :: byte) = v"
  proof -
    have "v < 2 ^ 8" using assms by (simp add: word_less_nat_alt)
    then show ?thesis by (simp add: ucast_ucast_byte take_bit_u64_small)
  qed
  have "unat v < 24" using assms by (simp add: word_less_nat_alt)
  then have "take_bit 8 (unat v) < 24"
    by (rule le_less_trans [OF take_bit_nat_less_eq_self])
  then show "(ucast v :: byte) < 24"
    by (simp add: word_less_nat_alt unsigned_ucast_eq)
qed

lemma read_uint_long:
  assumes "rest c = (push_bit 5 major OR code) # be_bytes n v @ zs" and "major < 8"
    and "ai_bytes code = Some n" and "be_fold 0 (be_bytes n v) = v"
    and "\<not> ((n = 1 \<and> v < 24) \<or> (n = 2 \<and> v \<le> 0xff) \<or> (n = 4 \<and> v \<le> 0xffff) \<or> (n = 8 \<and> v \<le> 0xffffffff))"
  shows "read_uint c major = Some (v, adv (Suc n) c)"
proof -
  from assms(3) have code: "code < 32" "\<not> code < 24"
    by (auto simp: ai_bytes_def split: if_splits)
  from assms(1) have "rest c \<noteq> []" and hd: "hd (rest c) = push_bit 5 major OR code" by auto
  then have "coff c < length (cbuf c)" and ini: "cbuf c ! coff c = push_bit 5 major OR code"
    by (simp_all add: length_rest_pos nth_rest)
  moreover have "n \<le> remaining (adv 1 c)" using assms(1) by (simp add: remaining_rest)
  moreover have "read_be n 0 (adv 1 c) = (v, adv (Suc n) c)"
    using assms(1,4) by (simp add: read_be_eq remaining_rest)
  ultimately show ?thesis
    using assms(2,3,5) code byte_less_numeral_bits [OF assms(2) code(1)]
    by (simp add: read_uint_def Let_def)
qed

lemma read_uint_short:
  assumes "rest c = (push_bit 5 major OR ucast v) # zs" and "major < 8" and "v < 24"
  shows "read_uint c major = Some (v, adv 1 c)"
proof -
  from assms(1) have "coff c < length (cbuf c)" and "cbuf c ! coff c = push_bit 5 major OR ucast v"
    by (simp_all add: length_rest_pos nth_rest)
  moreover have "(ucast v :: byte) < 32"
    using ucast_small(2) [OF assms(3)] by (rule less_trans) simp
  ultimately show ?thesis
    using byte_less_numeral_bits [OF assms(2), of "ucast v"] ucast_small [OF assms(3)]
    by (simp add: read_uint_def Let_def)
qed

lemma read_uint_write_type_len:
  assumes "major < 8" and rest: "rest c = write_type_len major v @ zs"
  shows "read_uint c major = Some (v, adv (length (write_type_len major v)) c)"
proof (cases v rule: type_len_size_cases)
  case 1
  with assms show ?thesis
    by (simp add: write_type_len_def read_uint_short)
next
  case 2
  then have "be_fold 0 (be_bytes 1 v) = v"
    by (intro be_fold_be_bytes_0) (auto simp: word_less_nat_alt word_le_nat_alt)
  moreover have "write_type_len major v = (push_bit 5 major OR 24) # be_bytes 1 v"
    using 2 by (simp add: write_type_len_def)
  ultimately show ?thesis
    using 2 assms read_uint_long [of c major 24 1 v zs]
    by (simp add: ai_bytes_def not_less not_le)
next
  case 3
  then have "be_fold 0 (be_bytes 2 v) = v"
    by (intro be_fold_be_bytes_0) (auto simp: word_less_nat_alt word_le_nat_alt)
  moreover have "write_type_len major v = (push_bit 5 major OR 25) # be_bytes 2 v"
    using 3 by (simp add: write_type_len_def)
  ultimately show ?thesis
    using 3 assms read_uint_long [of c major 25 2 v zs]
    by (simp add: ai_bytes_def not_less not_le)
next
  case 4
  then have "be_fold 0 (be_bytes 4 v) = v"
    by (intro be_fold_be_bytes_0) (auto simp: word_less_nat_alt word_le_nat_alt)
  moreover have "write_type_len major v = (push_bit 5 major OR 26) # be_bytes 4 v"
    using 4 by (simp add: write_type_len_def)
  ultimately show ?thesis
    using 4 assms read_uint_long [of c major 26 4 v zs]
    by (simp add: ai_bytes_def not_less not_le)
next
  case 5
  then have "write_type_len major v = (push_bit 5 major OR 27) # be_bytes 8 v"
    by (simp add: write_type_len_def)
  then show ?thesis
    using 5 assms read_uint_long [of c major 27 8 v zs] be_fold_be_bytes_64
    by (simp add: ai_bytes_def not_le del: be_bytes.simps)
qed

lemma length_write_type_len: "length (write_type_len major v) = type_len_size v"
  by (cases v rule: type_len_size_cases) (simp_all add: write_type_len_def)

lemma read_uint_adv:
  assumes "read_uint c major = Some (v, c')"
  shows "\<exists>k. 0 < k \<and> k \<le> remaining c \<and> c' = adv k c"
proof -
  let ?ai = "cbuf c ! coff c AND 31"
  from assms have lt: "coff c < length (cbuf c)"
    by (simp add: read_uint_def split: if_splits)
  show ?thesis
  proof (cases "?ai < 24")
    case True
    with assms lt have "c' = adv 1 c" by (auto simp: read_uint_def Let_def split: if_splits)
    with lt show ?thesis by (auto simp: remaining_def intro!: exI [of _ 1])
  next
    case False
    with assms lt obtain n where n: "ai_bytes ?ai = Some n"
      by (cases "ai_bytes ?ai") (simp_all add: read_uint_def Let_def split: if_splits)
    have le: "n \<le> remaining (adv 1 c)"
      using assms lt n False by (simp add: read_uint_def Let_def not_less split: if_splits)
    have "c' = snd (read_be n 0 (adv 1 c))"
      using assms lt n False le by (simp add: read_uint_def Let_def split: if_splits prod.splits)
    with le lt show ?thesis by (auto simp: read_be_eq remaining_def intro!: exI [of _ "Suc n"])
  qed
qed

interpretation canon: cbor_codec write_type_len read_uint "\<lambda>_. True" type_len_size
  by unfold_locales (simp_all add: read_uint_write_type_len length_write_type_len read_uint_adv)

text \<open>The strings of the records, field by field.\<close>

lemma read_bytes_write:
  assumes "major < 8" and "length s < 2 ^ 64"
    and "rest c = write_type_len major (of_nat (length s)) @ s @ zs"
  shows "read_bytes c major = Some (s, adv (length (write_type_len major (of_nat (length s))) + length s) c)"
  unfolding read_bytes_def using assms by (intro canon.rd_view) auto

lemma read_bytes_bstr [codec_simps]:
  "rest c = write_bstr s @ zs \<Longrightarrow> length s < 2 ^ 64 \<Longrightarrow>
   read_bytes c 2 = Some (s, adv (length (write_bstr s)) c)"
  by (simp add: read_bytes_write write_bstr_def)

lemma read_uint_0 [codec_simps]:
  "rest c = write_type_len 0 v @ zs \<Longrightarrow> read_uint c 0 = Some (v, adv (length (write_type_len 0 v)) c)"
  by (rule read_uint_write_type_len) simp_all

lemma read_uint_5 [codec_simps]:
  "rest c = write_type_len 5 v @ zs \<Longrightarrow> read_uint c 5 = Some (v, adv (length (write_type_len 5 v)) c)"
  by (rule read_uint_write_type_len) simp_all

lemma read_expected_text_write [codec_simps]:
  "length s < 2 ^ 64 \<Longrightarrow> rest c = write_text s @ zs \<Longrightarrow>
   read_expected_text c s = Some (adv (length (write_text s)) c)"
  by (simp add: read_expected_text_def read_bytes_write write_text_def mem_compare_eq0)

text \<open>The same for a field that ends the record.\<close>

lemma read_last_field [codec_simps]:
  "rest c = write_bstr s \<Longrightarrow> length s < 2 ^ 64 \<Longrightarrow>
   read_bytes c 2 = Some (s, adv (length (write_bstr s)) c)"
  "rest c = write_type_len 0 v \<Longrightarrow> read_uint c 0 = Some (v, adv (length (write_type_len 0 v)) c)"
  using read_bytes_bstr [of c s "[]"] read_uint_0 [of c v "[]"] by simp_all

lemma length_write_text: "length (write_text s) = text_size s"
  by (simp add: write_text_def text_size_def length_write_type_len)

lemma length_write_bstr: "length (write_bstr s) = bstr_size (length s)"
  by (simp add: write_bstr_def bstr_size_def length_write_type_len)

lemmas write_lengths = length_write_type_len length_write_text length_write_bstr

section \<open>The encoding is unique\<close>

lemma bit_be_fold:
  "i < 64 \<Longrightarrow> 8 * length bs \<le> i \<Longrightarrow> bit (be_fold acc bs) i = bit acc (i - 8 * length bs)"
proof (induction bs arbitrary: acc)
  case (Cons b bs)
  have "\<not> bit (ucast b :: u64) (i - 8 * length bs)"
    using Cons.prems by (auto simp: bit_simps dest: bit_imp_le_length)
  with Cons show ?case by (auto simp: bit_simps diff_diff_left add.commute)
qed simp

lemma be_bytes_be_fold: "length bs \<le> 8 \<Longrightarrow> be_bytes (length bs) (be_fold acc bs) = bs"
proof (induction bs arbitrary: acc)
  case (Cons b bs)
  let ?X = "be_fold (push_bit 8 acc OR ucast b) bs"
  have "ucast (drop_bit (8 * length bs) ?X) = b"
  proof (rule bit_word_eqI)
    fix i assume "i < LENGTH(8)"
    then have "8 * length bs + i < 64" using Cons.prems by simp
    then show "bit (ucast (drop_bit (8 * length bs) ?X) :: byte) i = bit b i"
      using \<open>i < LENGTH(8)\<close> by (simp add: bit_simps bit_be_fold)
  qed
  with Cons show ?case by simp
qed simp

lemma be_fold_bound: "unat (be_fold 0 bs) < 2 ^ (8 * length bs)"
proof -
  have "take_bit (8 * length bs) (be_fold 0 bs) = be_fold 0 bs"
  proof (rule bit_word_eqI)
    fix i assume "i < LENGTH(64)"
    then show "bit (take_bit (8 * length bs) (be_fold 0 bs)) i = bit (be_fold 0 bs) i"
      by (cases "i < 8 * length bs") (auto simp: bit_simps bit_be_fold)
  qed
  then have "unat (be_fold 0 bs) = take_bit (8 * length bs) (unat (be_fold 0 bs))"
    by (metis unsigned_take_bit_eq)
  then show ?thesis by (metis take_bit_nat_less_exp)
qed

lemma byte_split: "push_bit 5 (drop_bit 5 b) OR (b AND 31) = (b :: byte)"
proof -
  have "(31 :: byte) = mask 5" by (simp add: mask_eq_exp_minus_1)
  then have "b AND 31 = take_bit 5 b" by (simp add: take_bit_eq_mask)
  then show ?thesis by (simp only:) (rule bit_word_eqI, auto simp: bit_simps)
qed

lemma read_uint_canonical:
  assumes "read_uint c major = Some (v, c')"
  shows "rest c = write_type_len major v @ rest c'"
proof -
  let ?b = "cbuf c ! coff c"
  let ?ai = "?b AND 31"
  from assms have lt: "coff c < length (cbuf c)" and major: "drop_bit 5 ?b = major"
    by (auto simp: read_uint_def Let_def split: if_splits)
  then have b: "?b = push_bit 5 major OR ?ai" using byte_split [of ?b] by simp
  have rest: "rest c = ?b # rest (adv 1 c)"
    using lt by (simp add: rest_def Cons_nth_drop_Suc)
  show ?thesis
  proof (cases "?ai < 24")
    case True
    then have sm: "unat ?ai < 24" by (simp add: word_less_nat_alt)
    from True assms lt have v: "v = ucast ?ai" "c' = adv 1 c"
      by (auto simp: read_uint_def Let_def split: if_splits)
    from sm have "take_bit 64 (unat ?ai) < 24"
      by (rule le_less_trans [OF take_bit_nat_less_eq_self])
    with v have "v < 24" by (simp add: word_less_nat_alt unsigned_ucast_eq)
    moreover have "ucast v = ?ai" unfolding v by (rule bit_word_eqI) (auto simp: bit_simps)
    ultimately show ?thesis using rest b v by (simp add: write_type_len_def type_len_size_def)
  next
    case False
    with assms lt obtain n where n: "ai_bytes ?ai = Some n"
      by (cases "ai_bytes ?ai") (simp_all add: read_uint_def Let_def split: if_splits)
    have le: "n \<le> remaining (adv 1 c)"
      using assms lt n False by (simp add: read_uint_def Let_def not_less split: if_splits)
    then have v: "v = be_fold 0 (take n (rest (adv 1 c)))" and c': "c' = adv (Suc n) c"
      and sz: "\<not> ((n = 1 \<and> v < 24) \<or> (n = 2 \<and> v \<le> 0xff) \<or> (n = 4 \<and> v \<le> 0xffff) \<or> (n = 8 \<and> v \<le> 0xffffffff))"
      using assms lt n False by (auto simp: read_uint_def Let_def read_be_eq split: if_splits)
    have "n \<le> 8" using n by (auto simp: ai_bytes_def split: if_splits)
    then have bs: "be_bytes n v = take n (rest (adv 1 c))"
      using be_bytes_be_fold [of "take n (rest (adv 1 c))" 0] le v by (simp add: remaining_rest)
    have bound: "unat v < 2 ^ (8 * n)"
      using be_fold_bound [of "take n (rest (adv 1 c))"] le v by (simp add: remaining_rest)
    have code: "?ai = (if n = 1 then 24 else if n = 2 then 25 else if n = 4 then 26 else 27)"
      and nn: "n \<in> {1, 2, 4, 8}"
      using n by (auto simp: ai_bytes_def split: if_splits)
    have "type_len_size v = Suc n"
      using nn sz bound
      by (auto simp: type_len_size_def word_less_nat_alt word_le_nat_alt not_less not_le)
    then have "write_type_len major v = (push_bit 5 major OR ?ai) # be_bytes n v"
      using nn unfolding code write_type_len_def by auto
    then have "write_type_len major v = ?b # be_bytes n v" by (simp only: b [symmetric])
    moreover have "rest c' = drop n (rest (adv 1 c))"
      unfolding c' by (simp add: rest_def add.commute)
    ultimately show ?thesis
      using rest bs by (metis append_Cons append_take_drop_id)
  qed
qed

text \<open>Strings and keys: what was read is the encoding of the result followed by the rest.\<close>

lemma read_bytes_canonical:
  assumes "read_bytes c major = Some (s, c')"
  shows "rest c = write_type_len major (of_nat (length s)) @ s @ rest c'" and "length s < 2 ^ 64"
proof -
  from assms obtain n c1 where rd: "read_uint c major = Some (n, c1)"
    and tv: "take_view n c1 = Some (s, c')"
    by (auto simp: read_bytes_def split: option.splits)
  have n: "length s = unat n" using tv by (rule take_view_length)
  show "length s < 2 ^ 64" unfolding n using unsigned_less [of n] by simp
  have "rest c1 = s @ rest c'" using tv by (auto simp: take_view_Some)
  then show "rest c = write_type_len major (of_nat (length s)) @ s @ rest c'"
    using read_uint_canonical [OF rd] by (simp add: n)
qed

lemma read_bstr_canonical: "read_bytes c 2 = Some (s, c') \<Longrightarrow> rest c = write_bstr s @ rest c'"
  using read_bytes_canonical(1) [of c 2 s c'] by (simp add: write_bstr_def)

lemma read_expected_text_canonical:
  "read_expected_text c s = Some c' \<Longrightarrow> rest c = write_text s @ rest c'"
  using read_bytes_canonical(1) [of c 3]
  by (auto simp: read_expected_text_def write_text_def mem_compare_eq0 split: option.splits if_splits)

lemma at_end_rest_Nil: "at_end c \<Longrightarrow> rest c = []"
  by (simp add: at_end_def rest_def)

lemmas canonical_reads = read_uint_canonical read_bstr_canonical read_expected_text_canonical
  at_end_rest_Nil

end
