(* ===== verification/Tee_Api.thy ===== *)
theory Tee_Api
  imports Prelude
begin

text \<open>
  The GlobalPlatform TEE Internal Core API as far as the trusted application uses it. The API is
  not part of the repository, so it is a parameter of every definition that calls it: a record of
  operations on an arbitrary world. What the code relies on is stated as two named hypotheses over
  an abstraction of the world to the contents of persistent storage:
  \<^item> \<open>storage_laws\<close>: what each operation may do to storage and what a success tells. Any
    operation may fail at any time; in particular an API that stops having any effect after some
    call (a power loss) satisfies the laws.
  \<^item> \<open>storage_reliable\<close>: in addition, no operation fails for a reason of its own.
  A simulated device at the end of the theory satisfies them.
\<close>

section \<open>Result codes\<close>

datatype tee_error =
    ERROR_BAD_PARAMETERS | ERROR_BAD_FORMAT | ERROR_BAD_STATE | ERROR_CORRUPT_OBJECT
  | ERROR_ITEM_NOT_FOUND | ERROR_NOT_SUPPORTED | ERROR_SECURITY | ERROR_ACCESS_CONFLICT
  | ERROR_ACCESS_DENIED | ERROR_OVERFLOW | ERROR_EXCESS_DATA | ERROR_SHORT_BUFFER
  | ERROR_OUT_OF_MEMORY | ERROR_GENERIC | ERROR_STORAGE_NOT_AVAILABLE | ERROR_OTHER nat

text \<open>\<^verbatim>\<open>TEE_SUCCESS\<close> with the output parameters is \<open>Inr\<close>, every other result is \<open>Inl\<close>.\<close>

type_synonym ('w, 'a) tee = "('w, tee_error + 'a) state"

abbreviation throw :: "tee_error \<Rightarrow> ('w, 'a) tee" where
  "throw e \<equiv> State_Monad.return (Inl e)"

abbreviation success :: "'a \<Rightarrow> ('w, 'a) tee" where
  "success x \<equiv> State_Monad.return (Inr x)"

text \<open>
  \<^verbatim>\<open>res = m(); if (res != TEE_SUCCESS) return res;\<close> and go on with the output. \<open>bind_or\<close> is the general
  form, for a function that returns something else than the error alone.
\<close>

definition bind_or :: "(tee_error \<Rightarrow> 'b) \<Rightarrow> ('w, 'a) tee \<Rightarrow> ('a \<Rightarrow> ('w, 'b) state) \<Rightarrow> ('w, 'b) state" where
  "bind_or fe m f = State_Monad.bind m (\<lambda>r. case r of Inl e \<Rightarrow> State_Monad.return (fe e) | Inr x \<Rightarrow> f x)"

abbreviation bind_ok :: "('w, 'a) tee \<Rightarrow> ('a \<Rightarrow> ('w, 'b) tee) \<Rightarrow> ('w, 'b) tee" where
  "bind_ok \<equiv> bind_or Inl"

lemma hoare_bind_ok:
  assumes "hoare P m R" and "\<And>e s. R (Inl e) s \<Longrightarrow> Q (fe e) s"
    and "\<And>x. hoare (R (Inr x)) (f x) Q"
  shows "hoare P (bind_or fe m f) Q"
  unfolding bind_or_def
  by (rule hoare_bind [OF assms(1)]) (auto intro!: wp assms(2) assms(3))

lemma hoare_bind_ok_result:
  assumes "hoare P m (\<lambda>r s. r = Inr x \<and> R s)" and "hoare R (f x) Q"
  shows "hoare P (bind_or fe m f) Q"
  by (rule hoare_bind_ok [OF assms(1)]) (use assms(2) in \<open>auto simp: hoare_def\<close>)

lemma hoare_bind_true:
  assumes "hoare P m (\<lambda>ok s. ok \<and> R s)" and "hoare R (f True) Q"
  shows "hoare P (State_Monad.bind m f) Q"
  by (rule hoare_bind [OF assms(1)]) (use assms(2) in \<open>auto simp: hoare_def\<close>)

section \<open>The operations\<close>

record ('w, 'h) tee_api =
  tee_open :: "bytes \<Rightarrow> ('w, 'h) tee"
  tee_info :: "'h \<Rightarrow> ('w, nat) tee"
  tee_read :: "'h \<Rightarrow> nat \<Rightarrow> ('w, bytes) tee"
  tee_close :: "'h \<Rightarrow> ('w, unit) state"
  tee_create :: "bytes \<Rightarrow> ('w, 'h) tee"
  tee_write :: "'h \<Rightarrow> bytes \<Rightarrow> ('w, unit) tee"
  tee_close_delete :: "'h \<Rightarrow> ('w, unit) state"
  tee_malloc :: "nat \<Rightarrow> ('w, bool) state"
  tee_digest_alloc :: "('w, unit) tee"
  tee_digest_final :: "bytes \<Rightarrow> ('w, bytes) tee"

type_synonym store = "bytes \<Rightarrow> bytes option"

section \<open>What the application relies on\<close>

definition storage_laws ::
  "('w, 'h) tee_api \<Rightarrow> ('w \<Rightarrow> store) \<Rightarrow> ('w \<Rightarrow> 'h \<Rightarrow> bytes option) \<Rightarrow> (bytes \<Rightarrow> bytes) \<Rightarrow> bool" where
  "storage_laws A objs hobj sha \<longleftrightarrow>
     (\<forall>id S. hoare (\<lambda>w. objs w = S) (tee_open A id) (\<lambda>r w. objs w = S \<and>
        (case r of Inr h \<Rightarrow> hobj w h = Some id \<and> S id \<noteq> None
                 | Inl e \<Rightarrow> e = ERROR_ITEM_NOT_FOUND \<longrightarrow> S id = None))) \<and>
     (\<forall>h id S. hoare (\<lambda>w. objs w = S \<and> hobj w h = Some id) (tee_info A h)
        (\<lambda>r w. objs w = S \<and> hobj w h = Some id \<and>
        (case r of Inr n \<Rightarrow> \<exists>d. S id = Some d \<and> n = length d | Inl e \<Rightarrow> e \<noteq> ERROR_ITEM_NOT_FOUND))) \<and>
     (\<forall>h n id S. hoare (\<lambda>w. objs w = S \<and> hobj w h = Some id) (tee_read A h n)
        (\<lambda>r w. objs w = S \<and>
        (case r of Inr bs \<Rightarrow> \<exists>d. S id = Some d \<and> bs = take n d | Inl e \<Rightarrow> e \<noteq> ERROR_ITEM_NOT_FOUND))) \<and>
     (\<forall>h S. hoare (\<lambda>w. objs w = S) (tee_close A h) (\<lambda>_ w. objs w = S)) \<and>
     (\<forall>id S. hoare (\<lambda>w. objs w = S) (tee_create A id) (\<lambda>r w.
        (case r of Inr h \<Rightarrow> objs w = S(id := Some []) \<and> hobj w h = Some id | Inl e \<Rightarrow> objs w = S))) \<and>
     (\<forall>h bs id S. hoare (\<lambda>w. objs w = S \<and> hobj w h = Some id \<and> S id = Some []) (tee_write A h bs)
        (\<lambda>r w. hobj w h = Some id \<and>
        (case r of Inr _ \<Rightarrow> objs w = S(id := Some bs) | Inl e \<Rightarrow> objs w = S))) \<and>
     (\<forall>h id S. hoare (\<lambda>w. objs w = S \<and> hobj w h = Some id) (tee_close_delete A h)
        (\<lambda>_ w. objs w = S \<or> objs w = S(id := None))) \<and>
     (\<forall>n S H. hoare (\<lambda>w. objs w = S \<and> hobj w = H) (tee_malloc A n) (\<lambda>_ w. objs w = S \<and> hobj w = H)) \<and>
     (\<forall>S. hoare (\<lambda>w. objs w = S) (tee_digest_alloc A) (\<lambda>_ w. objs w = S)) \<and>
     (\<forall>bs S. hoare (\<lambda>w. objs w = S) (tee_digest_final A bs)
        (\<lambda>r w. objs w = S \<and> (case r of Inr d \<Rightarrow> d = sha bs | Inl e \<Rightarrow> True)))"

lemma storage_lawsD:
  assumes "storage_laws A objs hobj sha"
  shows law_open: "hoare (\<lambda>w. objs w = S) (tee_open A i) (\<lambda>r w. objs w = S \<and>
        (case r of Inr h \<Rightarrow> hobj w h = Some i \<and> S i \<noteq> None
                 | Inl e \<Rightarrow> e = ERROR_ITEM_NOT_FOUND \<longrightarrow> S i = None))"
    and law_info: "hoare (\<lambda>w. objs w = S \<and> hobj w h = Some i) (tee_info A h)
        (\<lambda>r w. objs w = S \<and> hobj w h = Some i \<and>
        (case r of Inr n \<Rightarrow> \<exists>d. S i = Some d \<and> n = length d | Inl e \<Rightarrow> e \<noteq> ERROR_ITEM_NOT_FOUND))"
    and law_read: "hoare (\<lambda>w. objs w = S \<and> hobj w h = Some i) (tee_read A h n)
        (\<lambda>r w. objs w = S \<and>
        (case r of Inr bs \<Rightarrow> \<exists>d. S i = Some d \<and> bs = take n d | Inl e \<Rightarrow> e \<noteq> ERROR_ITEM_NOT_FOUND))"
    and law_close: "hoare (\<lambda>w. objs w = S) (tee_close A h) (\<lambda>_ w. objs w = S)"
    and law_create: "hoare (\<lambda>w. objs w = S) (tee_create A i) (\<lambda>r w.
        (case r of Inr h \<Rightarrow> objs w = S(i := Some []) \<and> hobj w h = Some i | Inl e \<Rightarrow> objs w = S))"
    and law_write: "hoare (\<lambda>w. objs w = S \<and> hobj w h = Some i \<and> S i = Some []) (tee_write A h bs)
        (\<lambda>r w. hobj w h = Some i \<and>
        (case r of Inr _ \<Rightarrow> objs w = S(i := Some bs) | Inl e \<Rightarrow> objs w = S))"
    and law_close_delete: "hoare (\<lambda>w. objs w = S \<and> hobj w h = Some i) (tee_close_delete A h)
        (\<lambda>_ w. objs w = S \<or> objs w = S(i := None))"
    and law_malloc: "hoare (\<lambda>w. objs w = S \<and> hobj w = H) (tee_malloc A n)
        (\<lambda>_ w. objs w = S \<and> hobj w = H)"
    and law_digest_alloc: "hoare (\<lambda>w. objs w = S) (tee_digest_alloc A) (\<lambda>_ w. objs w = S)"
    and law_digest_final: "hoare (\<lambda>w. objs w = S) (tee_digest_final A bs)
        (\<lambda>r w. objs w = S \<and> (case r of Inr d \<Rightarrow> d = sha bs | Inl e \<Rightarrow> True))"
  using assms by (simp_all only: storage_laws_def)

text \<open>No operation fails when its documented preconditions hold.\<close>

definition storage_reliable ::
  "('w, 'h) tee_api \<Rightarrow> ('w \<Rightarrow> store) \<Rightarrow> ('w \<Rightarrow> 'h \<Rightarrow> bytes option) \<Rightarrow> bool" where
  "storage_reliable A objs hobj \<longleftrightarrow>
     (\<forall>id S. hoare (\<lambda>w. objs w = S) (tee_open A id)
        (\<lambda>r w. if S id = None then r = Inl ERROR_ITEM_NOT_FOUND else \<exists>h. r = Inr h)) \<and>
     (\<forall>h id. hoare (\<lambda>w. hobj w h = Some id) (tee_info A h) (\<lambda>r w. \<exists>n. r = Inr n)) \<and>
     (\<forall>h n id. hoare (\<lambda>w. hobj w h = Some id) (tee_read A h n) (\<lambda>r w. \<exists>bs. r = Inr bs)) \<and>
     (\<forall>id. hoare (\<lambda>_. True) (tee_create A id) (\<lambda>r w. \<exists>h. r = Inr h)) \<and>
     (\<forall>h bs id. hoare (\<lambda>w. hobj w h = Some id) (tee_write A h bs) (\<lambda>r w. \<exists>u. r = Inr u)) \<and>
     (\<forall>n. hoare (\<lambda>_. True) (tee_malloc A n) (\<lambda>r w. r)) \<and>
     hoare (\<lambda>_. True) (tee_digest_alloc A) (\<lambda>r w. \<exists>u. r = Inr u) \<and>
     (\<forall>bs. hoare (\<lambda>_. True) (tee_digest_final A bs) (\<lambda>r w. \<exists>d. r = Inr d \<and> length d = 32))"

lemma storage_reliableD:
  assumes "storage_reliable A objs hobj"
  shows rel_open: "hoare (\<lambda>w. objs w = S) (tee_open A i)
        (\<lambda>r w. if S i = None then r = Inl ERROR_ITEM_NOT_FOUND else \<exists>h. r = Inr h)"
    and rel_info: "hoare (\<lambda>w. hobj w h = Some i) (tee_info A h) (\<lambda>r w. \<exists>n. r = Inr n)"
    and rel_read: "hoare (\<lambda>w. hobj w h = Some i) (tee_read A h n) (\<lambda>r w. \<exists>bs. r = Inr bs)"
    and rel_create: "hoare (\<lambda>_. True) (tee_create A i) (\<lambda>r w. \<exists>h. r = Inr h)"
    and rel_write: "hoare (\<lambda>w. hobj w h = Some i) (tee_write A h bs) (\<lambda>r w. \<exists>u. r = Inr u)"
    and rel_malloc: "hoare (\<lambda>_. True) (tee_malloc A n) (\<lambda>r w. r)"
    and rel_digest_alloc: "hoare (\<lambda>_. True) (tee_digest_alloc A) (\<lambda>r w. \<exists>u. r = Inr u)"
    and rel_digest_final: "hoare (\<lambda>_. True) (tee_digest_final A bs) (\<lambda>r w. \<exists>d. r = Inr d \<and> length d = 32)"
  using assms unfolding storage_reliable_def by blast+

text \<open>Whether an allocation can fail.\<close>

definition no_memory :: "('w, 'h) tee_api \<Rightarrow> bool" where
  "no_memory A \<longleftrightarrow> (\<exists>n w. \<not> fst (run_state (tee_malloc A n) w))"

lemma reliable_memory: "storage_reliable A objs hobj \<Longrightarrow> \<not> no_memory A"
  using rel_malloc by (force simp: no_memory_def hoare_def split: prod.splits)

text \<open>
  Fail-stop storage, the behaviour at a power loss: reading and digests are faithful until the
  device is \<open>dead\<close>, and a dead device stays dead and creates no objects.
\<close>

definition fail_stop ::
  "('w, 'h) tee_api \<Rightarrow> ('w \<Rightarrow> store) \<Rightarrow> ('w \<Rightarrow> 'h \<Rightarrow> bytes option) \<Rightarrow> ('w \<Rightarrow> bool) \<Rightarrow> bool" where
  "fail_stop A objs hobj dead \<longleftrightarrow>
     (\<forall>id S. hoare (\<lambda>w. objs w = S \<and> \<not> dead w) (tee_open A id)
        (\<lambda>r w. dead w \<or> (if S id = None then r = Inl ERROR_ITEM_NOT_FOUND else \<exists>h. r = Inr h))) \<and>
     (\<forall>h id. hoare (\<lambda>w. hobj w h = Some id \<and> \<not> dead w) (tee_info A h) (\<lambda>r w. dead w \<or> (\<exists>n. r = Inr n))) \<and>
     (\<forall>h n id. hoare (\<lambda>w. hobj w h = Some id \<and> \<not> dead w) (tee_read A h n) (\<lambda>r w. dead w \<or> (\<exists>bs. r = Inr bs))) \<and>
     hoare (\<lambda>w. \<not> dead w) (tee_digest_alloc A) (\<lambda>r w. dead w \<or> (\<exists>u. r = Inr u)) \<and>
     (\<forall>bs. hoare (\<lambda>w. \<not> dead w) (tee_digest_final A bs) (\<lambda>r w. dead w \<or> (\<exists>d. r = Inr d \<and> length d = 32))) \<and>
     (\<forall>id. hoare dead (tee_create A id) (\<lambda>r w. isl r \<and> dead w)) \<and>
     (\<forall>id. hoare dead (tee_open A id) (\<lambda>r w. dead w)) \<and>
     (\<forall>h. hoare dead (tee_info A h) (\<lambda>r w. dead w)) \<and>
     (\<forall>h n. hoare dead (tee_read A h n) (\<lambda>r w. dead w)) \<and>
     (\<forall>h. hoare dead (tee_close A h) (\<lambda>r w. dead w)) \<and>
     (\<forall>n. hoare dead (tee_malloc A n) (\<lambda>r w. dead w)) \<and>
     hoare dead (tee_digest_alloc A) (\<lambda>r w. dead w) \<and>
     (\<forall>bs. hoare dead (tee_digest_final A bs) (\<lambda>r w. dead w))"

lemma fail_stopD:
  assumes "fail_stop A objs hobj dead"
  shows fs_open: "hoare (\<lambda>w. objs w = S \<and> \<not> dead w) (tee_open A i)
        (\<lambda>r w. dead w \<or> (if S i = None then r = Inl ERROR_ITEM_NOT_FOUND else \<exists>h. r = Inr h))"
    and fs_info: "hoare (\<lambda>w. hobj w h = Some i \<and> \<not> dead w) (tee_info A h) (\<lambda>r w. dead w \<or> (\<exists>n. r = Inr n))"
    and fs_read: "hoare (\<lambda>w. hobj w h = Some i \<and> \<not> dead w) (tee_read A h n) (\<lambda>r w. dead w \<or> (\<exists>bs. r = Inr bs))"
    and fs_digest_alloc: "hoare (\<lambda>w. \<not> dead w) (tee_digest_alloc A) (\<lambda>r w. dead w \<or> (\<exists>u. r = Inr u))"
    and fs_digest_final: "hoare (\<lambda>w. \<not> dead w) (tee_digest_final A bs)
        (\<lambda>r w. dead w \<or> (\<exists>d. r = Inr d \<and> length d = 32))"
    and dead_create: "hoare dead (tee_create A i) (\<lambda>r w. isl r \<and> dead w)"
    and dead_open: "hoare dead (tee_open A i) (\<lambda>r w. dead w)"
    and dead_info: "hoare dead (tee_info A h) (\<lambda>r w. dead w)"
    and dead_read: "hoare dead (tee_read A h n) (\<lambda>r w. dead w)"
    and dead_close: "hoare dead (tee_close A h) (\<lambda>r w. dead w)"
    and dead_malloc: "hoare dead (tee_malloc A n) (\<lambda>r w. dead w)"
    and dead_digest_alloc: "hoare dead (tee_digest_alloc A) (\<lambda>r w. dead w)"
    and dead_digest_final: "hoare dead (tee_digest_final A bs) (\<lambda>r w. dead w)"
  using assms by (simp_all only: fail_stop_def)

lemma reliable_fail_stop: "storage_reliable A objs hobj \<Longrightarrow> fail_stop A objs hobj (\<lambda>_. False)"
  by (simp add: storage_reliable_def fail_stop_def hoare_def)

section \<open>A simulated device\<close>

text \<open>
  A device whose storage is a map and whose handles are object names. When \<open>lossy\<close> holds,
  \<open>dev_power\<close> counts the operations until the power is lost, and from then on every operation
  fails and changes nothing; otherwise the power is never lost. The digest is a stand-in of the
  right length.
\<close>

record device =
  dev_objs :: store
  dev_power :: nat

definition powered :: "bool \<Rightarrow> (device \<Rightarrow> (tee_error + 'a) \<times> device) \<Rightarrow> (device, 'a) tee" where
  "powered lossy f = State (\<lambda>d.
     if \<not> lossy then f d
     else if dev_power d = 0 then (Inl ERROR_STORAGE_NOT_AVAILABLE, d)
     else f (d\<lparr>dev_power := dev_power d - 1\<rparr>))"

definition toy_digest :: "bytes \<Rightarrow> bytes" where
  "toy_digest bs = take 32 (bs @ replicate 32 0)"

definition sim_api :: "bool \<Rightarrow> (device, bytes) tee_api" where
  "sim_api lossy = \<lparr>
     tee_open = (\<lambda>id. powered lossy (\<lambda>d.
        (case dev_objs d id of None \<Rightarrow> Inl ERROR_ITEM_NOT_FOUND | Some _ \<Rightarrow> Inr id, d))),
     tee_info = (\<lambda>h. powered lossy (\<lambda>d.
        (case dev_objs d h of None \<Rightarrow> Inl ERROR_STORAGE_NOT_AVAILABLE | Some x \<Rightarrow> Inr (length x), d))),
     tee_read = (\<lambda>h n. powered lossy (\<lambda>d.
        (case dev_objs d h of None \<Rightarrow> Inl ERROR_STORAGE_NOT_AVAILABLE | Some x \<Rightarrow> Inr (take n x), d))),
     tee_close = (\<lambda>h. State_Monad.return ()),
     tee_create = (\<lambda>id. powered lossy (\<lambda>d.
        (Inr id, d\<lparr>dev_objs := (dev_objs d)(id := Some [])\<rparr>))),
     tee_write = (\<lambda>h bs. powered lossy (\<lambda>d.
        (Inr (), d\<lparr>dev_objs := (dev_objs d)(h := Some bs)\<rparr>))),
     tee_close_delete = (\<lambda>h. State_Monad.bind (powered lossy (\<lambda>d.
        (Inr (), d\<lparr>dev_objs := (dev_objs d)(h := None)\<rparr>))) (\<lambda>_. State_Monad.return ())),
     tee_malloc = (\<lambda>n. State_Monad.return True),
     tee_digest_alloc = success (),
     tee_digest_final = (\<lambda>bs. success (toy_digest bs)) \<rparr>"

lemma length_toy_digest [simp]: "length (toy_digest bs) = 32"
  by (simp add: toy_digest_def)

definition dev_hobj :: "device \<Rightarrow> bytes \<Rightarrow> bytes option" where
  "dev_hobj d h = (if dev_objs d h = None then None else Some h)"

lemma hoare_powered:
  assumes "lossy \<Longrightarrow> (\<And>d. P d \<Longrightarrow> Q (Inl ERROR_STORAGE_NOT_AVAILABLE) d)"
    and "\<And>d. P d \<Longrightarrow> Q (fst (f d)) (snd (f d))"
    and "\<And>d n. P d \<Longrightarrow> P (d\<lparr>dev_power := n\<rparr>)"
  shows "hoare P (powered lossy f) Q"
  using assms by (auto simp: hoare_def powered_def)

lemma sim_storage_laws: "storage_laws (sim_api lossy) dev_objs dev_hobj toy_digest"
proof -
  have "hoare (\<lambda>d. dev_objs d = S \<and> dev_hobj d h = Some i) (tee_close_delete (sim_api lossy) h)
      (\<lambda>_ d. dev_objs d = S \<or> dev_objs d = S(i := None))" for h i S
    by (auto simp: hoare_def powered_def sim_api_def dev_hobj_def split: if_splits)
  then show ?thesis
    unfolding storage_laws_def
    by (intro conjI allI)
      (auto simp: hoare_def powered_def sim_api_def dev_hobj_def split: option.splits if_splits)
qed

lemma sim_storage_reliable: "storage_reliable (sim_api False) dev_objs dev_hobj"
  unfolding storage_reliable_def sim_api_def
  by (auto intro!: hoare_powered hoare_return simp: dev_hobj_def split: option.splits if_splits)

lemma sim_fail_stop: "fail_stop (sim_api lossy) dev_objs dev_hobj (\<lambda>d. lossy \<and> dev_power d = 0)"
  unfolding fail_stop_def
  by (intro conjI allI)
    (auto simp: hoare_def powered_def sim_api_def dev_hobj_def split: option.splits if_splits)

text \<open>A device that reports one object as temporarily unavailable and is otherwise reliable.\<close>

definition flaky_api :: "bytes \<Rightarrow> (device, bytes) tee_api" where
  "flaky_api nm = (sim_api False)\<lparr>tee_open := (\<lambda>i.
     if i = nm then throw ERROR_STORAGE_NOT_AVAILABLE else tee_open (sim_api False) i)\<rparr>"

lemma flaky_storage_laws: "storage_laws (flaky_api nm) dev_objs dev_hobj toy_digest"
proof -
  have "hoare (\<lambda>d. dev_objs d = S) (tee_open (flaky_api nm) i) (\<lambda>r d. dev_objs d = S \<and>
      (case r of Inr h \<Rightarrow> dev_hobj d h = Some i \<and> S i \<noteq> None
        | Inl e \<Rightarrow> e = ERROR_ITEM_NOT_FOUND \<longrightarrow> S i = None))" for i S
    using law_open [OF sim_storage_laws [of False], of S i] by (auto simp: flaky_api_def intro!: wp)
  then show ?thesis
    using sim_storage_laws [of False] unfolding storage_laws_def by (simp add: flaky_api_def)
qed

end
