(* ===== verification/Slot_Interface.thy ===== *)
theory Slot_Interface
  imports Tee_Api
begin

text \<open>
  The interface of the three pairs of slots in which the trusted application keeps its records
  (acceptance state, catalog, protected application). Each pair has its own copy of the functions
  that read and write a slot; what the commit operations rely on is the locale \<open>slot_io\<close>,
  interpreted in the theory of each pair.
\<close>

text \<open>The result of a write: all of it, or an object that is unchanged, empty or gone.\<close>

definition slot_written :: "store \<Rightarrow> bytes \<Rightarrow> bytes \<Rightarrow> tee_error + unit \<Rightarrow> store \<Rightarrow> bool" where
  "slot_written S nm bs r S' =
     (case r of Inr _ \<Rightarrow> S' = S(nm := Some bs)
      | Inl e \<Rightarrow> S' = S \<or> S' = S(nm := Some []) \<or> S' = S(nm := None))"

text \<open>The result of a read of a slot of at most \<open>cap\<close> bytes.\<close>

definition slot_read :: "nat \<Rightarrow> store \<Rightarrow> bytes \<Rightarrow> tee_error + bytes \<Rightarrow> bool" where
  "slot_read cap S nm r =
     (case r of Inr bs \<Rightarrow> S nm = Some bs \<and> bs \<noteq> [] \<and> length bs \<le> cap
      | Inl e \<Rightarrow> e = ERROR_ITEM_NOT_FOUND \<longrightarrow> S nm = None)"

section \<open>Rules for the steps that the readers and writers share\<close>

text \<open>Open an object, work on it, and close it on every path.\<close>

lemma hoare_with_object:
  assumes laws: "storage_laws A objs hobj sha"
    and err: "\<And>e. (e = ERROR_ITEM_NOT_FOUND \<Longrightarrow> S nm = None) \<Longrightarrow> R (fe e)"
    and body: "\<And>h. S nm \<noteq> None \<Longrightarrow> hoare (\<lambda>w. objs w = S \<and> hobj w h = Some nm) (body h) (\<lambda>r w. objs w = S \<and> R r)"
  shows "hoare (\<lambda>w. objs w = S)
     (bind_or fe (tee_open A nm) (\<lambda>h. do { res \<leftarrow> body h; _ \<leftarrow> tee_close A h; State_Monad.return res }))
     (\<lambda>r w. objs w = S \<and> R r)"
proof (rule hoare_bind_ok [OF law_open [OF laws]])
  fix h
  have "hoare (\<lambda>w. S nm \<noteq> None \<and> objs w = S \<and> hobj w h = Some nm)
      (do { res \<leftarrow> body h; _ \<leftarrow> tee_close A h; State_Monad.return res }) (\<lambda>r w. objs w = S \<and> R r)"
  proof (rule hoare_assume, rule hoare_bind [OF body])
    show "hoare (\<lambda>w. objs w = S \<and> R r) (do { _ \<leftarrow> tee_close A h; State_Monad.return r })
        (\<lambda>r w. objs w = S \<and> R r)" for r
      by (rule hoare_bind [where R = "\<lambda>_ w. objs w = S \<and> R r"])
        (use law_close [OF laws, of S h] in \<open>auto simp: hoare_def\<close>)
  qed simp
  then show "hoare (\<lambda>w. objs w = S \<and> (case Inr h of Inr h \<Rightarrow> hobj w h = Some nm \<and> S nm \<noteq> None
      | Inl e \<Rightarrow> e = ERROR_ITEM_NOT_FOUND \<longrightarrow> S nm = None))
     (do { res \<leftarrow> body h; _ \<leftarrow> tee_close A h; State_Monad.return res }) (\<lambda>r w. objs w = S \<and> R r)"
    by (rule hoare_pre) simp
qed (use err in auto)

text \<open>Ask for the size of an object and refuse an empty or an oversized one.\<close>

lemma hoare_sized:
  assumes laws: "storage_laws A objs hobj sha"
    and err: "\<And>e. e \<noteq> ERROR_ITEM_NOT_FOUND \<Longrightarrow> R (fe e)"
    and bad: "\<And>d. S nm = Some d \<Longrightarrow> d = [] \<or> length d > cap \<Longrightarrow> R fb"
    and ok: "\<And>d. S nm = Some d \<Longrightarrow> d \<noteq> [] \<Longrightarrow> length d \<le> cap \<Longrightarrow>
       hoare (\<lambda>w. objs w = S \<and> hobj w h = Some nm) (k (length d)) (\<lambda>r w. objs w = S \<and> R r)"
  shows "hoare (\<lambda>w. objs w = S \<and> hobj w h = Some nm)
     (bind_or fe (tee_info A h) (\<lambda>n. if n = 0 \<or> n > cap then State_Monad.return fb else k n))
     (\<lambda>r w. objs w = S \<and> R r)"
proof (rule hoare_bind_ok [OF law_info [OF laws]])
  fix n
  have "hoare (\<lambda>w. objs w = S \<and> hobj w h = Some nm)
      (if n = 0 \<or> n > cap then State_Monad.return fb else k n) (\<lambda>r w. objs w = S \<and> R r)"
    if "S nm = Some d" "n = length d" for d
  proof (cases "d = [] \<or> length d > cap")
    case True
    with that bad show ?thesis by (auto simp: hoare_def)
  next
    case False
    with that show ?thesis by (auto simp: not_less intro: ok)
  qed
  then show "hoare (\<lambda>w. objs w = S \<and> hobj w h = Some nm \<and>
       (case Inr n of Inr n \<Rightarrow> \<exists>d. S nm = Some d \<and> n = length d | Inl e \<Rightarrow> e \<noteq> ERROR_ITEM_NOT_FOUND))
      (if n = 0 \<or> n > cap then State_Monad.return fb else k n) (\<lambda>r w. objs w = S \<and> R r)"
    by (force simp: hoare_def)
qed (use err in auto)

text \<open>Read a whole object of known size.\<close>

lemma hoare_read_all:
  assumes laws: "storage_laws A objs hobj sha" and "S nm = Some d"
    and err: "\<And>e w. objs w = S \<Longrightarrow> e \<noteq> ERROR_ITEM_NOT_FOUND \<Longrightarrow> Q (fe e) w"
    and ok: "hoare (\<lambda>w. objs w = S) (k d) Q"
  shows "hoare (\<lambda>w. objs w = S \<and> hobj w h = Some nm) (bind_or fe (tee_read A h (length d)) k) Q"
  using assms(2) ok by (intro hoare_bind_ok [OF law_read [OF laws]]) (auto intro: err simp: hoare_def)

text \<open>Create an object, write it, and delete it again when the write fails.\<close>

lemma hoare_create_write:
  assumes laws: "storage_laws A objs hobj sha"
  shows "hoare (\<lambda>w. objs w = S)
     (bind_ok (tee_create A nm) (\<lambda>h. do {
        res \<leftarrow> tee_write A h bs;
        case res of Inl e \<Rightarrow> do { _ \<leftarrow> tee_close_delete A h; throw e }
        | Inr _ \<Rightarrow> do { _ \<leftarrow> tee_close A h; success () } }))
     (\<lambda>r w. slot_written S nm bs r (objs w))"
proof (rule hoare_bind_ok [OF law_create [OF laws]])
  fix h
  show "hoare (\<lambda>w. case Inr h of Inr h \<Rightarrow> objs w = S(nm := Some []) \<and> hobj w h = Some nm
         | Inl e \<Rightarrow> objs w = S)
     (do { res \<leftarrow> tee_write A h bs;
        case res of Inl e \<Rightarrow> do { _ \<leftarrow> tee_close_delete A h; throw e }
        | Inr _ \<Rightarrow> do { _ \<leftarrow> tee_close A h; success () } })
     (\<lambda>r w. slot_written S nm bs r (objs w))"
  proof (rule hoare_pre, rule hoare_bind [OF law_write [OF laws, of "S(nm := Some [])" h nm bs]])
    fix r :: "tee_error + unit"
    show "hoare (\<lambda>w. hobj w h = Some nm \<and>
         (case r of Inr _ \<Rightarrow> objs w = (S(nm := Some []))(nm := Some bs) | Inl e \<Rightarrow> objs w = S(nm := Some [])))
       (case r of Inl e \<Rightarrow> do { _ \<leftarrow> tee_close_delete A h; throw e }
        | Inr _ \<Rightarrow> do { _ \<leftarrow> tee_close A h; success () })
       (\<lambda>r w. slot_written S nm bs r (objs w))"
    proof (cases r)
      case (Inl e)
      then show ?thesis
        using law_close_delete [OF laws, of "S(nm := Some [])" h nm]
        by (force simp: hoare_def slot_written_def split: prod.splits)
    next
      case (Inr u)
      then show ?thesis
        using law_close [OF laws, of "S(nm := Some bs)" h]
        by (force simp: hoare_def slot_written_def split: prod.splits)
    qed
  qed auto
qed (simp add: slot_written_def)

section \<open>Hoare triples up to a crash\<close>

text \<open>
  \<open>crash_hoare dead P m Q\<close>: from a state with \<open>P\<close> in which the device is alive, \<open>m\<close> ends with
  \<open>Q\<close> or with a dead device; and a dead device stays dead. With a device that never dies this is the
  ordinary triple.
\<close>

definition crash_hoare ::
  "('s \<Rightarrow> bool) \<Rightarrow> ('s \<Rightarrow> bool) \<Rightarrow> ('s, 'a) state \<Rightarrow> ('a \<Rightarrow> 's \<Rightarrow> bool) \<Rightarrow> bool" where
  "crash_hoare dead P m Q \<longleftrightarrow>
     hoare (\<lambda>s. P s \<and> \<not> dead s) m (\<lambda>r s. dead s \<or> Q r s) \<and> hoare dead m (\<lambda>_. dead)"

lemma crash_hoare_False: "crash_hoare (\<lambda>_. False) P m Q \<longleftrightarrow> hoare P m Q"
  by (simp add: crash_hoare_def hoare_def)

lemma crash_return: "(\<And>s. P s \<Longrightarrow> Q x s) \<Longrightarrow> crash_hoare dead P (State_Monad.return x) Q"
  by (simp add: crash_hoare_def hoare_def)

lemma crash_bind:
  assumes "crash_hoare dead P m R" and "\<And>x. crash_hoare dead (R x) (f x) Q"
  shows "crash_hoare dead P (State_Monad.bind m f) Q"
  using assms by (auto simp: crash_hoare_def hoare_def split: prod.splits) (metis fst_conv snd_conv)+

lemma crash_if: "(b \<Longrightarrow> crash_hoare dead P m Q) \<Longrightarrow> (\<not> b \<Longrightarrow> crash_hoare dead P m' Q) \<Longrightarrow>
    crash_hoare dead P (if b then m else m') Q"
  by simp

lemma crash_case_sum:
  "(\<And>e. r = Inl e \<Longrightarrow> crash_hoare dead P (f e) Q) \<Longrightarrow> (\<And>x. r = Inr x \<Longrightarrow> crash_hoare dead P (g x) Q) \<Longrightarrow>
   crash_hoare dead P (case r of Inl e \<Rightarrow> f e | Inr x \<Rightarrow> g x) Q"
  by (cases r) auto

lemma crash_case_option:
  "(x = None \<Longrightarrow> crash_hoare dead P m Q) \<Longrightarrow> (\<And>y. x = Some y \<Longrightarrow> crash_hoare dead P (f y) Q) \<Longrightarrow>
   crash_hoare dead P (case x of None \<Rightarrow> m | Some y \<Rightarrow> f y) Q"
  by (cases x) auto

lemma crash_conseq:
  "crash_hoare dead P m Q \<Longrightarrow> (\<And>s. P' s \<Longrightarrow> P s) \<Longrightarrow> (\<And>r s. Q r s \<Longrightarrow> Q' r s) \<Longrightarrow> crash_hoare dead P' m Q'"
  unfolding crash_hoare_def by (auto elim!: hoare_conseq)

lemma crash_assume: "(B \<Longrightarrow> crash_hoare dead P m Q) \<Longrightarrow> hoare dead m (\<lambda>_. dead) \<Longrightarrow>
    crash_hoare dead (\<lambda>s. B \<and> P s) m Q"
  by (auto simp: crash_hoare_def hoare_def)

lemma crash_frame: "crash_hoare dead P m Q \<Longrightarrow> crash_hoare dead (\<lambda>s. P s \<and> B) m (\<lambda>r s. Q r s \<and> B)"
  by (auto simp: crash_hoare_def hoare_def)

lemma crash_to_hoare:
  "crash_hoare dead P m Q \<Longrightarrow> hoare P m R \<Longrightarrow> hoare P m (\<lambda>r s. R r s \<and> (dead s \<or> Q r s))"
  by (auto simp: crash_hoare_def hoare_def)

lemma crash_False: "hoare dead m (\<lambda>_. dead) \<Longrightarrow> (\<And>s. \<not> P s) \<Longrightarrow> crash_hoare dead P m Q"
  by (auto simp: crash_hoare_def hoare_def)

lemma crash_keeps: "crash_hoare dead P m Q \<Longrightarrow> hoare dead m (\<lambda>_. dead)"
  by (simp add: crash_hoare_def)

lemma crash_bind_ok:
  assumes "crash_hoare dead P m R" and "\<And>e s. R (Inl e) s \<Longrightarrow> Q (fe e) s"
    and "\<And>x. crash_hoare dead (R (Inr x)) (f x) Q"
  shows "crash_hoare dead P (bind_or fe m f) Q"
  unfolding bind_or_def
proof (rule crash_bind [OF assms(1)])
  show "crash_hoare dead (R r) (case r of Inl e \<Rightarrow> State_Monad.return (fe e) | Inr x \<Rightarrow> f x) Q" for r
    by (cases r) (auto intro: crash_return assms(2,3))
qed

text \<open>
  When a triple is needed only for one possible result of what ran before, the other results matter
  only in that a dead device stays dead.
\<close>

lemma crash_bind_ok_result:
  assumes "crash_hoare dead P m (\<lambda>r s. r = Inr x \<and> R s)" and "crash_hoare dead R (f x) Q"
    and "\<And>y. hoare dead (f y) (\<lambda>_. dead)"
  shows "crash_hoare dead P (bind_or fe m f) Q"
proof (rule crash_bind_ok [OF assms(1)])
  show "crash_hoare dead (\<lambda>s. Inr y = Inr x \<and> R s) (f y) Q" for y
    by (rule crash_assume) (use assms(2,3) in auto)
qed simp

lemma crash_bind_result:
  assumes "crash_hoare dead P m (\<lambda>r s. R s \<and> r = x)" and "crash_hoare dead R (f x) Q"
    and "\<And>y. hoare dead (f y) (\<lambda>_. dead)"
  shows "crash_hoare dead P (State_Monad.bind m f) Q"
proof (rule crash_bind [OF assms(1)])
  show "crash_hoare dead (\<lambda>s. R s \<and> y = x) (f y) Q" for y
    using crash_assume [of "y = x" dead R "f y" Q] assms(2,3) by (simp add: conj_commute)
qed

section \<open>The same steps on fail-stop storage\<close>

lemma crash_malloc:
  assumes "storage_laws A objs hobj sha" and "fail_stop A objs hobj dead"
    and oom: "\<And>w. no_memory A \<Longrightarrow> objs w = S \<Longrightarrow> Q x w"
    and m: "crash_hoare dead (\<lambda>w. objs w = S \<and> hobj w h = Some nm) m Q"
  shows "crash_hoare dead (\<lambda>w. objs w = S \<and> hobj w h = Some nm)
     (do { ok \<leftarrow> tee_malloc A n; if \<not> ok then State_Monad.return x else m }) Q"
proof (rule crash_bind)
  show "crash_hoare dead (\<lambda>w. objs w = S \<and> hobj w h = Some nm) (tee_malloc A n)
      (\<lambda>ok w. (ok \<or> no_memory A) \<and> objs w = S \<and> hobj w h = Some nm)"
    unfolding crash_hoare_def using law_malloc [OF assms(1)] dead_malloc [OF assms(2)]
    by (auto simp: hoare_def no_memory_def)
  show "crash_hoare dead (\<lambda>w. (ok \<or> no_memory A) \<and> objs w = S \<and> hobj w h = Some nm)
      (if \<not> ok then State_Monad.return x else m) Q" for ok
    by (rule crash_assume) (use oom m crash_keeps [OF m] in \<open>auto intro: crash_return simp: hoare_def\<close>)
qed

lemma crash_with_object:
  assumes laws: "storage_laws A objs hobj sha" and fs: "fail_stop A objs hobj dead"
    and none: "S nm = None \<Longrightarrow> R (fe ERROR_ITEM_NOT_FOUND)"
    and body: "\<And>h d. S nm = Some d \<Longrightarrow>
      crash_hoare dead (\<lambda>w. objs w = S \<and> hobj w h = Some nm) (body h) (\<lambda>r w. objs w = S \<and> R r)"
    and keeps: "\<And>h. hoare dead (body h) (\<lambda>_. dead)"
  shows "crash_hoare dead (\<lambda>w. objs w = S)
     (bind_or fe (tee_open A nm) (\<lambda>h. do { res \<leftarrow> body h; _ \<leftarrow> tee_close A h; State_Monad.return res }))
     (\<lambda>r w. objs w = S \<and> R r)"
proof -
  have op: "crash_hoare dead (\<lambda>w. objs w = S) (tee_open A nm) (\<lambda>r w. objs w = S \<and>
      (case r of Inr h \<Rightarrow> S nm \<noteq> None \<and> hobj w h = Some nm | Inl e \<Rightarrow> S nm = None \<and> e = ERROR_ITEM_NOT_FOUND))"
    unfolding crash_hoare_def
    using hoare_conj [OF law_open [OF laws, of S nm] fs_open [OF fs, of S nm]] dead_open [OF fs, of nm]
    by (auto elim!: hoare_conseq split: sum.splits if_splits)
  have cl: "crash_hoare dead (\<lambda>w. objs w = S \<and> R r) (tee_close A h) (\<lambda>_ w. objs w = S \<and> R r)" for r h
    unfolding crash_hoare_def
    using law_close [OF laws, of S h] dead_close [OF fs, of h] by (auto simp: hoare_def)
  show ?thesis
  proof (rule crash_bind_ok [OF op])
    fix h
    have "crash_hoare dead (\<lambda>w. S nm \<noteq> None \<and> objs w = S \<and> hobj w h = Some nm) (body h)
        (\<lambda>r w. objs w = S \<and> R r)"
      by (rule crash_assume) (use body keeps in auto)
    from crash_bind [OF this crash_bind [OF cl crash_return]]
    show "crash_hoare dead (\<lambda>w. objs w = S \<and> (case Inr h of Inr h \<Rightarrow> S nm \<noteq> None \<and> hobj w h = Some nm
        | Inl e \<Rightarrow> S nm = None \<and> e = ERROR_ITEM_NOT_FOUND))
      (do { res \<leftarrow> body h; _ \<leftarrow> tee_close A h; State_Monad.return res }) (\<lambda>r w. objs w = S \<and> R r)"
      by (rule crash_conseq) auto
  qed (use none in auto)
qed

lemma crash_sized:
  assumes laws: "storage_laws A objs hobj sha" and fs: "fail_stop A objs hobj dead" and d: "S nm = Some d"
    and bad: "d = [] \<or> length d > cap \<Longrightarrow> R fb"
    and ok: "d \<noteq> [] \<Longrightarrow> length d \<le> cap \<Longrightarrow>
       crash_hoare dead (\<lambda>w. objs w = S \<and> hobj w h = Some nm) (k (length d)) (\<lambda>r w. objs w = S \<and> R r)"
    and keeps: "\<And>n. hoare dead (k n) (\<lambda>_. dead)"
  shows "crash_hoare dead (\<lambda>w. objs w = S \<and> hobj w h = Some nm)
     (bind_or fe (tee_info A h) (\<lambda>n. if n = 0 \<or> n > cap then State_Monad.return fb else k n))
     (\<lambda>r w. objs w = S \<and> R r)"
proof (rule crash_bind_ok_result [where x = "length d"])
  show "crash_hoare dead (\<lambda>w. objs w = S \<and> hobj w h = Some nm) (tee_info A h)
      (\<lambda>r w. r = Inr (length d) \<and> objs w = S \<and> hobj w h = Some nm)"
    unfolding crash_hoare_def
    using hoare_conj [OF law_info [OF laws, of S h nm] fs_info [OF fs, of h nm]] dead_info [OF fs, of h] d
    by (auto elim!: hoare_conseq)
  show "crash_hoare dead (\<lambda>w. objs w = S \<and> hobj w h = Some nm)
      (if length d = 0 \<or> length d > cap then State_Monad.return fb else k (length d))
      (\<lambda>r w. objs w = S \<and> R r)"
    by (intro crash_if crash_return) (use bad ok in auto)
qed (use keeps in \<open>auto intro!: wp\<close>)

lemma crash_read_all:
  assumes laws: "storage_laws A objs hobj sha" and fs: "fail_stop A objs hobj dead" and d: "S nm = Some d"
    and ok: "crash_hoare dead (\<lambda>w. objs w = S) (k d) Q"
    and keeps: "\<And>bs. hoare dead (k bs) (\<lambda>_. dead)"
  shows "crash_hoare dead (\<lambda>w. objs w = S \<and> hobj w h = Some nm) (bind_or fe (tee_read A h (length d)) k) Q"
proof (rule crash_bind_ok_result [where x = d])
  show "crash_hoare dead (\<lambda>w. objs w = S \<and> hobj w h = Some nm) (tee_read A h (length d))
      (\<lambda>r w. r = Inr d \<and> objs w = S)"
    unfolding crash_hoare_def
    using hoare_conj [OF law_read [OF laws, of S h nm "length d"] fs_read [OF fs, of h nm "length d"]]
      dead_read [OF fs, of h "length d"] d
    by (auto elim!: hoare_conseq)
qed (rule ok keeps)+

text \<open>A dead device stays dead: the sequential composition of steps.\<close>

lemma keeps_bind:
  "hoare dead m (\<lambda>_. dead) \<Longrightarrow> (\<And>x. hoare dead (f x) (\<lambda>_. dead)) \<Longrightarrow> hoare dead (State_Monad.bind m f) (\<lambda>_. dead)"
  by (rule hoare_bind)

lemma keeps_bind_ok:
  "hoare dead m (\<lambda>_. dead) \<Longrightarrow> (\<And>x. hoare dead (f x) (\<lambda>_. dead)) \<Longrightarrow> hoare dead (bind_or fe m f) (\<lambda>_. dead)"
  by (rule hoare_bind_ok)

lemma keeps_return: "hoare dead (State_Monad.return x) (\<lambda>_. dead)"
  by (simp add: hoare_def)

lemma keeps_case_option:
  "(x = None \<Longrightarrow> hoare dead m (\<lambda>_. dead)) \<Longrightarrow> (\<And>y. x = Some y \<Longrightarrow> hoare dead (f y) (\<lambda>_. dead)) \<Longrightarrow>
   hoare dead (case x of None \<Rightarrow> m | Some y \<Rightarrow> f y) (\<lambda>_. dead)"
  by (cases x) auto

lemma keeps_case_prod:
  "(\<And>a b. p = (a, b) \<Longrightarrow> hoare dead (f a b) (\<lambda>_. dead)) \<Longrightarrow>
   hoare dead (case p of (a, b) \<Rightarrow> f a b) (\<lambda>_. dead)"
  by (cases p) auto

lemmas keeps_rules = keeps_return keeps_bind keeps_bind_ok keeps_case_option keeps_case_prod
  hoare_if hoare_case_sum

lemmas keeps_ops = dead_open dead_info dead_read dead_close dead_malloc dead_digest_alloc dead_digest_final

text \<open>A write to a dead device fails and changes nothing.\<close>

lemma dead_create_write:
  assumes laws: "storage_laws A objs hobj sha" and fs: "fail_stop A objs hobj dead"
  shows "hoare (\<lambda>w. objs w = S \<and> dead w) (bind_ok (tee_create A nm) f) (\<lambda>r w. isl r \<and> objs w = S)"
proof -
  have "hoare (\<lambda>w. objs w = S \<and> dead w) (tee_create A nm) (\<lambda>r w. isl r \<and> objs w = S)"
    using hoare_conj [OF law_create [OF laws, of S nm] dead_create [OF fs, of nm]]
    by (rule hoare_conseq) (auto split: sum.splits)
  then show ?thesis by (rule hoare_bind_ok) (auto simp: hoare_def)
qed

lemma hoare_create_write_reliable:
  assumes laws: "storage_laws A objs hobj sha" and rel: "storage_reliable A objs hobj"
  shows "hoare (\<lambda>w. objs w = S)
     (bind_ok (tee_create A nm) (\<lambda>h. do {
        res \<leftarrow> tee_write A h bs;
        case res of Inl e \<Rightarrow> do { _ \<leftarrow> tee_close_delete A h; throw e }
        | Inr _ \<Rightarrow> do { _ \<leftarrow> tee_close A h; success () } }))
     (\<lambda>r w. r = Inr () \<and> objs w = S(nm := Some bs))"
proof -
  have create: "hoare (\<lambda>w. objs w = S) (tee_create A nm)
      (\<lambda>r w. \<exists>h. r = Inr h \<and> objs w = S(nm := Some []) \<and> hobj w h = Some nm)"
    using hoare_conj [OF law_create [OF laws, of S nm] rel_create [OF rel, of nm]]
    by (auto elim!: hoare_conseq)
  have wr: "hoare (\<lambda>w. objs w = S(nm := Some []) \<and> hobj w h = Some nm) (tee_write A h bs)
      (\<lambda>r w. \<exists>u. r = Inr u \<and> objs w = S(nm := Some bs))" for h
    using hoare_conj [OF law_write [OF laws, of "S(nm := Some [])" h nm bs] rel_write [OF rel, of h nm bs]]
    by (auto elim!: hoare_conseq)
  show ?thesis
  proof (rule hoare_bind_ok [OF create])
    fix h
    show "hoare (\<lambda>w. \<exists>h'. Inr h = Inr h' \<and> objs w = S(nm := Some []) \<and> hobj w h' = Some nm)
       (do { res \<leftarrow> tee_write A h bs;
          case res of Inl e \<Rightarrow> do { _ \<leftarrow> tee_close_delete A h; throw e }
          | Inr _ \<Rightarrow> do { _ \<leftarrow> tee_close A h; success () } })
       (\<lambda>r w. r = Inr () \<and> objs w = S(nm := Some bs))"
    proof (rule hoare_pre [OF hoare_bind [OF wr]])
      fix r :: "tee_error + unit"
      show "hoare (\<lambda>w. \<exists>u. r = Inr u \<and> objs w = S(nm := Some bs))
         (case r of Inl e \<Rightarrow> do { _ \<leftarrow> tee_close_delete A h; throw e }
          | Inr _ \<Rightarrow> do { _ \<leftarrow> tee_close A h; success () })
         (\<lambda>r w. r = Inr () \<and> objs w = S(nm := Some bs))"
        using law_close [OF laws, of "S(nm := Some bs)" h]
        by (cases r) (force simp: hoare_def split: prod.splits)+
    qed auto
  qed auto
qed

section \<open>The interface\<close>

locale slot_io =
  fixes wr :: "('w, 'h) tee_api \<Rightarrow> int \<Rightarrow> bytes \<Rightarrow> ('w, unit) tee"
    and rd :: "('w, 'h) tee_api \<Rightarrow> int \<Rightarrow> ('w, 'r) tee"
    and raw :: "'r \<Rightarrow> bytes"
    and cap :: nat
    and name :: "int \<Rightarrow> bytes"
  assumes wr_law: "storage_laws A objs hobj sha \<Longrightarrow>
      hoare (\<lambda>w. objs w = S) (wr A k bs) (\<lambda>r w. slot_written S (name k) bs r (objs w))"
    and rd_law: "storage_laws A objs hobj sha \<Longrightarrow>
      hoare (\<lambda>w. objs w = S) (rd A k) (\<lambda>r w. objs w = S \<and> slot_read cap S (name k) (map_sum id raw r))"
    and names: "name 0 \<noteq> name 1"
begin

text \<open>A write leaves the other slot and every object outside the pair alone.\<close>

lemma write_frame:
  assumes "storage_laws A objs hobj sha" and "nm \<noteq> name k"
  shows "hoare (\<lambda>w. objs w = S) (wr A k bs) (\<lambda>r w. objs w nm = S nm)"
  using assms(2) by (intro hoare_post [OF wr_law [OF assms(1)]])
    (auto simp: slot_written_def split: sum.splits)

text \<open>The verified write of the commit operations: write, read back, and compare.\<close>

lemma write_verify:
  assumes laws: "storage_laws A objs hobj sha"
    and ok: "\<And>r w. slot_read cap (S(name k := Some bs)) (name k) (map_sum id raw r) \<Longrightarrow>
       objs w = S(name k := Some bs) \<Longrightarrow> hoare (\<lambda>w'. w' = w) (f r) Q"
    and err: "\<And>e w. slot_written S (name k) bs (Inl e) (objs w) \<Longrightarrow> Q (Inl e) w"
  shows "hoare (\<lambda>w. objs w = S) (bind_ok (wr A k bs) (\<lambda>_. State_Monad.bind (rd A k) f)) Q"
proof (rule hoare_bind_ok [OF wr_law [OF laws]])
  show "hoare (\<lambda>w. slot_written S (name k) bs (Inr x) (objs w)) (State_Monad.bind (rd A k) f) Q" for x
  proof (rule hoare_bind)
    show "hoare (\<lambda>w. slot_written S (name k) bs (Inr x) (objs w)) (rd A k)
       (\<lambda>r w. objs w = S(name k := Some bs) \<and>
              slot_read cap (S(name k := Some bs)) (name k) (map_sum id raw r))"
      by (rule hoare_pre [OF rd_law [OF laws]]) (simp add: slot_written_def)
    show "hoare (\<lambda>w. objs w = S(name k := Some bs) \<and>
        slot_read cap (S(name k := Some bs)) (name k) (map_sum id raw r)) (f r) Q" for r
      using ok [of r] by (auto simp: hoare_def)
  qed
qed (rule err)

end

end
