(* ===== verification/Acceptance_State.thy ===== *)
theory Acceptance_State
  imports Canonical_Cbor Slot_Interface
begin

text \<open>
  The acceptance state of \<^verbatim>\<open>optee/twep-wr-ta/ta/acceptance_state.c\<close>: the highest accepted
  sequence number of every component, a generation counter and the digest of the query response
  consumed last. The state is kept in two slots of secure storage; a commit writes the slot that is
  not active and the slot with the greater generation wins. The definitions model the production
  build, without the fault injection of \<^verbatim>\<open>TWEP_TA_D043_TEST_HOOKS\<close>.
\<close>

section \<open>Data\<close>

definition ACCEPTANCE_STATE_MAX_SIZE :: nat where
  "ACCEPTANCE_STATE_MAX_SIZE = 4096"

definition ACCEPTANCE_STATE_MAX_COMPONENTS :: nat where
  "ACCEPTANCE_STATE_MAX_COMPONENTS = 32"

definition slot0_id :: bytes where
  "slot0_id = ascii ''teep-acceptance-state.0.cbor''"

definition slot1_id :: bytes where
  "slot1_id = ascii ''teep-acceptance-state.1.cbor''"

definition legacy_id :: bytes where
  "legacy_id = ascii ''protected-sequence-freshness.cbor''"

record component_sequence =
  comp_id :: bytes
  comp_seq :: u64

text \<open>
  \<^verbatim>\<open>raw\<close> and \<^verbatim>\<open>raw_len\<close> are the list \<open>raw\<close>; \<^verbatim>\<open>components\<close> and \<^verbatim>\<open>component_count\<close> are the list
  \<open>components\<close>. The component identifiers, pointers into \<^verbatim>\<open>raw\<close> in the source, are the bytes they
  point to.
\<close>

record acceptance_state =
  raw :: bytes
  generation :: u64
  digest :: bytes
  have_digest :: bool
  components :: "component_sequence list"
  active_slot :: int

text \<open>\<^verbatim>\<open>struct acceptance_state x = { }\<close>.\<close>

definition zero_state :: acceptance_state where
  "zero_state = \<lparr>raw = [], generation = 0, digest = replicate 32 0, have_digest = False,
     components = [], active_slot = 0\<rparr>"

datatype parse_status = PARSE_VALID | PARSE_MALFORMED | PARSE_UNSUPPORTED

section \<open>Parsing\<close>

text \<open>
  One round of the loop of \<^verbatim>\<open>parse_components\<close>; \<open>i\<close> is the number of components read so far, so
  that \<^verbatim>\<open>components[i - 1]\<close> is the last of them.
\<close>

definition parse_component ::
  "cursor \<times> component_sequence list \<Rightarrow> unit + cursor \<times> component_sequence list" where
  "parse_component s =
     (case s of (cur, cs) \<Rightarrow>
      case read_bytes cur 2 of None \<Rightarrow> Inl ()
      | Some (i, c1) \<Rightarrow>
        if i = [] then Inl ()
        else case read_uint c1 0 of None \<Rightarrow> Inl ()
        | Some (sequence, c2) \<Rightarrow>
          if cs \<noteq> [] \<and> canonical_bstr_compare (comp_id (last cs)) i \<ge> 0 then Inl ()
          else Inr (c2, cs @ [\<lparr>comp_id = i, comp_seq = sequence\<rparr>]))"

definition parse_components :: "cursor \<Rightarrow> (component_sequence list \<times> cursor) option" where
  "parse_components cur =
     (case read_uint cur 5 of None \<Rightarrow> None
      | Some (count, c1) \<Rightarrow>
        if unat count > ACCEPTANCE_STATE_MAX_COMPONENTS then None
        else case for_loop (unat count) parse_component (c1, []) of
          Inl _ \<Rightarrow> None | Inr (c2, cs) \<Rightarrow> Some (cs, c2))"

text \<open>
  The fields of a slot in the order of the chain of \<^verbatim>\<open>||\<close> in \<^verbatim>\<open>parse_slot\<close>: generation, schema
  version, components and digest.
\<close>

definition parse_slot_fields :: "bytes \<Rightarrow> (u64 \<times> u64 \<times> component_sequence list \<times> bytes) option" where
  "parse_slot_fields bs = do {
     (map_len, c) \<leftarrow> read_uint (mk_cursor bs) 5;
     ensure (map_len = 4);
     c \<leftarrow> read_expected_text c (ascii ''generation'');
     (gen, c) \<leftarrow> read_uint c 0;
     ensure (gen \<noteq> 0);
     c \<leftarrow> read_expected_text c (ascii ''schema_version'');
     (schema_version, c) \<leftarrow> read_uint c 0;
     c \<leftarrow> read_expected_text c (ascii ''component_sequences'');
     (cs, c) \<leftarrow> parse_components c;
     c \<leftarrow> read_expected_text c (ascii ''last_consumed_query_response_sha256'');
     (dg, c) \<leftarrow> read_bytes c 2;
     ensure (length dg = 32);
     ensure (at_end c);
     Some (gen, schema_version, cs, dg) }"

text \<open>
  The source leaves a malformed state partly overwritten; no caller reads it in that case, and the
  model leaves it as it was.
\<close>

definition parse_slot :: "acceptance_state \<Rightarrow> parse_status \<times> acceptance_state" where
  "parse_slot state =
     (case parse_slot_fields (raw state) of
        None \<Rightarrow> (PARSE_MALFORMED, state)
      | Some (gen, schema_version, cs, dg) \<Rightarrow>
          (if schema_version = 1 then PARSE_VALID else PARSE_UNSUPPORTED,
           state\<lparr>generation := gen, components := cs, digest := dg, have_digest := True\<rparr>))"

definition parse_legacy :: "acceptance_state \<Rightarrow> parse_status \<times> acceptance_state" where
  "parse_legacy state =
     (let st = state\<lparr>generation := 0, have_digest := False\<rparr> in
      case parse_components (mk_cursor (raw st)) of
        None \<Rightarrow> (PARSE_MALFORMED, st)
      | Some (cs, c) \<Rightarrow>
          if at_end c then (PARSE_VALID, st\<lparr>components := cs\<rparr>) else (PARSE_MALFORMED, st))"

section \<open>Reading and selecting\<close>

text \<open>Every path after a successful open goes through \<^verbatim>\<open>out:\<close>, which closes the object.\<close>

definition read_object :: "('w, 'h) tee_api \<Rightarrow> bytes \<Rightarrow> acceptance_state \<Rightarrow> ('w, acceptance_state) tee" where
  "read_object A nm state =
     bind_ok (tee_open A nm) (\<lambda>object. do {
       res \<leftarrow> bind_ok (tee_info A object) (\<lambda>dataSize.
         if dataSize = 0 \<or> dataSize > ACCEPTANCE_STATE_MAX_SIZE then throw ERROR_BAD_FORMAT
         else bind_ok (tee_read A object dataSize) (\<lambda>buf.
           if length buf \<noteq> dataSize then throw ERROR_CORRUPT_OBJECT
           else success (state\<lparr>raw := buf\<rparr>)));
       _ \<leftarrow> tee_close A object;
       State_Monad.return res })"

definition states_equal :: "acceptance_state \<Rightarrow> acceptance_state \<Rightarrow> bool" where
  "states_equal a b \<longleftrightarrow> length (raw a) = length (raw b) \<and> mem_compare (raw a) (raw b) = 0"

text \<open>The local variables of the loop over the two slots in \<^verbatim>\<open>load_current\<close>.\<close>

record load_scan =
  slots :: "acceptance_state list"
  present :: "bool list"
  status :: "parse_status list"
  valid_count :: nat
  selected :: int

definition init_scan :: load_scan where
  "init_scan = \<lparr>slots = [zero_state, zero_state], present = [False, False],
     status = [PARSE_MALFORMED, PARSE_MALFORMED], valid_count = 0, selected = -1\<rparr>"

text \<open>One round of the loop, given what \<^verbatim>\<open>read_object\<close> returned.\<close>

definition scan_slot :: "nat \<Rightarrow> tee_error + acceptance_state \<Rightarrow> load_scan \<Rightarrow> tee_error + load_scan" where
  "scan_slot i res sc =
     (if res = Inl ERROR_ITEM_NOT_FOUND then Inr sc
      else let sc = sc\<lparr>present := (present sc)[i := True]\<rparr> in
        case res of Inl _ \<Rightarrow> Inr sc
        | Inr st \<Rightarrow>
          let (ps, st') = parse_slot st;
              sc = sc\<lparr>slots := (slots sc)[i := st'], status := (status sc)[i := ps]\<rparr> in
          if ps = PARSE_UNSUPPORTED then Inl ERROR_NOT_SUPPORTED
          else if ps = PARSE_VALID then
            Inr (sc\<lparr>valid_count := valid_count sc + 1,
                    selected := (if selected sc < 0 \<or>
                                    generation (slots sc ! i) > generation (slots sc ! nat (selected sc))
                                 then int i else selected sc)\<rparr>)
          else Inr sc)"

text \<open>After the loop: \<open>None\<close> when neither slot is present and the legacy object decides.\<close>

definition select_slot :: "load_scan \<Rightarrow> (tee_error + acceptance_state) option" where
  "select_slot sc =
     (if valid_count sc \<noteq> 0 then
        if status sc ! 0 = PARSE_VALID \<and> status sc ! 1 = PARSE_VALID \<and>
           generation (slots sc ! 0) = generation (slots sc ! 1) \<and>
           \<not> states_equal (slots sc ! 0) (slots sc ! 1)
        then Some (Inl ERROR_SECURITY)
        else let (ps, st) = parse_slot ((slots sc ! nat (selected sc))\<lparr>active_slot := selected sc\<rparr>) in
          if ps \<noteq> PARSE_VALID then Some (Inl ERROR_CORRUPT_OBJECT) else Some (Inr st)
      else if present sc ! 0 \<or> present sc ! 1 then Some (Inl ERROR_CORRUPT_OBJECT)
      else None)"

text \<open>The end of \<^verbatim>\<open>load_current\<close>, given what \<^verbatim>\<open>read_object\<close> returned for the legacy object.\<close>

definition load_legacy :: "tee_error + acceptance_state \<Rightarrow> tee_error + acceptance_state" where
  "load_legacy res =
     (case res of
        Inl e \<Rightarrow> if e = ERROR_ITEM_NOT_FOUND then Inr (zero_state\<lparr>active_slot := -1\<rparr>)
                 else Inl ERROR_CORRUPT_OBJECT
      | Inr st \<Rightarrow> (case parse_legacy st of (ps, st') \<Rightarrow>
                    if ps = PARSE_VALID then Inr st' else Inl ERROR_CORRUPT_OBJECT))"

definition load_current :: "('w, 'h) tee_api \<Rightarrow> ('w, acceptance_state) tee" where
  "load_current A = do {
     res0 \<leftarrow> read_object A slot0_id zero_state;
     case scan_slot 0 res0 init_scan of Inl e \<Rightarrow> throw e
     | Inr sc0 \<Rightarrow> do {
       res1 \<leftarrow> read_object A slot1_id zero_state;
       case scan_slot 1 res1 sc0 of Inl e \<Rightarrow> throw e
       | Inr sc1 \<Rightarrow>
         (case select_slot sc1 of
            Some r \<Rightarrow> State_Monad.return r
          | None \<Rightarrow> do {
              res \<leftarrow> read_object A legacy_id (zero_state\<lparr>active_slot := -1\<rparr>);
              State_Monad.return (load_legacy res) }) }}"

text \<open>\<^verbatim>\<open>TEE_FreeOperation\<close> has no result and no effect that the code observes.\<close>

definition digest_sha256 :: "('w, 'h) tee_api \<Rightarrow> bytes \<Rightarrow> ('w, bytes) tee" where
  "digest_sha256 A bs =
     bind_ok (tee_digest_alloc A) (\<lambda>_. do {
       res \<leftarrow> tee_digest_final A bs;
       State_Monad.return (case res of Inl _ \<Rightarrow> Inl ERROR_GENERIC
         | Inr d \<Rightarrow> if length d \<noteq> 32 then Inl ERROR_GENERIC else Inr d) })"

section \<open>Encoding an update\<close>

text \<open>The search loop: the position of the component, and whether it replaces an entry.\<close>

fun find_insert :: "bytes \<Rightarrow> u64 \<Rightarrow> nat \<Rightarrow> component_sequence list \<Rightarrow> tee_error + nat \<times> bool" where
  "find_insert component_id sequence i [] = Inr (i, False)"
| "find_insert component_id sequence i (c # cs) =
     (let cmp = canonical_bstr_compare (comp_id c) component_id in
      if cmp = 0 then
        if sequence \<le> comp_seq c then Inl ERROR_ACCESS_CONFLICT else Inr (i, True)
      else if cmp > 0 then Inr (i, False)
      else find_insert component_id sequence (i + 1) cs)"

definition updated_size :: "acceptance_state \<Rightarrow> bytes \<Rightarrow> u64 \<Rightarrow> nat \<Rightarrow> bool \<Rightarrow> nat \<Rightarrow> nat" where
  "updated_size current component_id sequence insert_at replacing count =
     type_len_size 4 +
     text_size (ascii ''generation'') + type_len_size (generation current + 1) +
     text_size (ascii ''schema_version'') + type_len_size 1 +
     text_size (ascii ''component_sequences'') + type_len_size (of_nat count) +
     text_size (ascii ''last_consumed_query_response_sha256'') + bstr_size 32 +
     (\<Sum>i \<leftarrow> [0..<length (components current)].
        if replacing \<and> i = insert_at then 0
        else bstr_size (length (comp_id (components current ! i))) +
             type_len_size (comp_seq (components current ! i))) +
     bstr_size (length component_id) + type_len_size sequence"

definition updated_entry :: "acceptance_state \<Rightarrow> bytes \<Rightarrow> u64 \<Rightarrow> nat \<Rightarrow> bool \<Rightarrow> nat \<Rightarrow> bytes" where
  "updated_entry current component_id sequence insert_at replacing i =
     (if i = insert_at then write_bstr component_id @ write_type_len 0 sequence
      else let old_i = i - (if \<not> replacing \<and> i > insert_at then 1 else 0) in
        write_bstr (comp_id (components current ! old_i)) @
        write_type_len 0 (comp_seq (components current ! old_i)))"

definition encode_updated ::
  "acceptance_state \<Rightarrow> bytes \<Rightarrow> bytes \<Rightarrow> u64 \<Rightarrow> tee_error + bytes" where
  "encode_updated current dg component_id sequence =
     (if length component_id > ACCEPTANCE_STATE_MAX_SIZE then Inl ERROR_EXCESS_DATA
      else case find_insert component_id sequence 0 (components current) of
        Inl e \<Rightarrow> Inl e
      | Inr (insert_at, replacing) \<Rightarrow>
        if \<not> replacing \<and> length (components current) = ACCEPTANCE_STATE_MAX_COMPONENTS
        then Inl ERROR_EXCESS_DATA
        else let count = length (components current) + (if replacing then 0 else 1);
                 encoded_size = updated_size current component_id sequence insert_at replacing count in
          if encoded_size > ACCEPTANCE_STATE_MAX_SIZE then Inl ERROR_EXCESS_DATA
          else let out = write_type_len 5 4 @
                 write_text (ascii ''generation'') @ write_type_len 0 (generation current + 1) @
                 write_text (ascii ''schema_version'') @ write_type_len 0 1 @
                 write_text (ascii ''component_sequences'') @ write_type_len 5 (of_nat count) @
                 concat (map (updated_entry current component_id sequence insert_at replacing) [0..<count]) @
                 write_text (ascii ''last_consumed_query_response_sha256'') @ write_bstr dg in
            if length out = encoded_size then Inr out else Inl ERROR_BAD_STATE)"

section \<open>Writing and committing\<close>

definition slot_name :: "int \<Rightarrow> bytes" where
  "slot_name slot = (if slot \<noteq> 0 then slot1_id else slot0_id)"

definition write_slot :: "('w, 'h) tee_api \<Rightarrow> int \<Rightarrow> bytes \<Rightarrow> ('w, unit) tee" where
  "write_slot A slot bs =
     bind_ok (tee_create A (slot_name slot)) (\<lambda>object. do {
       res \<leftarrow> tee_write A object bs;
       case res of Inl e \<Rightarrow> do { _ \<leftarrow> tee_close_delete A object; throw e }
       | Inr _ \<Rightarrow> do { _ \<leftarrow> tee_close A object; success () } })"

text \<open>The tests of output pointers against \<^verbatim>\<open>NULL\<close> have no counterpart: the outputs are results.\<close>

definition twep_acceptance_generation :: "('w, 'h) tee_api \<Rightarrow> ('w, u64) tee" where
  "twep_acceptance_generation A = bind_ok (load_current A) (\<lambda>current. success (generation current))"

fun find_component :: "bytes \<Rightarrow> component_sequence list \<Rightarrow> u64 option" where
  "find_component component_id [] = None"
| "find_component component_id (c # cs) =
     (if length (comp_id c) = length component_id \<and> mem_compare (comp_id c) component_id = 0
      then Some (comp_seq c) else find_component component_id cs)"

text \<open>
  On \<^verbatim>\<open>TEE_ERROR_ITEM_NOT_FOUND\<close> the source has also stored the generation; its callers ignore it.
\<close>

definition twep_acceptance_component_sequence ::
  "('w, 'h) tee_api \<Rightarrow> bytes \<Rightarrow> ('w, u64 \<times> u64) tee" where
  "twep_acceptance_component_sequence A component_id =
     (if component_id = [] then throw ERROR_BAD_PARAMETERS
      else bind_ok (load_current A) (\<lambda>current.
        case find_component component_id (components current) of
          Some sequence \<Rightarrow> success (generation current, sequence)
        | None \<Rightarrow> throw ERROR_ITEM_NOT_FOUND))"

definition twep_acceptance_commit ::
  "('w, 'h) tee_api \<Rightarrow> bytes \<Rightarrow> bytes \<Rightarrow> u64 \<Rightarrow> u64 \<Rightarrow> ('w, u64) tee" where
  "twep_acceptance_commit A query_response_sha256 component_id sequence expected_generation =
     (if component_id = [] \<or> sequence = 0 then throw ERROR_BAD_PARAMETERS
      else bind_ok (load_current A) (\<lambda>current.
        if generation current \<noteq> expected_generation then throw ERROR_ACCESS_CONFLICT
        else if generation current = -1 then throw ERROR_OVERFLOW
        else if have_digest current \<and> mem_compare (digest current) query_response_sha256 = 0
        then throw ERROR_ACCESS_CONFLICT
        else case encode_updated current query_response_sha256 component_id sequence of
          Inl e \<Rightarrow> throw e
        | Inr encoded \<Rightarrow>
          let target_slot = (if active_slot current = 0 then 1 else 0) in
          bind_ok (write_slot A target_slot encoded) (\<lambda>_. do {
            res \<leftarrow> read_object A (slot_name target_slot) zero_state;
            case res of Inl _ \<Rightarrow> throw ERROR_CORRUPT_OBJECT
            | Inr verify \<Rightarrow>
              if fst (parse_slot verify) \<noteq> PARSE_VALID \<or>
                 length (raw verify) \<noteq> length encoded \<or> mem_compare (raw verify) encoded \<noteq> 0
              then throw ERROR_CORRUPT_OBJECT
              else success (generation current + 1) })))"


section \<open>The encoding of a slot\<close>

text \<open>What a well-formed list of components is: identifiers in strictly increasing canonical order.\<close>

definition bstr_less :: "bytes \<Rightarrow> bytes \<Rightarrow> bool" where
  "bstr_less a b \<longleftrightarrow> canonical_bstr_compare a b < 0"

definition comps_ok :: "component_sequence list \<Rightarrow> bool" where
  "comps_ok cs \<longleftrightarrow> sorted_wrt bstr_less (map comp_id cs) \<and> [] \<notin> comp_id ` set cs \<and>
     (\<forall>c \<in> set cs. length (comp_id c) < 2 ^ 64) \<and> length cs \<le> ACCEPTANCE_STATE_MAX_COMPONENTS"

definition encode_component :: "component_sequence \<Rightarrow> bytes" where
  "encode_component c = write_bstr (comp_id c) @ write_type_len 0 (comp_seq c)"

definition encode_components :: "component_sequence list \<Rightarrow> bytes" where
  "encode_components cs = concat (map encode_component cs)"

definition encode_slot :: "u64 \<Rightarrow> component_sequence list \<Rightarrow> bytes \<Rightarrow> bytes" where
  "encode_slot gen cs dg = write_type_len 5 4 @
     write_text (ascii ''generation'') @ write_type_len 0 gen @
     write_text (ascii ''schema_version'') @ write_type_len 0 1 @
     write_text (ascii ''component_sequences'') @ write_type_len 5 (of_nat (length cs)) @
     encode_components cs @
     write_text (ascii ''last_consumed_query_response_sha256'') @ write_bstr dg"

lemma canonical_bstr_compare_eq0: "canonical_bstr_compare a b = 0 \<longleftrightarrow> a = b"
  by (auto simp: canonical_bstr_compare_def mem_compare_eq0 not_less)

lemma canonical_bstr_compare_swap: "canonical_bstr_compare b a = - canonical_bstr_compare a b"
  by (auto simp: canonical_bstr_compare_def mem_compare_swap [of b a])

lemma bstr_less_trans: "bstr_less a b \<Longrightarrow> bstr_less b c \<Longrightarrow> bstr_less a c"
  by (auto simp: bstr_less_def canonical_bstr_compare_def split: if_splits
      dest: mem_compare_trans [of a b c, rotated 2])

lemma bstr_less_irrefl: "\<not> bstr_less a a"
  by (simp add: bstr_less_def canonical_bstr_compare_eq0 [THEN iffD2])

lemma bstr_less_linear: "bstr_less a b \<or> a = b \<or> bstr_less b a"
  using canonical_bstr_compare_swap [of a b] canonical_bstr_compare_eq0 [of a b]
  by (auto simp: bstr_less_def)

lemma compare_cases:
  "canonical_bstr_compare a b = 0 \<longleftrightarrow> a = b"
  "canonical_bstr_compare a b > 0 \<longleftrightarrow> bstr_less b a"
  "canonical_bstr_compare a b \<ge> 0 \<longleftrightarrow> \<not> bstr_less a b"
  using canonical_bstr_compare_swap [of a b]
  by (auto simp: canonical_bstr_compare_eq0 bstr_less_def)

lemma sorted_wrt_snoc: "sorted_wrt bstr_less (xs @ [x]) \<longleftrightarrow>
    sorted_wrt bstr_less xs \<and> (xs = [] \<or> bstr_less (last xs) x)"
proof (cases xs rule: rev_cases)
  case (snoc ys y)
  then show ?thesis
    by (auto simp: sorted_wrt_append intro: bstr_less_trans)
qed simp

lemma parse_component_step:
  assumes "comp_id x \<noteq> []" and "length (comp_id x) < 2 ^ 64"
    and "cs = [] \<or> bstr_less (comp_id (last cs)) (comp_id x)"
    and rest: "rest c = encode_component x @ zs"
  shows "parse_component (c, cs) = Inr (adv (length (encode_component x)) c, cs @ [x])"
proof -
  have "read_bytes c 2 = Some (comp_id x, adv (length (write_bstr (comp_id x))) c)"
    using assms(2) rest by (intro read_bytes_bstr) (simp_all add: encode_component_def)
  moreover have "read_uint (adv (length (write_bstr (comp_id x))) c) 0 =
      Some (comp_seq x, adv (length (encode_component x)) c)"
    using rest by (subst read_uint_0 [of _ "comp_seq x" zs]) (simp_all add: encode_component_def)
  ultimately show ?thesis
    using assms(1,3) by (auto simp: parse_component_def compare_cases)
qed

lemma parse_component_loop:
  assumes "sorted_wrt bstr_less (map comp_id (acc @ cs))" and "[] \<notin> comp_id ` set cs"
    and "\<forall>c \<in> set cs. length (comp_id c) < 2 ^ 64"
    and "rest c = encode_components cs @ zs"
  shows "for_loop (length cs) parse_component (c, acc) =
         Inr (adv (length (encode_components cs)) c, acc @ cs)"
  using assms
proof (induction cs arbitrary: acc c)
  case (Cons x cs)
  let ?c = "adv (length (encode_component x)) c"
  have "acc = [] \<or> bstr_less (comp_id (last acc)) (comp_id x)"
    using Cons.prems(1) by (cases acc rule: rev_cases) (auto simp: sorted_wrt_append)
  then have "parse_component (c, acc) = Inr (?c, acc @ [x])"
    using Cons.prems by (intro parse_component_step) (auto simp: encode_components_def)
  moreover have "for_loop (length cs) parse_component (?c, acc @ [x]) =
      Inr (adv (length (encode_components cs)) ?c, (acc @ [x]) @ cs)"
    using Cons.prems by (intro Cons.IH) (auto simp: encode_components_def)
  ultimately show ?case
    by (simp add: for_loop_Suc encode_components_def)
qed (simp add: encode_components_def)

lemma parse_components_encode:
  assumes "comps_ok cs" and "rest c = write_type_len 5 (of_nat (length cs)) @ encode_components cs @ zs"
  shows "parse_components c =
    Some (cs, adv (length (write_type_len 5 (of_nat (length cs))) + length (encode_components cs)) c)"
proof -
  have n: "unat (of_nat (length cs) :: u64) = length cs" and le: "length cs \<le> 32"
    using assms(1) by (simp_all add: comps_ok_def ACCEPTANCE_STATE_MAX_COMPONENTS_def unat_of_nat_u64)
  have "read_uint c 5 = Some (of_nat (length cs), adv (length (write_type_len 5 (of_nat (length cs)))) c)"
    using assms(2) by (rule read_uint_5)
  moreover have "for_loop (length cs) parse_component
      (adv (length (write_type_len 5 (of_nat (length cs)))) c, []) =
      Inr (adv (length (encode_components cs)) (adv (length (write_type_len 5 (of_nat (length cs)))) c), [] @ cs)"
    using assms by (intro parse_component_loop) (auto simp: comps_ok_def)
  ultimately show ?thesis
    using n le by (simp add: parse_components_def ACCEPTANCE_STATE_MAX_COMPONENTS_def)
qed

lemma parse_slot_fields_encode:
  assumes "gen \<noteq> 0" and "comps_ok cs" and "length dg = 32"
  shows "parse_slot_fields (encode_slot gen cs dg) = Some (gen, 1, cs, dg)"
  using assms
  by (simp add: parse_slot_fields_def encode_slot_def codec_simps parse_components_encode at_end_def
      del: append_assoc)

text \<open>Conversely, a slot that parses is the encoding of what the parser returns.\<close>

lemma parse_component_canonical:
  assumes "parse_component (c, cs) = Inr (c', cs')"
  obtains x where "cs' = cs @ [x]" "comp_id x \<noteq> []" "length (comp_id x) < 2 ^ 64"
    "cs = [] \<or> bstr_less (comp_id (last cs)) (comp_id x)" "rest c = encode_component x @ rest c'"
proof -
  from assms obtain i c1 v where i: "read_bytes c 2 = Some (i, c1)" "i \<noteq> []"
    and v: "read_uint c1 0 = Some (v, c')" and cs': "cs' = cs @ [\<lparr>comp_id = i, comp_seq = v\<rparr>]"
    and lt: "cs = [] \<or> bstr_less (comp_id (last cs)) i"
    by (auto simp: parse_component_def compare_cases split: option.splits if_splits)
  show thesis
    using that [OF cs'] i v lt read_bytes_canonical(2) [OF i(1)]
    by (simp add: encode_component_def read_bstr_canonical [OF i(1)] read_uint_canonical [OF v])
qed

lemma parse_loop_canonical:
  assumes "for_loop n parse_component (c, acc) = Inr (c', cs)"
    and "sorted_wrt bstr_less (map comp_id acc)"
  shows "\<exists>xs. cs = acc @ xs \<and> length xs = n \<and> sorted_wrt bstr_less (map comp_id cs) \<and>
     [] \<notin> comp_id ` set xs \<and> (\<forall>x \<in> set xs. length (comp_id x) < 2 ^ 64) \<and>
     rest c = encode_components xs @ rest c'"
  using assms
proof (induction n arbitrary: c acc)
  case (Suc n)
  then obtain c1 acc1 where step: "parse_component (c, acc) = Inr (c1, acc1)"
    and loop: "for_loop n parse_component (c1, acc1) = Inr (c', cs)"
    by (auto simp: for_loop_Suc split: sum.splits)
  from step obtain x where x: "acc1 = acc @ [x]" "comp_id x \<noteq> []" "length (comp_id x) < 2 ^ 64"
    "acc = [] \<or> bstr_less (comp_id (last acc)) (comp_id x)" "rest c = encode_component x @ rest c1"
    by (rule parse_component_canonical)
  then have "sorted_wrt bstr_less (map comp_id acc1)"
    using Suc.prems(2) by (cases "acc = []") (auto simp: sorted_wrt_snoc last_map)
  from Suc.IH [OF loop this] obtain xs where "cs = acc1 @ xs" "length xs = n"
    "sorted_wrt bstr_less (map comp_id cs)" "[] \<notin> comp_id ` set xs"
    "\<forall>x \<in> set xs. length (comp_id x) < 2 ^ 64" "rest c1 = encode_components xs @ rest c'"
    by blast
  with x show ?case by (intro exI [of _ "x # xs"]) (auto simp: encode_components_def)
qed (simp add: encode_components_def)

lemma parse_components_canonical:
  assumes "parse_components c = Some (cs, c')"
  shows "comps_ok cs"
    and "rest c = write_type_len 5 (of_nat (length cs)) @ encode_components cs @ rest c'"
proof -
  from assms obtain n c1 where n: "read_uint c 5 = Some (n, c1)" "unat n \<le> 32"
    and loop: "for_loop (unat n) parse_component (c1, []) = Inr (c', cs)"
    by (auto simp: parse_components_def ACCEPTANCE_STATE_MAX_COMPONENTS_def
        split: option.splits if_splits sum.splits)
  have cs: "length cs = unat n" "sorted_wrt bstr_less (map comp_id cs)" "[] \<notin> comp_id ` set cs"
    "\<forall>x \<in> set cs. length (comp_id x) < 2 ^ 64" and rest: "rest c1 = encode_components cs @ rest c'"
    using parse_loop_canonical [OF loop] by auto
  show "comps_ok cs"
    using n cs by (simp add: comps_ok_def ACCEPTANCE_STATE_MAX_COMPONENTS_def)
  show "rest c = write_type_len 5 (of_nat (length cs)) @ encode_components cs @ rest c'"
    using canonical_reads(1) [OF n(1)] rest cs by simp
qed

lemma parse_slot_fields_canonical:
  assumes "parse_slot_fields bs = Some (gen, 1, cs, dg)"
  shows "bs = encode_slot gen cs dg" and "gen \<noteq> 0" and "comps_ok cs" and "length dg = 32"
proof -
  from assms show "gen \<noteq> 0" and "comps_ok cs" and "length dg = 32"
    by (auto simp: parse_slot_fields_def bind_eq_Some_conv dest: parse_components_canonical)
  have "rest (mk_cursor bs) = encode_slot gen cs dg"
    using assms
    by (clarsimp simp: parse_slot_fields_def bind_eq_Some_conv encode_slot_def simp del: rest_mk
        dest!: canonical_reads parse_components_canonical)
  then show "bs = encode_slot gen cs dg" by simp
qed

section \<open>The update\<close>

text \<open>
  Reference definition of the update: insertion into a sorted list, replacing an entry with the
  same identifier.
\<close>

fun upsert :: "component_sequence \<Rightarrow> component_sequence list \<Rightarrow> component_sequence list" where
  "upsert x [] = [x]"
| "upsert x (c # cs) =
     (if comp_id c = comp_id x then x # cs
      else if bstr_less (comp_id x) (comp_id c) then x # c # cs
      else c # upsert x cs)"

lemma set_upsert: "set (upsert x cs) \<subseteq> insert x (set cs)" "x \<in> set (upsert x cs)"
  by (induction cs) auto

lemma upsert_sorted:
  "sorted_wrt bstr_less (map comp_id cs) \<Longrightarrow> sorted_wrt bstr_less (map comp_id (upsert x cs))"
proof (induction cs)
  case (Cons c cs)
  have "bstr_less (comp_id c) (comp_id y)" if "y \<in> set (upsert x cs)" "comp_id c \<noteq> comp_id x"
    "\<not> bstr_less (comp_id x) (comp_id c)" for y
    using that Cons.prems set_upsert(1) [of x cs] bstr_less_linear [of "comp_id c" "comp_id x"] by auto
  with Cons show ?case by (auto intro: bstr_less_trans)
qed simp

text \<open>\<^verbatim>\<open>find_insert\<close> refuses a sequence number that does not grow, and otherwise finds the position.\<close>

lemma find_insert_split:
  "find_insert i v k cs = Inr (p, rep) \<Longrightarrow>
   \<exists>ys zs. cs = ys @ zs \<and> p = k + length ys \<and>
     upsert \<lparr>comp_id = i, comp_seq = v\<rparr> cs =
       ys @ \<lparr>comp_id = i, comp_seq = v\<rparr> # (if rep then tl zs else zs) \<and>
     (rep \<longrightarrow> zs \<noteq> [] \<and> comp_id (hd zs) = i \<and> comp_seq (hd zs) < v)"
proof (induction cs arbitrary: k)
  case (Cons c cs)
  show ?case
  proof (cases "bstr_less (comp_id c) i")
    case True
    then have ne: "comp_id c \<noteq> i" "\<not> bstr_less i (comp_id c)"
      using bstr_less_irrefl bstr_less_trans by blast+
    with Cons.prems have "find_insert i v (k + 1) cs = Inr (p, rep)"
      by (simp add: Let_def compare_cases)
    from Cons.IH [OF this] obtain ys zs where "cs = ys @ zs" "p = k + 1 + length ys"
      "upsert \<lparr>comp_id = i, comp_seq = v\<rparr> cs =
         ys @ \<lparr>comp_id = i, comp_seq = v\<rparr> # (if rep then tl zs else zs)"
      "rep \<longrightarrow> zs \<noteq> [] \<and> comp_id (hd zs) = i \<and> comp_seq (hd zs) < v"
      by blast
    with ne show ?thesis by (intro exI [of _ "c # ys"] exI [of _ zs]) simp
  next
    case False
    with Cons.prems show ?thesis
      using bstr_less_linear [of "comp_id c" i]
      by (intro exI [of _ "[]"] exI [of _ "c # cs"])
        (auto simp: Let_def compare_cases not_le split: if_splits)
  qed
qed simp

lemma find_insert_rejects:
  "find_insert i v k cs = Inl e \<Longrightarrow>
     e = ERROR_ACCESS_CONFLICT \<and> (\<exists>c \<in> set cs. comp_id c = i \<and> v \<le> comp_seq c)"
  by (induction i v k cs rule: find_insert.induct)
    (auto simp: Let_def compare_cases split: if_splits)

lemma updated_entries:
  assumes "find_insert i v 0 (components cur) = Inr (p, rep)"
  shows "concat (map (updated_entry cur i v p rep)
           [0..<length (components cur) + (if rep then 0 else 1)]) =
         encode_components (upsert \<lparr>comp_id = i, comp_seq = v\<rparr> (components cur))"
    and "length (upsert \<lparr>comp_id = i, comp_seq = v\<rparr> (components cur)) =
         length (components cur) + (if rep then 0 else 1)"
proof -
  let ?x = "\<lparr>comp_id = i, comp_seq = v\<rparr>"
  from find_insert_split [OF assms] obtain ys zs where cs: "components cur = ys @ zs"
    and p: "p = length ys" and up: "upsert ?x (components cur) = ys @ ?x # (if rep then tl zs else zs)"
    and rep: "rep \<longrightarrow> zs \<noteq> []" by auto
  show len: "length (upsert ?x (components cur)) = length (components cur) + (if rep then 0 else 1)"
    unfolding up unfolding cs using rep by (cases zs) auto
  have "map (updated_entry cur i v p rep) [0..<length (upsert ?x (components cur))] =
        map encode_component (upsert ?x (components cur))"
  proof (rule nth_equalityI)
    fix k assume "k < length (map (updated_entry cur i v p rep) [0..<length (upsert ?x (components cur))])"
    then have k: "k < length (upsert ?x (components cur))" by simp
    consider "k < length ys" | "k = length ys" | "length ys < k" by linarith
    then show "map (updated_entry cur i v p rep) [0..<length (upsert ?x (components cur))] ! k =
          map encode_component (upsert ?x (components cur)) ! k"
    proof cases
      case 3
      then obtain m where m: "k = length ys + Suc m" by (metis less_iff_Suc_add add_Suc_right)
      then show ?thesis
        using k rep unfolding up unfolding cs p
        by (cases zs) (auto simp: nth_append updated_entry_def encode_component_def cs simp del: upt_Suc)
    qed (use k in \<open>unfold up, simp_all add: p updated_entry_def encode_component_def nth_append cs
          del: upt_Suc\<close>)
  qed simp
  then show "concat (map (updated_entry cur i v p rep)
           [0..<length (components cur) + (if rep then 0 else 1)]) = encode_components (upsert ?x (components cur))"
    unfolding len [symmetric] encode_components_def by simp
qed

text \<open>The size computed in advance is exact, so that the last test of \<^verbatim>\<open>encode_updated\<close> never fails.\<close>

lemma length_encode_components:
  "length (encode_components cs) =
     (\<Sum>c \<leftarrow> cs. bstr_size (length (comp_id c)) + type_len_size (comp_seq c))"
  by (simp add: encode_components_def encode_component_def length_concat comp_def write_lengths)

lemma sum_list_skip:
  "(\<Sum>i \<leftarrow> [0..<length (ys @ z # zs)]. if i = length ys then 0 else g ((ys @ z # zs) ! i) :: nat) =
   (\<Sum>c \<leftarrow> ys. g c) + (\<Sum>c \<leftarrow> zs. g c)"
proof -
  have "map (\<lambda>i. if i = length ys then 0 else g ((ys @ z # zs) ! i)) [0..<length (ys @ z # zs)] =
        map g ys @ 0 # map g zs"
    by (rule nth_equalityI) (auto simp: nth_append nth_Cons' simp del: upt_Suc)
  then show ?thesis by (simp del: upt_Suc)
qed

lemma updated_size_exact:
  assumes "find_insert i v 0 (components cur) = Inr (p, rep)" and "length dg = 32"
    and "cs = upsert \<lparr>comp_id = i, comp_seq = v\<rparr> (components cur)"
  shows "updated_size cur i v p rep (length cs) = length (encode_slot (generation cur + 1) cs dg)"
proof -
  let ?x = "\<lparr>comp_id = i, comp_seq = v\<rparr>"
  let ?g = "\<lambda>c. bstr_size (length (comp_id c)) + type_len_size (comp_seq c)"
  from find_insert_split [OF assms(1)] obtain ys zs where split: "components cur = ys @ zs"
    and p: "p = length ys" and cs: "cs = ys @ ?x # (if rep then tl zs else zs)"
    and rep: "rep \<longrightarrow> zs \<noteq> []" unfolding assms(3) by auto
  have "(\<Sum>i \<leftarrow> [0..<length (ys @ zs)]. if rep \<and> i = p then 0 else ?g ((ys @ zs) ! i)) + ?g ?x =
        (\<Sum>c \<leftarrow> cs. ?g c)"
  proof (cases rep)
    case False
    have "map (\<lambda>i. ?g ((ys @ zs) ! i)) [0..<length (ys @ zs)] = map ?g (ys @ zs)"
      by (rule nth_equalityI) (simp_all del: map_append)
    with False show ?thesis by (simp add: cs)
  next
    case True
    with rep obtain z zs' where zs: "zs = z # zs'" by (cases zs) auto
    with True show ?thesis
      using sum_list_skip [of ys ?g z zs'] unfolding p cs zs by (simp del: upt_Suc)
  qed
  then show ?thesis
    unfolding updated_size_def split
    by (simp add: encode_slot_def write_lengths assms(2) length_encode_components)
qed

text \<open>
  What \<^verbatim>\<open>encode_updated\<close> returns on every path: the encoding of the updated components, or the
  reason why there is none.
\<close>

lemma encode_updated_result:
  assumes "length dg = 32"
  shows "encode_updated cur dg i v =
    (let cs = upsert \<lparr>comp_id = i, comp_seq = v\<rparr> (components cur);
         out = encode_slot (generation cur + 1) cs dg in
     if length i > ACCEPTANCE_STATE_MAX_SIZE then Inl ERROR_EXCESS_DATA
     else case find_insert i v 0 (components cur) of Inl e \<Rightarrow> Inl e
     | Inr (_, rep) \<Rightarrow>
       if \<not> rep \<and> length (components cur) = ACCEPTANCE_STATE_MAX_COMPONENTS
          \<or> length out > ACCEPTANCE_STATE_MAX_SIZE
       then Inl ERROR_EXCESS_DATA else Inr out)"
proof (cases "find_insert i v 0 (components cur)")
  case (Inl e)
  then show ?thesis by (simp add: encode_updated_def)
next
  case (Inr pr)
  then obtain p rep where f: "find_insert i v 0 (components cur) = Inr (p, rep)" by (cases pr) auto
  note sz = updated_size_exact [OF f assms refl]
  note entries = updated_entries [OF f]
  show ?thesis
    using sz unfolding entries(2)
    by (simp add: encode_updated_def f Let_def encode_slot_def entries)
qed

lemma encode_updated_Inr:
  assumes "length dg = 32" and "comps_ok (components cur)" and "i \<noteq> []"
    and "encode_updated cur dg i v = Inr out"
  shows "out = encode_slot (generation cur + 1) (upsert \<lparr>comp_id = i, comp_seq = v\<rparr> (components cur)) dg"
    and "length out \<le> ACCEPTANCE_STATE_MAX_SIZE"
    and "comps_ok (upsert \<lparr>comp_id = i, comp_seq = v\<rparr> (components cur))"
proof -
  let ?x = "\<lparr>comp_id = i, comp_seq = v\<rparr>"
  from assms(4) obtain p rep where f: "find_insert i v 0 (components cur) = Inr (p, rep)"
    and i: "length i \<le> 4096" and n: "rep \<or> length (components cur) \<noteq> 32"
    and out: "out = encode_slot (generation cur + 1) (upsert ?x (components cur)) dg"
      "length out \<le> ACCEPTANCE_STATE_MAX_SIZE"
    unfolding encode_updated_result [OF assms(1)]
    by (auto simp: Let_def ACCEPTANCE_STATE_MAX_SIZE_def ACCEPTANCE_STATE_MAX_COMPONENTS_def
        split: if_splits sum.splits)
  show "out = encode_slot (generation cur + 1) (upsert ?x (components cur)) dg"
    "length out \<le> ACCEPTANCE_STATE_MAX_SIZE" by (rule out)+
  have "length (upsert ?x (components cur)) \<le> 32"
    using updated_entries(2) [OF f] n assms(2)
    by (auto simp: comps_ok_def ACCEPTANCE_STATE_MAX_COMPONENTS_def)
  then show "comps_ok (upsert ?x (components cur))"
    using assms(2,3) i set_upsert(1) [of ?x "components cur"] upsert_sorted [of "components cur" ?x]
    by (auto simp: comps_ok_def ACCEPTANCE_STATE_MAX_COMPONENTS_def)
qed

section \<open>The view of a slot\<close>

text \<open>
  The specification of \<^verbatim>\<open>load_current\<close>: what storage holds in a slot, and which of two slots is
  current.
\<close>

datatype slot_view = Absent | Unreadable | Unsupported | Valid acceptance_state

definition parse_view :: "acceptance_state \<Rightarrow> slot_view" where
  "parse_view st = (case parse_slot st of (ps, st') \<Rightarrow>
     case ps of PARSE_VALID \<Rightarrow> Valid st' | PARSE_MALFORMED \<Rightarrow> Unreadable | PARSE_UNSUPPORTED \<Rightarrow> Unsupported)"

definition result_view :: "tee_error + acceptance_state \<Rightarrow> slot_view" where
  "result_view r = (case r of Inl e \<Rightarrow> if e = ERROR_ITEM_NOT_FOUND then Absent else Unreadable
     | Inr st \<Rightarrow> parse_view st)"

definition resolve :: "slot_view \<Rightarrow> slot_view \<Rightarrow> tee_error + acceptance_state \<Rightarrow> tee_error + acceptance_state" where
  "resolve v0 v1 legacy =
     (if v0 = Unsupported \<or> v1 = Unsupported then Inl ERROR_NOT_SUPPORTED
      else case (v0, v1) of
        (Valid a, Valid b) \<Rightarrow>
          if generation a = generation b \<and> raw a \<noteq> raw b then Inl ERROR_SECURITY
          else if generation a < generation b then Inr (b\<lparr>active_slot := 1\<rparr>)
          else Inr (a\<lparr>active_slot := 0\<rparr>)
      | (Valid a, _) \<Rightarrow> Inr (a\<lparr>active_slot := 0\<rparr>)
      | (_, Valid b) \<Rightarrow> Inr (b\<lparr>active_slot := 1\<rparr>)
      | (Absent, Absent) \<Rightarrow> legacy
      | _ \<Rightarrow> Inl ERROR_CORRUPT_OBJECT)"

text \<open>What an object holds, read without faults.\<close>

definition stored :: "store \<Rightarrow> bytes \<Rightarrow> acceptance_state \<Rightarrow> tee_error + acceptance_state" where
  "stored S nm st = (case S nm of None \<Rightarrow> Inl ERROR_ITEM_NOT_FOUND
     | Some bs \<Rightarrow> if bs = [] \<or> length bs > ACCEPTANCE_STATE_MAX_SIZE then Inl ERROR_BAD_FORMAT
                 else Inr (st\<lparr>raw := bs\<rparr>))"

definition slot_view_of :: "store \<Rightarrow> bytes \<Rightarrow> slot_view" where
  "slot_view_of S nm = result_view (stored S nm zero_state)"

definition legacy_view :: "store \<Rightarrow> tee_error + acceptance_state" where
  "legacy_view S = load_legacy (stored S legacy_id (zero_state\<lparr>active_slot := -1\<rparr>))"

definition load_spec :: "store \<Rightarrow> tee_error + acceptance_state" where
  "load_spec S = resolve (slot_view_of S slot0_id) (slot_view_of S slot1_id) (legacy_view S)"

section \<open>What reading and writing return\<close>

lemma read_object_outcome:
  assumes "storage_laws A objs hobj sha"
  shows "hoare (\<lambda>w. objs w = S) (read_object A nm st) (\<lambda>r w. objs w = S \<and>
     (r = stored S nm st \<or> (\<exists>e. r = Inl e \<and> e \<noteq> ERROR_ITEM_NOT_FOUND)))"
  unfolding read_object_def
  by (intro hoare_with_object [OF assms] hoare_sized [OF assms] hoare_read_all [OF assms] wp)
    (auto simp: stored_def)

interpretation acc: slot_io write_slot "\<lambda>A k. read_object A (slot_name k) zero_state" raw
    ACCEPTANCE_STATE_MAX_SIZE slot_name
proof
  fix A :: "('w, 'h) tee_api" and objs hobj sha S k bs
  assume laws: "storage_laws A objs hobj sha"
  show "hoare (\<lambda>w. objs w = S) (write_slot A k bs) (\<lambda>r w. slot_written S (slot_name k) bs r (objs w))"
    unfolding write_slot_def by (rule hoare_create_write [OF laws])
  show "hoare (\<lambda>w. objs w = S) (read_object A (slot_name k) zero_state)
     (\<lambda>r w. objs w = S \<and> slot_read ACCEPTANCE_STATE_MAX_SIZE S (slot_name k) (map_sum id raw r))"
    by (rule hoare_post [OF read_object_outcome [OF laws]])
      (auto simp: slot_read_def stored_def split: option.splits if_splits)
qed (simp add: slot_name_def slot0_id_def slot1_id_def)

section \<open>Loading the current state\<close>

lemma parse_slot_again:
  "parse_slot st = (PARSE_VALID, st') \<Longrightarrow>
   parse_slot (st'\<lparr>active_slot := k\<rparr>) = (PARSE_VALID, st'\<lparr>active_slot := k\<rparr>)"
  by (cases st) (auto simp: parse_slot_def split: option.splits if_splits)

lemma parse_view_cases:
  obtains st' where "parse_slot st = (PARSE_VALID, st')" "parse_view st = Valid st'"
  | st' where "parse_slot st = (PARSE_MALFORMED, st')" "parse_view st = Unreadable"
  | st' where "parse_slot st = (PARSE_UNSUPPORTED, st')" "parse_view st = Unsupported"
  by (cases "parse_slot st"; cases "fst (parse_slot st)") (auto simp: parse_view_def)

lemma scan_slot_view:
  "scan_slot i r sc =
     (case result_view r of Absent \<Rightarrow> Inr sc
      | Unsupported \<Rightarrow> Inl ERROR_NOT_SUPPORTED
      | Unreadable \<Rightarrow> Inr (sc\<lparr>present := (present sc)[i := True],
          slots := (case r of Inl _ \<Rightarrow> slots sc | Inr st \<Rightarrow> (slots sc)[i := snd (parse_slot st)]),
          status := (case r of Inl _ \<Rightarrow> status sc | Inr st \<Rightarrow> (status sc)[i := PARSE_MALFORMED])\<rparr>)
      | Valid st' \<Rightarrow> Inr (let sc = sc\<lparr>present := (present sc)[i := True], slots := (slots sc)[i := st'],
            status := (status sc)[i := PARSE_VALID]\<rparr> in
          sc\<lparr>valid_count := valid_count sc + 1,
             selected := (if selected sc < 0 \<or>
                             generation (slots sc ! i) > generation (slots sc ! nat (selected sc))
                          then int i else selected sc)\<rparr>))"
proof (cases r)
  case (Inl e)
  then show ?thesis by (simp add: scan_slot_def result_view_def)
next
  case (Inr st)
  then show ?thesis
    by (cases st rule: parse_view_cases) (simp_all add: scan_slot_def result_view_def Let_def)
qed

lemma result_view_Valid: "result_view r = Valid st \<Longrightarrow> \<exists>st0. parse_slot st0 = (PARSE_VALID, st)"
  by (cases r) (auto simp: result_view_def parse_view_def split: if_splits prod.splits parse_status.splits)

text \<open>The loop over the slots and the selection after it compute \<open>resolve\<close>.\<close>

lemma load_scan_resolve:
  "(case scan_slot 0 r0 init_scan of Inl e \<Rightarrow> Inl e
    | Inr sc0 \<Rightarrow> case scan_slot 1 r1 sc0 of Inl e \<Rightarrow> Inl e
      | Inr sc1 \<Rightarrow> (case select_slot sc1 of Some r \<Rightarrow> r | None \<Rightarrow> l)) =
   resolve (result_view r0) (result_view r1) l"
  by (cases "result_view r0"; cases "result_view r1")
    (auto simp: scan_slot_view init_scan_def select_slot_def resolve_def Let_def states_equal_def
      mem_compare_eq0 numeral_2_eq_2 parse_slot_again split: sum.splits dest!: result_view_Valid)

text \<open>A slot is seen as it is, or, after a fault of the storage, as unreadable.\<close>

definition seen :: "store \<Rightarrow> bytes \<Rightarrow> slot_view \<Rightarrow> bool" where
  "seen S nm v \<longleftrightarrow> v = slot_view_of S nm \<or> v = Unreadable"

lemma read_object_seen:
  assumes "storage_laws A objs hobj sha"
  shows "hoare (\<lambda>w. objs w = S) (read_object A nm zero_state)
     (\<lambda>r w. objs w = S \<and> seen S nm (result_view r))"
  by (rule hoare_post [OF read_object_outcome [OF assms]])
    (auto simp: seen_def slot_view_of_def result_view_def)

lemma read_legacy_outcome:
  assumes "storage_laws A objs hobj sha"
  shows "hoare (\<lambda>w. objs w = S) (read_object A legacy_id (zero_state\<lparr>active_slot := -1\<rparr>))
     (\<lambda>r w. objs w = S \<and> (load_legacy r = legacy_view S \<or> load_legacy r = Inl ERROR_CORRUPT_OBJECT))"
  by (rule hoare_post [OF read_object_outcome [OF assms]]) (auto simp: legacy_view_def load_legacy_def)

lemma run_load_current:
  assumes "run_state (read_object A slot0_id zero_state) w = (r0, w0)"
    and "run_state (read_object A slot1_id zero_state) w0 = (r1, w1)"
    and "run_state (read_object A legacy_id (zero_state\<lparr>active_slot := -1\<rparr>)) w1 = (r2, w2)"
  shows "fst (run_state (load_current A) w) = resolve (result_view r0) (result_view r1) (load_legacy r2)"
    and "snd (run_state (load_current A) w) \<in> {w0, w1, w2}"
  using assms
  by (simp_all add: load_current_def load_scan_resolve [symmetric] split: sum.split option.split)

lemma hoare_load_current:
  assumes laws: "storage_laws A objs hobj sha"
  shows "hoare (\<lambda>w. objs w = S) (load_current A) (\<lambda>r w. objs w = S \<and>
     (\<exists>v0 v1 l. seen S slot0_id v0 \<and> seen S slot1_id v1 \<and>
        (l = legacy_view S \<or> l = Inl ERROR_CORRUPT_OBJECT) \<and> r = resolve v0 v1 l))"
proof (rule hoareI)
  fix w r w' assume S: "objs w = S" and run: "run_state (load_current A) w = (r, w')"
  obtain r0 w0 r1 w1 r2 w2 where r0: "run_state (read_object A slot0_id zero_state) w = (r0, w0)"
    and r1: "run_state (read_object A slot1_id zero_state) w0 = (r1, w1)"
    and r2: "run_state (read_object A legacy_id (zero_state\<lparr>active_slot := -1\<rparr>)) w1 = (r2, w2)"
    by (meson surj_pair)
  note s0 = hoareD [OF read_object_seen [OF laws] S r0]
  then have s1: "objs w1 = S \<and> seen S slot1_id (result_view r1)"
    using hoareD [OF read_object_seen [OF laws] _ r1] by blast
  then have s2: "objs w2 = S \<and> (load_legacy r2 = legacy_view S \<or> load_legacy r2 = Inl ERROR_CORRUPT_OBJECT)"
    using hoareD [OF read_legacy_outcome [OF laws] _ r2] by blast
  from run_load_current [OF r0 r1 r2] run s0 s1 s2
  show "objs w' = S \<and> (\<exists>v0 v1 l. seen S slot0_id v0 \<and> seen S slot1_id v1 \<and>
        (l = legacy_view S \<or> l = Inl ERROR_CORRUPT_OBJECT) \<and> r = resolve v0 v1 l)"
    by auto
qed

text \<open>Where a state that was loaded comes from, whatever faults occurred on the way.\<close>

definition held :: "store \<Rightarrow> acceptance_state \<Rightarrow> bool" where
  "held S cur \<longleftrightarrow>
     active_slot cur = 0 \<and> slot_view_of S slot0_id = Valid cur \<or>
     active_slot cur = 1 \<and> slot_view_of S slot1_id = Valid (cur\<lparr>active_slot := 0\<rparr>) \<or>
     active_slot cur = -1 \<and> S slot0_id = None \<and> S slot1_id = None \<and> legacy_view S = Inr cur"

definition slot_state :: "bytes \<Rightarrow> u64 \<Rightarrow> component_sequence list \<Rightarrow> bytes \<Rightarrow> acceptance_state" where
  "slot_state bs gen cs dg = \<lparr>raw = bs, generation = gen, digest = dg, have_digest = True,
     components = cs, active_slot = 0\<rparr>"

lemma slot_view_Valid:
  "slot_view_of S nm = Valid st \<longleftrightarrow> (\<exists>bs gen cs dg. S nm = Some bs \<and> bs \<noteq> [] \<and>
     length bs \<le> ACCEPTANCE_STATE_MAX_SIZE \<and> parse_slot_fields bs = Some (gen, 1, cs, dg) \<and>
     st = slot_state bs gen cs dg)"
  by (auto simp: slot_view_of_def result_view_def stored_def parse_view_def parse_slot_def zero_state_def
      slot_state_def split: option.splits if_splits)

lemma slot_view_Absent: "slot_view_of S nm = Absent \<longleftrightarrow> S nm = None"
  by (auto simp: slot_view_of_def result_view_def stored_def parse_view_def
      split: option.splits prod.splits parse_status.splits)

lemma legacy_view_active: "legacy_view S = Inr cur \<Longrightarrow> active_slot cur = -1"
  by (auto simp: legacy_view_def load_legacy_def parse_legacy_def stored_def Let_def
      split: option.splits if_splits)

lemma slot_view_inactive:
  "slot_view_of S nm = Valid st \<Longrightarrow> st\<lparr>active_slot := 0\<rparr> = st"
  "slot_view_of S nm = Valid st \<Longrightarrow> active_slot st = 0"
  by (auto simp: slot_view_Valid slot_state_def)

lemma slot_view_have_digest: "slot_view_of S nm = Valid st \<Longrightarrow> have_digest st"
  by (auto simp: slot_view_Valid slot_state_def)

lemma active_slot_same: "active_slot cur = k \<Longrightarrow> cur\<lparr>active_slot := k\<rparr> = cur"
  by (cases cur) simp

lemma resolve_Inr:
  assumes "resolve v0 v1 l = Inr cur"
  obtains a where "v0 = Valid a" "cur = a\<lparr>active_slot := 0\<rparr>"
  | b where "v1 = Valid b" "cur = b\<lparr>active_slot := 1\<rparr>"
  | "v0 = Absent" "v1 = Absent" "l = Inr cur"
  using assms by (cases v0; cases v1) (auto simp: resolve_def split: if_splits)

lemma seen_simps:
  "seen S nm (Valid st) \<longleftrightarrow> slot_view_of S nm = Valid st" "seen S nm Absent \<longleftrightarrow> S nm = None"
  by (auto simp: seen_def slot_view_Absent [symmetric])

lemma resolve_held:
  assumes "seen S slot0_id v0" and "seen S slot1_id v1" and "l = legacy_view S \<or> l = Inl e"
    and "resolve v0 v1 l = Inr cur"
  shows "held S cur"
  using assms(4)
proof (cases rule: resolve_Inr)
  case (1 a)
  with assms(1) show ?thesis by (simp add: held_def seen_simps slot_view_inactive)
next
  case (2 b)
  with assms(2) show ?thesis by (simp add: held_def seen_simps slot_view_inactive)
next
  case 3
  with assms(1-3) have "legacy_view S = Inr cur" "S slot0_id = None" "S slot1_id = None"
    by (auto simp: seen_simps)
  then show ?thesis using legacy_view_active by (simp add: held_def)
qed

lemma heldE:
  assumes "held S cur"
  obtains "active_slot cur = 0" "slot_view_of S slot0_id = Valid cur"
  | "active_slot cur = 1" "slot_view_of S slot1_id = Valid (cur\<lparr>active_slot := 0\<rparr>)"
  | "active_slot cur = -1" "slot_view_of S slot0_id = Absent" "slot_view_of S slot1_id = Absent"
    "legacy_view S = Inr cur"
  using assms unfolding held_def slot_view_Absent by metis

lemma load_spec_held: "load_spec S = Inr cur \<Longrightarrow> held S cur"
  unfolding load_spec_def by (rule resolve_held) (auto simp: seen_def)

lemma held_comps_ok: "held S cur \<Longrightarrow> comps_ok (components cur)"
proof -
  assume h: "held S cur"
  then consider st nm where "slot_view_of S nm = Valid st" "components st = components cur"
    | "legacy_view S = Inr cur"
    by (auto simp: held_def)
  then show ?thesis
  proof cases
    case 1
    then show ?thesis by (auto simp: slot_view_Valid slot_state_def dest: parse_slot_fields_canonical)
  next
    case 2
    have "comps_ok (components zero_state)" by (simp add: comps_ok_def zero_state_def)
    with 2 show ?thesis
      by (auto simp: legacy_view_def load_legacy_def parse_legacy_def Let_def zero_state_def
          dest!: parse_components_canonical(1) split: sum.splits option.splits if_splits)
  qed
qed

section \<open>The abstract acceptance state\<close>

text \<open>
  What the component promises: a generation, the digest consumed last, and a map from component
  identifiers to the sequence number accepted last.
\<close>

record acceptance =
  acc_generation :: u64
  acc_digest :: "bytes option"
  acc_seqs :: "bytes \<rightharpoonup> u64"

definition abs_of :: "acceptance_state \<Rightarrow> acceptance" where
  "abs_of st = \<lparr>acc_generation = generation st,
     acc_digest = (if have_digest st then Some (digest st) else None),
     acc_seqs = (\<lambda>i. find_component i (components st))\<rparr>"

definition abs_load :: "store \<Rightarrow> acceptance option" where
  "abs_load S = (case load_spec S of Inl _ \<Rightarrow> None | Inr st \<Rightarrow> Some (abs_of st))"

definition commit_spec :: "acceptance \<Rightarrow> bytes \<Rightarrow> bytes \<Rightarrow> u64 \<Rightarrow> acceptance" where
  "commit_spec a dg i v = \<lparr>acc_generation = acc_generation a + 1, acc_digest = Some dg,
     acc_seqs = (acc_seqs a)(i \<mapsto> v)\<rparr>"

text \<open>The conditions under which a commit may take effect: freshness and progress.\<close>

definition commit_allowed :: "acceptance \<Rightarrow> bytes \<Rightarrow> bytes \<Rightarrow> u64 \<Rightarrow> bool" where
  "commit_allowed a dg i v \<longleftrightarrow> i \<noteq> [] \<and> v \<noteq> 0 \<and> acc_generation a \<noteq> -1 \<and> acc_digest a \<noteq> Some dg \<and>
     (case acc_seqs a i of None \<Rightarrow> True | Some old \<Rightarrow> old < v)"

lemma find_component_eq: "find_component i (c # cs) =
    (if comp_id c = i then Some (comp_seq c) else find_component i cs)"
  by (auto simp: mem_compare_eq0)

lemma find_component_None: "i \<notin> comp_id ` set cs \<Longrightarrow> find_component i cs = None"
  by (induction cs) (auto simp: find_component_eq simp del: find_component.simps(2))

lemma find_component_upsert:
  "find_component j (upsert x cs) = (if j = comp_id x then Some (comp_seq x) else find_component j cs)"
  by (induction cs) (auto simp: find_component_eq simp del: find_component.simps(2))

lemma find_insert_fresh:
  assumes "sorted_wrt bstr_less (map comp_id cs)" and "find_insert i v k cs = Inr pr"
  shows "case find_component i cs of None \<Rightarrow> True | Some old \<Rightarrow> old < v"
  using assms
proof (induction cs arbitrary: k)
  case (Cons c cs)
  consider "comp_id c = i" | "bstr_less i (comp_id c)" | "bstr_less (comp_id c) i"
    using bstr_less_linear by blast
  then show ?case
  proof cases
    case 2
    then have "i \<notin> comp_id ` set (c # cs)"
      using Cons.prems(1) bstr_less_trans bstr_less_irrefl by (auto) blast+
    then show ?thesis by (simp add: find_component_None del: find_component.simps(2) list.set(2))
  next
    case 1
    with Cons.prems(2) show ?thesis
      by (auto simp: Let_def compare_cases find_component_eq not_le simp del: find_component.simps(2)
          split: if_splits)
  next
    case 3
    then have "comp_id c \<noteq> i" "\<not> bstr_less i (comp_id c)"
      using bstr_less_irrefl bstr_less_trans by blast+
    with Cons show ?thesis
      by (simp add: Let_def compare_cases find_component_eq del: find_component.simps(2))
  qed
qed simp

section \<open>Commits\<close>

lemma slot_names: "slot0_id \<noteq> slot1_id" "slot0_id \<noteq> legacy_id" "slot1_id \<noteq> legacy_id"
  by (simp_all add: slot0_id_def slot1_id_def legacy_id_def)

lemma view_update:
  "nm \<noteq> nm' \<Longrightarrow> slot_view_of (S(nm := x)) nm' = slot_view_of S nm'"
  "slot_view_of (S(nm := None)) nm = Absent"
  "slot_view_of (S(nm := Some [])) nm = Unreadable"
  "legacy_view (S(slot_name k := x)) = legacy_view S"
  using slot_names by (auto simp: slot_view_of_def stored_def result_view_def legacy_view_def slot_name_def)

lemma view_encoded:
  assumes "gen \<noteq> 0" "comps_ok cs" "length dg = 32" "length (encode_slot gen cs dg) \<le> ACCEPTANCE_STATE_MAX_SIZE"
  shows "slot_view_of (S(nm := Some (encode_slot gen cs dg))) nm =
         Valid (slot_state (encode_slot gen cs dg) gen cs dg)"
proof -
  have "encode_slot gen cs dg \<noteq> []" by (simp add: encode_slot_def write_type_len_def Let_def)
  with assms show ?thesis by (simp add: slot_view_Valid parse_slot_fields_encode)
qed

text \<open>The slot a commit writes, and the effect of each outcome of the write on the current state.\<close>

definition target_slot :: "acceptance_state \<Rightarrow> int" where
  "target_slot cur = (if active_slot cur = 0 then 1 else 0)"

lemma load_after_commit:
  assumes "held S cur" and "generation cur \<noteq> -1" and "comps_ok cs" and "length dg = 32"
    and "out = encode_slot (generation cur + 1) cs dg" and "length out \<le> ACCEPTANCE_STATE_MAX_SIZE"
  shows "load_spec (S(slot_name (target_slot cur) := Some out)) =
     Inr ((slot_state out (generation cur + 1) cs dg)\<lparr>active_slot := target_slot cur\<rparr>)"
proof -
  let ?S = "S(slot_name (target_slot cur) := Some out)"
  have gt: "generation cur < generation cur + 1" and nz: "generation cur + 1 \<noteq> 0"
    using assms(2) by (rule word_less_succ)+
  have new: "slot_view_of ?S (slot_name (target_slot cur)) =
      Valid (slot_state out (generation cur + 1) cs dg)"
    unfolding assms(5) by (rule view_encoded) (use assms nz in auto)
  from assms(1) show ?thesis
    by (cases rule: heldE)
      (use new gt slot_names in \<open>simp_all add: target_slot_def slot_name_def load_spec_def resolve_def
         view_update slot_state_def split: slot_view.split\<close>)
qed

lemma load_after_torn:
  assumes "held S cur" and "active_slot cur \<noteq> -1" and "x = None \<or> x = Some []"
  shows "load_spec (S(slot_name (target_slot cur) := x)) = Inr cur"
  using assms(1)
proof (cases rule: heldE)
  case 1
  then show ?thesis
    using assms(3) slot_names
    by (auto simp: target_slot_def slot_name_def load_spec_def resolve_def view_update active_slot_same)
next
  case 2
  from assms(3) have "slot_view_of (S(slot0_id := x)) slot0_id \<in> {Absent, Unreadable}"
    by (auto simp: view_update)
  moreover have "slot_view_of (S(slot0_id := x)) slot1_id = Valid (cur\<lparr>active_slot := 0\<rparr>)"
    using 2 slot_names by (simp add: view_update)
  moreover have "cur\<lparr>active_slot := 1\<rparr> = cur" using 2 by (intro active_slot_same)
  ultimately show ?thesis
    using 2(1) by (auto simp: target_slot_def slot_name_def load_spec_def resolve_def simp del: fun_upd_apply)
qed (use assms(2) in simp)

text \<open>A load that met faults returns the current state or an older one.\<close>

lemma resolve_both:
  "resolve (Valid a) (Valid b) l =
    (if generation a = generation b \<and> raw a \<noteq> raw b then Inl ERROR_SECURITY
     else if generation a < generation b then Inr (b\<lparr>active_slot := 1\<rparr>) else Inr (a\<lparr>active_slot := 0\<rparr>))"
  by (simp add: resolve_def)

lemma resolve_Valid:
  assumes "v0 = Valid st \<or> v1 = Valid st" and "resolve v0 v1 l = Inr c"
  shows "generation st \<le> generation c \<and> (generation st = generation c \<longrightarrow> raw st = raw c)"
proof -
  consider a b where "v0 = Valid a" "v1 = Valid b" | a where "v0 = Valid a" "\<forall>b. v1 \<noteq> Valid b"
    | b where "v1 = Valid b" "\<forall>a. v0 \<noteq> Valid a" using assms(1) by blast
  then show ?thesis
  proof cases
    case 1
    consider "generation a < generation b" "c = b\<lparr>active_slot := 1\<rparr>"
      | "generation b < generation a" "c = a\<lparr>active_slot := 0\<rparr>"
      | "generation a = generation b" "raw a = raw b" "c = a\<lparr>active_slot := 0\<rparr>"
      using assms(2) unfolding 1 resolve_both
      by (metis linorder_less_linear sum.inject(2) sum.distinct(1))
    then show ?thesis using assms(1) unfolding 1 by cases auto
  next
    case 2
    with assms show ?thesis by (cases v1) (auto simp: resolve_def)
  next
    case 3
    with assms show ?thesis by (cases v0) (auto simp: resolve_def)
  qed
qed

lemma held_load_spec:
  assumes "held S cur" and "load_spec S = Inr cur0"
  shows "generation cur \<le> generation cur0 \<and>
     (generation cur = generation cur0 \<longrightarrow> cur = cur0 \<or> have_digest cur \<and> raw cur = raw cur0)"
  using assms(1)
proof (cases rule: heldE)
    case 1
    with assms(2) show ?thesis using resolve_Valid [of _ cur] slot_view_have_digest by (auto simp: load_spec_def)
  next
    case 2
    with assms(2) show ?thesis
      using resolve_Valid [of _ "cur\<lparr>active_slot := 0\<rparr>"] slot_view_have_digest [OF 2(2)] by (auto simp: load_spec_def)
  next
    case 3
    with assms(2) show ?thesis by (simp add: load_spec_def resolve_def)
qed

lemma held_raw:
  assumes "held S cur" and "have_digest cur"
  shows "parse_slot_fields (raw cur) = Some (generation cur, 1, components cur, digest cur)"
proof -
  have "\<not> have_digest cur" if "legacy_view S = Inr cur"
    using that by (auto simp: legacy_view_def load_legacy_def parse_legacy_def zero_state_def Let_def
        split: sum.splits option.splits if_splits)
  with assms show ?thesis
    by (cases cur) (auto simp: slot_view_Valid slot_state_def elim!: heldE)
qed

lemma held_same_generation:
  assumes "held S cur" and "load_spec S = Inr cur0" and "generation cur = generation cur0"
  shows "abs_of cur = abs_of cur0"
proof (cases "cur = cur0")
  case False
  then have "have_digest cur" "raw cur = raw cur0" using held_load_spec [OF assms(1,2)] assms(3) by auto
  moreover have "have_digest cur0"
  proof (rule ccontr)
    assume "\<not> have_digest cur0"
    with load_spec_held [OF assms(2)] have "slot_view_of S slot0_id = Absent" "slot_view_of S slot1_id = Absent"
      by (auto dest: slot_view_have_digest elim!: heldE)
    with assms(1,2) False show False by (auto simp: load_spec_def resolve_def elim!: heldE)
  qed
  ultimately show ?thesis
    using held_raw [OF assms(1)] held_raw [OF load_spec_held [OF assms(2)]] by (simp add: abs_of_def)
qed simp

text \<open>
  The contract of a commit. On success the current state is the updated one. On an error it is the
  old or the updated one, except when the very first commit was torn between the creation of slot 0
  and the write to it.
\<close>

definition first_commit_torn :: "store \<Rightarrow> store \<Rightarrow> bool" where
  "first_commit_torn S S' \<longleftrightarrow> S slot0_id = None \<and> S slot1_id = None \<and> S' = S(slot0_id := Some [])"

definition commit_result ::
  "store \<Rightarrow> acceptance \<Rightarrow> bytes \<Rightarrow> bytes \<Rightarrow> u64 \<Rightarrow> tee_error + u64 \<Rightarrow> store \<Rightarrow> bool" where
  "commit_result S a dg i v r S' =
     (case r of
        Inr g \<Rightarrow> g = acc_generation a + 1 \<and> commit_allowed a dg i v \<and>
                 abs_load S' = Some (commit_spec a dg i v)
      | Inl e \<Rightarrow> abs_load S' = Some a \<or>
                 (commit_allowed a dg i v \<and> abs_load S' = Some (commit_spec a dg i v)) \<or>
                 first_commit_torn S S')"

lemma abs_load_Inr: "load_spec S = Inr cur \<Longrightarrow> abs_load S = Some (abs_of cur)"
  by (simp add: abs_load_def)

lemma commit_allowed_encoded:
  assumes "comps_ok (components cur)" and "length dg = 32" and "i \<noteq> []" and "v \<noteq> 0" and "generation cur \<noteq> -1"
    and "\<not> (have_digest cur \<and> mem_compare (digest cur) dg = 0)" and "length (digest cur) = 32"
    and "encode_updated cur dg i v = Inr out"
  shows "commit_allowed (abs_of cur) dg i v"
proof -
  obtain pr where "find_insert i v 0 (components cur) = Inr pr"
    using assms(8) by (auto simp: encode_updated_def split: if_splits sum.splits)
  then have "case find_component i (components cur) of None \<Rightarrow> True | Some old \<Rightarrow> old < v"
    using assms(1) by (intro find_insert_fresh) (auto simp: comps_ok_def)
  with assms show ?thesis by (auto simp: commit_allowed_def abs_of_def mem_compare_eq0)
qed

lemma abs_of_updated:
  "abs_of ((slot_state out (generation cur + 1) (upsert \<lparr>comp_id = i, comp_seq = v\<rparr> (components cur)) dg)
     \<lparr>active_slot := k\<rparr>) = commit_spec (abs_of cur) dg i v"
  by (auto simp: abs_of_def slot_state_def commit_spec_def find_component_upsert)

lemma held_digest_length: "held S cur \<Longrightarrow> length (digest cur) = 32"
proof -
  assume h: "held S cur"
  have "length (digest cur) = 32" if "legacy_view S = Inr cur"
    using that by (auto simp: legacy_view_def load_legacy_def parse_legacy_def stored_def zero_state_def Let_def
        split: sum.splits option.splits if_splits)
  with h show ?thesis
    by (cases rule: heldE; cases cur)
      (auto simp: slot_view_Valid slot_state_def dest: parse_slot_fields_canonical(4))
qed

lemma hoare_commit_write:
  assumes laws: "storage_laws A objs hobj sha" and held: "held S cur"
    and load: "load_spec S = Inr cur0" and abs: "abs_of cur = abs_of cur0"
    and len: "length dg = 32" and i: "i \<noteq> []" "v \<noteq> 0" and gen: "generation cur \<noteq> -1"
    and fresh: "\<not> (have_digest cur \<and> mem_compare (digest cur) dg = 0)"
    and enc: "encode_updated cur dg i v = Inr out"
  shows "hoare (\<lambda>w. objs w = S) (bind_ok (write_slot A (target_slot cur) out) (\<lambda>_. do {
      res \<leftarrow> read_object A (slot_name (target_slot cur)) zero_state;
      case res of Inl _ \<Rightarrow> throw ERROR_CORRUPT_OBJECT
      | Inr verify \<Rightarrow>
        if fst (parse_slot verify) \<noteq> PARSE_VALID \<or>
           length (raw verify) \<noteq> length out \<or> mem_compare (raw verify) out \<noteq> 0
        then throw ERROR_CORRUPT_OBJECT
        else success (generation cur + 1) }))
     (\<lambda>r w. commit_result S (abs_of cur0) dg i v r (objs w))"
proof -
  note ok = held_comps_ok [OF held]
  have allowed: "commit_allowed (abs_of cur0) dg i v"
    unfolding abs [symmetric]
    by (rule commit_allowed_encoded [OF ok len i gen fresh held_digest_length [OF held] enc])
  have new: "abs_load (S(slot_name (target_slot cur) := Some out)) = Some (commit_spec (abs_of cur0) dg i v)"
    unfolding abs_load_Inr [OF load_after_commit [OF held gen encode_updated_Inr(3) [OF len ok i(1) enc] len
        encode_updated_Inr(1,2) [OF len ok i(1) enc]]] abs_of_updated abs ..
  have torn: "abs_load S' = Some (abs_of cur0) \<or> first_commit_torn S S'"
    if "slot_written S (slot_name (target_slot cur)) out (Inl e) S'" for S' e
  proof (cases "active_slot cur = -1")
    case True
    then have "S slot0_id = None" "S slot1_id = None" "slot_name (target_slot cur) = slot0_id"
      using held by (auto simp: held_def target_slot_def slot_name_def)
    moreover from this have "S(slot0_id := None) = S" by auto
    ultimately show ?thesis
      using that load by (auto simp: slot_written_def first_commit_torn_def abs_load_Inr)
  next
    case False
    then show ?thesis
      using that load load_after_torn [OF held False] abs by (auto simp: slot_written_def abs_load_Inr)
  qed
  show ?thesis
  proof (rule acc.write_verify [OF laws])
    fix r w
    assume "objs w = S(slot_name (target_slot cur) := Some out)"
    with new allowed abs show "hoare (\<lambda>w'. w' = w) (case r of Inl _ \<Rightarrow> throw ERROR_CORRUPT_OBJECT
      | Inr verify \<Rightarrow>
        if fst (parse_slot verify) \<noteq> PARSE_VALID \<or>
           length (raw verify) \<noteq> length out \<or> mem_compare (raw verify) out \<noteq> 0
        then throw ERROR_CORRUPT_OBJECT
        else success (generation cur + 1)) (\<lambda>r w. commit_result S (abs_of cur0) dg i v r (objs w))"
      by (auto intro!: wp simp: commit_result_def abs_of_def)
  qed (use torn in \<open>auto simp: commit_result_def\<close>)
qed

lemma hoare_commit:
  assumes laws: "storage_laws A objs hobj sha" and load: "load_spec S = Inr cur0" and len: "length dg = 32"
  shows "hoare (\<lambda>w. objs w = S) (twep_acceptance_commit A dg i v (generation cur0))
     (\<lambda>r w. commit_result S (abs_of cur0) dg i v r (objs w))"
proof -
  have keep: "commit_result S (abs_of cur0) dg i v (Inl e) (objs w)" if "objs w = S" for e w
    using that load by (simp add: commit_result_def abs_load_Inr)
  show ?thesis
    unfolding twep_acceptance_commit_def
  proof (rule hoare_if, intro hoare_return keep, assumption,
      rule hoare_bind_ok [OF hoare_load_current [OF laws]])
    fix cur
    assume i: "\<not> (i = [] \<or> v = 0)"
    show "hoare (\<lambda>w. objs w = S \<and> (\<exists>v0 v1 l. seen S slot0_id v0 \<and> seen S slot1_id v1 \<and>
          (l = legacy_view S \<or> l = Inl ERROR_CORRUPT_OBJECT) \<and> Inr cur = resolve v0 v1 l))
        (if generation cur \<noteq> generation cur0 then throw ERROR_ACCESS_CONFLICT
         else if generation cur = -1 then throw ERROR_OVERFLOW
         else if have_digest cur \<and> mem_compare (digest cur) dg = 0 then throw ERROR_ACCESS_CONFLICT
         else case encode_updated cur dg i v of
           Inl e \<Rightarrow> throw e
         | Inr encoded \<Rightarrow>
           let target_slot = (if active_slot cur = 0 then 1 else 0) in
           bind_ok (write_slot A target_slot encoded) (\<lambda>_. do {
             res \<leftarrow> read_object A (slot_name target_slot) zero_state;
             case res of Inl _ \<Rightarrow> throw ERROR_CORRUPT_OBJECT
             | Inr verify \<Rightarrow>
               if fst (parse_slot verify) \<noteq> PARSE_VALID \<or>
                  length (raw verify) \<noteq> length encoded \<or> mem_compare (raw verify) encoded \<noteq> 0
               then throw ERROR_CORRUPT_OBJECT
               else success (generation cur + 1) }))
        (\<lambda>r w. commit_result S (abs_of cur0) dg i v r (objs w))" (is "hoare ?P ?m ?Q")
    proof -
      have step: "hoare (\<lambda>w. objs w = S) ?m ?Q" if held: "held S cur"
        unfolding Let_def target_slot_def [symmetric]
        by (intro hoare_if hoare_return hoare_case_sum keep
            hoare_commit_write [OF laws held load held_same_generation [OF held load] len])
          (use i in simp_all)
      show ?thesis
      proof (rule hoareI)
        fix w r w' assume P: "?P w" and run: "run_state ?m w = (r, w')"
        then have "held S cur" by (metis resolve_held)
        from hoareD [OF step [OF this] _ run] P show "?Q r w'" by blast
      qed
    qed
  qed (use keep in auto)
qed

section \<open>Storage that does not fail\<close>

lemma keeps_read_object:
  assumes "fail_stop A objs hobj dead"
  shows "hoare dead (read_object A nm st) (\<lambda>_. dead)"
  unfolding read_object_def by (intro keeps_rules keeps_ops [OF assms])

lemma crash_read_object:
  assumes "storage_laws A objs hobj sha" and "fail_stop A objs hobj dead"
  shows "crash_hoare dead (\<lambda>w. objs w = S) (read_object A nm st) (\<lambda>r w. objs w = S \<and> r = stored S nm st)"
  unfolding read_object_def
  by (intro crash_with_object [OF assms] crash_sized [OF assms] crash_read_all [OF assms] crash_if crash_return
      keeps_rules keeps_ops [OF assms(2)])
    (auto simp: stored_def)

lemma keeps_load_current:
  assumes "fail_stop A objs hobj dead"
  shows "hoare dead (load_current A) (\<lambda>_. dead)"
  unfolding load_current_def by (intro keeps_rules keeps_read_object [OF assms])

lemma crash_load_current:
  assumes "storage_laws A objs hobj sha" and "fail_stop A objs hobj dead"
  shows "crash_hoare dead (\<lambda>w. objs w = S) (load_current A) (\<lambda>r w. objs w = S \<and> r = load_spec S)"
proof -
  have spec: "load_spec S =
    (case scan_slot 0 (stored S slot0_id zero_state) init_scan of Inl e \<Rightarrow> Inl e
     | Inr sc0 \<Rightarrow> case scan_slot 1 (stored S slot1_id zero_state) sc0 of Inl e \<Rightarrow> Inl e
       | Inr sc1 \<Rightarrow> (case select_slot sc1 of Some r \<Rightarrow> r
          | None \<Rightarrow> load_legacy (stored S legacy_id (zero_state\<lparr>active_slot := -1\<rparr>))))"
    unfolding load_scan_resolve by (simp add: load_spec_def slot_view_of_def legacy_view_def)
  show ?thesis
    unfolding load_current_def
    by (intro crash_bind_result [OF crash_read_object [OF assms]] crash_case_sum crash_return
        crash_case_option keeps_rules keeps_read_object [OF assms(2)])
      (simp_all add: spec)
qed

lemmas load_current_reliable =
  crash_load_current [OF _ reliable_fail_stop, unfolded crash_hoare_False]

lemmas read_object_reliable =
  crash_read_object [OF _ reliable_fail_stop, unfolded crash_hoare_False]

text \<open>The queries of the other components.\<close>

definition sequence_spec :: "store \<Rightarrow> bytes \<Rightarrow> tee_error + u64 \<times> u64" where
  "sequence_spec S j =
     (if j = [] then Inl ERROR_BAD_PARAMETERS
      else case load_spec S of Inl e \<Rightarrow> Inl e
      | Inr cur \<Rightarrow> (case find_component j (components cur) of
          None \<Rightarrow> Inl ERROR_ITEM_NOT_FOUND | Some s \<Rightarrow> Inr (generation cur, s)))"

lemma keeps_queries:
  assumes "fail_stop A objs hobj dead"
  shows "hoare dead (twep_acceptance_generation A) (\<lambda>_. dead)"
    and "hoare dead (twep_acceptance_component_sequence A j) (\<lambda>_. dead)"
  unfolding twep_acceptance_generation_def twep_acceptance_component_sequence_def
  by (intro keeps_rules keeps_load_current [OF assms])+

lemma crash_acceptance_generation:
  assumes "storage_laws A objs hobj sha" and "fail_stop A objs hobj dead"
  shows "crash_hoare dead (\<lambda>w. objs w = S) (twep_acceptance_generation A)
     (\<lambda>r w. objs w = S \<and> r = map_sum id generation (load_spec S))"
  unfolding twep_acceptance_generation_def bind_or_def
  by (intro crash_bind_result [OF crash_load_current [OF assms]] crash_case_sum crash_return keeps_rules) auto

lemma crash_component_sequence:
  assumes "storage_laws A objs hobj sha" and "fail_stop A objs hobj dead"
  shows "crash_hoare dead (\<lambda>w. objs w = S) (twep_acceptance_component_sequence A j)
     (\<lambda>r w. objs w = S \<and> r = sequence_spec S j)"
  unfolding twep_acceptance_component_sequence_def bind_or_def
  by (intro crash_bind_result [OF crash_load_current [OF assms]] crash_if crash_case_sum crash_case_option
      crash_return keeps_rules)
    (auto simp: sequence_spec_def)

lemma hoare_queries:
  assumes "storage_laws A objs hobj sha"
  shows "hoare (\<lambda>w. objs w = S) (load_current A) (\<lambda>_ w. objs w = S)"
    and "hoare (\<lambda>w. objs w = S) (twep_acceptance_generation A) (\<lambda>_ w. objs w = S)"
    and "hoare (\<lambda>w. objs w = S) (twep_acceptance_component_sequence A j) (\<lambda>_ w. objs w = S)"
proof -
  show load: "hoare (\<lambda>w. objs w = S) (load_current A) (\<lambda>_ w. objs w = S)"
    by (rule hoare_post [OF hoare_load_current [OF assms]]) simp
  show "hoare (\<lambda>w. objs w = S) (twep_acceptance_generation A) (\<lambda>_ w. objs w = S)"
    "hoare (\<lambda>w. objs w = S) (twep_acceptance_component_sequence A j) (\<lambda>_ w. objs w = S)"
    unfolding twep_acceptance_generation_def twep_acceptance_component_sequence_def
    by (intro hoare_if hoare_return hoare_bind_ok [OF load]; auto intro!: wp split: option.split)+
qed

lemma digest_sha256_law:
  assumes "storage_laws A objs hobj sha"
  shows "hoare (\<lambda>w. objs w = S) (digest_sha256 A bs)
     (\<lambda>r w. objs w = S \<and> (\<forall>d. r = Inr d \<longrightarrow> d = sha bs \<and> length d = 32))"
  unfolding digest_sha256_def
  by (intro hoare_bind_ok [OF law_digest_alloc [OF assms]] hoare_bind [OF law_digest_final [OF assms]] hoare_return)
    (auto split: sum.splits if_splits)

lemma keeps_digest_sha256:
  assumes "fail_stop A objs hobj dead"
  shows "hoare dead (digest_sha256 A bs) (\<lambda>_. dead)"
  unfolding digest_sha256_def by (intro keeps_rules keeps_ops [OF assms])

lemma crash_digest_sha256:
  assumes laws: "storage_laws A objs hobj sha" and fs: "fail_stop A objs hobj dead"
  shows "crash_hoare dead (\<lambda>w. objs w = S) (digest_sha256 A bs) (\<lambda>r w. objs w = S \<and> r = Inr (sha bs))"
proof -
  have al: "crash_hoare dead (\<lambda>w. objs w = S) (tee_digest_alloc A) (\<lambda>r w. objs w = S \<and> (\<exists>u. r = Inr u))"
    unfolding crash_hoare_def
    using hoare_conj [OF law_digest_alloc [OF laws, of S] fs_digest_alloc [OF fs]] dead_digest_alloc [OF fs]
    by (auto elim!: hoare_conseq)
  have fin: "crash_hoare dead (\<lambda>w. objs w = S) (tee_digest_final A bs)
      (\<lambda>r w. objs w = S \<and> r = Inr (sha bs) \<and> length (sha bs) = 32)"
    unfolding crash_hoare_def
    using hoare_conj [OF law_digest_final [OF laws, of S bs] fs_digest_final [OF fs, of bs]]
      dead_digest_final [OF fs, of bs]
    by (auto elim!: hoare_conseq)
  show ?thesis
    unfolding digest_sha256_def
  proof (rule crash_bind_ok [OF al])
    show "crash_hoare dead (\<lambda>w. objs w = S \<and> (\<exists>u. Inr x = Inr u))
       (do { res \<leftarrow> tee_digest_final A bs;
          State_Monad.return (case res of Inl _ \<Rightarrow> Inl ERROR_GENERIC
            | Inr d \<Rightarrow> if length d \<noteq> 32 then Inl ERROR_GENERIC else Inr d) })
       (\<lambda>r w. objs w = S \<and> r = Inr (sha bs))" for x
      by (rule crash_conseq [OF crash_bind [OF fin crash_return]]) auto
  qed simp
qed

text \<open>A commit changes no object but its two slots.\<close>

lemma hoare_commit_frame:
  assumes laws: "storage_laws A objs hobj sha" and nm: "nm \<noteq> slot0_id" "nm \<noteq> slot1_id"
  shows "hoare (\<lambda>w. objs w = S) (twep_acceptance_commit A dg i v eg) (\<lambda>_ w. objs w nm = S nm)"
proof -
  have wr: "hoare (\<lambda>w. objs w = S) (write_slot A k out) (\<lambda>r w. objs w nm = S nm)" for k out
    by (rule acc.write_frame [OF laws]) (simp add: slot_name_def nm)
  have rd: "hoare (\<lambda>w. objs w nm = S nm) (read_object A nm' st) (\<lambda>r w. objs w nm = S nm)" for nm' st
    using read_object_outcome [OF laws, of _ nm' st] by (auto simp: hoare_def)
  show ?thesis
    unfolding twep_acceptance_commit_def Let_def
    by (intro hoare_if hoare_return hoare_bind_ok [OF hoare_queries(1) [OF laws]] hoare_case_sum
        hoare_bind_ok [OF wr] hoare_bind [OF rd]) auto
qed

lemma commit_reliable:
  assumes laws: "storage_laws A objs hobj sha" and rel: "storage_reliable A objs hobj"
    and load: "load_spec S = Inr cur" and len: "length dg = 32"
    and allowed: "commit_allowed (abs_of cur) dg i v" and enc: "encode_updated cur dg i v = Inr out"
  shows "hoare (\<lambda>w. objs w = S) (twep_acceptance_commit A dg i v (generation cur))
     (\<lambda>r w. r = Inr (generation cur + 1) \<and> objs w = S(slot_name (target_slot cur) := Some out))"
proof -
  let ?S = "S(slot_name (target_slot cur) := Some out)"
  have held: "held S cur" using load by (rule load_spec_held)
  have i: "i \<noteq> []" "v \<noteq> 0" "generation cur \<noteq> -1" "\<not> (have_digest cur \<and> mem_compare (digest cur) dg = 0)"
    using allowed held_digest_length [OF held] len
    by (auto simp: commit_allowed_def abs_of_def mem_compare_eq0 split: if_splits)
  have nz: "generation cur + 1 \<noteq> 0" by (rule word_less_succ) (rule i)
  note out = encode_updated_Inr [OF len held_comps_ok [OF held] i(1) enc]
  have view: "stored ?S (slot_name (target_slot cur)) zero_state = Inr (zero_state\<lparr>raw := out\<rparr>)"
    and parse: "fst (parse_slot (zero_state\<lparr>raw := out\<rparr>)) = PARSE_VALID"
    using out nz len parse_slot_fields_encode [OF nz out(3) len]
    by (auto simp: stored_def encode_slot_def write_type_len_def Let_def parse_slot_def)
  have wr: "hoare (\<lambda>w. objs w = S) (write_slot A (target_slot cur) out) (\<lambda>r w. r = Inr () \<and> objs w = ?S)"
    unfolding write_slot_def by (rule hoare_create_write_reliable [OF laws rel])
  have "hoare (\<lambda>w. objs w = S) (bind_ok (write_slot A (target_slot cur) out) (\<lambda>_. do {
      res \<leftarrow> read_object A (slot_name (target_slot cur)) zero_state;
      case res of Inl _ \<Rightarrow> throw ERROR_CORRUPT_OBJECT
      | Inr verify \<Rightarrow>
        if fst (parse_slot verify) \<noteq> PARSE_VALID \<or>
           length (raw verify) \<noteq> length out \<or> mem_compare (raw verify) out \<noteq> 0
        then throw ERROR_CORRUPT_OBJECT else success (generation cur + 1) }))
     (\<lambda>r w. r = Inr (generation cur + 1) \<and> objs w = ?S)"
    by (rule hoare_bind_ok [OF wr], simp,
        rule hoare_pre [OF hoare_bind [OF read_object_reliable [OF laws rel, of ?S]]])
      (auto simp: hoare_def view parse mem_compare_eq0)
  then show ?thesis
    unfolding twep_acceptance_commit_def
    by (intro hoare_if hoare_bind_ok [OF load_current_reliable [OF laws rel, of S]])
      (use i load enc in \<open>auto simp: hoare_def Let_def target_slot_def\<close>)
qed

lemma component_sequence_reliable:
  assumes "storage_laws A objs hobj sha" and "storage_reliable A objs hobj"
  shows "hoare (\<lambda>w. objs w = S) (twep_acceptance_component_sequence A j)
     (\<lambda>r w. objs w = S \<and> r = sequence_spec S j)"
  using crash_component_sequence [OF assms(1) reliable_fail_stop [OF assms(2)]]
  by (simp add: crash_hoare_False)

lemma commit_refused:
  assumes laws: "storage_laws A objs hobj sha" and rel: "storage_reliable A objs hobj"
    and load: "load_spec S = Inr cur" and len: "length dg = 32"
    and no: "eg \<noteq> generation cur \<or> \<not> commit_allowed (abs_of cur) dg i v \<or> isl (encode_updated cur dg i v)"
  shows "hoare (\<lambda>w. objs w = S) (twep_acceptance_commit A dg i v eg) (\<lambda>r w. isl r \<and> objs w = S)"
proof -
  have held: "held S cur" using load by (rule load_spec_held)
  have "isl (encode_updated cur dg i v)" if "eg = generation cur" "i \<noteq> []" "v \<noteq> 0" "generation cur \<noteq> -1"
    "\<not> (have_digest cur \<and> mem_compare (digest cur) dg = 0)"
    using no that commit_allowed_encoded [OF held_comps_ok [OF held] len _ _ _ _ held_digest_length [OF held], of i v]
    by (cases "encode_updated cur dg i v") auto
  then show ?thesis
    unfolding twep_acceptance_commit_def
    by (intro hoare_if hoare_return hoare_bind_ok [OF load_current_reliable [OF laws rel, of S]])
      (use load in \<open>auto simp: hoare_def split: sum.splits\<close>)
qed

lemma torn_load: "first_commit_torn S S' \<Longrightarrow> load_spec S' = Inl ERROR_CORRUPT_OBJECT"
  using slot_names
  by (auto simp: first_commit_torn_def load_spec_def resolve_def view_update slot_view_Absent [THEN iffD2])

text \<open>Storage that holds an empty slot 0 and no slot 1: every commit fails and nothing changes.\<close>

lemma hoare_commit_torn:
  assumes "storage_laws A objs hobj sha" and "S slot0_id = Some []" and "S slot1_id = None"
  shows "hoare (\<lambda>w. objs w = S) (twep_acceptance_commit A dg i v eg) (\<lambda>r w. isl r \<and> objs w = S)"
proof -
  have "slot_view_of S slot0_id = Unreadable" "slot_view_of S slot1_id = Absent"
    using assms(2,3) by (simp_all add: slot_view_of_def stored_def result_view_def)
  then have "resolve v0 v1 l \<noteq> Inr cur" if "seen S slot0_id v0" "seen S slot1_id v1" for v0 v1 l cur
    using that by (auto simp: seen_def resolve_def)
  then have load: "hoare (\<lambda>w. objs w = S) (load_current A) (\<lambda>r w. isl r \<and> objs w = S)"
    by (intro hoare_post [OF hoare_load_current [OF assms(1)]]) (metis isl_def sum.collapse(2))
  show ?thesis
    unfolding twep_acceptance_commit_def
    by (intro hoare_if hoare_return hoare_bind_ok [OF load]) (auto simp: hoare_def)
qed

section \<open>Histories of commits\<close>

text \<open>
  A history of commit attempts by a client that names the generation it has seen, on storage that
  may fail at any step.
\<close>

inductive commits :: "('w, 'h) tee_api \<Rightarrow> ('w \<Rightarrow> store) \<Rightarrow> 'w \<Rightarrow> 'w \<Rightarrow> bool" for A objs where
  commits_none: "commits A objs w w"
| commits_step: "commits A objs w w1 \<Longrightarrow> abs_load (objs w1) = Some a \<Longrightarrow> length dg = 32 \<Longrightarrow>
    run_state (twep_acceptance_commit A dg i v (acc_generation a)) w1 = (r, w2) \<Longrightarrow> commits A objs w w2"

definition acc_le :: "acceptance \<Rightarrow> acceptance \<Rightarrow> bool" where
  "acc_le a b \<longleftrightarrow> acc_generation a \<le> acc_generation b \<and>
     (\<forall>i s. acc_seqs a i = Some s \<longrightarrow> (\<exists>t. acc_seqs b i = Some t \<and> s \<le> t))"

lemma acc_le_trans: "acc_le a b \<Longrightarrow> acc_le b c \<Longrightarrow> acc_le a c"
  by (fastforce simp: acc_le_def)

lemma acc_le_commit: "commit_allowed a dg i v \<Longrightarrow> acc_le a (commit_spec a dg i v)"
  using word_less_succ(1) [of "acc_generation a"]
  by (auto simp: acc_le_def commit_allowed_def commit_spec_def)

lemma abs_load_Some: "abs_load S = Some a \<longleftrightarrow> (\<exists>cur. load_spec S = Inr cur \<and> a = abs_of cur)"
  by (auto simp: abs_load_def split: sum.splits)

lemma load_spec_cong:
  "S slot0_id = T slot0_id \<Longrightarrow> S slot1_id = T slot1_id \<Longrightarrow> S legacy_id = T legacy_id \<Longrightarrow> load_spec S = load_spec T"
  by (simp add: load_spec_def slot_view_of_def legacy_view_def stored_def)

lemma sequence_spec_abs:
  "abs_load S = Some a \<Longrightarrow> j \<noteq> [] \<Longrightarrow> sequence_spec S j =
     (case acc_seqs a j of None \<Rightarrow> Inl ERROR_ITEM_NOT_FOUND | Some s \<Rightarrow> Inr (acc_generation a, s))"
  by (auto simp: abs_load_Some sequence_spec_def abs_of_def split: option.split)

lemma commit_le:
  assumes "storage_laws A objs hobj sha" and "abs_load (objs w) = Some a" and "length dg = 32"
    and "run_state (twep_acceptance_commit A dg i v (acc_generation a)) w = (r, w')"
  shows "(\<exists>a'. abs_load (objs w') = Some a' \<and> acc_le a a') \<or> first_commit_torn (objs w) (objs w')"
proof -
  from assms(2) obtain cur where load: "load_spec (objs w) = Inr cur" and a: "a = abs_of cur"
    by (auto simp: abs_load_Some)
  have "commit_result (objs w) a dg i v r (objs w')"
    using hoareD [OF hoare_commit [OF assms(1) load assms(3)] refl] assms(4) a by (auto simp: abs_of_def)
  moreover have "acc_le a a" by (simp add: acc_le_def)
  ultimately show ?thesis
    by (auto simp: commit_result_def dest: acc_le_commit split: sum.splits)
qed

section \<open>Properties\<close>


text \<open>
  C10. On storage that does not fail, a commit that is fresh and fits into a slot returns the next
  generation, and a query afterwards finds the new sequence number for its component and the old
  one for every other component.
\<close>

theorem acceptance_commit_then_query:
  assumes "storage_laws A objs hobj sha" and "storage_reliable A objs hobj"
    and "load_spec (objs w) = Inr cur" and "length dg = 32"
    and "commit_allowed (abs_of cur) dg i v" and "encode_updated cur dg i v = Inr out"
    and "j \<noteq> []"
  shows "fst (run_state (do {
           r \<leftarrow> twep_acceptance_commit A dg i v (generation cur);
           q \<leftarrow> twep_acceptance_component_sequence A j;
           State_Monad.return (r, q) }) w) =
         (Inr (generation cur + 1),
          if j = i then Inr (generation cur + 1, v)
          else case find_component j (components cur) of
            None \<Rightarrow> Inl ERROR_ITEM_NOT_FOUND | Some s \<Rightarrow> Inr (generation cur + 1, s))"
proof -
  let ?S = "(objs w)(slot_name (target_slot cur) := Some out)"
  have held: "held (objs w) cur" using assms(3) by (rule load_spec_held)
  have gen: "generation cur \<noteq> -1" and i: "i \<noteq> []"
    using assms(5) by (auto simp: commit_allowed_def abs_of_def)
  note out = encode_updated_Inr [OF assms(4) held_comps_ok [OF held] i assms(6)]
  note load = load_after_commit [OF held gen out(3) assms(4) out(1,2)]
  obtain r w1 where r: "run_state (twep_acceptance_commit A dg i v (generation cur)) w = (r, w1)"
    by (meson surj_pair)
  have w1: "r = Inr (generation cur + 1)" "objs w1 = ?S"
    using hoareD [OF commit_reliable [OF assms(1-6)] refl r] by auto
  obtain q w2 where q: "run_state (twep_acceptance_component_sequence A j) w1 = (q, w2)"
    by (meson surj_pair)
  show ?thesis
    using hoareD [OF component_sequence_reliable [OF assms(1,2)] w1(2) q] r q w1 assms(7)
    by (simp add: sequence_spec_def load find_component_upsert slot_state_def del: fun_upd_apply
        split: option.split)
qed



text \<open>
  C13. The encoding of a slot is a bijection between byte strings and well-formed contents: the parser
  accepts exactly the strings the encoder writes, and returns what was encoded.
\<close>

theorem slot_encoding_unique:
  "parse_slot_fields bs = Some (gen, 1, cs, dg) \<longleftrightarrow>
   bs = encode_slot gen cs dg \<and> gen \<noteq> 0 \<and> comps_ok cs \<and> length dg = 32"
  using parse_slot_fields_canonical parse_slot_fields_encode by blast

text \<open>
  The size that \<^verbatim>\<open>encode_updated\<close> computes in advance is the number of bytes it writes: it never
  reports \<^verbatim>\<open>TEE_ERROR_BAD_STATE\<close>, never exceeds its buffer, and what it writes parses to the state
  with the component inserted at its place or replaced.
\<close>

theorem encode_updated_exact:
  assumes "length dg = 32" and "comps_ok (components cur)" and "i \<noteq> []" and "generation cur \<noteq> -1"
  shows "case encode_updated cur dg i v of
      Inl e \<Rightarrow> e \<in> {ERROR_EXCESS_DATA, ERROR_ACCESS_CONFLICT}
    | Inr out \<Rightarrow> length out \<le> ACCEPTANCE_STATE_MAX_SIZE \<and>
        parse_slot_fields out =
          Some (generation cur + 1, 1, upsert \<lparr>comp_id = i, comp_seq = v\<rparr> (components cur), dg)"
proof (cases "encode_updated cur dg i v")
  case (Inl e)
  then show ?thesis
    unfolding encode_updated_result [OF assms(1)]
    by (auto simp: Let_def split: if_splits sum.splits dest: find_insert_rejects)
next
  case (Inr out)
  note out = encode_updated_Inr [OF assms(1-3) Inr]
  show ?thesis
    using Inr out parse_slot_fields_encode [OF word_less_succ(2) [OF assms(4)] out(3) assms(1)] by simp
qed

text \<open>
  C14. When a commit that found no slot stopped after it had created slot 0, the acceptance state is
  lost for good: every later commit, whatever its arguments, fails and leaves storage as it is.
\<close>

theorem torn_first_commit_permanent:
  assumes "storage_laws A objs hobj sha" and "first_commit_torn S (objs w)"
    and "run_state (twep_acceptance_commit A dg i v expected) w = (r, w')"
  shows "isl r \<and> objs w' = objs w"
proof -
  have "objs w slot0_id = Some []" "objs w slot1_id = None"
    using assms(2) slot_names by (auto simp: first_commit_torn_def)
  from hoareD [OF hoare_commit_torn [OF assms(1) this] refl assms(3)] show ?thesis .
qed

text \<open>
  A load on storage that fails to read a slot returns, when it succeeds at all, the current state
  or an older one, never a state that storage does not hold: the generation is at most the current
  one, and a state of the current generation is the current state.
\<close>

theorem load_current_at_most_stale:
  assumes "storage_laws A objs hobj sha" and "load_spec (objs w) = Inr cur"
    and "run_state (load_current A) w = (Inr st, w')"
  shows "objs w' = objs w \<and> generation st \<le> generation cur \<and>
    (generation st = generation cur \<longrightarrow> abs_of st = abs_of cur)"
proof -
  have "objs w' = objs w" and held: "held (objs w) st"
    using hoareD [OF hoare_load_current [OF assms(1)] refl assms(3)] resolve_held by (blast, metis)
  then show ?thesis
    using held_load_spec [OF held assms(2)] held_same_generation [OF held assms(2)] by blast
qed

section \<open>Concrete instances\<close>

definition dg7 :: bytes where
  "dg7 = replicate 32 7"

definition dg8 :: bytes where
  "dg8 = replicate 32 8"

definition comp1 :: component_sequence where
  "comp1 = \<lparr>comp_id = [1], comp_seq = 5\<rparr>"

definition comp2 :: component_sequence where
  "comp2 = \<lparr>comp_id = [2, 2], comp_seq = 9\<rparr>"

text \<open>A device without slots, one with a first commit in slot 0, and one with a second in slot 1.\<close>

definition dev0 :: device where
  "dev0 = \<lparr>dev_objs = (\<lambda>_. None), dev_power = 4\<rparr>"

definition dev1 :: device where
  "dev1 = \<lparr>dev_objs = (\<lambda>_. None)(slot0_id := Some (encode_slot 1 [comp1] dg7)), dev_power = 4\<rparr>"

definition dev2 :: device where
  "dev2 = \<lparr>dev_objs = (\<lambda>_. None)(slot0_id := Some (encode_slot 1 [comp1] dg7),
     slot1_id := Some (encode_slot 2 [comp1, comp2] dg8)), dev_power = 4\<rparr>"

definition state1 :: acceptance_state where
  "state1 = slot_state (encode_slot 1 [comp1] dg7) 1 [comp1] dg7"

definition state2 :: acceptance_state where
  "state2 = (slot_state (encode_slot 2 [comp1, comp2] dg8) 2 [comp1, comp2] dg8)\<lparr>active_slot := 1\<rparr>"

abbreviation commit2 :: "(tee_error + u64) \<times> device" where
  "commit2 \<equiv> run_state (twep_acceptance_commit (sim_api False) dg8 [2, 2] 9 (generation state1)) dev1"

abbreviation torn0 :: "(tee_error + u64) \<times> device" where
  "torn0 \<equiv> run_state (twep_acceptance_commit (sim_api True) dg7 [1] 5 0) dev0"

lemma dev_facts:
  "load_spec (dev_objs dev0) = Inr (zero_state\<lparr>active_slot := -1\<rparr>)"
  "load_spec (dev_objs dev1) = Inr state1"
  "load_spec (dev_objs dev2) = Inr state2"
  "length dg7 = 32" "length dg8 = 32"
  "encode_updated state1 dg8 [2, 2] 9 = Inr (encode_slot 2 [comp1, comp2] dg8)"
  "commit_allowed (abs_of state1) dg8 [2, 2] 9"
  "generation state1 = 1" "comps_ok (components state1)"
proof -
  show "load_spec (dev_objs dev0) = Inr (zero_state\<lparr>active_slot := -1\<rparr>)" by code_simp
  show "load_spec (dev_objs dev1) = Inr state1" by code_simp
  show "load_spec (dev_objs dev2) = Inr state2" by code_simp
  show "length dg7 = 32" "length dg8 = 32" "generation state1 = 1" by code_simp+
  show "encode_updated state1 dg8 [2, 2] 9 = Inr (encode_slot 2 [comp1, comp2] dg8)" by code_simp
  show "commit_allowed (abs_of state1) dg8 [2, 2] 9" by code_simp
  show "comps_ok (components state1)"
    by (simp add: comps_ok_def state1_def slot_state_def comp1_def ACCEPTANCE_STATE_MAX_COMPONENTS_def)
qed

lemma commit2_result: "fst commit2 = Inr 2"
  by code_simp

lemma commit2_load: "abs_load (dev_objs (snd commit2)) = Some (commit_spec (abs_of state1) dg8 [2, 2] 9)"
  using hoareD [OF hoare_commit [OF sim_storage_laws dev_facts(2,5)] refl prod.collapse [symmetric], of "[2, 2]" 9 False]
    commit2_result
  by (simp add: commit_result_def)

lemma torn0_result:
  "fst torn0 = Inl ERROR_STORAGE_NOT_AVAILABLE"
  "load_spec (dev_objs (snd torn0)) = Inl ERROR_CORRUPT_OBJECT"
  by code_simp+

lemma torn0_torn: "first_commit_torn (dev_objs dev0) (dev_objs (snd torn0))"
  using hoareD [OF hoare_commit [OF sim_storage_laws dev_facts(1,4)] refl prod.collapse [symmetric], of "[1]" 5 True]
    torn0_result
  by (simp add: commit_result_def abs_load_def zero_state_def)


theorem acceptance_commit_then_query_witness:
  "fst (run_state (do {
      r \<leftarrow> twep_acceptance_commit (sim_api False) dg8 [2, 2] 9 (generation state1);
      q \<leftarrow> twep_acceptance_component_sequence (sim_api False) [1];
      State_Monad.return (r, q) }) dev1) = (Inr 2, Inr (2, 5))"
  using acceptance_commit_then_query [OF sim_storage_laws sim_storage_reliable dev_facts(2,5,7,6), of "[1]"]
  by (simp add: state1_def slot_state_def comp1_def)



theorem encode_updated_exact_witness:
  "parse_slot_fields (encode_slot 2 [comp1, comp2] dg8) = Some (2, 1, [comp1, comp2], dg8)"
proof -
  have "upsert \<lparr>comp_id = [2, 2], comp_seq = 9\<rparr> (components state1) = [comp1, comp2]" by code_simp
  then show ?thesis
    using encode_updated_exact [OF dev_facts(5,9), of "[2, 2]" 9] dev_facts(6,8) by simp
qed

theorem torn_first_commit_permanent_witness:
  "fst torn0 = Inl ERROR_STORAGE_NOT_AVAILABLE \<and>
   isl (fst (run_state (twep_acceptance_commit (sim_api False) dg7 [1] 5 0) (snd torn0)))"
  using torn_first_commit_permanent [OF sim_storage_laws torn0_torn prod.collapse [symmetric]] torn0_result
  by blast

theorem load_current_at_most_stale_witness:
  "fst (run_state (load_current (flaky_api slot1_id)) dev2) = Inr state1 \<and>
   generation state1 \<le> generation state2 \<and> generation state1 \<noteq> generation state2"
proof -
  have run: "fst (run_state (load_current (flaky_api slot1_id)) dev2) = Inr state1" by code_simp
  have ne: "generation state1 \<noteq> generation state2" by code_simp
  from load_current_at_most_stale [OF flaky_storage_laws dev_facts(3), of slot1_id state1]
    run ne show ?thesis by (metis prod.collapse)
qed

end
