(* ===== verification/Catalog_State.thy ===== *)
theory Catalog_State
  imports Acceptance_State
begin

text \<open>
  The protected catalog of \<^verbatim>\<open>optee/twep-wr-ta/ta/acceptance_state.c\<close>: a catalog payload with its
  digest and the sequence number under which it was accepted, in two slots of secure storage. The
  acceptance state decides which slot is active: the one whose sequence number is the one accepted
  for the catalog component. A commit writes the inactive slot, verifies it, and then commits the
  acceptance state, which activates it.
\<close>

section \<open>Data\<close>

definition CATALOG_STATE_MAX_PAYLOAD :: nat where
  "CATALOG_STATE_MAX_PAYLOAD = 65536"

definition CATALOG_STATE_MAX_RECORD :: nat where
  "CATALOG_STATE_MAX_RECORD = CATALOG_STATE_MAX_PAYLOAD + 512"

text \<open>Comparisons with these limits are evaluated on binary integers.\<close>

lemma catalog_limits [code_unfold]:
  "CATALOG_STATE_MAX_PAYLOAD < n \<longleftrightarrow> 65536 < int n"
  "n \<le> CATALOG_STATE_MAX_PAYLOAD \<longleftrightarrow> int n \<le> 65536"
  "CATALOG_STATE_MAX_RECORD < n \<longleftrightarrow> 66048 < int n"
  by (auto simp: CATALOG_STATE_MAX_PAYLOAD_def CATALOG_STATE_MAX_RECORD_def)

definition catalog_slot0_id :: bytes where
  "catalog_slot0_id = ascii ''twep-catalog-state.0.cbor''"

definition catalog_slot1_id :: bytes where
  "catalog_slot1_id = ascii ''twep-catalog-state.1.cbor''"

definition default_catalog_component_id :: bytes where
  "default_catalog_component_id = [0x82, 0x4f] @ ascii ''twep-catalog-v1'' @ [0x47] @ ascii ''default''"

record catalog_state =
  cat_raw :: bytes
  cat_generation :: u64
  cat_sequence :: u64
  cat_component_id :: bytes
  cat_digest :: bytes
  cat_catalog :: bytes
  cat_slot :: int

definition zero_catalog :: catalog_state where
  "zero_catalog = \<lparr>cat_raw = [], cat_generation = 0, cat_sequence = 0, cat_component_id = [],
     cat_digest = [], cat_catalog = [], cat_slot = 0\<rparr>"

section \<open>Parsing and reading\<close>

definition twep_catalog_component_id_is_default :: "bytes \<Rightarrow> bool" where
  "twep_catalog_component_id_is_default component_id \<longleftrightarrow>
     length component_id = length default_catalog_component_id \<and>
     mem_compare component_id default_catalog_component_id = 0"

text \<open>The chain of \<^verbatim>\<open>||\<close>: catalog, digest, schema version, sequence, component and generation.\<close>

definition parse_catalog_fields :: "bytes \<Rightarrow> (bytes \<times> bytes \<times> u64 \<times> u64 \<times> bytes \<times> u64) option" where
  "parse_catalog_fields bs = do {
     (map_len, c) \<leftarrow> read_uint (mk_cursor bs) 5;
     ensure (map_len = 6);
     c \<leftarrow> read_expected_text c (ascii ''catalog_cbor'');
     (catalog, c) \<leftarrow> read_bytes c 2;
     ensure (catalog \<noteq> [] \<and> length catalog \<le> CATALOG_STATE_MAX_PAYLOAD);
     c \<leftarrow> read_expected_text c (ascii ''catalog_sha256'');
     (dg, c) \<leftarrow> read_bytes c 2;
     ensure (length dg = 32);
     c \<leftarrow> read_expected_text c (ascii ''schema_version'');
     (schema_version, c) \<leftarrow> read_uint c 0;
     c \<leftarrow> read_expected_text c (ascii ''sequence_number'');
     (sequence, c) \<leftarrow> read_uint c 0;
     ensure (sequence \<noteq> 0);
     c \<leftarrow> read_expected_text c (ascii ''component_id_cbor'');
     (component_id, c) \<leftarrow> read_bytes c 2;
     c \<leftarrow> read_expected_text c (ascii ''acceptance_generation'');
     (gen, c) \<leftarrow> read_uint c 0;
     ensure (gen \<noteq> 0);
     ensure (at_end c);
     Some (catalog, dg, schema_version, sequence, component_id, gen) }"

definition parse_catalog_record ::
  "('w, 'h) tee_api \<Rightarrow> catalog_state \<Rightarrow> ('w, parse_status \<times> catalog_state) state" where
  "parse_catalog_record A state =
     (case parse_catalog_fields (cat_raw state) of
        None \<Rightarrow> State_Monad.return (PARSE_MALFORMED, state)
      | Some (catalog, dg, schema_version, sequence, component_id, gen) \<Rightarrow>
        if schema_version \<noteq> 1 then State_Monad.return (PARSE_UNSUPPORTED, state)
        else if \<not> twep_catalog_component_id_is_default component_id
        then State_Monad.return (PARSE_MALFORMED, state)
        else do {
          res \<leftarrow> digest_sha256 A catalog;
          State_Monad.return (case res of
            Inl _ \<Rightarrow> (PARSE_MALFORMED, state)
          | Inr computed_digest \<Rightarrow>
            if mem_compare dg computed_digest \<noteq> 0 then (PARSE_MALFORMED, state)
            else (PARSE_VALID, state\<lparr>cat_sequence := sequence, cat_generation := gen,
              cat_component_id := component_id, cat_digest := dg, cat_catalog := catalog\<rparr>)) })"

definition catalog_slot_name :: "int \<Rightarrow> bytes" where
  "catalog_slot_name slot = (if slot \<noteq> 0 then catalog_slot1_id else catalog_slot0_id)"

text \<open>The record is parsed while the object is still open; every path closes it.\<close>

definition read_catalog_slot ::
  "('w, 'h) tee_api \<Rightarrow> int \<Rightarrow> ('w, parse_status \<times> catalog_state) tee" where
  "read_catalog_slot A slot =
     bind_ok (tee_open A (catalog_slot_name slot)) (\<lambda>object. do {
       res \<leftarrow> bind_ok (tee_info A object) (\<lambda>dataSize.
         if dataSize = 0 \<or> dataSize > CATALOG_STATE_MAX_RECORD then throw ERROR_BAD_FORMAT
         else do {
           ok \<leftarrow> tee_malloc A dataSize;
           if \<not> ok then throw ERROR_OUT_OF_MEMORY
           else bind_ok (tee_read A object dataSize) (\<lambda>buf.
             if length buf \<noteq> dataSize then throw ERROR_CORRUPT_OBJECT
             else do {
               p \<leftarrow> parse_catalog_record A (zero_catalog\<lparr>cat_raw := buf, cat_slot := slot\<rparr>);
               success p }) });
       _ \<leftarrow> tee_close A object;
       State_Monad.return res })"

definition catalog_records_agree :: "catalog_state \<Rightarrow> catalog_state \<Rightarrow> bool" where
  "catalog_records_agree a b \<longleftrightarrow> cat_sequence a = cat_sequence b \<and>
     length (cat_component_id a) = length (cat_component_id b) \<and>
     mem_compare (cat_component_id a) (cat_component_id b) = 0 \<and>
     mem_compare (cat_digest a) (cat_digest b) = 0 \<and>
     length (cat_catalog a) = length (cat_catalog b) \<and>
     mem_compare (cat_catalog a) (cat_catalog b) = 0"

text \<open>The loop over the two slots in \<^verbatim>\<open>load_active_catalog\<close>.\<close>

record catalog_scan =
  cat_slots :: "catalog_state list"
  cat_present :: "bool list"
  cat_matching :: nat
  cat_selected :: int

definition init_catalog_scan :: catalog_scan where
  "init_catalog_scan = \<lparr>cat_slots = [zero_catalog, zero_catalog], cat_present = [False, False],
     cat_matching = 0, cat_selected = -1\<rparr>"

definition scan_catalog_slot ::
  "u64 \<Rightarrow> nat \<Rightarrow> tee_error + parse_status \<times> catalog_state \<Rightarrow> catalog_scan \<Rightarrow> tee_error + catalog_scan" where
  "scan_catalog_slot accepted_sequence i res sc =
     (if res = Inl ERROR_ITEM_NOT_FOUND then Inr sc
      else let sc = sc\<lparr>cat_present := (cat_present sc)[i := True]\<rparr> in
        case res of
          Inl e \<Rightarrow> if e = ERROR_BAD_FORMAT \<or> e = ERROR_CORRUPT_OBJECT then Inr sc else Inl e
        | Inr (ps, st) \<Rightarrow>
          let sc = sc\<lparr>cat_slots := (cat_slots sc)[i := st]\<rparr> in
          if ps = PARSE_UNSUPPORTED then Inl ERROR_NOT_SUPPORTED
          else if ps = PARSE_VALID \<and> cat_sequence st = accepted_sequence then
            Inr (sc\<lparr>cat_matching := cat_matching sc + 1,
                    cat_selected := (if cat_selected sc < 0 \<or>
                        cat_generation st > cat_generation (cat_slots sc ! nat (cat_selected sc))
                      then int i else cat_selected sc)\<rparr>)
          else Inr sc)"

definition select_catalog :: "catalog_scan \<Rightarrow> tee_error + catalog_state" where
  "select_catalog sc =
     (if cat_matching sc = 0 then
        Inl (if cat_present sc ! 0 \<or> cat_present sc ! 1 then ERROR_CORRUPT_OBJECT else ERROR_ITEM_NOT_FOUND)
      else if cat_matching sc = 2 \<and> \<not> catalog_records_agree (cat_slots sc ! 0) (cat_slots sc ! 1)
      then Inl ERROR_SECURITY
      else Inr (cat_slots sc ! nat (cat_selected sc)))"

text \<open>The release of the buffers at \<^verbatim>\<open>out:\<close> has no counterpart: records are values here.\<close>

definition load_active_catalog :: "('w, 'h) tee_api \<Rightarrow> ('w, catalog_state) tee" where
  "load_active_catalog A =
     bind_ok (twep_acceptance_component_sequence A default_catalog_component_id)
       (\<lambda>(_, accepted_sequence). do {
          res0 \<leftarrow> read_catalog_slot A 0;
          case scan_catalog_slot accepted_sequence 0 res0 init_catalog_scan of Inl e \<Rightarrow> throw e
          | Inr sc0 \<Rightarrow> do {
            res1 \<leftarrow> read_catalog_slot A 1;
            State_Monad.return (case scan_catalog_slot accepted_sequence 1 res1 sc0 of
                Inl e \<Rightarrow> Inl e | Inr sc1 \<Rightarrow> select_catalog sc1) }})"

section \<open>Encoding and writing\<close>

definition catalog_record_size :: "u64 \<Rightarrow> u64 \<Rightarrow> bytes \<Rightarrow> nat" where
  "catalog_record_size acceptance_generation sequence catalog =
     type_len_size 6 +
     text_size (ascii ''catalog_cbor'') + bstr_size (length catalog) +
     text_size (ascii ''catalog_sha256'') + bstr_size 32 +
     text_size (ascii ''schema_version'') + type_len_size 1 +
     text_size (ascii ''sequence_number'') + type_len_size sequence +
     text_size (ascii ''component_id_cbor'') + bstr_size (length default_catalog_component_id) +
     text_size (ascii ''acceptance_generation'') + type_len_size acceptance_generation"

definition encode_catalog_record ::
  "u64 \<Rightarrow> u64 \<Rightarrow> bytes \<Rightarrow> bytes \<Rightarrow> nat \<Rightarrow> tee_error + bytes" where
  "encode_catalog_record acceptance_generation sequence catalog dg out_cap =
     (let needed = catalog_record_size acceptance_generation sequence catalog in
      if needed > out_cap then Inl ERROR_SHORT_BUFFER
      else let out = write_type_len 5 6 @
             write_text (ascii ''catalog_cbor'') @ write_bstr catalog @
             write_text (ascii ''catalog_sha256'') @ write_bstr dg @
             write_text (ascii ''schema_version'') @ write_type_len 0 1 @
             write_text (ascii ''sequence_number'') @ write_type_len 0 sequence @
             write_text (ascii ''component_id_cbor'') @ write_bstr default_catalog_component_id @
             write_text (ascii ''acceptance_generation'') @ write_type_len 0 acceptance_generation in
        if length out = needed then Inr out else Inl ERROR_BAD_STATE)"

definition write_catalog_slot :: "('w, 'h) tee_api \<Rightarrow> int \<Rightarrow> bytes \<Rightarrow> ('w, unit) tee" where
  "write_catalog_slot A slot bs =
     bind_ok (tee_create A (catalog_slot_name slot)) (\<lambda>object. do {
       res \<leftarrow> tee_write A object bs;
       case res of Inl e \<Rightarrow> do { _ \<leftarrow> tee_close_delete A object; throw e }
       | Inr _ \<Rightarrow> do { _ \<leftarrow> tee_close A object; success () } })"

section \<open>The operations\<close>

text \<open>The slot to write: the one that is not active, or slot 0 when no catalog was accepted yet.\<close>

definition catalog_target :: "('w, 'h) tee_api \<Rightarrow> u64 \<Rightarrow> ('w, int) tee" where
  "catalog_target A sequence = do {
     res \<leftarrow> twep_acceptance_component_sequence A default_catalog_component_id;
     case res of
       Inr (_, current_sequence) \<Rightarrow>
         if sequence \<le> current_sequence then throw ERROR_ACCESS_CONFLICT
         else bind_ok (load_active_catalog A) (\<lambda>active. success (if cat_slot active = 0 then 1 else 0))
     | Inl e \<Rightarrow> if e \<noteq> ERROR_ITEM_NOT_FOUND then throw e else success 0 }"

definition twep_catalog_commit ::
  "('w, 'h) tee_api \<Rightarrow> bytes \<Rightarrow> bytes \<Rightarrow> u64 \<Rightarrow> u64 \<Rightarrow> bytes \<Rightarrow> bytes \<Rightarrow> ('w, u64) tee" where
  "twep_catalog_commit A query_response_sha256 component_id sequence expected_generation catalog catalog_sha256 =
     (if \<not> twep_catalog_component_id_is_default component_id \<or> sequence = 0 \<or> catalog = [] \<or>
         length catalog > CATALOG_STATE_MAX_PAYLOAD \<or> expected_generation = -1
      then throw ERROR_BAD_PARAMETERS
      else bind_ok (digest_sha256 A catalog) (\<lambda>computed_digest.
        if mem_compare computed_digest catalog_sha256 \<noteq> 0 then throw ERROR_SECURITY
        else bind_ok (twep_acceptance_generation A) (\<lambda>current_generation.
          if current_generation \<noteq> expected_generation then throw ERROR_ACCESS_CONFLICT
          else bind_ok (catalog_target A sequence) (\<lambda>target_slot. do {
            ok \<leftarrow> tee_malloc A CATALOG_STATE_MAX_RECORD;
            if \<not> ok then throw ERROR_OUT_OF_MEMORY
            else case encode_catalog_record (expected_generation + 1) sequence catalog computed_digest
                CATALOG_STATE_MAX_RECORD of
              Inl e \<Rightarrow> throw e
            | Inr record_bytes \<Rightarrow>
              bind_ok (write_catalog_slot A target_slot record_bytes) (\<lambda>_. do {
                res \<leftarrow> read_catalog_slot A target_slot;
                case res of Inl _ \<Rightarrow> throw ERROR_CORRUPT_OBJECT
                | Inr (verify_status, verify) \<Rightarrow>
                  if verify_status \<noteq> PARSE_VALID \<or> length (cat_raw verify) \<noteq> length record_bytes \<or>
                     mem_compare (cat_raw verify) record_bytes \<noteq> 0
                  then throw ERROR_CORRUPT_OBJECT
                  else twep_acceptance_commit A query_response_sha256 component_id sequence
                         expected_generation }) }))))"

text \<open>
  The length is stored as soon as the catalog is loaded, also when the buffer turns out too small.
  \<open>has_buffer\<close> says whether the caller passed a buffer, \<open>catalog_cap\<close> is its size.
\<close>

definition twep_catalog_read_active ::
  "('w, 'h) tee_api \<Rightarrow> bool \<Rightarrow> nat \<Rightarrow> ('w, nat option \<times> (tee_error + bytes)) state" where
  "twep_catalog_read_active A has_buffer catalog_cap = do {
     res \<leftarrow> load_active_catalog A;
     State_Monad.return (case res of
       Inl e \<Rightarrow> (None, Inl e)
     | Inr active \<Rightarrow>
       (Some (length (cat_catalog active)),
        if length (cat_catalog active) > catalog_cap then Inl ERROR_SHORT_BUFFER
        else if cat_catalog active \<noteq> [] \<and> \<not> has_buffer then Inl ERROR_BAD_PARAMETERS
        else Inr (cat_catalog active))) }"

section \<open>The encoding of a record\<close>

definition encode_catalog :: "u64 \<Rightarrow> u64 \<Rightarrow> bytes \<Rightarrow> bytes \<Rightarrow> bytes" where
  "encode_catalog gen sequence catalog dg = write_type_len 5 6 @
     write_text (ascii ''catalog_cbor'') @ write_bstr catalog @
     write_text (ascii ''catalog_sha256'') @ write_bstr dg @
     write_text (ascii ''schema_version'') @ write_type_len 0 1 @
     write_text (ascii ''sequence_number'') @ write_type_len 0 sequence @
     write_text (ascii ''component_id_cbor'') @ write_bstr default_catalog_component_id @
     write_text (ascii ''acceptance_generation'') @ write_type_len 0 gen"

lemma length_default_id: "length default_catalog_component_id = 25"
  by (simp add: default_catalog_component_id_def)

lemma default_id_nonempty: "default_catalog_component_id \<noteq> []"
  by (simp add: default_catalog_component_id_def)

lemma parse_catalog_fields_encode:
  assumes "catalog \<noteq> []" "length catalog \<le> CATALOG_STATE_MAX_PAYLOAD" "length dg = 32" "sequence \<noteq> 0" "gen \<noteq> 0"
  shows "parse_catalog_fields (encode_catalog gen sequence catalog dg) =
    Some (catalog, dg, 1, sequence, default_catalog_component_id, gen)"
  using assms
  by (simp add: parse_catalog_fields_def encode_catalog_def codec_simps at_end_def length_default_id
      CATALOG_STATE_MAX_PAYLOAD_def del: append_assoc)

lemma catalog_record_size_exact:
  "length dg = 32 \<Longrightarrow> catalog_record_size gen sequence catalog = length (encode_catalog gen sequence catalog dg)"
  by (simp add: catalog_record_size_def encode_catalog_def write_lengths)

lemma type_len_size_le: "type_len_size v \<le> 9"
  by (cases v rule: type_len_size_cases) auto

lemma catalog_record_size_le:
  assumes "length catalog \<le> CATALOG_STATE_MAX_PAYLOAD"
  shows "catalog_record_size gen sequence catalog \<le> CATALOG_STATE_MAX_RECORD"
proof -
  have "text_size (ascii ''catalog_cbor'') \<le> 21" "text_size (ascii ''catalog_sha256'') \<le> 23"
    "text_size (ascii ''schema_version'') \<le> 23" "text_size (ascii ''sequence_number'') \<le> 24"
    "text_size (ascii ''component_id_cbor'') \<le> 26" "text_size (ascii ''acceptance_generation'') \<le> 30"
    by code_simp+
  moreover have "bstr_size (length catalog) \<le> length catalog + 9" "bstr_size 32 \<le> 41"
    "bstr_size (length default_catalog_component_id) \<le> 34"
    using type_len_size_le by (simp_all add: bstr_size_def length_default_id)
  ultimately show ?thesis
    using assms type_len_size_le [of 6] type_len_size_le [of 1] type_len_size_le [of sequence]
      type_len_size_le [of gen]
    by (simp add: catalog_record_size_def CATALOG_STATE_MAX_RECORD_def)
qed

lemma encode_catalog_record_ok:
  assumes "length dg = 32" and "length catalog \<le> CATALOG_STATE_MAX_PAYLOAD"
  shows "encode_catalog_record gen sequence catalog dg CATALOG_STATE_MAX_RECORD =
         Inr (encode_catalog gen sequence catalog dg)"
    and "length (encode_catalog gen sequence catalog dg) \<le> CATALOG_STATE_MAX_RECORD"
  using catalog_record_size_exact [OF assms(1), of gen sequence catalog]
    catalog_record_size_le [OF assms(2), of gen sequence]
  by (simp_all add: encode_catalog_record_def Let_def encode_catalog_def [symmetric])

section \<open>The view of a slot\<close>

definition catalog_parse :: "(bytes \<Rightarrow> bytes) \<Rightarrow> catalog_state \<Rightarrow> parse_status \<times> catalog_state" where
  "catalog_parse sha state =
     (case parse_catalog_fields (cat_raw state) of
        None \<Rightarrow> (PARSE_MALFORMED, state)
      | Some (catalog, dg, schema_version, sequence, component_id, gen) \<Rightarrow>
        if schema_version \<noteq> 1 then (PARSE_UNSUPPORTED, state)
        else if component_id \<noteq> default_catalog_component_id \<or> mem_compare dg (sha catalog) \<noteq> 0
        then (PARSE_MALFORMED, state)
        else (PARSE_VALID, state\<lparr>cat_sequence := sequence, cat_generation := gen,
              cat_component_id := component_id, cat_digest := dg, cat_catalog := catalog\<rparr>))"

definition catalog_stored ::
  "(bytes \<Rightarrow> bytes) \<Rightarrow> store \<Rightarrow> int \<Rightarrow> tee_error + parse_status \<times> catalog_state" where
  "catalog_stored sha S slot =
     (case S (catalog_slot_name slot) of None \<Rightarrow> Inl ERROR_ITEM_NOT_FOUND
      | Some bs \<Rightarrow> if bs = [] \<or> length bs > CATALOG_STATE_MAX_RECORD then Inl ERROR_BAD_FORMAT
          else Inr (catalog_parse sha (zero_catalog\<lparr>cat_raw := bs, cat_slot := slot\<rparr>)))"

datatype catalog_view = CAbsent | CBad | CUnsupported | CValid catalog_state

definition result_catalog_view :: "tee_error + parse_status \<times> catalog_state \<Rightarrow> catalog_view" where
  "result_catalog_view r =
     (case r of Inl e \<Rightarrow> if e = ERROR_ITEM_NOT_FOUND then CAbsent else CBad
      | Inr (ps, st) \<Rightarrow> (case ps of PARSE_VALID \<Rightarrow> CValid st | PARSE_MALFORMED \<Rightarrow> CBad
          | PARSE_UNSUPPORTED \<Rightarrow> CUnsupported))"

definition catalog_view_of :: "(bytes \<Rightarrow> bytes) \<Rightarrow> store \<Rightarrow> int \<Rightarrow> catalog_view" where
  "catalog_view_of sha S slot = result_catalog_view (catalog_stored sha S slot)"

definition catalog_match :: "u64 \<Rightarrow> catalog_view \<Rightarrow> catalog_state option" where
  "catalog_match s v = (case v of CValid st \<Rightarrow> if cat_sequence st = s then Some st else None | _ \<Rightarrow> None)"

text \<open>Which of the two slots is active, given the sequence number accepted for the catalog.\<close>

definition resolve_catalog :: "u64 \<Rightarrow> catalog_view \<Rightarrow> catalog_view \<Rightarrow> tee_error + catalog_state" where
  "resolve_catalog s v0 v1 =
     (if v0 = CUnsupported \<or> v1 = CUnsupported then Inl ERROR_NOT_SUPPORTED
      else case (catalog_match s v0, catalog_match s v1) of
        (Some a, Some b) \<Rightarrow>
          if \<not> catalog_records_agree a b then Inl ERROR_SECURITY
          else if cat_generation a < cat_generation b then Inr b else Inr a
      | (Some a, None) \<Rightarrow> Inr a
      | (None, Some b) \<Rightarrow> Inr b
      | (None, None) \<Rightarrow> Inl (if v0 = CAbsent \<and> v1 = CAbsent then ERROR_ITEM_NOT_FOUND else ERROR_CORRUPT_OBJECT))"

definition catalog_spec :: "(bytes \<Rightarrow> bytes) \<Rightarrow> store \<Rightarrow> tee_error + catalog_state" where
  "catalog_spec sha S =
     (case sequence_spec S default_catalog_component_id of Inl e \<Rightarrow> Inl e
      | Inr (_, s) \<Rightarrow> resolve_catalog s (catalog_view_of sha S 0) (catalog_view_of sha S 1))"

definition plain_result :: "tee_error + 'a \<Rightarrow> bool" where
  "plain_result r = (case r of Inl e \<Rightarrow> e \<in> {ERROR_ITEM_NOT_FOUND, ERROR_BAD_FORMAT, ERROR_CORRUPT_OBJECT}
     | Inr _ \<Rightarrow> True)"

lemma plain_stored: "plain_result (catalog_stored sha S slot)"
  by (auto simp: plain_result_def catalog_stored_def split: option.split)

lemma scan_catalog_view:
  "plain_result r \<Longrightarrow> scan_catalog_slot s i r sc =
     (case result_catalog_view r of CAbsent \<Rightarrow> Inr sc
      | CUnsupported \<Rightarrow> Inl ERROR_NOT_SUPPORTED
      | CBad \<Rightarrow> Inr (sc\<lparr>cat_present := (cat_present sc)[i := True],
          cat_slots := (case r of Inl _ \<Rightarrow> cat_slots sc | Inr (_, st) \<Rightarrow> (cat_slots sc)[i := st])\<rparr>)
      | CValid st \<Rightarrow> Inr (let sc = sc\<lparr>cat_present := (cat_present sc)[i := True],
              cat_slots := (cat_slots sc)[i := st]\<rparr> in
          if cat_sequence st = s then
            sc\<lparr>cat_matching := cat_matching sc + 1,
               cat_selected := (if cat_selected sc < 0 \<or>
                        cat_generation st > cat_generation (cat_slots sc ! nat (cat_selected sc))
                      then int i else cat_selected sc)\<rparr>
          else sc))"
  by (cases r)
    (auto simp: scan_catalog_slot_def result_catalog_view_def plain_result_def Let_def split: parse_status.splits)

lemma scan_catalog_resolve:
  assumes "plain_result r0" and "plain_result r1"
  shows "(case scan_catalog_slot s 0 r0 init_catalog_scan of Inl e \<Rightarrow> Inl e
    | Inr sc0 \<Rightarrow> (case scan_catalog_slot s 1 r1 sc0 of Inl e \<Rightarrow> Inl e | Inr sc1 \<Rightarrow> select_catalog sc1)) =
   resolve_catalog s (result_catalog_view r0) (result_catalog_view r1)"
  by (cases "result_catalog_view r0"; cases "result_catalog_view r1")
    (auto simp: scan_catalog_view [OF assms(1)] scan_catalog_view [OF assms(2)] init_catalog_scan_def
      select_catalog_def resolve_catalog_def catalog_match_def Let_def numeral_2_eq_2 split: sum.splits)

section \<open>What reading and writing return\<close>

lemma is_default_iff: "twep_catalog_component_id_is_default i \<longleftrightarrow> i = default_catalog_component_id"
  by (auto simp: twep_catalog_component_id_is_default_def mem_compare_eq0)

lemma parse_catalog_record_law:
  assumes "storage_laws A objs hobj sha"
  shows "hoare (\<lambda>w. objs w = S) (parse_catalog_record A st)
     (\<lambda>r w. objs w = S \<and> cat_raw (snd r) = cat_raw st)"
  unfolding parse_catalog_record_def
  by (auto split: option.split intro!: wp hoare_bind [OF digest_sha256_law [OF assms]] split: sum.splits)

lemma keeps_parse_catalog_record:
  assumes "fail_stop A objs hobj dead"
  shows "hoare dead (parse_catalog_record A st) (\<lambda>_. dead)"
  unfolding parse_catalog_record_def by (intro keeps_rules keeps_digest_sha256 [OF assms])

lemma crash_parse_catalog_record:
  assumes "storage_laws A objs hobj sha" and "fail_stop A objs hobj dead"
  shows "crash_hoare dead (\<lambda>w. objs w = S) (parse_catalog_record A st)
     (\<lambda>r w. objs w = S \<and> r = catalog_parse sha st)"
proof (cases "parse_catalog_fields (cat_raw st)")
  case None
  then show ?thesis by (simp add: parse_catalog_record_def catalog_parse_def crash_return)
next
  case (Some f)
  show ?thesis
    unfolding parse_catalog_record_def catalog_parse_def Some option.case
    by (cases f) (simp, intro conjI impI crash_return crash_bind_result [OF crash_digest_sha256 [OF assms]]
        keeps_rules, auto simp: is_default_iff)
qed

lemma read_catalog_slot_law:
  assumes "storage_laws A objs hobj sha"
  shows "hoare (\<lambda>w. objs w = S) (read_catalog_slot A slot) (\<lambda>r w. objs w = S \<and>
     slot_read CATALOG_STATE_MAX_RECORD S (catalog_slot_name slot) (map_sum id (cat_raw \<circ> snd) r))"
proof -
  have mal: "hoare (\<lambda>w. objs w = S \<and> hobj w h = Some nm) (tee_malloc A n)
      (\<lambda>_ w. objs w = S \<and> hobj w h = Some nm)" for h nm n
    using law_malloc [OF assms] by (auto simp: hoare_def)
  show ?thesis
    unfolding read_catalog_slot_def
    by (intro hoare_with_object [OF assms] hoare_sized [OF assms] hoare_bind [OF mal] hoare_if hoare_return
        hoare_read_all [OF assms] hoare_bind [OF parse_catalog_record_law [OF assms]])
      (auto simp: slot_read_def)
qed

lemma keeps_read_catalog_slot:
  assumes "fail_stop A objs hobj dead"
  shows "hoare dead (read_catalog_slot A slot) (\<lambda>_. dead)"
  unfolding read_catalog_slot_def
  by (intro keeps_rules keeps_ops [OF assms] keeps_parse_catalog_record [OF assms])

lemma crash_read_catalog_slot:
  assumes "storage_laws A objs hobj sha" and "fail_stop A objs hobj dead"
  shows "crash_hoare dead (\<lambda>w. objs w = S) (read_catalog_slot A slot)
     (\<lambda>r w. objs w = S \<and> (r = catalog_stored sha S slot \<or> r = Inl ERROR_OUT_OF_MEMORY \<and> no_memory A))"
  unfolding read_catalog_slot_def
proof (rule crash_with_object [OF assms], goal_cases)
  case (2 object d)
  show ?case
  proof (rule crash_sized [where S = S, OF assms 2], goal_cases)
    case 2
    show ?case
      by (rule crash_malloc [OF assms])
        (use 2 \<open>S (catalog_slot_name slot) = Some d\<close> in \<open>auto simp: catalog_stored_def
          intro!: crash_read_all [OF assms] crash_return crash_bind_result [OF crash_parse_catalog_record [OF assms]]
            keeps_rules keeps_parse_catalog_record [OF assms(2)]\<close>)
  qed (use 2 in \<open>auto simp: catalog_stored_def intro!: keeps_rules keeps_ops [OF assms(2)]
      keeps_parse_catalog_record [OF assms(2)]\<close>)
qed (auto simp: catalog_stored_def intro!: keeps_rules keeps_ops [OF assms(2)] keeps_parse_catalog_record [OF assms(2)])

interpretation cat: slot_io write_catalog_slot read_catalog_slot "cat_raw \<circ> snd"
    CATALOG_STATE_MAX_RECORD catalog_slot_name
proof
  fix A :: "('w, 'h) tee_api" and objs hobj sha S k bs
  assume laws: "storage_laws A objs hobj sha"
  show "hoare (\<lambda>w. objs w = S) (write_catalog_slot A k bs)
      (\<lambda>r w. slot_written S (catalog_slot_name k) bs r (objs w))"
    unfolding write_catalog_slot_def by (rule hoare_create_write [OF laws])
  show "hoare (\<lambda>w. objs w = S) (read_catalog_slot A k) (\<lambda>r w. objs w = S \<and>
      slot_read CATALOG_STATE_MAX_RECORD S (catalog_slot_name k) (map_sum id (cat_raw \<circ> snd) r))"
    by (rule read_catalog_slot_law [OF laws])
qed (simp add: catalog_slot_name_def catalog_slot0_id_def catalog_slot1_id_def)

lemma keeps_load_active_catalog:
  assumes "fail_stop A objs hobj dead"
  shows "hoare dead (load_active_catalog A) (\<lambda>_. dead)"
  unfolding load_active_catalog_def
  by (intro keeps_rules keeps_queries [OF assms] keeps_read_catalog_slot [OF assms])

lemma scan_catalog_oom:
  "scan_catalog_slot s i (Inl ERROR_OUT_OF_MEMORY) sc = Inl ERROR_OUT_OF_MEMORY"
  by (simp add: scan_catalog_slot_def)

lemma catalog_spec_scan:
  "Inr (g, s) = sequence_spec S default_catalog_component_id \<Longrightarrow>
   catalog_spec sha S = (case scan_catalog_slot s 0 (catalog_stored sha S 0) init_catalog_scan of Inl e \<Rightarrow> Inl e
      | Inr sc0 \<Rightarrow> (case scan_catalog_slot s 1 (catalog_stored sha S 1) sc0 of
          Inl e \<Rightarrow> Inl e | Inr sc1 \<Rightarrow> select_catalog sc1))"
  by (simp add: catalog_spec_def scan_catalog_resolve plain_stored catalog_view_of_def
      eq_commute [of "Inr _" "sequence_spec _ _"])

lemma crash_load_active_catalog:
  assumes "storage_laws A objs hobj sha" and "fail_stop A objs hobj dead"
  shows "crash_hoare dead (\<lambda>w. objs w = S) (load_active_catalog A)
     (\<lambda>r w. objs w = S \<and> (r = catalog_spec sha S \<or> r = Inl ERROR_OUT_OF_MEMORY \<and> no_memory A))"
proof -
  let ?r0 = "catalog_stored sha S 0" and ?r1 = "catalog_stored sha S 1"
  let ?oom = "Inl ERROR_OUT_OF_MEMORY"
  show ?thesis
    unfolding load_active_catalog_def
  proof (rule crash_bind_ok [OF crash_component_sequence [OF assms]])
    fix x :: "u64 \<times> u64"
    obtain g s where x: "x = (g, s)" by (cases x)
    show "crash_hoare dead (\<lambda>w. objs w = S \<and> Inr x = sequence_spec S default_catalog_component_id)
      (case x of (_, accepted_sequence) \<Rightarrow> do {
          res0 \<leftarrow> read_catalog_slot A 0;
          case scan_catalog_slot accepted_sequence 0 res0 init_catalog_scan of Inl e \<Rightarrow> throw e
          | Inr sc0 \<Rightarrow> do {
            res1 \<leftarrow> read_catalog_slot A 1;
            State_Monad.return (case scan_catalog_slot accepted_sequence 1 res1 sc0 of
                Inl e \<Rightarrow> Inl e | Inr sc1 \<Rightarrow> select_catalog sc1) }})
      (\<lambda>r w. objs w = S \<and> (r = catalog_spec sha S \<or> r = ?oom \<and> no_memory A))"
      unfolding x prod.case
    proof (rule crash_bind [OF crash_frame [OF crash_read_catalog_slot [OF assms]]])
      fix r0
      show "crash_hoare dead (\<lambda>w. (objs w = S \<and> (r0 = ?r0 \<or> r0 = ?oom \<and> no_memory A)) \<and>
          Inr (g, s) = sequence_spec S default_catalog_component_id)
        (case scan_catalog_slot s 0 r0 init_catalog_scan of Inl e \<Rightarrow> throw e
          | Inr sc0 \<Rightarrow> do {
            res1 \<leftarrow> read_catalog_slot A 1;
            State_Monad.return (case scan_catalog_slot s 1 res1 sc0 of
                Inl e \<Rightarrow> Inl e | Inr sc1 \<Rightarrow> select_catalog sc1) })
        (\<lambda>r w. objs w = S \<and> (r = catalog_spec sha S \<or> r = ?oom \<and> no_memory A))"
        by (intro crash_case_sum crash_return crash_bind [OF crash_frame [OF crash_frame [OF crash_read_catalog_slot [OF assms]]]])
          (auto simp: catalog_spec_scan scan_catalog_oom)
    qed
  qed (auto simp: catalog_spec_def split: sum.splits)
qed

lemma load_active_catalog_law:
  assumes "storage_laws A objs hobj sha"
  shows "hoare (\<lambda>w. objs w = S) (load_active_catalog A) (\<lambda>_ w. objs w = S)"
proof -
  have rd: "hoare (\<lambda>w. objs w = S) (read_catalog_slot A k) (\<lambda>_ w. objs w = S)" for k
    by (rule hoare_post [OF read_catalog_slot_law [OF assms]]) simp
  show ?thesis
    unfolding load_active_catalog_def
    by (intro hoare_bind_ok [OF hoare_queries(3) [OF assms]])
      (auto intro!: hoare_bind [OF rd] wp)
qed

section \<open>Commits\<close>

text \<open>A slot to which a commit with sequence number \<open>v\<close> may write.\<close>

definition catalog_target_ok :: "(bytes \<Rightarrow> bytes) \<Rightarrow> store \<Rightarrow> u64 \<Rightarrow> int \<Rightarrow> bool" where
  "catalog_target_ok sha S v t =
     (case sequence_spec S default_catalog_component_id of
        Inl e \<Rightarrow> e = ERROR_ITEM_NOT_FOUND \<and> t = 0
      | Inr (_, s) \<Rightarrow> s < v \<and> (\<exists>act. catalog_spec sha S = Inr act \<and> t = (if cat_slot act = 0 then 1 else 0)))"

lemma hoare_catalog_target:
  assumes "storage_laws A objs hobj sha" and "fail_stop A objs hobj dead"
  shows "hoare (\<lambda>w. objs w = S) (catalog_target A v)
     (\<lambda>r w. objs w = S \<and> (dead w \<or> (\<forall>t. r = Inr t \<longrightarrow> catalog_target_ok sha S v t)))"
proof (rule crash_to_hoare)
  show "hoare (\<lambda>w. objs w = S) (catalog_target A v) (\<lambda>r w. objs w = S)"
    unfolding catalog_target_def
    by (rule hoare_bind [OF hoare_queries(3) [OF assms(1)]])
      (auto split: sum.split intro!: wp hoare_bind_ok [OF load_active_catalog_law [OF assms(1)]])
  show "crash_hoare dead (\<lambda>w. objs w = S) (catalog_target A v)
      (\<lambda>r w. \<forall>t. r = Inr t \<longrightarrow> catalog_target_ok sha S v t)"
    unfolding catalog_target_def
  proof (rule crash_bind_result [OF crash_component_sequence [OF assms]])
    show "crash_hoare dead (\<lambda>w. objs w = S)
       (case sequence_spec S default_catalog_component_id of
         Inr (_, current_sequence) \<Rightarrow>
           if v \<le> current_sequence then throw ERROR_ACCESS_CONFLICT
           else bind_ok (load_active_catalog A) (\<lambda>active. success (if cat_slot active = 0 then 1 else 0))
       | Inl e \<Rightarrow> if e \<noteq> ERROR_ITEM_NOT_FOUND then throw e else success 0)
       (\<lambda>r w. \<forall>t. r = Inr t \<longrightarrow> catalog_target_ok sha S v t)"
    proof (cases "sequence_spec S default_catalog_component_id")
      case (Inr gs)
      moreover obtain g s where "gs = (g, s)" by (cases gs)
      ultimately show ?thesis
        by (simp add: catalog_target_ok_def, intro conjI impI crash_return
            crash_bind_ok [OF crash_load_active_catalog [OF assms]]) force+
    qed (auto simp: catalog_target_ok_def intro!: crash_return)
  qed (intro keeps_rules keeps_load_active_catalog [OF assms(2)])
qed

lemma catalog_view_cong: "S (catalog_slot_name k) = T (catalog_slot_name k) \<Longrightarrow>
    catalog_view_of sha S k = catalog_view_of sha T k"
  by (simp add: catalog_view_of_def catalog_stored_def)

lemma catalog_view_slot: "catalog_view_of sha S k = CValid st \<Longrightarrow> cat_slot st = k"
  by (auto simp: catalog_view_of_def result_catalog_view_def catalog_stored_def catalog_parse_def zero_catalog_def
      split: option.splits if_splits prod.splits parse_status.splits)

lemma catalog_spec_active:
  assumes "catalog_spec sha S = Inr act"
  obtains g where "sequence_spec S default_catalog_component_id = Inr (g, cat_sequence act)"
    "cat_slot act = 0 \<or> cat_slot act = 1" "catalog_view_of sha S (cat_slot act) = CValid act"
    "catalog_view_of sha S 0 \<noteq> CUnsupported" "catalog_view_of sha S 1 \<noteq> CUnsupported"
proof -
  let ?v0 = "catalog_view_of sha S 0" and ?v1 = "catalog_view_of sha S 1"
  from assms obtain g s where gs: "sequence_spec S default_catalog_component_id = Inr (g, s)"
    and r: "resolve_catalog s ?v0 ?v1 = Inr act"
    by (auto simp: catalog_spec_def split: sum.splits)
  have m: "catalog_match s ?v0 = Some act \<or> catalog_match s ?v1 = Some act"
    and u: "?v0 \<noteq> CUnsupported" "?v1 \<noteq> CUnsupported"
    using r by (auto simp: resolve_catalog_def split: if_splits option.splits)
  from m have "cat_sequence act = s" "?v0 = CValid act \<or> ?v1 = CValid act"
    by (auto simp: catalog_match_def split: catalog_view.splits if_splits)
  then show thesis
    using that [of g] gs u catalog_view_slot by metis
qed

lemma resolve_catalog_one:
  "catalog_match s v0 = Some a \<Longrightarrow> catalog_match s v1 = None \<Longrightarrow> v1 \<noteq> CUnsupported \<Longrightarrow>
   resolve_catalog s v0 v1 = Inr a"
  "catalog_match s v1 = Some b \<Longrightarrow> catalog_match s v0 = None \<Longrightarrow> v0 \<noteq> CUnsupported \<Longrightarrow>
   resolve_catalog s v0 v1 = Inr b"
  by (auto simp: resolve_catalog_def catalog_match_def split: catalog_view.splits)

text \<open>One slot matches the accepted sequence number and the other does not.\<close>

lemma catalog_spec_one:
  assumes "sequence_spec S default_catalog_component_id = Inr (g, s)" and "k = 0 \<or> k = 1"
    and "catalog_view_of sha S k = CValid st" and "cat_sequence st = s"
    and "catalog_match s (catalog_view_of sha S (1 - k)) = None"
    and "catalog_view_of sha S (1 - k) \<noteq> CUnsupported"
  shows "catalog_spec sha S = Inr st"
proof -
  have m: "catalog_match s (catalog_view_of sha S k) = Some st"
    using assms(3,4) by (simp add: catalog_match_def)
  from assms(2) show ?thesis
  proof
    assume "k = 0"
    with assms m resolve_catalog_one(1) show ?thesis by (simp add: catalog_spec_def)
  next
    assume "k = 1"
    with assms m resolve_catalog_one(2) show ?thesis by (simp add: catalog_spec_def)
  qed
qed

definition catalog_of :: "(bytes \<Rightarrow> bytes) \<Rightarrow> store \<Rightarrow> bytes option" where
  "catalog_of sha S = (case catalog_spec sha S of Inl _ \<Rightarrow> None | Inr act \<Rightarrow> Some (cat_catalog act))"

text \<open>
  The invariant of the pair: the acceptance state is readable, an accepted catalog is available, and
  before a catalog is accepted only slot 0 is ever written.
\<close>

definition catalog_inv :: "(bytes \<Rightarrow> bytes) \<Rightarrow> store \<Rightarrow> bool" where
  "catalog_inv sha S =
     (case sequence_spec S default_catalog_component_id of
        Inl e \<Rightarrow> e = ERROR_ITEM_NOT_FOUND \<and> S catalog_slot1_id = None
      | Inr _ \<Rightarrow> \<exists>act. catalog_spec sha S = Inr act)"

definition catalog_commit_result ::
  "(bytes \<Rightarrow> bytes) \<Rightarrow> store \<Rightarrow> acceptance \<Rightarrow> bytes \<Rightarrow> u64 \<Rightarrow> bytes \<Rightarrow> tee_error + u64 \<Rightarrow> store \<Rightarrow> bool" where
  "catalog_commit_result sha S a q v catalog r S' =
     (let old = abs_load S' = Some a \<and> catalog_of sha S' = catalog_of sha S \<and> catalog_inv sha S';
          new = abs_load S' = Some (commit_spec a q default_catalog_component_id v) \<and>
                catalog_of sha S' = Some catalog \<and> catalog_inv sha S' in
      case r of Inr g \<Rightarrow> g = acc_generation a + 1 \<and> new
      | Inl e \<Rightarrow> old \<or> new \<or> (S slot0_id = None \<and> S slot1_id = None \<and> S' slot0_id = Some []))"

lemma catalog_slot_names:
  "catalog_slot_name k \<notin> {slot0_id, slot1_id, legacy_id}" "catalog_slot0_id \<noteq> catalog_slot1_id"
  by (simp_all add: catalog_slot_name_def catalog_slot0_id_def catalog_slot1_id_def slot0_id_def slot1_id_def
      legacy_id_def)

lemma catalog_slot_name_inj: "k = 0 \<or> k = 1 \<Longrightarrow> catalog_slot_name (1 - k) \<noteq> catalog_slot_name k"
  using catalog_slot_names(2) by (auto simp: catalog_slot_name_def)

definition catalog_record :: "int \<Rightarrow> u64 \<Rightarrow> u64 \<Rightarrow> bytes \<Rightarrow> bytes \<Rightarrow> catalog_state" where
  "catalog_record t gen v catalog dg = \<lparr>cat_raw = encode_catalog gen v catalog dg, cat_generation = gen,
     cat_sequence = v, cat_component_id = default_catalog_component_id, cat_digest = dg,
     cat_catalog = catalog, cat_slot = t\<rparr>"

lemma catalog_view_written:
  assumes "catalog \<noteq> []" "length catalog \<le> CATALOG_STATE_MAX_PAYLOAD" "length (sha catalog) = 32" "v \<noteq> 0" "gen \<noteq> 0"
    and "S (catalog_slot_name t) = Some (encode_catalog gen v catalog (sha catalog))"
  shows "catalog_view_of sha S t = CValid (catalog_record t gen v catalog (sha catalog))"
proof -
  have "encode_catalog gen v catalog (sha catalog) \<noteq> []" by (simp add: encode_catalog_def write_type_len_def Let_def)
  with assms encode_catalog_record_ok(2) [OF assms(3,2)] parse_catalog_fields_encode [OF assms(1-5)]
  show ?thesis
    by (simp add: catalog_view_of_def catalog_stored_def catalog_parse_def result_catalog_view_def
        catalog_record_def zero_catalog_def mem_compare_eq0 not_less)
qed

lemma catalog_view_torn:
  "S (catalog_slot_name t) = None \<Longrightarrow> catalog_view_of sha S t = CAbsent"
  "S (catalog_slot_name t) = Some [] \<Longrightarrow> catalog_view_of sha S t = CBad"
  by (simp_all add: catalog_view_of_def catalog_stored_def result_catalog_view_def)

text \<open>
  Writing a slot that is not active changes neither the active catalog nor the invariant, as long as
  the acceptance state stays the same.
\<close>

lemma catalog_kept:
  assumes ok: "catalog_target_ok sha S v t" and inv: "catalog_inv sha S"
    and load: "abs_load S = Some a" "abs_load S' = Some a"
    and frame: "\<And>nm. nm \<noteq> catalog_slot_name t \<Longrightarrow> nm \<noteq> slot0_id \<Longrightarrow> nm \<noteq> slot1_id \<Longrightarrow> S' nm = S nm"
    and view: "\<And>st. catalog_view_of sha S' t = CValid st \<Longrightarrow> cat_sequence st = v"
      "catalog_view_of sha S' t \<noteq> CUnsupported"
  shows "catalog_of sha S' = catalog_of sha S \<and> catalog_inv sha S'"
proof -
  have seq: "sequence_spec S' default_catalog_component_id = sequence_spec S default_catalog_component_id"
    using sequence_spec_abs [OF load(1) default_id_nonempty] sequence_spec_abs [OF load(2) default_id_nonempty]
    by simp
  show ?thesis
  proof (cases "sequence_spec S default_catalog_component_id")
    case (Inl e)
    with ok have "t = 0" by (simp add: catalog_target_ok_def)
    with Inl inv seq frame [of catalog_slot1_id] catalog_slot_names(1) [of 1] catalog_slot_names(2)
    show ?thesis
      by (auto simp: catalog_inv_def catalog_of_def catalog_spec_def catalog_slot_name_def)
  next
    case (Inr x)
    with ok obtain act where act: "catalog_spec sha S = Inr act" and t: "t = (if cat_slot act = 0 then 1 else 0)"
      and lt: "snd x < v"
      by (cases x) (auto simp: catalog_target_ok_def)
    from act obtain g where g: "sequence_spec S default_catalog_component_id = Inr (g, cat_sequence act)"
      and k: "cat_slot act = 0 \<or> cat_slot act = 1" and v: "catalog_view_of sha S (cat_slot act) = CValid act"
      by (rule catalog_spec_active)
    have tk: "t = 1 - cat_slot act" using t k by auto
    have "catalog_view_of sha S' (cat_slot act) = CValid act"
      using v frame [of "catalog_slot_name (cat_slot act)"] catalog_slot_name_inj [OF k]
        catalog_slot_names(1) [of "cat_slot act"] tk
      by (metis (no_types, lifting) catalog_view_cong insert_iff)
    moreover have "catalog_match (cat_sequence act) (catalog_view_of sha S' (1 - cat_slot act)) = None"
      using view(1) lt g Inr unfolding tk [symmetric]
      by (fastforce simp: catalog_match_def split: catalog_view.split)
    ultimately have "catalog_spec sha S' = Inr act"
      using catalog_spec_one [of S' g "cat_sequence act" "cat_slot act" sha act] seq g k view(2) tk by simp
    with act seq Inr show ?thesis by (simp add: catalog_of_def catalog_inv_def)
  qed
qed

text \<open>When the acceptance state moves to the new sequence number, the record written becomes active.\<close>

lemma catalog_activated:
  assumes ok: "catalog_target_ok sha S v t" and inv: "catalog_inv sha S"
    and load: "abs_load S' = Some (commit_spec a q default_catalog_component_id v)"
    and frame: "\<And>nm. nm \<noteq> catalog_slot_name t \<Longrightarrow> nm \<noteq> slot0_id \<Longrightarrow> nm \<noteq> slot1_id \<Longrightarrow> S' nm = S nm"
    and view: "catalog_view_of sha S' t = CValid rec" "cat_sequence rec = v"
  shows "catalog_of sha S' = Some (cat_catalog rec) \<and> catalog_inv sha S'"
proof -
  have seq: "sequence_spec S' default_catalog_component_id = Inr (acc_generation a + 1, v)"
    using sequence_spec_abs [OF load default_id_nonempty] by (simp add: commit_spec_def)
  have t: "t = 0 \<or> t = 1"
    using ok by (auto simp: catalog_target_ok_def split: sum.splits)
  have oth: "catalog_view_of sha S' (1 - t) = catalog_view_of sha S (1 - t)"
    by (rule catalog_view_cong, rule frame)
      (use catalog_slot_name_inj [OF t] catalog_slot_names(1) [of "1 - t"] in auto)
  have "catalog_match v (catalog_view_of sha S (1 - t)) = None \<and> catalog_view_of sha S (1 - t) \<noteq> CUnsupported"
  proof (cases "sequence_spec S default_catalog_component_id")
    case (Inl e)
    with ok inv have "t = 0" "S catalog_slot1_id = None" by (simp_all add: catalog_target_ok_def catalog_inv_def)
    then show ?thesis
      using catalog_view_torn(1) [of S 1 sha] by (simp add: catalog_slot_name_def catalog_match_def)
  next
    case (Inr x)
    with ok obtain act where act: "catalog_spec sha S = Inr act" and t: "t = (if cat_slot act = 0 then 1 else 0)"
      and lt: "snd x < v"
      by (cases x) (auto simp: catalog_target_ok_def)
    from act obtain g where "sequence_spec S default_catalog_component_id = Inr (g, cat_sequence act)"
      "cat_slot act = 0 \<or> cat_slot act = 1" "catalog_view_of sha S (cat_slot act) = CValid act"
      by (rule catalog_spec_active)
    moreover from this have "1 - t = cat_slot act" using t by auto
    ultimately show ?thesis using Inr lt by (auto simp: catalog_match_def)
  qed
  then have "catalog_spec sha S' = Inr rec"
    using catalog_spec_one [OF seq t view(1) view(2)] oth by simp
  with seq show ?thesis by (simp add: catalog_of_def catalog_inv_def)
qed

lemma load_catalog_update: "load_spec (S(catalog_slot_name t := x)) = load_spec S"
  by (rule load_spec_cong) (use catalog_slot_names(1) [of t] in auto)

lemma abs_load_catalog_update: "abs_load (S(catalog_slot_name t := x)) = abs_load S"
  by (simp add: abs_load_def load_catalog_update)

lemma catalog_result_torn:
  assumes "catalog_target_ok sha S v t" and "catalog_inv sha S" and "abs_load S = Some a"
    and "slot_written S (catalog_slot_name t) out (Inl e) S'"
  shows "catalog_commit_result sha S a q v catalog (Inl e') S'"
proof -
  consider "S' = S" | "S' = S(catalog_slot_name t := Some [])" | "S' = S(catalog_slot_name t := None)"
    using assms(4) by (auto simp: slot_written_def)
  then have "abs_load S' = Some a \<and> catalog_of sha S' = catalog_of sha S \<and> catalog_inv sha S'"
  proof cases
    case 2
    then show ?thesis
      using catalog_kept [OF assms(1-3), of S'] assms(3) catalog_view_torn(2) [of S' t sha]
      by (simp add: abs_load_catalog_update del: fun_upd_apply) (simp)
  next
    case 3
    then show ?thesis
      using catalog_kept [OF assms(1-3), of S'] assms(3) catalog_view_torn(1) [of S' t sha]
      by (simp add: abs_load_catalog_update del: fun_upd_apply) (simp)
  qed (use assms in simp)
  then show ?thesis by (simp add: catalog_commit_result_def Let_def)
qed

lemma catalog_result_final:
  assumes "catalog_target_ok sha S v t" and "catalog_inv sha S" and "abs_load S = Some a"
    and "catalog_view_of sha S1 t = CValid rec" "cat_sequence rec = v" "cat_catalog rec = catalog"
    and S1: "S1 = S(catalog_slot_name t := x)"
    and "commit_result S1 a q default_catalog_component_id v r S'"
    and frame: "\<And>nm. nm \<noteq> slot0_id \<Longrightarrow> nm \<noteq> slot1_id \<Longrightarrow> S' nm = S1 nm"
  shows "catalog_commit_result sha S a q v catalog r S'"
proof -
  have names: "catalog_slot_name t \<noteq> slot0_id" "catalog_slot_name t \<noteq> slot1_id"
    using catalog_slot_names(1) [of t] by auto
  have view: "catalog_view_of sha S' t = CValid rec"
    using assms(4) catalog_view_cong [of S' t S1] frame [OF names] by simp
  have fr: "S' nm = S nm" if "nm \<noteq> catalog_slot_name t" "nm \<noteq> slot0_id" "nm \<noteq> slot1_id" for nm
    using frame [of nm] that by (simp add: S1)
  have old: "catalog_of sha S' = catalog_of sha S \<and> catalog_inv sha S'" if "abs_load S' = Some a"
    by (rule catalog_kept [OF assms(1-3) that fr]) (use view assms(5) in auto)
  have new: "catalog_of sha S' = Some catalog \<and> catalog_inv sha S'"
    if "abs_load S' = Some (commit_spec a q default_catalog_component_id v)"
    using catalog_activated [OF assms(1,2) that fr view assms(5)] assms(6) by simp
  have torn: "S slot0_id = None \<and> S slot1_id = None \<and> S' slot0_id = Some []" if "first_commit_torn S1 S'"
    using that names by (auto simp: first_commit_torn_def S1)
  from assms(8) show ?thesis
    using old new torn by (auto simp: commit_result_def catalog_commit_result_def Let_def split: sum.splits)
qed

lemma hoare_catalog_write:
  assumes laws: "storage_laws A objs hobj sha" and load: "load_spec S = Inr cur" and q: "length q = 32"
    and ok: "catalog_target_ok sha S v t" and inv: "catalog_inv sha S"
    and c: "catalog \<noteq> []" "length catalog \<le> CATALOG_STATE_MAX_PAYLOAD" "length (sha catalog) = 32" "v \<noteq> 0"
      "generation cur \<noteq> -1"
  shows "hoare (\<lambda>w. objs w = S)
     (bind_ok (write_catalog_slot A t (encode_catalog (generation cur + 1) v catalog (sha catalog))) (\<lambda>_. do {
        res \<leftarrow> read_catalog_slot A t;
        case res of Inl _ \<Rightarrow> throw ERROR_CORRUPT_OBJECT
        | Inr (verify_status, verify) \<Rightarrow>
          if verify_status \<noteq> PARSE_VALID \<or>
             length (cat_raw verify) \<noteq> length (encode_catalog (generation cur + 1) v catalog (sha catalog)) \<or>
             mem_compare (cat_raw verify) (encode_catalog (generation cur + 1) v catalog (sha catalog)) \<noteq> 0
          then throw ERROR_CORRUPT_OBJECT
          else twep_acceptance_commit A q default_catalog_component_id v (generation cur) }))
     (\<lambda>r w. catalog_commit_result sha S (abs_of cur) q v catalog r (objs w))"
proof (rule cat.write_verify [OF laws])
  let ?out = "encode_catalog (generation cur + 1) v catalog (sha catalog)"
  let ?rec = "catalog_record t (generation cur + 1) v catalog (sha catalog)"
  let ?S = "S(catalog_slot_name t := Some ?out)"
  have abs: "abs_load S = Some (abs_of cur)" using load by (rule abs_load_Inr)
  have nz: "generation cur + 1 \<noteq> 0" by (rule word_less_succ) (rule c)
  have view: "catalog_view_of sha ?S t = CValid ?rec"
    by (rule catalog_view_written) (use c nz in auto)
  show "catalog_commit_result sha S (abs_of cur) q v catalog (Inl e) (objs w)"
    if "slot_written S (catalog_slot_name t) ?out (Inl e) (objs w)" for e w
    by (rule catalog_result_torn [OF ok inv abs that])
  fix r w assume S1: "objs w = ?S"
  note names = catalog_slot_names(1) [of t]
  have load1: "load_spec ?S = Inr cur"
    using load by (simp only: load_catalog_update)
  have fin: "catalog_commit_result sha S (abs_of cur) q v catalog r' S'"
    if "commit_result ?S (abs_of cur) q default_catalog_component_id v r' S'"
      "\<And>nm. nm \<noteq> slot0_id \<Longrightarrow> nm \<noteq> slot1_id \<Longrightarrow> S' nm = ?S nm" for r' S'
    by (rule catalog_result_final [OF ok inv abs view _ _ refl that]) (simp_all add: catalog_record_def)
  have err: "catalog_commit_result sha S (abs_of cur) q v catalog (Inl e) ?S" for e
    by (rule fin) (use abs_load_Inr [OF load1] in \<open>simp_all add: commit_result_def\<close>)
  have com: "hoare (\<lambda>w'. w' = w) (twep_acceptance_commit A q default_catalog_component_id v (generation cur))
      (\<lambda>r w. catalog_commit_result sha S (abs_of cur) q v catalog r (objs w))"
  proof (rule hoareI)
    fix w0 r' w' assume w0: "w0 = w"
      and run: "run_state (twep_acceptance_commit A q default_catalog_component_id v (generation cur)) w0 = (r', w')"
    show "catalog_commit_result sha S (abs_of cur) q v catalog r' (objs w')"
    proof (rule fin)
      show "commit_result ?S (abs_of cur) q default_catalog_component_id v r' (objs w')"
        using hoareD [OF hoare_commit [OF laws load1 q] _ run] S1 w0 by simp
      show "objs w' nm = ?S nm" if "nm \<noteq> slot0_id" "nm \<noteq> slot1_id" for nm
        using hoareD [OF hoare_commit_frame [OF laws that] _ run] S1 w0 by simp
    qed
  qed
  show "hoare (\<lambda>w'. w' = w) (case r of Inl _ \<Rightarrow> throw ERROR_CORRUPT_OBJECT
        | Inr (verify_status, verify) \<Rightarrow>
          if verify_status \<noteq> PARSE_VALID \<or> length (cat_raw verify) \<noteq> length ?out \<or>
             mem_compare (cat_raw verify) ?out \<noteq> 0
          then throw ERROR_CORRUPT_OBJECT
          else twep_acceptance_commit A q default_catalog_component_id v (generation cur))
      (\<lambda>r w. catalog_commit_result sha S (abs_of cur) q v catalog r (objs w))"
    using com err S1 by (auto split: sum.split prod.split intro!: hoare_return)
qed

lemma hoare_catalog_commit:
  assumes laws: "storage_laws A objs hobj sha" and fs: "fail_stop A objs hobj dead"
    and load: "load_spec S = Inr cur" and q: "length q = 32" and inv: "catalog_inv sha S"
  shows "hoare (\<lambda>w. objs w = S) (twep_catalog_commit A q i v (generation cur) catalog dg)
     (\<lambda>r w. catalog_commit_result sha S (abs_of cur) q v catalog r (objs w))"
proof -
  let ?Q = "\<lambda>r w. catalog_commit_result sha S (abs_of cur) q v catalog r (objs w)"
  have abs: "abs_load S = Some (abs_of cur)" using load by (rule abs_load_Inr)
  have keep: "catalog_commit_result sha S (abs_of cur) q v catalog (Inl e) (objs w)" if "objs w = S" for e w
    using that abs inv by (simp add: catalog_commit_result_def)
  show ?thesis
    unfolding twep_catalog_commit_def
  proof (rule hoare_if, intro hoare_return keep, assumption,
      rule hoare_bind_ok [OF digest_sha256_law [OF laws]], use keep in blast)
    fix d
    assume p: "\<not> (\<not> twep_catalog_component_id_is_default i \<or> v = 0 \<or> catalog = [] \<or>
       length catalog > CATALOG_STATE_MAX_PAYLOAD \<or> generation cur = -1)"
    then have i: "i = default_catalog_component_id" by (simp add: is_default_iff)
    let ?rest = "\<lambda>t. do {
        ok \<leftarrow> tee_malloc A CATALOG_STATE_MAX_RECORD;
        if \<not> ok then throw ERROR_OUT_OF_MEMORY
        else case encode_catalog_record (generation cur + 1) v catalog d CATALOG_STATE_MAX_RECORD of
          Inl e \<Rightarrow> throw e
        | Inr record_bytes \<Rightarrow>
          bind_ok (write_catalog_slot A t record_bytes) (\<lambda>_. do {
            res \<leftarrow> read_catalog_slot A t;
            case res of Inl _ \<Rightarrow> throw ERROR_CORRUPT_OBJECT
            | Inr (verify_status, verify) \<Rightarrow>
              if verify_status \<noteq> PARSE_VALID \<or> length (cat_raw verify) \<noteq> length record_bytes \<or>
                 mem_compare (cat_raw verify) record_bytes \<noteq> 0
              then throw ERROR_CORRUPT_OBJECT
              else twep_acceptance_commit A q i v (generation cur) }) }"
    have wr: "hoare (\<lambda>w. objs w = S \<and> (dead w \<or> (\<forall>t'. Inr t = Inr t' \<longrightarrow> catalog_target_ok sha S v t')))
        (?rest t) ?Q" if d: "d = sha catalog" "length d = 32" for t
    proof -
      have mal: "hoare (\<lambda>w. objs w = S \<and> D w) (tee_malloc A n) (\<lambda>_ w. objs w = S \<and> D w)"
        if "D = dead \<or> D = (\<lambda>_. True)" for D n
        using that law_malloc [OF laws, of S _ n] dead_malloc [OF fs, of n] by (auto simp: hoare_def)
      have enc: "encode_catalog_record (generation cur + 1) v catalog d CATALOG_STATE_MAX_RECORD =
          Inr (encode_catalog (generation cur + 1) v catalog (sha catalog))"
        using encode_catalog_record_ok(1) [of d catalog] d p by (simp add: not_less)
      show ?thesis
      proof (cases "catalog_target_ok sha S v t")
        case True
        note fin = hoare_catalog_write [OF laws load q True inv]
        have "hoare (\<lambda>w. objs w = S \<and> True) (?rest t) ?Q"
          unfolding enc sum.case i
          by (intro hoare_bind [OF mal [of "\<lambda>_. True"]] hoare_if hoare_return hoare_pre [OF fin])
            (use p d keep in \<open>auto simp: not_less\<close>)
        then show ?thesis by (rule hoare_pre) simp
      next
        case False
        have dw: "hoare (\<lambda>w. objs w = S \<and> dead w) (write_catalog_slot A t out) (\<lambda>r w. isl r \<and> objs w = S)" for out
          unfolding write_catalog_slot_def by (rule dead_create_write [OF laws fs])
        have "hoare (\<lambda>w. objs w = S \<and> dead w) (?rest t) ?Q"
          unfolding enc sum.case
          by (intro hoare_bind [OF mal [of dead]] hoare_if hoare_return hoare_bind_ok [OF dw])
            (use keep in \<open>auto simp: hoare_def\<close>)
        with False show ?thesis by (auto elim: hoare_pre)
      qed
    qed
    have "hoare (\<lambda>w. objs w = S)
       (if mem_compare d dg \<noteq> 0 then throw ERROR_SECURITY
        else bind_ok (twep_acceptance_generation A) (\<lambda>current_generation.
          if current_generation \<noteq> generation cur then throw ERROR_ACCESS_CONFLICT
          else bind_ok (catalog_target A v) ?rest)) ?Q" if "d = sha catalog" "length d = 32"
      by (intro hoare_if hoare_return keep hoare_bind_ok [OF hoare_queries(2) [OF laws]]
          hoare_bind_ok [OF hoare_catalog_target [OF laws fs]] wr that) auto
    then show "hoare (\<lambda>w. objs w = S \<and> (\<forall>d'. Inr d = Inr d' \<longrightarrow> d' = sha catalog \<and> length d' = 32))
       (if mem_compare d dg \<noteq> 0 then throw ERROR_SECURITY
        else bind_ok (twep_acceptance_generation A) (\<lambda>current_generation.
          if current_generation \<noteq> generation cur then throw ERROR_ACCESS_CONFLICT
          else bind_ok (catalog_target A v) ?rest)) ?Q"
      by (auto simp: hoare_def)
  qed
qed

text \<open>On storage that does not fail, every allowed commit succeeds.\<close>

lemmas load_active_catalog_reliable =
  crash_load_active_catalog [OF _ reliable_fail_stop, unfolded crash_hoare_False]

lemmas read_catalog_slot_reliable =
  crash_read_catalog_slot [OF _ reliable_fail_stop, unfolded crash_hoare_False]

lemma catalog_target_reliable:
  assumes laws: "storage_laws A objs hobj sha" and rel: "storage_reliable A objs hobj"
    and load: "load_spec S = Inr cur" and inv: "catalog_inv sha S"
    and allowed: "commit_allowed (abs_of cur) q default_catalog_component_id v"
  shows "hoare (\<lambda>w. objs w = S) (catalog_target A v)
     (\<lambda>r w. objs w = S \<and> (\<exists>t. r = Inr t \<and> catalog_target_ok sha S v t))"
proof -
  have seq: "sequence_spec S default_catalog_component_id =
      (case acc_seqs (abs_of cur) default_catalog_component_id of None \<Rightarrow> Inl ERROR_ITEM_NOT_FOUND
       | Some s \<Rightarrow> Inr (acc_generation (abs_of cur), s))"
    by (rule sequence_spec_abs [OF abs_load_Inr [OF load] default_id_nonempty])
  have old: "s < v" if "acc_seqs (abs_of cur) default_catalog_component_id = Some s" for s
    using allowed that by (simp add: commit_allowed_def)
  have act: "hoare (\<lambda>w. objs w = S) (load_active_catalog A) (\<lambda>r w. objs w = S \<and> r = catalog_spec sha S)"
    using load_active_catalog_reliable [OF laws rel] reliable_memory [OF rel] by simp
  show ?thesis
    unfolding catalog_target_def
  proof (rule hoare_bind [OF component_sequence_reliable [OF laws rel]])
    fix r :: "tee_error + u64 \<times> u64"
    have "hoare (\<lambda>w. objs w = S) (case r of
         Inr (_, current_sequence) \<Rightarrow>
           if v \<le> current_sequence then throw ERROR_ACCESS_CONFLICT
           else bind_ok (load_active_catalog A) (\<lambda>active. success (if cat_slot active = 0 then 1 else 0))
       | Inl e \<Rightarrow> if e \<noteq> ERROR_ITEM_NOT_FOUND then throw e else success 0)
       (\<lambda>r w. objs w = S \<and> (\<exists>t. r = Inr t \<and> catalog_target_ok sha S v t))"
      if "r = sequence_spec S default_catalog_component_id"
      using that seq old inv
      by (auto simp: catalog_target_ok_def catalog_inv_def not_le split: option.splits
          intro!: hoare_return hoare_bind_ok [OF act])
    then show "hoare (\<lambda>w. objs w = S \<and> r = sequence_spec S default_catalog_component_id) (case r of
         Inr (_, current_sequence) \<Rightarrow>
           if v \<le> current_sequence then throw ERROR_ACCESS_CONFLICT
           else bind_ok (load_active_catalog A) (\<lambda>active. success (if cat_slot active = 0 then 1 else 0))
       | Inl e \<Rightarrow> if e \<noteq> ERROR_ITEM_NOT_FOUND then throw e else success 0)
       (\<lambda>r w. objs w = S \<and> (\<exists>t. r = Inr t \<and> catalog_target_ok sha S v t))"
      by (auto simp: hoare_def)
  qed
qed

lemma catalog_commit_reliable:
  assumes laws: "storage_laws A objs hobj sha" and rel: "storage_reliable A objs hobj"
    and load: "load_spec S = Inr cur" and inv: "catalog_inv sha S" and q: "length q = 32"
    and allowed: "commit_allowed (abs_of cur) q default_catalog_component_id v"
    and enc: "encode_updated cur q default_catalog_component_id v = Inr out"
    and c: "catalog \<noteq> []" "length catalog \<le> CATALOG_STATE_MAX_PAYLOAD" "length (sha catalog) = 32"
  shows "hoare (\<lambda>w. objs w = S)
     (twep_catalog_commit A q default_catalog_component_id v (generation cur) catalog (sha catalog))
     (\<lambda>r w. r = Inr (generation cur + 1))"
proof -
  let ?rec = "encode_catalog (generation cur + 1) v catalog (sha catalog)"
  have v: "v \<noteq> 0" "generation cur \<noteq> -1" using allowed by (simp_all add: commit_allowed_def abs_of_def)
  have nz: "generation cur + 1 \<noteq> 0" by (rule word_less_succ) (rule v)
  have dig: "hoare (\<lambda>w. objs w = S) (digest_sha256 A catalog) (\<lambda>r w. r = Inr (sha catalog) \<and> objs w = S)"
    using crash_digest_sha256 [OF laws reliable_fail_stop [OF rel], of S catalog] by (simp add: crash_hoare_False conj_commute)
  have gen: "hoare (\<lambda>w. objs w = S) (twep_acceptance_generation A) (\<lambda>r w. r = Inr (generation cur) \<and> objs w = S)"
    using crash_acceptance_generation [OF laws reliable_fail_stop [OF rel], of S] load by (simp add: crash_hoare_False conj_commute)
  have mal: "hoare (\<lambda>w. objs w = S) (tee_malloc A n) (\<lambda>ok w. ok \<and> objs w = S)" for n
    using law_malloc [OF laws, of S _ n] rel_malloc [OF rel, of n] by (auto simp: hoare_def)
  have fin: "hoare (\<lambda>w. objs w = S) (bind_ok (write_catalog_slot A t ?rec) (\<lambda>_. do {
        res \<leftarrow> read_catalog_slot A t;
        case res of Inl _ \<Rightarrow> throw ERROR_CORRUPT_OBJECT
        | Inr (verify_status, verify) \<Rightarrow>
          if verify_status \<noteq> PARSE_VALID \<or> length (cat_raw verify) \<noteq> length ?rec \<or>
             mem_compare (cat_raw verify) ?rec \<noteq> 0
          then throw ERROR_CORRUPT_OBJECT
          else twep_acceptance_commit A q default_catalog_component_id v (generation cur) }))
      (\<lambda>r w. r = Inr (generation cur + 1))" for t
  proof -
    let ?S = "S(catalog_slot_name t := Some ?rec)"
    have wr: "hoare (\<lambda>w. objs w = S) (write_catalog_slot A t ?rec) (\<lambda>r w. r = Inr () \<and> objs w = ?S)"
      unfolding write_catalog_slot_def by (rule hoare_create_write_reliable [OF laws rel])
    have "catalog_view_of sha ?S t = CValid (catalog_record t (generation cur + 1) v catalog (sha catalog))"
      by (rule catalog_view_written) (use c v nz in auto)
    then have st: "catalog_stored sha ?S t = Inr (PARSE_VALID, catalog_record t (generation cur + 1) v catalog (sha catalog))"
      by (auto simp: catalog_view_of_def result_catalog_view_def split: sum.splits prod.splits parse_status.splits if_splits)
    have rd: "hoare (\<lambda>w. objs w = ?S) (read_catalog_slot A t)
        (\<lambda>r w. r = Inr (PARSE_VALID, catalog_record t (generation cur + 1) v catalog (sha catalog)) \<and> objs w = ?S)"
      using read_catalog_slot_reliable [OF laws rel, of ?S t] reliable_memory [OF rel] by (simp add: st conj_commute)
    have load1: "load_spec ?S = Inr cur" using load by (simp only: load_catalog_update)
    have com: "hoare (\<lambda>w. objs w = ?S) (twep_acceptance_commit A q default_catalog_component_id v (generation cur))
        (\<lambda>r w. r = Inr (generation cur + 1))"
      by (rule hoare_post [OF commit_reliable [OF laws rel load1 q allowed enc]]) simp
    show ?thesis
      by (rule hoare_bind_ok [OF wr], simp, rule hoare_pre [OF hoare_bind [OF rd]])
        (use com in \<open>auto simp: hoare_def catalog_record_def mem_compare_eq0 split: sum.splits\<close>)
  qed
  have enc': "encode_catalog_record (generation cur + 1) v catalog (sha catalog) CATALOG_STATE_MAX_RECORD = Inr ?rec"
    by (rule encode_catalog_record_ok(1) [OF c(3,2)])
  have step: "hoare (\<lambda>w. objs w = S \<and> (\<exists>t. Inr t' = Inr t \<and> catalog_target_ok sha S v t)) m Q"
    if "hoare (\<lambda>w. objs w = S) m Q" for t' :: int and m Q
    using that by (auto simp: hoare_def)
  have guard: "\<not> (\<not> twep_catalog_component_id_is_default default_catalog_component_id \<or> v = 0 \<or> catalog = [] \<or>
      length catalog > CATALOG_STATE_MAX_PAYLOAD \<or> generation cur = -1)"
    using v c by (simp add: is_default_iff)
  have same: "\<not> mem_compare (sha catalog) (sha catalog) \<noteq> 0" "\<not> generation cur \<noteq> generation cur" "\<not> \<not> True"
    by (simp_all add: mem_compare_eq0)
  show ?thesis
    unfolding twep_catalog_commit_def if_not_P [OF guard]
    by (rule hoare_bind_ok_result [OF dig], unfold if_not_P [OF same(1)],
        rule hoare_bind_ok_result [OF gen], unfold if_not_P [OF same(2)],
        rule hoare_bind_ok [OF catalog_target_reliable [OF laws rel load inv allowed]], blast,
        rule step, rule hoare_bind_true [OF mal], unfold if_not_P [OF same(3)] enc' sum.case, rule fin)
qed

section \<open>Properties\<close>


text \<open>
  Reading the active catalog: on storage that does not fail, the call returns the catalog that is
  active in storage when it fits into the buffer, asks for a larger buffer with the right length
  when it does not, and reports the error of the selection when there is no active catalog.
\<close>

theorem catalog_read_active:
  assumes "storage_laws A objs hobj sha" and "storage_reliable A objs hobj"
    and "fst (run_state (twep_catalog_read_active A True cap) w) = (len, r)"
  shows "(len, r) = (case catalog_spec sha (objs w) of Inl e \<Rightarrow> (None, Inl e)
    | Inr act \<Rightarrow> (Some (length (cat_catalog act)),
        if length (cat_catalog act) \<le> cap then Inr (cat_catalog act) else Inl ERROR_SHORT_BUFFER))"
proof -
  have load: "hoare (\<lambda>w'. objs w' = objs w) (load_active_catalog A)
      (\<lambda>r w'. objs w' = objs w \<and> r = catalog_spec sha (objs w))"
    using crash_load_active_catalog [OF assms(1) reliable_fail_stop [OF assms(2)]] reliable_memory [OF assms(2)]
    by (simp add: crash_hoare_False)
  obtain r1 w1 where run: "run_state (load_active_catalog A) w = (r1, w1)" by (meson surj_pair)
  then show ?thesis
    using hoareD [OF load refl run] assms(3)
    by (auto simp: twep_catalog_read_active_def split: sum.splits if_splits)
qed

text \<open>
  A catalog record round-trips, its size is computed exactly in advance, and with a payload within
  the limit it always fits into the record buffer.
\<close>

theorem catalog_record_roundtrip:
  assumes "catalog \<noteq> []" and "length catalog \<le> CATALOG_STATE_MAX_PAYLOAD" and "length dg = 32"
    and "sequence \<noteq> 0" and "gen \<noteq> 0"
  shows "\<exists>out. encode_catalog_record gen sequence catalog dg CATALOG_STATE_MAX_RECORD = Inr out \<and>
     length out \<le> CATALOG_STATE_MAX_RECORD \<and>
     parse_catalog_fields out = Some (catalog, dg, 1, sequence, default_catalog_component_id, gen)"
  using encode_catalog_record_ok [OF assms(3,2), of gen sequence] parse_catalog_fields_encode [OF assms]
  by auto

section \<open>Concrete instances\<close>

text \<open>A device with an accepted catalog, with sequence number 3, in slot 0.\<close>

definition cat_comp :: component_sequence where
  "cat_comp = \<lparr>comp_id = default_catalog_component_id, comp_seq = 3\<rparr>"

definition cat_dev :: device where
  "cat_dev = \<lparr>dev_objs = (\<lambda>_. None)(slot0_id := Some (encode_slot 1 [cat_comp] dg7),
     catalog_slot0_id := Some (encode_catalog 1 3 [0xa0] (toy_digest [0xa0]))), dev_power = 20\<rparr>"

definition cat_state1 :: acceptance_state where
  "cat_state1 = slot_state (encode_slot 1 [cat_comp] dg7) 1 [cat_comp] dg7"

abbreviation cat_commit1 :: "(tee_error + u64) \<times> device" where
  "cat_commit1 \<equiv> run_state (twep_catalog_commit (sim_api True) dg8 default_catalog_component_id 4
     (generation cat_state1) [0xa1, 0, 0] (toy_digest [0xa1, 0, 0])) cat_dev"

lemma cat_dev_facts:
  "load_spec (dev_objs cat_dev) = Inr cat_state1"
  "catalog_spec toy_digest (dev_objs cat_dev) = Inr (catalog_record 0 1 3 [0xa0] (toy_digest [0xa0]))"
  "fst (run_state (twep_catalog_read_active (sim_api False) True 1) cat_dev) = (Some 1, Inr [0xa0])"
  by code_simp+

lemma catalog_inv_active: "catalog_spec sha S = Inr act \<Longrightarrow> catalog_inv sha S"
  by (auto simp: catalog_inv_def catalog_spec_def split: sum.splits)


theorem catalog_read_active_witness:
  "(Some 1, Inr [0xa0]) = (case catalog_spec toy_digest (dev_objs cat_dev) of Inl e \<Rightarrow> (None, Inl e)
    | Inr act \<Rightarrow> (Some (length (cat_catalog act)),
        if length (cat_catalog act) \<le> 1 then Inr (cat_catalog act) else Inl ERROR_SHORT_BUFFER))"
  by (rule catalog_read_active [OF sim_storage_laws sim_storage_reliable cat_dev_facts(3)])

theorem catalog_record_roundtrip_witness:
  "\<exists>out. encode_catalog_record 1 3 [0xa0] dg7 CATALOG_STATE_MAX_RECORD = Inr out \<and>
     length out \<le> CATALOG_STATE_MAX_RECORD \<and>
     parse_catalog_fields out = Some ([0xa0], dg7, 1, 3, default_catalog_component_id, 1)"
  by (rule catalog_record_roundtrip) (simp_all add: dev_facts CATALOG_STATE_MAX_PAYLOAD_def)

end
