(* ===== verification/Protected_App.thy ===== *)
theory Protected_App
  imports Acceptance_State
begin

text \<open>
  The protected application of \<^verbatim>\<open>optee/twep-wr-ta/ta/protected_app.c\<close>: one WebAssembly binary
  with its component identifier, digest and sequence number, in two slots of secure storage. Like
  the catalog it is activated by the acceptance state: a slot counts when its sequence number is
  the one accepted for its component and its generation is not ahead of the current one.
\<close>

section \<open>Data\<close>

definition TWEP_PROTECTED_APP_MAX_SIZE :: nat where
  "TWEP_PROTECTED_APP_MAX_SIZE = 128 * 1024"

definition APP_RECORD_HEADER_SIZE :: nat where
  "APP_RECORD_HEADER_SIZE = 68"

definition APP_RECORD_MAX_SIZE :: nat where
  "APP_RECORD_MAX_SIZE = TWEP_PROTECTED_APP_MAX_SIZE + 512"

text \<open>Comparisons with these limits are evaluated on binary integers.\<close>

lemma app_limits [code_unfold]:
  "TWEP_PROTECTED_APP_MAX_SIZE < n \<longleftrightarrow> 131072 < int n"
  "n \<le> TWEP_PROTECTED_APP_MAX_SIZE \<longleftrightarrow> int n \<le> 131072"
  "APP_RECORD_MAX_SIZE < n \<longleftrightarrow> 131584 < int n"
  by (auto simp: TWEP_PROTECTED_APP_MAX_SIZE_def APP_RECORD_MAX_SIZE_def)

definition app_record_magic :: bytes where
  "app_record_magic = ascii ''TWEPAPP'' @ [1]"

definition app_slot0_id :: bytes where
  "app_slot0_id = ascii ''twep-app-state.0.bin''"

definition app_slot1_id :: bytes where
  "app_slot1_id = ascii ''twep-app-state.1.bin''"

definition app_component_tag :: bytes where
  "app_component_tag = ascii ''twep-app-v1''"

text \<open>
  \<open>app_raw\<close> is \<open>None\<close> for the null pointer: the selection looks at slots whose buffer was
  allocated, also when their record turned out malformed.
\<close>

record app_state =
  app_raw :: "bytes option"
  app_generation :: u64
  app_sequence :: u64
  app_component_id :: bytes
  app_digest :: bytes
  app_wasm :: bytes
  app_slot :: int

definition zero_app :: app_state where
  "zero_app = \<lparr>app_raw = None, app_generation = 0, app_sequence = 0, app_component_id = [],
     app_digest = [], app_wasm = [], app_slot = 0\<rparr>"

section \<open>Integers in the header\<close>

definition read_be32 :: "bytes \<Rightarrow> u32" where
  "read_be32 p = push_bit 24 (ucast (p ! 0)) OR push_bit 16 (ucast (p ! 1)) OR
     push_bit 8 (ucast (p ! 2)) OR ucast (p ! 3)"

definition read_be64 :: "bytes \<Rightarrow> u64" where
  "read_be64 p = be_fold 0 (take 8 p)"

definition write_be32 :: "u32 \<Rightarrow> bytes" where
  "write_be32 value = [ucast (drop_bit 24 value), ucast (drop_bit 16 value), ucast (drop_bit 8 value), ucast value]"

text \<open>The loop stores the low byte last and shifts the value down.\<close>

fun write_be64_loop :: "nat \<Rightarrow> u64 \<Rightarrow> bytes \<Rightarrow> bytes" where
  "write_be64_loop 0 value out = out"
| "write_be64_loop (Suc i) value out = write_be64_loop i (drop_bit 8 value) (ucast value # out)"

definition write_be64 :: "u64 \<Rightarrow> bytes" where
  "write_be64 value = write_be64_loop 8 value []"

lemma write_be64_loop_eq: "write_be64_loop n v out = be_bytes n v @ out"
proof (induction n arbitrary: v out)
  case (Suc n)
  have "be_bytes n (drop_bit 8 v) @ [ucast v] = be_bytes (Suc n) v"
  proof -
    have "be_bytes m (drop_bit 8 v) @ [ucast v] = be_bytes (Suc m) v" for m
      by (induction m) (simp_all add: add.commute)
    then show ?thesis by blast
  qed
  with Suc show ?case by simp
qed simp

lemma write_be64_eq: "write_be64 v = be_bytes 8 v"
  by (simp add: write_be64_def write_be64_loop_eq)

lemma length_write_be [simp]: "length (write_be64 v) = 8" "length (write_be32 x) = 4"
  by (simp_all add: write_be64_eq write_be32_def)

lemma read_write_be64: "read_be64 (write_be64 v @ zs) = v"
  using be_fold_be_bytes_64 [of v] by (simp add: read_be64_def write_be64_eq)

lemma read_write_be32: "read_be32 (write_be32 x @ zs) = x"
proof (rule bit_word_eqI)
  fix n assume "n < LENGTH(32)"
  then have n: "n < 32" by simp
  consider "n < 8" | "8 \<le> n \<and> n < 16" | "16 \<le> n \<and> n < 24" | "24 \<le> n" by linarith
  then show "bit (read_be32 (write_be32 x @ zs)) n = bit x n"
    using n by cases (auto simp: read_be32_def write_be32_def bit_simps dest: bit_imp_le_length)
qed

section \<open>Component identifiers\<close>

definition twep_app_component_id_is_valid :: "bytes \<Rightarrow> bool" where
  "twep_app_component_id_is_valid i =
     (let tag_len = length app_component_tag; len = length i in
      if len < 2 + tag_len + 2 \<or> i ! 0 \<noteq> 0x82 \<or> i ! 1 \<noteq> 0x40 + of_nat tag_len \<or>
         mem_compare (take tag_len (drop 2 i)) app_component_tag \<noteq> 0
      then False
      else let off = 2 + tag_len in
        case (if i ! off \<ge> 0x41 \<and> i ! off \<le> 0x57 then Some (unat (i ! off - 0x40), off + 1)
              else if i ! off = 0x58 \<and> off + 1 < len \<and> i ! (off + 1) \<ge> 24
              then Some (unat (i ! (off + 1)), off + 2) else None) of
          None \<Rightarrow> False
        | Some (command_len, off) \<Rightarrow>
          if command_len = 0 \<or> off + command_len \<noteq> len then False
          else list_all (\<lambda>b. b \<noteq> 0) (drop off i))"

section \<open>Parsing and reading\<close>

definition app_sha256 :: "('w, 'h) tee_api \<Rightarrow> bytes \<Rightarrow> ('w, bytes) tee" where
  "app_sha256 A bs =
     (if bs = [] \<or> length bs > UINT32_MAX then throw ERROR_BAD_PARAMETERS
      else do {
        res \<leftarrow> bind_ok (tee_digest_alloc A) (\<lambda>_. tee_digest_final A bs);
        State_Monad.return (case res of Inl e \<Rightarrow> Inl e
          | Inr out \<Rightarrow> if length out \<noteq> 32 then Inl ERROR_GENERIC else Inr out) })"

text \<open>
  The fields are stored as they are read, also when a later test fails; the additions are those of a
  64-bit \<^verbatim>\<open>size_t\<close>, which cannot overflow here.
\<close>

definition parse_app_record ::
  "('w, 'h) tee_api \<Rightarrow> app_state \<Rightarrow> ('w, (tee_error + unit) \<times> app_state) state" where
  "parse_app_record A state =
     (case app_raw state of
        None \<Rightarrow> State_Monad.return (Inl ERROR_BAD_FORMAT, state)
      | Some r \<Rightarrow>
        if length r < APP_RECORD_HEADER_SIZE \<or> mem_compare (take 8 r) app_record_magic \<noteq> 0
        then State_Monad.return (Inl ERROR_BAD_FORMAT, state)
        else let st1 = state\<lparr>app_generation := read_be64 (drop 8 r), app_sequence := read_be64 (drop 16 r)\<rparr>;
                 component_len = unat (read_be32 (drop 24 r)); wasm_len = unat (read_be32 (drop 28 r)) in
          if app_generation st1 = 0 \<or> app_sequence st1 = 0 \<or> component_len = 0 \<or> wasm_len = 0 \<or>
             wasm_len > TWEP_PROTECTED_APP_MAX_SIZE \<or>
             APP_RECORD_HEADER_SIZE + component_len + wasm_len \<noteq> length r
          then State_Monad.return (Inl ERROR_BAD_FORMAT, st1)
          else let st2 = st1\<lparr>app_digest := take 32 (drop 32 r),
                   app_component_id := take component_len (drop APP_RECORD_HEADER_SIZE r),
                   app_wasm := take wasm_len (drop (APP_RECORD_HEADER_SIZE + component_len) r)\<rparr> in
            if \<not> twep_app_component_id_is_valid (app_component_id st2)
            then State_Monad.return (Inl ERROR_SECURITY, st2)
            else do {
              res \<leftarrow> app_sha256 A (app_wasm st2);
              State_Monad.return (case res of Inl _ \<Rightarrow> Inl ERROR_SECURITY
                | Inr computed \<Rightarrow> if mem_compare computed (app_digest st2) \<noteq> 0 then Inl ERROR_SECURITY
                    else Inr (), st2) })"

definition app_slot_name :: "int \<Rightarrow> bytes" where
  "app_slot_name slot = (if slot \<noteq> 0 then app_slot1_id else app_slot0_id)"

text \<open>
  The result of the C function and the state it leaves behind. After a failed read the buffer is
  allocated and its contents, which nobody looks at, are taken to be zero.
\<close>

definition read_app_slot ::
  "('w, 'h) tee_api \<Rightarrow> int \<Rightarrow> ('w, (tee_error + unit) \<times> app_state) state" where
  "read_app_slot A slot =
     bind_or (\<lambda>e. (Inl e, zero_app)) (tee_open A (app_slot_name slot)) (\<lambda>object. do {
       p \<leftarrow> bind_or (\<lambda>e. (Inl e, zero_app)) (tee_info A object) (\<lambda>dataSize.
         if dataSize = 0 \<or> dataSize > APP_RECORD_MAX_SIZE
         then State_Monad.return (Inl ERROR_BAD_FORMAT, zero_app)
         else do {
           ok \<leftarrow> tee_malloc A dataSize;
           if \<not> ok then State_Monad.return (Inl ERROR_OUT_OF_MEMORY, zero_app)
           else bind_or (\<lambda>e. (Inl e, zero_app\<lparr>app_raw := Some (replicate dataSize 0)\<rparr>))
             (tee_read A object dataSize) (\<lambda>buf.
               if length buf \<noteq> dataSize
               then State_Monad.return (Inl ERROR_CORRUPT_OBJECT, zero_app\<lparr>app_raw := Some (replicate dataSize 0)\<rparr>)
               else parse_app_record A (zero_app\<lparr>app_raw := Some buf, app_slot := slot\<rparr>)) });
       _ \<leftarrow> tee_close A object;
       State_Monad.return p })"

text \<open>The record of a slot that was read successfully.\<close>

definition app_result :: "(tee_error + unit) \<times> app_state \<Rightarrow> tee_error + app_state" where
  "app_result p = (case fst p of Inl e \<Rightarrow> Inl e | Inr _ \<Rightarrow> Inr (snd p))"

definition read_app_record :: "('w, 'h) tee_api \<Rightarrow> int \<Rightarrow> ('w, app_state) tee" where
  "read_app_record A slot = do { p \<leftarrow> read_app_slot A slot; State_Monad.return (app_result p) }"

definition app_bytes :: "app_state \<Rightarrow> bytes" where
  "app_bytes st = (case app_raw st of None \<Rightarrow> [] | Some r \<Rightarrow> r)"

definition app_records_agree :: "app_state \<Rightarrow> app_state \<Rightarrow> bool" where
  "app_records_agree a b = (case (app_raw a, app_raw b) of
     (Some x, Some y) \<Rightarrow> length x = length y \<and> mem_compare x y = 0 | _ \<Rightarrow> False)"

section \<open>Selecting\<close>

record app_scan =
  app_slots :: "app_state list"
  app_present :: bool
  app_selected :: int

definition init_app_scan :: app_scan where
  "init_app_scan = \<lparr>app_slots = [zero_app, zero_app], app_present = False, app_selected = -1\<rparr>"

definition app_seen :: "nat \<Rightarrow> app_state \<Rightarrow> app_scan \<Rightarrow> app_scan" where
  "app_seen i st sc = sc\<lparr>app_present := True, app_slots := (app_slots sc)[i := st]\<rparr>"

text \<open>The decision on a slot whose record is valid, given the answer of the acceptance state.\<close>

definition app_judge :: "nat \<Rightarrow> app_state \<Rightarrow> tee_error + u64 \<times> u64 \<Rightarrow> app_scan \<Rightarrow> tee_error + app_scan" where
  "app_judge i st q sc =
     (case q of
        Inr (gen, sequence) \<Rightarrow>
          Inr (if sequence = app_sequence st \<and> gen \<ge> app_generation st \<and>
                  (app_selected sc < 0 \<or>
                   app_generation st > app_generation (app_slots sc ! nat (app_selected sc)))
               then sc\<lparr>app_selected := int i\<rparr> else sc)
      | Inl e \<Rightarrow> if e \<noteq> ERROR_ITEM_NOT_FOUND then Inl e else Inr sc)"

definition scan_app_slot :: "('w, 'h) tee_api \<Rightarrow> nat \<Rightarrow> app_scan \<Rightarrow> ('w, app_scan) tee" where
  "scan_app_slot A i sc = do {
     (res, st) \<leftarrow> read_app_slot A (int i);
     case res of
       Inl e \<Rightarrow>
         if e = ERROR_ITEM_NOT_FOUND then success sc
         else if e = ERROR_BAD_FORMAT \<or> e = ERROR_CORRUPT_OBJECT \<or> e = ERROR_SECURITY
         then success (app_seen i st sc)
         else throw e
     | Inr _ \<Rightarrow> do {
         q \<leftarrow> twep_acceptance_component_sequence A (app_component_id st);
         State_Monad.return (app_judge i st q (app_seen i st sc)) } }"

definition select_app :: "app_scan \<Rightarrow> tee_error + app_state" where
  "select_app sc =
     (if app_selected sc < 0 then
        Inl (if app_present sc then ERROR_CORRUPT_OBJECT else ERROR_ITEM_NOT_FOUND)
      else let sel = app_slots sc ! nat (app_selected sc); other = app_slots sc ! nat (1 - app_selected sc) in
        if app_raw other \<noteq> None \<and> app_generation other = app_generation sel \<and>
           \<not> app_records_agree (app_slots sc ! 0) (app_slots sc ! 1)
        then Inl ERROR_SECURITY else Inr sel)"

definition load_active_app :: "('w, 'h) tee_api \<Rightarrow> ('w, app_state) tee" where
  "load_active_app A =
     bind_ok (scan_app_slot A 0 init_app_scan) (\<lambda>sc0.
       bind_ok (scan_app_slot A 1 sc0) (\<lambda>sc1. State_Monad.return (select_app sc1)))"

section \<open>The operations\<close>

definition write_app_slot :: "('w, 'h) tee_api \<Rightarrow> int \<Rightarrow> bytes \<Rightarrow> ('w, unit) tee" where
  "write_app_slot A slot bs =
     bind_ok (tee_create A (app_slot_name slot)) (\<lambda>object. do {
       res \<leftarrow> tee_write A object bs;
       case res of Inl e \<Rightarrow> do { _ \<leftarrow> tee_close_delete A object; throw e }
       | Inr _ \<Rightarrow> do { _ \<leftarrow> tee_close A object; success () } })"

text \<open>The four bytes before the component identifier stay zero, as \<^verbatim>\<open>TEE_Malloc\<close> left them.\<close>

definition app_record :: "u64 \<Rightarrow> u64 \<Rightarrow> bytes \<Rightarrow> bytes \<Rightarrow> bytes \<Rightarrow> bytes" where
  "app_record gen sequence component_id wasm computed =
     app_record_magic @ write_be64 gen @ write_be64 sequence @
     write_be32 (of_nat (length component_id)) @ write_be32 (of_nat (length wasm)) @
     computed @ replicate 4 0 @ component_id @ wasm"

text \<open>The slot to write: the one that is not active, or slot 0 when none is.\<close>

definition app_target_slot :: "('w, 'h) tee_api \<Rightarrow> ('w, int) tee" where
  "app_target_slot A = do {
     res \<leftarrow> load_active_app A;
     State_Monad.return (case res of
       Inr active \<Rightarrow> Inr (if app_slot active = 0 then 1 else 0)
     | Inl e \<Rightarrow> if e \<noteq> ERROR_ITEM_NOT_FOUND \<and> e \<noteq> ERROR_CORRUPT_OBJECT then Inl e else Inr 0) }"

definition app_target :: "('w, 'h) tee_api \<Rightarrow> bytes \<Rightarrow> u64 \<Rightarrow> ('w, int) tee" where
  "app_target A component_id sequence = do {
     q \<leftarrow> twep_acceptance_component_sequence A component_id;
     case q of
       Inr (_, prior_sequence) \<Rightarrow>
         if sequence \<le> prior_sequence then throw ERROR_ACCESS_CONFLICT else app_target_slot A
     | Inl e \<Rightarrow> if e \<noteq> ERROR_ITEM_NOT_FOUND then throw e else app_target_slot A }"

definition twep_app_commit ::
  "('w, 'h) tee_api \<Rightarrow> bytes \<Rightarrow> bytes \<Rightarrow> u64 \<Rightarrow> u64 \<Rightarrow> bytes \<Rightarrow> bytes \<Rightarrow> ('w, u64) tee" where
  "twep_app_commit A query_response_sha256 component_id sequence expected_generation wasm wasm_sha256 =
     (if \<not> twep_app_component_id_is_valid component_id \<or> sequence = 0 \<or> wasm = [] \<or>
         length wasm > TWEP_PROTECTED_APP_MAX_SIZE \<or> expected_generation = -1 \<or>
         length component_id > UINT32_MAX \<or> length wasm > UINT32_MAX
      then throw ERROR_BAD_PARAMETERS
      else bind_ok (app_sha256 A wasm) (\<lambda>computed.
        if mem_compare computed wasm_sha256 \<noteq> 0 then throw ERROR_SECURITY
        else bind_ok (twep_acceptance_generation A) (\<lambda>current_generation.
          if current_generation \<noteq> expected_generation then throw ERROR_ACCESS_CONFLICT
          else bind_ok (app_target A component_id sequence) (\<lambda>target_slot. do {
            ok \<leftarrow> tee_malloc A (APP_RECORD_HEADER_SIZE + length component_id + length wasm);
            if \<not> ok then throw ERROR_OUT_OF_MEMORY
            else let record_bytes = app_record (expected_generation + 1) sequence component_id wasm computed in
              bind_ok (write_app_slot A target_slot record_bytes) (\<lambda>_. do {
                res \<leftarrow> read_app_record A target_slot;
                case res of Inl _ \<Rightarrow> throw ERROR_CORRUPT_OBJECT
                | Inr verify \<Rightarrow>
                  if length (app_bytes verify) \<noteq> length record_bytes \<or>
                     mem_compare (app_bytes verify) record_bytes \<noteq> 0
                  then throw ERROR_CORRUPT_OBJECT
                  else twep_acceptance_commit A query_response_sha256 component_id sequence
                         expected_generation }) }))))"

text \<open>
  Like the catalog: the length is stored as soon as the record is loaded. The digest is delivered
  with the binary when the caller asks for it.
\<close>

definition twep_app_read_active ::
  "('w, 'h) tee_api \<Rightarrow> bool \<Rightarrow> nat \<Rightarrow> ('w, nat option \<times> (tee_error + bytes \<times> bytes)) state" where
  "twep_app_read_active A has_buffer wasm_cap = do {
     res \<leftarrow> load_active_app A;
     State_Monad.return (case res of
       Inl e \<Rightarrow> (None, Inl e)
     | Inr active \<Rightarrow>
       (Some (length (app_wasm active)),
        if length (app_wasm active) > wasm_cap then Inl ERROR_SHORT_BUFFER
        else if \<not> has_buffer then Inl ERROR_BAD_PARAMETERS
        else Inr (app_wasm active, app_digest active))) }"

section \<open>What a slot holds\<close>

definition app_parse :: "(bytes \<Rightarrow> bytes) \<Rightarrow> app_state \<Rightarrow> (tee_error + unit) \<times> app_state" where
  "app_parse sha state =
     (case app_raw state of
        None \<Rightarrow> (Inl ERROR_BAD_FORMAT, state)
      | Some r \<Rightarrow>
        if length r < APP_RECORD_HEADER_SIZE \<or> mem_compare (take 8 r) app_record_magic \<noteq> 0
        then (Inl ERROR_BAD_FORMAT, state)
        else let st1 = state\<lparr>app_generation := read_be64 (drop 8 r), app_sequence := read_be64 (drop 16 r)\<rparr>;
                 component_len = unat (read_be32 (drop 24 r)); wasm_len = unat (read_be32 (drop 28 r)) in
          if app_generation st1 = 0 \<or> app_sequence st1 = 0 \<or> component_len = 0 \<or> wasm_len = 0 \<or>
             wasm_len > TWEP_PROTECTED_APP_MAX_SIZE \<or>
             APP_RECORD_HEADER_SIZE + component_len + wasm_len \<noteq> length r
          then (Inl ERROR_BAD_FORMAT, st1)
          else let st2 = st1\<lparr>app_digest := take 32 (drop 32 r),
                   app_component_id := take component_len (drop APP_RECORD_HEADER_SIZE r),
                   app_wasm := take wasm_len (drop (APP_RECORD_HEADER_SIZE + component_len) r)\<rparr> in
            if twep_app_component_id_is_valid (app_component_id st2) \<and>
               mem_compare (sha (app_wasm st2)) (app_digest st2) = 0
            then (Inr (), st2) else (Inl ERROR_SECURITY, st2))"

definition app_stored :: "(bytes \<Rightarrow> bytes) \<Rightarrow> store \<Rightarrow> int \<Rightarrow> (tee_error + unit) \<times> app_state" where
  "app_stored sha S slot =
     (case S (app_slot_name slot) of None \<Rightarrow> (Inl ERROR_ITEM_NOT_FOUND, zero_app)
      | Some bs \<Rightarrow> if bs = [] \<or> length bs > APP_RECORD_MAX_SIZE then (Inl ERROR_BAD_FORMAT, zero_app)
          else app_parse sha (zero_app\<lparr>app_raw := Some bs, app_slot := slot\<rparr>))"

lemma app_sha256_law:
  assumes "storage_laws A objs hobj sha"
  shows "hoare (\<lambda>w. objs w = S) (app_sha256 A bs)
     (\<lambda>r w. objs w = S \<and> (\<forall>d. r = Inr d \<longrightarrow> d = sha bs \<and> length d = 32))"
  unfolding app_sha256_def
  by (intro hoare_if hoare_return hoare_bind [OF hoare_bind_ok [OF law_digest_alloc [OF assms] _ law_digest_final [OF assms]]])
    (auto split: sum.splits if_splits)

lemma keeps_app_sha256:
  assumes "fail_stop A objs hobj dead"
  shows "hoare dead (app_sha256 A bs) (\<lambda>_. dead)"
  unfolding app_sha256_def by (intro keeps_rules keeps_ops [OF assms])

lemma crash_digest:
  assumes laws: "storage_laws A objs hobj sha" and fs: "fail_stop A objs hobj dead"
  shows "crash_hoare dead (\<lambda>w. objs w = S) (bind_ok (tee_digest_alloc A) (\<lambda>_. tee_digest_final A bs))
     (\<lambda>r w. (objs w = S \<and> length (sha bs) = 32) \<and> r = Inr (sha bs))"
proof -
  have al: "crash_hoare dead (\<lambda>w. objs w = S) (tee_digest_alloc A) (\<lambda>r w. r = Inr () \<and> objs w = S)"
    unfolding crash_hoare_def
    using hoare_conj [OF law_digest_alloc [OF laws, of S] fs_digest_alloc [OF fs]] dead_digest_alloc [OF fs]
    by (auto elim!: hoare_conseq)
  have fin: "crash_hoare dead (\<lambda>w. objs w = S) (tee_digest_final A bs)
      (\<lambda>r w. (objs w = S \<and> length (sha bs) = 32) \<and> r = Inr (sha bs))"
    unfolding crash_hoare_def
    using hoare_conj [OF law_digest_final [OF laws, of S bs] fs_digest_final [OF fs, of bs]]
      dead_digest_final [OF fs, of bs]
    by (auto elim!: hoare_conseq)
  show ?thesis by (rule crash_bind_ok_result [OF al fin]) (rule keeps_ops [OF fs])
qed

lemma crash_app_sha256:
  assumes laws: "storage_laws A objs hobj sha" and fs: "fail_stop A objs hobj dead"
    and "bs \<noteq> []" and "length bs \<le> UINT32_MAX"
  shows "crash_hoare dead (\<lambda>w. objs w = S) (app_sha256 A bs) (\<lambda>r w. objs w = S \<and> r = Inr (sha bs))"
  unfolding app_sha256_def
  by (intro crash_if crash_return crash_bind_result [OF crash_digest [OF laws fs]] keeps_rules)
    (use assms(3,4) in auto)

lemma parse_app_record_law:
  assumes "storage_laws A objs hobj sha"
  shows "hoare (\<lambda>w. objs w = S) (parse_app_record A st)
     (\<lambda>r w. objs w = S \<and> app_raw (snd r) = app_raw st \<and> fst r \<noteq> Inl ERROR_ITEM_NOT_FOUND)"
  unfolding parse_app_record_def Let_def
  by (cases "app_raw st")
    (auto intro!: hoare_return hoare_bind [OF app_sha256_law [OF assms]] split: sum.splits if_splits)

lemma keeps_parse_app_record:
  assumes "fail_stop A objs hobj dead"
  shows "hoare dead (parse_app_record A st) (\<lambda>_. dead)"
  unfolding parse_app_record_def Let_def by (intro keeps_rules keeps_app_sha256 [OF assms])

lemma crash_parse_app_record:
  assumes "storage_laws A objs hobj sha" and "fail_stop A objs hobj dead"
  shows "crash_hoare dead (\<lambda>w. objs w = S) (parse_app_record A st)
     (\<lambda>r w. objs w = S \<and> r = app_parse sha st)"
proof (cases "app_raw st")
  case None
  then show ?thesis by (simp add: parse_app_record_def app_parse_def crash_return)
next
  case (Some r)
  show ?thesis
    unfolding parse_app_record_def app_parse_def Let_def Some option.case
    by (intro crash_if crash_return crash_bind_result [OF crash_app_sha256 [OF assms]] keeps_rules)
      (auto simp: TWEP_PROTECTED_APP_MAX_SIZE_def UINT32_MAX_def)
qed

lemma read_app_slot_law:
  assumes "storage_laws A objs hobj sha"
  shows "hoare (\<lambda>w. objs w = S) (read_app_slot A slot) (\<lambda>p w. objs w = S \<and>
     slot_read APP_RECORD_MAX_SIZE S (app_slot_name slot) (map_sum id app_bytes (app_result p)))"
proof -
  have mal: "hoare (\<lambda>w. objs w = S \<and> hobj w h = Some nm) (tee_malloc A n)
      (\<lambda>_ w. objs w = S \<and> hobj w h = Some nm)" for h nm n
    using law_malloc [OF assms] by (auto simp: hoare_def)
  have parse: "hoare (\<lambda>w. objs w = S) (parse_app_record A (zero_app\<lparr>app_raw := Some d, app_slot := slot\<rparr>))
      (\<lambda>p w. objs w = S \<and> slot_read APP_RECORD_MAX_SIZE S (app_slot_name slot) (map_sum id app_bytes (app_result p)))"
    if "S (app_slot_name slot) = Some d" "d \<noteq> []" "length d \<le> APP_RECORD_MAX_SIZE" for d
    using that by (intro hoare_post [OF parse_app_record_law [OF assms]])
      (auto simp: slot_read_def app_result_def app_bytes_def split: sum.splits)
  show ?thesis
    unfolding read_app_slot_def
    by (intro hoare_with_object [OF assms] hoare_sized [OF assms] hoare_bind [OF mal] hoare_if hoare_return
        hoare_read_all [OF assms] parse)
      (auto simp: slot_read_def app_result_def)
qed

lemma keeps_read_app_slot:
  assumes "fail_stop A objs hobj dead"
  shows "hoare dead (read_app_slot A slot) (\<lambda>_. dead)"
  unfolding read_app_slot_def
  by (intro keeps_rules keeps_ops [OF assms] keeps_parse_app_record [OF assms])

text \<open>Up to a crash a slot is read as it is stored, unless memory runs out.\<close>

lemma crash_read_app_slot:
  assumes "storage_laws A objs hobj sha" and "fail_stop A objs hobj dead"
  shows "crash_hoare dead (\<lambda>w. objs w = S) (read_app_slot A slot)
     (\<lambda>r w. objs w = S \<and> (r = app_stored sha S slot \<or> fst r = Inl ERROR_OUT_OF_MEMORY \<and> no_memory A))"
proof -
  have parse: "crash_hoare dead (\<lambda>w. objs w = S) (parse_app_record A st)
      (\<lambda>r w. objs w = S \<and> (r = app_parse sha st \<or> fst r = Inl ERROR_OUT_OF_MEMORY \<and> no_memory A))" for st
    by (rule crash_conseq [OF crash_parse_app_record [OF assms]]) auto
  show ?thesis
    unfolding read_app_slot_def app_stored_def
  proof (rule crash_with_object [OF assms], goal_cases)
    case (2 object d)
    show ?case
    proof (rule crash_sized [where S = S, OF assms 2], goal_cases)
      case 2
      show ?case
        by (rule crash_malloc [OF assms])
          (use 2 \<open>S (app_slot_name slot) = Some d\<close> in \<open>auto intro!: crash_read_all [OF assms] parse
            crash_return keeps_rules keeps_parse_app_record [OF assms(2)]\<close>)
    qed (use 2 in \<open>auto intro!: keeps_rules keeps_ops [OF assms(2)] keeps_parse_app_record [OF assms(2)]\<close>)
  qed (auto intro!: keeps_rules keeps_ops [OF assms(2)] keeps_parse_app_record [OF assms(2)])
qed

interpretation app: slot_io write_app_slot read_app_record app_bytes APP_RECORD_MAX_SIZE app_slot_name
proof
  fix A :: "('w, 'h) tee_api" and objs hobj sha S k bs
  assume laws: "storage_laws A objs hobj sha"
  show "hoare (\<lambda>w. objs w = S) (write_app_slot A k bs)
      (\<lambda>r w. slot_written S (app_slot_name k) bs r (objs w))"
    unfolding write_app_slot_def by (rule hoare_create_write [OF laws])
  show "hoare (\<lambda>w. objs w = S) (read_app_record A k) (\<lambda>r w. objs w = S \<and>
      slot_read APP_RECORD_MAX_SIZE S (app_slot_name k) (map_sum id app_bytes r))"
    unfolding read_app_record_def
    by (rule hoare_bind [OF read_app_slot_law [OF laws]], rule hoare_return)
qed (simp add: app_slot_name_def app_slot0_id_def app_slot1_id_def)

section \<open>Which slot is active\<close>

definition scan_app_spec :: "(bytes \<Rightarrow> bytes) \<Rightarrow> store \<Rightarrow> nat \<Rightarrow> app_scan \<Rightarrow> tee_error + app_scan" where
  "scan_app_spec sha S i sc =
     (case app_stored sha S (int i) of (res, st) \<Rightarrow>
      case res of
        Inl e \<Rightarrow>
          if e = ERROR_ITEM_NOT_FOUND then Inr sc
          else if e = ERROR_BAD_FORMAT \<or> e = ERROR_CORRUPT_OBJECT \<or> e = ERROR_SECURITY
          then Inr (app_seen i st sc) else Inl e
      | Inr _ \<Rightarrow> app_judge i st (sequence_spec S (app_component_id st)) (app_seen i st sc))"

definition app_spec :: "(bytes \<Rightarrow> bytes) \<Rightarrow> store \<Rightarrow> tee_error + app_state" where
  "app_spec sha S =
     (case scan_app_spec sha S 0 init_app_scan of Inl e \<Rightarrow> Inl e
      | Inr sc0 \<Rightarrow> (case scan_app_spec sha S 1 sc0 of Inl e \<Rightarrow> Inl e | Inr sc1 \<Rightarrow> select_app sc1))"

lemma keeps_scan_app_slot:
  assumes "fail_stop A objs hobj dead"
  shows "hoare dead (scan_app_slot A i sc) (\<lambda>_. dead)"
  unfolding scan_app_slot_def
  by (intro keeps_rules keeps_read_app_slot [OF assms] keeps_queries [OF assms])

lemma crash_scan_app_slot:
  assumes "storage_laws A objs hobj sha" and "fail_stop A objs hobj dead"
  shows "crash_hoare dead (\<lambda>w. objs w = S) (scan_app_slot A i sc)
     (\<lambda>r w. objs w = S \<and> (r = scan_app_spec sha S i sc \<or> r = Inl ERROR_OUT_OF_MEMORY \<and> no_memory A))"
  unfolding scan_app_slot_def
proof (rule crash_bind [OF crash_read_app_slot [OF assms]])
  fix p :: "(tee_error + unit) \<times> app_state"
  obtain res st where p: "p = (res, st)" by (cases p)
  have query: "crash_hoare dead (\<lambda>w. objs w = S)
      (do { q \<leftarrow> twep_acceptance_component_sequence A (app_component_id st);
            State_Monad.return (app_judge i st q (app_seen i st sc)) })
      (\<lambda>r w. objs w = S \<and> (r = app_judge i st (sequence_spec S (app_component_id st)) (app_seen i st sc) \<or>
         r = Inl ERROR_OUT_OF_MEMORY \<and> no_memory A))"
    by (rule crash_bind_result [OF crash_component_sequence [OF assms]]) (auto intro: crash_return keeps_return)
  show "crash_hoare dead (\<lambda>w. objs w = S \<and> (p = app_stored sha S (int i) \<or> fst p = Inl ERROR_OUT_OF_MEMORY \<and> no_memory A))
     (case p of (res, st) \<Rightarrow> case res of
       Inl e \<Rightarrow>
         if e = ERROR_ITEM_NOT_FOUND then success sc
         else if e = ERROR_BAD_FORMAT \<or> e = ERROR_CORRUPT_OBJECT \<or> e = ERROR_SECURITY
         then success (app_seen i st sc)
         else throw e
     | Inr _ \<Rightarrow> do {
         q \<leftarrow> twep_acceptance_component_sequence A (app_component_id st);
         State_Monad.return (app_judge i st q (app_seen i st sc)) })
     (\<lambda>r w. objs w = S \<and> (r = scan_app_spec sha S i sc \<or> r = Inl ERROR_OUT_OF_MEMORY \<and> no_memory A))"
  proof (cases "p = app_stored sha S (int i)")
    case True
    then have st: "app_stored sha S (int i) = (res, st)" using p by simp
    show ?thesis
      unfolding p prod.case scan_app_spec_def st
      by (cases res) (auto intro!: crash_return crash_conseq [OF query])
  next
    case False
    show ?thesis
      unfolding p prod.case
      by (cases res) (use False p in \<open>auto intro!: crash_return crash_False crash_keeps [OF query]\<close>)
  qed
qed

lemma keeps_load_active_app:
  assumes "fail_stop A objs hobj dead"
  shows "hoare dead (load_active_app A) (\<lambda>_. dead)"
  unfolding load_active_app_def by (intro keeps_rules keeps_scan_app_slot [OF assms])

lemma crash_load_active_app:
  assumes "storage_laws A objs hobj sha" and "fail_stop A objs hobj dead"
  shows "crash_hoare dead (\<lambda>w. objs w = S) (load_active_app A)
     (\<lambda>r w. objs w = S \<and> (r = app_spec sha S \<or> r = Inl ERROR_OUT_OF_MEMORY \<and> no_memory A))"
  unfolding load_active_app_def
proof (rule crash_bind_ok [OF crash_scan_app_slot [OF assms]])
  fix sc0
  show "crash_hoare dead (\<lambda>w. objs w = S \<and> (Inr sc0 = scan_app_spec sha S 0 init_app_scan \<or> Inr sc0 = Inl ERROR_OUT_OF_MEMORY \<and> no_memory A))
     (bind_ok (scan_app_slot A 1 sc0) (\<lambda>sc1. State_Monad.return (select_app sc1)))
     (\<lambda>r w. objs w = S \<and> (r = app_spec sha S \<or> r = Inl ERROR_OUT_OF_MEMORY \<and> no_memory A))"
    by (rule crash_conseq [OF crash_bind_ok [OF crash_frame [OF crash_scan_app_slot [OF assms],
            of _ "scan_app_spec sha S 0 init_app_scan = Inr sc0"] _ crash_return]])
      (auto simp: app_spec_def split: sum.split)
qed (auto simp: app_spec_def split: sum.splits)

lemma load_active_app_law:
  assumes "storage_laws A objs hobj sha"
  shows "hoare (\<lambda>w. objs w = S) (load_active_app A) (\<lambda>_ w. objs w = S)"
proof -
  have rd: "hoare (\<lambda>w. objs w = S) (read_app_slot A k) (\<lambda>_ w. objs w = S)" for k
    by (rule hoare_post [OF read_app_slot_law [OF assms]]) simp
  have "hoare (\<lambda>w. objs w = S) (scan_app_slot A i sc) (\<lambda>_ w. objs w = S)" for i sc
    unfolding scan_app_slot_def
    by (rule hoare_bind [OF rd]) (auto intro!: wp hoare_bind [OF hoare_queries(3) [OF assms]] split: prod.split)
  then show ?thesis
    unfolding load_active_app_def by (intro hoare_bind_ok) (auto intro: hoare_return)
qed

section \<open>The record\<close>

lemma length_app_record_magic [simp]: "length app_record_magic = 8"
  by (simp add: app_record_magic_def)

lemma length_tag: "length app_component_tag = 11"
  by (simp add: app_component_tag_def)

lemma byte_le: "unat (x :: byte) \<le> 255"
proof -
  have "unat x < 2 ^ LENGTH(8)" by (rule unsigned_less)
  then show ?thesis by simp
qed

lemma valid_id_length:
  assumes "twep_app_component_id_is_valid i"
  shows "i \<noteq> []" and "length i \<le> 270"
proof -
  consider "length i = 14 + unat (i ! 13 - 0x40)" | "length i = 15 + unat (i ! 14)"
    using assms by (auto simp: twep_app_component_id_is_valid_def Let_def length_tag split: if_splits)
  then show "length i \<le> 270"
    using byte_le [of "i ! 13 - 0x40"] byte_le [of "i ! 14"] by cases auto
  show "i \<noteq> []" using assms by (auto simp: twep_app_component_id_is_valid_def Let_def)
qed

definition app_of_record :: "int \<Rightarrow> u64 \<Rightarrow> u64 \<Rightarrow> bytes \<Rightarrow> bytes \<Rightarrow> bytes \<Rightarrow> app_state" where
  "app_of_record t gen v i wasm dg = \<lparr>app_raw = Some (app_record gen v i wasm dg), app_generation = gen,
     app_sequence = v, app_component_id = i, app_digest = dg, app_wasm = wasm, app_slot = t\<rparr>"

lemma length_app_record: "length dg = 32 \<Longrightarrow> length (app_record gen v i wasm dg) = 68 + length i + length wasm"
  by (simp add: app_record_def)

lemma app_record_fields:
  assumes "length dg = 32" and "r = app_record gen v i wasm dg"
  shows "take 8 r = app_record_magic" "read_be64 (drop 8 r) = gen" "read_be64 (drop 16 r) = v"
    "read_be32 (drop 24 r) = of_nat (length i)" "read_be32 (drop 28 r) = of_nat (length wasm)"
    "take 32 (drop 32 r) = dg" "drop 68 r = i @ wasm" "drop (68 + length i) r = wasm"
  using assms by (simp_all add: app_record_def read_write_be64 read_write_be32)

lemma app_parse_record:
  assumes i: "twep_app_component_id_is_valid i" and w: "wasm \<noteq> []" "length wasm \<le> TWEP_PROTECTED_APP_MAX_SIZE"
    and v: "v \<noteq> 0" "gen \<noteq> 0" and dg: "length (sha wasm) = 32" and t: "app_slot st = t"
    and r: "app_raw st = Some (app_record gen v i wasm (sha wasm))"
  shows "app_parse sha st = (Inr (), app_of_record t gen v i wasm (sha wasm))"
proof -
  note f = app_record_fields [OF dg refl]
  have ul: "unat (of_nat (length i) :: u32) = length i" "unat (of_nat (length wasm) :: u32) = length wasm"
    using valid_id_length [OF i] w(2) by (simp_all add: unat_of_nat TWEP_PROTECTED_APP_MAX_SIZE_def)
  show ?thesis
    unfolding app_parse_def r option.case Let_def
    using r i w v t dg valid_id_length(1) [OF i] length_app_record [OF dg, of gen v i wasm]
    by (cases st) (simp add: f ul APP_RECORD_HEADER_SIZE_def app_of_record_def mem_compare_eq0 not_less)
qed

lemma app_stored_record:
  assumes i: "twep_app_component_id_is_valid i" and w: "wasm \<noteq> []" "length wasm \<le> TWEP_PROTECTED_APP_MAX_SIZE"
    and v: "v \<noteq> 0" "gen \<noteq> 0" and dg: "length (sha wasm) = 32"
    and S: "S (app_slot_name t) = Some (app_record gen v i wasm (sha wasm))"
  shows "app_stored sha S t = (Inr (), app_of_record t gen v i wasm (sha wasm))"
proof -
  have "length (app_record gen v i wasm (sha wasm)) \<le> APP_RECORD_MAX_SIZE"
    "app_record gen v i wasm (sha wasm) \<noteq> []"
    using length_app_record [OF dg, of gen v i wasm] valid_id_length(2) [OF i] w(2)
    by (auto simp: APP_RECORD_MAX_SIZE_def)
  then show ?thesis
    unfolding app_stored_def S using app_parse_record [where sha = sha and wasm = wasm, OF i w v dg] by (simp add: not_less)
qed

section \<open>Selection by generation and acceptance\<close>

abbreviation app_gen_of :: "(tee_error + unit) \<times> app_state \<Rightarrow> u64" where
  "app_gen_of p \<equiv> app_generation (snd p)"

definition app_live :: "acceptance \<Rightarrow> (tee_error + unit) \<times> app_state \<Rightarrow> bool" where
  "app_live a p \<longleftrightarrow> fst p = Inr () \<and>
     acc_seqs a (app_component_id (snd p)) = Some (app_sequence (snd p)) \<and> app_gen_of p \<le> acc_generation a"

definition app_pick :: "(tee_error + unit) \<times> app_state \<Rightarrow> (tee_error + unit) \<times> app_state \<Rightarrow> tee_error + app_state" where
  "app_pick p other =
     (if app_raw (snd other) \<noteq> None \<and> app_gen_of other = app_gen_of p \<and> app_raw (snd other) \<noteq> app_raw (snd p)
      then Inl ERROR_SECURITY else Inr (snd p))"

definition resolve_app ::
  "acceptance \<Rightarrow> (tee_error + unit) \<times> app_state \<Rightarrow> (tee_error + unit) \<times> app_state \<Rightarrow> tee_error + app_state" where
  "resolve_app a p0 p1 =
     (if app_live a p0 \<and> (app_live a p1 \<longrightarrow> app_gen_of p1 \<le> app_gen_of p0) then app_pick p0 p1
      else if app_live a p1 then app_pick p1 p0
      else Inl (if fst p0 = Inl ERROR_ITEM_NOT_FOUND \<and> fst p1 = Inl ERROR_ITEM_NOT_FOUND
                then ERROR_ITEM_NOT_FOUND else ERROR_CORRUPT_OBJECT))"

lemma app_parse_cases: "app_parse sha st = (res, st') \<Longrightarrow>
    app_raw st' = app_raw st \<and> app_slot st' = app_slot st \<and>
    (res = Inl ERROR_BAD_FORMAT \<or> res = Inl ERROR_SECURITY \<or>
     res = Inr () \<and> twep_app_component_id_is_valid (app_component_id st') \<and> app_raw st \<noteq> None)"
  by (cases "app_raw st") (auto simp: app_parse_def Let_def split: if_splits)

lemma app_stored_cases:
  assumes "app_stored sha S k = (res, st)"
  obtains "res = Inl ERROR_ITEM_NOT_FOUND" "st = zero_app"
  | "res = Inl ERROR_BAD_FORMAT \<or> res = Inl ERROR_SECURITY"
  | "res = Inr ()" "app_component_id st \<noteq> []" "app_raw st \<noteq> None" "app_slot st = k"
  using assms app_parse_cases [of sha "zero_app\<lparr>app_raw := Some _, app_slot := k\<rparr>" res st] valid_id_length(1)
  by (fastforce simp: app_stored_def split: option.splits if_splits)

lemma app_agree_iff: "app_raw a \<noteq> None \<Longrightarrow> app_raw b \<noteq> None \<Longrightarrow> app_records_agree a b \<longleftrightarrow> app_raw a = app_raw b"
  by (auto simp: app_records_agree_def mem_compare_eq0)

lemma scan_app_live:
  assumes "abs_load S = Some a" and "app_stored sha S (int i) = p"
  shows "scan_app_spec sha S i sc =
    Inr (if fst p = Inl ERROR_ITEM_NOT_FOUND then sc
         else if app_live a p \<and> (app_selected sc < 0 \<or>
             app_gen_of p > app_generation ((app_slots (app_seen i (snd p) sc)) ! nat (app_selected sc)))
         then (app_seen i (snd p) sc)\<lparr>app_selected := int i\<rparr> else app_seen i (snd p) sc)"
proof -
  obtain res st where p: "p = (res, st)" by (cases p)
  with assms(2) have st: "app_stored sha S (int i) = (res, st)" by simp
  from st show ?thesis
  proof (cases rule: app_stored_cases)
    case 3
    then show ?thesis
      using sequence_spec_abs [OF assms(1) 3(2)]
      by (auto simp: p scan_app_spec_def st app_judge_def app_live_def app_seen_def split: option.splits)
  qed (auto simp: p scan_app_spec_def st app_live_def)
qed

lemma app_spec_resolve:
  assumes "abs_load S = Some a"
  shows "app_spec sha S = resolve_app a (app_stored sha S 0) (app_stored sha S 1)"
proof -
  obtain r0 st0 r1 st1 where p: "app_stored sha S 0 = (r0, st0)" "app_stored sha S 1 = (r1, st1)"
    by (meson surj_pair)
  then have "app_stored sha S (int 0) = (r0, st0)" "app_stored sha S (int 1) = (r1, st1)" by simp_all
  note scan = this [THEN scan_app_live [OF assms], unfolded One_nat_def]
  have nf: "st0 = zero_app" if "r0 = Inl ERROR_ITEM_NOT_FOUND" using p(1) that by (cases rule: app_stored_cases) auto
  have nf1: "st1 = zero_app" if "r1 = Inl ERROR_ITEM_NOT_FOUND" using p(2) that by (cases rule: app_stored_cases) auto
  have live: "app_raw st0 \<noteq> None" if "app_live a (r0, st0)"
    using p(1) by (cases rule: app_stored_cases) (use that in \<open>auto simp: app_live_def\<close>)
  have live1: "app_raw st1 \<noteq> None" if "app_live a (r1, st1)"
    using p(2) by (cases rule: app_stored_cases) (use that in \<open>auto simp: app_live_def\<close>)
  have dead: "\<not> app_live a (Inl e, st)" for e st by (simp add: app_live_def)
  have z: "app_raw zero_app = None" by (simp add: zero_app_def)
  have agree: "app_live a (r0, st0) \<or> app_live a (r1, st1) \<Longrightarrow> app_raw st0 \<noteq> None \<Longrightarrow> app_raw st1 \<noteq> None \<Longrightarrow>
      app_records_agree st0 st1 \<longleftrightarrow> app_raw st0 = app_raw st1"
    by (simp add: app_agree_iff)
  note sel = app_spec_def scan init_app_scan_def app_seen_def select_app_def resolve_app_def app_pick_def p Let_def
  consider "app_live a (r0, st0)" "app_live a (r1, st1)" | "app_live a (r0, st0)" "\<not> app_live a (r1, st1)"
    | "\<not> app_live a (r0, st0)" "app_live a (r1, st1)" | "\<not> app_live a (r0, st0)" "\<not> app_live a (r1, st1)" by blast
  then show ?thesis
  proof cases
    case 1
    then have "r0 \<noteq> Inl ERROR_ITEM_NOT_FOUND" "r1 \<noteq> Inl ERROR_ITEM_NOT_FOUND" using dead by auto
    moreover have "app_raw st0 \<noteq> None" "app_raw st1 \<noteq> None" using 1 live live1 by auto
    moreover from this have "app_records_agree st0 st1 \<longleftrightarrow> app_raw st0 = app_raw st1" by (simp add: app_agree_iff)
    ultimately show ?thesis
      using 1 by (cases "app_generation st0 < app_generation st1") (auto simp: sel not_le not_less)
  next
    case 2
    then have "r0 \<noteq> Inl ERROR_ITEM_NOT_FOUND" using dead by auto
    with 2 live agree nf1 z show ?thesis by (auto simp: sel)
  next
    case 3
    then have "r1 \<noteq> Inl ERROR_ITEM_NOT_FOUND" using dead by auto
    with 3 live1 agree nf z show ?thesis by (auto simp: sel)
  next
    case 4
    then show ?thesis by (auto simp: sel)
  qed
qed

section \<open>Commits\<close>

definition app_target_ok :: "(bytes \<Rightarrow> bytes) \<Rightarrow> store \<Rightarrow> bytes \<Rightarrow> u64 \<Rightarrow> int \<Rightarrow> bool" where
  "app_target_ok sha S i v t \<longleftrightarrow>
     (case sequence_spec S i of Inl e \<Rightarrow> e = ERROR_ITEM_NOT_FOUND | Inr (_, s) \<Rightarrow> s < v) \<and>
     (case app_spec sha S of
        Inr act \<Rightarrow> t = (if app_slot act = 0 then 1 else 0)
      | Inl e \<Rightarrow> t = 0 \<and> (e = ERROR_ITEM_NOT_FOUND \<or> e = ERROR_CORRUPT_OBJECT))"

lemma hoare_app_target:
  assumes "storage_laws A objs hobj sha" and "fail_stop A objs hobj dead"
  shows "hoare (\<lambda>w. objs w = S) (app_target A i v)
     (\<lambda>r w. objs w = S \<and> (dead w \<or> (\<forall>t. r = Inr t \<longrightarrow> app_target_ok sha S i v t)))"
proof (rule crash_to_hoare)
  have slot: "hoare (\<lambda>w. objs w = S) (app_target_slot A) (\<lambda>r w. objs w = S)"
    unfolding app_target_slot_def
    by (rule hoare_bind [OF load_active_app_law [OF assms(1)]]) (auto intro!: hoare_return)
  show "hoare (\<lambda>w. objs w = S) (app_target A i v) (\<lambda>r w. objs w = S)"
    unfolding app_target_def
    by (rule hoare_bind [OF hoare_queries(3) [OF assms(1)]]) (auto split: sum.split intro!: wp slot)
  have keeps: "hoare dead (app_target_slot A) (\<lambda>_. dead)"
    unfolding app_target_slot_def by (intro keeps_rules keeps_load_active_app [OF assms(2)])
  have cslot: "crash_hoare dead (\<lambda>w. objs w = S) (app_target_slot A) (\<lambda>r w. \<forall>t. r = Inr t \<longrightarrow>
      (case app_spec sha S of
        Inr act \<Rightarrow> t = (if app_slot act = 0 then 1 else 0)
      | Inl e \<Rightarrow> t = 0 \<and> (e = ERROR_ITEM_NOT_FOUND \<or> e = ERROR_CORRUPT_OBJECT)))"
    unfolding app_target_slot_def
    by (rule crash_bind [OF crash_load_active_app [OF assms]], rule crash_return)
      (auto split: sum.splits if_splits)
  show "crash_hoare dead (\<lambda>w. objs w = S) (app_target A i v) (\<lambda>r w. \<forall>t. r = Inr t \<longrightarrow> app_target_ok sha S i v t)"
    unfolding app_target_def
  proof (rule crash_bind_result [OF crash_component_sequence [OF assms]])
    show "crash_hoare dead (\<lambda>w. objs w = S)
       (case sequence_spec S i of
         Inr (_, prior_sequence) \<Rightarrow>
           if v \<le> prior_sequence then throw ERROR_ACCESS_CONFLICT else app_target_slot A
       | Inl e \<Rightarrow> if e \<noteq> ERROR_ITEM_NOT_FOUND then throw e else app_target_slot A)
       (\<lambda>r w. \<forall>t. r = Inr t \<longrightarrow> app_target_ok sha S i v t)"
      unfolding app_target_ok_def
      by (cases "sequence_spec S i") (auto simp: not_le intro!: crash_return crash_conseq [OF cslot] split: prod.split sum.splits)
  qed (intro keeps_rules keeps)
qed

text \<open>The application that is active: its component identifier and its binary.\<close>

definition app_of :: "(bytes \<Rightarrow> bytes) \<Rightarrow> store \<Rightarrow> (bytes \<times> bytes) option" where
  "app_of sha S = (case app_spec sha S of Inl _ \<Rightarrow> None | Inr act \<Rightarrow> Some (app_component_id act, app_wasm act))"

text \<open>
  The invariant of the pair: the selection does not fail for a reason of its own, and while no
  application is active the record in slot 1 is not ahead of the acceptance state.
\<close>

definition app_inv :: "(bytes \<Rightarrow> bytes) \<Rightarrow> store \<Rightarrow> acceptance \<Rightarrow> bool" where
  "app_inv sha S a =
     (case app_spec sha S of
        Inr _ \<Rightarrow> True
      | Inl e \<Rightarrow> (e = ERROR_ITEM_NOT_FOUND \<or> e = ERROR_CORRUPT_OBJECT) \<and>
                 app_gen_of (app_stored sha S 1) \<le> acc_generation a)"

lemma app_stored_cong: "S (app_slot_name k) = T (app_slot_name k) \<Longrightarrow> app_stored sha S k = app_stored sha T k"
  by (simp add: app_stored_def)

lemma app_slot_name_inj: "k = 0 \<or> k = 1 \<Longrightarrow> app_slot_name (1 - k) \<noteq> app_slot_name k"
  by (auto simp: app_slot_name_def app_slot0_id_def app_slot1_id_def)

lemma app_slot_names: "app_slot_name k \<notin> {slot0_id, slot1_id, legacy_id}"
  by (simp add: app_slot_name_def app_slot0_id_def app_slot1_id_def slot0_id_def slot1_id_def legacy_id_def)

text \<open>The application that is active sits in its slot and is accepted.\<close>

lemma app_spec_active:
  assumes "abs_load S = Some a" and "app_spec sha S = Inr act"
  obtains k where "k = 0 \<or> k = 1" "app_slot act = k" "snd (app_stored sha S k) = act"
    "app_live a (app_stored sha S k)"
proof -
  have slot: "app_slot (snd (app_stored sha S k)) = k" if "app_live a (app_stored sha S k)" for k
  proof -
    obtain r st where p: "app_stored sha S k = (r, st)" by (meson surj_pair)
    then show ?thesis by (cases rule: app_stored_cases) (use that p in \<open>auto simp: app_live_def\<close>)
  qed
  have "resolve_app a (app_stored sha S 0) (app_stored sha S 1) = Inr act"
    using assms app_spec_resolve by simp
  then have "app_live a (app_stored sha S 0) \<and> snd (app_stored sha S 0) = act \<or>
      app_live a (app_stored sha S 1) \<and> snd (app_stored sha S 1) = act"
    by (auto simp: resolve_app_def app_pick_def split: if_splits)
  then show thesis using that slot by metis
qed

lemma app_spec_inactive:
  assumes "abs_load S = Some a" and "app_spec sha S = Inl e" and "e \<noteq> ERROR_SECURITY"
  shows "\<not> app_live a (app_stored sha S 0)" and "\<not> app_live a (app_stored sha S 1)"
  using assms app_spec_resolve [OF assms(1), of sha]
  by (auto simp: resolve_app_def app_pick_def split: if_splits)

lemma resolve_app_one:
  assumes "app_live a p" and "\<not> app_live a q \<or> app_gen_of q < app_gen_of p"
    and "app_raw (snd q) = None \<or> app_gen_of q \<noteq> app_gen_of p"
  shows "resolve_app a p q = Inr (snd p)" and "resolve_app a q p = Inr (snd p)"
  using assms by (auto simp: resolve_app_def app_pick_def)

lemma app_kept:
  assumes ok: "app_target_ok sha S i v t" and inv: "app_inv sha S a"
    and load: "abs_load S = Some a" "abs_load S' = Some a"
    and frame: "\<And>nm. nm \<noteq> app_slot_name t \<Longrightarrow> nm \<noteq> slot0_id \<Longrightarrow> nm \<noteq> slot1_id \<Longrightarrow> S' nm = S nm"
    and new: "\<not> app_live a (app_stored sha S' t)"
      "app_raw (snd (app_stored sha S' t)) = None \<or> app_gen_of (app_stored sha S' t) > acc_generation a"
  shows "app_of sha S' = app_of sha S \<and> app_inv sha S' a"
proof -
  have t: "t = 0 \<or> t = 1" using ok by (auto simp: app_target_ok_def split: sum.splits)
  have other: "app_stored sha S' (1 - t) = app_stored sha S (1 - t)"
    by (rule app_stored_cong, rule frame) (use app_slot_name_inj [OF t] app_slot_names [of "1 - t"] in auto)
  show ?thesis
  proof (cases "app_spec sha S")
    case (Inr act)
    from load(1) Inr obtain k where k: "k = 0 \<or> k = 1" "app_slot act = k" "snd (app_stored sha S k) = act"
      and live: "app_live a (app_stored sha S k)" by (rule app_spec_active)
    have tk: "1 - t = k" using ok k Inr by (auto simp: app_target_ok_def)
    have le: "app_gen_of (app_stored sha S k) \<le> acc_generation a" using live by (simp add: app_live_def)
    have "app_raw (snd (app_stored sha S' t)) = None \<or>
        app_gen_of (app_stored sha S' t) \<noteq> app_gen_of (app_stored sha S k)"
      using new(2) le by auto
    from resolve_app_one [OF live _ this] new(1)
    have "app_spec sha S' = Inr act"
      using app_spec_resolve [OF load(2), of sha] t tk other k(3) by auto
    with Inr show ?thesis by (simp add: app_of_def app_inv_def)
  next
    case (Inl e)
    with inv have e: "e = ERROR_ITEM_NOT_FOUND \<or> e = ERROR_CORRUPT_OBJECT" by (simp add: app_inv_def)
    then have "\<not> app_live a (app_stored sha S 1)" using app_spec_inactive(2) [OF load(1) Inl] by auto
    moreover have t0: "t = 0" using ok Inl by (simp add: app_target_ok_def)
    ultimately have "\<not> app_live a (app_stored sha S' 0)" "\<not> app_live a (app_stored sha S' 1)"
      using new(1) other by auto
    then show ?thesis
      using app_spec_resolve [OF load(2), of sha] Inl inv other t0
      by (auto simp: resolve_app_def app_of_def app_inv_def)
  qed
qed

lemma app_activated:
  assumes ok: "app_target_ok sha S i v t" and inv: "app_inv sha S a" and load0: "abs_load S = Some a"
    and load: "abs_load S' = Some (commit_spec a q i v)"
    and frame: "\<And>nm. nm \<noteq> app_slot_name t \<Longrightarrow> nm \<noteq> slot0_id \<Longrightarrow> nm \<noteq> slot1_id \<Longrightarrow> S' nm = S nm"
    and gen: "acc_generation a \<noteq> -1"
    and new: "app_stored sha S' t = (Inr (), rec)" "app_sequence rec = v" "app_component_id rec = i"
      "app_generation rec = acc_generation a + 1"
  shows "app_of sha S' = Some (i, app_wasm rec) \<and> app_inv sha S' (commit_spec a q i v)"
proof -
  have lt: "acc_generation a < acc_generation a + 1" using gen by (rule word_less_succ)
  have t: "t = 0 \<or> t = 1" using ok by (auto simp: app_target_ok_def split: sum.splits)
  have other: "app_stored sha S' (1 - t) = app_stored sha S (1 - t)"
    by (rule app_stored_cong, rule frame) (use app_slot_name_inj [OF t] app_slot_names [of "1 - t"] in auto)
  have "app_gen_of (app_stored sha S (1 - t)) \<le> acc_generation a"
  proof (cases "app_spec sha S")
    case (Inr act)
    from load0 Inr obtain k where k: "k = 0 \<or> k = 1" "app_slot act = k"
      and live: "app_live a (app_stored sha S k)" by (rule app_spec_active)
    then have "1 - t = k" using ok Inr by (auto simp: app_target_ok_def)
    with live show ?thesis by (simp add: app_live_def)
  next
    case (Inl e)
    then show ?thesis using ok inv by (simp add: app_target_ok_def app_inv_def)
  qed
  with lt have less: "app_gen_of (app_stored sha S' (1 - t)) < app_gen_of (app_stored sha S' t)"
    by (simp add: other new)
  have "app_live (commit_spec a q i v) (app_stored sha S' t)"
    by (simp add: app_live_def new commit_spec_def)
  from resolve_app_one [OF this disjI2 [OF less] disjI2 [OF less_imp_neq [OF less]]]
  have "app_spec sha S' = Inr rec"
    using app_spec_resolve [OF load, of sha] t new(1) by auto
  with new show ?thesis by (simp add: app_of_def app_inv_def)
qed

definition app_commit_result ::
  "(bytes \<Rightarrow> bytes) \<Rightarrow> store \<Rightarrow> acceptance \<Rightarrow> bytes \<Rightarrow> bytes \<Rightarrow> u64 \<Rightarrow> bytes \<Rightarrow> tee_error + u64 \<Rightarrow> store \<Rightarrow> bool" where
  "app_commit_result sha S a q i v wasm r S' =
     (let old = abs_load S' = Some a \<and> app_of sha S' = app_of sha S \<and> app_inv sha S' a;
          new = abs_load S' = Some (commit_spec a q i v) \<and> app_of sha S' = Some (i, wasm) \<and>
                app_inv sha S' (commit_spec a q i v) in
      case r of Inr g \<Rightarrow> g = acc_generation a + 1 \<and> new
      | Inl e \<Rightarrow> old \<or> new \<or> (S slot0_id = None \<and> S slot1_id = None \<and> S' slot0_id = Some []))"

lemma load_app_update: "load_spec (S(app_slot_name t := x)) = load_spec S"
  by (rule load_spec_cong) (use app_slot_names [of t] in auto)

lemma abs_load_app_update: "abs_load (S(app_slot_name t := x)) = abs_load S"
  by (simp add: abs_load_def load_app_update)

lemma app_result_torn:
  assumes "app_target_ok sha S i v t" and "app_inv sha S a" and "abs_load S = Some a"
    and "slot_written S (app_slot_name t) out (Inl e) S'"
  shows "app_commit_result sha S a q i v wasm (Inl e') S'"
proof -
  have upd: "abs_load S' = Some a \<and> app_of sha S' = app_of sha S \<and> app_inv sha S' a"
    if S': "S' = S(app_slot_name t := x)" and x: "x = None \<or> x = Some []" for x
  proof -
    have load: "abs_load S' = Some a" unfolding S' abs_load_app_update by (rule assms)
    have st: "app_raw (snd (app_stored sha S' t)) = None" "\<not> app_live a (app_stored sha S' t)"
      using x by (auto simp: S' app_stored_def zero_app_def app_live_def)
    have "app_of sha S' = app_of sha S \<and> app_inv sha S' a"
      by (rule app_kept [OF assms(1-3) load _ st(2) disjI1 [OF st(1)]]) (simp add: S')
    with load show ?thesis by simp
  qed
  consider "S' = S" | "S' = S(app_slot_name t := Some [])" | "S' = S(app_slot_name t := None)"
    using assms(4) by (auto simp: slot_written_def)
  then have "abs_load S' = Some a \<and> app_of sha S' = app_of sha S \<and> app_inv sha S' a"
    by cases (use assms upd in auto)
  then show ?thesis by (simp add: app_commit_result_def Let_def)
qed

lemma app_result_final:
  assumes "app_target_ok sha S i v t" and "app_inv sha S a" and "abs_load S = Some a"
    and gen: "acc_generation a \<noteq> -1"
    and st: "app_stored sha S1 t = (Inr (), rec)" "app_sequence rec = v" "app_component_id rec = i"
      "app_generation rec = acc_generation a + 1" "app_wasm rec = wasm"
    and S1: "S1 = S(app_slot_name t := x)"
    and res: "commit_result S1 a q i v r S'"
    and frame: "\<And>nm. nm \<noteq> slot0_id \<Longrightarrow> nm \<noteq> slot1_id \<Longrightarrow> S' nm = S1 nm"
  shows "app_commit_result sha S a q i v wasm r S'"
proof -
  have names: "app_slot_name t \<noteq> slot0_id" "app_slot_name t \<noteq> slot1_id"
    using app_slot_names [of t] by auto
  have st': "app_stored sha S' t = (Inr (), rec)"
    using st(1) app_stored_cong [of S' t S1] frame [OF names] by simp
  have fr: "S' nm = S nm" if "nm \<noteq> app_slot_name t" "nm \<noteq> slot0_id" "nm \<noteq> slot1_id" for nm
    using frame [of nm] that by (simp add: S1)
  have lt: "acc_generation a < app_generation rec" using gen st(4) word_less_succ(1) by simp
  have old: "app_of sha S' = app_of sha S \<and> app_inv sha S' a" if "abs_load S' = Some a"
    by (rule app_kept [OF assms(1-3) that fr]) (use lt in \<open>auto simp: st' app_live_def\<close>)
  have new: "app_of sha S' = Some (i, wasm) \<and> app_inv sha S' (commit_spec a q i v)"
    if "abs_load S' = Some (commit_spec a q i v)"
    using app_activated [OF assms(1-3) that fr gen st' st(2-4)] st(5) by simp
  have torn: "S slot0_id = None \<and> S slot1_id = None \<and> S' slot0_id = Some []" if "first_commit_torn S1 S'"
    using that names by (auto simp: first_commit_torn_def S1)
  from res show ?thesis
    using old new torn by (auto simp: commit_result_def app_commit_result_def Let_def split: sum.splits)
qed

lemma hoare_app_write:
  assumes laws: "storage_laws A objs hobj sha" and load: "load_spec S = Inr cur" and q: "length q = 32"
    and ok: "app_target_ok sha S i v t" and inv: "app_inv sha S (abs_of cur)"
    and i: "twep_app_component_id_is_valid i" and w: "wasm \<noteq> []" "length wasm \<le> TWEP_PROTECTED_APP_MAX_SIZE"
    and d: "length (sha wasm) = 32" and v: "v \<noteq> 0" "generation cur \<noteq> -1"
    and out: "out = app_record (generation cur + 1) v i wasm (sha wasm)"
  shows "hoare (\<lambda>w. objs w = S)
     (bind_ok (write_app_slot A t out) (\<lambda>_. do {
        res \<leftarrow> read_app_record A t;
        case res of Inl _ \<Rightarrow> throw ERROR_CORRUPT_OBJECT
        | Inr verify \<Rightarrow>
          if length (app_bytes verify) \<noteq> length out \<or> mem_compare (app_bytes verify) out \<noteq> 0
          then throw ERROR_CORRUPT_OBJECT
          else twep_acceptance_commit A q i v (generation cur) }))
     (\<lambda>r w. app_commit_result sha S (abs_of cur) q i v wasm r (objs w))"
proof (rule app.write_verify [OF laws])
  let ?S = "S(app_slot_name t := Some out)"
  have abs: "abs_load S = Some (abs_of cur)" using load by (rule abs_load_Inr)
  have nz: "generation cur + 1 \<noteq> 0" by (rule word_less_succ) (rule v)
  have st: "app_stored sha ?S t = (Inr (), app_of_record t (generation cur + 1) v i wasm (sha wasm))"
    by (rule app_stored_record) (use i w v d nz out in auto)
  show "app_commit_result sha S (abs_of cur) q i v wasm (Inl e) (objs w)"
    if "slot_written S (app_slot_name t) out (Inl e) (objs w)" for e w
    by (rule app_result_torn [OF ok inv abs that])
  fix r w assume S1: "objs w = ?S"
  have load1: "load_spec ?S = Inr cur" using load by (simp only: load_app_update)
  have fin: "app_commit_result sha S (abs_of cur) q i v wasm r' S'"
    if "commit_result ?S (abs_of cur) q i v r' S'"
      "\<And>nm. nm \<noteq> slot0_id \<Longrightarrow> nm \<noteq> slot1_id \<Longrightarrow> S' nm = ?S nm" for r' S'
    by (rule app_result_final [OF ok inv abs _ st _ _ _ _ refl that])
      (simp_all add: app_of_record_def abs_of_def v)
  have err: "app_commit_result sha S (abs_of cur) q i v wasm (Inl e) ?S" for e
    by (rule fin) (use abs_load_Inr [OF load1] in \<open>simp_all add: commit_result_def\<close>)
  have com: "hoare (\<lambda>w'. w' = w) (twep_acceptance_commit A q i v (generation cur))
      (\<lambda>r w. app_commit_result sha S (abs_of cur) q i v wasm r (objs w))"
  proof (rule hoareI)
    fix w0 r' w' assume w0: "w0 = w"
      and run: "run_state (twep_acceptance_commit A q i v (generation cur)) w0 = (r', w')"
    show "app_commit_result sha S (abs_of cur) q i v wasm r' (objs w')"
    proof (rule fin)
      show "commit_result ?S (abs_of cur) q i v r' (objs w')"
        using hoareD [OF hoare_commit [OF laws load1 q] _ run] S1 w0 by simp
      show "objs w' nm = ?S nm" if "nm \<noteq> slot0_id" "nm \<noteq> slot1_id" for nm
        using hoareD [OF hoare_commit_frame [OF laws that] _ run] S1 w0 by simp
    qed
  qed
  show "hoare (\<lambda>w'. w' = w) (case r of Inl _ \<Rightarrow> throw ERROR_CORRUPT_OBJECT
        | Inr verify \<Rightarrow>
          if length (app_bytes verify) \<noteq> length out \<or> mem_compare (app_bytes verify) out \<noteq> 0
          then throw ERROR_CORRUPT_OBJECT
          else twep_acceptance_commit A q i v (generation cur))
      (\<lambda>r w. app_commit_result sha S (abs_of cur) q i v wasm r (objs w))"
    using com err S1 by (auto split: sum.split intro!: hoare_return)
qed

text \<open>An identifier is the encoding of its command: the array header, the tag and the command.\<close>

definition app_component_id_of :: "bytes \<Rightarrow> bytes" where
  "app_component_id_of command =
     [0x82, 0x4b] @ app_component_tag @
     (if length command < 24 then [0x40 + of_nat (length command)] else [0x58, of_nat (length command)]) @ command"

lemma app_component_id_valid:
  assumes "command \<noteq> []" and "length command \<le> 255" and "0 \<notin> set command"
  shows "twep_app_component_id_is_valid (app_component_id_of command)"
proof -
  have n: "0 < length command" using assms(1) by simp
  have "0x41 \<le> (0x40 + of_nat (length command) :: byte) \<and> (0x40 + of_nat (length command) :: byte) \<le> 0x57"
    if "length command < 24"
    using that n by (simp add: word_le_nat_alt unat_word_ariths unat_of_nat Suc_le_eq)
  moreover have "24 \<le> (of_nat (length command) :: byte)" if "\<not> length command < 24"
    using that assms(2) by (simp add: word_le_nat_alt unat_of_nat)
  ultimately show ?thesis
    using assms n
    by (auto simp: twep_app_component_id_is_valid_def app_component_id_of_def length_tag nth_append
        mem_compare_eq0 unat_of_nat Let_def list_all_iff)
qed

lemma app_component_id_prefix:
  assumes "13 < length i" and "i ! 0 = 0x82" and "i ! 1 = 0x4b" and "take 11 (drop 2 i) = app_component_tag"
  shows "i = [0x82, 0x4b] @ app_component_tag @ drop 13 i"
proof -
  have "i = take 2 i @ take 11 (drop 2 i) @ drop 13 i"
    using append_take_drop_id [of 11 "drop 2 i"] append_take_drop_id [of 2 i] by simp
  moreover have "take 2 i = [0x82, 0x4b]"
    using assms(1-3) by (cases i; cases "tl i") auto
  ultimately show ?thesis using assms(4) by simp
qed

lemma app_component_id_shape:
  assumes "twep_app_component_id_is_valid i"
  shows "\<exists>command. i = app_component_id_of command \<and> command \<noteq> [] \<and> length command \<le> 255 \<and> 0 \<notin> set command"
proof -
  note v = assms [unfolded twep_app_component_id_is_valid_def Let_def length_tag]
  have h: "13 < length i" "i ! 0 = 0x82" "i ! 1 = 0x4b" "take 11 (drop 2 i) = app_component_tag"
    using v by (auto simp: mem_compare_eq0 length_tag split: if_splits)
  note eq = app_component_id_prefix [OF h]
  consider (short) "i ! 13 \<ge> 0x41" "i ! 13 \<le> 0x57" "14 + unat (i ! 13 - 0x40) = length i" "0 \<notin> set (drop 14 i)"
    | (long) "i ! 13 = 0x58" "14 < length i" "i ! 14 \<ge> 24" "15 + unat (i ! 14) = length i" "0 \<notin> set (drop 15 i)"
    using v by (auto simp: list_all_iff split: if_splits)
  then show ?thesis
  proof cases
    case short
    have d: "drop 13 i = i ! 13 # drop 14 i" using Cons_nth_drop_Suc [OF h(1)] by simp
    have "unat (i ! 13) \<ge> 65" "unat (i ! 13) \<le> 87" using short(1,2) by (simp_all add: word_le_nat_alt)
    then have u: "unat (i ! 13 - 0x40) = unat (i ! 13) - 64" by (subst unat_sub) (simp_all add: word_le_nat_alt)
    have "length (drop 14 i) = unat (i ! 13 - 0x40)" using short(3) by simp
    then have "0x40 + of_nat (length (drop 14 i)) = i ! 13" by simp
    then show ?thesis
      using eq d short u \<open>unat (i ! 13) \<ge> 65\<close> \<open>unat (i ! 13) \<le> 87\<close>
      by (intro exI [of _ "drop 14 i"]) (auto simp: app_component_id_of_def)
  next
    case long
    have "drop 13 i = i ! 13 # i ! 14 # drop 15 i"
      using Cons_nth_drop_Suc [OF h(1)] Cons_nth_drop_Suc [OF long(2)] by simp
    moreover have "length (drop 15 i) = unat (i ! 14)" using long(4) by simp
    moreover have "unat (i ! 14) \<ge> 24" using long(3) by (simp add: word_le_nat_alt)
    ultimately show ?thesis
      using eq long byte_le [of "i ! 14"]
      by (intro exI [of _ "drop 15 i"]) (auto simp: app_component_id_of_def)
  qed
qed

lemma app_parse_digest:
  "app_parse sha st = (Inr (), st') \<Longrightarrow> length (sha (app_wasm st')) = 32 \<Longrightarrow> app_digest st' = sha (app_wasm st')"
  by (auto simp: app_parse_def Let_def mem_compare_eq0 APP_RECORD_HEADER_SIZE_def split: option.splits if_splits)

lemma app_stored_digest:
  assumes "fst (app_stored sha S k) = Inr ()" and "\<And>bs. length (sha bs) = 32"
  shows "app_digest (snd (app_stored sha S k)) = sha (app_wasm (snd (app_stored sha S k)))"
  using assms app_parse_digest [where sha = sha]
  by (cases "app_stored sha S k") (auto simp: app_stored_def split: option.splits if_splits)

lemma sha_length:
  assumes "storage_laws A objs hobj sha" and "storage_reliable A objs hobj"
  shows "length (sha bs) = 32"
proof -
  have "hoare (\<lambda>w'. objs w' = objs w) (bind_ok (tee_digest_alloc A) (\<lambda>_. tee_digest_final A bs))
      (\<lambda>r w'. (objs w' = objs w \<and> length (sha bs) = 32) \<and> r = Inr (sha bs))" for w
    using crash_digest [OF assms(1) reliable_fail_stop [OF assms(2)]] by (simp add: crash_hoare_False)
  from hoareD [OF this refl surjective_pairing] show ?thesis by simp
qed

lemma hoare_app_commit:
  assumes laws: "storage_laws A objs hobj sha" and fs: "fail_stop A objs hobj dead"
    and load: "load_spec S = Inr cur" and q: "length q = 32" and inv: "app_inv sha S (abs_of cur)"
  shows "hoare (\<lambda>w. objs w = S) (twep_app_commit A q i v (generation cur) wasm dg)
     (\<lambda>r w. app_commit_result sha S (abs_of cur) q i v wasm r (objs w))"
proof -
  let ?Q = "\<lambda>r w. app_commit_result sha S (abs_of cur) q i v wasm r (objs w)"
  have abs: "abs_load S = Some (abs_of cur)" using load by (rule abs_load_Inr)
  have keep: "app_commit_result sha S (abs_of cur) q i v wasm (Inl e) (objs w)" if "objs w = S" for e w
    using that abs inv by (simp add: app_commit_result_def)
  show ?thesis
    unfolding twep_app_commit_def
  proof (rule hoare_if, intro hoare_return keep, assumption,
      rule hoare_bind_ok [OF app_sha256_law [OF laws]], use keep in blast)
    fix d
    assume p: "\<not> (\<not> twep_app_component_id_is_valid i \<or> v = 0 \<or> wasm = [] \<or>
       length wasm > TWEP_PROTECTED_APP_MAX_SIZE \<or> generation cur = -1 \<or>
       length i > UINT32_MAX \<or> length wasm > UINT32_MAX)"
    let ?rest = "\<lambda>t. do {
        ok \<leftarrow> tee_malloc A (APP_RECORD_HEADER_SIZE + length i + length wasm);
        if \<not> ok then throw ERROR_OUT_OF_MEMORY
        else let record_bytes = app_record (generation cur + 1) v i wasm d in
          bind_ok (write_app_slot A t record_bytes) (\<lambda>_. do {
            res \<leftarrow> read_app_record A t;
            case res of Inl _ \<Rightarrow> throw ERROR_CORRUPT_OBJECT
            | Inr verify \<Rightarrow>
              if length (app_bytes verify) \<noteq> length record_bytes \<or> mem_compare (app_bytes verify) record_bytes \<noteq> 0
              then throw ERROR_CORRUPT_OBJECT
              else twep_acceptance_commit A q i v (generation cur) }) }"
    have wr: "hoare (\<lambda>w. objs w = S \<and> (dead w \<or> (\<forall>t'. Inr t = Inr t' \<longrightarrow> app_target_ok sha S i v t')))
        (?rest t) ?Q" if d: "d = sha wasm" "length d = 32" for t
    proof -
      have mal: "hoare (\<lambda>w. objs w = S \<and> D w) (tee_malloc A n) (\<lambda>_ w. objs w = S \<and> D w)"
        if "D = dead \<or> D = (\<lambda>_. True)" for D n
        using that law_malloc [OF laws, of S _ n] dead_malloc [OF fs, of n] by (auto simp: hoare_def)
      show ?thesis
      proof (cases "app_target_ok sha S i v t")
        case True
        note fin = hoare_app_write [OF laws load q True inv]
        have "hoare (\<lambda>w. objs w = S \<and> True) (?rest t) ?Q"
          unfolding Let_def
          by (intro hoare_bind [OF mal [of "\<lambda>_. True"]] hoare_if hoare_return hoare_pre [OF fin])
            (use p d keep in \<open>auto simp: not_less\<close>)
        then show ?thesis by (rule hoare_pre) simp
      next
        case False
        have dw: "hoare (\<lambda>w. objs w = S \<and> dead w) (write_app_slot A t out) (\<lambda>r w. isl r \<and> objs w = S)" for out
          unfolding write_app_slot_def by (rule dead_create_write [OF laws fs])
        have "hoare (\<lambda>w. objs w = S \<and> dead w) (?rest t) ?Q"
          unfolding Let_def
          by (intro hoare_bind [OF mal [of dead]] hoare_if hoare_return hoare_bind_ok [OF dw])
            (use keep in \<open>auto simp: hoare_def\<close>)
        with False show ?thesis by (auto elim: hoare_pre)
      qed
    qed
    have "hoare (\<lambda>w. objs w = S)
       (if mem_compare d dg \<noteq> 0 then throw ERROR_SECURITY
        else bind_ok (twep_acceptance_generation A) (\<lambda>current_generation.
          if current_generation \<noteq> generation cur then throw ERROR_ACCESS_CONFLICT
          else bind_ok (app_target A i v) ?rest)) ?Q" if "d = sha wasm" "length d = 32"
      by (intro hoare_if hoare_return keep hoare_bind_ok [OF hoare_queries(2) [OF laws]]
          hoare_bind_ok [OF hoare_app_target [OF laws fs]] wr that) auto
    then show "hoare (\<lambda>w. objs w = S \<and> (\<forall>d'. Inr d = Inr d' \<longrightarrow> d' = sha wasm \<and> length d' = 32))
       (if mem_compare d dg \<noteq> 0 then throw ERROR_SECURITY
        else bind_ok (twep_acceptance_generation A) (\<lambda>current_generation.
          if current_generation \<noteq> generation cur then throw ERROR_ACCESS_CONFLICT
          else bind_ok (app_target A i v) ?rest)) ?Q"
      by (auto simp: hoare_def)
  qed
qed

section \<open>Properties\<close>


text \<open>
  Reading the active application on storage that does not fail delivers the binary of the active
  record with its digest when the buffer is large enough, and the exact length otherwise. The
  binary delivered has the digest that the record carries and its component identifier and sequence
  number are the accepted ones.
\<close>

theorem app_read_active:
  assumes "storage_laws A objs hobj sha" and "storage_reliable A objs hobj"
    and "fst (run_state (twep_app_read_active A True cap) w) = (len, r)"
    and "abs_load (objs w) = Some a"
  shows "(case app_spec sha (objs w) of Inl e \<Rightarrow> (len, r) = (None, Inl e)
    | Inr act \<Rightarrow> (len, r) = (Some (length (app_wasm act)),
        if length (app_wasm act) \<le> cap then Inr (app_wasm act, app_digest act) else Inl ERROR_SHORT_BUFFER) \<and>
        app_digest act = sha (app_wasm act) \<and>
        acc_seqs a (app_component_id act) = Some (app_sequence act))"
proof -
  have load: "hoare (\<lambda>w'. objs w' = objs w) (load_active_app A)
      (\<lambda>r w'. objs w' = objs w \<and> r = app_spec sha (objs w))"
    using crash_load_active_app [OF assms(1) reliable_fail_stop [OF assms(2)]] reliable_memory [OF assms(2)]
    by (simp add: crash_hoare_False)
  obtain r1 w1 where run: "run_state (load_active_app A) w = (r1, w1)" by (meson surj_pair)
  have "app_digest act = sha (app_wasm act) \<and> acc_seqs a (app_component_id act) = Some (app_sequence act)"
    if "app_spec sha (objs w) = Inr act" for act
    by (rule app_spec_active [OF assms(4) that])
      (use app_stored_digest [OF _ sha_length [OF assms(1,2)]] in \<open>auto simp: app_live_def\<close>)
  then show ?thesis
    using hoareD [OF load refl run] assms(3) run
    by (auto simp: twep_app_read_active_def split: sum.splits if_splits)
qed

text \<open>
  The component identifiers of applications are exactly the encodings of an array of the tag and
  a command of 1 to 255 bytes, none of them zero, with the shortest header for the command.
\<close>

theorem app_component_id_char:
  "twep_app_component_id_is_valid i \<longleftrightarrow>
     (\<exists>command. i = app_component_id_of command \<and> command \<noteq> [] \<and> length command \<le> 255 \<and> 0 \<notin> set command)"
  using app_component_id_valid app_component_id_shape by blast

text \<open>What a commit writes is read back as the record it was built from, whatever the fields are.\<close>

theorem app_record_roundtrip:
  assumes "twep_app_component_id_is_valid i" and "wasm \<noteq> []" and "length wasm \<le> TWEP_PROTECTED_APP_MAX_SIZE"
    and "v \<noteq> 0" and "gen \<noteq> 0" and "length (sha wasm) = 32"
    and "S (app_slot_name t) = Some (app_record gen v i wasm (sha wasm))"
  shows "app_stored sha S t = (Inr (), app_of_record t gen v i wasm (sha wasm))"
  using assms app_stored_record [where sha = sha and wasm = wasm] by blast

section \<open>Concrete instances\<close>

text \<open>A device with the application \<^verbatim>\<open>ab\<close> installed with sequence number 3, in slot 0.\<close>

definition app_id1 :: bytes where
  "app_id1 = app_component_id_of (ascii ''ab'')"

definition app_comp :: component_sequence where
  "app_comp = \<lparr>comp_id = app_id1, comp_seq = 3\<rparr>"

definition app_dev :: device where
  "app_dev = \<lparr>dev_objs = (\<lambda>_. None)(slot0_id := Some (encode_slot 1 [app_comp] dg7),
     app_slot0_id := Some (app_record 1 3 app_id1 [0, 1] (toy_digest [0, 1]))), dev_power = 20\<rparr>"

definition app_acc1 :: acceptance_state where
  "app_acc1 = slot_state (encode_slot 1 [app_comp] dg7) 1 [app_comp] dg7"

abbreviation app_commit1 :: "(tee_error + u64) \<times> device" where
  "app_commit1 \<equiv> run_state (twep_app_commit (sim_api True) dg8 app_id1 4
     (generation app_acc1) [0, 2] (toy_digest [0, 2])) app_dev"

lemma app_dev_facts:
  "load_spec (dev_objs app_dev) = Inr app_acc1"
  "app_spec toy_digest (dev_objs app_dev) = Inr (app_of_record 0 1 3 app_id1 [0, 1] (toy_digest [0, 1]))"
  "fst (run_state (twep_app_read_active (sim_api False) True 2) app_dev) =
     (Some 2, Inr ([0, 1], toy_digest [0, 1]))"
  "twep_app_component_id_is_valid app_id1" "length (toy_digest [0, 1]) = 32"
  by code_simp+

lemma app_inv_active: "app_spec sha S = Inr act \<Longrightarrow> app_inv sha S a"
  by (simp add: app_inv_def)


theorem app_read_active_witness:
  "(case app_spec toy_digest (dev_objs app_dev) of Inl e \<Rightarrow> (Some (2 :: nat), Inr ([0, 1 :: byte], toy_digest [0, 1])) = (None, Inl e)
    | Inr act \<Rightarrow> (Some 2, Inr ([0, 1], toy_digest [0, 1])) = (Some (length (app_wasm act)),
        if length (app_wasm act) \<le> 2 then Inr (app_wasm act, app_digest act) else Inl ERROR_SHORT_BUFFER) \<and>
        app_digest act = toy_digest (app_wasm act) \<and>
        acc_seqs (abs_of app_acc1) (app_component_id act) = Some (app_sequence act))"
  by (rule app_read_active [OF sim_storage_laws sim_storage_reliable app_dev_facts(3)
        abs_load_Inr [OF app_dev_facts(1)]])

theorem app_record_roundtrip_witness:
  "app_stored toy_digest (dev_objs app_dev) 0 = (Inr (), app_of_record 0 1 3 app_id1 [0, 1] (toy_digest [0, 1]))"
  by (rule app_record_roundtrip [where sha = toy_digest and wasm = "[0, 1]", OF app_dev_facts(4) _ _ _ _ app_dev_facts(5)])
    (simp_all add: app_limits app_dev_def app_slot_name_def)

end
