(* ===== verification/Runtime_Cbor.thy ===== *)
theory Runtime_Cbor
  imports Canonical_Cbor Tee_Api
begin

text \<open>
  The lenient CBOR reader and the writer of the runtime part of the trusted application
  (\<^verbatim>\<open>optee/twep-wr-ta/ta/ta_runtime_cbor.c\<close>): envelopes from the host, results of host operations
  and the output of Wasm modules are read with it. It accepts heads that are not the shortest ones,
  skips items it does not know up to a nesting depth of 8, and refuses indefinite lengths, tags and
  floats. A view (\<^verbatim>\<open>struct bytes_view\<close>) is the byte string it points to; the null view and an
  empty one are the empty list, which no caller tells apart.
\<close>

section \<open>Reading\<close>

definition cbor_read_len :: "cursor \<Rightarrow> byte \<Rightarrow> (u64 \<times> cursor) option" where
  "cbor_read_len cur want_major =
     (if coff cur \<ge> length (cbuf cur) then None
      else let initial = cbuf cur ! coff cur; c1 = adv 1 cur;
               major = drop_bit 5 initial; ai = initial AND 0x1f in
        if major \<noteq> want_major then None
        else if ai < 24 then Some (ucast ai, c1)
        else case ai_bytes ai of None \<Rightarrow> None
        | Some needed \<Rightarrow> if needed > remaining c1 then None else Some (read_be needed 0 c1))"

text \<open>\<^verbatim>\<open>for (i = 0; i < n; i++) if (!body) return false;\<close>\<close>

fun for_ok :: "nat \<Rightarrow> ('s \<Rightarrow> 's option) \<Rightarrow> 's \<Rightarrow> 's option" where
  "for_ok n body s =
     (if n = 0 then Some s
      else case body s of None \<Rightarrow> None | Some s' \<Rightarrow> for_ok (n - 1) body s')"

declare for_ok.simps [simp del]

definition read_view :: "cursor \<Rightarrow> byte \<Rightarrow> (bytes \<times> cursor) option" where
  "read_view cur major =
     (case cbor_read_len cur major of None \<Rightarrow> None | Some (n, c1) \<Rightarrow> take_view n c1)"

function cbor_skip_item :: "nat \<Rightarrow> cursor \<Rightarrow> cursor option" where
  "cbor_skip_item depth cur =
     (if depth > 8 \<or> coff cur \<ge> length (cbuf cur) then None
      else let initial = cbuf cur ! coff cur; major = drop_bit 5 initial; ai = initial AND 0x1f in
        if major = 0 \<or> major = 1 then map_option snd (cbor_read_len cur major)
        else if major = 2 \<or> major = 3 then map_option snd (read_view cur major)
        else if major = 4 then
          (case cbor_read_len cur 4 of None \<Rightarrow> None
           | Some (n, c1) \<Rightarrow> for_ok (unat n) (\<lambda>c. cbor_skip_item (depth + 1) c) c1)
        else if major = 5 then
          (case cbor_read_len cur 5 of None \<Rightarrow> None
           | Some (n, c1) \<Rightarrow> for_ok (unat n) (\<lambda>c.
               case cbor_skip_item (depth + 1) c of None \<Rightarrow> None
               | Some c' \<Rightarrow> cbor_skip_item (depth + 1) c') c1)
        else if major = 7 \<and> (ai = 20 \<or> ai = 21 \<or> ai = 22 \<or> ai = 23) then Some (adv 1 cur)
        else None)"
  by pat_completeness auto
termination
  by (relation "measure (\<lambda>(d, _). 9 - d)") auto

declare cbor_skip_item.simps [simp del]

definition cbor_read_text_key :: "cursor \<Rightarrow> (bytes \<times> cursor) option" where
  "cbor_read_text_key cur = read_view cur 3"

definition key_eq :: "bytes \<Rightarrow> bytes \<Rightarrow> bool" where
  "key_eq key want \<longleftrightarrow> length key = length want \<and> mem_compare key want = 0"

definition parse_uint_value :: "cursor \<Rightarrow> tee_error + cursor" where
  "parse_uint_value cur =
     (case cbor_read_len cur 0 of None \<Rightarrow> Inl ERROR_BAD_FORMAT | Some (_, c1) \<Rightarrow> Inr c1)"

definition parse_bool_value :: "cursor \<Rightarrow> tee_error + cursor" where
  "parse_bool_value cur =
     (if coff cur \<ge> length (cbuf cur) then Inl ERROR_BAD_FORMAT
      else if cbuf cur ! coff cur \<noteq> 0xf4 \<and> cbuf cur ! coff cur \<noteq> 0xf5 then Inl ERROR_BAD_FORMAT
      else Inr (adv 1 cur))"

definition parse_uint32_value :: "cursor \<Rightarrow> tee_error + u32 \<times> cursor" where
  "parse_uint32_value cur =
     (case cbor_read_len cur 0 of None \<Rightarrow> Inl ERROR_BAD_FORMAT
      | Some (v, c1) \<Rightarrow> if v > 0xffffffff then Inl ERROR_BAD_FORMAT else Inr (ucast v, c1))"

definition parse_text_value_view :: "cursor \<Rightarrow> tee_error + bytes \<times> cursor" where
  "parse_text_value_view cur =
     (case read_view cur 3 of None \<Rightarrow> Inl ERROR_BAD_FORMAT
      | Some (v, c1) \<Rightarrow> if v = [] then Inl ERROR_BAD_FORMAT else Inr (v, c1))"

definition parse_text_value_view_allow_empty :: "cursor \<Rightarrow> tee_error + bytes \<times> cursor" where
  "parse_text_value_view_allow_empty cur =
     (case read_view cur 3 of None \<Rightarrow> Inl ERROR_BAD_FORMAT | Some r \<Rightarrow> Inr r)"

definition parse_bstr_value_view :: "cursor \<Rightarrow> tee_error + bytes \<times> cursor" where
  "parse_bstr_value_view cur =
     (case read_view cur 2 of None \<Rightarrow> Inl ERROR_BAD_FORMAT | Some r \<Rightarrow> Inr r)"

definition skip_value :: "cursor \<Rightarrow> tee_error + cursor" where
  "skip_value cur = (case cbor_skip_item 0 cur of None \<Rightarrow> Inl ERROR_BAD_FORMAT | Some c1 \<Rightarrow> Inr c1)"

text \<open>The map frame of the interface with the readers of the runtime.\<close>

definition ta_map_entries :: "(tee_error, 's) field_parser \<Rightarrow> cursor \<Rightarrow> 's \<Rightarrow> tee_error + cursor \<times> 's" where
  "ta_map_entries = map_entries (\<lambda>c. cbor_read_len c 5) cbor_read_text_key ERROR_BAD_FORMAT"

definition parse_map :: "(tee_error, 's) field_parser \<Rightarrow> bytes \<Rightarrow> 's \<Rightarrow> tee_error + 's" where
  "parse_map field buf s =
     (case ta_map_entries field (mk_cursor buf) s of Inl e \<Rightarrow> Inl e
      | Inr (c1, s') \<Rightarrow> if at_end c1 then Inr s' else Inl ERROR_BAD_FORMAT)"

section \<open>Writing\<close>

definition cbor_type_len_size :: "u64 \<Rightarrow> nat" where
  "cbor_type_len_size n =
     (if n < 24 then 1 else if n \<le> 0xff then 2 else if n \<le> 0xffff then 3
      else if n \<le> 0xffffffff then 5 else 9)"

text \<open>
  The last branch writes the low 32 bits of any larger number, although \<open>cbor_type_len_size\<close> plans
  9 bytes for numbers beyond 32 bits.
\<close>

definition cbor_write_type_len :: "byte \<Rightarrow> u64 \<Rightarrow> bytes" where
  "cbor_write_type_len major n =
     (if n < 24 then [push_bit 5 major OR ucast n]
      else if n \<le> 0xff then [push_bit 5 major OR 24, ucast n]
      else if n \<le> 0xffff then [push_bit 5 major OR 25, ucast (drop_bit 8 n), ucast n]
      else [push_bit 5 major OR 26, ucast (drop_bit 24 n), ucast (drop_bit 16 n),
            ucast (drop_bit 8 n), ucast n])"

definition cbor_write_text :: "bytes \<Rightarrow> bytes" where
  "cbor_write_text text = cbor_write_type_len 3 (of_nat (length text)) @ text"

definition cbor_write_view_text :: "bytes \<Rightarrow> bytes" where
  "cbor_write_view_text view =
     cbor_write_type_len 3 (of_nat (length view)) @ (if length view \<noteq> 0 then view else [])"

definition cbor_write_bstr :: "bytes \<Rightarrow> bytes" where
  "cbor_write_bstr bs =
     cbor_write_type_len 2 (of_nat (length bs)) @ (if length bs \<noteq> 0 then bs else [])"

section \<open>Comparisons and digests\<close>

definition bytes_view_eq :: "bytes \<Rightarrow> bytes \<Rightarrow> bool" where
  "bytes_view_eq view want \<longleftrightarrow> length view = length want \<and> mem_compare view want = 0"

definition object_name_eq :: "bytes \<Rightarrow> bytes \<Rightarrow> bool" where
  "object_name_eq name want \<longleftrightarrow> length name = length want \<and> mem_compare name want = 0"

definition safe_char :: "byte \<Rightarrow> bool" where
  "safe_char ch \<longleftrightarrow> (ch \<ge> of_char CHR ''a'' \<and> ch \<le> of_char CHR ''z'') \<or>
     (ch \<ge> of_char CHR ''A'' \<and> ch \<le> of_char CHR ''Z'') \<or>
     (ch \<ge> of_char CHR ''0'' \<and> ch \<le> of_char CHR ''9'') \<or> ch = of_char CHR ''_'' \<or> ch = of_char CHR ''-''"

definition bytes_view_is_safe_command :: "bytes \<Rightarrow> bool" where
  "bytes_view_is_safe_command view \<longleftrightarrow>
     \<not> (length view = 0 \<or> length view > 32) \<and> list_all safe_char view"

definition twep_ta_sha256_bytes :: "('w, 'h) tee_api \<Rightarrow> bytes \<Rightarrow> ('w, bytes) tee" where
  "twep_ta_sha256_bytes A bs =
     bind_ok (tee_digest_alloc A) (\<lambda>_. do {
       res \<leftarrow> tee_digest_final A bs;
       State_Monad.return (case res of Inl _ \<Rightarrow> Inl ERROR_GENERIC
         | Inr out \<Rightarrow> if length out \<noteq> 32 then Inl ERROR_GENERIC else Inr out) })"

section \<open>Envelopes\<close>

datatype twep_ta_production_envelope_kind =
  TWEP_TA_ENVELOPE_INIT | TWEP_TA_ENVELOPE_EXECUTE | TWEP_TA_ENVELOPE_RESUME_HOST_IO

record production_envelope_seen =
  seen_resolver_mode :: bool
  seen_attestam_url :: bool
  seen_insecure :: bool
  seen_default_timeout_ms :: bool
  seen_max_request_size :: bool
  seen_max_response_size :: bool
  seen_request_id :: bool
  seen_command :: bool
  seen_app_input_cbor :: bool
  seen_request_timeout_ms :: bool
  default_timeout_ms_value :: u32
  request_timeout_ms_value :: u32
  seen_host_io_result_cbor :: bool
  request_id_view :: bytes
  command_view :: bytes
  resolver_mode_view :: bytes
  attestam_url_view :: bytes
  app_input_view :: bytes
  host_io_result_view :: bytes
  wasm_view :: bytes
  catalog_view :: bytes
  app_wasm_view :: bytes
  dev_agent_public_key_view :: bytes

definition nothing_seen :: production_envelope_seen where
  "nothing_seen = \<lparr>seen_resolver_mode = False, seen_attestam_url = False, seen_insecure = False,
     seen_default_timeout_ms = False, seen_max_request_size = False, seen_max_response_size = False,
     seen_request_id = False, seen_command = False, seen_app_input_cbor = False,
     seen_request_timeout_ms = False, default_timeout_ms_value = 0, request_timeout_ms_value = 0,
     seen_host_io_result_cbor = False, request_id_view = [], command_view = [], resolver_mode_view = [],
     attestam_url_view = [], app_input_view = [], host_io_result_view = [], wasm_view = [],
     catalog_view = [], app_wasm_view = [], dev_agent_public_key_view = []\<rparr>"

definition envelope_field :: "(tee_error, production_envelope_seen) field_parser" where
  "envelope_field key c s =
     (if key_eq key (ascii ''resolver_mode'') then
        stored (\<lambda>v s. s\<lparr>resolver_mode_view := v, seen_resolver_mode := True\<rparr>) s (parse_text_value_view c)
      else if key_eq key (ascii ''attestam_url'') then
        stored (\<lambda>v s. s\<lparr>attestam_url_view := v, seen_attestam_url := True\<rparr>) s
          (parse_text_value_view_allow_empty c)
      else if key_eq key (ascii ''insecure'') then
        passed (\<lambda>s. s\<lparr>seen_insecure := True\<rparr>) s (parse_bool_value c)
      else if key_eq key (ascii ''default_timeout_ms'') then
        stored (\<lambda>v s. s\<lparr>default_timeout_ms_value := v, seen_default_timeout_ms := True\<rparr>) s (parse_uint32_value c)
      else if key_eq key (ascii ''max_request_size'') then
        passed (\<lambda>s. s\<lparr>seen_max_request_size := True\<rparr>) s (parse_uint_value c)
      else if key_eq key (ascii ''max_response_size'') then
        passed (\<lambda>s. s\<lparr>seen_max_response_size := True\<rparr>) s (parse_uint_value c)
      else if key_eq key (ascii ''request_id'') then
        stored (\<lambda>v s. s\<lparr>request_id_view := v, seen_request_id := True\<rparr>) s (parse_text_value_view c)
      else if key_eq key (ascii ''command'') then
        stored (\<lambda>v s. s\<lparr>command_view := v, seen_command := True\<rparr>) s (parse_text_value_view c)
      else if key_eq key (ascii ''app_input_cbor'') then
        stored (\<lambda>v s. s\<lparr>app_input_view := v, seen_app_input_cbor := True\<rparr>) s (parse_bstr_value_view c)
      else if key_eq key (ascii ''request_timeout_ms'') then
        stored (\<lambda>v s. s\<lparr>request_timeout_ms_value := v, seen_request_timeout_ms := True\<rparr>) s (parse_uint32_value c)
      else if key_eq key (ascii ''host_io_result_cbor'') then
        stored (\<lambda>v s. s\<lparr>host_io_result_view := v, seen_host_io_result_cbor := True\<rparr>) s (parse_bstr_value_view c)
      else if key_eq key (ascii ''wasm_bytes'') then
        stored (\<lambda>v s. s\<lparr>wasm_view := v\<rparr>) s (parse_bstr_value_view c)
      else if key_eq key (ascii ''catalog_cbor'') then
        stored (\<lambda>v s. s\<lparr>catalog_view := v\<rparr>) s (parse_bstr_value_view c)
      else if key_eq key (ascii ''app_wasm_bytes'') then
        stored (\<lambda>v s. s\<lparr>app_wasm_view := v\<rparr>) s (parse_bstr_value_view c)
      else if key_eq key (ascii ''dev_agent_public_key_cbor'') then
        stored (\<lambda>v s. s\<lparr>dev_agent_public_key_view := v\<rparr>) s (parse_bstr_value_view c)
      else passed id s (skip_value c))"

definition envelope_complete :: "twep_ta_production_envelope_kind \<Rightarrow> production_envelope_seen \<Rightarrow> bool" where
  "envelope_complete kind s \<longleftrightarrow>
     \<not> (kind = TWEP_TA_ENVELOPE_INIT \<and>
        (\<not> seen_resolver_mode s \<or> \<not> seen_attestam_url s \<or> \<not> seen_insecure s \<or>
         \<not> seen_default_timeout_ms s \<or> \<not> seen_max_request_size s \<or> \<not> seen_max_response_size s)) \<and>
     \<not> (kind = TWEP_TA_ENVELOPE_EXECUTE \<and>
        (\<not> seen_request_id s \<or> \<not> seen_command s \<or> \<not> seen_app_input_cbor s \<or> \<not> seen_request_timeout_ms s)) \<and>
     \<not> (kind = TWEP_TA_ENVELOPE_RESUME_HOST_IO \<and> (\<not> seen_request_id s \<or> \<not> seen_host_io_result_cbor s))"

definition parse_production_envelope ::
  "bytes \<Rightarrow> twep_ta_production_envelope_kind \<Rightarrow> tee_error + production_envelope_seen" where
  "parse_production_envelope buf kind =
     (if length buf = 0 then Inl ERROR_BAD_PARAMETERS
      else case parse_map envelope_field buf nothing_seen of Inl e \<Rightarrow> Inl e
      | Inr s \<Rightarrow> if \<not> envelope_complete kind s then Inl ERROR_BAD_FORMAT else Inr s)"

section \<open>Heads\<close>

text \<open>A head: an initial byte with the major type and the argument bytes that its low bits announce.\<close>

definition is_head :: "byte \<Rightarrow> u64 \<Rightarrow> bytes \<Rightarrow> bool" where
  "is_head m n h \<longleftrightarrow> (\<exists>b as. h = b # as \<and> drop_bit 5 b = m \<and>
     (let ai = b AND 0x1f in
      ai < 24 \<and> as = [] \<and> n = ucast ai \<or> \<not> ai < 24 \<and> ai_bytes ai = Some (length as) \<and> n = be_fold 0 as))"

lemma cbor_read_len_rest:
  "cbor_read_len c m =
     (case rest c of [] \<Rightarrow> None
      | b # bs \<Rightarrow> if drop_bit 5 b \<noteq> m then None
          else if b AND 0x1f < 24 then Some (ucast (b AND 0x1f), adv 1 c)
          else case ai_bytes (b AND 0x1f) of None \<Rightarrow> None
          | Some k \<Rightarrow> if k > length bs then None else Some (be_fold 0 (take k bs), adv (Suc k) c))"
proof (cases "rest c")
  case Nil
  then show ?thesis using length_rest_pos [of c] by (auto simp: cbor_read_len_def)
next
  case (Cons b bs)
  then have ini: "coff c < length (cbuf c)" "cbuf c ! coff c = b"
    using length_rest_pos [of c] nth_rest [of c] by auto
  have r: "remaining (adv 1 c) = length bs" "rest (adv 1 c) = bs" using Cons by (simp_all add: remaining_rest)
  show ?thesis
    using ini Cons r
    by (auto simp: cbor_read_len_def Let_def read_be_eq split: option.split)
qed

lemma cbor_read_len_iff:
  "cbor_read_len c m = Some (n, c') \<longleftrightarrow>
     (\<exists>h zs. rest c = h @ zs \<and> is_head m n h \<and> c' = adv (length h) c)"
proof
  assume "cbor_read_len c m = Some (n, c')"
  then obtain b bs where bs: "rest c = b # bs" and m: "drop_bit 5 b = m"
    and "b AND 0x1f < 24 \<and> n = ucast (b AND 0x1f) \<and> c' = adv 1 c \<or>
      \<not> b AND 0x1f < 24 \<and> (\<exists>k. ai_bytes (b AND 0x1f) = Some k \<and> k \<le> length bs \<and>
         n = be_fold 0 (take k bs) \<and> c' = adv (Suc k) c)"
    by (auto simp: cbor_read_len_rest not_less split: list.splits if_splits option.splits)
  then consider "b AND 0x1f < 24" "n = ucast (b AND 0x1f)" "c' = adv 1 c"
    | k where "\<not> b AND 0x1f < 24" "ai_bytes (b AND 0x1f) = Some k" "k \<le> length bs"
        "n = be_fold 0 (take k bs)" "c' = adv (Suc k) c" by blast
  then show "\<exists>h zs. rest c = h @ zs \<and> is_head m n h \<and> c' = adv (length h) c"
  proof cases
    case 1
    with bs m show ?thesis by (intro exI [of _ "[b]"] exI [of _ bs]) (simp add: is_head_def)
  next
    case 2
    with bs m show ?thesis
      by (intro exI [of _ "b # take k bs"] exI [of _ "drop k bs"]) (simp add: is_head_def)
  qed
next
  assume "\<exists>h zs. rest c = h @ zs \<and> is_head m n h \<and> c' = adv (length h) c"
  then show "cbor_read_len c m = Some (n, c')"
    by (auto simp: is_head_def cbor_read_len_rest Let_def)
qed

lemma is_head_ne: "is_head m n h \<Longrightarrow> h \<noteq> []"
  by (auto simp: is_head_def)

lemma cbor_read_len_lenient: "read_uint c m = Some r \<Longrightarrow> cbor_read_len c m = Some r"
  by (auto simp: read_uint_def cbor_read_len_def Let_def split: if_splits option.splits prod.splits)

lemma cbor_type_len_size_eq: "cbor_type_len_size = type_len_size"
  by (simp add: fun_eq_iff cbor_type_len_size_def type_len_size_def)

lemma cbor_write_type_len_eq: "n \<le> 0xffffffff \<Longrightarrow> cbor_write_type_len m n = write_type_len m n"
proof (cases n rule: type_len_size_cases)
  case 1
  then show ?thesis by (simp add: cbor_write_type_len_def write_type_len_def)
next
  case 2
  then show ?thesis by (simp add: cbor_write_type_len_def write_type_len_def not_less)
next
  case 3
  have "be_bytes 2 n = [ucast (drop_bit 8 n), ucast n]" by (simp add: numeral_2_eq_2)
  moreover have "\<not> n < 24" "\<not> n \<le> 0xff" using 3 by (auto simp: word_less_nat_alt word_le_nat_alt)
  ultimately show ?thesis using 3 by (simp add: cbor_write_type_len_def write_type_len_def)
next
  case 4
  have "be_bytes 4 n = [ucast (drop_bit 24 n), ucast (drop_bit 16 n), ucast (drop_bit 8 n), ucast n]"
    by (simp add: eval_nat_numeral)
  moreover have "\<not> n < 24" "\<not> n \<le> 0xff" "\<not> n \<le> 0xffff" using 4 by (auto simp: word_less_nat_alt word_le_nat_alt)
  ultimately show ?thesis using 4 by (simp add: cbor_write_type_len_def write_type_len_def)
qed auto

interpretation rt: cbor_codec cbor_write_type_len cbor_read_len "\<lambda>v. v \<le> 0xffffffff" cbor_type_len_size
proof
  fix major :: byte and v :: u64 and c zs
  assume "major < 8" "v \<le> 0xffffffff"
  then show "length (cbor_write_type_len major v) = cbor_type_len_size v"
    by (simp add: cbor_write_type_len_eq cbor_type_len_size_eq canon.wr_size)
  assume "rest c = cbor_write_type_len major v @ zs"
  with \<open>major < 8\<close> \<open>v \<le> 0xffffffff\<close>
  show "cbor_read_len c major = Some (v, adv (length (cbor_write_type_len major v)) c)"
    by (intro cbor_read_len_lenient) (simp add: cbor_write_type_len_eq canon.rd_wr)
next
  fix c major v c'
  assume "cbor_read_len c major = Some (v, c')"
  then show "\<exists>k>0. k \<le> remaining c \<and> c' = adv k c"
    using is_head_ne by (fastforce simp: cbor_read_len_iff remaining_rest)
qed

section \<open>Skipping\<close>

text \<open>
  The items the runtime accepts inside unknown fields, as a grammar of byte strings: \<open>cbor_item d s\<close>
  when \<open>s\<close> is one item with at most \<open>d\<close> levels of arrays and maps inside the outermost one.
\<close>

inductive cbor_item :: "nat \<Rightarrow> bytes \<Rightarrow> bool" where
  int_item: "m = 0 \<or> m = 1 \<Longrightarrow> is_head m n h \<Longrightarrow> cbor_item d h"
| str_item: "m = 2 \<or> m = 3 \<Longrightarrow> is_head m n h \<Longrightarrow> length s = unat n \<Longrightarrow> cbor_item d (h @ s)"
| array_item: "is_head 4 n h \<Longrightarrow> length xs = unat n \<Longrightarrow> \<forall>x \<in> set xs. 0 < d \<and> cbor_item (d - 1) x \<Longrightarrow>
    cbor_item d (h @ concat xs)"
| map_item: "is_head 5 n h \<Longrightarrow> length kvs = unat n \<Longrightarrow>
    \<forall>kv \<in> set kvs. (0 < d \<and> cbor_item (d - 1) (fst kv)) \<and> (0 < d \<and> cbor_item (d - 1) (snd kv)) \<Longrightarrow>
    cbor_item d (h @ concat (map (\<lambda>kv. fst kv @ snd kv) kvs))"
| simple_item: "b \<in> {0xf4, 0xf5, 0xf6, 0xf7} \<Longrightarrow> cbor_item d [b]"

lemma for_ok_0 [simp]: "for_ok 0 body s = Some s"
  by (simp add: for_ok.simps)

lemma for_ok_Suc: "for_ok (Suc n) body s = (case body s of None \<Rightarrow> None | Some s' \<Rightarrow> for_ok n body s')"
  by (simp add: for_ok.simps [of "Suc n"] split: option.split)

text \<open>A loop over a body that consumes one member of a language consumes a list of them.\<close>

lemma for_ok_items:
  assumes "\<And>c c'. body c = Some c' \<longleftrightarrow> (\<exists>s zs. rest c = s @ zs \<and> P s \<and> c' = adv (length s) c)"
  shows "for_ok n body c = Some c' \<longleftrightarrow>
     (\<exists>xs zs. rest c = concat xs @ zs \<and> length xs = n \<and> (\<forall>x \<in> set xs. P x) \<and> c' = adv (length (concat xs)) c)"
proof (induction n arbitrary: c)
  case 0
  then show ?case by auto
next
  case (Suc n)
  have "for_ok (Suc n) body c = Some c' \<longleftrightarrow> (\<exists>c1. body c = Some c1 \<and> for_ok n body c1 = Some c')"
    by (auto simp: for_ok_Suc split: option.splits)
  also have "\<dots> \<longleftrightarrow> (\<exists>xs zs. rest c = concat xs @ zs \<and> length xs = Suc n \<and> (\<forall>x \<in> set xs. P x) \<and>
      c' = adv (length (concat xs)) c)" (is "?L \<longleftrightarrow> ?R")
  proof
    assume ?L
    then obtain s zs1 xs zs where "rest c = s @ zs1" "P s" "zs1 = concat xs @ zs" "length xs = n"
      "\<forall>x \<in> set xs. P x" "c' = adv (length s + length (concat xs)) c"
      by (auto simp: assms Suc)
    then show ?R by (intro exI [of _ "s # xs"] exI [of _ zs]) simp
  next
    assume ?R
    then obtain s xs zs where "rest c = s @ concat xs @ zs" "P s" "length xs = n"
      "\<forall>x \<in> set xs. P x" "c' = adv (length s + length (concat xs)) c"
      by (auto simp: length_Suc_conv)
    then have "body c = Some (adv (length s) c)" "for_ok n body (adv (length s) c) = Some c'"
      unfolding assms Suc by fastforce+
    then show ?L by blast
  qed
  finally show ?case .
qed

lemma simple_byte: "drop_bit 5 (b :: byte) = 7 \<Longrightarrow> b AND 0x1f \<in> {20, 21, 22, 23} \<Longrightarrow> b \<in> {0xf4, 0xf5, 0xf6, 0xf7}"
proof -
  assume "drop_bit 5 b = 7" "b AND 0x1f \<in> {20, 21, 22, 23}"
  moreover have "b = push_bit 5 (drop_bit 5 b) OR (b AND 0x1f)"
  proof -
    have m: "(0x1f :: byte) = mask 5" by (simp add: mask_eq_exp_minus_1)
    show ?thesis unfolding m by (rule bit_word_eqI) (auto simp: bit_simps)
  qed
  ultimately have "b = push_bit 5 7 OR (b AND 0x1f)" by simp
  then show ?thesis using \<open>b AND 0x1f \<in> {20, 21, 22, 23}\<close> by auto
qed

lemma cbor_item_major:
  assumes "cbor_item d s"
  obtains b bs where "s = b # bs"
    and "drop_bit 5 b \<in> {0, 1, 2, 3, 4, 5} \<or> drop_bit 5 b = 7 \<and> b AND 0x1f \<in> {20, 21, 22, 23}"
  using assms
proof cases
  case (simple_item b)
  then have "drop_bit 5 b = 7" "b AND 0x1f \<in> {20, 21, 22, 23}" by auto
  with simple_item that show ?thesis by auto
qed (auto simp: is_head_def intro!: that)

lemma pairs_of_list:
  "(\<forall>x \<in> set xs. \<exists>a b. x = a @ b \<and> P a \<and> P b) \<longleftrightarrow>
   (\<exists>kvs. xs = map (\<lambda>kv. fst kv @ snd kv) kvs \<and> (\<forall>kv \<in> set kvs. P (fst kv) \<and> P (snd kv)))"
proof (induction xs)
  case (Cons x xs)
  show ?case
  proof
    assume "\<forall>x \<in> set (x # xs). \<exists>a b. x = a @ b \<and> P a \<and> P b"
    then obtain a b kvs where "x = a @ b" "P a" "P b" "xs = map (\<lambda>kv. fst kv @ snd kv) kvs"
      "\<forall>kv \<in> set kvs. P (fst kv) \<and> P (snd kv)" using Cons by auto
    then show "\<exists>kvs. x # xs = map (\<lambda>kv. fst kv @ snd kv) kvs \<and> (\<forall>kv \<in> set kvs. P (fst kv) \<and> P (snd kv))"
      by (intro exI [of _ "(a, b) # kvs"]) simp
  qed force
qed simp

lemma skip_pair:
  assumes "\<And>c c'. skip c = Some c' \<longleftrightarrow> (\<exists>s zs. rest c = s @ zs \<and> Q s \<and> c' = adv (length s) c)"
  shows "(case skip c of None \<Rightarrow> None | Some c1 \<Rightarrow> skip c1) = Some c' \<longleftrightarrow>
     (\<exists>s zs. rest c = s @ zs \<and> (\<exists>a b. s = a @ b \<and> Q a \<and> Q b) \<and> c' = adv (length s) c)" (is "?L \<longleftrightarrow> ?R")
proof
  assume ?L
  then obtain c1 where "skip c = Some c1" "skip c1 = Some c'" by (auto split: option.splits)
  then obtain a zs1 b zs where "rest c = a @ zs1" "Q a" "zs1 = b @ zs" "Q b" "c' = adv (length a + length b) c"
    unfolding assms by auto
  then show ?R by (intro exI [of _ "a @ b"] exI [of _ zs]) auto
next
  assume ?R
  then obtain a b zs where "rest c = a @ b @ zs" "Q a" "Q b" "c' = adv (length a + length b) c" by auto
  then have "skip c = Some (adv (length a) c)" "skip (adv (length a) c) = Some c'"
    unfolding assms by fastforce+
  then show ?L by simp
qed

lemma read_view_iff:
  "read_view c m = Some (v, c') \<longleftrightarrow>
     (\<exists>n h zs. rest c = h @ v @ zs \<and> is_head m n h \<and> length v = unat n \<and> c' = adv (length h + length v) c)"
  (is "?L \<longleftrightarrow> ?R")
proof
  assume ?L
  then obtain n h zs where h: "rest c = h @ zs" "is_head m n h" "take_view n (adv (length h) c) = Some (v, c')"
    by (auto simp: read_view_def cbor_read_len_iff split: option.splits)
  then have "unat n \<le> length zs" "v = take (unat n) zs" "c' = adv (length h + unat n) c"
    by (auto simp: take_view_Some remaining_rest)
  with h show ?R
    by (intro exI [of _ n] exI [of _ h] exI [of _ "drop (unat n) zs"]) simp
next
  assume ?R
  then obtain n h zs where h: "rest c = h @ v @ zs" "is_head m n h" "length v = unat n" "c' = adv (length h + length v) c"
    by blast
  then have "cbor_read_len c m = Some (n, adv (length h) c)" by (auto simp: cbor_read_len_iff)
  with h show ?L by (simp add: read_view_def take_view_rest remaining_rest)
qed

lemma skip_step:
  assumes d: "depth \<le> 8"
    and inner: "\<And>c c'. cbor_skip_item (depth + 1) c = Some c' \<longleftrightarrow>
      (\<exists>s zs. rest c = s @ zs \<and> (0 < 8 - depth \<and> cbor_item (8 - depth - 1) s) \<and> c' = adv (length s) c)"
  shows "cbor_skip_item depth c = Some c' \<longleftrightarrow>
    (\<exists>s zs. rest c = s @ zs \<and> cbor_item (8 - depth) s \<and> c' = adv (length s) c)" (is "?L \<longleftrightarrow> ?R")
proof (cases "rest c")
  case Nil
  then show ?thesis
    using length_rest_pos [of c] by (auto simp: cbor_skip_item.simps elim: cbor_item_major)
next
  case (Cons b bs)
  then have ini: "\<not> length (cbuf c) \<le> coff c" "cbuf c ! coff c = b"
    using length_rest_pos [of c] nth_rest [of c] by auto
  let ?m = "drop_bit 5 b"
  have arr: "for_ok n (\<lambda>c. cbor_skip_item (depth + 1) c) c1 = Some c' \<longleftrightarrow>
     (\<exists>xs zs. rest c1 = concat xs @ zs \<and> length xs = n \<and>
       (\<forall>x \<in> set xs. 0 < 8 - depth \<and> cbor_item (8 - depth - 1) x) \<and> c' = adv (length (concat xs)) c1)" for n c1
    by (rule for_ok_items) (rule inner)
  have mp: "for_ok n (\<lambda>c. case cbor_skip_item (depth + 1) c of None \<Rightarrow> None | Some c' \<Rightarrow> cbor_skip_item (depth + 1) c') c1 = Some c' \<longleftrightarrow>
     (\<exists>xs zs. rest c1 = concat xs @ zs \<and> length xs = n \<and>
       (\<forall>x \<in> set xs. \<exists>a b. x = a @ b \<and> (0 < 8 - depth \<and> cbor_item (8 - depth - 1) a) \<and>
          (0 < 8 - depth \<and> cbor_item (8 - depth - 1) b)) \<and> c' = adv (length (concat xs)) c1)" for n c1
    by (rule for_ok_items) (rule skip_pair, rule inner)
  note unf = cbor_skip_item.simps [of depth c] ini Let_def
  show ?thesis
  proof
    assume L: ?L
    then consider "?m = 0 \<or> ?m = 1" "\<exists>n. cbor_read_len c ?m = Some (n, c')"
      | "?m = 2 \<or> ?m = 3" "\<exists>v. read_view c ?m = Some (v, c')"
      | n c1 where "cbor_read_len c 4 = Some (n, c1)" "for_ok (unat n) (\<lambda>c. cbor_skip_item (depth + 1) c) c1 = Some c'"
      | n c1 where "cbor_read_len c 5 = Some (n, c1)"
         "for_ok (unat n) (\<lambda>c. case cbor_skip_item (depth + 1) c of None \<Rightarrow> None | Some c' \<Rightarrow> cbor_skip_item (depth + 1) c') c1 = Some c'"
      | "?m = 7" "b AND 0x1f \<in> {20, 21, 22, 23}" "c' = adv 1 c"
      using d by (auto simp: unf split: if_splits option.splits)
    then show ?R
    proof cases
      case 1
      then obtain n h zs where "rest c = h @ zs" "is_head ?m n h" "c' = adv (length h) c"
        by (auto simp: cbor_read_len_iff)
      then show ?thesis using int_item [OF 1(1)] by blast
    next
      case 2
      then obtain v n h zs where "rest c = (h @ v) @ zs" "is_head ?m n h" "length v = unat n"
        "c' = adv (length (h @ v)) c" by (auto simp: read_view_iff)
      then show ?thesis using str_item [OF 2(1)] by blast
    next
      case 3
      from 3(1) obtain h zs1 where "rest c = h @ zs1" "is_head 4 n h" "c1 = adv (length h) c"
        by (auto simp: cbor_read_len_iff)
      moreover from 3(2) obtain xs zs where "rest c1 = concat xs @ zs" "length xs = unat n"
        "\<forall>x \<in> set xs. 0 < 8 - depth \<and> cbor_item (8 - depth - 1) x" "c' = adv (length (concat xs)) c1"
        unfolding arr by blast
      ultimately have "rest c = (h @ concat xs) @ zs" "is_head 4 n h" "length xs = unat n"
        "\<forall>x \<in> set xs. 0 < 8 - depth \<and> cbor_item (8 - depth - 1) x" "c' = adv (length (h @ concat xs)) c"
        by simp_all
      then show ?thesis using array_item by blast
    next
      case 4
      from 4(1) obtain h zs1 where h: "rest c = h @ zs1" "is_head 5 n h" "c1 = adv (length h) c"
        by (auto simp: cbor_read_len_iff)
      from 4(2) obtain xs zs where xs: "rest c1 = concat xs @ zs" "length xs = unat n"
        "\<forall>x \<in> set xs. \<exists>a b. x = a @ b \<and> (0 < 8 - depth \<and> cbor_item (8 - depth - 1) a) \<and>
          (0 < 8 - depth \<and> cbor_item (8 - depth - 1) b)" "c' = adv (length (concat xs)) c1"
        unfolding mp by blast
      from xs(3) obtain kvs where kvs: "xs = map (\<lambda>kv. fst kv @ snd kv) kvs"
        "\<forall>kv \<in> set kvs. (0 < 8 - depth \<and> cbor_item (8 - depth - 1) (fst kv)) \<and>
          (0 < 8 - depth \<and> cbor_item (8 - depth - 1) (snd kv))" unfolding pairs_of_list by blast
      have "cbor_item (8 - depth) (h @ concat xs)"
        unfolding kvs(1) by (rule map_item [OF h(2) _ kvs(2)]) (use xs(2) kvs(1) in simp)
      moreover have "rest c = (h @ concat xs) @ zs" "c' = adv (length (h @ concat xs)) c" using h xs by simp_all
      ultimately show ?thesis by blast
    next
      case 5
      then have "b \<in> {0xf4, 0xf5, 0xf6, 0xf7}" using simple_byte by blast
      with 5 Cons show ?thesis by (intro exI [of _ "[b]"] exI [of _ bs]) (simp add: simple_item)
    qed
  next
    assume ?R
    then obtain s zs where s: "rest c = s @ zs" "cbor_item (8 - depth) s" "c' = adv (length s) c" by blast
    have hd: "?m = m" if "is_head m n h" "rest c = h @ ys" for m n h ys
      using that Cons by (auto simp: is_head_def)
    from s(2) show ?L
    proof cases
      case (int_item m n)
      then have "cbor_read_len c m = Some (n, c')" using s by (auto simp: cbor_read_len_iff)
      then show ?thesis using int_item hd [OF int_item(2) s(1)] d by (auto simp: unf)
    next
      case (str_item m n h v)
      then have "read_view c m = Some (v, c')" using s by (auto simp: read_view_iff)
      moreover have "?m = m" using hd [OF str_item(3)] s str_item(1) by simp
      ultimately show ?thesis using str_item d by (auto simp: unf)
    next
      case (array_item n h xs)
      then have "cbor_read_len c 4 = Some (n, adv (length h) c)" using s by (auto simp: cbor_read_len_iff)
      moreover have "for_ok (unat n) (\<lambda>c. cbor_skip_item (depth + 1) c) (adv (length h) c) = Some c'"
        unfolding arr using s array_item by auto
      moreover have "?m = 4" using hd [OF array_item(2)] s array_item(1) by simp
      ultimately show ?thesis using d by (auto simp: unf)
    next
      case (map_item n h kvs)
      then have "cbor_read_len c 5 = Some (n, adv (length h) c)" using s by (auto simp: cbor_read_len_iff)
      moreover have "for_ok (unat n) (\<lambda>c. case cbor_skip_item (depth + 1) c of None \<Rightarrow> None
          | Some c' \<Rightarrow> cbor_skip_item (depth + 1) c') (adv (length h) c) = Some c'"
        unfolding mp pairs_of_list using s map_item by auto
      moreover have "?m = 5" using hd [OF map_item(2)] s map_item(1) by simp
      ultimately show ?thesis using d by (auto simp: unf)
    next
      case (simple_item b')
      then have "b' = b" using s Cons by simp
      then show ?thesis using simple_item s d by (auto simp: unf)
    qed
  qed
qed

lemma cbor_skip_item_iff:
  "depth \<le> 8 \<Longrightarrow> cbor_skip_item depth c = Some c' \<longleftrightarrow>
    (\<exists>s zs. rest c = s @ zs \<and> cbor_item (8 - depth) s \<and> c' = adv (length s) c)"
proof (induction "8 - depth" arbitrary: depth c c')
  case 0
  show ?case
    by (rule skip_step) (use 0 in \<open>auto simp: cbor_skip_item.simps [of 9]\<close>)
next
  case (Suc k)
  then have "k = 8 - (depth + 1)" "depth + 1 \<le> 8" "0 < 8 - depth" "8 - depth - 1 = 8 - (depth + 1)" by auto
  then show ?case using Suc.hyps(1) [of "depth + 1"] by (intro skip_step) auto
qed

lemma text_value_iff:
  "parse_text_value_view c = Inr (v, c') \<longleftrightarrow> read_view c 3 = Some (v, c') \<and> v \<noteq> []"
  "parse_text_value_view_allow_empty c = Inr (v, c') \<longleftrightarrow> read_view c 3 = Some (v, c')"
  "parse_bstr_value_view c = Inr (v, c') \<longleftrightarrow> read_view c 2 = Some (v, c')"
  by (auto simp: parse_text_value_view_def parse_text_value_view_allow_empty_def parse_bstr_value_view_def
      split: option.splits if_splits)

lemma cbor_read_len_within: "within buf c \<Longrightarrow> cbor_read_len c m = Some (n, c') \<Longrightarrow> within buf c'"
  by (auto simp: cbor_read_len_iff intro: within_adv)

lemma read_view_within:
  assumes "within buf c" and "read_view c m = Some (v, c')"
  shows "within buf c'" and "sublist v buf"
proof -
  from assms(2) obtain h zs where r: "rest c = h @ v @ zs" "c' = adv (length (h @ v)) c"
    by (auto simp: read_view_iff)
  show "within buf c'" unfolding r(2) by (rule within_adv [OF assms(1)]) (simp add: r(1))
  from assms(1) r(1) show "sublist v buf" by (rule within_sublist)
qed

lemma skip_within: "within buf c \<Longrightarrow> cbor_skip_item 0 c = Some c' \<Longrightarrow> within buf c'"
  by (auto simp: cbor_skip_item_iff intro: within_adv)

interpretation rtm: map_reader "\<lambda>c. cbor_read_len c 5" cbor_read_text_key ERROR_BAD_FORMAT
proof
  show "\<exists>h zs. rest c = h @ zs \<and> c' = adv (length h) c" if "cbor_read_len c 5 = Some (n, c')" for c n c'
    using that by (auto simp: cbor_read_len_iff)
  fix c k c' assume "cbor_read_text_key c = Some (k, c')"
  then obtain h zs where "rest c = (h @ k) @ zs" "c' = adv (length (h @ k)) c"
    by (auto simp: cbor_read_text_key_def read_view_iff)
  then show "\<exists>h zs. rest c = h @ zs \<and> c' = adv (length h) c" by blast
qed

lemma parse_map_inv:
  assumes "parse_map field buf s = Inr s'" and "P s"
    and "\<And>key c s c' s'. within buf c \<Longrightarrow> P s \<Longrightarrow> field key c s = Inr (c', s') \<Longrightarrow> within buf c' \<and> P s'"
  shows "P s'"
proof -
  from assms(1) obtain c where "map_entries (\<lambda>c. cbor_read_len c 5) cbor_read_text_key ERROR_BAD_FORMAT field
      (mk_cursor buf) s = Inr (c, s')"
    by (auto simp: parse_map_def ta_map_entries_def split: sum.splits if_splits)
  from this within_mk assms(2) have "within buf c \<and> P s'" by (rule rtm.entries_inv) (rule assms(3))
  then show ?thesis ..
qed

lemma value_within:
  assumes w: "within buf c"
  shows "parse_text_value_view c = Inr (v, c') \<Longrightarrow> within buf c' \<and> sublist v buf \<and> v \<noteq> []"
    and "parse_text_value_view_allow_empty c = Inr (v, c') \<Longrightarrow> within buf c' \<and> sublist v buf"
    and "parse_bstr_value_view c = Inr (v, c') \<Longrightarrow> within buf c' \<and> sublist v buf"
    and "parse_uint32_value c = Inr (x, c') \<Longrightarrow> within buf c'"
    and "parse_uint_value c = Inr c' \<Longrightarrow> within buf c'"
    and "parse_bool_value c = Inr c' \<Longrightarrow> within buf c'"
    and "skip_value c = Inr c' \<Longrightarrow> within buf c'"
proof -
  show "parse_text_value_view c = Inr (v, c') \<Longrightarrow> within buf c' \<and> sublist v buf \<and> v \<noteq> []"
    "parse_text_value_view_allow_empty c = Inr (v, c') \<Longrightarrow> within buf c' \<and> sublist v buf"
    "parse_bstr_value_view c = Inr (v, c') \<Longrightarrow> within buf c' \<and> sublist v buf"
    unfolding text_value_iff by (blast intro: read_view_within [OF w])+
  show "parse_uint32_value c = Inr (x, c') \<Longrightarrow> within buf c'" "parse_uint_value c = Inr c' \<Longrightarrow> within buf c'"
    using cbor_read_len_within [OF w, of 0]
    by (auto simp: parse_uint32_value_def parse_uint_value_def split: option.splits if_splits)
  show "parse_bool_value c = Inr c' \<Longrightarrow> within buf c'"
    using w by (auto simp: parse_bool_value_def within_def good_def split: if_splits)
  show "skip_value c = Inr c' \<Longrightarrow> within buf c'"
    using skip_within [OF w] by (auto simp: skip_value_def split: option.splits)
qed

abbreviation ta_entry_ok :: "(tee_error, 's) field_parser \<Rightarrow> bytes \<times> ('s \<Rightarrow> 's) \<Rightarrow> bool" where
  "ta_entry_ok \<equiv> entry_ok cbor_read_text_key ERROR_BAD_FORMAT"

lemma ta_entries_write:
  assumes "is_head 5 n h" and "unat n = length es" and "\<forall>e \<in> set es. ta_entry_ok field e"
    and "rest c = h @ concat (map fst es) @ zs"
  shows "ta_map_entries field c s = Inr (adv (length (h @ concat (map fst es))) c, fold snd es s)"
  unfolding ta_map_entries_def
  by (rule rtm.entries_write) (use assms in \<open>auto simp: cbor_read_len_iff\<close>)

lemma parse_map_writeI:
  assumes "is_head 5 n h" and "unat n = length es" and "\<forall>e \<in> set es. ta_entry_ok field e"
    and "buf = h @ concat (map fst es)" and "s' = fold snd es s"
  shows "parse_map field buf s = Inr s'"
  using ta_entries_write [OF assms(1-3), of "mk_cursor buf" "[]" s] assms(4,5)
  by (simp add: parse_map_def at_end_def)

text \<open>Values written by the runtime are read back.\<close>

lemma u32_le: "n < 2 ^ 32 \<Longrightarrow> (of_nat n :: u64) \<le> 0xffffffff"
  by (simp add: word_le_nat_alt unat_of_nat)

lemma adv_inject [simp]: "adv m c = adv n c \<longleftrightarrow> m = n"
proof
  assume "adv m c = adv n c"
  from arg_cong [OF this, of coff] show "m = n" by simp
qed simp

lemma is_head_write:
  assumes "m < 8" and "v \<le> 0xffffffff"
  shows "is_head m v (cbor_write_type_len m v)"
proof -
  let ?w = "cbor_write_type_len m v"
  have "cbor_read_len (mk_cursor ?w) m = Some (v, adv (length ?w) (mk_cursor ?w))"
    by (rule rt.rd_wr [where zs = "[]"]) (use assms in simp_all)
  then obtain h zs where "?w = h @ zs" "is_head m v h" "length ?w = length h"
    by (auto simp: cbor_read_len_iff)
  then show ?thesis by simp
qed

lemma read_view_write:
  assumes "rest c = cbor_write_type_len m (of_nat (length v)) @ v @ zs" and "m < 8" and "length v < 2 ^ 32"
  shows "read_view c m = Some (v, adv (length (cbor_write_type_len m (of_nat (length v))) + length v) c)"
  unfolding read_view_def using assms by (intro rt.rd_view) (auto simp: u32_le)

lemma cbor_write_strings [simp]:
  "cbor_write_view_text v = cbor_write_text v"
  "cbor_write_bstr v = cbor_write_type_len 2 (of_nat (length v)) @ v"
  by (simp_all add: cbor_write_view_text_def cbor_write_text_def cbor_write_bstr_def)

lemma length_cbor_write:
  "length v < 2 ^ 32 \<Longrightarrow> length (cbor_write_text v) = cbor_type_len_size (of_nat (length v)) + length v"
  "length v < 2 ^ 32 \<Longrightarrow> length (cbor_write_type_len 2 (of_nat (length v))) = cbor_type_len_size (of_nat (length v))"
  by (simp_all add: cbor_write_text_def rt.wr_size u32_le)

lemma value_write [codec_simps]:
  "rest c = cbor_write_text v @ zs \<Longrightarrow> length v < 2 ^ 32 \<Longrightarrow>
     cbor_read_text_key c = Some (v, adv (length (cbor_write_text v)) c)"
  "rest c = cbor_write_text v @ zs \<Longrightarrow> length v < 2 ^ 32 \<Longrightarrow> v \<noteq> [] \<Longrightarrow>
     parse_text_value_view c = Inr (v, adv (length (cbor_write_text v)) c)"
  "rest c = cbor_write_text v @ zs \<Longrightarrow> length v < 2 ^ 32 \<Longrightarrow>
     parse_text_value_view_allow_empty c = Inr (v, adv (length (cbor_write_text v)) c)"
  "rest c = cbor_write_bstr v @ zs \<Longrightarrow> length v < 2 ^ 32 \<Longrightarrow>
     parse_bstr_value_view c = Inr (v, adv (length (cbor_write_bstr v)) c)"
  "rest c = cbor_write_type_len 0 x @ zs \<Longrightarrow> x \<le> 0xffffffff \<Longrightarrow>
     cbor_read_len c 0 = Some (x, adv (length (cbor_write_type_len 0 x)) c)"
  by (simp_all add: cbor_read_text_key_def text_value_iff read_view_write cbor_write_text_def rt.rd_wr)

lemma key_eq_iff: "key_eq key want \<longleftrightarrow> key = want"
  by (auto simp: key_eq_def mem_compare_eq0)

lemma view_eq_iff: "bytes_view_eq v w \<longleftrightarrow> v = w" "object_name_eq v w \<longleftrightarrow> v = w"
  by (auto simp: bytes_view_eq_def object_name_eq_def mem_compare_eq0)

lemma entry_okI:
  assumes "\<And>c zs s. rest c = v @ zs \<Longrightarrow> field key c s = Inr (adv (length v) c, upd s)" and "length key < 2 ^ 32"
  shows "ta_entry_ok field (cbor_write_text key @ v, upd)"
  by (rule rtm.entryI [of _ key]) (use assms value_write(1) in auto)

text \<open>Entries as pairs of key and value, with the effect of each on the state of the parser.\<close>

definition with_effects :: "(bytes \<times> bytes) list \<Rightarrow> ('s \<Rightarrow> 's) list \<Rightarrow> (bytes \<times> ('s \<Rightarrow> 's)) list" where
  "with_effects kvs us = map (\<lambda>(kv, u). (cbor_write_text (fst kv) @ snd kv, u)) (zip kvs us)"

lemma with_effects_ok:
  "\<forall>e \<in> set (with_effects [] us). ta_entry_ok field e"
  "(\<And>c zs s. rest c = v @ zs \<Longrightarrow> field k c s = Inr (adv (length v) c, u s)) \<Longrightarrow> length k < 2 ^ 32 \<Longrightarrow>
   \<forall>e \<in> set (with_effects kvs us). ta_entry_ok field e \<Longrightarrow>
   \<forall>e \<in> set (with_effects ((k, v) # kvs) (u # us)). ta_entry_ok field e"
  using entry_okI [of v field k u] by (simp_all add: with_effects_def)

lemma ucast_u32_le: "ucast (x :: u32) \<le> (0xffffffff :: u64)"
proof -
  have "unat (ucast x :: u64) < 2 ^ 32" using unsigned_less [of x, where ?'a = nat] by (simp add: unsigned_ucast_eq take_bit_nat_eq_self)
  then show ?thesis by (simp add: word_le_nat_alt)
qed

lemma ucast_u32_u64 [simp]: "ucast (ucast (x :: u32) :: u64) = x"
  by (rule ucast_up_ucast_id) (simp add: is_up.rep_eq)

lemma ucast_u32_0 [simp]: "ucast (x :: u32) = (0 :: u64) \<longleftrightarrow> x = 0"
  by (metis ucast_0 ucast_u32_u64)

lemma map_heads: "is_head 5 2 [0xa2]" "is_head 5 3 [0xa3]" "is_head 5 7 [0xa7]" "is_head 5 11 [0xab]"
  by (simp_all add: is_head_def)

lemma insecure_value: "rest c = (if b then 0xf5 else 0xf4) # zs \<Longrightarrow> parse_bool_value c = Inr (adv 1 c)"
  using length_rest_pos [of c] nth_rest [of c] by (auto simp: parse_bool_value_def)

lemma timeout_value:
  "rest c = cbor_write_type_len 0 (ucast (t :: u32)) @ zs \<Longrightarrow>
     parse_uint32_value c = Inr (t, adv (length (cbor_write_type_len 0 (ucast t))) c)"
  by (simp add: parse_uint32_value_def value_write(5) ucast_u32_le not_less)

lemma skip_item_write: "cbor_item 8 s \<Longrightarrow> rest c = s @ zs \<Longrightarrow> skip_value c = Inr (adv (length s) c)"
proof -
  assume "cbor_item 8 s" "rest c = s @ zs"
  then have "cbor_skip_item 0 c = Some (adv (length s) c)" by (auto simp: cbor_skip_item_iff)
  then show ?thesis by (simp add: skip_value_def)
qed

lemma item_write:
  "length v < 2 ^ 32 \<Longrightarrow> cbor_item d (cbor_write_text v)"
  "length v < 2 ^ 32 \<Longrightarrow> cbor_item d (cbor_write_bstr v)"
  "x \<le> 0xffffffff \<Longrightarrow> cbor_item d (cbor_write_type_len 0 x)"
proof -
  have len: "length v = unat (of_nat (length v) :: u64)" if "length v < 2 ^ 32" for v :: bytes
    using that by (simp add: unat_of_nat_u64)
  show "length v < 2 ^ 32 \<Longrightarrow> cbor_item d (cbor_write_text v)"
    unfolding cbor_write_text_def by (rule str_item [of 3 "of_nat (length v)"]) (simp_all add: is_head_write u32_le len [symmetric])
  show "length v < 2 ^ 32 \<Longrightarrow> cbor_item d (cbor_write_bstr v)"
    unfolding cbor_write_strings by (rule str_item [of 2 "of_nat (length v)"]) (simp_all add: is_head_write u32_le len [symmetric])
  show "x \<le> 0xffffffff \<Longrightarrow> cbor_item d (cbor_write_type_len 0 x)"
    by (rule int_item [of 0 x]) (simp_all add: is_head_write)
qed

lemma skip_write:
  "rest c = cbor_write_text v @ zs \<Longrightarrow> length v < 2 ^ 32 \<Longrightarrow> skip_value c = Inr (adv (length (cbor_write_text v)) c)"
  "rest c = cbor_write_bstr v @ zs \<Longrightarrow> length v < 2 ^ 32 \<Longrightarrow> skip_value c = Inr (adv (length (cbor_write_bstr v)) c)"
  "rest c = cbor_write_type_len 0 x @ zs \<Longrightarrow> x \<le> 0xffffffff \<Longrightarrow>
     skip_value c = Inr (adv (length (cbor_write_type_len 0 x)) c)"
  by (blast intro: skip_item_write item_write)+

section \<open>What an accepted envelope guarantees\<close>

definition envelope_views :: "production_envelope_seen \<Rightarrow> bytes list" where
  "envelope_views s = [request_id_view s, command_view s, resolver_mode_view s, attestam_url_view s,
     app_input_view s, host_io_result_view s, wasm_view s, catalog_view s, app_wasm_view s,
     dev_agent_public_key_view s]"

definition envelope_inv :: "bytes \<Rightarrow> production_envelope_seen \<Rightarrow> bool" where
  "envelope_inv buf s \<longleftrightarrow> list_all (\<lambda>v. sublist v buf) (envelope_views s) \<and>
     (seen_request_id s \<longrightarrow> request_id_view s \<noteq> []) \<and> (seen_command s \<longrightarrow> command_view s \<noteq> []) \<and>
     (seen_resolver_mode s \<longrightarrow> resolver_mode_view s \<noteq> [])"

lemma envelope_inv_view:
  assumes "envelope_inv buf s" and "sublist v buf"
  shows "v \<noteq> [] \<Longrightarrow> envelope_inv buf (s\<lparr>resolver_mode_view := v, seen_resolver_mode := True\<rparr>)"
    and "envelope_inv buf (s\<lparr>attestam_url_view := v, seen_attestam_url := True\<rparr>)"
    and "v \<noteq> [] \<Longrightarrow> envelope_inv buf (s\<lparr>request_id_view := v, seen_request_id := True\<rparr>)"
    and "v \<noteq> [] \<Longrightarrow> envelope_inv buf (s\<lparr>command_view := v, seen_command := True\<rparr>)"
    and "envelope_inv buf (s\<lparr>app_input_view := v, seen_app_input_cbor := True\<rparr>)"
    and "envelope_inv buf (s\<lparr>host_io_result_view := v, seen_host_io_result_cbor := True\<rparr>)"
    and "envelope_inv buf (s\<lparr>wasm_view := v\<rparr>)" and "envelope_inv buf (s\<lparr>catalog_view := v\<rparr>)"
    and "envelope_inv buf (s\<lparr>app_wasm_view := v\<rparr>)" and "envelope_inv buf (s\<lparr>dev_agent_public_key_view := v\<rparr>)"
  using assms by (simp_all add: envelope_inv_def envelope_views_def)

lemma envelope_inv_flag:
  assumes "envelope_inv buf s"
  shows "envelope_inv buf (s\<lparr>seen_insecure := True\<rparr>)"
    and "envelope_inv buf (s\<lparr>default_timeout_ms_value := x, seen_default_timeout_ms := True\<rparr>)"
    and "envelope_inv buf (s\<lparr>seen_max_request_size := True\<rparr>)"
    and "envelope_inv buf (s\<lparr>seen_max_response_size := True\<rparr>)"
    and "envelope_inv buf (s\<lparr>request_timeout_ms_value := x, seen_request_timeout_ms := True\<rparr>)"
    and "envelope_inv buf (id s)"
  using assms by (simp_all add: envelope_inv_def envelope_views_def)

lemma envelope_field_inv:
  assumes w: "within buf c" and inv: "envelope_inv buf s" and res: "envelope_field key c s = Inr (c', s')"
  shows "within buf c' \<and> envelope_inv buf s'"
proof -
  note vw = value_within [OF w]
  note iv = envelope_inv_view [OF inv] envelope_inv_flag [OF inv]
  show ?thesis
    using res unfolding envelope_field_def
    by (elim if_chain)
      (elim storedE passedE, hypsubst, rule conjI, blast dest: vw, (rule iv; blast dest: vw))+
qed

lemma nothing_seen_inv: "envelope_inv buf nothing_seen"
  by (simp add: envelope_inv_def envelope_views_def nothing_seen_def)

lemma parse_envelope_inv:
  assumes "parse_production_envelope buf kind = Inr s"
  shows "envelope_inv buf s" and "envelope_complete kind s"
proof -
  have p: "parse_map envelope_field buf nothing_seen = Inr s" and "envelope_complete kind s"
    using assms by (auto simp: parse_production_envelope_def split: if_splits sum.splits)
  then show "envelope_complete kind s" by simp
  from p nothing_seen_inv show "envelope_inv buf s" by (rule parse_map_inv) (rule envelope_field_inv)
qed

section \<open>Properties\<close>

text \<open>
  C17. Skipping an unknown value is exact: the skipper succeeds precisely when the unread bytes begin
  with an item of the grammar with at most 8 levels of nesting, and it stops right behind that item.
  In particular an item is never a proper prefix of another one.
\<close>

theorem cbor_skip_exact:
  "cbor_skip_item 0 c = Some c' \<longleftrightarrow>
     (\<exists>s zs. rest c = s @ zs \<and> cbor_item 8 s \<and> c' = adv (length s) c)"
  using cbor_skip_item_iff [of 0] by simp

text \<open>
  C18. An accepted envelope is safe to use: every view is a part of the buffer that was received, the
  fields that its kind requires are present, and the identifiers among them are not empty.
\<close>

theorem envelope_accepted:
  assumes "parse_production_envelope buf kind = Inr s"
  shows "(\<forall>v \<in> set (envelope_views s). sublist v buf) \<and>
    (case kind of
       TWEP_TA_ENVELOPE_INIT \<Rightarrow> resolver_mode_view s \<noteq> [] \<and> seen_attestam_url s \<and> seen_insecure s \<and>
         seen_default_timeout_ms s \<and> seen_max_request_size s \<and> seen_max_response_size s
     | TWEP_TA_ENVELOPE_EXECUTE \<Rightarrow> request_id_view s \<noteq> [] \<and> command_view s \<noteq> [] \<and>
         seen_app_input_cbor s \<and> seen_request_timeout_ms s
     | TWEP_TA_ENVELOPE_RESUME_HOST_IO \<Rightarrow> request_id_view s \<noteq> [] \<and> seen_host_io_result_cbor s)"
  using parse_envelope_inv [OF assms]
  by (cases kind) (auto simp: envelope_inv_def envelope_complete_def list_all_iff)

section \<open>Concrete instances\<close>

definition envelope1 :: bytes where
  "envelope1 = [0xa3] @ cbor_write_text (ascii ''x'') @ [0x81, 0xf6] @
     cbor_write_text (ascii ''request_id'') @ cbor_write_text (ascii ''r1'') @
     cbor_write_text (ascii ''host_io_result_cbor'') @ cbor_write_bstr [0xa0]"

definition seen1 :: production_envelope_seen where
  "seen1 = nothing_seen\<lparr>request_id_view := ascii ''r1'', seen_request_id := True,
     host_io_result_view := [0xa0], seen_host_io_result_cbor := True\<rparr>"

lemma envelope1_parsed: "parse_production_envelope envelope1 TWEP_TA_ENVELOPE_RESUME_HOST_IO = Inr seen1"
  by code_simp

theorem envelope_accepted_witness:
  "list_all (\<lambda>v. sublist v envelope1) (envelope_views seen1) \<and> request_id_view seen1 \<noteq> [] \<and> seen_host_io_result_cbor seen1"
  using envelope_accepted [OF envelope1_parsed] by (simp add: list_all_iff)

end
