(* ===== verification/Storage_Commands.thy ===== *)
theory Storage_Commands
  imports Catalog_State Protected_App Runtime_Cbor
begin

text \<open>
  The commands of the trusted application that need no session: generic secure storage and the digest
  of a module (\<^verbatim>\<open>optee/twep-wr-ta/ta/ta_secure_storage.c\<close>), and the small commands of
  \<^verbatim>\<open>ta_basic_commands.c\<close>. A parameter of a command is a datatype with its type in the constructor; an
  output buffer has its size and, after the command, what was written to it. A handler returns its
  result and the parameters as the caller sees them afterwards.
\<close>

section \<open>Parameters\<close>

datatype tee_param =
  PARAM_NONE | VALUE_INPUT u32 u32 | VALUE_OUTPUT u32 u32 | VALUE_INOUT u32 u32
| MEMREF_INPUT bytes | MEMREF_OUTPUT nat "bytes option" | MEMREF_INOUT bytes

type_synonym 'w handler = "tee_param list \<Rightarrow> ('w, (tee_error + unit) \<times> tee_param list) state"

abbreviation refuse :: "tee_error \<Rightarrow> tee_param list \<Rightarrow> ('w, (tee_error + unit) \<times> tee_param list) state" where
  "refuse e ps \<equiv> State_Monad.return (Inl e, ps)"

text \<open>
  \<^verbatim>\<open>if (param_types != expected) return TEE_ERROR_BAD_PARAMETERS;\<close> for the four expected combinations of
  types: the values of the parameters when the types are the expected ones.
\<close>

fun two_inputs :: "tee_param list \<Rightarrow> (bytes \<times> bytes) option" where
  "two_inputs [MEMREF_INPUT a, MEMREF_INPUT b, PARAM_NONE, PARAM_NONE] = Some (a, b)"
| "two_inputs _ = None"

fun input_output :: "tee_param list \<Rightarrow> (bytes \<times> nat \<times> bytes option) option" where
  "input_output [MEMREF_INPUT a, MEMREF_OUTPUT cap out, PARAM_NONE, PARAM_NONE] = Some (a, cap, out)"
| "input_output _ = None"

fun one_output :: "tee_param list \<Rightarrow> (nat \<times> bytes option) option" where
  "one_output [MEMREF_OUTPUT cap out, PARAM_NONE, PARAM_NONE, PARAM_NONE] = Some (cap, out)"
| "one_output _ = None"

fun one_value :: "tee_param list \<Rightarrow> (bool \<times> u32 \<times> u32) option" where
  "one_value [VALUE_INOUT a b, PARAM_NONE, PARAM_NONE, PARAM_NONE] = Some (True, a, b)"
| "one_value [VALUE_OUTPUT a b, PARAM_NONE, PARAM_NONE, PARAM_NONE] = Some (False, a, b)"
| "one_value _ = None"

section \<open>Names\<close>

definition reserved_names :: "bytes list" where
  "reserved_names =
     [ascii ''twep-catalog-state.cbor'', ascii ''twep-catalog-state.0.cbor'', ascii ''twep-catalog-state.1.cbor'',
      ascii ''teep-agent/twep-catalog-state.cbor'', ascii ''teep-agent/twep-catalog-state.0.cbor'',
      ascii ''teep-agent/twep-catalog-state.1.cbor'']"

definition twep_ta_d047_object_name_reserved :: "bytes \<Rightarrow> bool" where
  "twep_ta_d047_object_name_reserved name =
     list_ex (\<lambda>r. length name = length r \<and> mem_compare name r = 0) reserved_names"

definition put_denied :: "bytes \<Rightarrow> bool" where
  "put_denied name \<longleftrightarrow>
     object_name_eq name (ascii ''verified-evidence-result.cbor'') \<or>
     object_name_eq name (ascii ''teep-acceptance-state.cbor'') \<or>
     object_name_eq name (ascii ''teep-acceptance-state.0.cbor'') \<or>
     object_name_eq name (ascii ''teep-acceptance-state.1.cbor'') \<or>
     twep_ta_d047_object_name_reserved name"

section \<open>Storage\<close>

definition twep_ta_cmd_measure_wasm :: "('w, 'h) tee_api \<Rightarrow> 'w handler" where
  "twep_ta_cmd_measure_wasm A ps =
     (case input_output ps of
        Some (wasm, cap, out) \<Rightarrow>
          if length wasm = 0 then refuse ERROR_BAD_PARAMETERS ps
          else if cap < 32 then refuse ERROR_SHORT_BUFFER (ps[1 := MEMREF_OUTPUT 32 out])
          else do {
            res \<leftarrow> twep_ta_sha256_bytes A wasm;
            case res of Inl e \<Rightarrow> refuse e ps
            | Inr dig \<Rightarrow> State_Monad.return (Inr (), ps[1 := MEMREF_OUTPUT 32 (Some dig)]) }
      | _ \<Rightarrow> refuse ERROR_BAD_PARAMETERS ps)"

definition storage_put :: "('w, 'h) tee_api \<Rightarrow> bytes \<Rightarrow> bytes \<Rightarrow> ('w, unit) tee" where
  "storage_put A name value = do {
     ok \<leftarrow> tee_malloc A (length name);
     if \<not> ok then throw ERROR_OUT_OF_MEMORY
     else do {
       ok \<leftarrow> tee_malloc A (length value);
       if \<not> ok then throw ERROR_OUT_OF_MEMORY
       else bind_ok (tee_create A name) (\<lambda>object. do {
         res \<leftarrow> tee_write A object value;
         case res of Inl e \<Rightarrow> do { _ \<leftarrow> tee_close_delete A object; throw e }
         | Inr _ \<Rightarrow> do { _ \<leftarrow> tee_close A object; success () } }) } }"

definition twep_ta_cmd_secure_storage_put :: "('w, 'h) tee_api \<Rightarrow> 'w handler" where
  "twep_ta_cmd_secure_storage_put A ps =
     (case two_inputs ps of
        Some (name, value) \<Rightarrow>
          if length name = 0 \<or> length value = 0 then refuse ERROR_BAD_PARAMETERS ps
          else if put_denied name then refuse ERROR_ACCESS_DENIED ps
          else do { res \<leftarrow> storage_put A name value; State_Monad.return (res, ps) }
      | _ \<Rightarrow> refuse ERROR_BAD_PARAMETERS ps)"

text \<open>The work between open and close; the result carries the size and what is written of the output.\<close>

definition storage_get_body ::
  "('w, 'h) tee_api \<Rightarrow> nat \<Rightarrow> bytes option \<Rightarrow> 'h \<Rightarrow> ('w, (tee_error + unit) \<times> nat \<times> bytes option) state" where
  "storage_get_body A cap out object =
     bind_or (\<lambda>e. (Inl e, cap, out)) (tee_info A object) (\<lambda>dataSize.
       if cap < dataSize then State_Monad.return (Inl ERROR_SHORT_BUFFER, dataSize, out)
       else do {
         ok \<leftarrow> tee_malloc A dataSize;
         if \<not> ok then State_Monad.return (Inl ERROR_OUT_OF_MEMORY, cap, out)
         else bind_or (\<lambda>e. (Inl e, cap, out)) (tee_read A object dataSize) (\<lambda>data.
           State_Monad.return (if length data \<noteq> dataSize then (Inl ERROR_CORRUPT_OBJECT, cap, out)
             else (Inr (), length data, Some data))) })"

definition storage_get :: "('w, 'h) tee_api \<Rightarrow> bytes \<Rightarrow> nat \<Rightarrow> bytes option \<Rightarrow>
    ('w, (tee_error + unit) \<times> nat \<times> bytes option) state" where
  "storage_get A name cap out = do {
     ok \<leftarrow> tee_malloc A (length name);
     if \<not> ok then State_Monad.return (Inl ERROR_OUT_OF_MEMORY, cap, out)
     else bind_or (\<lambda>e. (Inl e, cap, out)) (tee_open A name) (\<lambda>object. do {
       res \<leftarrow> storage_get_body A cap out object;
       _ \<leftarrow> tee_close A object;
       State_Monad.return res }) }"

definition twep_ta_cmd_secure_storage_get :: "('w, 'h) tee_api \<Rightarrow> 'w handler" where
  "twep_ta_cmd_secure_storage_get A ps =
     (case input_output ps of
        Some (name, cap, out) \<Rightarrow>
          if length name = 0 then refuse ERROR_BAD_PARAMETERS ps
          else if twep_ta_d047_object_name_reserved name then refuse ERROR_ACCESS_DENIED ps
          else do {
            (res, cap', out') \<leftarrow> storage_get A name cap out;
            State_Monad.return (res, ps[1 := MEMREF_OUTPUT cap' out']) }
      | _ \<Rightarrow> refuse ERROR_BAD_PARAMETERS ps)"

section \<open>Basic commands\<close>

definition twep_ta_cmd_ping :: "'w handler" where
  "twep_ta_cmd_ping ps =
     (case one_value ps of
        Some (True, a, b) \<Rightarrow>
          State_Monad.return (Inr (), ps[0 := VALUE_INOUT (a + 1) b])
      | _ \<Rightarrow> refuse ERROR_BAD_PARAMETERS ps)"

text \<open>The text depends on the backend named at compile time; it is copied with its terminating zero.\<close>

definition PLATFORM_STATUS :: "bytes \<Rightarrow> bytes" where
  "PLATFORM_STATUS backend =
     ascii ''platform-backend='' @ backend @ [10] @
     ascii ''sealed-storage-security=tee-ree-fs-secure-storage'' @ [10] @
     ascii ''sealed-storage-rollback-protected=false'' @ [10] @ ascii ''protected-storage=true'' @ [10] @
     ascii ''file-io=false'' @ [10] @ ascii ''random=false'' @ [10] @ ascii ''time=false'' @ [10] @
     ascii ''final-verified=false'' @ [10]"

text \<open>A constant answer in an output buffer.\<close>

definition constant_answer :: "nat \<Rightarrow> bytes \<Rightarrow> nat \<Rightarrow> bytes option \<Rightarrow> 'w handler" where
  "constant_answer i answer cap out ps =
     (if cap < length answer then refuse ERROR_SHORT_BUFFER (ps[i := MEMREF_OUTPUT (length answer) out])
      else State_Monad.return (Inr (), ps[i := MEMREF_OUTPUT (length answer) (Some answer)]))"

definition twep_ta_cmd_get_platform_status :: "bytes \<Rightarrow> 'w handler" where
  "twep_ta_cmd_get_platform_status backend ps =
     (case one_output ps of
        Some (cap, out) \<Rightarrow>
          constant_answer 0 (PLATFORM_STATUS backend @ [0]) cap out ps
      | _ \<Rightarrow> refuse ERROR_BAD_PARAMETERS ps)"

text \<open>\<open>random\<close> and \<open>time\<close> are the corresponding functions of the TEE.\<close>

definition twep_ta_cmd_get_random :: "(nat \<Rightarrow> ('w, bytes) state) \<Rightarrow> 'w handler" where
  "twep_ta_cmd_get_random random ps =
     (case one_output ps of
        Some (cap, out) \<Rightarrow>
          if cap = 0 then refuse ERROR_BAD_PARAMETERS ps
          else do { r \<leftarrow> random cap; State_Monad.return (Inr (), ps[0 := MEMREF_OUTPUT cap (Some r)]) }
      | _ \<Rightarrow> refuse ERROR_BAD_PARAMETERS ps)"

definition twep_ta_cmd_get_time :: "('w, u32 \<times> u32) state \<Rightarrow> 'w handler" where
  "twep_ta_cmd_get_time time ps =
     (case one_value ps of
        Some (False, a, b) \<Rightarrow> do {
          (seconds, millis) \<leftarrow> time;
          State_Monad.return (Inr (), ps[0 := VALUE_OUTPUT seconds millis]) }
      | _ \<Rightarrow> refuse ERROR_BAD_PARAMETERS ps)"

definition cbor_dry_run_response :: bytes where
  "cbor_dry_run_response = [0xa2, 0x64] @ ascii ''mode'' @ [0x6c] @ ascii ''cbor-dry-run'' @ [0x66] @ ascii ''status'' @
     [0x62] @ ascii ''ok''"

definition twep_ta_cmd_cbor_dry_run :: "'w handler" where
  "twep_ta_cmd_cbor_dry_run ps =
     (case input_output ps of
        Some (input, cap, out) \<Rightarrow>
          if length input = 0 then refuse ERROR_BAD_PARAMETERS ps
          else constant_answer 1 cbor_dry_run_response cap out ps
      | _ \<Rightarrow> refuse ERROR_BAD_PARAMETERS ps)"

section \<open>Effects on storage\<close>

text \<open>A written object, whatever the outcome of the write.\<close>

lemma hoare_storage_put:
  assumes laws: "storage_laws A objs hobj sha"
  shows "hoare (\<lambda>w. objs w = S) (storage_put A name value) (\<lambda>r w. slot_written S name value r (objs w))"
proof -
  have m: "hoare (\<lambda>w. objs w = S) (tee_malloc A n) (\<lambda>_ w. objs w = S)" for n
    using law_malloc [OF laws, of S _ n] by (auto simp: hoare_def)
  show ?thesis
    unfolding storage_put_def
    by (intro hoare_bind [OF m] hoare_if hoare_return hoare_create_write [OF laws]) (simp_all add: slot_written_def)
qed

lemma hoare_storage_put_reliable:
  assumes laws: "storage_laws A objs hobj sha" and rel: "storage_reliable A objs hobj"
  shows "hoare (\<lambda>w. objs w = S) (storage_put A name value) (\<lambda>r w. r = Inr () \<and> objs w = S(name := Some value))"
proof -
  have m: "hoare (\<lambda>w. objs w = S) (tee_malloc A n) (\<lambda>ok w. ok \<and> objs w = S)" for n
    using law_malloc [OF laws, of S _ n] rel_malloc [OF rel, of n] by (auto simp: hoare_def)
  show ?thesis
    unfolding storage_put_def
    by (rule hoare_bind [OF m], rule hoare_assume, simp, rule hoare_bind [OF m], rule hoare_assume, simp)
      (rule hoare_create_write_reliable [OF laws rel])
qed

text \<open>The objects that \<^verbatim>\<open>put\<close> refuses.\<close>

lemma reserved_iff: "twep_ta_d047_object_name_reserved name \<longleftrightarrow> name \<in> set reserved_names"
  by (auto simp: twep_ta_d047_object_name_reserved_def list_ex_iff mem_compare_eq0)

lemma put_denied_iff:
  "put_denied name \<longleftrightarrow> name \<in> {ascii ''verified-evidence-result.cbor'', ascii ''teep-acceptance-state.cbor'',
     slot0_id, slot1_id} \<union> set reserved_names"
  by (auto simp: put_denied_def view_eq_iff reserved_iff slot0_id_def slot1_id_def)

lemma put_run:
  assumes "storage_laws A objs hobj sha" and "storage_reliable A objs hobj"
    and "run_state (twep_ta_cmd_secure_storage_put A [MEMREF_INPUT name, MEMREF_INPUT v, PARAM_NONE, PARAM_NONE]) w = (r, w')"
    and "name \<noteq> []" "v \<noteq> []" "\<not> put_denied name"
  shows "fst r = Inr () \<and> objs w' = (objs w)(name := Some v)"
  using assms(3-6) hoare_storage_put_reliable [OF assms(1,2), of "objs w" name v]
  by (auto simp: twep_ta_cmd_secure_storage_put_def hoare_def split: prod.splits)

lemma put_frame:
  assumes laws: "storage_laws A objs hobj sha"
    and run: "run_state (twep_ta_cmd_secure_storage_put A ps) w = (r, w')" and nm: "put_denied nm"
  shows "objs w' nm = objs w nm"
proof -
  have "hoare (\<lambda>x. objs x = objs w) (storage_put A name v) (\<lambda>_ x. objs x nm = objs w nm)" if "\<not> put_denied name" for name v
    by (rule hoare_post [OF hoare_storage_put [OF laws]])
      (use that nm in \<open>auto simp: slot_written_def split: sum.splits\<close>)
  note put = hoareD [OF this refl]
  show ?thesis
    using run put
    by (cases "two_inputs ps") (auto simp: twep_ta_cmd_secure_storage_put_def split: if_splits prod.splits)
qed

text \<open>With a slot present the acceptance state does not depend on any other object.\<close>

lemma resolve_slots: "v0 \<noteq> Absent \<or> v1 \<noteq> Absent \<Longrightarrow> resolve v0 v1 l = resolve v0 v1 l'"
  by (cases v0; cases v1) (simp_all add: resolve_def)

lemma load_spec_slots:
  assumes "S slot0_id \<noteq> None \<or> S slot1_id \<noteq> None" and "T slot0_id = S slot0_id" and "T slot1_id = S slot1_id"
  shows "load_spec T = load_spec S"
proof -
  have "slot_view_of S slot0_id \<noteq> Absent \<or> slot_view_of S slot1_id \<noteq> Absent"
    using assms(1) by (simp add: slot_view_Absent)
  moreover have "slot_view_of T slot0_id = slot_view_of S slot0_id" "slot_view_of T slot1_id = slot_view_of S slot1_id"
    using assms(2,3) by (simp_all add: slot_view_of_def stored_def)
  ultimately show ?thesis unfolding load_spec_def by (simp only: resolve_slots [of _ _ "legacy_view T" "legacy_view S"])
qed

text \<open>An object that exists, on storage that does not fail.\<close>

lemma object_reliable:
  assumes laws: "storage_laws A objs hobj sha" and rel: "storage_reliable A objs hobj" and S: "S name = Some d"
  shows "hoare (\<lambda>w. objs w = S) (tee_open A name)
      (\<lambda>r w. case r of Inl _ \<Rightarrow> False | Inr h \<Rightarrow> objs w = S \<and> hobj w h = Some name)"
    and "hoare (\<lambda>w. objs w = S \<and> hobj w h = Some name) (tee_info A h)
      (\<lambda>r w. r = Inr (length d) \<and> objs w = S \<and> hobj w h = Some name)"
    and "hoare (\<lambda>w. objs w = S \<and> hobj w h = Some name) (tee_read A h (length d)) (\<lambda>r w. r = Inr d \<and> objs w = S)"
proof -
  show "hoare (\<lambda>w. objs w = S) (tee_open A name)
      (\<lambda>r w. case r of Inl _ \<Rightarrow> False | Inr h \<Rightarrow> objs w = S \<and> hobj w h = Some name)"
    using hoare_conj [OF law_open [OF laws, of S name] rel_open [OF rel, of S name]] S
    by (auto elim!: hoare_conseq split: sum.splits)
  show "hoare (\<lambda>w. objs w = S \<and> hobj w h = Some name) (tee_info A h)
      (\<lambda>r w. r = Inr (length d) \<and> objs w = S \<and> hobj w h = Some name)"
    using hoare_conj [OF law_info [OF laws, of S h name] rel_info [OF rel, of h name]] S
    by (auto elim!: hoare_conseq)
  show "hoare (\<lambda>w. objs w = S \<and> hobj w h = Some name) (tee_read A h (length d)) (\<lambda>r w. r = Inr d \<and> objs w = S)"
    using hoare_conj [OF law_read [OF laws, of S h name "length d"] rel_read [OF rel, of h name "length d"]] S
    by (auto elim!: hoare_conseq)
qed

lemma hoare_storage_get_reliable:
  assumes laws: "storage_laws A objs hobj sha" and rel: "storage_reliable A objs hobj"
    and "S name = Some d" and "length d \<le> cap"
  shows "hoare (\<lambda>w. objs w = S) (storage_get A name cap out)
     (\<lambda>r w. objs w = S \<and> r = (Inr (), length d, Some d))"
proof -
  let ?P = "\<lambda>h w. objs w = S \<and> hobj w h = Some name"
  let ?Q = "\<lambda>r w. objs w = S \<and> r = (Inr (), length d, Some d)"
  have m: "hoare (\<lambda>w. objs w = S) (tee_malloc A n) (\<lambda>ok w. ok \<and> objs w = S)"
    "hoare (?P h) (tee_malloc A n) (\<lambda>ok w. ok \<and> ?P h w)" for n h
    using law_malloc [OF laws, of S _ n] rel_malloc [OF rel, of n] by (auto simp: hoare_def)
  note ops = object_reliable [OF laws rel, of S name d, OF assms(3)]
  have body: "hoare (?P h) (storage_get_body A cap out h) ?Q" for h
    unfolding storage_get_body_def using assms(4)
    by (intro hoare_bind_ok_result [OF ops(2)]) (auto intro!: hoare_bind_true [OF m(2)] hoare_bind_ok_result [OF ops(3)] hoare_return)
  have close: "hoare (?Q r) (tee_close A h) (\<lambda>_. ?Q r)" for h r
    using law_close [OF laws, of S h] by (auto simp: hoare_def)
  show ?thesis
    unfolding storage_get_def
    by (rule hoare_bind_true [OF m(1)]) (auto intro!: hoare_bind_ok [OF ops(1)] hoare_bind [OF body] hoare_bind [OF close] hoare_return)
qed

section \<open>Properties\<close>

text \<open>
  C26. No \<^verbatim>\<open>put\<close> of the public storage commands, whatever its arguments and however storage fails,
  changes the catalog slots, the acceptance slots or the evidence result; so once an acceptance slot
  exists, the accepted generation and sequence numbers and the active catalog stay the same.
\<close>

theorem put_keeps_protected:
  assumes "storage_laws A objs hobj sha"
    and "run_state (twep_ta_cmd_secure_storage_put A ps) w = (r, w')"
    and "objs w slot0_id \<noteq> None \<or> objs w slot1_id \<noteq> None"
  shows "load_spec (objs w') = load_spec (objs w) \<and> catalog_spec sha (objs w') = catalog_spec sha (objs w) \<and>
     objs w' (ascii ''verified-evidence-result.cbor'') = objs w (ascii ''verified-evidence-result.cbor'')"
proof -
  note frame = put_frame [OF assms(1,2)]
  have load: "load_spec (objs w') = load_spec (objs w)"
    by (rule load_spec_slots) (use assms(3) in \<open>auto intro!: frame simp: put_denied_iff\<close>)
  have views: "catalog_view_of sha (objs w') k = catalog_view_of sha (objs w) k" for k
    by (rule catalog_view_cong, rule frame)
      (simp add: put_denied_iff catalog_slot_name_def catalog_slot0_id_def catalog_slot1_id_def reserved_names_def)
  have "catalog_spec sha (objs w') = catalog_spec sha (objs w)"
    unfolding catalog_spec_def sequence_spec_def load views ..
  moreover have "put_denied (ascii ''verified-evidence-result.cbor'')" by (simp add: put_denied_iff)
  ultimately show ?thesis using load frame by blast
qed

text \<open>
  An object that was put is read back, with its exact length, when the buffer is large enough.
\<close>

theorem put_then_get:
  assumes "storage_laws A objs hobj sha" and "storage_reliable A objs hobj"
    and "name \<noteq> []" "v \<noteq> []" "\<not> put_denied name" "length v \<le> cap"
    and "run_state (twep_ta_cmd_secure_storage_put A [MEMREF_INPUT name, MEMREF_INPUT v, PARAM_NONE, PARAM_NONE]) w = (r1, w1)"
    and "run_state (twep_ta_cmd_secure_storage_get A [MEMREF_INPUT name, MEMREF_OUTPUT cap out, PARAM_NONE, PARAM_NONE]) w1 = (r2, w2)"
  shows "fst r1 = Inr () \<and>
     r2 = (Inr (), [MEMREF_INPUT name, MEMREF_OUTPUT (length v) (Some v), PARAM_NONE, PARAM_NONE])"
proof -
  have p: "fst r1 = Inr ()" "objs w1 = (objs w)(name := Some v)"
    using put_run [OF assms(1,2,7,3-5)] by simp_all
  have res: "\<not> twep_ta_d047_object_name_reserved name" using assms(5) by (simp add: put_denied_def)
  have "hoare (\<lambda>x. objs x = objs w1) (storage_get A name cap out) (\<lambda>r x. objs x = objs w1 \<and> r = (Inr (), length v, Some v))"
    by (rule hoare_storage_get_reliable [OF assms(1,2)]) (use p assms(6) in auto)
  from hoareD [OF this refl]
  have "r2 = (Inr (), [MEMREF_INPUT name, MEMREF_OUTPUT (length v) (Some v), PARAM_NONE, PARAM_NONE])"
    using assms(3,8) res by (auto simp: twep_ta_cmd_secure_storage_get_def split: prod.splits)
  with p show ?thesis by simp
qed

text \<open>
  C27. The slots of the installed application are not among the refused names. Two \<^verbatim>\<open>put\<close> commands
  replace the installed application by any module, under any identifier and sequence number that the
  acceptance state knows, although the interface document says that the public storage commands
  cannot publish these slots.
\<close>

theorem app_slots_unprotected:
  assumes "storage_laws A objs hobj sha" and "storage_reliable A objs hobj"
    and "abs_load (objs w) = Some a" "acc_generation a \<noteq> 0" "acc_seqs a i = Some v" "v \<noteq> 0"
    and "twep_app_component_id_is_valid i" "wasm \<noteq> []" "length wasm \<le> TWEP_PROTECTED_APP_MAX_SIZE" "length (sha wasm) = 32"
    and "run_state (twep_ta_cmd_secure_storage_put A [MEMREF_INPUT app_slot1_id, MEMREF_INPUT [0], PARAM_NONE, PARAM_NONE]) w = (r1, w1)"
    and "run_state (twep_ta_cmd_secure_storage_put A [MEMREF_INPUT app_slot0_id,
      MEMREF_INPUT (app_record (acc_generation a) v i wasm (sha wasm)), PARAM_NONE, PARAM_NONE]) w1 = (r2, w2)"
  shows "fst r1 = Inr () \<and> fst r2 = Inr () \<and> abs_load (objs w2) = Some a \<and> app_of sha (objs w2) = Some (i, wasm)"
proof -
  let ?rec = "app_record (acc_generation a) v i wasm (sha wasm)"
  have free: "\<not> put_denied app_slot0_id" "\<not> put_denied app_slot1_id"
    by (simp_all add: put_denied_iff app_slot0_id_def app_slot1_id_def slot0_id_def slot1_id_def reserved_names_def)
  have ne: "?rec \<noteq> []" using length_app_record [OF assms(10), of "acc_generation a" v i wasm] by auto
  have p1: "fst r1 = Inr ()" "objs w1 = (objs w)(app_slot1_id := Some [0])"
    using put_run [OF assms(1,2,11) _ _ free(2)] by (simp_all add: app_slot1_id_def)
  have p2: "fst r2 = Inr ()" "objs w2 = (objs w1)(app_slot0_id := Some ?rec)"
    using put_run [OF assms(1,2,12) _ ne free(1)] by (simp_all add: app_slot0_id_def)
  let ?S = "(objs w)(app_slot_name 1 := Some [0], app_slot_name 0 := Some ?rec)"
  have S: "objs w2 = ?S" by (simp add: p1 p2 app_slot_name_def)
  have load: "abs_load ?S = Some a" by (simp add: abs_load_app_update assms(3))
  have s0: "app_stored sha ?S 0 = (Inr (), app_of_record 0 (acc_generation a) v i wasm (sha wasm))"
    by (rule app_stored_record) (use assms in auto)
  have s1: "app_stored sha ?S 1 = (Inl ERROR_BAD_FORMAT, zero_app\<lparr>app_raw := Some [0], app_slot := 1\<rparr>)"
    using app_slot_name_inj [of 0] by (simp add: app_stored_def app_parse_def APP_RECORD_MAX_SIZE_def APP_RECORD_HEADER_SIZE_def)
  have "resolve_app a (app_stored sha ?S 0) (app_stored sha ?S 1) = Inr (app_of_record 0 (acc_generation a) v i wasm (sha wasm))"
    unfolding s0 s1 using assms(4,5)
    by (subst resolve_app_one) (auto simp: app_live_def app_of_record_def zero_app_def)
  then have "app_of sha (objs w2) = Some (i, wasm)"
    by (simp add: S app_of_def app_spec_resolve [OF load] app_of_record_def)
  with p1 p2 load S show ?thesis by simp
qed

section \<open>Concrete instances\<close>

abbreviation put1 :: "device \<Rightarrow> ((tee_error + unit) \<times> tee_param list) \<times> device" where
  "put1 \<equiv> run_state (twep_ta_cmd_secure_storage_put (sim_api False)
     [MEMREF_INPUT (ascii ''x''), MEMREF_INPUT [1, 2], PARAM_NONE, PARAM_NONE])"

theorem put_keeps_protected_witness:
  "load_spec (dev_objs (snd (put1 app_dev))) = load_spec (dev_objs app_dev)"
proof -
  have "dev_objs app_dev slot0_id \<noteq> None \<or> dev_objs app_dev slot1_id \<noteq> None"
    by (simp add: app_dev_def app_slot0_id_def slot0_id_def)
  then show ?thesis
    using put_keeps_protected [OF sim_storage_laws prod.collapse [symmetric]] by blast
qed

theorem put_then_get_witness:
  "fst (run_state (twep_ta_cmd_secure_storage_get (sim_api False)
     [MEMREF_INPUT (ascii ''x''), MEMREF_OUTPUT 8 None, PARAM_NONE, PARAM_NONE]) (snd (put1 app_dev))) =
   (Inr (), [MEMREF_INPUT (ascii ''x''), MEMREF_OUTPUT 2 (Some [1, 2]), PARAM_NONE, PARAM_NONE])"
proof -
  have "\<not> put_denied (ascii ''x'')" by code_simp
  then show ?thesis
    using put_then_get [OF sim_storage_laws sim_storage_reliable _ _ _ _ prod.collapse [symmetric] prod.collapse [symmetric],
      of "ascii ''x''" "[1, 2]" 8 app_dev None] by simp
qed

theorem app_slots_unprotected_witness:
  "\<exists>d :: device. abs_load (dev_objs d) = Some (abs_of app_acc1) \<and> app_of toy_digest (dev_objs d) = Some (app_id1, [9])"
proof -
  have load: "abs_load (dev_objs app_dev) = Some (abs_of app_acc1)"
    by (rule abs_load_Inr [OF app_dev_facts(1)])
  have acc: "acc_generation (abs_of app_acc1) \<noteq> 0" "acc_seqs (abs_of app_acc1) app_id1 = Some 3" by code_simp+
  have w: "(3 :: u64) \<noteq> 0" "[9 :: byte] \<noteq> []" "length [9 :: byte] \<le> TWEP_PROTECTED_APP_MAX_SIZE" "length (toy_digest [9]) = 32"
    by (simp_all add: TWEP_PROTECTED_APP_MAX_SIZE_def)
  from app_slots_unprotected [OF sim_storage_laws sim_storage_reliable load acc w(1) app_dev_facts(4) w(2-4)
      prod.collapse [symmetric] prod.collapse [symmetric]]
  show ?thesis by blast
qed

end
