(* ===== verification/Host_Io.thy ===== *)
theory Host_Io
  imports Runtime_Cbor
begin

text \<open>
  Host operations that suspend a request (\<^verbatim>\<open>optee/twep-wr-ta/ta/ta_host_io_continuation.c\<close>). The
  trusted application cannot reach the network, so it answers a request with \<^verbatim>\<open>need_host_io\<close>, keeps
  what it needs to check the result in its session, and goes on when the host resumes the request.
  The state of a session and the two global counters of pending transcripts are the records of this
  theory; the operations work on the pair of the world of the TEE and that state.
\<close>

section \<open>State\<close>

definition TEEP_AGENT_HOST_IO_HISTORY_MAX :: nat where
  "TEEP_AGENT_HOST_IO_HISTORY_MAX = 8"

definition TEEP_AGENT_TRANSCRIPT_SIZE_MAX :: nat where
  "TEEP_AGENT_TRANSCRIPT_SIZE_MAX = 32 * 1024"

definition TEEP_AGENT_TRANSCRIPT_COUNT_MAX :: nat where
  "TEEP_AGENT_TRANSCRIPT_COUNT_MAX = 2"

definition TEEP_AGENT_TRANSCRIPT_AGGREGATE_SIZE_MAX :: nat where
  "TEEP_AGENT_TRANSCRIPT_AGGREGATE_SIZE_MAX = 64 * 1024"

definition PRODUCTION_DEFAULT_TIMEOUT_MS :: u32 where
  "PRODUCTION_DEFAULT_TIMEOUT_MS = 5000"

lemma transcript_limits [code_unfold]:
  "TEEP_AGENT_TRANSCRIPT_SIZE_MAX < n \<longleftrightarrow> 32768 < int n"
  "TEEP_AGENT_TRANSCRIPT_AGGREGATE_SIZE_MAX < n \<longleftrightarrow> 65536 < int n"
  "TEEP_AGENT_TRANSCRIPT_AGGREGATE_SIZE_MAX - m < n \<longleftrightarrow> (if int m \<le> 65536 then 65536 < int m + int n else 0 < n)"
  by (auto simp: TEEP_AGENT_TRANSCRIPT_SIZE_MAX_def TEEP_AGENT_TRANSCRIPT_AGGREGATE_SIZE_MAX_def)

datatype teep_agent_pending_hostcall =
  TEEP_AGENT_PENDING_NONE | TEEP_AGENT_PENDING_HTTP_POST | TEEP_AGENT_PENDING_CREATE_EVIDENCE

text \<open>
  A view into one of the storage arrays of the struct is the string it shows; \<open>ph_command\<close> is the
  string copied to \<^verbatim>\<open>command_storage\<close>.
\<close>

record pending_host_io_state =
  ph_active :: bool
  ph_http_transcript :: bool
  ph_sequence :: u64
  ph_request_id :: bytes
  ph_io_id :: bytes
  ph_kind :: bytes
  ph_normalized_input_sha256 :: bytes
  ph_request_body_sha256 :: bytes
  ph_request_body :: bytes
  ph_command :: bytes

definition zero_pending_host_io :: pending_host_io_state where
  "zero_pending_host_io = \<lparr>ph_active = False, ph_http_transcript = False, ph_sequence = 0,
     ph_request_id = [], ph_io_id = [], ph_kind = [], ph_normalized_input_sha256 = replicate 32 0,
     ph_request_body_sha256 = replicate 32 0, ph_request_body = [], ph_command = []\<rparr>"

record pending_teep_live_state =
  pl_active :: bool
  component_commit_recorded :: bool
  component_commit_kind :: byte
  component_commit_query_digest :: bytes
  component_commit_payload_digest :: bytes
  component_commit_sequence :: u64
  component_commit_expected_generation :: u64
  component_commit_new_generation :: u64
  component_commit_payload_len :: nat
  pl_wasm :: bytes
  pl_input :: bytes
  pl_app_input :: bytes
  pl_catalog :: bytes
  pl_app_wasm :: bytes
  pl_dev_agent_public_key :: bytes
  pl_request_id :: bytes
  pl_command :: bytes
  pl_history :: "(teep_agent_pending_hostcall \<times> bytes) list"

definition zero_pending_teep_live :: pending_teep_live_state where
  "zero_pending_teep_live = \<lparr>pl_active = False, component_commit_recorded = False,
     component_commit_kind = 0, component_commit_query_digest = replicate 32 0,
     component_commit_payload_digest = replicate 32 0, component_commit_sequence = 0,
     component_commit_expected_generation = 0, component_commit_new_generation = 0,
     component_commit_payload_len = 0, pl_wasm = [], pl_input = [], pl_app_input = [], pl_catalog = [],
     pl_app_wasm = [], pl_dev_agent_public_key = [], pl_request_id = [], pl_command = [], pl_history = []\<rparr>"

text \<open>
  \<^verbatim>\<open>struct teep_agent_live_session\<close>: the module is identified by the bytes it was loaded from.
\<close>

record teep_agent_live_session =
  ls_active :: bool
  ls_module :: "bytes option"
  ls_module_wasm :: "bytes option"

definition zero_live_session :: teep_agent_live_session where
  "zero_live_session = \<lparr>ls_active = False, ls_module = None, ls_module_wasm = None\<rparr>"

record twep_wr_session =
  default_timeout_ms :: u32
  request_timeout_ms :: u32
  pending_host_io :: pending_host_io_state
  pending_teep_live :: pending_teep_live_state
  live_session :: teep_agent_live_session

text \<open>
  The global variables with the session \<^verbatim>\<open>g_session\<close> points to while a command runs.
\<close>

record ta_state =
  g_pending_http_transcript_count :: nat
  g_pending_http_transcript_bytes :: nat
  g_wamr_runtime_initialized :: bool
  g_teep_agent_natives_registered :: bool
  g_teep_agent_live_session_count :: nat
  g_session :: twep_wr_session

abbreviation g_pending_host_io :: "ta_state \<Rightarrow> pending_host_io_state" where
  "g_pending_host_io t \<equiv> pending_host_io (g_session t)"

abbreviation g_pending_teep_live :: "ta_state \<Rightarrow> pending_teep_live_state" where
  "g_pending_teep_live t \<equiv> pending_teep_live (g_session t)"

definition set_pending_host_io :: "pending_host_io_state \<Rightarrow> ta_state \<Rightarrow> ta_state" where
  "set_pending_host_io p t = t\<lparr>g_session := (g_session t)\<lparr>pending_host_io := p\<rparr>\<rparr>"

definition set_pending_teep_live :: "pending_teep_live_state \<Rightarrow> ta_state \<Rightarrow> ta_state" where
  "set_pending_teep_live p t = t\<lparr>g_session := (g_session t)\<lparr>pending_teep_live := p\<rparr>\<rparr>"

text \<open>The world of the runtime: the TEE with its storage, and the variables of the application.\<close>

type_synonym ('w, 'a) ta = "('w \<times> ta_state, 'a) state"

definition in_tee :: "('w, 'a) state \<Rightarrow> ('w, 'a) ta" where
  "in_tee m = State (\<lambda>(w, t). case run_state m w of (r, w') \<Rightarrow> (r, (w', t)))"

definition get_ta :: "('w, ta_state) ta" where
  "get_ta = State (\<lambda>(w, t). (t, (w, t)))"

definition modify_ta :: "(ta_state \<Rightarrow> ta_state) \<Rightarrow> ('w, unit) ta" where
  "modify_ta f = State (\<lambda>(w, t). ((), (w, f t)))"

lemma run_ta [simp]:
  "run_state (in_tee m) (w, t) = (fst (run_state m w), (snd (run_state m w), t))"
  "run_state get_ta (w, t) = (t, (w, t))"
  "run_state (modify_ta f) (w, t) = ((), (w, f t))"
  by (simp_all add: in_tee_def get_ta_def modify_ta_def split: prod.split)

section \<open>The pending request\<close>

text \<open>\<^verbatim>\<open>len ? len : 1\<close>: a copy is allocated also for an empty string.\<close>

definition alloc_size :: "nat \<Rightarrow> nat" where
  "alloc_size n = (if n \<noteq> 0 then n else 1)"

definition pending_host_io_clear :: "ta_state \<Rightarrow> ta_state" where
  "pending_host_io_clear t =
     (let pending = g_pending_host_io t;
          t1 = (if ph_http_transcript pending
                then t\<lparr>g_pending_http_transcript_count :=
                         (if g_pending_http_transcript_count t \<noteq> 0
                          then g_pending_http_transcript_count t - 1 else g_pending_http_transcript_count t),
                       g_pending_http_transcript_bytes :=
                         (if g_pending_http_transcript_bytes t \<ge> length (ph_request_body pending)
                          then g_pending_http_transcript_bytes t - length (ph_request_body pending) else 0)\<rparr>
                else t)
      in set_pending_host_io zero_pending_host_io t1)"

definition transcript_refused :: "ta_state \<Rightarrow> nat \<Rightarrow> bool" where
  "transcript_refused t request_body_len \<longleftrightarrow>
     request_body_len > TEEP_AGENT_TRANSCRIPT_SIZE_MAX \<or>
     g_pending_http_transcript_count t \<ge> TEEP_AGENT_TRANSCRIPT_COUNT_MAX \<or>
     g_pending_http_transcript_bytes t > TEEP_AGENT_TRANSCRIPT_AGGREGATE_SIZE_MAX \<or>
     request_body_len > TEEP_AGENT_TRANSCRIPT_AGGREGATE_SIZE_MAX - g_pending_http_transcript_bytes t"

definition save_pending_host_io_request ::
  "('w, 'h) tee_api \<Rightarrow> bytes \<Rightarrow> bytes \<Rightarrow> bytes \<Rightarrow> bytes \<Rightarrow> bytes \<Rightarrow> bytes \<Rightarrow> ('w, tee_error + unit) ta" where
  "save_pending_host_io_request A request_id command input io_id kind request_body = do {
     _ \<leftarrow> modify_ta pending_host_io_clear;
     t \<leftarrow> get_ta;
     let http_transcript = (kind = ascii ''http_post'');
     if http_transcript \<and> transcript_refused t (length request_body)
     then State_Monad.return (Inl ERROR_EXCESS_DATA)
     else if length request_id = 0 \<or> length request_id \<ge> 64 \<or> length command = 0 \<or> length command \<ge> 64 \<or>
             length io_id \<ge> 64 \<or> length kind \<ge> 32
     then State_Monad.return (Inl ERROR_BAD_FORMAT)
     else do {
       ok \<leftarrow> in_tee (tee_malloc A (alloc_size (length request_body)));
       if \<not> ok then State_Monad.return (Inl ERROR_OUT_OF_MEMORY)
       else do {
         r1 \<leftarrow> in_tee (twep_ta_sha256_bytes A input);
         case r1 of
           Inl e \<Rightarrow> do { _ \<leftarrow> modify_ta pending_host_io_clear; State_Monad.return (Inl e) }
         | Inr input_sha \<Rightarrow> do {
             r2 \<leftarrow> in_tee (twep_ta_sha256_bytes A request_body);
             case r2 of
               Inl e \<Rightarrow> do { _ \<leftarrow> modify_ta pending_host_io_clear; State_Monad.return (Inl e) }
             | Inr body_sha \<Rightarrow> do {
                 _ \<leftarrow> modify_ta (\<lambda>t. set_pending_host_io
                   \<lparr>ph_active = True, ph_http_transcript = http_transcript, ph_sequence = 1,
                    ph_request_id = request_id, ph_io_id = io_id, ph_kind = kind,
                    ph_normalized_input_sha256 = input_sha, ph_request_body_sha256 = body_sha,
                    ph_request_body = request_body, ph_command = command\<rparr>
                   (if http_transcript
                    then t\<lparr>g_pending_http_transcript_count := g_pending_http_transcript_count t + 1,
                           g_pending_http_transcript_bytes := g_pending_http_transcript_bytes t + length request_body\<rparr>
                    else t));
                 State_Monad.return (Inr ()) } } } } }"

definition pending_request_matches :: "ta_state \<Rightarrow> bytes \<Rightarrow> bool" where
  "pending_request_matches t request_id \<longleftrightarrow>
     ph_active (g_pending_host_io t) \<and> length request_id = length (ph_request_id (g_pending_host_io t)) \<and>
     mem_compare request_id (ph_request_id (g_pending_host_io t)) = 0"

section \<open>Requests to the host\<close>

text \<open>
  A response builder computes its length first; \<open>out_len\<close> is \<open>None\<close> when the output parameter was
  not stored, and the bytes are the ones written to the caller's buffer.
\<close>

type_synonym built = "nat option \<times> (tee_error + bytes)"

definition need_host_io_len :: "bytes \<Rightarrow> bytes \<Rightarrow> bytes \<Rightarrow> bytes \<Rightarrow> nat" where
  "need_host_io_len request_id io_id url body =
     (let kind = ascii ''http_post'' in
      1 + 1 + 14 + 1 + 1 + 10 + cbor_type_len_size (of_nat (length request_id)) + length request_id + 1 +
      12 + 1 + 1 + 5 + cbor_type_len_size (of_nat (length io_id)) + length io_id + 1 + 4 +
      cbor_type_len_size (of_nat (length kind)) + length kind + 1 + 3 +
      cbor_type_len_size (of_nat (length url)) + length url + 1 + 4 +
      cbor_type_len_size (of_nat (length body)) + length body + 1 + 8 + 1 + 1 + 19 +
      cbor_type_len_size 32 + 32 + 1 + 23 + cbor_type_len_size 32 + 32)"

definition need_host_io_bytes :: "pending_host_io_state \<Rightarrow> bytes \<Rightarrow> bytes \<Rightarrow> bytes \<Rightarrow> bytes" where
  "need_host_io_bytes p io_id url body =
     [0xa3] @ cbor_write_text (ascii ''schema_version'') @ [0x01] @
     cbor_write_text (ascii ''request_id'') @ cbor_write_view_text (ph_request_id p) @
     cbor_write_text (ascii ''need_host_io'') @ [0xa7] @
     cbor_write_text (ascii ''io_id'') @ cbor_write_text io_id @
     cbor_write_text (ascii ''kind'') @ cbor_write_text (ascii ''http_post'') @
     cbor_write_text (ascii ''url'') @ cbor_write_text url @
     cbor_write_text (ascii ''body'') @ cbor_write_bstr body @
     cbor_write_text (ascii ''sequence'') @ [ucast (ph_sequence p)] @
     cbor_write_text (ascii ''request_body_sha256'') @ cbor_write_bstr (ph_request_body_sha256 p) @
     cbor_write_text (ascii ''normalized_input_sha256'') @ cbor_write_bstr (ph_normalized_input_sha256 p)"

definition build_need_host_io_response ::
  "('w, 'h) tee_api \<Rightarrow> bytes \<Rightarrow> bytes \<Rightarrow> bytes \<Rightarrow> bytes \<Rightarrow> bytes \<Rightarrow> bytes \<Rightarrow> nat \<Rightarrow> ('w, built) ta" where
  "build_need_host_io_response A request_id command input io_id url body out_size = do {
     res \<leftarrow> save_pending_host_io_request A request_id command input io_id (ascii ''http_post'') body;
     case res of
       Inl e \<Rightarrow> State_Monad.return (None, Inl e)
     | Inr _ \<Rightarrow>
       let len = need_host_io_len request_id io_id url body in
       if out_size < len then do {
         _ \<leftarrow> modify_ta pending_host_io_clear;
         State_Monad.return (Some len, Inl ERROR_SHORT_BUFFER) }
       else do {
         t \<leftarrow> get_ta;
         State_Monad.return (Some len, Inr (need_host_io_bytes (g_pending_host_io t) io_id url body)) } }"

definition need_evidence_len :: "bytes \<Rightarrow> bytes \<Rightarrow> bytes \<Rightarrow> nat" where
  "need_evidence_len request_id challenge agent_public_key_cose =
     (let io_id = ascii ''teep-evidence-1''; kind = ascii ''create_evidence'' in
      1 + 1 + 14 + 1 + 1 + 10 + cbor_type_len_size (of_nat (length request_id)) + length request_id + 1 +
      12 + 1 + 1 + 5 + cbor_type_len_size (of_nat (length io_id)) + length io_id + 1 + 4 +
      cbor_type_len_size (of_nat (length kind)) + length kind + 1 + 9 +
      cbor_type_len_size (of_nat (length challenge)) + length challenge + 1 + 21 +
      cbor_type_len_size (of_nat (length agent_public_key_cose)) + length agent_public_key_cose +
      1 + 8 + 1 + 1 + 19 + cbor_type_len_size 32 + 32 + 1 + 23 + cbor_type_len_size 32 + 32)"

definition need_evidence_bytes :: "pending_host_io_state \<Rightarrow> bytes \<Rightarrow> bytes \<Rightarrow> bytes \<Rightarrow> bytes" where
  "need_evidence_bytes p request_id challenge agent_public_key_cose =
     [0xa3] @ cbor_write_text (ascii ''schema_version'') @ [0x01] @
     cbor_write_text (ascii ''request_id'') @ cbor_write_view_text request_id @
     cbor_write_text (ascii ''need_host_io'') @ [0xa7] @
     cbor_write_text (ascii ''io_id'') @ cbor_write_text (ascii ''teep-evidence-1'') @
     cbor_write_text (ascii ''kind'') @ cbor_write_text (ascii ''create_evidence'') @
     cbor_write_text (ascii ''challenge'') @ cbor_write_bstr challenge @
     cbor_write_text (ascii ''agent_public_key_cose'') @ cbor_write_bstr agent_public_key_cose @
     cbor_write_text (ascii ''sequence'') @ [ucast (ph_sequence p)] @
     cbor_write_text (ascii ''request_body_sha256'') @ cbor_write_bstr (ph_request_body_sha256 p) @
     cbor_write_text (ascii ''normalized_input_sha256'') @ cbor_write_bstr (ph_normalized_input_sha256 p)"

definition build_need_evidence_response_with_payload ::
  "('w, 'h) tee_api \<Rightarrow> bytes \<Rightarrow> bytes \<Rightarrow> bytes \<Rightarrow> bytes \<Rightarrow> bytes \<Rightarrow> nat \<Rightarrow> ('w, built) ta" where
  "build_need_evidence_response_with_payload A request_id command input challenge agent_public_key_cose out_size = do {
     res \<leftarrow> save_pending_host_io_request A request_id command input
              (ascii ''teep-evidence-1'') (ascii ''create_evidence'') challenge;
     case res of
       Inl e \<Rightarrow> State_Monad.return (None, Inl e)
     | Inr _ \<Rightarrow>
       let len = need_evidence_len request_id challenge agent_public_key_cose in
       if out_size < len then do {
         _ \<leftarrow> modify_ta pending_host_io_clear;
         State_Monad.return (Some len, Inl ERROR_SHORT_BUFFER) }
       else do {
         t \<leftarrow> get_ta;
         State_Monad.return (Some len,
           Inr (need_evidence_bytes (g_pending_host_io t) request_id challenge agent_public_key_cose)) } }"

definition build_need_evidence_response ::
  "('w, 'h) tee_api \<Rightarrow> bytes \<Rightarrow> bytes \<Rightarrow> bytes \<Rightarrow> nat \<Rightarrow> ('w, built) ta" where
  "build_need_evidence_response A request_id command input out_size =
     build_need_evidence_response_with_payload A request_id command input
       [0x10, 0x11, 0x12, 0x13, 0x14, 0x15, 0x16, 0x17]
       ([0xa1, 0x61] @ ascii ''k'' @ [0x63] @ ascii ''dev'') out_size"

section \<open>Results from the host\<close>

text \<open>The six flags of \<^verbatim>\<open>host_io_result_ok\<close>.\<close>

record result_flags =
  io_id_ok :: bool
  kind_ok :: bool
  status_ok :: bool
  sequence_ok :: bool
  request_body_sha_ok :: bool
  normalized_input_sha_ok :: bool

definition no_flags :: result_flags where
  "no_flags = \<lparr>io_id_ok = False, kind_ok = False, status_ok = False, sequence_ok = False,
     request_body_sha_ok = False, normalized_input_sha_ok = False\<rparr>"

definition uint_value :: "cursor \<Rightarrow> tee_error + u64 \<times> cursor" where
  "uint_value c = (case cbor_read_len c 0 of None \<Rightarrow> Inl ERROR_BAD_FORMAT | Some r \<Rightarrow> Inr r)"

definition host_io_result_field :: "pending_host_io_state \<Rightarrow> (tee_error, result_flags) field_parser" where
  "host_io_result_field p key c s =
     (if key_eq key (ascii ''io_id'') then
        stored (\<lambda>v s. s\<lparr>io_id_ok := length v = length (ph_io_id p) \<and> mem_compare v (ph_io_id p) = 0\<rparr>) s
          (parse_text_value_view c)
      else if key_eq key (ascii ''kind'') then
        stored (\<lambda>v s. s\<lparr>kind_ok := length v = length (ph_kind p) \<and> mem_compare v (ph_kind p) = 0\<rparr>) s
          (parse_text_value_view c)
      else if key_eq key (ascii ''status'') then
        stored (\<lambda>v s. s\<lparr>status_ok := v = 0\<rparr>) s (uint_value c)
      else if key_eq key (ascii ''sequence'') then
        stored (\<lambda>v s. s\<lparr>sequence_ok := v = ph_sequence p\<rparr>) s (uint_value c)
      else if key_eq key (ascii ''request_body_sha256'') then
        stored (\<lambda>v s. s\<lparr>request_body_sha_ok := length v = 32 \<and> mem_compare v (ph_request_body_sha256 p) = 0\<rparr>) s
          (parse_bstr_value_view c)
      else if key_eq key (ascii ''normalized_input_sha256'') then
        stored (\<lambda>v s. s\<lparr>normalized_input_sha_ok := length v = 32 \<and> mem_compare v (ph_normalized_input_sha256 p) = 0\<rparr>) s
          (parse_bstr_value_view c)
      else passed id s (skip_value c))"

definition all_flags :: "result_flags \<Rightarrow> bool" where
  "all_flags s \<longleftrightarrow> io_id_ok s \<and> kind_ok s \<and> status_ok s \<and> sequence_ok s \<and> request_body_sha_ok s \<and>
     normalized_input_sha_ok s"

definition host_io_result_ok :: "pending_host_io_state \<Rightarrow> bytes \<Rightarrow> bool" where
  "host_io_result_ok p result =
     (if length result = 0 then False
      else case parse_map (host_io_result_field p) result no_flags of Inl _ \<Rightarrow> False | Inr s \<Rightarrow> all_flags s)"

section \<open>The continuation of the agent\<close>

definition pending_teep_live_clear :: "ta_state \<Rightarrow> ta_state" where
  "pending_teep_live_clear t = set_pending_teep_live zero_pending_teep_live t"

definition copy_view_alloc :: "('w, 'h) tee_api \<Rightarrow> bytes \<Rightarrow> (bytes \<Rightarrow> pending_teep_live_state \<Rightarrow> pending_teep_live_state) \<Rightarrow>
    ('w, tee_error + unit) ta" where
  "copy_view_alloc A view out = do {
     ok \<leftarrow> in_tee (tee_malloc A (alloc_size (length view)));
     if \<not> ok then State_Monad.return (Inl ERROR_OUT_OF_MEMORY)
     else do {
       _ \<leftarrow> modify_ta (\<lambda>t. set_pending_teep_live (out view (g_pending_teep_live t)) t);
       State_Monad.return (Inr ()) } }"

text \<open>\<^verbatim>\<open>goto err\<close>: the rest is done only after a success.\<close>

definition then_copy :: "('w, tee_error + unit) ta \<Rightarrow> ('w, tee_error + unit) ta \<Rightarrow> ('w, tee_error + unit) ta" where
  "then_copy m k = do { r \<leftarrow> m; case r of Inl e \<Rightarrow> State_Monad.return (Inl e) | Inr _ \<Rightarrow> k }"

definition pending_teep_live_save ::
  "('w, 'h) tee_api \<Rightarrow> bytes \<Rightarrow> bytes \<Rightarrow> bytes \<Rightarrow> bytes \<Rightarrow> bytes \<Rightarrow> bytes \<Rightarrow> bytes \<Rightarrow> bytes \<Rightarrow> ('w, tee_error + unit) ta" where
  "pending_teep_live_save A request_id command wasm input app_input catalog app_wasm dev_agent_public_key =
     (if length request_id = 0 \<or> length request_id \<ge> 64 \<or> length command = 0 \<or> length command \<ge> 64
      then State_Monad.return (Inl ERROR_BAD_FORMAT)
      else do {
        _ \<leftarrow> modify_ta pending_teep_live_clear;
        _ \<leftarrow> modify_ta (\<lambda>t. set_pending_teep_live
               ((g_pending_teep_live t)\<lparr>pl_request_id := request_id, pl_command := command\<rparr>) t);
        res \<leftarrow> then_copy (copy_view_alloc A wasm (\<lambda>v p. p\<lparr>pl_wasm := v\<rparr>))
              (then_copy (copy_view_alloc A input (\<lambda>v p. p\<lparr>pl_input := v\<rparr>))
              (then_copy (copy_view_alloc A app_input (\<lambda>v p. p\<lparr>pl_app_input := v\<rparr>))
              (then_copy (copy_view_alloc A catalog (\<lambda>v p. p\<lparr>pl_catalog := v\<rparr>))
              (then_copy (copy_view_alloc A app_wasm (\<lambda>v p. p\<lparr>pl_app_wasm := v\<rparr>))
                (copy_view_alloc A dev_agent_public_key (\<lambda>v p. p\<lparr>pl_dev_agent_public_key := v\<rparr>))))));
        case res of
          Inl e \<Rightarrow> do { _ \<leftarrow> modify_ta pending_teep_live_clear; State_Monad.return (Inl e) }
        | Inr _ \<Rightarrow> do {
            _ \<leftarrow> modify_ta (\<lambda>t. set_pending_teep_live ((g_pending_teep_live t)\<lparr>pl_active := True\<rparr>) t);
            State_Monad.return (Inr ()) } })"

definition pending_teep_live_append_history ::
  "('w, 'h) tee_api \<Rightarrow> teep_agent_pending_hostcall \<Rightarrow> bytes \<Rightarrow> ('w, tee_error + unit) ta" where
  "pending_teep_live_append_history A kind payload = do {
     t \<leftarrow> get_ta;
     if length (pl_history (g_pending_teep_live t)) \<ge> TEEP_AGENT_HOST_IO_HISTORY_MAX
     then State_Monad.return (Inl ERROR_OUT_OF_MEMORY)
     else do {
       ok \<leftarrow> in_tee (tee_malloc A (alloc_size (length payload)));
       if \<not> ok then State_Monad.return (Inl ERROR_OUT_OF_MEMORY)
       else do {
         _ \<leftarrow> modify_ta (\<lambda>t. set_pending_teep_live
                ((g_pending_teep_live t)\<lparr>pl_history := pl_history (g_pending_teep_live t) @ [(kind, payload)]\<rparr>) t);
         State_Monad.return (Inr ()) } } }"

record result_payload =
  rp_kind :: bytes
  rp_response_body :: bytes
  rp_evidence :: bytes

definition result_payload_field :: "(tee_error, result_payload) field_parser" where
  "result_payload_field key c s =
     (if key_eq key (ascii ''kind'') then stored (\<lambda>v s. s\<lparr>rp_kind := v\<rparr>) s (parse_text_value_view c)
      else if key_eq key (ascii ''response_body'') then
        stored (\<lambda>v s. s\<lparr>rp_response_body := v\<rparr>) s (parse_bstr_value_view c)
      else if key_eq key (ascii ''evidence'') then
        stored (\<lambda>v s. s\<lparr>rp_evidence := v\<rparr>) s (parse_bstr_value_view c)
      else passed id s (skip_value c))"

definition parse_host_io_result_payload :: "bytes \<Rightarrow> tee_error + teep_agent_pending_hostcall \<times> bytes" where
  "parse_host_io_result_payload result =
     (if length result = 0 then Inl ERROR_BAD_FORMAT
      else case parse_map result_payload_field result \<lparr>rp_kind = [], rp_response_body = [], rp_evidence = []\<rparr> of
        Inl _ \<Rightarrow> Inl ERROR_BAD_FORMAT
      | Inr s \<Rightarrow>
        if bytes_view_eq (rp_kind s) (ascii ''http_post'')
        then Inr (TEEP_AGENT_PENDING_HTTP_POST, rp_response_body s)
        else if bytes_view_eq (rp_kind s) (ascii ''create_evidence'')
        then Inr (TEEP_AGENT_PENDING_CREATE_EVIDENCE, rp_evidence s)
        else Inl ERROR_BAD_FORMAT)"

definition resume_response :: bytes where
  "resume_response = [0xa3, 0x6e] @ ascii ''schema_version'' @ [0x01, 0x66] @ ascii ''status'' @ [0x62] @
     ascii ''ok'' @ [0x66] @ ascii ''detail'' @ [0x6e] @ ascii ''host-io-resume''"

definition final_response_len :: "bytes \<Rightarrow> bytes \<Rightarrow> nat" where
  "final_response_len request_id final_response =
     1 + 1 + 14 + 1 + 1 + 10 + cbor_type_len_size (of_nat (length request_id)) + length request_id + 1 +
     19 + cbor_type_len_size (of_nat (length final_response)) + length final_response"

definition final_response_bytes :: "bytes \<Rightarrow> bytes \<Rightarrow> bytes" where
  "final_response_bytes request_id final_response =
     [0xa3] @ cbor_write_text (ascii ''schema_version'') @ [0x01] @
     cbor_write_text (ascii ''request_id'') @ cbor_write_view_text request_id @
     cbor_write_text (ascii ''final_response_cbor'') @ cbor_write_bstr final_response"

definition build_resume_final_response :: "bytes \<Rightarrow> bytes \<Rightarrow> nat \<Rightarrow> ('w, built) ta" where
  "build_resume_final_response request_id result out_size = do {
     t \<leftarrow> get_ta;
     if \<not> pending_request_matches t request_id \<or> \<not> host_io_result_ok (g_pending_host_io t) result
     then State_Monad.return (None, Inl ERROR_BAD_FORMAT)
     else do {
       _ \<leftarrow> modify_ta pending_host_io_clear;
       let len = final_response_len request_id resume_response;
       State_Monad.return (Some len,
         if out_size < len then Inl ERROR_SHORT_BUFFER
         else Inr (final_response_bytes request_id resume_response)) } }"

section \<open>Lengths\<close>

lemmas cbor_type_len_size_numeral [simp] = cbor_type_len_size_def [of "numeral k" for k]

lemma length_head_32 [simp]: "length (cbor_write_type_len 2 32) = 2"
  by (simp add: cbor_write_type_len_def)

lemma need_host_io_exact:
  assumes "length (ph_request_id p) < 2 ^ 32" and "length io_id < 2 ^ 32" and "length url < 2 ^ 32"
    and "length body < 2 ^ 32" and "length (ph_request_body_sha256 p) = 32" and "length (ph_normalized_input_sha256 p) = 32"
  shows "length (need_host_io_bytes p io_id url body) = need_host_io_len (ph_request_id p) io_id url body"
  using assms by (simp add: need_host_io_bytes_def need_host_io_len_def Let_def length_cbor_write)

lemma need_evidence_exact:
  assumes "length request_id < 2 ^ 32" and "length challenge < 2 ^ 32" and "length key < 2 ^ 32"
    and "length (ph_request_body_sha256 p) = 32" and "length (ph_normalized_input_sha256 p) = 32"
  shows "length (need_evidence_bytes p request_id challenge key) = need_evidence_len request_id challenge key"
  using assms by (simp add: need_evidence_bytes_def need_evidence_len_def Let_def length_cbor_write)

lemma final_response_exact:
  assumes "length request_id < 2 ^ 32" and "length resp < 2 ^ 32"
  shows "length (final_response_bytes request_id resp) = final_response_len request_id resp"
  using assms by (simp add: final_response_bytes_def final_response_len_def length_cbor_write)

section \<open>The transcript budget\<close>

text \<open>
  The counters are shared by all sessions. \<open>transcript_inv bc bb\<close> says that they are the share of the
  current session plus \<open>bc\<close> and \<open>bb\<close>, the shares of the others, and that the limits hold.
\<close>

definition transcripts :: "pending_host_io_state \<Rightarrow> nat" where
  "transcripts p = (if ph_http_transcript p then 1 else 0)"

definition transcript_bytes :: "pending_host_io_state \<Rightarrow> nat" where
  "transcript_bytes p = (if ph_http_transcript p then length (ph_request_body p) else 0)"

definition transcript_inv :: "nat \<Rightarrow> nat \<Rightarrow> ta_state \<Rightarrow> bool" where
  "transcript_inv bc bb t \<longleftrightarrow>
     g_pending_http_transcript_count t = bc + transcripts (g_pending_host_io t) \<and>
     g_pending_http_transcript_bytes t = bb + transcript_bytes (g_pending_host_io t) \<and>
     g_pending_http_transcript_count t \<le> TEEP_AGENT_TRANSCRIPT_COUNT_MAX \<and>
     g_pending_http_transcript_bytes t \<le> TEEP_AGENT_TRANSCRIPT_AGGREGATE_SIZE_MAX \<and>
     transcript_bytes (g_pending_host_io t) \<le> TEEP_AGENT_TRANSCRIPT_SIZE_MAX"

text \<open>\<open>preserves I m\<close>: a computation of the runtime that keeps a property of its variables.\<close>

definition preserves :: "(ta_state \<Rightarrow> bool) \<Rightarrow> ('w, 'a) ta \<Rightarrow> bool" where
  "preserves I m \<longleftrightarrow> hoare (\<lambda>s. I (snd s)) m (\<lambda>_ s. I (snd s))"

named_theorems preserve \<open>rules for computations that keep an invariant\<close>

lemma preservesD: "preserves I m \<Longrightarrow> run_state m (w, t) = (r, (w', t')) \<Longrightarrow> I t \<Longrightarrow> I t'"
  unfolding preserves_def by (drule hoareD) auto

lemma preserves_return [preserve]: "preserves I (State_Monad.return x)"
  by (simp add: preserves_def hoare_def)

lemma preserves_bind [preserve]: "preserves I m \<Longrightarrow> (\<And>x. preserves I (f x)) \<Longrightarrow> preserves I (State_Monad.bind m f)"
  unfolding preserves_def by (rule hoare_bind)

lemma preserves_in_tee [preserve]: "preserves I (in_tee m)"
  by (auto simp: preserves_def hoare_def)

lemma preserves_get [preserve]: "preserves I get_ta"
  by (auto simp: preserves_def hoare_def)

lemma preserves_modify [preserve]: "(\<And>t. I t \<Longrightarrow> I (f t)) \<Longrightarrow> preserves I (modify_ta f)"
  by (auto simp: preserves_def hoare_def)

lemma preserves_if [preserve]: "preserves I m \<Longrightarrow> preserves I m' \<Longrightarrow> preserves I (if b then m else m')"
  by simp

lemma preserves_case_sum [preserve]:
  "(\<And>e. preserves I (f e)) \<Longrightarrow> (\<And>x. preserves I (g x)) \<Longrightarrow> preserves I (case r of Inl e \<Rightarrow> f e | Inr x \<Rightarrow> g x)"
  by (simp split: sum.split)

lemma preserves_case_option [preserve]:
  "preserves I n \<Longrightarrow> (\<And>x. preserves I (g x)) \<Longrightarrow> preserves I (case r of None \<Rightarrow> n | Some x \<Rightarrow> g x)"
  by (simp split: option.split)

lemma preserves_case_prod [preserve]:
  "(\<And>x y. preserves I (f x y)) \<Longrightarrow> preserves I (case r of (x, y) \<Rightarrow> f x y)"
  by (simp split: prod.split)

lemma preserves_let [preserve]: "preserves I (f x) \<Longrightarrow> preserves I (let y = x in f y)"
  by simp

lemma g_set_pending [simp]:
  "g_pending_host_io (set_pending_host_io p t) = p"
  "g_pending_http_transcript_count (set_pending_host_io p t) = g_pending_http_transcript_count t"
  "g_pending_http_transcript_bytes (set_pending_host_io p t) = g_pending_http_transcript_bytes t"
  "g_pending_teep_live (set_pending_host_io p t) = g_pending_teep_live t"
  "g_pending_host_io (set_pending_teep_live q t) = g_pending_host_io t"
  "g_pending_http_transcript_count (set_pending_teep_live q t) = g_pending_http_transcript_count t"
  "g_pending_http_transcript_bytes (set_pending_teep_live q t) = g_pending_http_transcript_bytes t"
  "g_pending_teep_live (set_pending_teep_live q t) = q"
  by (simp_all add: set_pending_host_io_def set_pending_teep_live_def)

lemma zero_transcripts [simp]: "transcripts zero_pending_host_io = 0" "transcript_bytes zero_pending_host_io = 0"
  by (simp_all add: transcripts_def transcript_bytes_def zero_pending_host_io_def)

text \<open>Clearing gives back exactly the share of the session.\<close>

lemma clear_transcript:
  "transcript_inv bc bb t \<Longrightarrow> transcript_inv bc bb (pending_host_io_clear t) \<and>
     g_pending_http_transcript_count (pending_host_io_clear t) = bc \<and>
     g_pending_http_transcript_bytes (pending_host_io_clear t) = bb"
  by (auto simp: transcript_inv_def pending_host_io_clear_def Let_def transcripts_def [of "g_pending_host_io t"]
      transcript_bytes_def [of "g_pending_host_io t"] split: if_splits)

lemma transcript_inv_live [simp]: "transcript_inv bc bb (set_pending_teep_live q t) = transcript_inv bc bb t"
  by (simp add: transcript_inv_def)

lemma transcript_inv_clear_live [simp]: "transcript_inv bc bb (pending_teep_live_clear t) = transcript_inv bc bb t"
  by (simp add: pending_teep_live_clear_def)

lemma preserves_save:
  "preserves (transcript_inv bc bb) (save_pending_host_io_request A request_id command input io_id kind body)"
proof -
  let ?I = "transcript_inv bc bb"
  have fin: "?I (set_pending_host_io
       \<lparr>ph_active = True, ph_http_transcript = http, ph_sequence = 1, ph_request_id = request_id, ph_io_id = io_id,
        ph_kind = kind, ph_normalized_input_sha256 = d1, ph_request_body_sha256 = d2, ph_request_body = body,
        ph_command = command\<rparr>
       (if http then t\<lparr>g_pending_http_transcript_count := g_pending_http_transcript_count t + 1,
              g_pending_http_transcript_bytes := g_pending_http_transcript_bytes t + length body\<rparr> else t))"
    if "?I t" "ph_http_transcript (g_pending_host_io t) = False" "http \<Longrightarrow> \<not> transcript_refused t (length body)" for http d1 d2 t
    using that by (auto simp: transcript_inv_def transcript_refused_def transcripts_def transcript_bytes_def)
  have cl: "\<not> ph_http_transcript (g_pending_host_io (pending_host_io_clear t))" for t
    by (simp add: pending_host_io_clear_def Let_def zero_pending_host_io_def)
  have ok: "?I (pending_host_io_clear t)" if "?I t" for t using clear_transcript that by blast
  show ?thesis
    unfolding preserves_def hoare_def save_pending_host_io_request_def
    using ok fin [where http = True] fin [where http = False] cl
    by (auto simp: Let_def split: sum.split prod.split)
qed

lemma preserves_copy: "preserves (transcript_inv bc bb) (copy_view_alloc A v out)"
  unfolding copy_view_alloc_def by (intro preserve) simp

lemma preserves_then_copy: "preserves I m \<Longrightarrow> preserves I k \<Longrightarrow> preserves I (then_copy m k)"
  unfolding then_copy_def by (intro preserve)

lemma preserves_host_io:
  "preserves (transcript_inv bc bb) (build_need_host_io_response A i c inp io url body n)"
  "preserves (transcript_inv bc bb) (build_need_evidence_response_with_payload A i c inp ch key n)"
  "preserves (transcript_inv bc bb) (build_need_evidence_response A i c inp n)"
  "preserves (transcript_inv bc bb) (build_resume_final_response i r n)"
  "preserves (transcript_inv bc bb) (pending_teep_live_save A i c wasm inp ai cat aw key)"
  "preserves (transcript_inv bc bb) (pending_teep_live_append_history A k p)"
  unfolding build_need_host_io_response_def build_need_evidence_response_def
    build_need_evidence_response_with_payload_def build_resume_final_response_def pending_teep_live_save_def
    pending_teep_live_append_history_def
  by (intro preserve preserves_save preserves_copy preserves_then_copy; use clear_transcript in force)+

section \<open>What is pending after a request\<close>

lemma sha256_bytes_law:
  assumes "storage_laws A objs hobj sha"
  shows "hoare (\<lambda>w. objs w = S) (twep_ta_sha256_bytes A bs)
     (\<lambda>r w. objs w = S \<and> (\<forall>d. r = Inr d \<longrightarrow> d = sha bs \<and> length d = 32))"
  unfolding twep_ta_sha256_bytes_def
  by (intro hoare_bind_ok [OF law_digest_alloc [OF assms]] hoare_bind [OF law_digest_final [OF assms]] hoare_return)
    (auto split: sum.splits if_splits)

definition saved_request :: "(bytes \<Rightarrow> bytes) \<Rightarrow> bytes \<Rightarrow> bytes \<Rightarrow> bytes \<Rightarrow> bytes \<Rightarrow> bytes \<Rightarrow> bytes \<Rightarrow> pending_host_io_state" where
  "saved_request sha request_id command input io_id kind body =
     \<lparr>ph_active = True, ph_http_transcript = (kind = ascii ''http_post''), ph_sequence = 1,
      ph_request_id = request_id, ph_io_id = io_id, ph_kind = kind,
      ph_normalized_input_sha256 = sha input, ph_request_body_sha256 = sha body,
      ph_request_body = body, ph_command = command\<rparr>"

definition request_fits :: "bytes \<Rightarrow> bytes \<Rightarrow> bytes \<Rightarrow> bytes \<Rightarrow> bytes \<Rightarrow> bool" where
  "request_fits request_id command io_id kind body \<longleftrightarrow> request_id \<noteq> [] \<and> length request_id < 64 \<and>
     command \<noteq> [] \<and> length command < 64 \<and> length io_id < 64 \<and> length kind < 32 \<and>
     (kind = ascii ''http_post'' \<longrightarrow> length body \<le> TEEP_AGENT_TRANSCRIPT_SIZE_MAX)"

lemma sha256_run:
  assumes "storage_laws A objs hobj sha" and "run_state (twep_ta_sha256_bytes A bs) w = (r, w')"
  shows "objs w' = objs w" and "r = Inr d \<Longrightarrow> d = sha bs \<and> length d = 32"
  using hoareD [OF sha256_bytes_law [OF assms(1)] refl assms(2)] by auto

lemma malloc_run:
  assumes "storage_laws A objs hobj sha" and "run_state (tee_malloc A n) w = (r, w')"
  shows "objs w' = objs w"
  using hoareD [OF law_malloc [OF assms(1), of "objs w" "hobj w" n] _ assms(2)] by simp

lemma save_request:
  assumes laws: "storage_laws A objs hobj sha"
    and run: "run_state (save_pending_host_io_request A request_id command input io_id kind body) (w, t) = (r, (w', t'))"
  shows "objs w' = objs w"
    and "r = Inr x \<Longrightarrow> g_pending_host_io t' = saved_request sha request_id command input io_id kind body \<and>
       request_fits request_id command io_id kind body \<and> length (sha input) = 32 \<and> length (sha body) = 32"
    and "r = Inl e \<Longrightarrow> g_pending_host_io t' = zero_pending_host_io"
proof -
  have clear: "g_pending_host_io (pending_host_io_clear t) = zero_pending_host_io" for t
    by (simp add: pending_host_io_clear_def Let_def)
  obtain m w1 where m: "run_state (tee_malloc A (alloc_size (length body))) w = (m, w1)" by fastforce
  obtain r1 w2 where r1: "run_state (twep_ta_sha256_bytes A input) w1 = (r1, w2)" by fastforce
  obtain r2 w3 where r2: "run_state (twep_ta_sha256_bytes A body) w2 = (r2, w3)" by fastforce
  note facts = malloc_run [OF laws m] sha256_run [OF laws r1] sha256_run [OF laws r2]
  note unf = save_pending_host_io_request_def Let_def m r1 r2
  show "objs w' = objs w"
    using run facts by (auto simp: unf split: if_splits sum.splits)
  show "r = Inl e \<Longrightarrow> g_pending_host_io t' = zero_pending_host_io"
    using run by (auto simp: unf clear split: if_splits sum.splits)
  show "r = Inr x \<Longrightarrow> g_pending_host_io t' = saved_request sha request_id command input io_id kind body \<and>
       request_fits request_id command io_id kind body \<and> length (sha input) = 32 \<and> length (sha body) = 32"
    using run facts
    by (auto simp: unf saved_request_def request_fits_def transcript_refused_def split: if_splits sum.splits)
qed

text \<open>A built request is what was saved, and it fills the space computed for it exactly.\<close>

lemma need_host_io_built:
  assumes laws: "storage_laws A objs hobj sha"
    and run: "run_state (build_need_host_io_response A request_id command input io_id url body out_size) (w, t) =
      ((len, Inr out), (w', t'))"
    and url: "length url < 2 ^ 32"
  shows "g_pending_host_io t' = saved_request sha request_id command input io_id (ascii ''http_post'') body"
    and "out = need_host_io_bytes (g_pending_host_io t') io_id url body"
    and "len = Some (length out)" and "length out \<le> out_size"
    and "request_fits request_id command io_id (ascii ''http_post'') body"
    and "length (sha input) = 32" and "length (sha body) = 32"
proof -
  let ?kind = "ascii ''http_post''"
  obtain r1 w1 t1 where s: "run_state (save_pending_host_io_request A request_id command input io_id ?kind body) (w, t) =
      (r1, (w1, t1))" by (metis surj_pair)
  from run s obtain u where r1: "r1 = Inr u"
    and res: "t' = t1" "out = need_host_io_bytes (g_pending_host_io t1) io_id url body"
      "len = Some (need_host_io_len request_id io_id url body)" "need_host_io_len request_id io_id url body \<le> out_size"
    by (auto simp: build_need_host_io_response_def Let_def split: sum.splits if_splits)
  note p = save_request(2) [OF laws s r1]
  then have "length out = need_host_io_len request_id io_id url body"
    unfolding res(2) using url
    by (subst need_host_io_exact)
      (auto simp: saved_request_def request_fits_def TEEP_AGENT_TRANSCRIPT_SIZE_MAX_def)
  with p res show "g_pending_host_io t' = saved_request sha request_id command input io_id ?kind body"
    "out = need_host_io_bytes (g_pending_host_io t') io_id url body"
    "len = Some (length out)" "length out \<le> out_size" "request_fits request_id command io_id ?kind body"
    "length (sha input) = 32" "length (sha body) = 32"
    by simp_all
qed

lemma need_evidence_built:
  assumes laws: "storage_laws A objs hobj sha"
    and run: "run_state (build_need_evidence_response_with_payload A request_id command input challenge key out_size) (w, t) =
      ((len, Inr out), (w', t'))"
    and sizes: "length challenge < 2 ^ 32" "length key < 2 ^ 32"
  shows "g_pending_host_io t' = saved_request sha request_id command input (ascii ''teep-evidence-1'') (ascii ''create_evidence'') challenge"
    and "out = need_evidence_bytes (g_pending_host_io t') request_id challenge key"
    and "len = Some (length out)" and "length out \<le> out_size"
proof -
  let ?kind = "ascii ''create_evidence''" and ?io = "ascii ''teep-evidence-1''"
  obtain r1 w1 t1 where s: "run_state (save_pending_host_io_request A request_id command input ?io ?kind challenge) (w, t) =
      (r1, (w1, t1))" by (metis surj_pair)
  from run s obtain u where r1: "r1 = Inr u"
    and res: "t' = t1" "out = need_evidence_bytes (g_pending_host_io t1) request_id challenge key"
      "len = Some (need_evidence_len request_id challenge key)" "need_evidence_len request_id challenge key \<le> out_size"
    by (auto simp: build_need_evidence_response_with_payload_def Let_def split: sum.splits if_splits)
  note p = save_request(2) [OF laws s r1]
  then have "length out = need_evidence_len request_id challenge key"
    unfolding res(2) using sizes
    by (subst need_evidence_exact) (auto simp: saved_request_def request_fits_def)
  with p res show "g_pending_host_io t' = saved_request sha request_id command input ?io ?kind challenge"
    "out = need_evidence_bytes (g_pending_host_io t') request_id challenge key"
    "len = Some (length out)" "length out \<le> out_size"
    by simp_all
qed

section \<open>Accepted results\<close>

definition result_inv :: "pending_host_io_state \<Rightarrow> bytes \<Rightarrow> result_flags \<Rightarrow> bool" where
  "result_inv p result s \<longleftrightarrow> (io_id_ok s \<longrightarrow> sublist (ph_io_id p) result) \<and> (kind_ok s \<longrightarrow> sublist (ph_kind p) result) \<and>
     (request_body_sha_ok s \<longrightarrow> sublist (ph_request_body_sha256 p) result) \<and>
     (normalized_input_sha_ok s \<longrightarrow> sublist (ph_normalized_input_sha256 p) result)"

lemma result_field_inv:
  assumes w: "within buf c" and inv: "result_inv p buf s" and res: "host_io_result_field p key c s = Inr (c', s')"
    and sha: "length (ph_request_body_sha256 p) = 32" "length (ph_normalized_input_sha256 p) = 32"
  shows "within buf c' \<and> result_inv p buf s'"
proof -
  have u: "within buf c'" if "uint_value c = Inr (x, c')" for x
    using that cbor_read_len_within [OF w, of 0] by (auto simp: uint_value_def split: option.splits)
  show ?thesis
    using res unfolding host_io_result_field_def
    by (elim if_chain; elim storedE passedE; hypsubst)
      (use inv u value_within [OF w] sha in \<open>auto simp: result_inv_def mem_compare_eq0\<close>)
qed

lemma result_accepted:
  assumes "host_io_result_ok p result" and "length (ph_request_body_sha256 p) = 32"
    and "length (ph_normalized_input_sha256 p) = 32"
  shows "sublist (ph_io_id p) result \<and> sublist (ph_kind p) result \<and>
     sublist (ph_request_body_sha256 p) result \<and> sublist (ph_normalized_input_sha256 p) result"
proof -
  from assms(1) obtain s where p: "parse_map (host_io_result_field p) result no_flags = Inr s" and "all_flags s"
    by (auto simp: host_io_result_ok_def split: if_splits sum.splits)
  have "result_inv p result no_flags" by (simp add: result_inv_def no_flags_def)
  with p have "result_inv p result s"
    by (rule parse_map_inv) (rule result_field_inv [OF _ _ _ assms(2,3)])
  with \<open>all_flags s\<close> show ?thesis by (simp add: result_inv_def all_flags_def)
qed

section \<open>Properties\<close>

text \<open>
  A request to the host is self-consistent: the bytes handed out fill exactly the length that was
  announced and stay within the caller's buffer, and what is kept for the resumption is the request
  itself with the digests of the body and of the normalized input, both of them also in the message.
  The transcript is within the limit for a single one.
\<close>

theorem need_host_io_consistent:
  assumes "storage_laws A objs hobj sha" and "length url < 2 ^ 32"
    and "run_state (build_need_host_io_response A request_id command input io_id url body out_size) (w, t) =
      ((len, Inr out), (w', t'))"
  shows "len = Some (length out) \<and> length out \<le> out_size \<and>
     g_pending_host_io t' = saved_request sha request_id command input io_id (ascii ''http_post'') body \<and>
     out = need_host_io_bytes (g_pending_host_io t') io_id url body \<and>
     length body \<le> TEEP_AGENT_TRANSCRIPT_SIZE_MAX \<and> length (sha body) = 32 \<and> length (sha input) = 32"
  using need_host_io_built [OF assms(1,3,2)] by (simp add: request_fits_def)



section \<open>Concrete instances\<close>

definition new_session :: twep_wr_session where
  "new_session = \<lparr>default_timeout_ms = PRODUCTION_DEFAULT_TIMEOUT_MS, request_timeout_ms = 0,
     pending_host_io = zero_pending_host_io, pending_teep_live = zero_pending_teep_live,
     live_session = zero_live_session\<rparr>"

definition ta0 :: ta_state where
  "ta0 = \<lparr>g_pending_http_transcript_count = 0, g_pending_http_transcript_bytes = 0,
     g_wamr_runtime_initialized = False, g_teep_agent_natives_registered = False,
     g_teep_agent_live_session_count = 0, g_session = new_session\<rparr>"

definition dev_up :: device where
  "dev_up = \<lparr>dev_objs = \<lambda>_. None, dev_power = 40\<rparr>"

abbreviation need1 :: "built \<times> device \<times> ta_state" where
  "need1 \<equiv> run_state (build_need_host_io_response (sim_api False) (ascii ''r1'') (ascii ''hello'') [0xa0]
     (ascii ''io-1'') (ascii ''u'') [1, 2] 400) (dev_up, ta0)"

definition ta1 :: ta_state where
  "ta1 = snd (snd need1)"

definition result1 :: bytes where
  "result1 = [0xa6] @ cbor_write_text (ascii ''io_id'') @ cbor_write_text (ascii ''io-1'') @
     cbor_write_text (ascii ''kind'') @ cbor_write_text (ascii ''http_post'') @
     cbor_write_text (ascii ''status'') @ [0] @ cbor_write_text (ascii ''sequence'') @ [1] @
     cbor_write_text (ascii ''request_body_sha256'') @ cbor_write_bstr (toy_digest [1, 2]) @
     cbor_write_text (ascii ''normalized_input_sha256'') @ cbor_write_bstr (toy_digest [0xa0])"

lemma need1_facts:
  "\<not> isl (snd (fst need1))"
  "host_io_result_ok (g_pending_host_io ta1) result1"
  "fst (run_state (build_resume_final_response (ascii ''r1'') result1 50) (dev_up, ta1)) =
     (Some 102, Inl ERROR_SHORT_BUFFER)"
  "\<not> isl (fst (run_state (save_pending_host_io_request (sim_api False) (ascii ''r1'') (ascii ''hello'') [0xa0]
     (ascii ''io-1'') (ascii ''http_post'') [1, 2]) (dev_up, ta0)))"
  "host_io_result_ok (g_pending_host_io (snd (snd (run_state (save_pending_host_io_request (sim_api False) (ascii ''r1'')
     (ascii ''hello'') [0xa0] (ascii ''io-1'') (ascii ''http_post'') [1, 2]) (dev_up, ta0))))) result1"
  by code_simp+

abbreviation save1 :: "(tee_error + unit) \<times> device \<times> ta_state" where
  "save1 \<equiv> run_state (save_pending_host_io_request (sim_api False) (ascii ''r1'') (ascii ''hello'') [0xa0]
     (ascii ''io-1'') (ascii ''http_post'') [1, 2]) (dev_up, ta0)"

lemma result_split: "\<not> isl (fst x) \<Longrightarrow> x = (Inr (projr (fst x)), (fst (snd x), snd (snd x)))"
  by (cases x; cases "fst x") auto

lemma built_split: "\<not> isl (snd (fst x)) \<Longrightarrow> x = ((fst (fst x), Inr (projr (snd (fst x)))), (fst (snd x), snd (snd x)))"
  by (cases x; cases "snd (fst x)") auto

theorem need_host_io_consistent_witness:
  "fst (fst need1) = Some (length (projr (snd (fst need1)))) \<and> length (projr (snd (fst need1))) \<le> 400 \<and>
   g_pending_host_io (snd (snd need1)) =
     saved_request toy_digest (ascii ''r1'') (ascii ''hello'') [0xa0] (ascii ''io-1'') (ascii ''http_post'') [1, 2]"
proof -
  have "length (ascii ''u'') < 2 ^ 32" by simp
  from need_host_io_consistent [OF sim_storage_laws this built_split [OF need1_facts(1)]] show ?thesis by blast
qed



end
