(* ===== verification/Teep_Hostcalls.thy ===== *)
theory Teep_Hostcalls
  imports Storage_Commands Host_Io
begin

text \<open>
  The functions that the TEEP agent, a Wasm module inside the trusted application, may call
  (\<^verbatim>\<open>optee/twep-wr-ta/ta/ta_teep_hostcalls.c\<close>). They work on the context of one run of the agent, on
  the session and on persistent storage. The agent is replayed from its start after every host
  operation, so the answers it got before are kept in the session and handed out again, and a commit
  that was made is recorded and not repeated. The pointers that the Wasm runtime passes are checked by
  it and are not null; a status is the number the function returns.
\<close>

section \<open>The context\<close>

definition TEEP_AGENT_TRANSIENT_OBJECTS_MAX :: nat where
  "TEEP_AGENT_TRANSIENT_OBJECTS_MAX = 64"

definition TEEP_AGENT_TRANSIENT_OBJECT_NAME_MAX :: nat where
  "TEEP_AGENT_TRANSIENT_OBJECT_NAME_MAX = 96"

definition TEEP_AGENT_TRANSIENT_OBJECT_SIZE_MAX :: nat where
  "TEEP_AGENT_TRANSIENT_OBJECT_SIZE_MAX = 16 * 1024"

lemma transient_limit [code_unfold]: "TEEP_AGENT_TRANSIENT_OBJECT_SIZE_MAX < n \<longleftrightarrow> 16384 < int n"
  by (auto simp: TEEP_AGENT_TRANSIENT_OBJECT_SIZE_MAX_def)

record transient_object =
  tr_used :: bool
  tr_name :: bytes
  tr_data :: bytes

definition no_object :: transient_object where
  "no_object = \<lparr>tr_used = False, tr_name = [], tr_data = []\<rparr>"

record teep_agent_hostcall_context =
  hc_teep_agent_wasm :: bytes
  hc_catalog :: bytes
  hc_app_wasm :: bytes
  hc_resolver_mode :: bytes
  hc_request_id :: "bytes option"
  hc_command :: bytes
  hc_input :: bytes
  hc_pending :: teep_agent_pending_hostcall
  hc_replay :: teep_agent_pending_hostcall
  hc_replay_payload :: bytes
  hc_replay_used :: bool
  hc_replay_history_index :: nat
  hc_url :: bytes
  hc_body :: bytes
  hc_challenge :: bytes
  hc_agent_public_key_cose :: bytes
  hc_objects :: "transient_object list"

text \<open>\<open>hc_url\<close> is the array of the context, read by \<^verbatim>\<open>strlen\<close>: a zero byte ends it.\<close>

definition c_string :: "bytes \<Rightarrow> bytes" where
  "c_string bs = takeWhile (\<lambda>b. b \<noteq> 0) bs"

definition teep_hostcall_context_free :: "teep_agent_hostcall_context \<Rightarrow> teep_agent_hostcall_context" where
  "teep_hostcall_context_free ctx = ctx\<lparr>hc_objects := map (\<lambda>ob. ob\<lparr>tr_used := False, tr_name := [], tr_data := []\<rparr>) (hc_objects ctx)\<rparr>"

section \<open>The live session\<close>

definition teep_agent_live_session_release :: "ta_state \<Rightarrow> ta_state" where
  "teep_agent_live_session_release t =
     (let t1 = (if ls_active (live_session (g_session t)) \<and> g_teep_agent_live_session_count t \<noteq> 0
                then t\<lparr>g_teep_agent_live_session_count := g_teep_agent_live_session_count t - 1\<rparr> else t)
      in t1\<lparr>g_session := (g_session t1)\<lparr>live_session := zero_live_session\<rparr>\<rparr>)"

definition teep_agent_live_abort :: "ta_state \<Rightarrow> ta_state" where
  "teep_agent_live_abort t = pending_teep_live_clear (teep_agent_live_session_release (pending_host_io_clear t))"

section \<open>Transient objects\<close>

definition object_matches :: "bytes \<Rightarrow> transient_object \<Rightarrow> bool" where
  "object_matches path ob \<longleftrightarrow> tr_used ob \<and> length (tr_name ob) = length path \<and> mem_compare (tr_name ob) path = 0"

definition teep_transient_object_view :: "teep_agent_hostcall_context \<Rightarrow> bytes \<Rightarrow> bytes option" where
  "teep_transient_object_view ctx path = map_option tr_data (find (object_matches path) (hc_objects ctx))"

text \<open>The loop that looks for the object of this name and remembers the first free place.\<close>

fun transient_slot :: "bytes \<Rightarrow> nat \<Rightarrow> nat option \<Rightarrow> transient_object list \<Rightarrow> nat option" where
  "transient_slot path i slot [] = slot"
| "transient_slot path i slot (ob # obs) =
     (if object_matches path ob then Some i
      else if \<not> tr_used ob \<and> slot = None then transient_slot path (i + 1) (Some i) obs
      else transient_slot path (i + 1) slot obs)"

definition teep_transient_object_write ::
  "('w, 'h) tee_api \<Rightarrow> bytes \<Rightarrow> bytes \<Rightarrow> teep_agent_hostcall_context \<Rightarrow> ('w, nat \<times> teep_agent_hostcall_context) ta" where
  "teep_transient_object_write A path data ctx =
     (if length path \<ge> TEEP_AGENT_TRANSIENT_OBJECT_NAME_MAX \<or> length data > TEEP_AGENT_TRANSIENT_OBJECT_SIZE_MAX
      then State_Monad.return (2, ctx)
      else case transient_slot path 0 None (hc_objects ctx) of
        None \<Rightarrow> State_Monad.return (2, ctx)
      | Some slot \<Rightarrow> do {
          ok \<leftarrow> in_tee (tee_malloc A (alloc_size (length data)));
          if \<not> ok then State_Monad.return (1, ctx)
          else State_Monad.return (0,
            ctx\<lparr>hc_objects := (hc_objects ctx)[slot := \<lparr>tr_used = True, tr_name = path, tr_data = data\<rparr>]\<rparr>) })"

section \<open>Files\<close>

text \<open>
  The results of a read: the status, what was stored to \<open>out_len\<close> if anything, and the bytes copied
  to the buffer if any.
\<close>

type_synonym host_read = "nat \<times> nat option \<times> bytes option"

definition clamp_u32 :: "nat \<Rightarrow> nat" where
  "clamp_u32 n = (if n > UINT32_MAX then UINT32_MAX else n)"

definition read_protected_status :: "bool \<Rightarrow> tee_error \<Rightarrow> nat" where
  "read_protected_status not_supported e =
     (if e = ERROR_SHORT_BUFFER then 2 else if e = ERROR_ITEM_NOT_FOUND then 3
      else if e = ERROR_BAD_PARAMETERS then 1
      else if e = ERROR_CORRUPT_OBJECT \<or> e = ERROR_BAD_FORMAT \<or> not_supported \<and> e = ERROR_NOT_SUPPORTED \<or>
              e = ERROR_SECURITY then 4
      else 7)"

definition commit_recorded :: "ta_state \<Rightarrow> byte \<Rightarrow> bool" where
  "commit_recorded t kind \<longleftrightarrow> pl_active (g_pending_teep_live t) \<and> component_commit_recorded (g_pending_teep_live t) \<and>
     component_commit_kind (g_pending_teep_live t) = kind"

text \<open>A read of the protected catalog or application, \<open>len\<close> being 0 unless the read stored it.\<close>

definition protected_read :: "bool \<Rightarrow> nat option \<Rightarrow> tee_error + bytes \<Rightarrow> host_read" where
  "protected_read not_supported len r =
     (case r of
        Inr bs \<Rightarrow> (0, Some (clamp_u32 (case len of None \<Rightarrow> 0 | Some n \<Rightarrow> n)), Some bs)
      | Inl e \<Rightarrow> (read_protected_status not_supported e, Some (clamp_u32 (case len of None \<Rightarrow> 0 | Some n \<Rightarrow> n)), None))"

definition view_read :: "bytes \<Rightarrow> nat \<Rightarrow> host_read" where
  "view_read source buf_cap =
     (if length source > buf_cap then (2, Some (clamp_u32 (length source)), None)
      else (0, Some (clamp_u32 (length source)), Some source))"

definition teep_host_read_file ::
  "('w, 'h) tee_api \<Rightarrow> bytes \<Rightarrow> nat \<Rightarrow> teep_agent_hostcall_context \<Rightarrow> ('w, host_read) ta" where
  "teep_host_read_file A path buf_cap ctx = do {
     t \<leftarrow> get_ta;
     let verified = bytes_view_eq (hc_resolver_mode ctx) (ascii ''attestam-verified'');
     if object_name_eq path (ascii ''catalog/catalog.cbor'') \<and> verified then
       if commit_recorded t 1 then State_Monad.return (3, Some 0, None)
       else do {
         (len, r) \<leftarrow> in_tee (twep_catalog_read_active A True buf_cap);
         State_Monad.return (protected_read True len r) }
     else if length path > 5 \<and> mem_compare (take 5 path) (ascii ''apps/'') = 0 \<and> verified then
       if commit_recorded t 2 then State_Monad.return (3, Some 0, None)
       else do {
         (len, r) \<leftarrow> in_tee (twep_app_read_active A True buf_cap);
         State_Monad.return (protected_read False len (map_sum id fst r)) }
     else State_Monad.return (case teep_transient_object_view ctx path of
         Some v \<Rightarrow> view_read v buf_cap
       | None \<Rightarrow>
         if object_name_eq path (ascii ''catalog/catalog.cbor'') then view_read (hc_catalog ctx) buf_cap
         else if object_name_eq path (ascii ''apps/helloworld.wasm'') then view_read (hc_app_wasm ctx) buf_cap
         else (3, None, None)) }"

text \<open>No zero byte, and no two dots in a row.\<close>

fun plain_path :: "bytes \<Rightarrow> bool" where
  "plain_path [] \<longleftrightarrow> True"
| "plain_path [c] \<longleftrightarrow> c \<noteq> 0"
| "plain_path (c # d # cs) \<longleftrightarrow> c \<noteq> 0 \<and> \<not> (c = 0x2e \<and> d = 0x2e) \<and> plain_path (d # cs)"

definition has_prefix :: "bytes \<Rightarrow> bytes \<Rightarrow> bool" where
  "has_prefix pre path \<longleftrightarrow> length path \<ge> length pre \<and> mem_compare (take (length pre) path) pre = 0"

definition teep_agent_state_object_allowed :: "bytes \<Rightarrow> bool" where
  "teep_agent_state_object_allowed path =
     (if length path = 0 then False
      else if \<not> plain_path path then False
      else if object_name_eq path (ascii ''catalog/catalog.cbor'') then True
      else if has_prefix (ascii ''teep-agent/'') path then True
      else if has_prefix (ascii ''tmp/'') path then True
      else if has_prefix (ascii ''components/'') path then True
      else if has_prefix (ascii ''apps/'') path then object_name_eq path (ascii ''apps/helloworld.wasm'')
      else False)"

definition teep_host_write_file ::
  "('w, 'h) tee_api \<Rightarrow> bytes \<Rightarrow> bytes \<Rightarrow> teep_agent_hostcall_context \<Rightarrow> ('w, nat \<times> teep_agent_hostcall_context) ta" where
  "teep_host_write_file A path data ctx =
     (if twep_ta_d047_object_name_reserved path then State_Monad.return (4, ctx)
      else if object_name_eq path (ascii ''teep-agent/verified-evidence-result.cbor'') then State_Monad.return (4, ctx)
      else if \<not> teep_agent_state_object_allowed path then State_Monad.return (4, ctx)
      else teep_transient_object_write A path data ctx)"

section \<open>Protected objects\<close>

definition teep_agent_protected_object_allowed :: "bytes \<Rightarrow> bool" where
  "teep_agent_protected_object_allowed name \<longleftrightarrow>
     object_name_eq name (ascii ''protected-credential-store.cbor'') \<or>
     object_name_eq name (ascii ''protected-issuer-allowlist.cbor'') \<or>
     object_name_eq name (ascii ''protected-sequence-freshness.cbor'') \<or>
     object_name_eq name (ascii ''protected-store-freshness.cbor'') \<or>
     object_name_eq name (ascii ''protected-revocation-state.cbor'') \<or>
     object_name_eq name (ascii ''protected-agent-identity.cbor'') \<or>
     object_name_eq name (ascii ''verified-evidence-result.cbor'')"

definition twep_ta_write_persistent_object :: "('w, 'h) tee_api \<Rightarrow> bytes \<Rightarrow> bytes \<Rightarrow> ('w, unit) tee" where
  "twep_ta_write_persistent_object A object_name data =
     (if length object_name = 0 then throw ERROR_BAD_PARAMETERS
      else bind_ok (tee_create A object_name) (\<lambda>object. do {
        res \<leftarrow> tee_write A object data;
        case res of Inl e \<Rightarrow> do { _ \<leftarrow> tee_close_delete A object; throw e }
        | Inr _ \<Rightarrow> do { _ \<leftarrow> tee_close A object; success () } }))"

definition cbor_write_uint64 :: "u64 \<Rightarrow> bytes" where
  "cbor_write_uint64 n =
     (if n < 24 then [ucast n]
      else if n \<le> 0xff then [0x18, ucast n]
      else if n \<le> 0xffff then [0x19, ucast (drop_bit 8 n), ucast n]
      else if n \<le> 0xffffffff then [0x1a, ucast (drop_bit 24 n), ucast (drop_bit 16 n), ucast (drop_bit 8 n), ucast n]
      else 0x1b # be_bytes 8 n)"

definition acceptance_result_need :: "u64 \<Rightarrow> nat" where
  "acceptance_result_need gen =
     1 + 1 + 14 + 1 + 1 + 15 + 1 + 22 + 1 + 21 + 1 + 2 + 24 + 1 + 1 + 21 + cbor_type_len_size gen"

definition acceptance_result_bytes :: "u64 \<Rightarrow> bytes" where
  "acceptance_result_bytes gen =
     [0xa5] @ cbor_write_text (ascii ''schema_version'') @ cbor_write_uint64 2 @
     cbor_write_text (ascii ''decision_source'') @ cbor_write_text (ascii ''attestam-signed-update'') @
     cbor_write_text (ascii ''tam_response_verified'') @ [0xf5] @
     cbor_write_text (ascii ''challenge_response_bound'') @ [0xf5] @
     cbor_write_text (ascii ''acceptance_generation'') @ cbor_write_uint64 gen"

definition teep_encode_attestam_acceptance_result :: "u64 \<Rightarrow> nat \<Rightarrow> tee_error + bytes" where
  "teep_encode_attestam_acceptance_result gen buf_cap =
     (if buf_cap < acceptance_result_need gen then Inl ERROR_SHORT_BUFFER else Inr (acceptance_result_bytes gen))"

text \<open>The length stored to \<open>out_len\<close>, if any, and the result with the bytes read.\<close>

definition teep_read_persistent_object ::
  "('w, 'h) tee_api \<Rightarrow> bytes \<Rightarrow> nat \<Rightarrow> ('w, nat option \<times> (tee_error + bytes)) state" where
  "teep_read_persistent_object A object_name buf_cap =
     (if length object_name = 0 then State_Monad.return (None, Inl ERROR_BAD_PARAMETERS)
      else bind_or (\<lambda>e. (None, Inl e)) (tee_open A object_name) (\<lambda>object. do {
        res \<leftarrow> bind_or (\<lambda>e. (None, Inl e)) (tee_info A object) (\<lambda>dataSize.
          if dataSize > buf_cap then State_Monad.return (Some dataSize, Inl ERROR_SHORT_BUFFER)
          else bind_or (\<lambda>e. (Some dataSize, Inl e)) (tee_read A object dataSize) (\<lambda>bs.
            State_Monad.return (Some dataSize,
              if length bs \<noteq> dataSize then Inl ERROR_CORRUPT_OBJECT else Inr bs)));
        _ \<leftarrow> tee_close A object;
        State_Monad.return res }))"

definition protected_object_status :: "tee_error \<Rightarrow> nat" where
  "protected_object_status e =
     (if e = ERROR_SHORT_BUFFER then 2 else if e = ERROR_ITEM_NOT_FOUND then 3
      else if e = ERROR_BAD_PARAMETERS then 1
      else if e = ERROR_CORRUPT_OBJECT \<or> e = ERROR_BAD_FORMAT \<or> e = ERROR_NOT_SUPPORTED then 4
      else 7)"

definition teep_host_read_protected ::
  "('w, 'h) tee_api \<Rightarrow> bytes \<Rightarrow> nat \<Rightarrow> teep_agent_hostcall_context \<Rightarrow> ('w, host_read) ta" where
  "teep_host_read_protected A object_name buf_cap ctx =
     (if \<not> teep_agent_protected_object_allowed object_name then State_Monad.return (8, None, None)
      else do {
        t \<leftarrow> get_ta;
        let live = g_pending_teep_live t;
        if pl_active live \<and> component_commit_recorded live \<and> component_commit_expected_generation live \<noteq> 0 \<and>
           object_name_eq object_name (ascii ''verified-evidence-result.cbor'')
        then State_Monad.return (case teep_encode_attestam_acceptance_result (component_commit_expected_generation live) 160 of
            Inl _ \<Rightarrow> (7, None, None)
          | Inr snapshot \<Rightarrow>
            if buf_cap < length snapshot then (2, Some (length snapshot), None)
            else (0, Some (length snapshot), Some snapshot))
        else do {
          (len, r) \<leftarrow> in_tee (teep_read_persistent_object A object_name buf_cap);
          let out_len = (case len of None \<Rightarrow> 0 | Some n \<Rightarrow> n);
          State_Monad.return (case r of
            Inr bs \<Rightarrow> (0, Some out_len, Some bs)
          | Inl e \<Rightarrow> (protected_object_status e, Some out_len, None)) } })"

section \<open>Host operations\<close>

text \<open>
  The answer to a host operation that was made before: from the history of the session, or the answer
  that this run of the agent was started with. \<open>None\<close> when the operation is new.
\<close>

definition replayed :: "teep_agent_pending_hostcall \<Rightarrow> nat \<Rightarrow> ta_state \<Rightarrow> teep_agent_hostcall_context \<Rightarrow>
    (host_read \<times> teep_agent_hostcall_context) option" where
  "replayed kind buf_cap t ctx =
     (let history = pl_history (g_pending_teep_live t); i = hc_replay_history_index ctx in
      if i < length history \<and> fst (history ! i) = kind then
        let payload = snd (history ! i) in
        if length payload > buf_cap then Some ((2, Some (clamp_u32 (length payload)), None), ctx)
        else Some ((0, Some (clamp_u32 (length payload)), Some payload), ctx\<lparr>hc_replay_history_index := i + 1\<rparr>)
      else if hc_replay ctx = kind \<and> \<not> hc_replay_used ctx then
        let payload = hc_replay_payload ctx in
        if length payload > buf_cap then Some ((2, Some (clamp_u32 (length payload)), None), ctx)
        else Some ((0, Some (clamp_u32 (length payload)), Some payload), ctx\<lparr>hc_replay_used := True\<rparr>)
      else None)"

definition teep_host_http_post ::
  "bytes \<Rightarrow> bytes \<Rightarrow> nat \<Rightarrow> teep_agent_hostcall_context \<Rightarrow> ('w, host_read \<times> teep_agent_hostcall_context) ta" where
  "teep_host_http_post url body buf_cap ctx = do {
     t \<leftarrow> get_ta;
     State_Monad.return (case replayed TEEP_AGENT_PENDING_HTTP_POST buf_cap t ctx of
       Some r \<Rightarrow> r
     | None \<Rightarrow>
       if length url \<ge> 128 \<or> length body > TEEP_AGENT_TRANSCRIPT_SIZE_MAX then ((2, None, None), ctx)
       else ((11, Some 0, None), ctx\<lparr>hc_url := url, hc_body := body, hc_pending := TEEP_AGENT_PENDING_HTTP_POST\<rparr>)) }"

definition teep_host_create_evidence ::
  "bytes \<Rightarrow> bytes \<Rightarrow> nat \<Rightarrow> teep_agent_hostcall_context \<Rightarrow> ('w, host_read \<times> teep_agent_hostcall_context) ta" where
  "teep_host_create_evidence challenge agent_key buf_cap ctx = do {
     t \<leftarrow> get_ta;
     State_Monad.return (case replayed TEEP_AGENT_PENDING_CREATE_EVIDENCE buf_cap t ctx of
       Some r \<Rightarrow> r
     | None \<Rightarrow>
       if length challenge > 64 \<or> length agent_key > 128 then ((2, None, None), ctx)
       else ((11, Some 0, None), ctx\<lparr>hc_challenge := challenge, hc_agent_public_key_cose := agent_key,
          hc_pending := TEEP_AGENT_PENDING_CREATE_EVIDENCE\<rparr>)) }"

definition teep_agent_pending_to_need_host_io ::
  "('w, 'h) tee_api \<Rightarrow> teep_agent_hostcall_context \<Rightarrow> nat \<Rightarrow> ('w, built) ta" where
  "teep_agent_pending_to_need_host_io A ctx out_size =
     (case hc_request_id ctx of None \<Rightarrow> State_Monad.return (None, Inl ERROR_BAD_FORMAT)
      | Some request_id \<Rightarrow>
        (case hc_pending ctx of
           TEEP_AGENT_PENDING_HTTP_POST \<Rightarrow>
             build_need_host_io_response A request_id (hc_command ctx) (hc_input ctx) (ascii ''teep-http-1'')
               (c_string (hc_url ctx)) (hc_body ctx) out_size
         | TEEP_AGENT_PENDING_CREATE_EVIDENCE \<Rightarrow>
             build_need_evidence_response_with_payload A request_id (hc_command ctx) (hc_input ctx)
               (hc_challenge ctx) (hc_agent_public_key_cose ctx) out_size
         | TEEP_AGENT_PENDING_NONE \<Rightarrow> State_Monad.return (None, Inl ERROR_BAD_FORMAT)))"

section \<open>Status and measurement\<close>

definition teep_host_platform_status :: "bytes \<Rightarrow> nat \<Rightarrow> host_read" where
  "teep_host_platform_status backend buf_cap =
     (let status = ascii ''platform-backend='' @ backend @ [10] @ ascii ''runtime-location=optee-ta'' @ [10] @
            ascii ''teep-agent-location=optee-ta'' @ [10] @ ascii ''catalog-resolution-location=optee-ta'' @ [10] @
            ascii ''sealed-storage-security=tee-ree-fs-secure-storage'' @ [10] @
            ascii ''sealed-storage-rollback-protected=false'' @ [10] in
      if length status > buf_cap then (2, Some (length status), None)
      else (0, Some (length status), Some status))"

definition teep_host_teep_agent_measurement_sha256 ::
  "('w, 'h) tee_api \<Rightarrow> nat \<Rightarrow> teep_agent_hostcall_context \<Rightarrow> ('w, host_read) ta" where
  "teep_host_teep_agent_measurement_sha256 A buf_cap ctx =
     (if length (hc_teep_agent_wasm ctx) = 0 then State_Monad.return (8, Some 0, None)
      else if buf_cap < 32 then State_Monad.return (2, Some 32, None)
      else do {
        res \<leftarrow> in_tee (twep_ta_sha256_bytes A (hc_teep_agent_wasm ctx));
        State_Monad.return (case res of Inl _ \<Rightarrow> (7, Some 32, None) | Inr d \<Rightarrow> (0, Some 32, Some d)) })"

text \<open>\<open>random\<close> and \<open>time\<close> are the corresponding functions of the TEE.\<close>

definition teep_host_random :: "(nat \<Rightarrow> ('w, bytes) state) \<Rightarrow> nat \<Rightarrow> ('w, nat \<times> bytes) ta" where
  "teep_host_random random buf_len =
     (if buf_len \<noteq> 0 then do { r \<leftarrow> in_tee (random buf_len); State_Monad.return (0, r) }
      else State_Monad.return (0, []))"

definition teep_host_unix_time_ms :: "('w, u32 \<times> u32) state \<Rightarrow> ('w, u64) ta" where
  "teep_host_unix_time_ms time = do {
     (seconds, millis) \<leftarrow> in_tee time;
     State_Monad.return (ucast seconds * 1000 + ucast millis) }"

section \<open>Commits\<close>

definition acceptance_host_status :: "tee_error + 'a \<Rightarrow> nat" where
  "acceptance_host_status res =
     (case res of Inr _ \<Rightarrow> 0
      | Inl e \<Rightarrow>
        if e = ERROR_BAD_PARAMETERS then 1
        else if e = ERROR_EXCESS_DATA \<or> e = ERROR_OVERFLOW then 2
        else if e = ERROR_ITEM_NOT_FOUND then 3
        else if e = ERROR_BAD_FORMAT \<or> e = ERROR_CORRUPT_OBJECT \<or> e = ERROR_NOT_SUPPORTED \<or> e = ERROR_SECURITY then 4
        else if e = ERROR_ACCESS_CONFLICT then 9 else 7)"

definition teep_host_acceptance_generation :: "('w, 'h) tee_api \<Rightarrow> ('w, nat \<times> u64 option) ta" where
  "teep_host_acceptance_generation A = do {
     t \<leftarrow> get_ta;
     let live = g_pending_teep_live t;
     if pl_active live \<and> component_commit_recorded live
     then State_Monad.return (0, Some (component_commit_expected_generation live))
     else do {
       res \<leftarrow> in_tee (twep_acceptance_generation A);
       State_Monad.return (acceptance_host_status res, case res of Inl _ \<Rightarrow> None | Inr g \<Rightarrow> Some g) } }"

definition teep_publish_acceptance_result :: "('w, 'h) tee_api \<Rightarrow> u64 \<Rightarrow> ('w, unit) tee" where
  "teep_publish_acceptance_result A gen =
     (case teep_encode_attestam_acceptance_result gen 160 of
        Inl e \<Rightarrow> throw e
      | Inr result \<Rightarrow>
        bind_ok (twep_ta_write_persistent_object A (ascii ''verified-evidence-result.cbor'') result) (\<lambda>_. do {
          (len, r) \<leftarrow> teep_read_persistent_object A (ascii ''verified-evidence-result.cbor'') 160;
          State_Monad.return (case r of
            Inl e \<Rightarrow> Inl e
          | Inr back \<Rightarrow>
            if length back \<noteq> length result \<or> mem_compare back result \<noteq> 0 then Inl ERROR_CORRUPT_OBJECT
            else Inr ()) }))"

definition transcript_pending :: "ta_state \<Rightarrow> bool" where
  "transcript_pending t \<longleftrightarrow> ph_active (g_pending_host_io t) \<and> ph_http_transcript (g_pending_host_io t) \<and>
     bytes_view_eq (ph_kind (g_pending_host_io t)) (ascii ''http_post'')"

text \<open>
  The end that the three commit functions share: the transcript must be pending and its query_digest must be
  the given one, the commit runs and the result is published, \<open>note_commit\<close> notes a success in the session,
  and the transcript is consumed.
\<close>

definition commit_with_transcript ::
  "('w, 'h) tee_api \<Rightarrow> bytes \<Rightarrow> ('w, u64) tee \<Rightarrow> (u64 \<Rightarrow> ta_state \<Rightarrow> ta_state) \<Rightarrow> ('w, nat \<times> u64 option) ta" where
  "commit_with_transcript A query_digest commit note_commit = do {
     t \<leftarrow> get_ta;
     if \<not> transcript_pending t then State_Monad.return (9, None)
     else if mem_compare (ph_request_body_sha256 (g_pending_host_io t)) query_digest \<noteq> 0 then do {
       _ \<leftarrow> modify_ta pending_host_io_clear;
       State_Monad.return (9, None) }
     else do {
       res \<leftarrow> in_tee commit;
       case res of
         Inl e \<Rightarrow> do {
           _ \<leftarrow> modify_ta pending_host_io_clear;
           State_Monad.return (acceptance_host_status res, None) }
       | Inr gen \<Rightarrow> do {
           pub \<leftarrow> in_tee (teep_publish_acceptance_result A gen);
           _ \<leftarrow> (case pub of Inl _ \<Rightarrow> State_Monad.return () | Inr _ \<Rightarrow> modify_ta (note_commit gen));
           _ \<leftarrow> modify_ta pending_host_io_clear;
           State_Monad.return (acceptance_host_status pub, Some gen) } } }"

definition teep_host_commit_acceptance ::
  "('w, 'h) tee_api \<Rightarrow> bytes \<Rightarrow> bytes \<Rightarrow> u64 \<Rightarrow> u64 \<Rightarrow> ('w, nat \<times> u64 option) ta" where
  "teep_host_commit_acceptance A query_digest component_id sequence expected_generation =
     (if length query_digest \<noteq> 32 \<or> length component_id = 0 then do {
        _ \<leftarrow> modify_ta pending_host_io_clear;
        State_Monad.return (1, None) }
      else commit_with_transcript A query_digest
             (twep_acceptance_commit A query_digest component_id sequence expected_generation) (\<lambda>_ t. t))"

definition record_commit :: "byte \<Rightarrow> bytes \<Rightarrow> bytes \<Rightarrow> u64 \<Rightarrow> u64 \<Rightarrow> nat \<Rightarrow> u64 \<Rightarrow> ta_state \<Rightarrow> ta_state" where
  "record_commit kind query_digest payload_digest sequence expected_generation payload_len new_generation t =
     (let live = g_pending_teep_live t in
      if pl_active live then
        set_pending_teep_live (live\<lparr>component_commit_recorded := True, component_commit_kind := kind,
          component_commit_query_digest := query_digest, component_commit_payload_digest := payload_digest,
          component_commit_sequence := sequence, component_commit_expected_generation := expected_generation,
          component_commit_new_generation := new_generation, component_commit_payload_len := payload_len\<rparr>) t
      else t)"

text \<open>A repeated commit in a replay: it must be the recorded one, and it must still be the accepted one.\<close>

definition replay_commit ::
  "('w, 'h) tee_api \<Rightarrow> byte \<Rightarrow> bytes \<Rightarrow> bytes \<Rightarrow> u64 \<Rightarrow> u64 \<Rightarrow> bytes \<Rightarrow> bytes \<Rightarrow> pending_teep_live_state \<Rightarrow>
   ('w, nat \<times> u64 option) ta" where
  "replay_commit A kind query_digest component_id sequence expected_generation payload payload_digest live = do {
     res \<leftarrow> in_tee (twep_ta_sha256_bytes A payload);
     case res of
       Inl _ \<Rightarrow> State_Monad.return (9, None)
     | Inr replay_digest \<Rightarrow>
       if component_commit_kind live \<noteq> kind \<or> sequence \<noteq> component_commit_sequence live \<or>
          expected_generation \<noteq> component_commit_expected_generation live \<or>
          length payload \<noteq> component_commit_payload_len live \<or>
          mem_compare query_digest (component_commit_query_digest live) \<noteq> 0 \<or>
          mem_compare payload_digest (component_commit_payload_digest live) \<noteq> 0 \<or>
          mem_compare replay_digest (component_commit_payload_digest live) \<noteq> 0
       then State_Monad.return (9, None)
       else do {
         res \<leftarrow> in_tee (twep_acceptance_component_sequence A component_id);
         State_Monad.return (case res of
           Inl _ \<Rightarrow> (9, None)
         | Inr (_, current_sequence) \<Rightarrow>
           if current_sequence \<noteq> sequence then (9, None) else (0, Some (component_commit_new_generation live))) } }"

definition teep_host_commit_catalog ::
  "('w, 'h) tee_api \<Rightarrow> teep_agent_hostcall_context \<Rightarrow> bytes \<Rightarrow> bytes \<Rightarrow> u64 \<Rightarrow> u64 \<Rightarrow> bytes \<Rightarrow> bytes \<Rightarrow> ('w, nat \<times> u64 option) ta" where
  "teep_host_commit_catalog A ctx query_digest component_id sequence expected_generation catalog catalog_digest =
     (if length query_digest \<noteq> 32 \<or> \<not> twep_catalog_component_id_is_default component_id \<or> length catalog = 0 \<or>
         length catalog > CATALOG_STATE_MAX_PAYLOAD \<or> length catalog_digest \<noteq> 32
      then do { _ \<leftarrow> modify_ta pending_host_io_clear; State_Monad.return (1, None) }
      else if \<not> bytes_view_eq (hc_resolver_mode ctx) (ascii ''attestam-verified'')
      then do { _ \<leftarrow> modify_ta pending_host_io_clear; State_Monad.return (8, None) }
      else do {
        t \<leftarrow> get_ta;
        let live = g_pending_teep_live t;
        if pl_active live \<and> component_commit_recorded live
        then replay_commit A 1 query_digest component_id sequence expected_generation catalog catalog_digest live
        else commit_with_transcript A query_digest
               (twep_catalog_commit A query_digest component_id sequence expected_generation catalog catalog_digest)
               (record_commit 1 query_digest catalog_digest sequence expected_generation (length catalog)) })"

definition teep_host_commit_app ::
  "('w, 'h) tee_api \<Rightarrow> teep_agent_hostcall_context \<Rightarrow> bytes \<Rightarrow> bytes \<Rightarrow> u64 \<Rightarrow> u64 \<Rightarrow> bytes \<Rightarrow> bytes \<Rightarrow> ('w, nat \<times> u64 option) ta" where
  "teep_host_commit_app A ctx query_digest component_id sequence expected_generation wasm wasm_digest =
     (if length query_digest \<noteq> 32 \<or> \<not> twep_app_component_id_is_valid component_id \<or> length wasm = 0 \<or>
         length wasm > TWEP_PROTECTED_APP_MAX_SIZE \<or> length wasm_digest \<noteq> 32
      then State_Monad.return (1, None)
      else if \<not> bytes_view_eq (hc_resolver_mode ctx) (ascii ''attestam-verified'')
      then State_Monad.return (8, None)
      else do {
        t \<leftarrow> get_ta;
        let live = g_pending_teep_live t;
        if pl_active live \<and> component_commit_recorded live
        then replay_commit A 2 query_digest component_id sequence expected_generation wasm wasm_digest live
        else commit_with_transcript A query_digest
               (twep_app_commit A query_digest component_id sequence expected_generation wasm wasm_digest)
               (record_commit 2 query_digest wasm_digest sequence expected_generation (length wasm)) })"

section \<open>The transient store refines a bounded map\<close>

text \<open>
  What the store of one run promises: a map of at most \<open>cap\<close> objects with bounded names and data. A
  write is refused with status 2 when it exceeds a limit, and with 1 when there is no memory.
\<close>

definition store_write ::
  "nat \<Rightarrow> nat \<Rightarrow> nat \<Rightarrow> bool \<Rightarrow> bytes \<Rightarrow> bytes \<Rightarrow> (bytes \<rightharpoonup> bytes) \<Rightarrow> nat \<times> (bytes \<rightharpoonup> bytes)" where
  "store_write cap name_max size_max ok path data m =
     (if length path \<ge> name_max \<or> length data > size_max then (2, m)
      else if m path = None \<and> card (dom m) \<ge> cap then (2, m)
      else if \<not> ok then (1, m)
      else (0, m(path \<mapsto> data)))"

primrec store_writes ::
  "nat \<Rightarrow> nat \<Rightarrow> nat \<Rightarrow> (bool \<times> bytes \<times> bytes) list \<Rightarrow> (bytes \<rightharpoonup> bytes) \<Rightarrow> nat list \<times> (bytes \<rightharpoonup> bytes)" where
  "store_writes cap name_max size_max [] m = ([], m)"
| "store_writes cap name_max size_max (x # xs) m =
     (let (st, m1) = store_write cap name_max size_max (fst x) (fst (snd x)) (snd (snd x)) m;
          (sts, m2) = store_writes cap name_max size_max xs m1 in (st # sts, m2))"

text \<open>A sequence of writes, with the statuses they return.\<close>

primrec write_all ::
  "(bytes \<Rightarrow> bytes \<Rightarrow> 's \<Rightarrow> ('m, nat \<times> 's) state) \<Rightarrow> (bytes \<times> bytes) list \<Rightarrow> 's \<Rightarrow> ('m, nat list \<times> 's) state" where
  "write_all put [] s = State_Monad.return ([], s)"
| "write_all put (x # xs) s = do {
     (st, s1) \<leftarrow> put (fst x) (snd x) s;
     (sts, s2) \<leftarrow> write_all put xs s1;
     State_Monad.return (st # sts, s2) }"

locale object_store =
  fixes view :: "'s \<Rightarrow> bytes \<rightharpoonup> bytes"
    and put :: "bytes \<Rightarrow> bytes \<Rightarrow> 's \<Rightarrow> ('m, nat \<times> 's) state"
    and free :: "'s \<Rightarrow> 's"
    and inv :: "'s \<Rightarrow> bool"
    and cap name_max size_max :: nat
  assumes write_step: "inv s \<Longrightarrow> run_state (put path data s) w = ((st, s'), w') \<Longrightarrow>
      inv s' \<and> (\<exists>ok. (st, view s') = store_write cap name_max size_max ok path data (view s))"
    and free_empty: "inv s \<Longrightarrow> inv (free s) \<and> view (free s) = Map.empty"
    and bounded: "inv s \<Longrightarrow> finite (dom (view s)) \<and> card (dom (view s)) \<le> cap"
begin

lemma writes_refine:
  assumes "inv s" and "run_state (write_all put ws s) w = ((sts, s'), w')"
  shows "inv s' \<and> (\<exists>oks. length oks = length ws \<and>
     (sts, view s') = store_writes cap name_max size_max (zip oks ws) (view s))"
  using assms
proof (induction ws arbitrary: s w sts)
  case (Cons x xs)
  obtain st s1 w1 where 1: "run_state (put (fst x) (snd x) s) w = ((st, s1), w1)" by (metis surj_pair)
  obtain sts' s2 w2 where 2: "run_state (write_all put xs s1) w1 = ((sts', s2), w2)" by (metis surj_pair)
  have r: "sts = st # sts'" "s' = s2" "w' = w2" using Cons.prems(2) 1 2 by simp_all
  from write_step [OF Cons.prems(1) 1] obtain ok where "inv s1"
    and ok: "(st, view s1) = store_write cap name_max size_max ok (fst x) (snd x) (view s)" by blast
  from Cons.IH [OF this(1)] 2 r obtain oks where "inv s'" "length oks = length xs"
    and oks: "(sts', view s') = store_writes cap name_max size_max (zip oks xs) (view s1)" by auto
  then show ?case
    by (intro conjI exI [of _ "ok # oks"]) (simp_all add: ok [symmetric] oks [symmetric] r)
qed auto

text \<open>A successful write is visible at once, and a later one of another name does not hide it.\<close>

lemma write_visible:
  assumes "inv s" and "run_state (put path data s) w = ((0, s'), w')"
  shows "view s' = (view s)(path \<mapsto> data)"
  using write_step [OF assms] by (auto simp: store_write_def split: if_splits)

end

definition transient_ok :: "teep_agent_hostcall_context \<Rightarrow> bool" where
  "transient_ok ctx \<longleftrightarrow> length (hc_objects ctx) = TEEP_AGENT_TRANSIENT_OBJECTS_MAX \<and>
     distinct (map tr_name (filter tr_used (hc_objects ctx))) \<and>
     list_all (\<lambda>ob. length (tr_name ob) < TEEP_AGENT_TRANSIENT_OBJECT_NAME_MAX \<and>
       length (tr_data ob) \<le> TEEP_AGENT_TRANSIENT_OBJECT_SIZE_MAX) (hc_objects ctx)"

definition objects_map :: "transient_object list \<Rightarrow> bytes \<rightharpoonup> bytes" where
  "objects_map obs = map_of (map (\<lambda>ob. (tr_name ob, tr_data ob)) (filter tr_used obs))"

lemma object_matches_iff: "object_matches path ob \<longleftrightarrow> tr_used ob \<and> tr_name ob = path"
  by (auto simp: object_matches_def mem_compare_eq0)

lemma view_objects_map: "teep_transient_object_view ctx = objects_map (hc_objects ctx)"
proof
  have "map_option tr_data (find (object_matches path) obs) = objects_map obs path" for path obs
    by (induction obs) (auto simp: objects_map_def object_matches_iff)
  then show "teep_transient_object_view ctx path = objects_map (hc_objects ctx) path" for path
    by (simp add: teep_transient_object_view_def)
qed

lemma dom_objects_map: "dom (objects_map obs) = tr_name ` set (filter tr_used obs)"
  by (force simp: objects_map_def dom_map_of_conv_image_fst)

lemma card_objects_map:
  "distinct (map tr_name (filter tr_used obs)) \<Longrightarrow> card (dom (objects_map obs)) = length (filter tr_used obs)"
  by (metis dom_objects_map distinct_card length_map set_map)

lemma transient_slot_cases:
  "transient_slot path i slot obs = r \<Longrightarrow>
     (\<exists>j < length obs. r = Some (i + j) \<and> object_matches path (obs ! j)) \<or>
     (\<forall>ob \<in> set obs. \<not> object_matches path ob) \<and>
       (slot \<noteq> None \<and> r = slot \<or>
        slot = None \<and> (\<exists>j < length obs. r = Some (i + j) \<and> \<not> tr_used (obs ! j)) \<or>
        slot = None \<and> r = None \<and> (\<forall>ob \<in> set obs. tr_used ob))"
proof (induction path i slot obs arbitrary: r rule: transient_slot.induct)
  case (2 path i slot ob obs)
  consider "object_matches path ob" | "\<not> object_matches path ob" "\<not> tr_used ob" "slot = None"
    | "\<not> object_matches path ob" "tr_used ob \<or> slot \<noteq> None" by blast
  then show ?case
  proof cases
    case 1
    with "2.prems" show ?thesis by auto
  next
    case 2
    with "2.prems" "2.IH"(1) [of r] show ?thesis
      by (auto 0 3 intro: exI [of _ "Suc _"])
  next
    case 3
    with "2.prems" "2.IH"(2) [of r] show ?thesis
      by (auto 0 3 intro: exI [of _ "Suc _"])
  qed
qed auto

text \<open>Replacing the object of this name, or filling a free place, updates the map.\<close>

lemma objects_split:
  assumes "i < length obs"
  obtains as ob bs where "obs = as @ ob # bs" "obs ! i = ob" "\<And>x. obs[i := x] = as @ x # bs"
  using assms that [of "take i obs" "obs ! i" "drop (Suc i) obs"]
  by (simp add: id_take_nth_drop [symmetric] upd_conv_take_nth_drop)

lemma objects_map_update:
  assumes "i < length obs" and "distinct (map tr_name (filter tr_used obs))"
    and "object_matches path (obs ! i) \<or> \<not> tr_used (obs ! i) \<and> (\<forall>ob \<in> set obs. \<not> object_matches path ob)"
    and "ob' = \<lparr>tr_used = True, tr_name = path, tr_data = data\<rparr>"
  shows "objects_map (obs[i := ob']) = (objects_map obs)(path \<mapsto> data)"
    and "distinct (map tr_name (filter tr_used (obs[i := ob'])))"
proof -
  obtain as ob bs where s: "obs = as @ ob # bs" "obs ! i = ob" and u: "\<And>x. obs[i := x] = as @ x # bs"
    using objects_split [OF assms(1)] by blast
  have ob: "tr_used ob \<and> tr_name ob = path \<or> \<not> tr_used ob \<and> (\<forall>x \<in> set as \<union> set bs. tr_used x \<longrightarrow> tr_name x \<noteq> path)"
    using assms(3) s by (auto simp: object_matches_iff)
  have fresh: "path \<notin> tr_name ` set (filter tr_used as)" "path \<notin> tr_name ` set (filter tr_used bs)"
    using assms(2) ob by (auto simp: s(1))
  have d: "distinct (map tr_name (filter tr_used (as @ bs)))"
    using assms(2) by (auto simp: s(1) split: if_splits)
  have "objects_map obs q = objects_map (as @ bs) q" if "q \<noteq> path" for q
    using ob that by (auto simp: objects_map_def s(1) map_add_def split: option.split)
  moreover have "objects_map (as @ ob' # bs) q = ((objects_map (as @ bs))(path \<mapsto> data)) q" for q
  proof -
    have "map_of (map (\<lambda>ob. (tr_name ob, tr_data ob)) (filter tr_used as)) path = None"
      using fresh(1) by (force simp: map_of_eq_None_iff)
    then show ?thesis by (auto simp: objects_map_def assms(4) map_add_def split: option.split)
  qed
  ultimately show "objects_map (obs[i := ob']) = (objects_map obs)(path \<mapsto> data)"
    by (auto simp: u)
  show "distinct (map tr_name (filter tr_used (obs[i := ob'])))"
    using d fresh by (auto simp: u assms(4))
qed

lemma list_all_update: "list_all P xs \<Longrightarrow> P x \<Longrightarrow> list_all P (xs[i := x])"
  by (metis list_all_iff set_update_subset_insert insert_iff subsetD)

lemma transient_write_step:
  assumes ok: "transient_ok ctx"
    and run: "run_state (teep_transient_object_write A path data ctx) s = ((st, ctx'), s')"
  shows "transient_ok ctx' \<and> (\<exists>ok. (st, teep_transient_object_view ctx') =
     store_write TEEP_AGENT_TRANSIENT_OBJECTS_MAX TEEP_AGENT_TRANSIENT_OBJECT_NAME_MAX
       TEEP_AGENT_TRANSIENT_OBJECT_SIZE_MAX ok path data (teep_transient_object_view ctx))"
proof -
  let ?obs = "hc_objects ctx" and ?N = TEEP_AGENT_TRANSIENT_OBJECTS_MAX
  let ?W = "store_write ?N TEEP_AGENT_TRANSIENT_OBJECT_NAME_MAX TEEP_AGENT_TRANSIENT_OBJECT_SIZE_MAX"
  have len: "length ?obs = ?N" and dist: "distinct (map tr_name (filter tr_used ?obs))"
    using ok by (simp_all add: transient_ok_def)
  have none: "objects_map ?obs path = None \<longleftrightarrow> (\<forall>ob \<in> set ?obs. \<not> object_matches path ob)"
    by (force simp: objects_map_def map_of_eq_None_iff object_matches_iff)
  show ?thesis
  proof (cases "transient_slot path 0 None ?obs")
    case None
    then have "\<forall>ob \<in> set ?obs. \<not> object_matches path ob" "filter tr_used ?obs = ?obs"
      using transient_slot_cases [of path 0 None ?obs None] by (auto simp: filter_id_conv)
    then have "objects_map ?obs path = None \<and> card (dom (objects_map ?obs)) \<ge> ?N"
      using none card_objects_map [OF dist] len by simp
    then show ?thesis
      using run ok None
      by (auto simp: teep_transient_object_write_def store_write_def view_objects_map split: if_splits)
  next
    case (Some i)
    let ?ob = "\<lparr>tr_used = True, tr_name = path, tr_data = data\<rparr>"
    have i: "i < length ?obs"
      and m: "object_matches path (?obs ! i) \<or> \<not> tr_used (?obs ! i) \<and> (\<forall>ob \<in> set ?obs. \<not> object_matches path ob)"
      using transient_slot_cases [OF Some] by auto
    have room: "\<not> (objects_map ?obs path = None \<and> card (dom (objects_map ?obs)) \<ge> ?N)"
    proof
      assume full: "objects_map ?obs path = None \<and> card (dom (objects_map ?obs)) \<ge> ?N"
      then have "\<not> tr_used (?obs ! i)" using m none i by (metis nth_mem)
      then have "length (filter tr_used ?obs) < ?N" using length_filter_less [of "?obs ! i" ?obs tr_used] i len by simp
      then show False using full card_objects_map [OF dist] by simp
    qed
    note upd = objects_map_update [OF i dist m refl, of data]
    have ok': "transient_ok (ctx\<lparr>hc_objects := ?obs[i := ?ob]\<rparr>)"
      if "\<not> (length path \<ge> TEEP_AGENT_TRANSIENT_OBJECT_NAME_MAX \<or> length data > TEEP_AGENT_TRANSIENT_OBJECT_SIZE_MAX)"
      using that ok upd(2) by (auto simp: transient_ok_def intro: list_all_update)
    obtain w t where s: "s = (w, t)" by (cases s)
    show ?thesis
    proof (cases "length path \<ge> TEEP_AGENT_TRANSIENT_OBJECT_NAME_MAX \<or> length data > TEEP_AGENT_TRANSIENT_OBJECT_SIZE_MAX")
      case True
      then show ?thesis using run ok by (auto simp: teep_transient_object_write_def store_write_def)
    next
      case False
      with run Some ok ok' upd(1) room show ?thesis
        by (intro conjI exI [of _ "fst (run_state (tee_malloc A (alloc_size (length data))) w)"])
          (auto simp: teep_transient_object_write_def store_write_def view_objects_map s split: if_splits)
    qed
  qed
qed

interpretation transient: object_store teep_transient_object_view "teep_transient_object_write A"
  teep_hostcall_context_free transient_ok TEEP_AGENT_TRANSIENT_OBJECTS_MAX TEEP_AGENT_TRANSIENT_OBJECT_NAME_MAX
  TEEP_AGENT_TRANSIENT_OBJECT_SIZE_MAX
  for A :: "('w, 'h) tee_api"
proof
  fix ctx assume ok: "transient_ok ctx"
  have "filter tr_used (map (\<lambda>ob. ob\<lparr>tr_used := False, tr_name := [], tr_data := []\<rparr>) obs) = []" for obs
    by (induction obs) auto
  then show "transient_ok (teep_hostcall_context_free ctx) \<and>
      teep_transient_object_view (teep_hostcall_context_free ctx) = Map.empty"
    using ok by (simp add: transient_ok_def teep_hostcall_context_free_def view_objects_map objects_map_def
        list_all_iff TEEP_AGENT_TRANSIENT_OBJECT_NAME_MAX_def)
  show "finite (dom (teep_transient_object_view ctx)) \<and>
      card (dom (teep_transient_object_view ctx)) \<le> TEEP_AGENT_TRANSIENT_OBJECTS_MAX"
    using ok card_objects_map [of "hc_objects ctx"] length_filter_le [of tr_used "hc_objects ctx"]
    by (simp add: transient_ok_def view_objects_map dom_objects_map)
qed (rule transient_write_step)

section \<open>Publishing the acceptance result\<close>

abbreviation evidence_result_id :: bytes where
  "evidence_result_id \<equiv> ascii ''verified-evidence-result.cbor''"

lemma length_cbor_write_uint64: "length (cbor_write_uint64 n) = cbor_type_len_size n"
  by (simp add: cbor_write_uint64_def cbor_type_len_size_def)

text \<open>The buffer of 160 bytes always holds the result, and the length computed in advance is exact.\<close>

lemma acceptance_result_length:
  "length (acceptance_result_bytes gen) = acceptance_result_need gen" "acceptance_result_need gen \<le> 160"
  by (simp_all add: acceptance_result_bytes_def acceptance_result_need_def length_cbor_write
      length_cbor_write_uint64 cbor_type_len_size_def)

lemma encode_acceptance_result: "teep_encode_attestam_acceptance_result gen 160 = Inr (acceptance_result_bytes gen)"
  using acceptance_result_length(2) [of gen] by (simp add: teep_encode_attestam_acceptance_result_def)

lemma evidence_result_names:
  "evidence_result_id \<notin> {slot0_id, slot1_id, legacy_id, catalog_slot_name k, app_slot_name k}"
  by (simp add: slot0_id_def slot1_id_def legacy_id_def catalog_slot_name_def catalog_slot0_id_def
      catalog_slot1_id_def app_slot_name_def app_slot0_id_def app_slot1_id_def)

lemma published_same:
  shows "load_spec (S(evidence_result_id := x)) = load_spec S"
    and "abs_load (S(evidence_result_id := x)) = abs_load S"
    and "catalog_of sha (S(evidence_result_id := x)) = catalog_of sha S"
    and "catalog_inv sha (S(evidence_result_id := x)) = catalog_inv sha S"
proof -
  note names = evidence_result_names [of 0] evidence_result_names [of 1]
  show load: "load_spec (S(evidence_result_id := x)) = load_spec S"
    by (rule load_spec_cong) (use names in auto)
  then show "abs_load (S(evidence_result_id := x)) = abs_load S" by (simp add: abs_load_def)
  have seq: "sequence_spec (S(evidence_result_id := x)) j = sequence_spec S j" for j
    by (simp add: sequence_spec_def load)
  moreover have "catalog_view_of sha (S(evidence_result_id := x)) k = catalog_view_of sha S k" for k
    by (rule catalog_view_cong) (use evidence_result_names [of k] in auto)
  ultimately have spec: "catalog_spec sha (S(evidence_result_id := x)) = catalog_spec sha S"
    by (simp only: catalog_spec_def)
  then show "catalog_of sha (S(evidence_result_id := x)) = catalog_of sha S" by (simp add: catalog_of_def)
  have "(S(evidence_result_id := x)) catalog_slot1_id = S catalog_slot1_id"
    using names by (auto simp: catalog_slot_name_def)
  then show "catalog_inv sha (S(evidence_result_id := x)) = catalog_inv sha S"
    by (simp only: catalog_inv_def seq spec)
qed

lemma hoare_read_persistent:
  assumes laws: "storage_laws A objs hobj sha"
  shows "hoare (\<lambda>w. objs w = S) (teep_read_persistent_object A nm cap)
     (\<lambda>r w. objs w = S \<and> (\<forall>bs. snd r = Inr bs \<longrightarrow> S nm = Some bs))"
proof -
  let ?R = "\<lambda>r. \<forall>bs. snd r = Inr bs \<longrightarrow> S nm = Some bs"
  have body: "hoare (\<lambda>w. objs w = S \<and> hobj w h = Some nm)
     (bind_or (\<lambda>e. (None, Inl e)) (tee_info A h) (\<lambda>dataSize.
          if dataSize > cap then State_Monad.return (Some dataSize, Inl ERROR_SHORT_BUFFER)
          else bind_or (\<lambda>e. (Some dataSize, Inl e)) (tee_read A h dataSize) (\<lambda>bs.
            State_Monad.return (Some dataSize,
              if length bs \<noteq> dataSize then Inl ERROR_CORRUPT_OBJECT else Inr bs))))
     (\<lambda>r w. objs w = S \<and> ?R r)" for h
  proof (rule hoare_bind_ok [OF law_info [OF laws]])
    fix n
    let ?k = "if n > cap then State_Monad.return (Some n, Inl ERROR_SHORT_BUFFER)
          else bind_or (\<lambda>e. (Some n, Inl e)) (tee_read A h n) (\<lambda>bs.
            State_Monad.return (Some n, if length bs \<noteq> n then Inl ERROR_CORRUPT_OBJECT else Inr bs))"
    have "hoare (\<lambda>w. (\<exists>d. S nm = Some d \<and> n = length d) \<and> objs w = S \<and> hobj w h = Some nm) ?k
        (\<lambda>r w. objs w = S \<and> ?R r)"
    proof (rule hoare_assume, elim exE conjE)
      fix d assume "S nm = Some d" "n = length d"
      then show "hoare (\<lambda>w. objs w = S \<and> hobj w h = Some nm) ?k (\<lambda>r w. objs w = S \<and> ?R r)"
        by (intro hoare_if) (auto intro!: hoare_return hoare_read_all [OF laws])
    qed
    then show "hoare (\<lambda>w. objs w = S \<and> hobj w h = Some nm \<and>
         (case Inr n of Inr n \<Rightarrow> \<exists>d. S nm = Some d \<and> n = length d | Inl e \<Rightarrow> e \<noteq> ERROR_ITEM_NOT_FOUND))
       ?k (\<lambda>r w. objs w = S \<and> ?R r)"
      by (rule hoare_pre) auto
  qed simp
  show ?thesis
    unfolding teep_read_persistent_object_def
    by (intro hoare_if hoare_return hoare_with_object [OF laws] body) auto
qed

text \<open>A write of the result touches no other object, and a success means that it is stored.\<close>

lemma hoare_publish:
  assumes laws: "storage_laws A objs hobj sha"
  shows "hoare (\<lambda>w. objs w = S) (teep_publish_acceptance_result A gen)
     (\<lambda>r w. (\<exists>x. objs w = S(evidence_result_id := x)) \<and>
        (\<forall>u. r = Inr u \<longrightarrow> objs w = S(evidence_result_id := Some (acceptance_result_bytes gen))))"
proof -
  let ?bs = "acceptance_result_bytes gen"
  have wr: "hoare (\<lambda>w. objs w = S) (twep_ta_write_persistent_object A evidence_result_id ?bs)
     (\<lambda>r w. slot_written S evidence_result_id ?bs r (objs w))"
    unfolding twep_ta_write_persistent_object_def
    by (intro hoare_if hoare_create_write [OF laws] hoare_return) (simp add: slot_written_def)
  show ?thesis
    unfolding teep_publish_acceptance_result_def encode_acceptance_result sum.case
  proof (rule hoare_bind_ok [OF wr])
    show "hoare (\<lambda>w. slot_written S evidence_result_id ?bs (Inr u) (objs w)) (do {
          (len, r) \<leftarrow> teep_read_persistent_object A evidence_result_id 160;
          State_Monad.return (case r of Inl e \<Rightarrow> Inl e
          | Inr back \<Rightarrow> if length back \<noteq> length ?bs \<or> mem_compare back ?bs \<noteq> 0 then Inl ERROR_CORRUPT_OBJECT
            else Inr ()) })
       (\<lambda>r w. (\<exists>x. objs w = S(evidence_result_id := x)) \<and>
          (\<forall>u. r = Inr u \<longrightarrow> objs w = S(evidence_result_id := Some ?bs)))" for u
      unfolding slot_written_def sum.case
      by (rule hoare_bind [OF hoare_read_persistent [OF laws]]) (auto intro!: hoare_return split: prod.split)
  next
    show "(\<exists>x. objs w = S(evidence_result_id := x)) \<and>
        (\<forall>u. Inl e = Inr u \<longrightarrow> objs w = S(evidence_result_id := Some ?bs))"
      if "slot_written S evidence_result_id ?bs (Inl e) (objs w)" for e w
      using that by (auto simp: slot_written_def intro: exI [of _ "S evidence_result_id"])
  qed
qed

lemma read_persistent_reliable:
  assumes laws: "storage_laws A objs hobj sha" and rel: "storage_reliable A objs hobj"
    and S: "S nm = Some d" and fits: "length d \<le> cap" and nm: "nm \<noteq> []"
  shows "hoare (\<lambda>w. objs w = S) (teep_read_persistent_object A nm cap) (\<lambda>r w. r = (Some (length d), Inr d))"
proof -
  note ops = object_reliable [OF laws rel, of S nm d, OF S]
  have any: "hoare (\<lambda>w. R) m (\<lambda>_ _. R)" for R and m :: "('a, 'x) state" by (simp add: hoare_def)
  show ?thesis
    unfolding teep_read_persistent_object_def using nm fits
    by (auto intro!: hoare_bind_ok [OF ops(1)] hoare_bind_ok_result [OF ops(2)] hoare_bind_ok_result [OF ops(3)]
        hoare_bind [where R = "\<lambda>r w. r = (Some (length d), Inr d)"] hoare_bind [OF any] hoare_return)
qed

lemma publish_reliable:
  assumes laws: "storage_laws A objs hobj sha" and rel: "storage_reliable A objs hobj"
  shows "hoare (\<lambda>w. objs w = S) (teep_publish_acceptance_result A gen) (\<lambda>r w. r = Inr ())"
proof -
  let ?bs = "acceptance_result_bytes gen"
  have wr: "hoare (\<lambda>w. objs w = S) (twep_ta_write_persistent_object A evidence_result_id ?bs)
     (\<lambda>r w. r = Inr () \<and> objs w = S(evidence_result_id := Some ?bs))"
    unfolding twep_ta_write_persistent_object_def
    using hoare_create_write_reliable [OF laws rel] by simp
  have fits: "length ?bs \<le> 160" using acceptance_result_length [of gen] by simp
  have nm: "evidence_result_id \<noteq> []" by simp
  have rd: "hoare (\<lambda>w. objs w = S(evidence_result_id := Some ?bs)) (teep_read_persistent_object A evidence_result_id 160)
      (\<lambda>r w. r = (Some (length ?bs), Inr ?bs))"
    by (rule read_persistent_reliable [OF laws rel _ fits nm]) (simp only: fun_upd_same)
  show ?thesis
    unfolding teep_publish_acceptance_result_def encode_acceptance_result sum.case
    by (rule hoare_bind_ok_result [OF wr], rule hoare_bind [OF rd]) (auto intro!: hoare_return simp: mem_compare_eq0)
qed

section \<open>Commits and the transcript\<close>

lemma cleared [simp]:
  "g_pending_host_io (pending_host_io_clear t) = zero_pending_host_io"
  "g_pending_teep_live (pending_host_io_clear t) = g_pending_teep_live t"
  "\<not> transcript_pending (pending_host_io_clear t)"
  by (simp_all add: pending_host_io_clear_def Let_def transcript_pending_def zero_pending_host_io_def)

lemma recorded_pending [simp]:
  "g_pending_host_io (record_commit k q p v eg n g t) = g_pending_host_io t"
  by (simp add: record_commit_def Let_def)

lemma host_status_0 [simp]: "acceptance_host_status r = 0 \<longleftrightarrow> (\<exists>x. r = Inr x)"
  by (auto simp: acceptance_host_status_def split: sum.splits)

lemma host_status_Inl [simp]: "acceptance_host_status (Inl e) \<noteq> 0"
  by (simp add: acceptance_host_status_def)

text \<open>
  What the three commit functions have in common. Without the transcript of the request the world and
  the session stay as they are; otherwise the transcript is consumed, and what happened to storage is
  the commit followed by the publication of its result.
\<close>

lemma with_transcript:
  assumes run: "run_state (commit_with_transcript A q commit note) (w, t) = ((st, g), (w', t'))"
  obtains
    (refused) "\<not> (transcript_pending t \<and> mem_compare (ph_request_body_sha256 (g_pending_host_io t)) q = 0)"
      "st = 9" "g = None" "w' = w"
      "t' = t \<and> \<not> transcript_pending t \<or> t' = pending_host_io_clear t"
  | (failed) e where "transcript_pending t" "mem_compare (ph_request_body_sha256 (g_pending_host_io t)) q = 0"
      "run_state commit w = (Inl e, w')" "g = None" "st \<noteq> 0" "t' = pending_host_io_clear t"
  | (committed) gen w1 pub where "transcript_pending t" "mem_compare (ph_request_body_sha256 (g_pending_host_io t)) q = 0"
      "run_state commit w = (Inr gen, w1)" "run_state (teep_publish_acceptance_result A gen) w1 = (pub, w')"
      "g = Some gen" "st = acceptance_host_status pub"
      "t' = pending_host_io_clear (case pub of Inl _ \<Rightarrow> t | Inr _ \<Rightarrow> note gen t)"
proof -
  consider "\<not> transcript_pending t" | "transcript_pending t" "mem_compare (ph_request_body_sha256 (g_pending_host_io t)) q \<noteq> 0"
    | "transcript_pending t" "mem_compare (ph_request_body_sha256 (g_pending_host_io t)) q = 0" by blast
  then show thesis
  proof cases
    case 3
    obtain r w1 where r: "run_state commit w = (r, w1)" by fastforce
    show thesis
    proof (cases r)
      case (Inl e)
      with run r 3 have "g = None \<and> st = acceptance_host_status (Inl e :: tee_error + u64) \<and> w' = w1 \<and>
          t' = pending_host_io_clear t"
        by (simp add: commit_with_transcript_def)
      with r 3 Inl show thesis by (intro failed [of e]) simp_all
    next
      case (Inr gen)
      obtain pub w2 where "run_state (teep_publish_acceptance_result A gen) w1 = (pub, w2)" by fastforce
      then show thesis using run r 3 Inr
        by (intro committed [of gen w1 pub]) (auto simp: commit_with_transcript_def split: sum.splits)
    qed
  qed (use run refused in \<open>auto simp: commit_with_transcript_def\<close>)
qed

lemma replay_commit_reads:
  assumes laws: "storage_laws A objs hobj sha"
    and run: "run_state (replay_commit A kind q i v eg payload dg live) (w, t) = (r, (w', t'))"
  shows "objs w' = objs w" "t' = t"
proof -
  obtain r1 w1 where 1: "run_state (twep_ta_sha256_bytes A payload) w = (r1, w1)" by fastforce
  obtain r2 w2 where 2: "run_state (twep_acceptance_component_sequence A i) w1 = (r2, w2)" by fastforce
  have "objs w1 = objs w" using sha256_run [OF laws 1] by simp
  moreover have "objs w2 = objs w1" using hoareD [OF hoare_queries(3) [OF laws] refl 2] .
  ultimately show "objs w' = objs w" "t' = t"
    using run 1 2 by (auto simp: replay_commit_def split: sum.splits if_splits)
qed

text \<open>The calls of the agent that commit, as one type.\<close>

datatype commit_call =
  Commit_Acceptance bytes bytes u64 u64
| Commit_Catalog bytes bytes u64 u64 bytes bytes
| Commit_App bytes bytes u64 u64 bytes bytes

primrec call_digest :: "commit_call \<Rightarrow> bytes" where
  "call_digest (Commit_Acceptance q i v eg) = q"
| "call_digest (Commit_Catalog q i v eg payload dg) = q"
| "call_digest (Commit_App q i v eg payload dg) = q"

primrec run_call :: "('w, 'h) tee_api \<Rightarrow> teep_agent_hostcall_context \<Rightarrow> commit_call \<Rightarrow> ('w, nat \<times> u64 option) ta" where
  "run_call A ctx (Commit_Acceptance q i v eg) = teep_host_commit_acceptance A q i v eg"
| "run_call A ctx (Commit_Catalog q i v eg payload dg) = teep_host_commit_catalog A ctx q i v eg payload dg"
| "run_call A ctx (Commit_App q i v eg payload dg) = teep_host_commit_app A ctx q i v eg payload dg"

lemma note_keeps_pending:
  "run_state (commit_with_transcript A q commit note) (w, t) = (r, (w', t')) \<Longrightarrow>
   (\<And>gen t. g_pending_host_io (note gen t) = g_pending_host_io t) \<Longrightarrow>
   w' = w \<and> \<not> transcript_pending t' \<or>
   transcript_pending t \<and> mem_compare (ph_request_body_sha256 (g_pending_host_io t)) q = 0 \<and> \<not> transcript_pending t'"
  by (cases r) (auto elim!: with_transcript)

lemma commit_call_effect:
  assumes laws: "storage_laws A objs hobj sha" and run: "run_state (run_call A ctx c) (w, t) = (r, (w', t'))"
  shows "objs w' = objs w \<and> (transcript_pending t' \<longrightarrow> t' = t) \<or>
     transcript_pending t \<and> length (call_digest c) = 32 \<and>
     mem_compare (ph_request_body_sha256 (g_pending_host_io t)) (call_digest c) = 0 \<and> \<not> transcript_pending t'"
proof -
  let ?Q = "objs w' = objs w \<and> (transcript_pending t' \<longrightarrow> t' = t) \<or>
     transcript_pending t \<and> length (call_digest c) = 32 \<and>
     mem_compare (ph_request_body_sha256 (g_pending_host_io t)) (call_digest c) = 0 \<and> \<not> transcript_pending t'"
  have fresh: ?Q if "run_state (commit_with_transcript A q commit nt) (w, t) = (r, (w', t'))" "length q = 32"
    "\<And>gen t. g_pending_host_io (nt gen t) = g_pending_host_io t" "call_digest c = q" for q commit nt
    using note_keeps_pending [OF that(1,3)] that(2,4) by auto
  have replay: ?Q if "run_state (replay_commit A kind q i v eg payload dg live) (w, t) = (r, (w', t'))"
    for kind q i v eg payload dg live
    using replay_commit_reads [OF laws that] by simp
  show ?thesis
  proof (cases c)
    case (Commit_Acceptance q i v eg)
    show ?thesis
    proof (cases "length q \<noteq> 32 \<or> length i = 0")
      case False
      with run Commit_Acceptance show ?thesis by (intro fresh [of q _ "\<lambda>_ t. t"]) (auto simp: teep_host_commit_acceptance_def)
    qed (use run Commit_Acceptance in \<open>auto simp: teep_host_commit_acceptance_def\<close>)
  next
    case (Commit_Catalog q i v eg payload dg)
    with run have "w' = w \<and> \<not> transcript_pending t' \<or>
        run_state (replay_commit A 1 q i v eg payload dg (g_pending_teep_live t)) (w, t) = (r, (w', t')) \<or>
        length q = 32 \<and> run_state (commit_with_transcript A q (twep_catalog_commit A q i v eg payload dg)
          (record_commit 1 q dg v eg (length payload))) (w, t) = (r, (w', t'))"
      by (auto simp: teep_host_commit_catalog_def Let_def split: if_splits)
    with Commit_Catalog show ?thesis
      using replay fresh [OF _ _ recorded_pending [of 1 q dg v eg "length payload"], of q] by (elim disjE conjE) auto
  next
    case (Commit_App q i v eg payload dg)
    with run have "w' = w \<and> t' = t \<or>
        run_state (replay_commit A 2 q i v eg payload dg (g_pending_teep_live t)) (w, t) = (r, (w', t')) \<or>
        length q = 32 \<and> run_state (commit_with_transcript A q (twep_app_commit A q i v eg payload dg)
          (record_commit 2 q dg v eg (length payload))) (w, t) = (r, (w', t'))"
      by (auto simp: teep_host_commit_app_def Let_def split: if_splits)
    with Commit_App show ?thesis
      using replay fresh [OF _ _ recorded_pending [of 2 q dg v eg "length payload"], of q] by (elim disjE conjE) auto
  qed
qed

lemma catalog_result_published:
  "catalog_commit_result sha S a q v catalog r S1 \<Longrightarrow>
   catalog_commit_result sha S a q v catalog r (S1(evidence_result_id := x))"
  using evidence_result_names [of 0]
  by (simp only: catalog_commit_result_def published_same) (auto simp: Let_def split: sum.splits)

lemma catalog_commit_refused_result:
  "load_spec S = Inr cur \<Longrightarrow> catalog_inv sha S \<Longrightarrow> catalog_commit_result sha S (abs_of cur) q v catalog (Inl e) S"
  by (simp add: catalog_commit_result_def abs_load_Inr)

text \<open>A catalog commit that succeeds was given the digest of the catalog.\<close>

lemma catalog_commit_digest:
  assumes laws: "storage_laws A objs hobj sha" and "run_state (twep_catalog_commit A q i v eg catalog dg) w = (Inr g, w')"
  shows "mem_compare (sha catalog) dg = 0" "i = default_catalog_component_id"
proof -
  have triv: "hoare P m (\<lambda>_ _. B)" if B for P B and m :: "('s, 'x) state" using that by (simp add: hoare_def)
  have "hoare (\<lambda>w'. objs w' = objs w) (twep_catalog_commit A q i v eg catalog dg)
     (\<lambda>r w. \<forall>g. r = Inr g \<longrightarrow> mem_compare (sha catalog) dg = 0)"
    unfolding twep_catalog_commit_def
  proof (rule hoare_if, simp add: hoare_def, rule hoare_bind_ok [OF digest_sha256_law [OF laws]], simp)
    fix d
    show "hoare (\<lambda>s. objs s = objs w \<and> (\<forall>d'. Inr d = Inr d' \<longrightarrow> d' = sha catalog \<and> length d' = 32))
        (if mem_compare d dg \<noteq> 0 then throw ERROR_SECURITY else rst)
        (\<lambda>r w. \<forall>g. r = Inr g \<longrightarrow> mem_compare (sha catalog) dg = 0)" for rst
      by (auto simp: hoare_def)
  qed
  from hoareD [OF this refl assms(2)] show "mem_compare (sha catalog) dg = 0" by simp
  show "i = default_catalog_component_id"
    using assms(2) by (auto simp: twep_catalog_commit_def is_default_iff split: if_splits)
qed

lemma host_commit_fresh:
  assumes "\<not> (pl_active (g_pending_teep_live t) \<and> component_commit_recorded (g_pending_teep_live t))"
    and "run_state (teep_host_commit_catalog A ctx q i v eg catalog dg) (w, t) = ((st, g), (w', t'))"
  obtains "w' = w" "st \<noteq> 0" "t' = pending_host_io_clear t"
  | "length q = 32" "length dg = 32" "hc_resolver_mode ctx = ascii ''attestam-verified''"
    "run_state (commit_with_transcript A q (twep_catalog_commit A q i v eg catalog dg)
       (record_commit 1 q dg v eg (length catalog))) (w, t) = ((st, g), (w', t'))"
  using assms
  by (auto simp: teep_host_commit_catalog_def Let_def view_eq_iff split: if_splits)

lemma host_commit_effect:
  assumes laws: "storage_laws A objs hobj sha" and fs: "fail_stop A objs hobj dead"
    and load: "load_spec (objs w) = Inr cur" and inv: "catalog_inv sha (objs w)"
    and nr: "\<not> (pl_active (g_pending_teep_live t) \<and> component_commit_recorded (g_pending_teep_live t))"
    and run: "run_state (teep_host_commit_catalog A ctx q i v (generation cur) catalog dg) (w, t) = ((st, g), (w', t'))"
  shows "\<exists>r. catalog_commit_result sha (objs w) (abs_of cur) q v catalog r (objs w') \<and>
     (st = 0 \<longrightarrow> r = Inr (generation cur + 1) \<and> g = Some (generation cur + 1) \<and>
        objs w' evidence_result_id = Some (acceptance_result_bytes (generation cur + 1))) \<and>
     (objs w' \<noteq> objs w \<longrightarrow> hc_resolver_mode ctx = ascii ''attestam-verified'' \<and> transcript_pending t \<and>
        mem_compare (ph_request_body_sha256 (g_pending_host_io t)) q = 0)"
  using nr run
proof (cases rule: host_commit_fresh)
  case 1
  with catalog_commit_refused_result [OF load inv] show ?thesis by blast
next
  case 2
  from 2(4) show ?thesis
  proof (cases rule: with_transcript)
    case refused
    then have "catalog_commit_result sha (objs w) (abs_of cur) q v catalog (Inl ERROR_GENERIC) (objs w') \<and>
        st \<noteq> 0 \<and> objs w' = objs w"
      using catalog_commit_refused_result [OF load inv] by simp
    then show ?thesis by blast
  next
    case (failed e)
    have "catalog_commit_result sha (objs w) (abs_of cur) q v catalog (Inl e) (objs w')"
      using hoareD [OF hoare_catalog_commit [OF laws fs load 2(1) inv] refl failed(3)] .
    with failed 2 show ?thesis by blast
  next
    case (committed gen w1 pub)
    have res: "catalog_commit_result sha (objs w) (abs_of cur) q v catalog (Inr gen) (objs w1)"
      using hoareD [OF hoare_catalog_commit [OF laws fs load 2(1) inv] refl committed(3)] .
    then have gen: "gen = generation cur + 1" by (simp add: catalog_commit_result_def abs_of_def)
    from hoareD [OF hoare_publish [OF laws] refl committed(4)] obtain x
      where x: "objs w' = (objs w1)(evidence_result_id := x)"
        and ok: "\<And>u. pub = Inr u \<Longrightarrow> objs w' = (objs w1)(evidence_result_id := Some (acceptance_result_bytes gen))"
      by blast
    have pubres: "catalog_commit_result sha (objs w) (abs_of cur) q v catalog (Inr gen) (objs w')"
      unfolding x by (rule catalog_result_published [OF res])
    have stored: "objs w' evidence_result_id = Some (acceptance_result_bytes gen)" if "st = 0"
    proof -
      from that committed(6) obtain u where "pub = Inr u" by auto
      from ok [OF this] show ?thesis by (simp only: fun_upd_same)
    qed
    show ?thesis
      by (intro exI [of _ "Inr gen"] conjI impI)
        (use pubres stored committed(1,2,5) 2(3) gen in \<open>simp_all only:\<close>)
  qed
qed

text \<open>The same call again, in a replay of the agent after a success.\<close>

lemma sha256_bytes_reliable:
  assumes "storage_laws A objs hobj sha" and "storage_reliable A objs hobj"
    and "run_state (twep_ta_sha256_bytes A bs) w = (r, w')"
  shows "r = Inr (sha bs)" "objs w' = objs w"
proof -
  have "hoare (\<lambda>w. True) (twep_ta_sha256_bytes A bs) (\<lambda>r w. \<exists>d. r = Inr d)"
    unfolding twep_ta_sha256_bytes_def
    by (intro hoare_bind_ok [OF rel_digest_alloc [OF assms(2)]] hoare_pre [OF hoare_bind [OF rel_digest_final [OF assms(2)]]]
        hoare_return) auto
  from hoareD [OF this _ assms(3)] sha256_run [OF assms(1,3)] show "r = Inr (sha bs)" "objs w' = objs w" by auto
qed

lemma replay_commit_same:
  assumes laws: "storage_laws A objs hobj sha" and rel: "storage_reliable A objs hobj"
    and live: "component_commit_kind live = kind" "component_commit_sequence live = v"
      "component_commit_expected_generation live = eg" "component_commit_payload_len live = length payload"
      "component_commit_query_digest live = q" "component_commit_payload_digest live = dg"
    and dg: "sha payload = dg" and seq: "sequence_spec (objs w) i = Inr (gen, v)"
    and run: "run_state (replay_commit A kind q i v eg payload dg live) (w, t) = (r, (w', t'))"
  shows "r = (0, Some (component_commit_new_generation live))" "objs w' = objs w" "t' = t"
proof -
  obtain r1 w1 where 1: "run_state (twep_ta_sha256_bytes A payload) w = (r1, w1)" by fastforce
  obtain r2 w2 where 2: "run_state (twep_acceptance_component_sequence A i) w1 = (r2, w2)" by fastforce
  note facts = sha256_bytes_reliable [OF laws rel 1] hoareD [OF component_sequence_reliable [OF laws rel] refl 2]
  have eq: "mem_compare xs xs = 0" for xs by (simp add: mem_compare_eq0)
  show "r = (0, Some (component_commit_new_generation live))" "objs w' = objs w" "t' = t"
    using run 1 2 facts seq live dg by (auto simp: replay_commit_def eq)
qed

lemma replay_commit_other:
  assumes "st = 0" and "run_state (replay_commit A kind q i v eg payload dg live) (w, t) = ((st, g), s')"
  shows "component_commit_kind live = kind \<and> component_commit_sequence live = v \<and>
    component_commit_expected_generation live = eg \<and> component_commit_payload_len live = length payload \<and>
    mem_compare q (component_commit_query_digest live) = 0 \<and> g = Some (component_commit_new_generation live)"
proof -
  obtain r1 w1 where 1: "run_state (twep_ta_sha256_bytes A payload) w = (r1, w1)" by fastforce
  obtain r2 w2 where 2: "run_state (twep_acceptance_component_sequence A i) w1 = (r2, w2)" by fastforce
  show ?thesis using assms 1 2 by (auto simp: replay_commit_def split: sum.splits if_splits)
qed

lemma host_commit_reliable:
  assumes laws: "storage_laws A objs hobj sha" and rel: "storage_reliable A objs hobj"
    and load: "load_spec (objs w) = Inr cur" and inv: "catalog_inv sha (objs w)" and q: "length q = 32"
    and allowed: "commit_allowed (abs_of cur) q default_catalog_component_id v"
    and enc: "encode_updated cur q default_catalog_component_id v = Inr out"
    and c: "catalog \<noteq> []" "length catalog \<le> CATALOG_STATE_MAX_PAYLOAD"
    and mode: "hc_resolver_mode ctx = ascii ''attestam-verified''"
    and nr: "\<not> (pl_active (g_pending_teep_live t) \<and> component_commit_recorded (g_pending_teep_live t))"
    and tr: "transcript_pending t" "ph_request_body_sha256 (g_pending_host_io t) = q"
    and run: "run_state (teep_host_commit_catalog A ctx q default_catalog_component_id v (generation cur) catalog (sha catalog)) (w, t) =
      ((st, g), (w', t'))"
  shows "st = 0"
proof -
  have len: "length (sha catalog) = 32" by (rule sha_length [OF laws rel])
  note com = catalog_commit_reliable [OF laws rel load inv q allowed enc c len]
  have "run_state (commit_with_transcript A q (twep_catalog_commit A q default_catalog_component_id v (generation cur) catalog (sha catalog))
       (record_commit 1 q (sha catalog) v (generation cur) (length catalog))) (w, t) = ((st, g), (w', t'))"
    using run q c len mode nr
    by (auto simp: teep_host_commit_catalog_def Let_def view_eq_iff is_default_iff not_less split: if_splits)
  then show ?thesis
  proof (cases rule: with_transcript)
    case refused
    then show ?thesis using tr by (simp add: mem_compare_eq0)
  next
    case (failed e)
    then show ?thesis using hoareD [OF com refl failed(3)] by simp
  next
    case (committed gen w1 pub)
    then show ?thesis using hoareD [OF publish_reliable [OF laws rel] refl committed(4)] by simp
  qed
qed

lemma host_commit_again:
  assumes laws: "storage_laws A objs hobj sha" and rel: "storage_reliable A objs hobj"
    and load: "load_spec (objs w) = Inr cur" and inv: "catalog_inv sha (objs w)"
    and live: "pl_active (g_pending_teep_live t)" "\<not> component_commit_recorded (g_pending_teep_live t)"
    and first: "run_state (teep_host_commit_catalog A ctx q i v (generation cur) catalog dg) (w, t) = ((0, g), (w1, t1))"
    and again: "run_state (teep_host_commit_catalog A ctx' q i v (generation cur) catalog dg) (w1, t1) = ((st, g'), (w2, t2))"
    and mode: "hc_resolver_mode ctx' = hc_resolver_mode ctx"
  shows "st = 0 \<and> g' = g \<and> objs w2 = objs w1 \<and> t2 = t1"
proof -
  have eff: "catalog_commit_result sha (objs w) (abs_of cur) q v catalog (Inr (generation cur + 1)) (objs w1)"
    using host_commit_effect [OF laws reliable_fail_stop [OF rel] load inv _ first] live by auto
  have "\<not> (pl_active (g_pending_teep_live t) \<and> component_commit_recorded (g_pending_teep_live t))" using live by simp
  from this first show ?thesis
  proof (cases rule: host_commit_fresh)
    case 2
    from 2(4) show ?thesis
    proof (cases rule: with_transcript)
      case (committed gen w0 pub)
      from committed(6) obtain u where pub: "pub = Inr u" by auto
      let ?live = "g_pending_teep_live t1"
      have t1: "?live = (g_pending_teep_live t)\<lparr>component_commit_recorded := True, component_commit_kind := 1,
          component_commit_query_digest := q, component_commit_payload_digest := dg, component_commit_sequence := v,
          component_commit_expected_generation := generation cur, component_commit_new_generation := gen,
          component_commit_payload_len := length catalog\<rparr>"
        using committed(7) pub live by (simp add: record_commit_def Let_def)
      have dg: "sha catalog = dg"
        using catalog_commit_digest(1) [OF laws committed(3)] 2(2) sha_length [OF laws rel, of catalog]
        by (simp add: mem_compare_eq0)
      have i: "i = default_catalog_component_id" by (rule catalog_commit_digest(2) [OF laws committed(3)])
      have "abs_load (objs w1) = Some (commit_spec (abs_of cur) q default_catalog_component_id v)"
        using eff by (simp add: catalog_commit_result_def Let_def)
      then have seq: "sequence_spec (objs w1) i = Inr (acc_generation (abs_of cur) + 1, v)"
        using default_id_nonempty by (simp add: sequence_spec_abs i commit_spec_def)
      have "run_state (replay_commit A 1 q i v (generation cur) catalog dg ?live) (w1, t1) = ((st, g'), (w2, t2))"
        using again first mode t1 live
        by (auto simp: teep_host_commit_catalog_def Let_def split: if_splits)
      from replay_commit_same [OF laws rel _ _ _ _ _ _ dg seq this] show ?thesis
        using t1 committed(5) by simp
    qed auto
  qed auto
qed

lemma host_commit_recorded:
  assumes "\<not> component_commit_recorded (g_pending_teep_live t)"
    and "run_state (teep_host_commit_catalog A ctx q i v eg catalog dg) (w, t) = ((0, g), (w1, t1))"
  shows "pl_active (g_pending_teep_live t) \<Longrightarrow> commit_recorded t1 1"
proof -
  assume live: "pl_active (g_pending_teep_live t)"
  have "\<not> (pl_active (g_pending_teep_live t) \<and> component_commit_recorded (g_pending_teep_live t))" using assms by simp
  from this assms(2) show ?thesis
  proof (cases rule: host_commit_fresh)
    case 2
    from 2(4) show ?thesis
      by (cases rule: with_transcript)
        (use live in \<open>auto simp: commit_recorded_def record_commit_def Let_def split: sum.splits\<close>)
  qed auto
qed

text \<open>What a read of the protected objects delivers.\<close>

lemma catalog_read_run:
  assumes "storage_laws A objs hobj sha" and "storage_reliable A objs hobj"
    and "run_state (twep_catalog_read_active A True cap) w = ((len, Inr bs), w')"
  shows "catalog_of sha (objs w) = Some bs" "len = Some (length bs)"
proof -
  obtain r w1 where run: "run_state (load_active_catalog A) w = (r, w1)" by fastforce
  have "objs w1 = objs w \<and> (r = catalog_spec sha (objs w) \<or> r = Inl ERROR_OUT_OF_MEMORY)"
    using crash_load_active_catalog [OF assms(1) reliable_fail_stop [OF assms(2)], of "objs w"] run
    by (auto simp: crash_hoare_False hoare_def)
  then show "catalog_of sha (objs w) = Some bs" "len = Some (length bs)"
    using assms(3) run by (auto simp: twep_catalog_read_active_def catalog_of_def split: sum.splits if_splits)
qed

lemma app_read_run:
  assumes "storage_laws A objs hobj sha" and "storage_reliable A objs hobj"
    and "run_state (twep_app_read_active A True cap) w = ((len, Inr (bs, dg)), w')"
  shows "\<exists>i. app_of sha (objs w) = Some (i, bs)" "len = Some (length bs)"
proof -
  obtain r w1 where run: "run_state (load_active_app A) w = (r, w1)" by fastforce
  have "objs w1 = objs w \<and> (r = app_spec sha (objs w) \<or> r = Inl ERROR_OUT_OF_MEMORY)"
    using crash_load_active_app [OF assms(1) reliable_fail_stop [OF assms(2)], of "objs w"] run
    by (auto simp: crash_hoare_False hoare_def)
  then show "\<exists>i. app_of sha (objs w) = Some (i, bs)" "len = Some (length bs)"
    using assms(3) run by (auto simp: twep_app_read_active_def app_of_def split: sum.splits if_splits)
qed

lemma catalog_read_fits:
  "run_state (twep_catalog_read_active A True cap) w = ((len, Inr bs), w') \<Longrightarrow> length bs \<le> cap"
  by (auto simp: twep_catalog_read_active_def split: prod.splits sum.splits if_splits)

lemma app_read_fits:
  "run_state (twep_app_read_active A True cap) w = ((len, Inr (bs, dg)), w') \<Longrightarrow> length bs \<le> cap"
  by (auto simp: twep_app_read_active_def split: prod.splits sum.splits if_splits)

section \<open>Properties\<close>

text \<open>
  C28. The transient objects of a run refine a bounded map. Any sequence of writes returns the statuses
  and leaves the contents that the map specification gives, for some outcomes of the memory
  allocations: a name already present is replaced, a new one needs one of the 64 places, names and
  data beyond the limits are refused, and a refused write changes nothing. At the end of the run
  nothing is left.
\<close>

theorem transient_refines:
  assumes "transient_ok ctx"
    and "run_state (write_all (teep_transient_object_write A) ws ctx) s = ((sts, ctx'), s')"
  shows "transient_ok ctx' \<and>
     (\<exists>oks. length oks = length ws \<and> (sts, teep_transient_object_view ctx') =
        store_writes TEEP_AGENT_TRANSIENT_OBJECTS_MAX TEEP_AGENT_TRANSIENT_OBJECT_NAME_MAX
          TEEP_AGENT_TRANSIENT_OBJECT_SIZE_MAX (zip oks ws) (teep_transient_object_view ctx)) \<and>
     teep_transient_object_view (teep_hostcall_context_free ctx') = Map.empty"
  using transient.writes_refine [OF assms] transient.free_empty by blast


text \<open>
  The commit is not refused without reason: on storage that does not fail, with the transcript of the
  exchange pending, a new digest, a higher sequence number, the current generation and sizes within the
  limits, the agent's commit of a catalog returns 0.
\<close>

theorem host_commit_catalog_succeeds:
  assumes "storage_laws A objs hobj sha" and "storage_reliable A objs hobj"
    and "load_spec (objs w) = Inr cur" and "catalog_inv sha (objs w)" and "length q = 32"
    and "commit_allowed (abs_of cur) q default_catalog_component_id v"
    and "encode_updated cur q default_catalog_component_id v = Inr out"
    and "catalog \<noteq> []" and "length catalog \<le> CATALOG_STATE_MAX_PAYLOAD"
    and "hc_resolver_mode ctx = ascii ''attestam-verified''"
    and "\<not> (pl_active (g_pending_teep_live t) \<and> component_commit_recorded (g_pending_teep_live t))"
    and "transcript_pending t" and "ph_request_body_sha256 (g_pending_host_io t) = q"
  shows "fst (fst (run_state (teep_host_commit_catalog A ctx q default_catalog_component_id v (generation cur)
      catalog (sha catalog)) (w, t))) = 0"
proof -
  obtain st g w' t' where run: "run_state (teep_host_commit_catalog A ctx q default_catalog_component_id v (generation cur)
      catalog (sha catalog)) (w, t) = ((st, g), (w', t'))" by (metis surj_pair)
  from host_commit_reliable [OF assms this] run show ?thesis by simp
qed

text \<open>
  A transcript authorises at most one commit. When a commit call of the agent, of any kind and
  whatever its outcome, has changed storage, there was a transcript of an HTTP exchange with the digest
  given, and no later commit call of the session changes storage until a new exchange is pending.
\<close>

theorem one_commit_per_transcript:
  assumes "storage_laws A objs hobj sha"
    and "run_state (run_call A ctx c) (w, t) = (r, (w', t'))" and "objs w' \<noteq> objs w"
    and "run_state (run_call A ctx2 c2) (w', t') = (r2, (w2, t2))"
  shows "transcript_pending t \<and> length (call_digest c) = 32 \<and>
     mem_compare (ph_request_body_sha256 (g_pending_host_io t)) (call_digest c) = 0 \<and> objs w2 = objs w'"
  using commit_call_effect [OF assms(1,2)] commit_call_effect [OF assms(1,4)] assms(3) by blast

text \<open>
  A commit that was made is not made again when the agent is replayed: on storage that does not
  fail, the same call in the same session returns 0 and the same generation and changes neither
  storage nor the session, although its transcript is used up. No application can be committed in
  such a session.
\<close>

theorem commit_catalog_replayed:
  assumes "storage_laws A objs hobj sha" and "storage_reliable A objs hobj"
    and "load_spec (objs w) = Inr cur" and "catalog_inv sha (objs w)"
    and "pl_active (g_pending_teep_live t)" and "\<not> component_commit_recorded (g_pending_teep_live t)"
    and "run_state (teep_host_commit_catalog A ctx q i v (generation cur) catalog dg) (w, t) = ((0, g), (w1, t1))"
    and "run_state (teep_host_commit_catalog A ctx' q i v (generation cur) catalog dg) (w1, t1) = ((st, g'), (w2, t2))"
    and "hc_resolver_mode ctx' = hc_resolver_mode ctx"
    and "run_state (teep_host_commit_app A ctx' q2 i2 v2 eg2 wasm dg2) (w1, t1) = ((st3, g3), (w3, t3))"
  shows "st = 0 \<and> g' = g \<and> objs w2 = objs w1 \<and> t2 = t1 \<and> st3 \<noteq> 0"
proof -
  have rec: "commit_recorded t1 1"
    using host_commit_recorded [OF assms(6,7)] assms(5) by simp
  then have "st3 \<noteq> 0"
    using assms(10) replay_commit_other [of st3 A 2 q2 i2 v2 eg2 wasm dg2 "g_pending_teep_live t1" w1 t1 g3 "(w3, t3)"]
    by (auto simp: teep_host_commit_app_def commit_recorded_def Let_def split: if_splits)
  then show ?thesis using host_commit_again [OF assms(1-9)] by simp
qed


section \<open>Concrete instances\<close>

text \<open>A run of the agent in the verified mode, with a pending HTTP exchange, on the device with a catalog.\<close>

definition run_ctx :: teep_agent_hostcall_context where
  "run_ctx = \<lparr>hc_teep_agent_wasm = [], hc_catalog = [0xff], hc_app_wasm = [], hc_resolver_mode = ascii ''attestam-verified'',
     hc_request_id = None, hc_command = [], hc_input = [], hc_pending = TEEP_AGENT_PENDING_NONE,
     hc_replay = TEEP_AGENT_PENDING_NONE, hc_replay_payload = [], hc_replay_used = False, hc_replay_history_index = 0,
     hc_url = [], hc_body = [], hc_challenge = [], hc_agent_public_key_cose = [], hc_objects = replicate 64 no_object\<rparr>"

definition run_ta :: ta_state where
  "run_ta = \<lparr>g_pending_http_transcript_count = 1, g_pending_http_transcript_bytes = 32, g_wamr_runtime_initialized = True,
     g_teep_agent_natives_registered = True, g_teep_agent_live_session_count = 1,
     g_session = \<lparr>default_timeout_ms = 0, request_timeout_ms = 0,
       pending_host_io = saved_request toy_digest [1] [2] [] (ascii ''teep-http-1'') (ascii ''http_post'') dg8,
       pending_teep_live = zero_pending_teep_live\<lparr>pl_active := True\<rparr>, live_session = zero_live_session\<rparr>\<rparr>"

abbreviation host_commit1 :: "(nat \<times> u64 option) \<times> device \<times> ta_state" where
  "host_commit1 \<equiv> run_state (teep_host_commit_catalog (sim_api False) run_ctx dg8 default_catalog_component_id 4
     (generation cat_state1) [0xa1, 0, 0] (toy_digest [0xa1, 0, 0])) (cat_dev, run_ta)"

lemma run_ta_facts:
  "pl_active (g_pending_teep_live run_ta)" "\<not> component_commit_recorded (g_pending_teep_live run_ta)"
  "transcript_pending run_ta" "ph_request_body_sha256 (g_pending_host_io run_ta) = dg8"
  "hc_resolver_mode run_ctx = ascii ''attestam-verified''"
  by (simp_all add: run_ta_def zero_pending_teep_live_def transcript_pending_def saved_request_def toy_digest_def dg8_def
      view_eq_iff run_ctx_def)

lemma not_recorded:
  "\<not> (pl_active (g_pending_teep_live run_ta) \<and> component_commit_recorded (g_pending_teep_live run_ta))"
  by (simp add: run_ta_facts)

lemma cat_commit_facts:
  "commit_allowed (abs_of cat_state1) dg8 default_catalog_component_id 4"
  "\<not> isl (encode_updated cat_state1 dg8 default_catalog_component_id 4)"
  "generation cat_state1 = 1"
  by code_simp+

lemma cat_dev_inv: "catalog_inv toy_digest (dev_objs cat_dev)"
  by (rule catalog_inv_active [OF cat_dev_facts(2)])

lemma cat_encoded: "encode_updated cat_state1 dg8 default_catalog_component_id 4 =
    Inr (projr (encode_updated cat_state1 dg8 default_catalog_component_id 4))"
  using cat_commit_facts(2) by simp

lemma small_catalog: "[0xa1, 0, 0 :: byte] \<noteq> []" "length [0xa1, 0, 0 :: byte] \<le> CATALOG_STATE_MAX_PAYLOAD"
  by (simp_all add: CATALOG_STATE_MAX_PAYLOAD_def)

lemma host_commit1_run: "host_commit1 = ((0, Some 2), (fst (snd host_commit1), snd (snd host_commit1)))"
proof -
  obtain st g w' t' where run: "host_commit1 = ((st, g), (w', t'))" by (metis surj_pair)
  have st: "st = 0"
    by (rule host_commit_reliable [OF sim_storage_laws sim_storage_reliable cat_dev_facts(1) cat_dev_inv dev_facts(5)
          cat_commit_facts(1) cat_encoded small_catalog run_ta_facts(5) not_recorded run_ta_facts(3,4) run])
  have "g = Some 2"
    using host_commit_effect [OF sim_storage_laws sim_fail_stop cat_dev_facts(1) cat_dev_inv not_recorded run]
    by (auto simp: st cat_commit_facts(3))
  with run st show ?thesis by simp
qed

lemma host_commit1_changed: "dev_objs (fst (snd host_commit1)) \<noteq> dev_objs cat_dev"
proof
  assume same: "dev_objs (fst (snd host_commit1)) = dev_objs cat_dev"
  have "catalog_of toy_digest (dev_objs (fst (snd host_commit1))) = Some [0xa1, 0, 0]"
    using host_commit_effect [OF sim_storage_laws sim_fail_stop cat_dev_facts(1) cat_dev_inv not_recorded host_commit1_run]
    by (auto simp: catalog_commit_result_def Let_def)
  moreover have "catalog_of toy_digest (dev_objs cat_dev) = Some [0xa0]"
    by (simp add: catalog_of_def cat_dev_facts(2) catalog_record_def)
  ultimately show False using same by simp
qed

definition two_writes :: "(bytes \<times> bytes) list" where
  "two_writes = [([1], [2]), ([1], [3])]"

theorem transient_refines_witness:
  "\<exists>sts ctx' s'. run_state (write_all (teep_transient_object_write (sim_api False)) two_writes run_ctx)
      (cat_dev, run_ta) = ((sts, ctx'), s') \<and> transient_ok ctx' \<and>
     (\<exists>oks. length oks = length two_writes \<and> (sts, teep_transient_object_view ctx') =
        store_writes TEEP_AGENT_TRANSIENT_OBJECTS_MAX TEEP_AGENT_TRANSIENT_OBJECT_NAME_MAX
          TEEP_AGENT_TRANSIENT_OBJECT_SIZE_MAX (zip oks two_writes) (teep_transient_object_view run_ctx)) \<and>
     teep_transient_object_view (teep_hostcall_context_free ctx') = Map.empty"
proof -
  have ok: "transient_ok run_ctx"
    by (simp add: transient_ok_def run_ctx_def no_object_def filter_replicate list_all_iff
        TEEP_AGENT_TRANSIENT_OBJECTS_MAX_def TEEP_AGENT_TRANSIENT_OBJECT_NAME_MAX_def)
  obtain sts ctx' s' where run: "run_state (write_all (teep_transient_object_write (sim_api False)) two_writes run_ctx)
      (cat_dev, run_ta) = ((sts, ctx'), s')" by (metis surj_pair)
  show ?thesis
    by (rule exI [of _ sts], rule exI [of _ ctx'], rule exI [of _ s'], rule conjI [OF run transient_refines [OF ok run]])
qed


theorem host_commit_catalog_succeeds_witness: "fst (fst host_commit1) = 0"
  by (rule host_commit_catalog_succeeds [OF sim_storage_laws sim_storage_reliable cat_dev_facts(1) cat_dev_inv dev_facts(5)
        cat_commit_facts(1) cat_encoded small_catalog run_ta_facts(5) not_recorded run_ta_facts(3,4)])

theorem one_commit_per_transcript_witness:
  "transcript_pending run_ta \<and> length dg8 = 32 \<and> mem_compare (ph_request_body_sha256 (g_pending_host_io run_ta)) dg8 = 0 \<and>
   dev_objs (fst (snd (run_state (run_call (sim_api False) run_ctx (Commit_Acceptance dg8 [1] 1 2)) (snd host_commit1)))) =
   dev_objs (fst (snd host_commit1))"
proof -
  let ?c = "Commit_Catalog dg8 default_catalog_component_id 4 (generation cat_state1) [0xa1, 0, 0] (toy_digest [0xa1, 0, 0])"
  have run: "run_state (run_call (sim_api False) run_ctx ?c) (cat_dev, run_ta) =
      ((0, Some 2), (fst (snd host_commit1), snd (snd host_commit1)))"
    using host_commit1_run by (simp only: run_call.simps)
  from one_commit_per_transcript [OF sim_storage_laws run host_commit1_changed, of run_ctx "Commit_Acceptance dg8 [1] 1 2"]
  show ?thesis by (simp only: call_digest.simps) (metis prod.collapse)
qed

theorem commit_catalog_replayed_witness:
  "\<exists>st g w2 t2. run_state (teep_host_commit_catalog (sim_api False) run_ctx dg8 default_catalog_component_id 4
       (generation cat_state1) [0xa1, 0, 0] (toy_digest [0xa1, 0, 0])) (fst (snd host_commit1), snd (snd host_commit1)) =
     ((st, g), (w2, t2)) \<and> st = 0 \<and> g = Some 2 \<and> dev_objs w2 = dev_objs (fst (snd host_commit1)) \<and>
     t2 = snd (snd host_commit1)"
proof -
  obtain st g w2 t2 where again: "run_state (teep_host_commit_catalog (sim_api False) run_ctx dg8 default_catalog_component_id 4
       (generation cat_state1) [0xa1, 0, 0] (toy_digest [0xa1, 0, 0])) (fst (snd host_commit1), snd (snd host_commit1)) =
     ((st, g), (w2, t2))" by (metis surj_pair)
  obtain st3 g3 w3 t3 where app: "run_state (teep_host_commit_app (sim_api False) run_ctx dg8 [] 1 2 [0] dg8)
     (fst (snd host_commit1), snd (snd host_commit1)) = ((st3, g3), (w3, t3))" by (metis surj_pair)
  from commit_catalog_replayed [OF sim_storage_laws sim_storage_reliable cat_dev_facts(1) cat_dev_inv
      run_ta_facts(1,2) host_commit1_run again refl app] again
  show ?thesis by blast
qed


end
