(* ===== verification/Wasm_Signature.thy ===== *)
theory Wasm_Signature
  imports Host_Io
begin

text \<open>
  Two scanners of Wasm binaries: the search for the signature of the TEEP agent
  (\<^verbatim>\<open>optee/twep-wr-ta/ta/ta_wasm_signature.c\<close>) and the search for an import section in an application
  (\<^verbatim>\<open>ta_wamr_spike.c\<close>). A binary is a list of bytes, a position an offset into it.
\<close>

unbundle bit_operations_syntax

section \<open>Numbers of variable length\<close>

text \<open>The loop over \<open>shift\<close> = 0, 7, 14, 21, 28; \<open>n\<close> counts the rounds that are left.\<close>

fun varuint_loop :: "nat \<Rightarrow> bytes \<Rightarrow> nat \<Rightarrow> nat \<Rightarrow> u32 \<Rightarrow> (u32 \<times> nat) option" where
  "varuint_loop 0 bs len off result = None"
| "varuint_loop (Suc n) bs len off result =
     (let shift = 28 - 7 * n in
      if off \<ge> len then None
      else let byte = bs ! off in
        if shift = 28 \<and> byte AND 0xf0 \<noteq> 0 then None
        else let result = result OR push_bit shift (ucast (byte AND 0x7f)) in
          if byte AND 0x80 = 0 then Some (result, off + 1)
          else varuint_loop n bs len (off + 1) result)"

definition read_varuint32 :: "bytes \<Rightarrow> nat \<Rightarrow> nat \<Rightarrow> (u32 \<times> nat) option" where
  "read_varuint32 bs len off = varuint_loop 5 bs len off 0"

text \<open>The reader of the import scanner: it does not look at the bits beyond 32.\<close>

fun leb_loop :: "nat \<Rightarrow> bytes \<Rightarrow> nat \<Rightarrow> nat \<Rightarrow> u32 \<Rightarrow> (u32 \<times> nat) option" where
  "leb_loop 0 bs len pos result = None"
| "leb_loop (Suc n) bs len pos result =
     (let shift = 28 - 7 * n in
      if pos \<ge> len then None
      else let byte = bs ! pos; result = result OR push_bit shift (ucast (byte AND 0x7f)) in
        if byte AND 0x80 = 0 then Some (result, pos + 1)
        else leb_loop n bs len (pos + 1) result)"

definition read_leb_u32 :: "bytes \<Rightarrow> nat \<Rightarrow> nat \<Rightarrow> (u32 \<times> nat) option" where
  "read_leb_u32 bs len pos = leb_loop 5 bs len pos 0"

lemma varuint_loop_progress: "varuint_loop n bs len off result = Some (v, off') \<Longrightarrow> off < off' \<and> off' \<le> len"
  by (induction n arbitrary: off result) (auto simp: Let_def split: if_splits, force+)

lemma leb_loop_progress: "leb_loop n bs len pos result = Some (v, pos') \<Longrightarrow> pos < pos' \<and> pos' \<le> len"
  by (induction n arbitrary: pos result) (auto simp: Let_def split: if_splits, force+)

lemma read_progress:
  "read_varuint32 bs len off = Some (v, off') \<Longrightarrow> off < off' \<and> off' \<le> len"
  "read_leb_u32 bs len off = Some (v, off') \<Longrightarrow> off < off' \<and> off' \<le> len"
  unfolding read_varuint32_def read_leb_u32_def by (rule varuint_loop_progress leb_loop_progress; assumption)+

section \<open>The import section\<close>

definition wasm_magic :: bytes where
  "wasm_magic = [0x00, 0x61, 0x73, 0x6d]"

function import_scan :: "bytes \<Rightarrow> nat \<Rightarrow> bool" where
  "import_scan wasm pos =
     (if pos \<ge> length wasm then False
      else case read_leb_u32 wasm (length wasm) (pos + 1) of None \<Rightarrow> False
      | Some (payload_len, pos') \<Rightarrow>
        if unat payload_len > length wasm - pos' then False
        else if wasm ! pos = 2 then True
        else import_scan wasm (pos' + unat payload_len))"
  by pat_completeness auto
termination
  by (relation "measure (\<lambda>(wasm, pos). length wasm - pos)") (auto dest!: read_progress(2))

definition twep_ta_wasm_has_import_section :: "bytes \<Rightarrow> bool" where
  "twep_ta_wasm_has_import_section wasm =
     (if length wasm < 8 then False
      else if take 4 wasm \<noteq> wasm_magic then False
      else import_scan wasm 8)"

section \<open>The signature section\<close>

definition TEEP_AGENT_SIGNATURE_SIZE :: nat where
  "TEEP_AGENT_SIGNATURE_SIZE = 64"

record wasm_signature_payload =
  sp_signature :: bytes
  sp_alg :: bool
  sp_kid :: bool
  sp_sig :: bool
  sp_role :: bool

definition no_payload :: wasm_signature_payload where
  "no_payload = \<lparr>sp_signature = [], sp_alg = False, sp_kid = False, sp_sig = False, sp_role = False\<rparr>"

text \<open>One entry of the map; a field that comes twice is refused.\<close>

definition signature_field :: "bytes \<Rightarrow> cursor \<Rightarrow> wasm_signature_payload \<Rightarrow> (cursor \<times> wasm_signature_payload) option" where
  "signature_field key c p =
     (if key = ascii ''alg'' then
        if sp_alg p then None
        else case read_view c 3 of None \<Rightarrow> None
        | Some (v, c1) \<Rightarrow> if v \<noteq> ascii ''ESP256'' then None else Some (c1, p\<lparr>sp_alg := True\<rparr>)
      else if key = ascii ''kid'' then
        if sp_kid p then None
        else case read_view c 2 of None \<Rightarrow> None
        | Some (v, c1) \<Rightarrow> if v = [] then None else Some (c1, p\<lparr>sp_kid := True\<rparr>)
      else if key = ascii ''sig'' then
        if sp_sig p then None
        else case read_view c 2 of None \<Rightarrow> None
        | Some (v, c1) \<Rightarrow> if length v \<noteq> TEEP_AGENT_SIGNATURE_SIZE then None
            else Some (c1, p\<lparr>sp_signature := v, sp_sig := True\<rparr>)
      else if key = ascii ''role'' then
        if sp_role p then None
        else case read_view c 3 of None \<Rightarrow> None
        | Some (v, c1) \<Rightarrow> if v \<noteq> ascii ''teep-agent'' then None else Some (c1, p\<lparr>sp_role := True\<rparr>)
      else case cbor_skip_item 0 c of None \<Rightarrow> None | Some c1 \<Rightarrow> Some (c1, p))"

definition signature_entry :: "cursor \<times> wasm_signature_payload \<Rightarrow> (cursor \<times> wasm_signature_payload) option" where
  "signature_entry s =
     (case cbor_read_text_key (fst s) of None \<Rightarrow> None | Some (key, c) \<Rightarrow> signature_field key c (snd s))"

definition parse_signature_payload :: "bytes \<Rightarrow> wasm_signature_payload option" where
  "parse_signature_payload bs =
     (case cbor_read_len (mk_cursor bs) 5 of None \<Rightarrow> None
      | Some (pairs, c) \<Rightarrow>
        if pairs > 16 then None
        else case for_ok (unat pairs) signature_entry (c, no_payload) of None \<Rightarrow> None
        | Some (c1, p) \<Rightarrow>
          if at_end c1 \<and> sp_alg p \<and> sp_kid p \<and> sp_sig p \<and> sp_role p then Some p else None)"

text \<open>
  The scan of the sections from an offset on: the offset of the signature section and its contents.
\<close>

function find_signature_from :: "bytes \<Rightarrow> nat \<Rightarrow> (nat \<times> wasm_signature_payload) option" where
  "find_signature_from wasm off =
     (if off \<ge> length wasm then None
      else case read_varuint32 wasm (length wasm) (off + 1) of None \<Rightarrow> None
      | Some (section_size, payload_start) \<Rightarrow>
        if unat section_size > length wasm - payload_start then None
        else let payload_end = payload_start + unat section_size in
          if wasm ! off = 0 then
            (case read_varuint32 wasm payload_end payload_start of None \<Rightarrow> None
             | Some (name_len, name_off) \<Rightarrow>
               if unat name_len > payload_end - name_off then None
               else if unat name_len = 8 \<and> mem_compare (take 8 (drop name_off wasm)) (ascii ''twep.sig'') = 0 then
                 if payload_end \<noteq> length wasm then None
                 else map_option (Pair off)
                   (parse_signature_payload (take (payload_end - (name_off + unat name_len)) (drop (name_off + unat name_len) wasm)))
               else find_signature_from wasm payload_end)
          else find_signature_from wasm payload_end)"
  by pat_completeness auto
termination
  by (relation "measure (\<lambda>(wasm, off). length wasm - off)") (auto dest!: read_progress(1))

definition find_signature :: "bytes \<Rightarrow> (nat \<times> wasm_signature_payload) option" where
  "find_signature wasm =
     (if length wasm < 8 \<or> mem_compare (take 4 wasm) wasm_magic \<noteq> 0 then None else find_signature_from wasm 8)"

definition teep_agent_public_x :: bytes where
  "teep_agent_public_x =
     [0x82, 0x82, 0x0a, 0xb9, 0x8d, 0x42, 0x91, 0xc4, 0x9d, 0x9a, 0x3c, 0x95, 0x07, 0x13, 0x52, 0x1a,
      0xed, 0x4e, 0xb4, 0x7f, 0xf0, 0xd2, 0x3e, 0x9c, 0xd8, 0xd6, 0x38, 0x8f, 0x23, 0x09, 0x20, 0xc9]"

definition teep_agent_public_y :: bytes where
  "teep_agent_public_y =
     [0x9b, 0x7f, 0xb3, 0x3e, 0x03, 0x5f, 0x63, 0xb7, 0x9e, 0x9c, 0xcf, 0x53, 0x64, 0x60, 0x55, 0xb8,
      0x38, 0x75, 0x18, 0xae, 0x86, 0x65, 0xd0, 0x2e, 0x3f, 0x80, 0xba, 0x60, 0x88, 0xe4, 0xa7, 0xa1]"

text \<open>
  \<open>ecdsa x y digest signature\<close> is the verification by the TEE with the P-256 key \<open>(x, y)\<close>: the key object
  and the operation are allocated, and the digest is verified. The TEE is not part of the repository.
\<close>

type_synonym 'w ecdsa = "bytes \<Rightarrow> bytes \<Rightarrow> bytes \<Rightarrow> bytes \<Rightarrow> ('w, unit) tee"

definition twep_ta_verify_teep_agent_wasm_signature :: "('w, 'h) tee_api \<Rightarrow> 'w ecdsa \<Rightarrow> bytes \<Rightarrow> ('w, unit) tee" where
  "twep_ta_verify_teep_agent_wasm_signature A ecdsa wasm =
     (case find_signature wasm of None \<Rightarrow> throw ERROR_SECURITY
      | Some (prefix_len, payload) \<Rightarrow>
        bind_ok (twep_ta_sha256_bytes A (take prefix_len wasm)) (\<lambda>digest_bytes.
          ecdsa teep_agent_public_x teep_agent_public_y digest_bytes (sp_signature payload)))"

section \<open>What the scanners find\<close>

text \<open>
  \<open>sections rd wasm m n\<close>: from offset \<open>m\<close> on there are complete sections that end at \<open>n\<close>, their sizes
  being read with \<open>rd\<close>.
\<close>

inductive sections :: "(bytes \<Rightarrow> nat \<Rightarrow> nat \<Rightarrow> (u32 \<times> nat) option) \<Rightarrow> bytes \<Rightarrow> nat \<Rightarrow> nat \<Rightarrow> bool"
  for rd wasm where
  here: "sections rd wasm m m"
| more: "m < length wasm \<Longrightarrow> rd wasm (length wasm) (m + 1) = Some (sz, p) \<Longrightarrow> p + unat sz \<le> length wasm \<Longrightarrow>
    sections rd wasm (p + unat sz) n \<Longrightarrow> sections rd wasm m n"

definition section_at :: "(bytes \<Rightarrow> nat \<Rightarrow> nat \<Rightarrow> (u32 \<times> nat) option) \<Rightarrow> bytes \<Rightarrow> nat \<Rightarrow> byte \<Rightarrow> nat \<Rightarrow> bool" where
  "section_at rd wasm n i e \<longleftrightarrow> n < length wasm \<and> wasm ! n = i \<and> e \<le> length wasm \<and>
     (\<exists>sz p. rd wasm (length wasm) (n + 1) = Some (sz, p) \<and> p + unat sz = e)"

inductive_cases sections_end: "sections rd wasm (length wasm) n"

declare import_scan.simps [simp del] find_signature_from.simps [simp del]

text \<open>The import scanner finds an import section exactly when complete sections lead to one.\<close>

lemma import_scan_iff:
  "import_scan wasm pos \<longleftrightarrow> (\<exists>n e. sections read_leb_u32 wasm pos n \<and> section_at read_leb_u32 wasm n 2 e)"
proof
  show "import_scan wasm pos \<Longrightarrow> \<exists>n e. sections read_leb_u32 wasm pos n \<and> section_at read_leb_u32 wasm n 2 e"
  proof (induction wasm pos rule: import_scan.induct)
    case (1 wasm pos)
    then obtain sz p where len: "pos < length wasm" and rd: "read_leb_u32 wasm (length wasm) (pos + 1) = Some (sz, p)"
      and fit: "\<not> unat sz > length wasm - p"
      by (subst (asm) (2) import_scan.simps) (auto split: if_splits option.splits)
    have e: "p + unat sz \<le> length wasm" using read_progress(2) [OF rd] fit by linarith
    show ?case
    proof (cases "wasm ! pos = 2")
      case True
      then have "section_at read_leb_u32 wasm pos 2 (p + unat sz)" using len rd e by (auto simp: section_at_def)
      then show ?thesis using sections.here by blast
    next
      case False
      with "1.prems" len rd fit have "import_scan wasm (p + unat sz)"
        by (subst (asm) import_scan.simps) (auto split: if_splits)
      with "1.IH" [OF _ rd refl fit False] len sections.more [where rd = read_leb_u32, OF len rd e] show ?thesis by auto
    qed
  qed
  show "\<exists>n e. sections read_leb_u32 wasm pos n \<and> section_at read_leb_u32 wasm n 2 e \<Longrightarrow> import_scan wasm pos"
  proof (elim exE conjE)
    fix n e assume "sections read_leb_u32 wasm pos n" "section_at read_leb_u32 wasm n 2 e"
    then show "import_scan wasm pos"
    proof (induction rule: sections.induct)
      case (here m)
      then show ?case by (subst import_scan.simps) (auto simp: section_at_def)
    next
      case (more m sz p n)
      then show ?case by (subst import_scan.simps) auto
    qed
  qed
qed

lemma find_signature_from_sound:
  "find_signature_from wasm off = Some (n, pl) \<Longrightarrow>
   sections read_varuint32 wasm off n \<and> section_at read_varuint32 wasm n 0 (length wasm) \<and>
   (\<exists>k. parse_signature_payload (drop k wasm) = Some pl \<and> n < k)"
proof (induction wasm off rule: find_signature_from.induct)
  case (1 wasm off)
  then obtain sz p where len: "off < length wasm" and rd: "read_varuint32 wasm (length wasm) (off + 1) = Some (sz, p)"
    and fit: "\<not> unat sz > length wasm - p"
    by (subst (asm) (3) find_signature_from.simps) (auto simp: Let_def split: if_splits option.splits)
  let ?e = "p + unat sz"
  have e: "?e \<le> length wasm" "off < p" using read_progress(1) [OF rd] fit by linarith+
  have next_ok: ?case if "find_signature_from wasm ?e = Some (n, pl)"
      "find_signature_from wasm ?e = Some (n, pl) \<Longrightarrow> sections read_varuint32 wasm ?e n \<and>
        section_at read_varuint32 wasm n 0 (length wasm) \<and> (\<exists>k. parse_signature_payload (drop k wasm) = Some pl \<and> n < k)"
    using that sections.more [where rd = read_varuint32, OF len rd e(1)] by blast
  show ?case
  proof (cases "wasm ! off = 0")
    case False
    with "1.prems" len rd fit have "find_signature_from wasm ?e = Some (n, pl)"
      by (subst (asm) find_signature_from.simps) (auto simp: Let_def split: if_splits)
    then show ?thesis using next_ok "1.IH"(2) [OF _ rd refl fit refl False] len by auto
  next
    case True
    with "1.prems" len rd fit obtain nl no where nm: "read_varuint32 wasm ?e p = Some (nl, no)"
      and nf: "\<not> unat nl > ?e - no"
      by (subst (asm) find_signature_from.simps) (auto simp: Let_def split: if_splits option.splits)
    have no: "p < no" using read_progress(1) [OF nm] by simp
    show ?thesis
    proof (cases "unat nl = 8 \<and> mem_compare (take 8 (drop no wasm)) (ascii ''twep.sig'') = 0")
      case sig: True
      with "1.prems" len rd fit True nm nf have "?e = length wasm" "off = n"
        "parse_signature_payload (drop (no + unat nl) wasm) = Some pl"
        by (subst (asm) find_signature_from.simps; auto simp: Let_def split: if_splits)+
      then show ?thesis using len rd True sections.here no e(2)
        by (auto simp: section_at_def intro!: exI [of _ "no + unat nl"])
    next
      case other: False
      with "1.prems" len rd fit True nm nf have "find_signature_from wasm ?e = Some (n, pl)"
        by (subst (asm) find_signature_from.simps) (auto simp: Let_def split: if_splits)
      then show ?thesis using next_ok "1.IH"(1) [OF _ rd refl fit refl True nm refl nf other] len by auto
    qed
  qed
qed

lemma for_ok_invariant:
  "for_ok n body s = Some s' \<Longrightarrow> I s \<Longrightarrow> (\<And>s s'. body s = Some s' \<Longrightarrow> I s \<Longrightarrow> I s') \<Longrightarrow> I s'"
  by (induction n arbitrary: s) (auto simp: for_ok_Suc split: option.splits)

lemma signature_length: "parse_signature_payload bs = Some p \<Longrightarrow> length (sp_signature p) = 64"
proof -
  let ?I = "\<lambda>s :: cursor \<times> wasm_signature_payload. sp_sig (snd s) \<longrightarrow> length (sp_signature (snd s)) = 64"
  assume "parse_signature_payload bs = Some p"
  then obtain n c c1 where "for_ok n signature_entry (c, no_payload) = Some (c1, p)" "sp_sig p"
    by (auto simp: parse_signature_payload_def split: option.splits if_splits)
  moreover have "?I s'" if "signature_entry s = Some s'" "?I s" for s s'
    using that
    by (auto simp: signature_entry_def signature_field_def TEEP_AGENT_SIGNATURE_SIZE_def split: option.splits if_splits)
  ultimately show ?thesis
    using for_ok_invariant [of n signature_entry "(c, no_payload)" "(c1, p)" ?I] by (simp add: no_payload_def)
qed

section \<open>Properties\<close>

text \<open>
  C31. An agent is accepted only when its signature covers all of its code: the binary is the header,
  complete sections up to some offset, and one custom section that ends exactly at the end of the
  binary; it carries a signature of 64 bytes, and the TEE has verified that signature, with the built-in
  key, over the digest of everything before the section.
\<close>

theorem signature_covers_module:
  assumes "storage_laws A objs hobj sha"
    and "run_state (twep_ta_verify_teep_agent_wasm_signature A ecdsa wasm) w = (Inr u, w')"
  shows "\<exists>n sig w1. take 4 wasm = wasm_magic \<and> sections read_varuint32 wasm 8 n \<and>
     section_at read_varuint32 wasm n 0 (length wasm) \<and> length sig = 64 \<and> objs w1 = objs w \<and>
     run_state (ecdsa teep_agent_public_x teep_agent_public_y (sha (take n wasm)) sig) w1 = (Inr u, w')"
proof -
  from assms(2) obtain n p where find: "find_signature wasm = Some (n, p)"
    by (cases "find_signature wasm") (auto simp: twep_ta_verify_teep_agent_wasm_signature_def)
  then have magic: "take 4 wasm = wasm_magic" and scan: "find_signature_from wasm 8 = Some (n, p)"
    by (auto simp: find_signature_def mem_compare_eq0 wasm_magic_def split: if_splits)
  obtain r w1 where dig: "run_state (twep_ta_sha256_bytes A (take n wasm)) w = (r, w1)" by fastforce
  have same: "objs w1 = objs w" and sha: "\<And>d. r = Inr d \<Longrightarrow> d = sha (take n wasm)"
    using hoareD [OF sha256_bytes_law [OF assms(1)] refl dig] by auto
  from assms(2) find dig obtain d where d: "r = Inr d"
    "run_state (ecdsa teep_agent_public_x teep_agent_public_y d (sp_signature p)) w1 = (Inr u, w')"
    by (cases r) (auto simp: twep_ta_verify_teep_agent_wasm_signature_def bind_or_def)
  from find_signature_from_sound [OF scan] signature_length sha [OF d(1)] d(2) magic same
  show ?thesis by blast
qed

section \<open>Concrete instances\<close>

text \<open>A module with one empty section and a signature section, and a verification that succeeds.\<close>

definition signature1 :: bytes where
  "signature1 = [0xa4] @ cbor_write_text (ascii ''alg'') @ cbor_write_text (ascii ''ESP256'') @
     cbor_write_text (ascii ''kid'') @ cbor_write_bstr [1] @
     cbor_write_text (ascii ''sig'') @ cbor_write_bstr (replicate 64 7) @
     cbor_write_text (ascii ''role'') @ cbor_write_text (ascii ''teep-agent'')"

definition signed1 :: bytes where
  "signed1 = wasm_magic @ [1, 0, 0, 0] @ [1, 0] @ [0, 113, 8] @ ascii ''twep.sig'' @ signature1"

definition accept_sig :: "device ecdsa" where
  "accept_sig x y dg sig = (if length dg = 32 \<and> length sig = 64 then success () else throw ERROR_SECURITY)"

abbreviation verify1 :: "(tee_error + unit) \<times> device" where
  "verify1 \<equiv> run_state (twep_ta_verify_teep_agent_wasm_signature (sim_api False) accept_sig signed1)
     \<lparr>dev_objs = (\<lambda>_. None), dev_power = 0\<rparr>"

lemma verify1_ok: "fst verify1 = Inr ()"
  by code_simp

theorem signature_covers_module_witness:
  "\<exists>n sig w1. take 4 signed1 = wasm_magic \<and> sections read_varuint32 signed1 8 n \<and>
     section_at read_varuint32 signed1 n 0 (length signed1) \<and> length sig = 64 \<and>
     dev_objs w1 = dev_objs \<lparr>dev_objs = (\<lambda>_. None), dev_power = 0\<rparr> \<and>
     run_state (accept_sig teep_agent_public_x teep_agent_public_y (toy_digest (take n signed1)) sig) w1 =
       (Inr (), snd verify1)"
proof -
  have "verify1 = (Inr (), snd verify1)" using verify1_ok by (metis prod.collapse)
  from signature_covers_module [OF sim_storage_laws this] show ?thesis .
qed

end
