(* ===== verification/Wasm_Runtime.thy ===== *)
theory Wasm_Runtime
  imports Teep_Hostcalls Wasm_Signature
begin

text \<open>
  The Wasm runtime (WAMR) that executes the TEEP agent and the applications. It is not part of the
  repository, so its functions are the parameter \<open>W\<close> of the model: whether a module loads, can be
  instantiated and gets an execution environment is up to the world, and an instance is a value of an
  arbitrary type. A call of a function of a module is a tree: the module computes, calls a function of
  the trusted application, goes on with its answer, and ends with a trap or a number. The tree is
  finite because the number of instructions is limited. What the runtime keeps for itself, and gives
  back when a module, an instance or an environment is released, is not modelled; binaries are shorter
  than 4 GiB, so that their length survives the cast to \<^verbatim>\<open>uint32_t\<close>.
\<close>

section \<open>The runtime\<close>

text \<open>The table \<^verbatim>\<open>teep_agent_native_symbols\<close>: the functions a module may call, and their answers.\<close>

datatype host_call =
  Host_Log
| Host_Read_File bytes nat
| Host_Write_File bytes bytes
| Host_Read_Protected bytes nat
| Host_Http_Post bytes bytes nat
| Host_Create_Evidence bytes bytes nat
| Host_Platform_Status nat
| Host_Measurement nat
| Host_Acceptance_Generation
| Host_Commit commit_call
| Host_Random nat
| Host_Unix_Time_Ms

datatype host_answer =
  Nothing | Read host_read | Status nat | Generation nat "u64 option" | Random nat bytes | Time u64

datatype 'i run = Done "u32 option" 'i | Call host_call "host_answer \<Rightarrow> 'i run"

text \<open>
  \<open>wamr_call_plain\<close> calls a function of a module that imports nothing. Memory is read and written
  through the addresses of the instance; \<open>wamr_module_malloc\<close> returns an address and whether there is
  a native pointer for it.
\<close>

record ('w, 'i) wamr =
  wamr_init :: "('w, bool) state"
  wamr_register_natives :: "('w, bool) state"
  wamr_load :: "bytes \<Rightarrow> ('w, bool) state"
  wamr_instantiate :: "bytes \<Rightarrow> u32 \<Rightarrow> u32 \<Rightarrow> ('w, 'i option) state"
  wamr_create_exec_env :: "'i \<Rightarrow> u32 \<Rightarrow> ('w, bool) state"
  wamr_module_malloc :: "'i \<Rightarrow> nat \<Rightarrow> 'i \<times> u32 \<times> bool"
  wamr_write :: "'i \<Rightarrow> u32 \<Rightarrow> bytes \<Rightarrow> 'i"
  wamr_read :: "'i \<Rightarrow> u32 \<Rightarrow> nat \<Rightarrow> bytes"
  wamr_validate_app_addr :: "'i \<Rightarrow> u32 \<Rightarrow> u32 \<Rightarrow> bool"
  wamr_addr_app_to_native :: "'i \<Rightarrow> u32 \<Rightarrow> bool"
  wamr_set_instruction_count_limit :: "'i \<Rightarrow> int \<Rightarrow> 'i"
  wamr_lookup_function :: "'i \<Rightarrow> bytes \<Rightarrow> bool"
  wamr_call :: "'i \<Rightarrow> bytes \<Rightarrow> u32 list \<Rightarrow> 'i run"
  wamr_call_plain :: "'i \<Rightarrow> bytes \<Rightarrow> u32 list \<Rightarrow> u32 option \<times> 'i"

text \<open>The rest of what the functions for the agent take from the TEE and from the build.\<close>

record 'w platform =
  platform_random :: "nat \<Rightarrow> ('w, bytes) state"
  platform_time :: "('w, u32 \<times> u32) state"
  platform_ecdsa :: "'w ecdsa"
  platform_backend :: bytes

text \<open>Neither the runtime nor the other services of the TEE touch persistent storage.\<close>

definition keeps :: "('w \<Rightarrow> store) \<Rightarrow> ('w, 'a) state \<Rightarrow> bool" where
  "keeps objs m \<longleftrightarrow> (\<forall>w. objs (snd (run_state m w)) = objs w)"

definition runtime_laws :: "('w \<Rightarrow> store) \<Rightarrow> ('w, 'i) wamr \<Rightarrow> 'w platform \<Rightarrow> bool" where
  "runtime_laws objs W E \<longleftrightarrow>
     keeps objs (wamr_init W) \<and> keeps objs (wamr_register_natives W) \<and>
     (\<forall>m. keeps objs (wamr_load W m)) \<and> (\<forall>m s h. keeps objs (wamr_instantiate W m s h)) \<and>
     (\<forall>i s. keeps objs (wamr_create_exec_env W i s)) \<and>
     (\<forall>n. keeps objs (platform_random E n)) \<and> keeps objs (platform_time E) \<and>
     (\<forall>x y d s. keeps objs (platform_ecdsa E x y d s))"

section \<open>Calls into the trusted application\<close>

primrec run_host_call ::
  "('w, 'h) tee_api \<Rightarrow> 'w platform \<Rightarrow> host_call \<Rightarrow> teep_agent_hostcall_context \<Rightarrow>
   ('w, host_answer \<times> teep_agent_hostcall_context) ta" where
  "run_host_call A E Host_Log ctx = State_Monad.return (Nothing, ctx)"
| "run_host_call A E (Host_Read_File path cap) ctx = do {
     r \<leftarrow> teep_host_read_file A path cap ctx; State_Monad.return (Read r, ctx) }"
| "run_host_call A E (Host_Write_File path data) ctx = do {
     (st, ctx') \<leftarrow> teep_host_write_file A path data ctx; State_Monad.return (Status st, ctx') }"
| "run_host_call A E (Host_Read_Protected nm cap) ctx = do {
     r \<leftarrow> teep_host_read_protected A nm cap ctx; State_Monad.return (Read r, ctx) }"
| "run_host_call A E (Host_Http_Post url body cap) ctx = do {
     (r, ctx') \<leftarrow> teep_host_http_post url body cap ctx; State_Monad.return (Read r, ctx') }"
| "run_host_call A E (Host_Create_Evidence challenge key cap) ctx = do {
     (r, ctx') \<leftarrow> teep_host_create_evidence challenge key cap ctx; State_Monad.return (Read r, ctx') }"
| "run_host_call A E (Host_Platform_Status cap) ctx =
     State_Monad.return (Read (teep_host_platform_status (platform_backend E) cap), ctx)"
| "run_host_call A E (Host_Measurement cap) ctx = do {
     r \<leftarrow> teep_host_teep_agent_measurement_sha256 A cap ctx; State_Monad.return (Read r, ctx) }"
| "run_host_call A E Host_Acceptance_Generation ctx = do {
     (st, g) \<leftarrow> teep_host_acceptance_generation A; State_Monad.return (Generation st g, ctx) }"
| "run_host_call A E (Host_Commit c) ctx = do {
     (st, g) \<leftarrow> run_call A ctx c; State_Monad.return (Generation st g, ctx) }"
| "run_host_call A E (Host_Random n) ctx = do {
     (st, bs) \<leftarrow> teep_host_random (platform_random E) n; State_Monad.return (Random st bs, ctx) }"
| "run_host_call A E Host_Unix_Time_Ms ctx = do {
     ms \<leftarrow> teep_host_unix_time_ms (platform_time E); State_Monad.return (Time ms, ctx) }"

primrec run_module ::
  "('w, 'h) tee_api \<Rightarrow> 'w platform \<Rightarrow> 'i run \<Rightarrow> teep_agent_hostcall_context \<Rightarrow>
   ('w, (u32 option \<times> 'i) \<times> teep_agent_hostcall_context) ta" where
  "run_module A E (Done r i) = (\<lambda>ctx. State_Monad.return ((r, i), ctx))"
| "run_module A E (Call c k) = (\<lambda>ctx. do {
     (a, ctx') \<leftarrow> run_host_call A E c ctx;
     run_module A E (k a) ctx' })"

section \<open>Life of the runtime\<close>

definition twep_ta_ensure_wamr_runtime :: "('w, 'i) wamr \<Rightarrow> ('w, bool) ta" where
  "twep_ta_ensure_wamr_runtime W = do {
     t \<leftarrow> get_ta;
     if g_wamr_runtime_initialized t then State_Monad.return True
     else do {
       ok \<leftarrow> in_tee (wamr_init W);
       if \<not> ok then State_Monad.return False
       else do {
         _ \<leftarrow> modify_ta (\<lambda>t. t\<lparr>g_wamr_runtime_initialized := True\<rparr>);
         State_Monad.return True } } }"

definition twep_ta_wamr_cleanup_if_idle :: "ta_state \<Rightarrow> ta_state" where
  "twep_ta_wamr_cleanup_if_idle t =
     (if g_teep_agent_live_session_count t = 0
      then t\<lparr>g_wamr_runtime_initialized := False, g_teep_agent_natives_registered := False\<rparr> else t)"

definition INT32_MAX :: u64 where
  "INT32_MAX = 0x7fffffff"

text \<open>
  The limit that is set for the environment; a session is current whenever a module runs, and the cast
  to \<^verbatim>\<open>int\<close> keeps a number up to \<open>INT32_MAX\<close>.
\<close>

definition twep_ta_apply_instruction_budget :: "ta_state \<Rightarrow> u32 \<Rightarrow> int" where
  "twep_ta_apply_instruction_budget t catalog_timeout_ms =
     (let upper = (if catalog_timeout_ms = 0
            then if default_timeout_ms (g_session t) \<noteq> 0 then default_timeout_ms (g_session t)
                 else PRODUCTION_DEFAULT_TIMEOUT_MS
            else catalog_timeout_ms);
          request = request_timeout_ms (g_session t);
          upper = (if request \<noteq> 0 \<and> request < upper then request else upper);
          budget = (ucast upper :: u64) * 100000
      in uint (if budget > INT32_MAX then INT32_MAX else budget))"

section \<open>Arguments and results\<close>

text \<open>
  The steps that the three functions that run a module share: the input and a descriptor are placed
  in the memory of the module, and the descriptor tells where the output is. The flag says whether the
  allocation succeeded.
\<close>

definition place_input :: "('w, 'i) wamr \<Rightarrow> bytes \<Rightarrow> 'i \<Rightarrow> 'i \<times> u32 \<times> bool" where
  "place_input W input i =
     (if length input \<noteq> 0 then
        let (i1, ptr, native) = wamr_module_malloc W i (length input) in
        if ptr = 0 \<or> \<not> native then (i1, ptr, False) else (wamr_write W i1 ptr input, ptr, True)
      else (i, 0, True))"

definition place_descriptor :: "('w, 'i) wamr \<Rightarrow> 'i \<Rightarrow> 'i \<times> u32 \<times> bool" where
  "place_descriptor W i =
     (let (i1, ptr, native) = wamr_module_malloc W i 8 in
      if ptr = 0 \<or> \<not> native then (i1, ptr, False) else (wamr_write W i1 ptr (replicate 8 0), ptr, True))"

definition le32 :: "bytes \<Rightarrow> u32" where
  "le32 bs = ucast (bs ! 0) OR push_bit 8 (ucast (bs ! 1)) OR push_bit 16 (ucast (bs ! 2)) OR push_bit 24 (ucast (bs ! 3))"

text \<open>The address and the length of the output.\<close>

definition output_view :: "('w, 'i) wamr \<Rightarrow> 'i \<Rightarrow> u32 \<Rightarrow> u32 \<times> u32" where
  "output_view W i desc_ptr =
     (let desc = wamr_read W i desc_ptr 8 in (le32 desc, le32 (drop 4 desc)))"

end
