(* ===== verification/App_Runtime.thy ===== *)
theory App_Runtime
  imports Wasm_Runtime
begin

text \<open>
  The execution of an application and the documents around it
  (\<^verbatim>\<open>optee/twep-wr-ta/ta/ta_app_runtime.c\<close>): the output of the TEEP agent is parsed for a request to the
  host, for an error, or for the limits and the digest of the application it authorises; the
  application runs within the limits; and its output becomes the response to the request. The command
  \<^verbatim>\<open>twep_ta_cmd_wamr_spike_exec\<close> (\<^verbatim>\<open>ta_wamr_spike.c\<close>) runs a module in the same way.
\<close>

section \<open>Responses\<close>

definition stdout_field :: "(tee_error, bytes) field_parser" where
  "stdout_field key c s =
     (if key_eq key (ascii ''stdout'') then Cbor_Interface.stored (\<lambda>v s. v) s (parse_bstr_value_view c)
      else passed id s (skip_value c))"

definition extract_stdout_view :: "bytes \<Rightarrow> tee_error + bytes" where
  "extract_stdout_view app_output = parse_map stdout_field app_output []"

definition execute_response_len :: "bytes \<Rightarrow> bytes \<Rightarrow> bytes \<Rightarrow> nat" where
  "execute_response_len request_id stdout_view app_output =
     1 + 1 + 14 + 1 + 1 + 10 + cbor_type_len_size (of_nat (length request_id)) + length request_id + 1 + 6 + 1 + 2 +
     1 + 9 + 1 + 1 + 6 + cbor_type_len_size (of_nat (length stdout_view)) + length stdout_view + 1 +
     10 + cbor_type_len_size (of_nat (length app_output)) + length app_output"

definition execute_response_bytes :: "bytes \<Rightarrow> bytes \<Rightarrow> bytes \<Rightarrow> bytes" where
  "execute_response_bytes request_id stdout_view app_output =
     [0xa6] @ cbor_write_text (ascii ''schema_version'') @ [0x01] @
     cbor_write_text (ascii ''request_id'') @ cbor_write_type_len 3 (of_nat (length request_id)) @ request_id @
     cbor_write_text (ascii ''status'') @ cbor_write_text (ascii ''ok'') @
     cbor_write_text (ascii ''exit_code'') @ [0x00] @
     cbor_write_text (ascii ''stdout'') @ cbor_write_bstr stdout_view @
     cbor_write_text (ascii ''app_output'') @ cbor_write_bstr app_output"

text \<open>\<open>built_in out_size len bs\<close>: the end of a builder that computed its length and has room for it or not.\<close>

definition built_in :: "nat \<Rightarrow> nat \<Rightarrow> bytes \<Rightarrow> built" where
  "built_in out_size len bs = (Some len, if out_size < len then Inl ERROR_SHORT_BUFFER else Inr bs)"

definition build_execute_response :: "bytes \<Rightarrow> bytes \<Rightarrow> bytes \<Rightarrow> nat \<Rightarrow> built" where
  "build_execute_response request_id stdout_view app_output out_size =
     built_in out_size (execute_response_len request_id stdout_view app_output)
       (execute_response_bytes request_id stdout_view app_output)"

definition build_final_response_wrapper :: "bytes \<Rightarrow> bytes \<Rightarrow> nat \<Rightarrow> built" where
  "build_final_response_wrapper request_id final_response out_size =
     built_in out_size (final_response_len request_id final_response) (final_response_bytes request_id final_response)"

definition teep_error_response_len :: "bytes \<Rightarrow> bytes \<Rightarrow> bytes \<Rightarrow> bytes \<Rightarrow> nat" where
  "teep_error_response_len request_id teep_code teep_message command =
     (let source = ascii ''teep-agent'' in
      1 + 1 + 14 + 1 + 1 + 10 + cbor_type_len_size (of_nat (length request_id)) + length request_id + 1 +
      6 + 1 + 5 + 1 + 9 + 1 + 1 + 5 + 1 + 1 + 4 +
      cbor_type_len_size (of_nat (length teep_code)) + length teep_code + 1 +
      7 + cbor_type_len_size (of_nat (length teep_message)) + length teep_message + 1 + 7 + 1 + 1 + 6 +
      cbor_type_len_size (of_nat (length source)) + length source + 1 +
      9 + cbor_type_len_size (of_nat (length teep_code)) + length teep_code +
      1 + 7 + cbor_type_len_size (of_nat (length command)) + length command)"

definition teep_error_response_bytes :: "bytes \<Rightarrow> bytes \<Rightarrow> bytes \<Rightarrow> bytes \<Rightarrow> bytes" where
  "teep_error_response_bytes request_id teep_code teep_message command =
     [0xa5] @ cbor_write_text (ascii ''schema_version'') @ [0x01] @
     cbor_write_text (ascii ''request_id'') @ cbor_write_view_text request_id @
     cbor_write_text (ascii ''status'') @ cbor_write_text (ascii ''error'') @
     cbor_write_text (ascii ''exit_code'') @ [0x01] @
     cbor_write_text (ascii ''error'') @ [0xa3] @
     cbor_write_text (ascii ''code'') @ cbor_write_view_text teep_code @
     cbor_write_text (ascii ''message'') @ cbor_write_view_text teep_message @
     cbor_write_text (ascii ''details'') @ [0xa3] @
     cbor_write_text (ascii ''source'') @ cbor_write_text (ascii ''teep-agent'') @
     cbor_write_text (ascii ''teep_code'') @ cbor_write_view_text teep_code @
     cbor_write_text (ascii ''command'') @ cbor_write_view_text command"

definition build_teep_error_execute_response :: "bytes \<Rightarrow> bytes \<Rightarrow> bytes \<Rightarrow> bytes \<Rightarrow> nat \<Rightarrow> built" where
  "build_teep_error_execute_response request_id teep_code teep_message command out_size =
     built_in out_size (teep_error_response_len request_id teep_code teep_message command)
       (teep_error_response_bytes request_id teep_code teep_message command)"

definition app_runtime_error_len :: "bytes \<Rightarrow> bytes \<Rightarrow> bytes \<Rightarrow> bytes \<Rightarrow> bytes \<Rightarrow> nat" where
  "app_runtime_error_len request_id command code message reason =
     (let source = ascii ''app-runtime'' in
      1 + 1 + 14 + 1 + 1 + 10 + cbor_type_len_size (of_nat (length request_id)) +
      length request_id + 1 + 6 + 1 + 5 + 1 + 9 + 1 + 1 + 5 + 1 + 1 +
      4 + cbor_type_len_size (of_nat (length code)) + length code + 1 + 7 +
      cbor_type_len_size (of_nat (length message)) + length message + 1 + 7 + 1 + 1 +
      6 + cbor_type_len_size (of_nat (length source)) + length source + 1 +
      7 + cbor_type_len_size (of_nat (length command)) + length command + 1 + 6 +
      cbor_type_len_size (of_nat (length reason)) + length reason)"

definition app_runtime_error_bytes :: "bytes \<Rightarrow> bytes \<Rightarrow> bytes \<Rightarrow> bytes \<Rightarrow> bytes \<Rightarrow> bytes" where
  "app_runtime_error_bytes request_id command code message reason =
     [0xa5] @ cbor_write_text (ascii ''schema_version'') @ [0x01] @
     cbor_write_text (ascii ''request_id'') @ cbor_write_view_text request_id @
     cbor_write_text (ascii ''status'') @ cbor_write_text (ascii ''error'') @
     cbor_write_text (ascii ''exit_code'') @ [0x01] @
     cbor_write_text (ascii ''error'') @ [0xa3] @
     cbor_write_text (ascii ''code'') @ cbor_write_text code @
     cbor_write_text (ascii ''message'') @ cbor_write_text message @
     cbor_write_text (ascii ''details'') @ [0xa3] @
     cbor_write_text (ascii ''source'') @ cbor_write_text (ascii ''app-runtime'') @
     cbor_write_text (ascii ''command'') @ cbor_write_view_text command @
     cbor_write_text (ascii ''reason'') @ cbor_write_text reason"

definition build_app_runtime_error_execute_response ::
  "bytes \<Rightarrow> bytes \<Rightarrow> bytes \<Rightarrow> bytes \<Rightarrow> bytes \<Rightarrow> nat \<Rightarrow> built" where
  "build_app_runtime_error_execute_response request_id command code message reason out_size =
     built_in out_size (app_runtime_error_len request_id command code message reason)
       (app_runtime_error_bytes request_id command code message reason)"

section \<open>The output of the agent\<close>

record teep_error =
  te_status_error :: bool
  te_code :: "bytes option"
  te_message :: "bytes option"

definition error_entry_field :: "(tee_error, teep_error) field_parser" where
  "error_entry_field key c s =
     (if key_eq key (ascii ''code'') then Cbor_Interface.stored (\<lambda>v s. s\<lparr>te_code := Some v\<rparr>) s (parse_text_value_view c)
      else if key_eq key (ascii ''message'') then
        Cbor_Interface.stored (\<lambda>v s. s\<lparr>te_message := Some v\<rparr>) s (parse_text_value_view c)
      else passed id s (skip_value c))"

definition error_output_field :: "(tee_error, teep_error) field_parser" where
  "error_output_field key c s =
     (if key_eq key (ascii ''status'') then
        Cbor_Interface.stored (\<lambda>v s. s\<lparr>te_status_error := bytes_view_eq v (ascii ''error'')\<rparr>) s (parse_text_value_view c)
      else if key_eq key (ascii ''error'') then ta_map_entries error_entry_field c s
      else passed id s (skip_value c))"

definition parse_teep_error_output :: "bytes \<Rightarrow> tee_error + bytes \<times> bytes" where
  "parse_teep_error_output output =
     (if length output = 0 then Inl ERROR_BAD_FORMAT
      else case parse_map error_output_field output \<lparr>te_status_error = False, te_code = None, te_message = None\<rparr> of
        Inl e \<Rightarrow> Inl e
      | Inr s \<Rightarrow> (case (te_code s, te_message s) of
          (Some code, Some message) \<Rightarrow> if te_status_error s then Inr (code, message) else Inl ERROR_BAD_FORMAT
        | _ \<Rightarrow> Inl ERROR_BAD_FORMAT))"

definition need_host_io_field :: "(tee_error, bool) field_parser" where
  "need_host_io_field key c s = passed (\<lambda>s. key_eq key (ascii ''need_host_io'') \<or> s) s (skip_value c)"

definition teep_output_is_need_host_io :: "bytes \<Rightarrow> bool" where
  "teep_output_is_need_host_io output \<longleftrightarrow>
     length output \<noteq> 0 \<and> parse_map need_host_io_field output False = Inr True"

section \<open>Limits\<close>

definition PRODUCTION_STACK_SIZE :: u32 where
  "PRODUCTION_STACK_SIZE = 64 * 1024"

definition PRODUCTION_HEAP_SIZE :: u32 where
  "PRODUCTION_HEAP_SIZE = 512 * 1024"

definition PRODUCTION_MAX_OUTPUT_SIZE :: u32 where
  "PRODUCTION_MAX_OUTPUT_SIZE = 16 * 1024"

record production_resource_limits =
  stack_bytes :: u32
  heap_bytes :: u32
  max_output_bytes :: u32
  timeout_ms :: u32

definition production_resource_limits_default :: production_resource_limits where
  "production_resource_limits_default = \<lparr>stack_bytes = PRODUCTION_STACK_SIZE, heap_bytes = PRODUCTION_HEAP_SIZE,
     max_output_bytes = PRODUCTION_MAX_OUTPUT_SIZE, timeout_ms = 0\<rparr>"

definition production_resource_limits_clamp :: "production_resource_limits \<Rightarrow> production_resource_limits" where
  "production_resource_limits_clamp limits =
     (let l1 = (if stack_bytes limits = 0 \<or> stack_bytes limits > PRODUCTION_STACK_SIZE
                then limits\<lparr>stack_bytes := PRODUCTION_STACK_SIZE\<rparr> else limits);
          l2 = (if heap_bytes l1 = 0 \<or> heap_bytes l1 > PRODUCTION_HEAP_SIZE
                then l1\<lparr>heap_bytes := PRODUCTION_HEAP_SIZE\<rparr> else l1)
      in if max_output_bytes l2 = 0 \<or> max_output_bytes l2 > PRODUCTION_MAX_OUTPUT_SIZE
         then l2\<lparr>max_output_bytes := PRODUCTION_MAX_OUTPUT_SIZE\<rparr> else l2)"

definition limits_field :: "(tee_error, production_resource_limits) field_parser" where
  "limits_field key c s =
     (if key_eq key (ascii ''stack_bytes'') then Cbor_Interface.stored (\<lambda>v s. s\<lparr>stack_bytes := v\<rparr>) s (parse_uint32_value c)
      else if key_eq key (ascii ''heap_bytes'') then
        Cbor_Interface.stored (\<lambda>v s. s\<lparr>heap_bytes := v\<rparr>) s (parse_uint32_value c)
      else if key_eq key (ascii ''max_output_bytes'') then
        Cbor_Interface.stored (\<lambda>v s. s\<lparr>max_output_bytes := v\<rparr>) s (parse_uint32_value c)
      else if key_eq key (ascii ''timeout_ms'') then
        Cbor_Interface.stored (\<lambda>v s. s\<lparr>timeout_ms := v\<rparr>) s (parse_uint32_value c)
      else passed id s (skip_value c))"

definition parse_production_resource_limits_map ::
  "cursor \<Rightarrow> production_resource_limits \<Rightarrow> tee_error + production_resource_limits \<times> cursor" where
  "parse_production_resource_limits_map c limits =
     (case ta_map_entries limits_field c limits of Inl e \<Rightarrow> Inl e
      | Inr (c1, l) \<Rightarrow> Inr (production_resource_limits_clamp l, c1))"

record limits_output =
  lo_status_ok :: bool
  lo_have_app :: bool
  lo_have_limits :: bool
  lo_limits :: production_resource_limits
  lo_app_digest :: "bytes option"

definition digest_value :: "cursor \<Rightarrow> tee_error + bytes \<times> cursor" where
  "digest_value c =
     (case parse_bstr_value_view c of Inl _ \<Rightarrow> Inl ERROR_BAD_FORMAT
      | Inr (v, c1) \<Rightarrow> if length v \<noteq> 32 then Inl ERROR_BAD_FORMAT else Inr (v, c1))"

definition app_field :: "(tee_error, limits_output) field_parser" where
  "app_field key c s =
     (if key_eq key (ascii ''resource_limits'') then
        Cbor_Interface.stored (\<lambda>l s. s\<lparr>lo_limits := l, lo_have_limits := True\<rparr>) s
          (parse_production_resource_limits_map c (lo_limits s))
      else if key_eq key (ascii ''sha256'') then
        Cbor_Interface.stored (\<lambda>v s. s\<lparr>lo_app_digest := Some v\<rparr>) s (digest_value c)
      else passed id s (skip_value c))"

definition limits_output_field :: "(tee_error, limits_output) field_parser" where
  "limits_output_field key c s =
     (if key_eq key (ascii ''status'') then
        Cbor_Interface.stored (\<lambda>v s. s\<lparr>lo_status_ok := bytes_view_eq v (ascii ''ok'')\<rparr>) s (parse_text_value_view c)
      else if key_eq key (ascii ''app'') then
        map_sum id (map_prod id (\<lambda>s. s\<lparr>lo_have_app := True\<rparr>)) (ta_map_entries app_field c s)
      else passed id s (skip_value c))"

text \<open>
  The limits and the digest of the application. The result \<^verbatim>\<open>TEE_ERROR_ITEM_NOT_FOUND\<close> of an output that
  gives no limits leaves the limits as they were, and every caller goes on with them; here it is a
  success too, and the flag says whether the output gave limits.
\<close>

definition parse_teep_resource_limits_output ::
  "bytes \<Rightarrow> production_resource_limits \<Rightarrow> tee_error + production_resource_limits \<times> bytes \<times> bool" where
  "parse_teep_resource_limits_output output limits =
     (if length output = 0 then Inl ERROR_BAD_FORMAT
      else case parse_map limits_output_field output
          \<lparr>lo_status_ok = False, lo_have_app = False, lo_have_limits = False, lo_limits = limits, lo_app_digest = None\<rparr> of
        Inl e \<Rightarrow> Inl e
      | Inr s \<Rightarrow> (case lo_app_digest s of None \<Rightarrow> Inl ERROR_BAD_FORMAT
        | Some d \<Rightarrow> if \<not> lo_status_ok s \<or> \<not> lo_have_app s then Inl ERROR_BAD_FORMAT
            else Inr (lo_limits s, d, lo_have_limits s)))"

section \<open>The input of the agent\<close>

record teep_resolve_input =
  ri_command :: bytes
  ri_target_command :: bytes
  ri_resolver_mode :: bytes

definition resolve_input_field :: "(tee_error, teep_resolve_input) field_parser" where
  "resolve_input_field key c s =
     (if key_eq key (ascii ''command'') then
        Cbor_Interface.stored (\<lambda>v s. s\<lparr>ri_command := v\<rparr>) s (parse_text_value_view c)
      else if key_eq key (ascii ''target_command'') then
        Cbor_Interface.stored (\<lambda>v s. s\<lparr>ri_target_command := v\<rparr>) s (parse_text_value_view c)
      else if key_eq key (ascii ''resolver_mode'') then
        Cbor_Interface.stored (\<lambda>v s. s\<lparr>ri_resolver_mode := v\<rparr>) s (parse_text_value_view c)
      else passed id s (skip_value c))"

definition probe_commands :: "bytes list" where
  "probe_commands = [ascii ''hostcall_http_probe'', ascii ''hostcall_evidence_probe'',
     ascii ''hostcall_acceptance_probe_1'', ascii ''hostcall_acceptance_probe_2'',
     ascii ''hostcall_acceptance_probe_3'', ascii ''hostcall_acceptance_probe_stale'',
     ascii ''hostcall_bad_read_probe'', ascii ''hostcall_bad_write_probe'',
     ascii ''hostcall_verified_result_write_probe'']"

definition parse_teep_resolve_input :: "bytes \<Rightarrow> tee_error + teep_resolve_input" where
  "parse_teep_resolve_input input =
     (if length input = 0 then Inl ERROR_BAD_FORMAT
      else case parse_map resolve_input_field input \<lparr>ri_command = [], ri_target_command = [], ri_resolver_mode = []\<rparr> of
        Inl e \<Rightarrow> Inl e
      | Inr s \<Rightarrow>
        if list_ex (bytes_view_eq (ri_command s)) probe_commands then Inr s
        else if \<not> bytes_view_eq (ri_command s) (ascii ''resolve_app'') \<or>
                \<not> bytes_view_is_safe_command (ri_target_command s) \<or>
                \<not> bytes_view_eq (ri_resolver_mode s) (ascii ''mock'') \<and>
                \<not> bytes_view_eq (ri_resolver_mode s) (ascii ''attestam-insecure'') \<and>
                \<not> bytes_view_eq (ri_resolver_mode s) (ascii ''attestam-verified'')
        then Inl ERROR_NOT_SUPPORTED
        else Inr s)"

text \<open>
  The length that is checked before writing counts the key \<^verbatim>\<open>attestam_url\<close> twice, and one byte for a
  value of it.
\<close>

definition resolve_input_len :: "bytes \<Rightarrow> bytes \<Rightarrow> bytes \<Rightarrow> nat" where
  "resolve_input_len target_command mode url =
     (let sz = (\<lambda>v. cbor_type_len_size (of_nat (length v)) + length v) in
      1 + sz (ascii ''schema_version'') + 1 + sz (ascii ''command'') + sz (ascii ''resolve_app'') +
      sz (ascii ''target_command'') + sz target_command + sz (ascii ''state_dir'') + 1 +
      sz (ascii ''attestam_url'') + 1 +
      (sz (ascii ''resolver_mode'') + sz mode) + (sz (ascii ''attestam_url'') + sz url))"

definition resolve_input_bytes :: "bytes \<Rightarrow> bytes \<Rightarrow> bytes \<Rightarrow> bytes" where
  "resolve_input_bytes target_command mode url =
     [0xa6] @ cbor_write_text (ascii ''schema_version'') @ [0x01] @
     cbor_write_text (ascii ''command'') @ cbor_write_text (ascii ''resolve_app'') @
     cbor_write_text (ascii ''target_command'') @ cbor_write_view_text target_command @
     cbor_write_text (ascii ''resolver_mode'') @ cbor_write_view_text mode @
     cbor_write_text (ascii ''state_dir'') @ cbor_write_text [] @
     cbor_write_text (ascii ''attestam_url'') @ cbor_write_view_text url"

definition build_teep_resolve_input_for_command :: "bytes \<Rightarrow> bytes \<Rightarrow> bytes \<Rightarrow> nat \<Rightarrow> tee_error + bytes" where
  "build_teep_resolve_input_for_command target_command resolver_mode attestam_url out_size =
     (let mode = (if length resolver_mode \<noteq> 0 then resolver_mode else ascii ''mock''); url = attestam_url in
      if resolve_input_len target_command mode url > out_size then Inl ERROR_SHORT_BUFFER
      else Inr (resolve_input_bytes target_command mode url))"

section \<open>The application\<close>

definition wasm_magic_valid :: "bytes \<Rightarrow> bool" where
  "wasm_magic_valid wasm \<longleftrightarrow> length wasm \<ge> 8 \<and> mem_compare (take 4 wasm) wasm_magic = 0"

text \<open>The binary of the installed application and its digest; the first read gives only the length.\<close>

definition twep_load_protected_app :: "('w, 'h) tee_api \<Rightarrow> ('w, bytes \<times> bytes) tee" where
  "twep_load_protected_app A = do {
     (len, res) \<leftarrow> twep_app_read_active A False 0;
     let app_len = (case len of None \<Rightarrow> 0 | Some n \<Rightarrow> n);
     if res \<noteq> Inl ERROR_SHORT_BUFFER \<or> app_len = 0 \<or> app_len > TWEP_PROTECTED_APP_MAX_SIZE
     then throw (case res of Inr _ \<Rightarrow> ERROR_BAD_FORMAT | Inl e \<Rightarrow> e)
     else do {
       ok \<leftarrow> tee_malloc A app_len;
       if \<not> ok then throw ERROR_OUT_OF_MEMORY
       else do {
         (_, res) \<leftarrow> twep_app_read_active A True app_len;
         State_Monad.return res } } }"

text \<open>
  The call of the main function of an application and the response made of its output, for an
  instance with an execution environment.
\<close>

definition app_output_response ::
  "('w, 'i) wamr \<Rightarrow> bytes \<Rightarrow> bytes \<Rightarrow> production_resource_limits \<Rightarrow> nat \<Rightarrow> 'i \<Rightarrow> u32 \<Rightarrow> built" where
  "app_output_response W request_id command limits out_size i desc_ptr =
     (let (output_ptr, output_len) = output_view W i desc_ptr in
      if output_ptr = 0 \<or> output_len = 0 \<or> \<not> wamr_validate_app_addr W i output_ptr output_len
      then (None, Inl ERROR_BAD_FORMAT)
      else if output_len > max_output_bytes limits
      then build_app_runtime_error_execute_response request_id command (ascii ''app.resource_limit'')
             (ascii ''resource limit exceeded'') (ascii ''max_output_bytes'') out_size
      else if \<not> wamr_addr_app_to_native W i output_ptr then (None, Inl ERROR_BAD_FORMAT)
      else let app_output = wamr_read W i output_ptr (unat output_len) in
        case extract_stdout_view app_output of Inl e \<Rightarrow> (None, Inl e)
        | Inr stdout_view \<Rightarrow> build_execute_response request_id stdout_view app_output out_size)"

text \<open>The call of \<^verbatim>\<open>twep_app_free\<close> afterwards gives nothing back, and the instance is dropped.\<close>

definition call_app_main ::
  "('w, 'i) wamr \<Rightarrow> bytes \<Rightarrow> bytes \<Rightarrow> bytes \<Rightarrow> production_resource_limits \<Rightarrow> int \<Rightarrow> nat \<Rightarrow> 'i \<Rightarrow> built" where
  "call_app_main W request_id command app_input limits budget out_size i =
     (if \<not> wamr_lookup_function W i (ascii ''twep_app_abi_version'') then (None, Inl ERROR_BAD_FORMAT)
      else let (abi, i) = wamr_call_plain W i (ascii ''twep_app_abi_version'') [] in
      if abi \<noteq> Some 1 then (None, Inl ERROR_BAD_FORMAT)
      else let (i, input_ptr, ok) = place_input W app_input i in
      if \<not> ok then (None, Inl ERROR_OUT_OF_MEMORY)
      else let (i, desc_ptr, ok) = place_descriptor W i in
      if \<not> ok then (None, Inl ERROR_OUT_OF_MEMORY)
      else if \<not> wamr_lookup_function W i (ascii ''twep_app_main'') then (None, Inl ERROR_BAD_FORMAT)
      else let i = wamr_set_instruction_count_limit W i budget;
               (status, i) = wamr_call_plain W i (ascii ''twep_app_main'')
                 [input_ptr, of_nat (length app_input), desc_ptr] in
      if status \<noteq> Some 0 then (None, Inl ERROR_GENERIC)
      else app_output_response W request_id command limits out_size i desc_ptr)"

definition execute_production_app_wasm ::
  "('w, 'i) wamr \<Rightarrow> bytes \<Rightarrow> bytes \<Rightarrow> bytes \<Rightarrow> bytes \<Rightarrow> production_resource_limits \<Rightarrow> nat \<Rightarrow> ('w, built) ta" where
  "execute_production_app_wasm W request_id command app_input app_binary limits out_size = do {
     ok \<leftarrow> twep_ta_ensure_wamr_runtime W;
     if \<not> ok then State_Monad.return (None, Inl ERROR_GENERIC)
     else if twep_ta_wasm_has_import_section app_binary then State_Monad.return (None, Inl ERROR_BAD_FORMAT)
     else do {
       loaded \<leftarrow> in_tee (wamr_load W app_binary);
       if \<not> loaded then State_Monad.return (None, Inl ERROR_BAD_FORMAT)
       else do {
         inst \<leftarrow> in_tee (wamr_instantiate W app_binary (stack_bytes limits) (heap_bytes limits));
         case inst of None \<Rightarrow> State_Monad.return (None, Inl ERROR_OUT_OF_MEMORY)
         | Some i \<Rightarrow> do {
             ok \<leftarrow> in_tee (wamr_create_exec_env W i (stack_bytes limits));
             if \<not> ok then State_Monad.return (None, Inl ERROR_OUT_OF_MEMORY)
             else do {
               t \<leftarrow> get_ta;
               State_Monad.return (call_app_main W request_id command app_input limits
                 (twep_ta_apply_instruction_budget t (timeout_ms limits)) out_size i) } } } } }"

section \<open>The spike command\<close>

definition WAMR_SPIKE_STACK_SIZE :: u32 where
  "WAMR_SPIKE_STACK_SIZE = 16 * 1024"

definition WAMR_SPIKE_HEAP_SIZE :: u32 where
  "WAMR_SPIKE_HEAP_SIZE = 16 * 1024"

definition WAMR_SPIKE_MAX_INPUT_SIZE :: nat where
  "WAMR_SPIKE_MAX_INPUT_SIZE = 64"

definition WAMR_SPIKE_MAX_OUTPUT_SIZE :: u32 where
  "WAMR_SPIKE_MAX_OUTPUT_SIZE = 128"

definition wamr_spike_expected_input :: bytes where
  "wamr_spike_expected_input = [0xa1, 0x67] @ ascii ''command'' @ [0x6a] @ ascii ''helloworld''"

definition validate_wamr_spike_input :: "bytes \<Rightarrow> tee_error + unit" where
  "validate_wamr_spike_input input =
     (if length input = 0 then Inl ERROR_BAD_PARAMETERS
      else if length input > WAMR_SPIKE_MAX_INPUT_SIZE then Inl ERROR_BAD_PARAMETERS
      else if length input \<noteq> length wamr_spike_expected_input \<or> mem_compare input wamr_spike_expected_input \<noteq> 0
      then Inl ERROR_BAD_FORMAT else Inr ())"

text \<open>The size stored to the output parameter, if any, with the result.\<close>

definition spike_output :: "('w, 'i) wamr \<Rightarrow> nat \<Rightarrow> 'i \<Rightarrow> u32 \<Rightarrow> built" where
  "spike_output W out_size i desc_ptr =
     (let (output_ptr, output_len) = output_view W i desc_ptr in
      if output_ptr = 0 \<or> output_len = 0 then (None, Inl ERROR_BAD_FORMAT)
      else if output_len > WAMR_SPIKE_MAX_OUTPUT_SIZE then (None, Inl ERROR_BAD_FORMAT)
      else if \<not> wamr_validate_app_addr W i output_ptr output_len then (None, Inl ERROR_BAD_FORMAT)
      else if out_size < unat output_len then (Some (unat output_len), Inl ERROR_SHORT_BUFFER)
      else if \<not> wamr_addr_app_to_native W i output_ptr then (None, Inl ERROR_BAD_FORMAT)
      else (Some (unat output_len), Inr (wamr_read W i output_ptr (unat output_len))))"

definition call_spike_main :: "('w, 'i) wamr \<Rightarrow> bytes \<Rightarrow> int \<Rightarrow> nat \<Rightarrow> 'i \<Rightarrow> built" where
  "call_spike_main W input budget out_size i =
     (let (i, input_ptr, ok) = place_input W input i in
      if \<not> ok then (None, Inl ERROR_OUT_OF_MEMORY)
      else let (i, desc_ptr, ok) = place_descriptor W i in
      if \<not> ok then (None, Inl ERROR_OUT_OF_MEMORY)
      else if \<not> wamr_lookup_function W i (ascii ''twep_app_main'') then (None, Inl ERROR_BAD_FORMAT)
      else let i = wamr_set_instruction_count_limit W i budget;
               (status, i) = wamr_call_plain W i (ascii ''twep_app_main'') [input_ptr, of_nat (length input), desc_ptr] in
      if status \<noteq> Some 0 then (None, Inl ERROR_GENERIC)
      else spike_output W out_size i desc_ptr)"

definition spike_run :: "('w, 'i) wamr \<Rightarrow> bytes \<Rightarrow> bytes \<Rightarrow> nat \<Rightarrow> ('w, built) ta" where
  "spike_run W wasm input out_size =
     (if twep_ta_wasm_has_import_section wasm then State_Monad.return (None, Inl ERROR_BAD_FORMAT)
      else do {
        loaded \<leftarrow> in_tee (wamr_load W wasm);
        if \<not> loaded then State_Monad.return (None, Inl ERROR_BAD_FORMAT)
        else do {
          inst \<leftarrow> in_tee (wamr_instantiate W wasm WAMR_SPIKE_STACK_SIZE WAMR_SPIKE_HEAP_SIZE);
          case inst of None \<Rightarrow> State_Monad.return (None, Inl ERROR_OUT_OF_MEMORY)
          | Some i \<Rightarrow> do {
              ok \<leftarrow> in_tee (wamr_create_exec_env W i WAMR_SPIKE_STACK_SIZE);
              if \<not> ok then State_Monad.return (None, Inl ERROR_OUT_OF_MEMORY)
              else do {
                t \<leftarrow> get_ta;
                State_Monad.return (call_spike_main W input (twep_ta_apply_instruction_budget t 0) out_size i) } } } })"

fun two_inputs_output :: "tee_param list \<Rightarrow> (bytes \<times> bytes \<times> nat \<times> bytes option) option" where
  "two_inputs_output [MEMREF_INPUT a, MEMREF_INPUT b, MEMREF_OUTPUT cap out, PARAM_NONE] = Some (a, b, cap, out)"
| "two_inputs_output _ = None"

definition twep_ta_cmd_wamr_spike_exec :: "('w, 'i) wamr \<Rightarrow> ('w \<times> ta_state) handler" where
  "twep_ta_cmd_wamr_spike_exec W ps =
     (case two_inputs_output ps of
        None \<Rightarrow> refuse ERROR_BAD_PARAMETERS ps
      | Some (wasm, input, cap, out) \<Rightarrow>
        if length wasm = 0 \<or> cap = 0 then refuse ERROR_BAD_PARAMETERS ps
        else case validate_wamr_spike_input input of Inl e \<Rightarrow> refuse e ps
        | Inr _ \<Rightarrow> do {
            ok \<leftarrow> twep_ta_ensure_wamr_runtime W;
            if \<not> ok then refuse ERROR_GENERIC ps
            else do {
              (len, res) \<leftarrow> spike_run W wasm input cap;
              _ \<leftarrow> modify_ta twep_ta_wamr_cleanup_if_idle;
              State_Monad.return (case res of
                Inl e \<Rightarrow> (Inl e, ps[2 := MEMREF_OUTPUT (case len of None \<Rightarrow> cap | Some n \<Rightarrow> n) out])
              | Inr bs \<Rightarrow> (Inr (), ps[2 := MEMREF_OUTPUT (case len of None \<Rightarrow> cap | Some n \<Rightarrow> n) (Some bs)])) } })"

section \<open>Lengths and round trips\<close>

text \<open>Every response fills exactly the length that was computed and checked before.\<close>

lemma app_responses_exact:
  assumes "length request_id < 2 ^ 32" and "length command < 2 ^ 32" and "length code < 2 ^ 32" and "length message < 2 ^ 32"
    and "length reason < 2 ^ 32" and "length out < 2 ^ 32" and "length app_out < 2 ^ 32"
  shows "length (execute_response_bytes request_id out app_out) = execute_response_len request_id out app_out"
    and "length (teep_error_response_bytes request_id code message command) =
      teep_error_response_len request_id code message command"
    and "length (app_runtime_error_bytes request_id command code message reason) =
      app_runtime_error_len request_id command code message reason"
  using assms
  by (simp_all add: execute_response_bytes_def execute_response_len_def teep_error_response_bytes_def
      teep_error_response_len_def app_runtime_error_bytes_def app_runtime_error_len_def Let_def length_cbor_write
      rt.wr_size u32_le)

lemma resolve_input_excess:
  assumes "length target < 2 ^ 32" and "length mode < 2 ^ 32" and "length url < 2 ^ 32"
  shows "resolve_input_len target mode url = length (resolve_input_bytes target mode url) + 14"
  using assms by (simp add: resolve_input_len_def resolve_input_bytes_def Let_def length_cbor_write cbor_type_len_size_def [of 0])

lemma map_head_6: "is_head 5 6 [0xa6]"
  by (simp add: is_head_def)

lemma skip_one: "rest c = [1] @ zs \<Longrightarrow> skip_value c = Inr (adv (length [1 :: byte]) c)"
proof -
  have "cbor_write_type_len 0 1 = [1]" by (simp add: cbor_write_type_len_def)
  then show "rest c = [1] @ zs \<Longrightarrow> ?thesis" using skip_write(3) [of c 1 zs] by simp
qed

lemma resolve_input_parses:
  assumes "target \<noteq> []" "length target < 2 ^ 32" "mode \<noteq> []" "length mode < 2 ^ 32" "length url < 2 ^ 32"
  shows "parse_map resolve_input_field (resolve_input_bytes target mode url) s =
    Inr \<lparr>ri_command = ascii ''resolve_app'', ri_target_command = target, ri_resolver_mode = mode\<rparr>"
proof -
  let ?es = "with_effects [(ascii ''schema_version'', [1]), (ascii ''command'', cbor_write_text (ascii ''resolve_app'')),
      (ascii ''target_command'', cbor_write_text target), (ascii ''resolver_mode'', cbor_write_text mode),
      (ascii ''state_dir'', cbor_write_text []), (ascii ''attestam_url'', cbor_write_text url)]
     [\<lambda>s. s, \<lambda>s. s\<lparr>ri_command := ascii ''resolve_app''\<rparr>, \<lambda>s. s\<lparr>ri_target_command := target\<rparr>,
      \<lambda>s. s\<lparr>ri_resolver_mode := mode\<rparr>, \<lambda>s. s, \<lambda>s. s]"
  have ok: "\<forall>e \<in> set ?es. ta_entry_ok resolve_input_field e"
    using assms
    by (intro with_effects_ok)
      (simp_all add: resolve_input_field_def key_eq_iff value_write skip_write skip_one [simplified] del: cbor_write_strings)
  have buf: "resolve_input_bytes target mode url = [0xa6] @ concat (map fst ?es)"
    by (simp add: resolve_input_bytes_def with_effects_def)
  show ?thesis
    by (rule parse_map_writeI [OF map_head_6 _ ok buf]) (simp_all add: with_effects_def)
qed

section \<open>Limits of an application\<close>

definition limits_ok :: "production_resource_limits \<Rightarrow> bool" where
  "limits_ok l \<longleftrightarrow> 0 < stack_bytes l \<and> stack_bytes l \<le> PRODUCTION_STACK_SIZE \<and>
     0 < heap_bytes l \<and> heap_bytes l \<le> PRODUCTION_HEAP_SIZE \<and>
     0 < max_output_bytes l \<and> max_output_bytes l \<le> PRODUCTION_MAX_OUTPUT_SIZE"

lemma clamp_ok: "limits_ok (production_resource_limits_clamp l)"
  by (simp add: limits_ok_def production_resource_limits_clamp_def Let_def PRODUCTION_STACK_SIZE_def
      PRODUCTION_HEAP_SIZE_def PRODUCTION_MAX_OUTPUT_SIZE_def not_less word_gt_0)

lemma default_ok: "limits_ok production_resource_limits_default"
  by (simp add: limits_ok_def production_resource_limits_default_def PRODUCTION_STACK_SIZE_def
      PRODUCTION_HEAP_SIZE_def PRODUCTION_MAX_OUTPUT_SIZE_def)

lemma limits_map_within:
  assumes "within buf c" and "parse_production_resource_limits_map c l = Inr (l', c')"
  shows "within buf c' \<and> limits_ok l'"
proof -
  from assms(2) obtain l1 where e: "map_entries (\<lambda>c. cbor_read_len c 5) cbor_read_text_key ERROR_BAD_FORMAT limits_field c l
      = Inr (c', l1)" and l': "l' = production_resource_limits_clamp l1"
    by (auto simp: parse_production_resource_limits_map_def ta_map_entries_def split: sum.splits)
  have "within buf c' \<and> True"
    using e assms(1) TrueI
  proof (rule rtm.entries_inv)
    fix key d s d' s' assume "within buf d" "limits_field key d s = Inr (d', s')"
    then show "within buf d' \<and> True"
      unfolding limits_field_def by (elim if_chain storedE passedE) (auto dest: value_within)
  qed
  then show ?thesis by (simp add: l' clamp_ok)
qed

definition limits_inv :: "limits_output \<Rightarrow> bool" where
  "limits_inv s \<longleftrightarrow> limits_ok (lo_limits s) \<and> (\<forall>d. lo_app_digest s = Some d \<longrightarrow> length d = 32)"

lemma app_field_inv:
  assumes w: "within buf c" and inv: "limits_inv s" and res: "app_field key c s = Inr (c', s')"
  shows "within buf c' \<and> limits_inv s'"
proof -
  have dg: "within buf d \<and> length v = 32" if "digest_value c = Inr (v, d)" for v d
    using that value_within(3) [OF w] by (auto simp: digest_value_def split: sum.splits if_splits)
  show ?thesis
    using res inv unfolding app_field_def
    by (elim if_chain storedE passedE)
      (auto simp: limits_inv_def dest: limits_map_within [OF w] dg value_within(7) [OF w])
qed

lemma limits_output_field_inv:
  assumes w: "within buf c" and inv: "limits_inv s" and res: "limits_output_field key c s = Inr (c', s')"
  shows "within buf c' \<and> limits_inv s'"
proof -
  have app: "within buf d \<and> limits_inv s1" if "ta_map_entries app_field c s = Inr (d, s1)" for d s1
    using that [unfolded ta_map_entries_def] w inv by (rule rtm.entries_inv) (rule app_field_inv)
  have "within buf c' \<and> limits_inv s'"
    if "map_sum id (map_prod id (\<lambda>s. s\<lparr>lo_have_app := True\<rparr>)) (ta_map_entries app_field c s) = Inr (c', s')"
    using that app by (cases "ta_map_entries app_field c s") (auto simp: limits_inv_def)
  with res inv show ?thesis
    unfolding limits_output_field_def
    by (elim if_chain storedE passedE) (auto simp: limits_inv_def dest: value_within(1,7) [OF w])
qed

lemma limits_output_inv:
  assumes "parse_teep_resource_limits_output output l0 = Inr (l, d, given)" and "limits_ok l0"
  shows "limits_ok l \<and> length d = 32"
proof -
  from assms(1) obtain s where p: "parse_map limits_output_field output
      \<lparr>lo_status_ok = False, lo_have_app = False, lo_have_limits = False, lo_limits = l0, lo_app_digest = None\<rparr> = Inr s"
    and s: "lo_limits s = l" "lo_app_digest s = Some d"
    by (auto simp: parse_teep_resource_limits_output_def split: if_splits sum.splits option.splits)
  have "limits_inv s"
    using p
  proof (rule parse_map_inv)
    show "limits_inv \<lparr>lo_status_ok = False, lo_have_app = False, lo_have_limits = False, lo_limits = l0, lo_app_digest = None\<rparr>"
      using assms(2) by (simp add: limits_inv_def)
  qed (rule limits_output_field_inv)
  with s show ?thesis by (simp add: limits_inv_def)
qed

text \<open>The budget of a run is positive, fits an \<^verbatim>\<open>int\<close>, and respects the timeout of the request.\<close>

lemma budget_bounds:
  fixes t :: ta_state and ms :: u32
  defines "b \<equiv> twep_ta_apply_instruction_budget t ms"
  shows "100000 \<le> b \<and> b \<le> 2147483647 \<and>
    (request_timeout_ms (g_session t) \<noteq> 0 \<longrightarrow> b \<le> 100000 * uint (request_timeout_ms (g_session t))) \<and>
    (ms \<noteq> 0 \<longrightarrow> b \<le> 100000 * uint ms)"
proof -
  have mul: "uint ((ucast u :: u64) * 100000) = 100000 * uint u" for u :: u32
  proof -
    have "uint u < 2 ^ 32" using unsigned_less [of u, where ?'a = int] by simp
    then have "uint u * 100000 < 2 ^ 64" by simp
    then show ?thesis by (simp add: uint_word_arith_bintrs unsigned_ucast_eq take_bit_int_eq_self)
  qed
  have bound: "100000 \<le> uint (if (ucast u :: u64) * 100000 > INT32_MAX then INT32_MAX else ucast u * 100000) \<and>
      uint (if (ucast u :: u64) * 100000 > INT32_MAX then INT32_MAX else ucast u * 100000) \<le> 2147483647 \<and>
      uint (if (ucast u :: u64) * 100000 > INT32_MAX then INT32_MAX else ucast u * 100000) \<le> 100000 * uint u"
    if "u \<noteq> 0" for u :: u32
  proof -
    have "1 \<le> uint u" using that uint_ge_0 [of u] by (metis int_one_le_iff_zero_less order_le_less unsigned_0 word_uint_eq_iff)
    then show ?thesis using mul [of u] by (auto simp: INT32_MAX_def word_less_def)
  qed
  let ?r = "request_timeout_ms (g_session t)" and ?d = "default_timeout_ms (g_session t)"
  let ?u0 = "if ms = 0 then if ?d \<noteq> 0 then ?d else PRODUCTION_DEFAULT_TIMEOUT_MS else ms"
  let ?u = "if ?r \<noteq> 0 \<and> ?r < ?u0 then ?r else ?u0"
  have "?u \<noteq> 0" by (simp add: PRODUCTION_DEFAULT_TIMEOUT_MS_def)
  moreover have "?r \<noteq> 0 \<longrightarrow> uint ?u \<le> uint ?r" "ms \<noteq> 0 \<longrightarrow> uint ?u \<le> uint ms"
    by (auto simp: word_less_def)
  ultimately show ?thesis
    using bound [of ?u] unfolding b_def twep_ta_apply_instruction_budget_def Let_def by linarith
qed

section \<open>The installed application\<close>

lemma app_read_spec:
  assumes "storage_laws A objs hobj sha" and "storage_reliable A objs hobj"
    and "run_state (twep_app_read_active A buf cap) w = (r, w')"
  shows "objs w' = objs w"
    and "snd r = Inr (bs, d) \<Longrightarrow> \<exists>act. app_spec sha (objs w) = Inr act \<and> app_wasm act = bs \<and> app_digest act = d"
proof -
  obtain l w1 where run: "run_state (load_active_app A) w = (l, w1)" by fastforce
  have load: "objs w1 = objs w \<and> (l = app_spec sha (objs w) \<or> l = Inl ERROR_OUT_OF_MEMORY)"
    using crash_load_active_app [OF assms(1) reliable_fail_stop [OF assms(2)], of "objs w"] run
    by (auto simp: crash_hoare_False hoare_def)
  then show "objs w' = objs w" using assms(3) run by (auto simp: twep_app_read_active_def)
  show "snd r = Inr (bs, d) \<Longrightarrow> \<exists>act. app_spec sha (objs w) = Inr act \<and> app_wasm act = bs \<and> app_digest act = d"
    using load assms(3) run
    by (cases "app_spec sha (objs w)") (auto simp: twep_app_read_active_def split: if_splits)
qed

lemma load_protected_app_run:
  assumes laws: "storage_laws A objs hobj sha" and rel: "storage_reliable A objs hobj"
    and run: "run_state (twep_load_protected_app A) w = (r, w')"
  shows "objs w' = objs w"
    and "r = Inr (bs, d) \<Longrightarrow> \<exists>act. app_spec sha (objs w) = Inr act \<and> app_wasm act = bs \<and> app_digest act = d"
proof -
  obtain r1 w1 where 1: "run_state (twep_app_read_active A False 0) w = (r1, w1)" by fastforce
  let ?n = "case fst r1 of None \<Rightarrow> 0 | Some n \<Rightarrow> n"
  obtain ok w2 where 2: "run_state (tee_malloc A ?n) w1 = (ok, w2)" by fastforce
  obtain r3 w3 where 3: "run_state (twep_app_read_active A True ?n) w2 = (r3, w3)" by fastforce
  have o1: "objs w1 = objs w" by (rule app_read_spec(1) [OF laws rel 1])
  have o2: "objs w2 = objs w1" using hoareD [OF law_malloc [OF laws] _ 2, of "objs w1" "hobj w1"] by simp
  have o3: "objs w3 = objs w2" by (rule app_read_spec(1) [OF laws rel 3])
  have res: "w' = w1 \<and> isl r \<or> w' = w2 \<and> isl r \<or> w' = w3 \<and> r = snd r3"
    using run 1 2 3 by (cases r1; cases r3) (auto simp: twep_load_protected_app_def Let_def split: if_splits)
  then show "objs w' = objs w" using o1 o2 o3 by auto
  assume "r = Inr (bs, d)"
  with res have "snd r3 = Inr (bs, d)" by auto
  from app_read_spec(2) [OF laws rel 3 this] show "\<exists>act. app_spec sha (objs w) = Inr act \<and> app_wasm act = bs \<and> app_digest act = d"
    by (simp add: o1 o2)
qed

text \<open>The digest of the record is the digest of the application.\<close>

lemma app_spec_digest:
  assumes "storage_laws A objs hobj sha" and "storage_reliable A objs hobj"
    and "abs_load S = Some a" and "app_spec sha S = Inr act"
  shows "app_digest act = sha (app_wasm act)"
  by (rule app_spec_active [OF assms(3,4)])
    (use app_stored_digest [OF _ sha_length [OF assms(1,2)]] in \<open>auto simp: app_live_def\<close>)

section \<open>Effects of an application\<close>

text \<open>
  \<open>silent objs m\<close>: a computation that leaves storage alone, and of the variables changes at most the
  flags of the Wasm runtime.
\<close>

definition same_vars :: "ta_state \<Rightarrow> ta_state \<Rightarrow> bool" where
  "same_vars t' t \<longleftrightarrow> g_session t' = g_session t \<and>
     g_pending_http_transcript_count t' = g_pending_http_transcript_count t \<and>
     g_pending_http_transcript_bytes t' = g_pending_http_transcript_bytes t \<and>
     g_teep_agent_live_session_count t' = g_teep_agent_live_session_count t"

definition silent :: "('w \<Rightarrow> store) \<Rightarrow> ('w, 'a) ta \<Rightarrow> bool" where
  "silent objs m \<longleftrightarrow> (\<forall>w t r w' t'. run_state m (w, t) = (r, (w', t')) \<longrightarrow> objs w' = objs w \<and> same_vars t' t)"

named_theorems silent_rules \<open>rules for computations that leave storage and sessions alone\<close>

lemma silentD:
  "silent objs m \<Longrightarrow> run_state m (w, t) = (r, (w', t')) \<Longrightarrow> objs w' = objs w"
  "silent objs m \<Longrightarrow> run_state m (w, t) = (r, (w', t')) \<Longrightarrow> same_vars t' t"
  unfolding silent_def by blast+

lemma silent_base [silent_rules]:
  "silent objs (State_Monad.return x)" "silent objs get_ta" "keeps objs m \<Longrightarrow> silent objs (in_tee m)"
  "silent objs (modify_ta (\<lambda>t. t\<lparr>g_wamr_runtime_initialized := True\<rparr>))"
  "silent objs (modify_ta (\<lambda>t. t\<lparr>g_teep_agent_natives_registered := True\<rparr>))"
  "silent objs (modify_ta twep_ta_wamr_cleanup_if_idle)"
  by (auto simp: silent_def same_vars_def keeps_def twep_ta_wamr_cleanup_if_idle_def)

lemma silent_bind [silent_rules]:
  assumes "silent objs m" and "\<And>x. silent objs (f x)"
  shows "silent objs (State_Monad.bind m f)"
  unfolding silent_def
proof (intro allI impI)
  fix w t r w' t' assume run: "run_state (State_Monad.bind m f) (w, t) = (r, (w', t'))"
  obtain x w1 t1 where 1: "run_state m (w, t) = (x, (w1, t1))" by (metis surj_pair)
  with run have 2: "run_state (f x) (w1, t1) = (r, (w', t'))" by simp
  show "objs w' = objs w \<and> same_vars t' t"
    using silentD [OF assms(1) 1] silentD [OF assms(2) 2] by (simp add: same_vars_def)
qed

lemma silent_cases [silent_rules]:
  "silent objs m \<Longrightarrow> silent objs m' \<Longrightarrow> silent objs (if b then m else m')"
  "silent objs m \<Longrightarrow> (\<And>x. silent objs (g x)) \<Longrightarrow> silent objs (case z of None \<Rightarrow> m | Some x \<Rightarrow> g x)"
  "(\<And>x y. silent objs (h x y)) \<Longrightarrow> silent objs (case p of (x, y) \<Rightarrow> h x y)"
  "(\<And>e. silent objs (k e)) \<Longrightarrow> (\<And>x. silent objs (g x)) \<Longrightarrow> silent objs (case q of Inl e \<Rightarrow> k e | Inr x \<Rightarrow> g x)"
  by (simp_all split: option.split prod.split sum.split)

lemma runtime_keeps:
  assumes "runtime_laws objs W E"
  shows "keeps objs (wamr_init W)" "keeps objs (wamr_register_natives W)" "keeps objs (wamr_load W m)"
    "keeps objs (wamr_instantiate W m s h)" "keeps objs (wamr_create_exec_env W i s)"
    "keeps objs (platform_random E n)" "keeps objs (platform_time E)" "keeps objs (platform_ecdsa E x y d sg)"
  using assms by (simp_all add: runtime_laws_def)

lemma silent_app:
  assumes "runtime_laws objs W E"
  shows "silent objs (twep_ta_ensure_wamr_runtime W)"
    and "silent objs (execute_production_app_wasm W request_id command app_input app_binary limits out_size)"
    and "silent objs (twep_ta_cmd_wamr_spike_exec W ps)"
proof -
  show ensure: "silent objs (twep_ta_ensure_wamr_runtime W)"
    unfolding twep_ta_ensure_wamr_runtime_def by (intro silent_rules runtime_keeps [OF assms])
  show "silent objs (execute_production_app_wasm W request_id command app_input app_binary limits out_size)"
    unfolding execute_production_app_wasm_def by (intro silent_rules ensure runtime_keeps [OF assms])
  have "silent objs (spike_run W wasm input cap)" for wasm input cap
    unfolding spike_run_def by (intro silent_rules runtime_keeps [OF assms])
  then show "silent objs (twep_ta_cmd_wamr_spike_exec W ps)"
    unfolding twep_ta_cmd_wamr_spike_exec_def by (intro silent_rules ensure)
qed

section \<open>Properties\<close>


text \<open>
  The input that the trusted application builds for the agent is accepted by its own parser and read
  back as built: for a safe command and a mode that is known or left out, the agent is asked to resolve exactly
  that command in that mode. It is built whenever it fits the buffer with 14 bytes to spare, and
  a result never exceeds the buffer.
\<close>

theorem resolve_input_roundtrip:
  assumes "bytes_view_is_safe_command target"
    and "mode \<in> {[], ascii ''mock'', ascii ''attestam-insecure'', ascii ''attestam-verified''}" and "length url < 2 ^ 32"
  shows "case build_teep_resolve_input_for_command target mode url n of
      Inl e \<Rightarrow> e = ERROR_SHORT_BUFFER \<and>
        n < length (resolve_input_bytes target (if mode = [] then ascii ''mock'' else mode) url) + 14
    | Inr bs \<Rightarrow> length bs + 14 \<le> n \<and> parse_teep_resolve_input bs =
        Inr \<lparr>ri_command = ascii ''resolve_app'', ri_target_command = target,
             ri_resolver_mode = (if mode = [] then ascii ''mock'' else mode)\<rparr>"
proof -
  let ?m = "if mode = [] then ascii ''mock'' else mode"
  have t: "target \<noteq> []" "length target < 2 ^ 32" using assms(1) by (auto simp: bytes_view_is_safe_command_def)
  have m: "?m \<noteq> []" "length ?m < 2 ^ 32" "?m \<in> {ascii ''mock'', ascii ''attestam-insecure'', ascii ''attestam-verified''}"
    using assms(2) by auto
  note len = resolve_input_excess [OF t(2) m(2) assms(3)]
  have ne: "resolve_input_bytes target ?m url \<noteq> []" by (simp add: resolve_input_bytes_def)
  have probe: "\<not> list_ex (bytes_view_eq (ascii ''resolve_app'')) probe_commands"
    by (simp add: probe_commands_def view_eq_iff)
  have "parse_teep_resolve_input (resolve_input_bytes target ?m url) =
      Inr \<lparr>ri_command = ascii ''resolve_app'', ri_target_command = target, ri_resolver_mode = ?m\<rparr>"
    using ne probe m(3) assms(1)
    by (simp add: parse_teep_resolve_input_def resolve_input_parses [OF t m(1,2) assms(3)] view_eq_iff del: ex_simps)
  then show ?thesis
    using len by (cases "mode = []") (simp_all add: build_teep_resolve_input_for_command_def Let_def not_less)
qed

section \<open>Concrete instances\<close>

definition output1 :: bytes where
  "output1 = [0xa2] @ cbor_write_text (ascii ''status'') @ cbor_write_text (ascii ''ok'') @
     cbor_write_text (ascii ''app'') @ [0xa2] @ cbor_write_text (ascii ''sha256'') @ cbor_write_bstr (replicate 32 7) @
     cbor_write_text (ascii ''resource_limits'') @ [0xa2] @
     cbor_write_text (ascii ''stack_bytes'') @ cbor_write_type_len 0 1000000 @
     cbor_write_text (ascii ''timeout_ms'') @ cbor_write_type_len 0 20"

definition limits1 :: production_resource_limits where
  "limits1 = production_resource_limits_default\<lparr>timeout_ms := 20\<rparr>"

lemma output1_parsed:
  "parse_teep_resource_limits_output output1 production_resource_limits_default = Inr (limits1, replicate 32 7, True)"
  by code_simp


definition command1 :: bytes where
  "command1 = ascii ''helloworld''"

theorem resolve_input_roundtrip_witness:
  "case build_teep_resolve_input_for_command command1 [] [] 256 of
      Inl e \<Rightarrow> e = ERROR_SHORT_BUFFER \<and> 256 < length (resolve_input_bytes command1 (ascii ''mock'') []) + 14
    | Inr bs \<Rightarrow> length bs + 14 \<le> 256 \<and> parse_teep_resolve_input bs =
        Inr \<lparr>ri_command = ascii ''resolve_app'', ri_target_command = command1, ri_resolver_mode = ascii ''mock''\<rparr>"
proof -
  have "bytes_view_is_safe_command command1" by code_simp
  from resolve_input_roundtrip [OF this insertI1, of "[]" 256] show ?thesis by (simp only: list.size if_True simp_thms) simp
qed

end
