(* ===== verification/Agent_Runtime.thy ===== *)
theory Agent_Runtime
  imports App_Runtime
begin

text \<open>
  The execution of the TEEP agent (\<^verbatim>\<open>optee/twep-wr-ta/ta/ta_teep_runtime.c\<close>). A run verifies the
  signature of the agent, loads it or takes the module kept from the last run, calls its main function,
  and either returns its output or, when the agent asked for a host operation, suspends the request:
  the operation is kept in the session and the module stays loaded. Resuming a request runs the agent
  again from its start with one more answer in the history. The context of a run is a local variable
  that is dropped at its end.
\<close>

section \<open>A run of the agent\<close>

definition TEEP_AGENT_HOST_IO_RESPONSE_SIZE_MAX :: nat where
  "TEEP_AGENT_HOST_IO_RESPONSE_SIZE_MAX = TEEP_AGENT_TRANSCRIPT_SIZE_MAX + 1024"

definition host_context ::
  "bytes \<Rightarrow> bytes \<Rightarrow> bytes \<Rightarrow> bytes \<Rightarrow> bytes \<Rightarrow> bytes \<Rightarrow> teep_agent_pending_hostcall \<Rightarrow> bytes \<Rightarrow> teep_agent_hostcall_context" where
  "host_context request_id wasm input catalog app_binary mode replay replay_payload =
     \<lparr>hc_teep_agent_wasm = wasm, hc_catalog = catalog, hc_app_wasm = app_binary, hc_resolver_mode = mode,
      hc_request_id = Some request_id, hc_command = [], hc_input = input, hc_pending = TEEP_AGENT_PENDING_NONE,
      hc_replay = replay, hc_replay_payload = replay_payload, hc_replay_used = False, hc_replay_history_index = 0,
      hc_url = [], hc_body = [], hc_challenge = [], hc_agent_public_key_cose = [],
      hc_objects = replicate TEEP_AGENT_TRANSIENT_OBJECTS_MAX no_object\<rparr>"

text \<open>\<^verbatim>\<open>g_teep_agent_live_session\<close> takes the module over, unless it has it already.\<close>

definition keep_live_module :: "bool \<Rightarrow> bytes \<Rightarrow> ta_state \<Rightarrow> ta_state" where
  "keep_live_module using_live_module module t =
     (if using_live_module then t
      else let t1 = teep_agent_live_session_release t in
        t1\<lparr>g_session := (g_session t1)\<lparr>live_session :=
             \<lparr>ls_active = True, ls_module = Some module, ls_module_wasm = Some module\<rparr>\<rparr>,
           g_teep_agent_live_session_count := g_teep_agent_live_session_count t1 + 1\<rparr>)"

definition suspend_agent ::
  "('w, 'h) tee_api \<Rightarrow> bool \<Rightarrow> bytes \<Rightarrow> teep_agent_hostcall_context \<Rightarrow> nat \<Rightarrow> ('w, built) ta" where
  "suspend_agent A using_live_module module ctx out_size = do {
     (len, res) \<leftarrow> teep_agent_pending_to_need_host_io A ctx out_size;
     _ \<leftarrow> (case res of Inl _ \<Rightarrow> State_Monad.return () | Inr _ \<Rightarrow> modify_ta (keep_live_module using_live_module module));
     State_Monad.return (len, res) }"

definition agent_output :: "('w, 'i) wamr \<Rightarrow> nat \<Rightarrow> 'i \<Rightarrow> u32 \<Rightarrow> u32 \<Rightarrow> built" where
  "agent_output W out_size i output_ptr output_len =
     (if output_ptr = 0 \<or> output_len = 0 \<or> unat output_len > out_size \<or>
         \<not> wamr_validate_app_addr W i output_ptr output_len
      then (None, Inl ERROR_SHORT_BUFFER)
      else if \<not> wamr_addr_app_to_native W i output_ptr then (None, Inl ERROR_BAD_FORMAT)
      else (Some (unat output_len), Inr (wamr_read W i output_ptr (unat output_len))))"

text \<open>The calls of the functions of the agent, for an instance with an execution environment.\<close>

definition call_agent_main ::
  "('w, 'h) tee_api \<Rightarrow> ('w, 'i) wamr \<Rightarrow> 'w platform \<Rightarrow> bytes \<Rightarrow> bool \<Rightarrow> bytes \<Rightarrow> nat \<Rightarrow> 'i \<Rightarrow>
   teep_agent_hostcall_context \<Rightarrow> ('w, built) ta" where
  "call_agent_main A W E input using_live_module module out_size i ctx =
     (if \<not> wamr_lookup_function W i (ascii ''twep_app_abi_version'') then State_Monad.return (None, Inl ERROR_BAD_FORMAT)
      else do {
        ((abi, i), ctx) \<leftarrow> run_module A E (wamr_call W i (ascii ''twep_app_abi_version'') []) ctx;
        let (i1, input_ptr, input_ok) = place_input W input i;
        let (i2, desc_ptr, desc_ok) = place_descriptor W i1;
        if abi \<noteq> Some 1 then State_Monad.return (None, Inl ERROR_BAD_FORMAT)
        else if \<not> input_ok then State_Monad.return (None, Inl ERROR_OUT_OF_MEMORY)
        else if \<not> desc_ok then State_Monad.return (None, Inl ERROR_OUT_OF_MEMORY)
        else if \<not> wamr_lookup_function W i2 (ascii ''twep_app_main'') then State_Monad.return (None, Inl ERROR_BAD_FORMAT)
        else do {
          t \<leftarrow> get_ta;
          let i3 = wamr_set_instruction_count_limit W i2 (twep_ta_apply_instruction_budget t 0);
          ((status, i), ctx) \<leftarrow> run_module A E
            (wamr_call W i3 (ascii ''twep_app_main'') [input_ptr, of_nat (length input), desc_ptr]) ctx;
          if status \<noteq> Some 0 then
            if hc_pending ctx \<noteq> TEEP_AGENT_PENDING_NONE
            then suspend_agent A using_live_module module ctx out_size
            else State_Monad.return (None, Inl ERROR_GENERIC)
          else do {
            let (output_ptr, output_len) = output_view W i desc_ptr;
            _ \<leftarrow> (if output_ptr \<noteq> 0 \<and> wamr_lookup_function W i (ascii ''twep_app_free'')
                 then do {
                   _ \<leftarrow> run_module A E (wamr_call W i (ascii ''twep_app_free'') [output_ptr, output_len]) ctx;
                   State_Monad.return () }
                 else State_Monad.return ());
            State_Monad.return (agent_output W out_size i output_ptr output_len) } } })"

definition instantiate_agent ::
  "('w, 'h) tee_api \<Rightarrow> ('w, 'i) wamr \<Rightarrow> 'w platform \<Rightarrow> bytes \<Rightarrow> bool \<Rightarrow> bytes \<Rightarrow> nat \<Rightarrow>
   teep_agent_hostcall_context \<Rightarrow> ('w, built) ta" where
  "instantiate_agent A W E input using_live_module module out_size ctx = do {
     inst \<leftarrow> in_tee (wamr_instantiate W module PRODUCTION_STACK_SIZE PRODUCTION_HEAP_SIZE);
     case inst of None \<Rightarrow> State_Monad.return (None, Inl ERROR_OUT_OF_MEMORY)
     | Some i \<Rightarrow> do {
         ok \<leftarrow> in_tee (wamr_create_exec_env W i PRODUCTION_STACK_SIZE);
         if \<not> ok then State_Monad.return (None, Inl ERROR_OUT_OF_MEMORY)
         else call_agent_main A W E input using_live_module module out_size i ctx } }"

definition load_agent ::
  "('w, 'h) tee_api \<Rightarrow> ('w, 'i) wamr \<Rightarrow> bytes \<Rightarrow> ('w, tee_error + bool \<times> bytes) ta" where
  "load_agent A W wasm = do {
     t \<leftarrow> get_ta;
     let live = live_session (g_session t);
     case (ls_active live, ls_module live) of
       (True, Some module) \<Rightarrow>
         State_Monad.return (case ls_module_wasm live of
           None \<Rightarrow> Inl ERROR_GENERIC
         | Some m \<Rightarrow> if length m = 0 then Inl ERROR_GENERIC else Inr (True, module))
     | _ \<Rightarrow> do {
         ok \<leftarrow> in_tee (tee_malloc A (length wasm));
         if \<not> ok then State_Monad.return (Inl ERROR_OUT_OF_MEMORY)
         else do {
           loaded \<leftarrow> in_tee (wamr_load W wasm);
           State_Monad.return (if loaded then Inr (False, wasm) else Inl ERROR_BAD_FORMAT) } } }"

definition register_natives :: "('w, 'i) wamr \<Rightarrow> ('w, bool) ta" where
  "register_natives W = do {
     t \<leftarrow> get_ta;
     if g_teep_agent_natives_registered t then State_Monad.return True
     else do {
       ok \<leftarrow> in_tee (wamr_register_natives W);
       if \<not> ok then State_Monad.return False
       else do {
         _ \<leftarrow> modify_ta (\<lambda>t. t\<lparr>g_teep_agent_natives_registered := True\<rparr>);
         State_Monad.return True } } }"

text \<open>What the host may supply for a resolution: nothing in the verified mode, both files otherwise.\<close>

definition supplied_files :: "teep_resolve_input \<Rightarrow> bytes \<Rightarrow> bytes \<Rightarrow> tee_error + unit" where
  "supplied_files ri catalog app_binary =
     (if bytes_view_eq (ri_command ri) (ascii ''resolve_app'') then
        if bytes_view_eq (ri_resolver_mode ri) (ascii ''attestam-verified'') then
          if length catalog \<noteq> 0 \<or> length app_binary \<noteq> 0 then Inl ERROR_SECURITY else Inr ()
        else if length catalog = 0 \<or> \<not> wasm_magic_valid app_binary then Inl ERROR_BAD_FORMAT else Inr ()
      else Inr ())"

definition install_dev_key ::
  "('w, 'h) tee_api \<Rightarrow> bytes \<Rightarrow> teep_agent_hostcall_context \<Rightarrow> ('w, nat \<times> teep_agent_hostcall_context) ta" where
  "install_dev_key A dev_agent_public_key ctx =
     (if length dev_agent_public_key \<noteq> 0
      then teep_transient_object_write A (ascii ''teep-agent/dev-agent-public-key.cbor'') dev_agent_public_key ctx
      else State_Monad.return (0, ctx))"

text \<open>The part up to the label \<^verbatim>\<open>out\<close>.\<close>

definition run_loaded_agent ::
  "('w, 'h) tee_api \<Rightarrow> ('w, 'i) wamr \<Rightarrow> 'w platform \<Rightarrow> bytes \<Rightarrow> bytes \<Rightarrow> nat \<Rightarrow> teep_agent_hostcall_context \<Rightarrow> ('w, built) ta" where
  "run_loaded_agent A W E wasm input out_size ctx = do {
     ok \<leftarrow> register_natives W;
     if \<not> ok then State_Monad.return (None, Inl ERROR_GENERIC)
     else do {
       res \<leftarrow> load_agent A W wasm;
       case res of Inl e \<Rightarrow> State_Monad.return (None, Inl e)
       | Inr (using_live_module, module) \<Rightarrow> instantiate_agent A W E input using_live_module module out_size ctx } }"

definition execute_teep_agent_resolve ::
  "('w, 'h) tee_api \<Rightarrow> ('w, 'i) wamr \<Rightarrow> 'w platform \<Rightarrow> bytes \<Rightarrow> bytes \<Rightarrow> bytes \<Rightarrow> bytes \<Rightarrow> bytes \<Rightarrow> bytes \<Rightarrow>
   teep_agent_pending_hostcall \<Rightarrow> bytes \<Rightarrow> nat \<Rightarrow> ('w, built) ta" where
  "execute_teep_agent_resolve A W E request_id wasm input catalog app_binary dev_agent_public_key replay replay_payload out_size =
     (case parse_teep_resolve_input input of Inl e \<Rightarrow> State_Monad.return (None, Inl e)
      | Inr ri \<Rightarrow> do {
          res \<leftarrow> in_tee (twep_ta_verify_teep_agent_wasm_signature A (platform_ecdsa E) wasm);
          case res of Inl _ \<Rightarrow> State_Monad.return (None, Inl ERROR_SECURITY)
          | Inr _ \<Rightarrow> do {
              (st, ctx) \<leftarrow> install_dev_key A dev_agent_public_key
                (host_context request_id wasm input catalog app_binary (ri_resolver_mode ri) replay replay_payload);
              if st \<noteq> 0 then State_Monad.return (None, Inl (ERROR_OTHER st))
              else case supplied_files ri catalog app_binary of Inl e \<Rightarrow> State_Monad.return (None, Inl e)
              | Inr _ \<Rightarrow> do {
                  ok \<leftarrow> twep_ta_ensure_wamr_runtime W;
                  if \<not> ok then State_Monad.return (None, Inl ERROR_GENERIC)
                  else do {
                    res \<leftarrow> run_loaded_agent A W E wasm input out_size (ctx\<lparr>hc_command := ri_command ri\<rparr>);
                    _ \<leftarrow> modify_ta (\<lambda>t. if g_wamr_runtime_initialized t then twep_ta_wamr_cleanup_if_idle t else t);
                    State_Monad.return res } } } })"

section \<open>Resuming a request\<close>

text \<open>
  The application that the output of the agent authorises, with its limits: in the verified mode the
  installed one, whose digest must be the one in the output, otherwise the one the host supplied.
\<close>

definition authorised_app ::
  "('w, 'h) tee_api \<Rightarrow> bool \<Rightarrow> bytes \<Rightarrow> bytes \<Rightarrow> ('w, bytes \<times> production_resource_limits) tee" where
  "authorised_app A verified supplied output =
     (case parse_teep_resource_limits_output output production_resource_limits_default of Inl e \<Rightarrow> throw e
      | Inr (limits, authorized_app_digest, _) \<Rightarrow>
        if verified then
          bind_ok (twep_load_protected_app A) (\<lambda>(binary, protected_app_digest).
            if mem_compare authorized_app_digest protected_app_digest \<noteq> 0 then throw ERROR_SECURITY
            else success (binary, limits))
        else success (supplied, limits))"

text \<open>
  What becomes of the result of the run. The flag tells that the agent asked for another host
  operation, and the request stays pending.
\<close>

definition resume_output ::
  "('w, 'h) tee_api \<Rightarrow> ('w, 'i) wamr \<Rightarrow> pending_teep_live_state \<Rightarrow> nat \<Rightarrow> built \<Rightarrow> ('w, bool \<times> built) ta" where
  "resume_output A W live out_size result =
     (let response_len = (case fst result of None \<Rightarrow> 0 | Some n \<Rightarrow> n) in
      case snd result of Inl e \<Rightarrow> State_Monad.return (False, None, Inl e)
      | Inr teep_result \<Rightarrow>
        if teep_output_is_need_host_io teep_result then
          State_Monad.return (if response_len > out_size then (False, None, Inl ERROR_SHORT_BUFFER)
            else (True, Some response_len, Inr teep_result))
        else case parse_teep_error_output teep_result of
          Inr (teep_code, teep_message) \<Rightarrow> State_Monad.return (False,
            build_teep_error_execute_response (pl_request_id live) teep_code teep_message (pl_command live) out_size)
        | Inl _ \<Rightarrow> (case parse_teep_resolve_input (pl_input live) of
            Inl e \<Rightarrow> State_Monad.return (False, None, Inl e)
          | Inr ri \<Rightarrow>
            if \<not> bytes_view_eq (ri_command ri) (ascii ''resolve_app'')
            then State_Monad.return (False, build_final_response_wrapper (pl_request_id live) teep_result out_size)
            else do {
              app \<leftarrow> in_tee (authorised_app A (bytes_view_eq (ri_resolver_mode ri) (ascii ''attestam-verified''))
                       (pl_app_wasm live) teep_result);
              case app of Inl e \<Rightarrow> State_Monad.return (False, None, Inl e)
              | Inr (binary, limits) \<Rightarrow> do {
                  (_, res) \<leftarrow> execute_production_app_wasm W (pl_request_id live) (pl_command live)
                    (pl_app_input live) binary limits 4096;
                  State_Monad.return (False, case res of Inl e \<Rightarrow> (None, Inl e)
                    | Inr final_response \<Rightarrow>
                      build_final_response_wrapper (pl_request_id live) final_response out_size) } }))"

definition resume_run ::
  "('w, 'h) tee_api \<Rightarrow> ('w, 'i) wamr \<Rightarrow> 'w platform \<Rightarrow> pending_teep_live_state \<Rightarrow> bytes \<Rightarrow> nat \<Rightarrow> ('w, bool \<times> built) ta" where
  "resume_run A W E live host_io_result out_size =
     (case parse_host_io_result_payload host_io_result of Inl e \<Rightarrow> State_Monad.return (False, None, Inl e)
      | Inr (replay_kind, replay_payload) \<Rightarrow> do {
          res \<leftarrow> pending_teep_live_append_history A replay_kind replay_payload;
          case res of Inl e \<Rightarrow> State_Monad.return (False, None, Inl e)
          | Inr _ \<Rightarrow> do {
              result \<leftarrow> execute_teep_agent_resolve A W E (pl_request_id live) (pl_wasm live) (pl_input live)
                (pl_catalog live) (pl_app_wasm live) (pl_dev_agent_public_key live) TEEP_AGENT_PENDING_NONE []
                TEEP_AGENT_HOST_IO_RESPONSE_SIZE_MAX;
              resume_output A W live out_size result } })"

definition resume_pending_teep_live ::
  "('w, 'h) tee_api \<Rightarrow> ('w, 'i) wamr \<Rightarrow> 'w platform \<Rightarrow> bytes \<Rightarrow> bytes \<Rightarrow> nat \<Rightarrow> ('w, built) ta" where
  "resume_pending_teep_live A W E request_id host_io_result out_size = do {
     t \<leftarrow> get_ta;
     let live = g_pending_teep_live t;
     if \<not> pl_active live \<or> \<not> pending_request_matches t request_id \<or>
        length request_id \<noteq> length (pl_request_id live) \<or> mem_compare request_id (pl_request_id live) \<noteq> 0 \<or>
        \<not> host_io_result_ok (g_pending_host_io t) host_io_result
     then State_Monad.return (None, Inl ERROR_BAD_FORMAT)
     else do {
       ok \<leftarrow> in_tee (tee_malloc A TEEP_AGENT_HOST_IO_RESPONSE_SIZE_MAX);
       if \<not> ok then State_Monad.return (None, Inl ERROR_OUT_OF_MEMORY)
       else do {
         (suspended, res) \<leftarrow> resume_run A W E live host_io_result out_size;
         _ \<leftarrow> (if suspended then State_Monad.return () else modify_ta teep_agent_live_abort);
         State_Monad.return res } } }"

section \<open>At most one commit\<close>

text \<open>
  \<open>commit_effect\<close> relates the states before and after a computation during which storage changed at
  most by one commit call, which the transcript that was pending before authorised, and no new
  transcript has become pending. The relation is transitive.
\<close>

definition authorised_commit ::
  "('w, 'h) tee_api \<Rightarrow> ('w \<Rightarrow> store) \<Rightarrow> 'w \<times> ta_state \<Rightarrow> store \<Rightarrow> bool" where
  "authorised_commit A objs s S' \<longleftrightarrow> transcript_pending (snd s) \<and>
     (\<exists>ctx c s1 r s2. objs (fst s1) = objs (fst s) \<and> g_pending_host_io (snd s1) = g_pending_host_io (snd s) \<and>
        length (call_digest c) = 32 \<and> mem_compare (ph_request_body_sha256 (g_pending_host_io (snd s))) (call_digest c) = 0 \<and>
        run_state (run_call A ctx c) s1 = (r, s2) \<and> objs (fst s2) = S')"

definition commit_effect ::
  "('w, 'h) tee_api \<Rightarrow> ('w \<Rightarrow> store) \<Rightarrow> 'w \<times> ta_state \<Rightarrow> 'w \<times> ta_state \<Rightarrow> bool" where
  "commit_effect A objs s s' \<longleftrightarrow>
     objs (fst s') = objs (fst s) \<and>
       (transcript_pending (snd s') \<longrightarrow> g_pending_host_io (snd s') = g_pending_host_io (snd s)) \<or>
     authorised_commit A objs s (objs (fst s')) \<and> \<not> transcript_pending (snd s')"

lemma transcript_pending_cong: "g_pending_host_io t' = g_pending_host_io t \<Longrightarrow> transcript_pending t' = transcript_pending t"
  by (simp add: transcript_pending_def)

lemma commit_effect_trans:
  assumes "commit_effect A objs s s1" and "commit_effect A objs s1 s2"
  shows "commit_effect A objs s s2"
proof -
  have same: "authorised_commit A objs s S = authorised_commit A objs s1 S"
    if "objs (fst s1) = objs (fst s)" "g_pending_host_io (snd s1) = g_pending_host_io (snd s)" for S
    using that transcript_pending_cong [OF that(2)] by (simp add: authorised_commit_def)
  have pend: "authorised_commit A objs s1 S \<Longrightarrow> transcript_pending (snd s1)" for S
    by (simp add: authorised_commit_def)
  show ?thesis
    using assms same pend transcript_pending_cong [of "snd s2" "snd s1"] unfolding commit_effect_def by auto
qed

definition at_most_one :: "('w, 'h) tee_api \<Rightarrow> ('w \<Rightarrow> store) \<Rightarrow> ('w, 'a) ta \<Rightarrow> bool" where
  "at_most_one A objs m \<longleftrightarrow> (\<forall>s r s'. run_state m s = (r, s') \<longrightarrow> commit_effect A objs s s')"

text \<open>\<open>reads\<close>: neither storage nor the pending operation changes. \<open>quiet\<close>: storage does not change.\<close>

definition reads :: "('w \<Rightarrow> store) \<Rightarrow> ('w, 'a) ta \<Rightarrow> bool" where
  "reads objs m \<longleftrightarrow> (\<forall>s r s'. run_state m s = (r, s') \<longrightarrow> objs (fst s') = objs (fst s) \<and>
     g_pending_host_io (snd s') = g_pending_host_io (snd s))"

definition quiet :: "('w \<Rightarrow> store) \<Rightarrow> ('w, 'a) ta \<Rightarrow> bool" where
  "quiet objs m \<longleftrightarrow> (\<forall>s r s'. run_state m s = (r, s') \<longrightarrow> objs (fst s') = objs (fst s))"

text \<open>\<open>one_commit\<close>: at most one commit, and after it only computations that leave storage alone.\<close>

definition one_commit :: "('w, 'h) tee_api \<Rightarrow> ('w \<Rightarrow> store) \<Rightarrow> ('w, 'a) ta \<Rightarrow> bool" where
  "one_commit A objs m \<longleftrightarrow> (\<forall>s r s'. run_state m s = (r, s') \<longrightarrow>
     (\<exists>s1. commit_effect A objs s s1 \<and> objs (fst s') = objs (fst s1)))"

named_theorems effect_rules \<open>rules for the effects of computations on storage\<close>

lemma run_bindE:
  assumes "run_state (State_Monad.bind m f) s = (r, s')"
  obtains x s1 where "run_state m s = (x, s1)" "run_state (f x) s1 = (r, s')"
  using assms by (cases "run_state m s") auto

lemma reads_imp: "reads objs m \<Longrightarrow> at_most_one A objs m" "reads objs m \<Longrightarrow> quiet objs m"
  by (fastforce simp: reads_def at_most_one_def commit_effect_def quiet_def)+

lemma one_commit_imp: "at_most_one A objs m \<Longrightarrow> one_commit A objs m" "quiet objs m \<Longrightarrow> one_commit A objs m"
  by (fastforce simp: one_commit_def at_most_one_def quiet_def commit_effect_def)+

lemma silent_reads: "silent objs m \<Longrightarrow> reads objs m"
  by (fastforce simp: silent_def reads_def same_vars_def)

lemma effect_bind [effect_rules]:
  "reads objs m \<Longrightarrow> (\<And>x. reads objs (f x)) \<Longrightarrow> reads objs (State_Monad.bind m f)"
  "quiet objs m \<Longrightarrow> (\<And>x. quiet objs (f x)) \<Longrightarrow> quiet objs (State_Monad.bind m f)"
  "at_most_one A objs m \<Longrightarrow> (\<And>x. at_most_one A objs (f x)) \<Longrightarrow> at_most_one A objs (State_Monad.bind m f)"
  "at_most_one A objs m \<Longrightarrow> (\<And>x. one_commit A objs (f x)) \<Longrightarrow> one_commit A objs (State_Monad.bind m f)"
proof -
  show "reads objs m \<Longrightarrow> (\<And>x. reads objs (f x)) \<Longrightarrow> reads objs (State_Monad.bind m f)"
    unfolding reads_def by (metis run_bindE)
  show "quiet objs m \<Longrightarrow> (\<And>x. quiet objs (f x)) \<Longrightarrow> quiet objs (State_Monad.bind m f)"
    unfolding quiet_def by (metis run_bindE)
  show "at_most_one A objs m \<Longrightarrow> (\<And>x. at_most_one A objs (f x)) \<Longrightarrow> at_most_one A objs (State_Monad.bind m f)"
    unfolding at_most_one_def by (meson commit_effect_trans run_bindE)
  show "at_most_one A objs m \<Longrightarrow> (\<And>x. one_commit A objs (f x)) \<Longrightarrow> one_commit A objs (State_Monad.bind m f)"
    unfolding at_most_one_def one_commit_def by (meson commit_effect_trans run_bindE)
qed

lemma one_commit_then:
  "one_commit A objs m \<Longrightarrow> (\<And>x. quiet objs (f x)) \<Longrightarrow> one_commit A objs (State_Monad.bind m f)"
  unfolding one_commit_def quiet_def by (metis run_bindE)

lemma reads_base [effect_rules]:
  "reads objs (State_Monad.return x)" "reads objs get_ta" "keeps objs k \<Longrightarrow> reads objs (in_tee k)"
  "(\<And>t. g_pending_host_io (h t) = g_pending_host_io t) \<Longrightarrow> reads objs (modify_ta h)"
  by (auto simp: reads_def keeps_def)

lemma quiet_base [effect_rules]:
  "quiet objs (State_Monad.return x)" "quiet objs get_ta" "keeps objs k \<Longrightarrow> quiet objs (in_tee k)" "quiet objs (modify_ta h)"
  by (auto simp: quiet_def keeps_def)

lemma effect_return [effect_rules]: "at_most_one A objs (State_Monad.return x)" "one_commit A objs (State_Monad.return x)"
  by (intro one_commit_imp reads_imp reads_base)+

lemma effect_cases:
  "P m \<Longrightarrow> P m' \<Longrightarrow> P (if b then m else m')"
  "P m \<Longrightarrow> (\<And>x. P (g x)) \<Longrightarrow> P (case z of None \<Rightarrow> m | Some x \<Rightarrow> g x)"
  "(\<And>x y. P (h x y)) \<Longrightarrow> P (case p of (x, y) \<Rightarrow> h x y)"
  "(\<And>x y. P (h' x y z')) \<Longrightarrow> P ((case p of (x, y) \<Rightarrow> h' x y) z')"
  "(\<And>e. P (k e)) \<Longrightarrow> (\<And>x. P (g' x)) \<Longrightarrow> P (case q of Inl e \<Rightarrow> k e | Inr x \<Rightarrow> g' x)"
  by (simp_all split: option.split prod.split sum.split)

lemmas reads_cases [effect_rules] = effect_cases [where P = "reads objs" for objs]
lemmas quiet_cases [effect_rules] = effect_cases [where P = "quiet objs" for objs]
lemmas at_most_one_cases [effect_rules] = effect_cases [where P = "at_most_one A objs" for A objs]
lemmas one_commit_cases [effect_rules] = effect_cases [where P = "one_commit A objs" for A objs]

section \<open>Functions that leave storage alone\<close>

lemma keeps_hoare: "(\<And>S. hoare (\<lambda>w. objs w = S) m (\<lambda>_ w. objs w = S)) \<Longrightarrow> keeps objs m"
  by (auto simp: keeps_def hoare_def)

lemma keeps_objs_bind: "keeps objs m \<Longrightarrow> (\<And>x. keeps objs (f x)) \<Longrightarrow> keeps objs (State_Monad.bind m f)"
  by (simp add: keeps_def split_beta)

lemma keeps_objs_return: "keeps objs (State_Monad.return x)"
  by (simp add: keeps_def)

lemma keeps_tee:
  assumes "storage_laws A objs hobj sha"
  shows "keeps objs (tee_malloc A n)" "keeps objs (twep_ta_sha256_bytes A bs)" "keeps objs (twep_acceptance_generation A)"
    "keeps objs (twep_catalog_read_active A buf cap)" "keeps objs (twep_app_read_active A buf cap)"
    "keeps objs (teep_read_persistent_object A nm cap)"
proof -
  show "keeps objs (tee_malloc A n)" using law_malloc [OF assms] by (auto simp: keeps_def hoare_def)
  show "keeps objs (twep_ta_sha256_bytes A bs)"
    by (rule keeps_hoare, rule hoare_post [OF sha256_bytes_law [OF assms]]) simp
  show "keeps objs (twep_acceptance_generation A)" by (rule keeps_hoare) (rule hoare_queries(2) [OF assms])
  show "keeps objs (twep_catalog_read_active A buf cap)"
    unfolding twep_catalog_read_active_def
    by (intro keeps_objs_bind keeps_objs_return keeps_hoare load_active_catalog_law [OF assms])
  show "keeps objs (twep_app_read_active A buf cap)"
    unfolding twep_app_read_active_def
    by (intro keeps_objs_bind keeps_objs_return keeps_hoare load_active_app_law [OF assms])
  show "keeps objs (teep_read_persistent_object A nm cap)"
    by (rule keeps_hoare, rule hoare_post [OF hoare_read_persistent [OF assms]]) simp
qed

lemma keeps_objs_cases:
  "keeps objs m \<Longrightarrow> keeps objs m' \<Longrightarrow> keeps objs (if b then m else m')"
  "(\<And>x y. keeps objs (h x y)) \<Longrightarrow> keeps objs (case p of (x, y) \<Rightarrow> h x y)"
  "(\<And>e. keeps objs (k e)) \<Longrightarrow> (\<And>x. keeps objs (g x)) \<Longrightarrow> keeps objs (case q of Inl e \<Rightarrow> k e | Inr x \<Rightarrow> g x)"
  "keeps objs m \<Longrightarrow> (\<And>x. keeps objs (g' x)) \<Longrightarrow> keeps objs (case z of None \<Rightarrow> m | Some x \<Rightarrow> g' x)"
  by (simp_all split: prod.split sum.split option.split)

lemmas keeps_objs_rules = keeps_objs_bind keeps_objs_return keeps_objs_cases

lemma keeps_agent:
  assumes "storage_laws A objs hobj sha"
  shows "keeps objs (twep_load_protected_app A)" and "keeps objs (authorised_app A v supplied output)"
    and "(\<And>x y d sg. keeps objs (ecdsa x y d sg)) \<Longrightarrow> keeps objs (twep_ta_verify_teep_agent_wasm_signature A ecdsa wasm)"
proof -
  show app: "keeps objs (twep_load_protected_app A)"
    unfolding twep_load_protected_app_def Let_def by (intro keeps_objs_rules keeps_tee [OF assms])
  show "keeps objs (authorised_app A v supplied output)"
    unfolding authorised_app_def bind_or_def by (intro keeps_objs_rules app)
  show "(\<And>x y d sg. keeps objs (ecdsa x y d sg)) \<Longrightarrow> keeps objs (twep_ta_verify_teep_agent_wasm_signature A ecdsa wasm)"
    unfolding twep_ta_verify_teep_agent_wasm_signature_def bind_or_def by (intro keeps_objs_rules keeps_tee [OF assms])
qed

lemma reads_host_calls:
  assumes laws: "storage_laws A objs hobj sha" and rt: "runtime_laws objs W E"
  shows "reads objs (teep_host_read_file A path cap ctx)" "reads objs (teep_transient_object_write A path data ctx)"
    "reads objs (teep_host_write_file A path data ctx)" "reads objs (teep_host_read_protected A nm cap ctx)"
    "reads objs (teep_host_http_post url body cap ctx)" "reads objs (teep_host_create_evidence ch key cap ctx)"
    "reads objs (teep_host_teep_agent_measurement_sha256 A cap ctx)" "reads objs (teep_host_acceptance_generation A)"
    "reads objs (teep_host_random (platform_random E) n)" "reads objs (teep_host_unix_time_ms (platform_time E))"
    "reads objs (pending_teep_live_append_history A kind payload)"
proof -
  note keep = keeps_tee [OF laws] runtime_keeps [OF rt]
  show wr: "reads objs (teep_transient_object_write A path data ctx)" for path data ctx
    unfolding teep_transient_object_write_def by (intro effect_rules keep)
  show "reads objs (teep_host_write_file A path data ctx)"
    unfolding teep_host_write_file_def by (intro effect_rules wr)
  show "reads objs (teep_host_read_file A path cap ctx)" "reads objs (teep_host_read_protected A nm cap ctx)"
    "reads objs (teep_host_http_post url body cap ctx)" "reads objs (teep_host_create_evidence ch key cap ctx)"
    "reads objs (teep_host_teep_agent_measurement_sha256 A cap ctx)" "reads objs (teep_host_acceptance_generation A)"
    "reads objs (teep_host_random (platform_random E) n)" "reads objs (teep_host_unix_time_ms (platform_time E))"
    "reads objs (pending_teep_live_append_history A kind payload)"
    unfolding teep_host_read_file_def teep_host_read_protected_def teep_host_http_post_def teep_host_create_evidence_def
      teep_host_teep_agent_measurement_sha256_def teep_host_acceptance_generation_def teep_host_random_def
      teep_host_unix_time_ms_def pending_teep_live_append_history_def Let_def
    by (intro effect_rules keep; simp)+
qed

lemma at_most_one_commit_call:
  assumes "storage_laws A objs hobj sha"
  shows "at_most_one A objs (run_call A ctx c)"
  unfolding at_most_one_def
proof (intro allI impI)
  fix s r s' assume run: "run_state (run_call A ctx c) s = (r, s')"
  obtain w t w' t' where s: "s = (w, t)" "s' = (w', t')" by (metis surj_pair)
  have "authorised_commit A objs s (objs w')"
    if "transcript_pending t" "length (call_digest c) = 32"
      "mem_compare (ph_request_body_sha256 (g_pending_host_io t)) (call_digest c) = 0"
    unfolding authorised_commit_def
    by (intro conjI exI [of _ ctx] exI [of _ c] exI [of _ s] exI [of _ r] exI [of _ s']) (use that run in \<open>simp_all add: s\<close>)
  with commit_call_effect [OF assms run [unfolded s]] show "commit_effect A objs s s'"
    by (auto simp: commit_effect_def s)
qed

lemma at_most_one_host_call:
  assumes laws: "storage_laws A objs hobj sha" and rt: "runtime_laws objs W E"
  shows "at_most_one A objs (run_host_call A E c ctx)"
proof (cases c)
  case (Host_Commit c')
  show ?thesis unfolding Host_Commit run_host_call.simps
    by (intro effect_rules at_most_one_commit_call [OF laws])
qed (simp_all only: run_host_call.simps; intro reads_imp effect_rules reads_host_calls [OF laws rt])+

lemma at_most_one_module:
  assumes laws: "storage_laws A objs hobj sha" and rt: "runtime_laws objs W E"
  shows "at_most_one A objs (run_module A E m ctx)"
proof (induction m arbitrary: ctx)
  case (Call c k)
  then have "at_most_one A objs (run_module A E (k a) ctx)" for a ctx by simp
  then show ?case by (simp only: run_module.simps) (intro effect_rules at_most_one_host_call [OF laws rt])
qed (simp only: run_module.simps, intro effect_rules)

lemma quiet_requests:
  assumes "storage_laws A objs hobj sha"
  shows "quiet objs (save_pending_host_io_request A i c inp io kind body)"
    and "quiet objs (build_need_host_io_response A i c inp io url body n)"
    and "quiet objs (build_need_evidence_response_with_payload A i c inp ch key n)"
    and "quiet objs (pending_teep_live_save A i c wasm inp ai cat aw key)"
    and "quiet objs (suspend_agent A live module ctx n)"
proof -
  show save: "quiet objs (save_pending_host_io_request A i c inp io kind body)" for i c inp io kind body
    unfolding save_pending_host_io_request_def Let_def by (intro effect_rules keeps_tee [OF assms])
  have host_io: "quiet objs (build_need_host_io_response A i c inp io url body n)" for i c inp io url body
    unfolding build_need_host_io_response_def Let_def by (intro effect_rules save)
  have evidence: "quiet objs (build_need_evidence_response_with_payload A i c inp ch key n)" for i c inp ch key
    unfolding build_need_evidence_response_with_payload_def Let_def by (intro effect_rules save)
  show "quiet objs (build_need_host_io_response A i c inp io url body n)"
    "quiet objs (build_need_evidence_response_with_payload A i c inp ch key n)" by (rule host_io evidence)+
  have copy: "quiet objs (copy_view_alloc A v out)" for v out
    unfolding copy_view_alloc_def by (intro effect_rules keeps_tee [OF assms])
  have copies: "quiet objs m \<Longrightarrow> quiet objs k \<Longrightarrow> quiet objs (then_copy m k)" for m k
    unfolding then_copy_def by (intro effect_rules)
  show "quiet objs (pending_teep_live_save A i c wasm inp ai cat aw key)"
    unfolding pending_teep_live_save_def by (intro effect_rules copy copies)
  have "quiet objs (teep_agent_pending_to_need_host_io A ctx n)"
    unfolding teep_agent_pending_to_need_host_io_def
    using host_io evidence by (auto intro: quiet_base split: option.split teep_agent_pending_hostcall.split)
  then show "quiet objs (suspend_agent A live module ctx n)"
    unfolding suspend_agent_def by (intro effect_rules)
qed

lemma one_commit_agent:
  assumes laws: "storage_laws A objs hobj sha" and rt: "runtime_laws objs W E"
  shows "one_commit A objs (execute_teep_agent_resolve A W E request_id wasm input catalog app_binary key replay payload n)"
proof -
  note mods = at_most_one_module [OF laws rt]
  note keep = keeps_tee [OF laws] runtime_keeps [OF rt] keeps_agent [OF laws]
  note amo = reads_imp(1) [OF silent_reads [OF silent_app(1) [OF rt]]] reads_imp(1) [OF reads_base(2)]
    reads_imp(1) [OF reads_base(3)]
  have main: "one_commit A objs (call_agent_main A W E input live module n i ctx)" for live module i ctx
    unfolding call_agent_main_def Let_def
    by (intro effect_rules mods amo one_commit_imp(2) [OF quiet_requests(5) [OF laws]])
  have inst: "one_commit A objs (instantiate_agent A W E input live module n ctx)" for live module ctx
    unfolding instantiate_agent_def by (intro effect_rules amo keep main)
  have "reads objs (register_natives W)"
    unfolding register_natives_def by (intro effect_rules keep) simp
  moreover have "reads objs (load_agent A W wasm)"
    unfolding load_agent_def Let_def by (auto intro!: effect_rules keep split: bool.split option.split)
  ultimately have run: "one_commit A objs (run_loaded_agent A W E wasm input n ctx)" for ctx
    unfolding run_loaded_agent_def by (intro effect_rules inst reads_imp(1))
  have key: "reads objs (install_dev_key A key ctx)" for ctx
    unfolding install_dev_key_def by (intro effect_rules reads_host_calls [OF laws rt])
  have fin: "one_commit A objs (do {
      res \<leftarrow> run_loaded_agent A W E wasm input n ctx;
      _ \<leftarrow> modify_ta h; State_Monad.return res })" for ctx h
    by (rule one_commit_then [OF run]) (intro effect_rules)
  show ?thesis
    unfolding execute_teep_agent_resolve_def
    by (intro effect_rules fin amo keep reads_imp(1) [OF key])
qed

lemma one_commit_resume:
  assumes laws: "storage_laws A objs hobj sha" and rt: "runtime_laws objs W E"
  shows "one_commit A objs (resume_pending_teep_live A W E request_id result n)"
proof -
  note app = reads_imp(2) [OF silent_reads [OF silent_app(2) [OF rt]]]
  have out: "quiet objs (resume_output A W live n result)" for live result
    unfolding resume_output_def Let_def by (intro effect_rules app keeps_agent [OF laws])
  have agent: "one_commit A objs (do { result \<leftarrow> execute_teep_agent_resolve A W E i wasm inp cat aw key k p m;
      resume_output A W live n result })" for i wasm inp cat aw key k p m live
    by (rule one_commit_then [OF one_commit_agent [OF laws rt] out])
  have run: "one_commit A objs (resume_run A W E live result n)" for live
    unfolding resume_run_def
    by (rule one_commit_cases(5) [OF effect_return(2)], rule one_commit_cases(3),
        rule effect_bind(4) [OF reads_imp(1) [OF reads_host_calls(11) [OF laws rt]]],
        rule one_commit_cases(5) [OF effect_return(2) agent])
  have fin: "one_commit A objs (do {
      (suspended, res) \<leftarrow> resume_run A W E live result n;
      _ \<leftarrow> (if suspended then State_Monad.return () else modify_ta teep_agent_live_abort);
      State_Monad.return res })" for live
    by (rule one_commit_then [OF run]) (intro effect_rules)
  show ?thesis
    unfolding resume_pending_teep_live_def Let_def
    by (intro effect_rules fin reads_imp(1) [OF reads_base(2)] reads_imp(1) [OF reads_base(3)] keeps_tee [OF laws])
qed

text \<open>What one commit means for storage.\<close>

lemma one_commit_storage:
  assumes "one_commit A objs m" and "run_state m (w, t) = (r, (w', t'))"
  shows "objs w' = objs w \<or> authorised_commit A objs (w, t) (objs w')"
  using assms unfolding one_commit_def commit_effect_def by fastforce

end
