(* ===== verification/Production_Runtime.thy ===== *)
theory Production_Runtime
  imports Agent_Runtime
begin

text \<open>
  The commands of the trusted application and its sessions
  (\<^verbatim>\<open>optee/twep-wr-ta/ta/ta_production_runtime.c\<close>, \<^verbatim>\<open>ta_command_router.c\<close>, \<^verbatim>\<open>twep_wr_ta.c\<close>). A command
  carries an envelope; the handler of the production commands initialises the session, executes a
  command with the agent and an application, or resumes a request with the result of a host operation.
  The router selects the handler of a command by its number, for the current session. What a failed
  command leaves in its output buffer is not modelled, nor are the commands of the test build.
\<close>

section \<open>The production commands\<close>

definition production_skeleton_response :: bytes where
  "production_skeleton_response = [0xa2, 0x66] @ ascii ''status'' @ [0x6b] @ ascii ''unsupported'' @ [0x66] @
     ascii ''detail'' @ [0x78, 0x1e] @ ascii ''ta-production-runtime-skeleton''"

text \<open>\<^verbatim>\<open>params[1].memref.size = response_len;\<close> where \<open>response_len\<close> is 0 unless it was stored.\<close>

definition respond :: "tee_param list \<Rightarrow> bytes option \<Rightarrow> built \<Rightarrow> (tee_error + unit) \<times> tee_param list" where
  "respond ps out b =
     (let response_len = (case fst b of None \<Rightarrow> 0 | Some n \<Rightarrow> n) in
      case snd b of Inl e \<Rightarrow> (Inl e, ps[1 := MEMREF_OUTPUT response_len out])
      | Inr bs \<Rightarrow> (Inr (), ps[1 := MEMREF_OUTPUT response_len (Some bs)]))"

definition set_timeouts :: "twep_ta_production_envelope_kind \<Rightarrow> production_envelope_seen \<Rightarrow> ta_state \<Rightarrow> ta_state" where
  "set_timeouts kind s t =
     (case kind of
        TWEP_TA_ENVELOPE_INIT \<Rightarrow> t\<lparr>g_session := (g_session t)\<lparr>
          default_timeout_ms := (if default_timeout_ms_value s \<noteq> 0 then default_timeout_ms_value s
             else PRODUCTION_DEFAULT_TIMEOUT_MS), request_timeout_ms := 0\<rparr>\<rparr>
      | TWEP_TA_ENVELOPE_EXECUTE \<Rightarrow> t\<lparr>g_session := (g_session t)\<lparr>request_timeout_ms := request_timeout_ms_value s\<rparr>\<rparr>
      | TWEP_TA_ENVELOPE_RESUME_HOST_IO \<Rightarrow> t)"

text \<open>The commands that only ask for a host operation: their identifiers, addresses and bodies.\<close>

definition probe_request :: "production_envelope_seen \<Rightarrow> (bytes \<times> bytes \<times> bytes) option" where
  "probe_request s =
     (if bytes_view_eq (command_view s) (ascii ''teep-agent-host-io'') then
        Some (ascii ''io-1'', ascii ''https://ta.example.invalid/teep'', [0xa1, 0x66] @ ascii ''probe'' @ [0x01])
      else if bytes_view_eq (command_view s) (ascii ''teep-agent-transcript-limit'') then
        Some (ascii ''teep-http-limit-1'', ascii ''https://ta.example.invalid/transcript-limit'', app_input_view s)
      else if bytes_view_eq (command_view s) (ascii ''teep-agent-hostcall-http'') then
        Some (ascii ''teep-http-1'', ascii ''https://ta.example.invalid/tam'',
          [0xa2, 0x64] @ ascii ''teep'' @ [0x6e] @ ascii ''query-response'' @ [0x67] @ ascii ''purpose'' @ [0x77] @
          ascii ''teep-agent-hostcall-smoke'')
      else None)"

text \<open>
  The commands that return what the agent says. In the wrapped form an error of the agent becomes an
  error response; the test for a host operation then still looks at the agent's output, at the length
  of the new response, in a buffer that was filled with zeros.
\<close>

definition resolve_command ::
  "('w, 'h) tee_api \<Rightarrow> ('w, 'i) wamr \<Rightarrow> 'w platform \<Rightarrow> bool \<Rightarrow> production_envelope_seen \<Rightarrow> nat \<Rightarrow> ('w, tee_error + built) ta" where
  "resolve_command A W E wrapped s out_size = do {
     ok \<leftarrow> in_tee (tee_malloc A TEEP_AGENT_HOST_IO_RESPONSE_SIZE_MAX);
     if \<not> ok then State_Monad.return (Inl ERROR_OUT_OF_MEMORY)
     else do {
       (len, res) \<leftarrow> execute_teep_agent_resolve A W E (request_id_view s) (wasm_view s) (app_input_view s)
         (catalog_view s) (app_wasm_view s) (dev_agent_public_key_view s) TEEP_AGENT_PENDING_NONE []
         (if wrapped then TEEP_AGENT_HOST_IO_RESPONSE_SIZE_MAX else out_size);
       let (len, res', seen_output) = (case res of
           Inl e \<Rightarrow> (len, Inl e, [])
         | Inr output \<Rightarrow>
           if \<not> wrapped then (len, Inr output, output)
           else case parse_teep_error_output output of
             Inr (code, message) \<Rightarrow>
               (let (n, b) = build_teep_error_execute_response (request_id_view s) code message (command_view s) out_size;
                    k = (case n of None \<Rightarrow> 0 | Some k \<Rightarrow> k) in
                (n, b, take k (output @ replicate k 0)))
           | Inl _ \<Rightarrow> (len, if (case len of None \<Rightarrow> 0 | Some n \<Rightarrow> n) \<le> out_size then Inr output
                       else Inl ERROR_SHORT_BUFFER, output));
       case res' of
         Inl e \<Rightarrow> do { _ \<leftarrow> modify_ta teep_agent_live_abort; State_Monad.return (Inr (len, Inl e)) }
       | Inr bs \<Rightarrow>
         if teep_output_is_need_host_io seen_output then do {
           sav \<leftarrow> pending_teep_live_save A (request_id_view s) (command_view s) (wasm_view s) (app_input_view s)
             (app_input_view s) (catalog_view s) (app_wasm_view s) (dev_agent_public_key_view s);
           case sav of
             Inl e \<Rightarrow> do { _ \<leftarrow> modify_ta teep_agent_live_abort; State_Monad.return (Inl e) }
           | Inr _ \<Rightarrow> State_Monad.return (Inr (len, Inr bs)) }
         else State_Monad.return (Inr (len, Inr bs)) } }"

text \<open>
  The resolution of an application before it is executed: the agent suspends the request, or reports an
  error, or authorises an application. The result is an error, a response that is final for now, or
  the application with its limits.
\<close>

datatype resolved = Refused tee_error | Answered built | Authorised bytes production_resource_limits

definition resolve_output ::
  "('w, 'h) tee_api \<Rightarrow> production_envelope_seen \<Rightarrow> bytes \<Rightarrow> nat \<Rightarrow> built \<Rightarrow> ('w, resolved) ta" where
  "resolve_output A s resolve_input out_size result =
     (let response_len = (case fst result of None \<Rightarrow> 0 | Some n \<Rightarrow> n) in
      case snd result of
        Inl e \<Rightarrow> do { _ \<leftarrow> modify_ta teep_agent_live_abort; State_Monad.return (Refused e) }
      | Inr teep_result \<Rightarrow>
        if teep_output_is_need_host_io teep_result then do {
          sav \<leftarrow> pending_teep_live_save A (request_id_view s) (command_view s) (wasm_view s) resolve_input
            (app_input_view s) (catalog_view s) (app_wasm_view s) (dev_agent_public_key_view s);
          case sav of
            Inl e \<Rightarrow> do { _ \<leftarrow> modify_ta teep_agent_live_abort; State_Monad.return (Refused e) }
          | Inr _ \<Rightarrow>
            if response_len > out_size
            then do { _ \<leftarrow> modify_ta teep_agent_live_abort; State_Monad.return (Refused ERROR_SHORT_BUFFER) }
            else State_Monad.return (Answered (Some response_len, Inr teep_result)) }
        else case parse_teep_error_output teep_result of
          Inr (teep_code, teep_message) \<Rightarrow> State_Monad.return (Answered
            (build_teep_error_execute_response (request_id_view s) teep_code teep_message (command_view s) out_size))
        | Inl _ \<Rightarrow> do {
            app \<leftarrow> in_tee (authorised_app A (bytes_view_eq (resolver_mode_view s) (ascii ''attestam-verified''))
                     (app_wasm_view s) teep_result);
            State_Monad.return (case app of Inl e \<Rightarrow> Refused e | Inr (binary, limits) \<Rightarrow> Authorised binary limits) })"

definition resolve_application ::
  "('w, 'h) tee_api \<Rightarrow> ('w, 'i) wamr \<Rightarrow> 'w platform \<Rightarrow> production_envelope_seen \<Rightarrow> nat \<Rightarrow> ('w, resolved) ta" where
  "resolve_application A W E s out_size =
     (if bytes_view_eq (resolver_mode_view s) (ascii ''attestam-verified'') \<or>
         length (catalog_view s) \<noteq> 0 \<and> length (app_wasm_view s) \<noteq> 0
      then do {
        ok \<leftarrow> in_tee (tee_malloc A TEEP_AGENT_HOST_IO_RESPONSE_SIZE_MAX);
        if \<not> ok then State_Monad.return (Refused ERROR_OUT_OF_MEMORY)
        else case build_teep_resolve_input_for_command (command_view s) (resolver_mode_view s) (attestam_url_view s) 256 of
          Inl e \<Rightarrow> State_Monad.return (Refused e)
        | Inr resolve_input \<Rightarrow> do {
            result \<leftarrow> execute_teep_agent_resolve A W E (request_id_view s) (wasm_view s) resolve_input
              (catalog_view s) (app_wasm_view s) (dev_agent_public_key_view s) TEEP_AGENT_PENDING_NONE []
              TEEP_AGENT_HOST_IO_RESPONSE_SIZE_MAX;
            resolve_output A s resolve_input out_size result } }
      else State_Monad.return (Authorised (wasm_view s) production_resource_limits_default))"

definition app_commands :: "bytes list" where
  "app_commands = [ascii ''helloworld'', ascii ''remotehello'', ascii ''calcadd'', ascii ''negaposi'']"

definition execute_command ::
  "('w, 'h) tee_api \<Rightarrow> ('w, 'i) wamr \<Rightarrow> 'w platform \<Rightarrow> production_envelope_seen \<Rightarrow> nat \<Rightarrow> ('w, tee_error + built) ta" where
  "execute_command A W E s out_size =
     (if bytes_view_eq (command_view s) (ascii ''teep-agent-resolve'') \<or>
         bytes_view_eq (command_view s) (ascii ''teep-agent-resolve-wrapped'')
      then resolve_command A W E (bytes_view_eq (command_view s) (ascii ''teep-agent-resolve-wrapped'')) s out_size
      else if \<not> list_ex (bytes_view_eq (command_view s)) app_commands then State_Monad.return (Inl ERROR_NOT_SUPPORTED)
      else do {
        r \<leftarrow> resolve_application A W E s out_size;
        case r of
          Refused e \<Rightarrow> State_Monad.return (Inl e)
        | Answered b \<Rightarrow> State_Monad.return (Inr b)
        | Authorised binary limits \<Rightarrow> do {
            b \<leftarrow> execute_production_app_wasm W (request_id_view s) (command_view s) (app_input_view s) binary limits out_size;
            State_Monad.return (Inr b) } })"

definition handle_envelope ::
  "('w, 'h) tee_api \<Rightarrow> ('w, 'i) wamr \<Rightarrow> 'w platform \<Rightarrow> twep_ta_production_envelope_kind \<Rightarrow> production_envelope_seen \<Rightarrow>
   nat \<Rightarrow> ('w, tee_error + built) ta" where
  "handle_envelope A W E kind s out_size = do {
     _ \<leftarrow> modify_ta (set_timeouts kind s);
     t \<leftarrow> get_ta;
     case kind of
       TWEP_TA_ENVELOPE_INIT \<Rightarrow> State_Monad.return (Inr (Some (length production_skeleton_response), Inr production_skeleton_response))
     | TWEP_TA_ENVELOPE_RESUME_HOST_IO \<Rightarrow> do {
         b \<leftarrow> (if pl_active (g_pending_teep_live t)
              then resume_pending_teep_live A W E (request_id_view s) (host_io_result_view s) out_size
              else build_resume_final_response (request_id_view s) (host_io_result_view s) out_size);
         State_Monad.return (Inr b) }
     | TWEP_TA_ENVELOPE_EXECUTE \<Rightarrow>
       (case probe_request s of
          Some (io_id, url, body) \<Rightarrow> do {
            b \<leftarrow> build_need_host_io_response A (request_id_view s) (command_view s) (app_input_view s) io_id url body out_size;
            State_Monad.return (Inr b) }
        | None \<Rightarrow>
          if bytes_view_eq (command_view s) (ascii ''teep-agent-hostcall-evidence'') then do {
            b \<leftarrow> build_need_evidence_response A (request_id_view s) (command_view s) (app_input_view s) out_size;
            State_Monad.return (Inr b) }
          else if length (wasm_view s) \<noteq> 0 then execute_command A W E s out_size
          else State_Monad.return (Inr (Some (length production_skeleton_response), Inr production_skeleton_response))) }"

definition twep_ta_cmd_production_envelope ::
  "('w, 'h) tee_api \<Rightarrow> ('w, 'i) wamr \<Rightarrow> 'w platform \<Rightarrow> twep_ta_production_envelope_kind \<Rightarrow> ('w \<times> ta_state) handler" where
  "twep_ta_cmd_production_envelope A W E kind ps =
     (case input_output ps of
        None \<Rightarrow> refuse ERROR_BAD_PARAMETERS ps
      | Some (buf, cap, out) \<Rightarrow>
        if length buf = 0 then refuse ERROR_BAD_PARAMETERS ps
        else if cap < length production_skeleton_response
        then refuse ERROR_SHORT_BUFFER (ps[1 := MEMREF_OUTPUT (length production_skeleton_response) out])
        else case parse_production_envelope buf kind of Inl e \<Rightarrow> refuse e ps
        | Inr s \<Rightarrow> do {
            r \<leftarrow> handle_envelope A W E kind s cap;
            State_Monad.return (case r of Inl e \<Rightarrow> (Inl e, ps) | Inr b \<Rightarrow> respond ps out b) })"

section \<open>The router\<close>

definition TA_TWEP_WR_CMD_PING :: u32 where "TA_TWEP_WR_CMD_PING = 0"
definition TA_TWEP_WR_CMD_GET_PLATFORM_STATUS :: u32 where "TA_TWEP_WR_CMD_GET_PLATFORM_STATUS = 1"
definition TA_TWEP_WR_CMD_SECURE_STORAGE_PUT :: u32 where "TA_TWEP_WR_CMD_SECURE_STORAGE_PUT = 2"
definition TA_TWEP_WR_CMD_SECURE_STORAGE_GET :: u32 where "TA_TWEP_WR_CMD_SECURE_STORAGE_GET = 3"
definition TA_TWEP_WR_CMD_GET_RANDOM :: u32 where "TA_TWEP_WR_CMD_GET_RANDOM = 4"
definition TA_TWEP_WR_CMD_GET_TIME :: u32 where "TA_TWEP_WR_CMD_GET_TIME = 5"
definition TA_TWEP_WR_CMD_CBOR_DRY_RUN :: u32 where "TA_TWEP_WR_CMD_CBOR_DRY_RUN = 6"
definition TA_TWEP_WR_CMD_WAMR_SPIKE_EXEC :: u32 where "TA_TWEP_WR_CMD_WAMR_SPIKE_EXEC = 7"
definition TA_TWEP_WR_CMD_INIT :: u32 where "TA_TWEP_WR_CMD_INIT = 8"
definition TA_TWEP_WR_CMD_EXECUTE :: u32 where "TA_TWEP_WR_CMD_EXECUTE = 9"
definition TA_TWEP_WR_CMD_RESUME_HOST_IO :: u32 where "TA_TWEP_WR_CMD_RESUME_HOST_IO = 10"
definition TA_TWEP_WR_CMD_MEASURE_WASM :: u32 where "TA_TWEP_WR_CMD_MEASURE_WASM = 11"

text \<open>A command that needs no session, in the world of the runtime.\<close>

definition plain :: "'w handler \<Rightarrow> ('w \<times> ta_state) handler" where
  "plain h ps = in_tee (h ps)"

definition routes ::
  "('w, 'h) tee_api \<Rightarrow> ('w, 'i) wamr \<Rightarrow> 'w platform \<Rightarrow> (u32 \<times> ('w \<times> ta_state) handler) list" where
  "routes A W E =
     [(TA_TWEP_WR_CMD_PING, plain twep_ta_cmd_ping),
      (TA_TWEP_WR_CMD_GET_PLATFORM_STATUS, plain (twep_ta_cmd_get_platform_status (platform_backend E))),
      (TA_TWEP_WR_CMD_MEASURE_WASM, plain (twep_ta_cmd_measure_wasm A)),
      (TA_TWEP_WR_CMD_SECURE_STORAGE_PUT, plain (twep_ta_cmd_secure_storage_put A)),
      (TA_TWEP_WR_CMD_SECURE_STORAGE_GET, plain (twep_ta_cmd_secure_storage_get A)),
      (TA_TWEP_WR_CMD_GET_RANDOM, plain (twep_ta_cmd_get_random (platform_random E))),
      (TA_TWEP_WR_CMD_GET_TIME, plain (twep_ta_cmd_get_time (platform_time E))),
      (TA_TWEP_WR_CMD_CBOR_DRY_RUN, plain twep_ta_cmd_cbor_dry_run),
      (TA_TWEP_WR_CMD_WAMR_SPIKE_EXEC, twep_ta_cmd_wamr_spike_exec W),
      (TA_TWEP_WR_CMD_INIT, twep_ta_cmd_production_envelope A W E TWEP_TA_ENVELOPE_INIT),
      (TA_TWEP_WR_CMD_EXECUTE, twep_ta_cmd_production_envelope A W E TWEP_TA_ENVELOPE_EXECUTE),
      (TA_TWEP_WR_CMD_RESUME_HOST_IO, twep_ta_cmd_production_envelope A W E TWEP_TA_ENVELOPE_RESUME_HOST_IO)]"

definition twep_ta_dispatch_command ::
  "('w, 'h) tee_api \<Rightarrow> ('w, 'i) wamr \<Rightarrow> 'w platform \<Rightarrow> u32 \<Rightarrow> ('w \<times> ta_state) handler" where
  "twep_ta_dispatch_command A W E command ps =
     (case find (\<lambda>r. fst r = command) (routes A W E) of
        Some (_, handler) \<Rightarrow> handler ps
      | None \<Rightarrow> refuse ERROR_NOT_SUPPORTED ps)"

section \<open>Sessions\<close>

text \<open>
  An instance of the trusted application: its global variables, and the sessions by their handles; a
  closed session is \<open>None\<close>. Between commands \<^verbatim>\<open>g_session\<close> is a null pointer, and the session in the
  variables means nothing. The framework runs one command at a time, passes only handles it got from
  opening a session, and destroys an instance only when no session is open.
\<close>

record ta_instance =
  ti_vars :: ta_state
  ti_sessions :: "twep_wr_session option list"

definition session_of :: "ta_instance \<Rightarrow> nat \<Rightarrow> twep_wr_session option" where
  "session_of inst h = (if h < length (ti_sessions inst) then ti_sessions inst ! h else None)"

text \<open>\<open>session_size\<close> is the size of the struct; the new session is zero but for its timeout.\<close>

definition twep_ta_session_open ::
  "('w, 'h) tee_api \<Rightarrow> nat \<Rightarrow> ta_instance \<Rightarrow> ('w, (tee_error + nat) \<times> ta_instance) state" where
  "twep_ta_session_open A session_size inst = do {
     ok \<leftarrow> tee_malloc A session_size;
     State_Monad.return (if ok
       then (Inr (length (ti_sessions inst)), inst\<lparr>ti_sessions := ti_sessions inst @ [Some new_session]\<rparr>)
       else (Inl ERROR_OUT_OF_MEMORY, inst)) }"

definition twep_ta_session_close :: "nat \<Rightarrow> ta_instance \<Rightarrow> ta_instance" where
  "twep_ta_session_close h inst =
     (case session_of inst h of None \<Rightarrow> inst
      | Some ctx \<Rightarrow>
        let t = (ti_vars inst)\<lparr>g_session := ctx\<rparr>;
            t = pending_host_io_clear (pending_teep_live_clear (teep_agent_live_session_release t)) in
        inst\<lparr>ti_vars := t, ti_sessions := (ti_sessions inst)[h := None]\<rparr>)"

definition twep_ta_session_invoke ::
  "('w, 'h) tee_api \<Rightarrow> ('w, 'i) wamr \<Rightarrow> 'w platform \<Rightarrow> nat \<Rightarrow> u32 \<Rightarrow> tee_param list \<Rightarrow> ta_instance \<Rightarrow>
   ('w, ((tee_error + unit) \<times> tee_param list) \<times> ta_instance) state" where
  "twep_ta_session_invoke A W E h command ps inst =
     (case session_of inst h of None \<Rightarrow> State_Monad.return ((Inl ERROR_BAD_STATE, ps), inst)
      | Some ctx \<Rightarrow> State (\<lambda>w.
          let (r, w', t) = run_state (twep_ta_dispatch_command A W E command ps) (w, (ti_vars inst)\<lparr>g_session := ctx\<rparr>) in
          ((r, inst\<lparr>ti_vars := t, ti_sessions := (ti_sessions inst)[h := Some (g_session t)]\<rparr>), w')))"

definition twep_ta_runtime_destroy :: "ta_instance \<Rightarrow> ta_instance" where
  "twep_ta_runtime_destroy inst =
     (let t = ti_vars inst;
          t = (if g_wamr_runtime_initialized t
               then t\<lparr>g_wamr_runtime_initialized := False, g_teep_agent_natives_registered := False,
                      g_teep_agent_live_session_count := 0\<rparr> else t)
      in inst\<lparr>ti_vars := t\<lparr>g_pending_http_transcript_count := 0, g_pending_http_transcript_bytes := 0\<rparr>\<rparr>)"

definition ta_created :: ta_instance where
  "ta_created = \<lparr>ti_vars = \<lparr>g_pending_http_transcript_count = 0, g_pending_http_transcript_bytes = 0,
     g_wamr_runtime_initialized = False, g_teep_agent_natives_registered = False,
     g_teep_agent_live_session_count = 0, g_session = new_session\<rparr>, ti_sessions = []\<rparr>"

text \<open>The calls of the entry points of the trusted application, in any order.\<close>

inductive ta_step ::
  "('w, 'h) tee_api \<Rightarrow> ('w, 'i) wamr \<Rightarrow> 'w platform \<Rightarrow> nat \<Rightarrow> 'w \<times> ta_instance \<Rightarrow> 'w \<times> ta_instance \<Rightarrow> bool"
  for A W E session_size where
  TA_OpenSessionEntryPoint:
    "run_state (twep_ta_session_open A session_size inst) w = ((r, inst'), w') \<Longrightarrow>
     ta_step A W E session_size (w, inst) (w', inst')"
| TA_CloseSessionEntryPoint:
    "ta_step A W E session_size (w, inst) (w, twep_ta_session_close h inst)"
| TA_InvokeCommandEntryPoint:
    "run_state (twep_ta_session_invoke A W E h command ps inst) w = ((r, inst'), w') \<Longrightarrow>
     ta_step A W E session_size (w, inst) (w', inst')"
| TA_DestroyEntryPoint:
    "list_all (\<lambda>s. s = None) (ti_sessions inst) \<Longrightarrow>
     ta_step A W E session_size (w, inst) (w, twep_ta_runtime_destroy inst)"

inductive_cases ta_stepE: "ta_step A W E session_size s s'"

section \<open>The invariant of an instance\<close>

definition lives :: "twep_wr_session \<Rightarrow> nat" where
  "lives s = (if ls_active (live_session s) then 1 else 0)"

text \<open>
  \<open>live_inv bl b\<close>: the count of live modules is the share of the current session plus \<open>bl\<close>; while there
  is one, or when \<open>b\<close> holds, the Wasm runtime is initialised; and the history has room.
\<close>

definition live_inv :: "nat \<Rightarrow> bool \<Rightarrow> ta_state \<Rightarrow> bool" where
  "live_inv bl b t \<longleftrightarrow> g_teep_agent_live_session_count t = bl + lives (g_session t) \<and>
     (g_teep_agent_live_session_count t \<noteq> 0 \<or> b \<longrightarrow> g_wamr_runtime_initialized t) \<and>
     length (pl_history (g_pending_teep_live t)) \<le> TEEP_AGENT_HOST_IO_HISTORY_MAX"

definition ta_inv :: "nat \<Rightarrow> nat \<Rightarrow> nat \<Rightarrow> bool \<Rightarrow> ta_state \<Rightarrow> bool" where
  "ta_inv bc bb bl b t \<longleftrightarrow> transcript_inv bc bb t \<and> live_inv bl b t"

lemma live_inv_updates:
  assumes "live_inv bl b t"
  shows "live_inv bl b (pending_host_io_clear t)" and "live_inv bl b (record_commit k q d v eg n g t)"
    and "live_inv bl b (pending_teep_live_clear t)" and "live_inv bl b (teep_agent_live_session_release t)"
    and "b \<Longrightarrow> live_inv bl b (keep_live_module live module t)"
    and "length (pl_history p) \<le> TEEP_AGENT_HOST_IO_HISTORY_MAX \<Longrightarrow> live_inv bl b (set_pending_teep_live p t)"
    and "live_inv bl b (set_pending_host_io ph t)"
    and "live_inv bl False (if g_wamr_runtime_initialized t then twep_ta_wamr_cleanup_if_idle t else t)"
    and "live_inv bl b (set_timeouts kind s t)" and "live_inv bl b (teep_agent_live_abort t)"
proof -
  show "live_inv bl b (pending_host_io_clear t)" "live_inv bl b (record_commit k q d v eg n g t)"
    using assms
    by (auto simp: live_inv_def pending_host_io_clear_def record_commit_def Let_def set_pending_host_io_def
        set_pending_teep_live_def lives_def)
  show "live_inv bl b (pending_teep_live_clear t)" "live_inv bl b (teep_agent_live_session_release t)"
    using assms
    by (auto simp: live_inv_def pending_teep_live_clear_def teep_agent_live_session_release_def Let_def
        set_pending_teep_live_def zero_pending_teep_live_def zero_live_session_def lives_def)
  show "b \<Longrightarrow> live_inv bl b (keep_live_module live module t)"
    using assms
    by (auto simp: live_inv_def keep_live_module_def teep_agent_live_session_release_def Let_def
        zero_live_session_def lives_def)
  show "length (pl_history p) \<le> TEEP_AGENT_HOST_IO_HISTORY_MAX \<Longrightarrow> live_inv bl b (set_pending_teep_live p t)"
    "live_inv bl b (set_pending_host_io ph t)"
    using assms by (auto simp: live_inv_def set_pending_teep_live_def set_pending_host_io_def lives_def)
  show "live_inv bl False (if g_wamr_runtime_initialized t then twep_ta_wamr_cleanup_if_idle t else t)"
    using assms by (auto simp: live_inv_def twep_ta_wamr_cleanup_if_idle_def)
  show "live_inv bl b (set_timeouts kind s t)"
    using assms by (cases kind) (auto simp: live_inv_def set_timeouts_def lives_def)
  show "live_inv bl b (teep_agent_live_abort t)"
    using assms
    by (auto simp: live_inv_def teep_agent_live_abort_def pending_host_io_clear_def pending_teep_live_clear_def
        teep_agent_live_session_release_def Let_def set_pending_host_io_def set_pending_teep_live_def
        zero_pending_teep_live_def zero_live_session_def lives_def)
qed

lemma transcript_inv_updates:
  assumes "transcript_inv bc bb t"
  shows "transcript_inv bc bb (pending_host_io_clear t)" and "transcript_inv bc bb (record_commit k q d v eg n g t)"
    and "transcript_inv bc bb (teep_agent_live_session_release t)" and "transcript_inv bc bb (keep_live_module live module t)"
    and "transcript_inv bc bb (if g_wamr_runtime_initialized t then twep_ta_wamr_cleanup_if_idle t else t)"
    and "transcript_inv bc bb (twep_ta_wamr_cleanup_if_idle t)"
    and "transcript_inv bc bb (set_timeouts kind s t)" and "transcript_inv bc bb (teep_agent_live_abort t)"
proof -
  show clear: "transcript_inv bc bb (pending_host_io_clear t)" using clear_transcript [OF assms] by simp
  have release: "transcript_inv bc bb (teep_agent_live_session_release t')" if "transcript_inv bc bb t'" for t'
    using that by (auto simp: transcript_inv_def teep_agent_live_session_release_def Let_def)
  then show "transcript_inv bc bb (teep_agent_live_session_release t)" using assms .
  show "transcript_inv bc bb (record_commit k q d v eg n g t)" using assms by (simp add: record_commit_def Let_def)
  show "transcript_inv bc bb (keep_live_module live module t)"
    using release [OF assms] assms by (cases live) (simp_all add: keep_live_module_def transcript_inv_def Let_def)
  show "transcript_inv bc bb (if g_wamr_runtime_initialized t then twep_ta_wamr_cleanup_if_idle t else t)"
    "transcript_inv bc bb (twep_ta_wamr_cleanup_if_idle t)"
    using assms by (auto simp: twep_ta_wamr_cleanup_if_idle_def transcript_inv_def)
  show "transcript_inv bc bb (set_timeouts kind s t)"
    using assms by (cases kind) (auto simp: set_timeouts_def transcript_inv_def)
  show "transcript_inv bc bb (teep_agent_live_abort t)"
    using release [OF clear] by (simp add: teep_agent_live_abort_def)
qed

lemma ta_inv_updates:
  assumes "ta_inv bc bb bl b t"
  shows "ta_inv bc bb bl b (pending_host_io_clear t)" and "ta_inv bc bb bl b (record_commit k q d v eg n g t)"
    and "ta_inv bc bb bl b (set_timeouts kind s t)" and "ta_inv bc bb bl b (teep_agent_live_abort t)"
    and "b \<Longrightarrow> ta_inv bc bb bl b (keep_live_module live module t)"
    and "ta_inv bc bb bl False (if g_wamr_runtime_initialized t then twep_ta_wamr_cleanup_if_idle t else t)"
proof -
  have tr: "transcript_inv bc bb t" and lv: "live_inv bl b t" using assms by (simp_all add: ta_inv_def)
  note facts = transcript_inv_updates [OF tr] live_inv_updates [OF lv]
  show "ta_inv bc bb bl b (pending_host_io_clear t)" "ta_inv bc bb bl b (record_commit k q d v eg n g t)"
    "ta_inv bc bb bl b (set_timeouts kind s t)" "ta_inv bc bb bl b (teep_agent_live_abort t)"
    "b \<Longrightarrow> ta_inv bc bb bl b (keep_live_module live module t)"
    "ta_inv bc bb bl False (if g_wamr_runtime_initialized t then twep_ta_wamr_cleanup_if_idle t else t)"
    unfolding ta_inv_def by (intro conjI facts; assumption)+
qed

lemma preserves_conj:
  "preserves I m \<Longrightarrow> preserves J m \<Longrightarrow> preserves (\<lambda>t. I t \<and> J t) m"
  by (auto simp: preserves_def hoare_def)

lemma preserves_ta_inv:
  "preserves (transcript_inv bc bb) m \<Longrightarrow> preserves (live_inv bl b) m \<Longrightarrow> preserves (ta_inv bc bb bl b) m"
  unfolding ta_inv_def by (rule preserves_conj)

lemma preserves_case_prod_app [preserve]:
  "(\<And>x y. preserves I (h x y z)) \<Longrightarrow> preserves I ((case p of (x, y) \<Rightarrow> h x y) z)"
  by (simp split: prod.split)

section \<open>Every command keeps the invariant\<close>

lemma preserves_saves:
  "preserves (live_inv bl b) (save_pending_host_io_request A i c inp io kind body)"
  "preserves (live_inv bl b) (pending_teep_live_append_history A k p)"
  "preserves (live_inv bl b) (copy_view_alloc A v (\<lambda>v p. p\<lparr>pl_wasm := v\<rparr>))"
proof -
  have [simp]: "live_inv bl b (t\<lparr>g_pending_http_transcript_count := m, g_pending_http_transcript_bytes := n\<rparr>) = live_inv bl b t"
    for m n t by (simp add: live_inv_def)
  show "preserves (live_inv bl b) (save_pending_host_io_request A i c inp io kind body)"
    unfolding save_pending_host_io_request_def Let_def by (intro preserve live_inv_updates) auto
  show "preserves (live_inv bl b) (pending_teep_live_append_history A k p)"
    unfolding preserves_def hoare_def pending_teep_live_append_history_def
    by (auto simp: live_inv_def set_pending_teep_live_def lives_def not_le split: prod.split)
  show "preserves (live_inv bl b) (copy_view_alloc A v (\<lambda>v p. p\<lparr>pl_wasm := v\<rparr>))"
    unfolding copy_view_alloc_def by (intro preserve live_inv_updates) (auto simp: live_inv_def)
qed

lemma preserves_live_save: "preserves (live_inv bl b) (pending_teep_live_save A i c wasm inp ai cat aw key)"
proof -
  have copy: "preserves (live_inv bl b) (copy_view_alloc A v out)"
    if "\<And>v p. pl_history (out v p) = pl_history p" for v out
    unfolding copy_view_alloc_def by (intro preserve live_inv_updates) (auto simp: live_inv_def that)
  show ?thesis
    unfolding pending_teep_live_save_def
    by (intro preserve preserves_then_copy copy live_inv_updates) (auto simp: live_inv_def)
qed

lemma preserves_requests:
  "preserves (ta_inv bc bb bl b) (build_need_host_io_response A i c inp io url body n)"
  "preserves (ta_inv bc bb bl b) (build_need_evidence_response_with_payload A i c inp ch key n)"
  "preserves (ta_inv bc bb bl b) (build_need_evidence_response A i c inp n)"
  "preserves (ta_inv bc bb bl b) (build_resume_final_response i r n)"
  "preserves (ta_inv bc bb bl b) (pending_teep_live_save A i c wasm inp ai cat aw key)"
  "preserves (ta_inv bc bb bl b) (pending_teep_live_append_history A k p)"
proof -
  have live: "preserves (live_inv bl b) (build_need_host_io_response A i c inp io url body n)"
    "preserves (live_inv bl b) (build_need_evidence_response_with_payload A i c inp ch key n)"
    "preserves (live_inv bl b) (build_resume_final_response i r n)" for ch key
    unfolding build_need_host_io_response_def build_need_evidence_response_with_payload_def
      build_resume_final_response_def Let_def
    by (intro preserve preserves_saves live_inv_updates; simp)+
  then show "preserves (ta_inv bc bb bl b) (build_need_host_io_response A i c inp io url body n)"
    "preserves (ta_inv bc bb bl b) (build_need_evidence_response_with_payload A i c inp ch key n)"
    "preserves (ta_inv bc bb bl b) (build_resume_final_response i r n)"
    by (intro preserves_ta_inv preserves_host_io; simp)+
  show "preserves (ta_inv bc bb bl b) (build_need_evidence_response A i c inp n)"
    unfolding build_need_evidence_response_def
    by (intro preserves_ta_inv preserves_host_io live)
  show "preserves (ta_inv bc bb bl b) (pending_teep_live_save A i c wasm inp ai cat aw key)"
    by (intro preserves_ta_inv preserves_host_io preserves_live_save)
  show "preserves (ta_inv bc bb bl b) (pending_teep_live_append_history A k p)"
    by (intro preserves_ta_inv preserves_host_io preserves_saves)
qed

text \<open>Calls that do not write the variables at all keep every invariant.\<close>

lemma preserves_reading:
  "preserves I (teep_host_read_file A path cap ctx)" "preserves I (teep_transient_object_write A path data ctx)"
  "preserves I (teep_host_write_file A path data ctx)" "preserves I (teep_host_read_protected A nm cap ctx)"
  "preserves I (teep_host_http_post url body cap ctx)" "preserves I (teep_host_create_evidence ch key cap ctx)"
  "preserves I (teep_host_teep_agent_measurement_sha256 A cap ctx)" "preserves I (teep_host_acceptance_generation A)"
  "preserves I (teep_host_random rnd n)" "preserves I (teep_host_unix_time_ms time)"
  "preserves I (replay_commit A kind q i v eg payload dg live)" "preserves I (load_agent A W wasm)"
  "preserves I (install_dev_key A key ctx)"
proof -
  show wr: "preserves I (teep_transient_object_write A path data ctx)" for path data ctx
    unfolding teep_transient_object_write_def by (intro preserve)
  show "preserves I (teep_host_write_file A path data ctx)" "preserves I (install_dev_key A key ctx)"
    unfolding teep_host_write_file_def install_dev_key_def by (intro preserve wr)+
  show "preserves I (load_agent A W wasm)"
    unfolding load_agent_def Let_def by (auto intro!: preserve split: bool.split option.split)
  show "preserves I (teep_host_read_file A path cap ctx)" "preserves I (teep_host_read_protected A nm cap ctx)"
    "preserves I (teep_host_http_post url body cap ctx)" "preserves I (teep_host_create_evidence ch key cap ctx)"
    "preserves I (teep_host_teep_agent_measurement_sha256 A cap ctx)" "preserves I (teep_host_acceptance_generation A)"
    "preserves I (teep_host_random rnd n)" "preserves I (teep_host_unix_time_ms time)"
    "preserves I (replay_commit A kind q i v eg payload dg live)"
    unfolding teep_host_read_file_def teep_host_read_protected_def teep_host_http_post_def teep_host_create_evidence_def
      teep_host_teep_agent_measurement_sha256_def teep_host_acceptance_generation_def teep_host_random_def
      teep_host_unix_time_ms_def replay_commit_def Let_def
    by (intro preserve)+
qed

lemma preserves_commit_call: "preserves (ta_inv bc bb bl b) (run_call A ctx c)"
proof -
  let ?I = "ta_inv bc bb bl b"
  have tr: "preserves ?I (commit_with_transcript A q commit nt)"
    if "\<And>g t. ?I t \<Longrightarrow> ?I (nt g t)" for q commit nt
    unfolding commit_with_transcript_def by (intro preserve that ta_inv_updates)
  show ?thesis
    by (cases c)
      (simp_all only: run_call.simps teep_host_commit_acceptance_def teep_host_commit_catalog_def teep_host_commit_app_def Let_def,
        (intro preserve tr preserves_reading ta_inv_updates; assumption)+)
qed

lemma preserves_host_call: "preserves (ta_inv bc bb bl b) (run_host_call A E c ctx)"
  by (cases c) (simp_all only: run_host_call.simps, (intro preserve preserves_reading preserves_commit_call)+)

lemma preserves_module: "preserves (ta_inv bc bb bl b) (run_module A E m ctx)"
proof (induction m arbitrary: ctx)
  case (Call c k)
  then have "preserves (ta_inv bc bb bl b) (run_module A E (k a) ctx)" for a ctx by simp
  then show ?case by (simp only: run_module.simps) (intro preserve preserves_host_call)
qed (simp only: run_module.simps, intro preserve)

lemma preserves_agent_main: "preserves (ta_inv bc bb bl True) (run_loaded_agent A W E wasm input n ctx)"
proof -
  let ?I = "ta_inv bc bb bl True"
  have "preserves ?I (teep_agent_pending_to_need_host_io A ctx n)" for ctx
    unfolding teep_agent_pending_to_need_host_io_def
    by (auto intro!: preserve preserves_requests split: option.split teep_agent_pending_hostcall.split)
  then have susp: "preserves ?I (suspend_agent A live module ctx n)" for live module ctx
    unfolding suspend_agent_def by (intro preserve ta_inv_updates TrueI)
  have main: "preserves ?I (call_agent_main A W E input live module n i ctx)" for live module i ctx
    unfolding call_agent_main_def Let_def by (intro preserve preserves_module susp)
  have inst: "preserves ?I (instantiate_agent A W E input live module n ctx)" for live module ctx
    unfolding instantiate_agent_def by (intro preserve main)
  have "preserves ?I (register_natives W)"
    unfolding register_natives_def
    by (intro preserve) (auto simp: ta_inv_def transcript_inv_def live_inv_def)
  then show ?thesis unfolding run_loaded_agent_def by (intro preserve preserves_reading inst)
qed

text \<open>After the runtime has been initialised, the invariant says so.\<close>

lemma preserves_ensure:
  assumes "preserves (ta_inv bc bb bl False) (f False)"
    and "hoare (\<lambda>s. ta_inv bc bb bl True (snd s)) (f True) (\<lambda>_ s. ta_inv bc bb bl False (snd s))"
  shows "preserves (ta_inv bc bb bl False) (State_Monad.bind (twep_ta_ensure_wamr_runtime W) f)"
proof -
  have ensure: "hoare (\<lambda>s. ta_inv bc bb bl False (snd s)) (twep_ta_ensure_wamr_runtime W)
      (\<lambda>ok s. if ok then ta_inv bc bb bl True (snd s) else ta_inv bc bb bl False (snd s))"
    by (auto simp: hoare_def twep_ta_ensure_wamr_runtime_def ta_inv_def live_inv_def transcript_inv_def)
  show ?thesis
    unfolding preserves_def
  proof (rule hoare_bind [OF ensure])
    fix ok
    show "hoare (\<lambda>s. if ok then ta_inv bc bb bl True (snd s) else ta_inv bc bb bl False (snd s)) (f ok)
        (\<lambda>_ s. ta_inv bc bb bl False (snd s))"
      by (cases ok) (use assms in \<open>simp_all add: preserves_def\<close>)
  qed
qed

lemma ta_inv_weaken: "ta_inv bc bb bl True t \<Longrightarrow> ta_inv bc bb bl False t"
  by (auto simp: ta_inv_def live_inv_def)

lemma preserves_agent:
  "preserves (ta_inv bc bb bl False) (execute_teep_agent_resolve A W E i wasm input cat aw key replay payload n)"
proof -
  let ?I = "ta_inv bc bb bl False" and ?J = "ta_inv bc bb bl True"
  let ?run = "\<lambda>ctx. do {
      res \<leftarrow> run_loaded_agent A W E wasm input n ctx;
      _ \<leftarrow> modify_ta (\<lambda>t. if g_wamr_runtime_initialized t then twep_ta_wamr_cleanup_if_idle t else t);
      State_Monad.return res }"
  have "hoare (\<lambda>s. ?J (snd s)) (?run ctx) (\<lambda>_ s. ?I (snd s))" for ctx
  proof (rule hoare_bind [OF preserves_agent_main [unfolded preserves_def]])
    show "hoare (\<lambda>s. ?J (snd s)) (do {
        _ \<leftarrow> modify_ta (\<lambda>t. if g_wamr_runtime_initialized t then twep_ta_wamr_cleanup_if_idle t else t);
        State_Monad.return res }) (\<lambda>_ s. ?I (snd s))" for res
      using ta_inv_updates(6) by (auto simp: hoare_def)
  qed
  then have run: "preserves ?I (do { ok \<leftarrow> twep_ta_ensure_wamr_runtime W;
      if \<not> ok then State_Monad.return (None, Inl ERROR_GENERIC) else ?run ctx })" for ctx
    by (intro preserves_ensure) (simp_all add: preserve)
  show ?thesis
    unfolding execute_teep_agent_resolve_def
    by (intro preserves_case_sum preserves_bind preserves_return preserves_in_tee preserves_reading preserves_case_prod
        preserves_if run)
qed

lemma preserves_runtime: "preserves (ta_inv bc bb bl False) (twep_ta_ensure_wamr_runtime W)"
  unfolding twep_ta_ensure_wamr_runtime_def
  by (intro preserve) (auto simp: ta_inv_def transcript_inv_def live_inv_def)

lemma preserves_app: "preserves (ta_inv bc bb bl False) (execute_production_app_wasm W i c inp binary limits n)"
  unfolding execute_production_app_wasm_def by (intro preserve preserves_runtime)

lemma preserves_spike: "preserves (ta_inv bc bb bl False) (twep_ta_cmd_wamr_spike_exec W ps)"
proof -
  have "ta_inv bc bb bl False (twep_ta_wamr_cleanup_if_idle t)" if "ta_inv bc bb bl False t" for t
    using that transcript_inv_updates(6) [of bc bb t] by (auto simp: ta_inv_def live_inv_def twep_ta_wamr_cleanup_if_idle_def)
  moreover have "preserves (ta_inv bc bb bl False) (spike_run W wasm input cap)" for wasm input cap
    unfolding spike_run_def by (intro preserve)
  ultimately show ?thesis
    unfolding twep_ta_cmd_wamr_spike_exec_def by (intro preserve preserves_runtime)
qed

lemma preserves_envelope: "preserves (ta_inv bc bb bl False) (twep_ta_cmd_production_envelope A W E kind ps)"
proof -
  let ?I = "ta_inv bc bb bl False"
  note rules = preserve preserves_agent preserves_app preserves_requests ta_inv_updates
  have "preserves ?I (resume_output A W live n result)" for live n result
    unfolding resume_output_def Let_def by (intro rules)
  then have "preserves ?I (resume_run A W E live result n)" for live result n
    unfolding resume_run_def by (intro rules)
  then have resume: "preserves ?I (resume_pending_teep_live A W E i result n)" for i result n
    unfolding resume_pending_teep_live_def Let_def by (intro rules)
  have "preserves ?I (resolve_output A s inp n result)" for s inp n result
    unfolding resolve_output_def Let_def by (intro rules)
  then have app: "preserves ?I (resolve_application A W E s n)" for s n
    unfolding resolve_application_def by (intro rules)
  have resolve: "preserves ?I (resolve_command A W E wrapped s n)" for wrapped s n
    unfolding resolve_command_def Let_def by (intro rules)
  have exec: "preserves ?I (execute_command A W E s n)" for s n
    unfolding execute_command_def by (auto intro!: rules app resolve split: resolved.split)
  have "preserves ?I (handle_envelope A W E kind s n)" for s n
    unfolding handle_envelope_def
    by (auto intro!: rules resume exec split: twep_ta_production_envelope_kind.split option.split prod.split)
  then show ?thesis
    unfolding twep_ta_cmd_production_envelope_def by (intro rules)
qed

lemma preserves_dispatch: "preserves (ta_inv bc bb bl False) (twep_ta_dispatch_command A W E command ps)"
proof -
  have "preserves (ta_inv bc bb bl False) (h ps)" if "(k, h) \<in> set (routes A W E)" for k h
    using that by (auto simp: routes_def plain_def intro: preserve preserves_envelope preserves_spike)
  then show ?thesis
    by (auto simp: twep_ta_dispatch_command_def find_Some_iff intro: preserves_return split: option.split) (metis nth_mem)
qed

section \<open>What a command does to storage\<close>

lemma keeps_storage_get:
  assumes laws: "storage_laws A objs hobj sha"
  shows "keeps objs (storage_get A nm cap out)"
proof -
  have m: "hoare (\<lambda>w. objs w = S \<and> hobj w h = Some nm) (tee_malloc A n) (\<lambda>_ w. objs w = S \<and> hobj w h = Some nm)" for S h n
    using law_malloc [OF laws, of S _ n] by (auto simp: hoare_def)
  have body: "hoare (\<lambda>w. objs w = S \<and> hobj w h = Some nm) (storage_get_body A cap out h) (\<lambda>r w. objs w = S \<and> True)" for S h
    unfolding storage_get_body_def
    by (rule hoare_bind_ok [OF law_info [OF laws]], simp,
        auto intro!: hoare_if hoare_return hoare_pre [OF hoare_bind [OF m]] hoare_bind_ok [OF law_read [OF laws]])
  show ?thesis
    unfolding storage_get_def
    by (intro keeps_objs_rules keeps_tee [OF laws] keeps_hoare hoare_post [OF hoare_with_object [OF laws _ body]]) auto
qed

lemma quiet_plain:
  assumes laws: "storage_laws A objs hobj sha" and rt: "runtime_laws objs W E"
  shows "quiet objs (plain twep_ta_cmd_ping ps)" "quiet objs (plain (twep_ta_cmd_get_platform_status backend) ps)"
    "quiet objs (plain (twep_ta_cmd_measure_wasm A) ps)" "quiet objs (plain (twep_ta_cmd_secure_storage_get A) ps)"
    "quiet objs (plain (twep_ta_cmd_get_random (platform_random E)) ps)"
    "quiet objs (plain (twep_ta_cmd_get_time (platform_time E)) ps)" "quiet objs (plain twep_ta_cmd_cbor_dry_run ps)"
  unfolding plain_def twep_ta_cmd_ping_def twep_ta_cmd_get_platform_status_def twep_ta_cmd_measure_wasm_def
    twep_ta_cmd_secure_storage_get_def twep_ta_cmd_get_random_def twep_ta_cmd_get_time_def twep_ta_cmd_cbor_dry_run_def
    constant_answer_def
  by (auto intro!: quiet_base keeps_objs_rules keeps_tee [OF laws] keeps_storage_get [OF laws] runtime_keeps [OF rt]
      split: option.split prod.split bool.split sum.split)

lemma one_commit_envelope:
  assumes laws: "storage_laws A objs hobj sha" and rt: "runtime_laws objs W E"
  shows "one_commit A objs (twep_ta_cmd_production_envelope A W E kind ps)"
proof -
  note agent = one_commit_agent [OF laws rt] and app = reads_imp(2) [OF silent_reads [OF silent_app(2) [OF rt]]]
  note amo = reads_imp(1) [OF reads_base(2)] reads_imp(1) [OF reads_base(3)]
  note requests = quiet_requests [OF laws]
  have evidence: "quiet objs (build_need_evidence_response A i c inp n)" for i c inp n
    unfolding build_need_evidence_response_def by (rule requests)
  have final: "quiet objs (build_resume_final_response i r n)" for i r n
    unfolding build_resume_final_response_def Let_def by (intro effect_rules)
  have "quiet objs (resolve_output A s inp n result)" for s inp n result
    unfolding resolve_output_def Let_def by (intro effect_rules requests keeps_agent [OF laws])
  then have out: "one_commit A objs (do { result \<leftarrow> execute_teep_agent_resolve A W E i wasm inp cat aw key k p m;
      resolve_output A s inp' n result })" for i wasm inp cat aw key k p m s inp' n
    by (intro one_commit_then [OF agent])
  have resolve_app: "one_commit A objs (resolve_application A W E s n)" for s n
    unfolding resolve_application_def
    by (rule effect_cases(1), rule effect_bind(4) [OF amo(2) [OF keeps_tee(1) [OF laws]]], rule effect_cases(1),
        rule effect_return, rule one_commit_cases(5) [OF effect_return(2) out], rule effect_return)
  have resolve: "one_commit A objs (resolve_command A W E wrapped s n)" for wrapped s n
    unfolding resolve_command_def
    by (rule effect_bind(4) [OF amo(2) [OF keeps_tee(1) [OF laws]]], rule effect_cases(1), rule effect_return,
        rule one_commit_then [OF agent]) (auto simp: Let_def intro!: effect_rules requests split: prod.split)
  have exec: "one_commit A objs (execute_command A W E s n)" for s n
  proof -
    have "quiet objs (case r of Refused e \<Rightarrow> State_Monad.return (Inl e) | Answered b \<Rightarrow> State_Monad.return (Inr b)
        | Authorised binary limits \<Rightarrow> do { b \<leftarrow> execute_production_app_wasm W i c inp binary limits n;
            State_Monad.return (Inr b) })" for r i c inp
      by (cases r) (auto intro!: effect_rules app)
    then show ?thesis
      unfolding execute_command_def by (intro one_commit_cases resolve effect_return one_commit_then [OF resolve_app])
  qed
  have resume: "one_commit A objs (do {
      b \<leftarrow> (if live then resume_pending_teep_live A W E i result n else build_resume_final_response i result n);
      State_Monad.return (Inr b) })" for live i result n
    by (rule one_commit_then) (auto intro!: effect_rules one_commit_resume [OF laws rt] one_commit_imp(2) [OF final])
  have hio: "one_commit A objs (do { b \<leftarrow> m; State_Monad.return (Inr b) })" if "quiet objs m" for m
    by (rule one_commit_imp(2)) (intro effect_rules that)
  have timeouts: "reads objs (modify_ta (set_timeouts kind s))" for s
    by (rule reads_base) (cases kind; simp add: set_timeouts_def)
  have "one_commit A objs (handle_envelope A W E kind s n)" for s n
    unfolding handle_envelope_def
  proof (rule effect_bind(4) [OF reads_imp(1) [OF timeouts]], rule effect_bind(4) [OF amo(1)], cases kind, goal_cases)
    case (2 x t)
    show ?case unfolding 2 twep_ta_production_envelope_kind.case
      by (intro one_commit_cases exec hio requests evidence effect_return(2))
  qed (simp_all only: twep_ta_production_envelope_kind.case, rule effect_return(2), rule resume)
  then show ?thesis
    unfolding twep_ta_cmd_production_envelope_def
    by (auto intro!: effect_return(2) one_commit_then quiet_base split: option.split prod.split sum.split)
qed

lemma one_commit_dispatch:
  assumes laws: "storage_laws A objs hobj sha" and rt: "runtime_laws objs W E"
    and "command \<noteq> TA_TWEP_WR_CMD_SECURE_STORAGE_PUT"
  shows "one_commit A objs (twep_ta_dispatch_command A W E command ps)"
proof -
  have "one_commit A objs (h ps)" if "(k, h) \<in> set (routes A W E)" "k \<noteq> TA_TWEP_WR_CMD_SECURE_STORAGE_PUT" for k h
    using that
    by (auto simp: routes_def intro: one_commit_envelope [OF laws rt] one_commit_imp(2) quiet_plain [OF laws rt]
        reads_imp(2) silent_reads silent_app(3) [OF rt])
  moreover have "(command, h) \<in> set (routes A W E)" if "find (\<lambda>r. fst r = command) (routes A W E) = Some (k, h)" for k h
    using that by (auto simp: find_Some_iff) (metis fst_conv nth_mem)
  ultimately show ?thesis
    using assms(3) by (auto simp: twep_ta_dispatch_command_def intro: effect_return split: option.split)
qed

section \<open>Instances\<close>

definition share :: "(twep_wr_session \<Rightarrow> nat) \<Rightarrow> twep_wr_session option \<Rightarrow> nat" where
  "share f s = (case s of None \<Rightarrow> 0 | Some c \<Rightarrow> f c)"

definition total :: "(twep_wr_session \<Rightarrow> nat) \<Rightarrow> ta_instance \<Rightarrow> nat" where
  "total f inst = sum_list (map (share f) (ti_sessions inst))"

abbreviation session_transcripts :: "twep_wr_session \<Rightarrow> nat" where
  "session_transcripts s \<equiv> transcripts (pending_host_io s)"

abbreviation session_bytes :: "twep_wr_session \<Rightarrow> nat" where
  "session_bytes s \<equiv> transcript_bytes (pending_host_io s)"

text \<open>
  The counters of an instance are the sums over its sessions, within the limits of the build, and the
  Wasm runtime is initialised while a session keeps a module.
\<close>

definition instance_inv :: "ta_instance \<Rightarrow> bool" where
  "instance_inv inst \<longleftrightarrow>
     g_pending_http_transcript_count (ti_vars inst) = total session_transcripts inst \<and>
     g_pending_http_transcript_bytes (ti_vars inst) = total session_bytes inst \<and>
     g_teep_agent_live_session_count (ti_vars inst) = total lives inst \<and>
     total session_transcripts inst \<le> TEEP_AGENT_TRANSCRIPT_COUNT_MAX \<and>
     total session_bytes inst \<le> TEEP_AGENT_TRANSCRIPT_AGGREGATE_SIZE_MAX \<and>
     (total lives inst \<noteq> 0 \<longrightarrow> g_wamr_runtime_initialized (ti_vars inst)) \<and>
     (\<forall>s. Some s \<in> set (ti_sessions inst) \<longrightarrow> session_bytes s \<le> TEEP_AGENT_TRANSCRIPT_SIZE_MAX \<and>
        length (pl_history (pending_teep_live s)) \<le> TEEP_AGENT_HOST_IO_HISTORY_MAX)"

text \<open>One session against the others.\<close>

lemma total_split:
  assumes "session_of inst h = Some ctx"
  obtains rst where "\<And>f. total f inst = rst f + f ctx"
    "\<And>f s t. total f (inst\<lparr>ti_vars := t, ti_sessions := (ti_sessions inst)[h := s]\<rparr>) = rst f + share f s"
proof -
  let ?xs = "ti_sessions inst"
  have h: "h < length ?xs" "?xs ! h = Some ctx" using assms by (auto simp: session_of_def split: if_splits)
  let ?r = "\<lambda>f. sum_list (map (share f) (take h ?xs)) + sum_list (map (share f) (drop (Suc h) ?xs))"
  have "total f inst = ?r f + f ctx" for f
    using h by (subst (1) total_def, subst id_take_nth_drop [OF h(1)]) (simp add: share_def)
  moreover have "total f (inst\<lparr>ti_vars := t, ti_sessions := ?xs[h := s]\<rparr>) = ?r f + share f s" for f s t
    using h by (simp add: total_def upd_conv_take_nth_drop)
  ultimately show thesis by (rule that)
qed

lemma instance_enter:
  assumes "instance_inv inst" and "session_of inst h = Some ctx"
    and "\<And>f. total f inst = rst f + f ctx"
  shows "ta_inv (rst session_transcripts) (rst session_bytes) (rst lives) False ((ti_vars inst)\<lparr>g_session := ctx\<rparr>)"
proof -
  have "Some ctx \<in> set (ti_sessions inst)" using assms(2) by (auto simp: session_of_def split: if_splits) (metis nth_mem)
  then show ?thesis using assms(1) assms(3) by (auto simp: instance_inv_def ta_inv_def transcript_inv_def live_inv_def)
qed

lemma instance_leave:
  assumes inv: "instance_inv inst" and h: "session_of inst h = Some ctx"
    and tot: "\<And>f s t. total f (inst\<lparr>ti_vars := t, ti_sessions := (ti_sessions inst)[h := s]\<rparr>) = rst f + share f s"
    and ta: "ta_inv (rst session_transcripts) (rst session_bytes) (rst lives) False t"
    and s: "s = Some (g_session t) \<or> s = None \<and> session_transcripts (g_session t) = 0 \<and>
      session_bytes (g_session t) = 0 \<and> lives (g_session t) = 0"
  shows "instance_inv (inst\<lparr>ti_vars := t, ti_sessions := (ti_sessions inst)[h := s]\<rparr>)"
proof -
  have "Some c \<in> set (ti_sessions inst) \<or> Some c = s" if "Some c \<in> set ((ti_sessions inst)[h := s])" for c
    using that set_update_subset_insert by fastforce
  then show ?thesis
    using inv s ta by (fastforce simp: instance_inv_def tot ta_inv_def transcript_inv_def live_inv_def share_def)
qed

lemma instance_close:
  assumes "instance_inv inst"
  shows "instance_inv (twep_ta_session_close h inst)"
proof (cases "session_of inst h")
  case None
  with assms show ?thesis by (simp add: twep_ta_session_close_def)
next
  case (Some ctx)
  then obtain rst where tot: "\<And>f. total f inst = rst f + f ctx"
    "\<And>f s t. total f (inst\<lparr>ti_vars := t, ti_sessions := (ti_sessions inst)[h := s]\<rparr>) = rst f + share f s"
    by (rule total_split) (rule that)
  let ?u = "(ti_vars inst)\<lparr>g_session := ctx\<rparr>"
  let ?t = "pending_host_io_clear (pending_teep_live_clear (teep_agent_live_session_release ?u))"
  from instance_enter [OF assms Some tot(1)]
  have inv: "transcript_inv (rst session_transcripts) (rst session_bytes) ?u" "live_inv (rst lives) False ?u"
    by (simp_all add: ta_inv_def)
  have "ta_inv (rst session_transcripts) (rst session_bytes) (rst lives) False ?t"
    unfolding ta_inv_def
    by (intro conjI live_inv_updates inv transcript_inv_updates(1)) (simp add: transcript_inv_updates(3) [OF inv(1)])
  moreover have "session_transcripts (g_session ?t) = 0 \<and> session_bytes (g_session ?t) = 0 \<and> lives (g_session ?t) = 0"
    by (auto simp: lives_def pending_host_io_clear_def pending_teep_live_clear_def teep_agent_live_session_release_def Let_def
        set_pending_host_io_def set_pending_teep_live_def zero_live_session_def)
  ultimately have "instance_inv (inst\<lparr>ti_vars := ?t, ti_sessions := (ti_sessions inst)[h := None]\<rparr>)"
    by (intro instance_leave [OF assms Some tot(2)]) simp_all
  then show ?thesis by (simp add: twep_ta_session_close_def Some Let_def)
qed

lemma instance_invoke:
  assumes inv: "instance_inv inst" and run: "run_state (twep_ta_session_invoke A W E h command ps inst) w = ((r, inst'), w')"
  shows "instance_inv inst'"
proof (cases "session_of inst h")
  case None
  with inv run show ?thesis by (simp add: twep_ta_session_invoke_def)
next
  case (Some ctx)
  then obtain rst where tot: "\<And>f. total f inst = rst f + f ctx"
    "\<And>f s t. total f (inst\<lparr>ti_vars := t, ti_sessions := (ti_sessions inst)[h := s]\<rparr>) = rst f + share f s"
    by (rule total_split) (rule that)
  obtain x w1 t where d: "run_state (twep_ta_dispatch_command A W E command ps) (w, (ti_vars inst)\<lparr>g_session := ctx\<rparr>) = (x, (w1, t))"
    by (metis surj_pair)
  have "ta_inv (rst session_transcripts) (rst session_bytes) (rst lives) False t"
    by (rule preservesD [OF preserves_dispatch d instance_enter [OF inv Some tot(1)]])
  from instance_leave [OF inv Some tot(2) this] run d Some show ?thesis
    by (auto simp: twep_ta_session_invoke_def)
qed

lemma instance_step: "ta_step A W E n s s' \<Longrightarrow> instance_inv (snd s) \<Longrightarrow> instance_inv (snd s')"
proof (induction rule: ta_step.induct)
  case (TA_OpenSessionEntryPoint inst w r inst' w')
  have "lives new_session = 0" "session_transcripts new_session = 0" "session_bytes new_session = 0"
    "pl_history (pending_teep_live new_session) = []"
    by (simp_all add: lives_def new_session_def zero_live_session_def zero_pending_teep_live_def)
  with TA_OpenSessionEntryPoint show ?case
    by (auto simp: twep_ta_session_open_def instance_inv_def total_def share_def split: prod.splits if_splits)
next
  case (TA_CloseSessionEntryPoint w inst h)
  then show ?case by (simp add: instance_close)
next
  case (TA_InvokeCommandEntryPoint h command ps inst w r inst' w')
  then show ?case using instance_invoke by simp
next
  case (TA_DestroyEntryPoint inst w)
  then have "total f inst = 0" for f
    by (auto simp: total_def list_all_iff share_def split: option.split)
  with TA_DestroyEntryPoint show ?case
    by (auto simp: instance_inv_def twep_ta_runtime_destroy_def Let_def total_def list_all_iff)
qed

lemma instance_created: "instance_inv ta_created"
  by (simp add: instance_inv_def ta_created_def total_def)

section \<open>Applications in the verified mode\<close>

text \<open>
  \<open>agent_said\<close>: a run of this agent for the request, from its start, returned the output. \<open>ran_installed_app\<close>: the
  response is what came of executing the installed application, within the limits of such an output,
  which names its digest.
\<close>

definition agent_said :: "('w, 'h) tee_api \<Rightarrow> ('w, 'i) wamr \<Rightarrow> 'w platform \<Rightarrow> bytes \<Rightarrow> bytes \<Rightarrow> bytes \<Rightarrow> bool" where
  "agent_said A W E request_id agent output \<longleftrightarrow>
     (\<exists>inp catalog binary key s len. fst (run_state (execute_teep_agent_resolve A W E request_id agent inp catalog
        binary key TEEP_AGENT_PENDING_NONE [] TEEP_AGENT_HOST_IO_RESPONSE_SIZE_MAX) s) = (len, Inr output))"

definition ran_installed_app ::
  "('w, 'h) tee_api \<Rightarrow> ('w, 'i) wamr \<Rightarrow> 'w platform \<Rightarrow> (bytes \<Rightarrow> bytes) \<Rightarrow> bytes \<Rightarrow> bytes \<Rightarrow> bytes \<Rightarrow> bytes \<Rightarrow> nat \<Rightarrow>
   store \<Rightarrow> bytes \<Rightarrow> bool" where
  "ran_installed_app A W E sha request_id agent command input n S response \<longleftrightarrow>
     (\<exists>act output limits d given s len. app_spec sha S = Inr act \<and> agent_said A W E request_id agent output \<and>
        parse_teep_resource_limits_output output production_resource_limits_default = Inr (limits, d, given) \<and>
        (abs_load S \<noteq> None \<longrightarrow> d = sha (app_wasm act)) \<and>
        fst (run_state (execute_production_app_wasm W request_id command input (app_wasm act) limits n) s) = (len, Inr response))"

lemma authorised_app_verified:
  assumes laws: "storage_laws A objs hobj sha" and rel: "storage_reliable A objs hobj"
    and run: "run_state (authorised_app A True supplied output) w = (Inr (binary, limits), w')"
  obtains act d given where "app_spec sha (objs w) = Inr act" "app_wasm act = binary"
    "parse_teep_resource_limits_output output production_resource_limits_default = Inr (limits, d, given)"
    "abs_load (objs w) \<noteq> None \<longrightarrow> d = sha binary" "objs w' = objs w"
proof -
  from run obtain d given where p: "parse_teep_resource_limits_output output production_resource_limits_default =
      Inr (limits, d, given)"
    by (auto simp: authorised_app_def bind_or_def split: sum.splits prod.splits if_splits)
  obtain r w1 where load: "run_state (twep_load_protected_app A) w = (r, w1)" by fastforce
  with run p obtain pd where r: "r = Inr (binary, pd)" and eq: "mem_compare d pd = 0" and w1: "w' = w1"
    by (cases r) (auto simp: authorised_app_def bind_or_def split: if_splits prod.splits)
  from load_protected_app_run [OF laws rel load] r obtain act where act: "app_spec sha (objs w) = Inr act"
    "app_wasm act = binary" "app_digest act = pd" "objs w1 = objs w" by blast
  have "d = sha binary" if S: "abs_load (objs w) \<noteq> None"
  proof -
    from S obtain a where "abs_load (objs w) = Some a" by blast
    from app_spec_digest [OF laws rel this act(1)] have "pd = sha binary" using act by simp
    moreover have "length d = 32" using limits_output_inv [OF p default_ok] by simp
    ultimately show ?thesis using eq sha_length [OF laws rel, of binary] by (simp add: mem_compare_eq0)
  qed
  with act p w1 show thesis by (intro that [of act d given]) auto
qed

text \<open>A verified resolution followed by the execution of what it authorised.\<close>

lemma authorised_run:
  assumes laws: "storage_laws A objs hobj sha" and rel: "storage_reliable A objs hobj" and rt: "runtime_laws objs W E"
    and said: "agent_said A W E i agent output"
    and run: "run_state (authorised_app A True supplied output) w = (Inr (binary, limits), w1)"
    and exec: "run_state (execute_production_app_wasm W i c inp binary limits n) (w1, t) = ((len, Inr resp), (w', t'))"
  shows "ran_installed_app A W E sha i agent c inp n (objs w') resp"
proof -
  have same: "objs w' = objs w1" by (rule silentD(1) [OF silent_app(2) [OF rt] exec])
  from authorised_app_verified [OF laws rel run] obtain act d given where act: "app_spec sha (objs w) = Inr act" "app_wasm act = binary"
    "parse_teep_resource_limits_output output production_resource_limits_default = Inr (limits, d, given)"
    "abs_load (objs w) \<noteq> None \<longrightarrow> d = sha binary" "objs w1 = objs w" by blast
  have "objs w' = objs w" "abs_load (objs w') \<noteq> None \<longrightarrow> d = sha (app_wasm act)" using act same by auto
  moreover have "fst (run_state (execute_production_app_wasm W i c inp (app_wasm act) limits n) (w1, t)) = (len, Inr resp)"
    using exec act(2) by simp
  ultimately show ?thesis unfolding ran_installed_app_def using act(1,3) said by metis
qed

lemma built_in_ok: "built_in n k bs = (len, Inr resp) \<Longrightarrow> resp = bs"
  by (auto simp: built_in_def split: if_splits)

lemma resume_output_verified:
  assumes laws: "storage_laws A objs hobj sha" and rel: "storage_reliable A objs hobj" and rt: "runtime_laws objs W E"
    and ri: "parse_teep_resolve_input (pl_input live) = Inr ri" "ri_command ri = ascii ''resolve_app''"
      "ri_resolver_mode ri = ascii ''attestam-verified''"
    and said: "\<And>out. snd result = Inr out \<Longrightarrow> agent_said A W E (pl_request_id live) (pl_wasm live) out"
    and run: "run_state (resume_output A W live n result) (w, t) = ((susp, len, Inr resp), (w', t'))"
  shows "teep_output_is_need_host_io resp \<or>
    (\<exists>code message. resp = teep_error_response_bytes (pl_request_id live) code message (pl_command live)) \<or>
    (\<exists>inner. resp = final_response_bytes (pl_request_id live) inner \<and>
       ran_installed_app A W E sha (pl_request_id live) (pl_wasm live) (pl_command live) (pl_app_input live) 4096 (objs w') inner)"
proof -
  from run obtain out where out: "snd result = Inr out" by (auto simp: resume_output_def Let_def split: sum.splits)
  consider "teep_output_is_need_host_io out"
    | code message where "\<not> teep_output_is_need_host_io out" "parse_teep_error_output out = Inr (code, message)"
    | e where "\<not> teep_output_is_need_host_io out" "parse_teep_error_output out = Inl e"
    by (cases "parse_teep_error_output out") auto
  then show ?thesis
  proof cases
    case 1
    with run out show ?thesis by (auto simp: resume_output_def Let_def split: if_splits)
  next
    case 2
    with run out show ?thesis
      by (auto simp: resume_output_def Let_def build_teep_error_execute_response_def dest: built_in_ok)
  next
    case 3
    obtain a w1 where app: "run_state (authorised_app A True (pl_app_wasm live) out) w = (a, w1)" by fastforce
    obtain l x w2 t2 where ex: "\<And>b lim. a = Inr (b, lim) \<Longrightarrow> run_state (execute_production_app_wasm W (pl_request_id live)
        (pl_command live) (pl_app_input live) b lim 4096) (w1, t) = ((l, x), (w2, t2))"
      by (cases a) (auto, metis surj_pair)
    from 3 run out ri app obtain b lim where a: "a = Inr (b, lim)"
      by (cases a) (auto simp: resume_output_def Let_def view_eq_iff)
    with 3 run out ri app ex [OF a] obtain inner where x: "x = Inr inner" and w2: "w' = w2"
      and resp: "resp = final_response_bytes (pl_request_id live) inner"
      by (cases x) (auto simp: resume_output_def Let_def view_eq_iff build_final_response_wrapper_def dest: built_in_ok)
    from authorised_run [OF laws rel rt said [OF out] app [unfolded a] ex [OF a, unfolded x]] resp w2 show ?thesis by blast
  qed
qed

lemma agent_saidI:
  assumes "run_state (execute_teep_agent_resolve A W E i wasm inp cat aw key TEEP_AGENT_PENDING_NONE []
      TEEP_AGENT_HOST_IO_RESPONSE_SIZE_MAX) s = (result, s')" and "snd result = Inr out"
  shows "agent_said A W E i wasm out"
proof -
  have "fst (run_state (execute_teep_agent_resolve A W E i wasm inp cat aw key TEEP_AGENT_PENDING_NONE []
      TEEP_AGENT_HOST_IO_RESPONSE_SIZE_MAX) s) = (fst result, Inr out)"
    using assms by (cases result) simp
  then show ?thesis unfolding agent_said_def by metis
qed

lemma resume_run_output:
  assumes "run_state (resume_run A W E live r n) s = ((susp, len, Inr resp), s')"
  obtains result s1 where "\<And>out. snd result = Inr out \<Longrightarrow> agent_said A W E (pl_request_id live) (pl_wasm live) out"
    "run_state (resume_output A W live n result) s1 = ((susp, len, Inr resp), s')"
proof -
  from assms obtain kind payload where
    "run_state (do { res \<leftarrow> pending_teep_live_append_history A kind payload;
       case res of Inl e \<Rightarrow> State_Monad.return (False, None, Inl e)
       | Inr _ \<Rightarrow> do { result \<leftarrow> execute_teep_agent_resolve A W E (pl_request_id live) (pl_wasm live) (pl_input live)
                (pl_catalog live) (pl_app_wasm live) (pl_dev_agent_public_key live) TEEP_AGENT_PENDING_NONE []
                TEEP_AGENT_HOST_IO_RESPONSE_SIZE_MAX;
              resume_output A W live n result } }) s = ((susp, len, Inr resp), s')"
    unfolding resume_run_def by (auto split: sum.splits prod.splits)
  then obtain h :: "tee_error + unit" and s1 where
    "run_state (case h of Inl e \<Rightarrow> State_Monad.return (False, None, Inl e)
       | Inr _ \<Rightarrow> do { result \<leftarrow> execute_teep_agent_resolve A W E (pl_request_id live) (pl_wasm live) (pl_input live)
                (pl_catalog live) (pl_app_wasm live) (pl_dev_agent_public_key live) TEEP_AGENT_PENDING_NONE []
                TEEP_AGENT_HOST_IO_RESPONSE_SIZE_MAX;
              resume_output A W live n result }) s1 = ((susp, len, Inr resp), s')"
    by (rule run_bindE) (rule that, assumption)
  then obtain result s2 where ag: "run_state (execute_teep_agent_resolve A W E (pl_request_id live) (pl_wasm live)
        (pl_input live) (pl_catalog live) (pl_app_wasm live) (pl_dev_agent_public_key live) TEEP_AGENT_PENDING_NONE []
        TEEP_AGENT_HOST_IO_RESPONSE_SIZE_MAX) s1 = (result, s2)"
    and out: "run_state (resume_output A W live n result) s2 = ((susp, len, Inr resp), s')"
    by (cases h) (auto split: prod.splits)
  from agent_saidI [OF ag] that out show thesis by blast
qed

lemma resume_verified:
  assumes laws: "storage_laws A objs hobj sha" and rel: "storage_reliable A objs hobj" and rt: "runtime_laws objs W E"
    and ri: "parse_teep_resolve_input (pl_input (g_pending_teep_live t)) = Inr ri" "ri_command ri = ascii ''resolve_app''"
      "ri_resolver_mode ri = ascii ''attestam-verified''"
    and run: "run_state (resume_pending_teep_live A W E i result n) (w, t) = ((len, Inr resp), (w', t'))"
  shows "i = pl_request_id (g_pending_teep_live t) \<and> (teep_output_is_need_host_io resp \<or>
    (\<exists>code message. resp = teep_error_response_bytes i code message (pl_command (g_pending_teep_live t))) \<or>
    (\<exists>inner. resp = final_response_bytes i inner \<and> ran_installed_app A W E sha i (pl_wasm (g_pending_teep_live t))
       (pl_command (g_pending_teep_live t))
       (pl_app_input (g_pending_teep_live t)) 4096 (objs w') inner))"
proof -
  let ?live = "g_pending_teep_live t"
  obtain w1 where m: "run_state (tee_malloc A TEEP_AGENT_HOST_IO_RESPONSE_SIZE_MAX) w = (True, w1)"
    and i: "i = pl_request_id ?live"
    using run by (cases "run_state (tee_malloc A TEEP_AGENT_HOST_IO_RESPONSE_SIZE_MAX) w")
      (auto simp: resume_pending_teep_live_def Let_def mem_compare_eq0 split: if_splits)
  obtain susp b w2 t2 where r: "run_state (resume_run A W E ?live result n) (w1, t) = ((susp, b), (w2, t2))"
    by (metis surj_pair)
  with run m have b: "b = (len, Inr resp)" and w2: "w' = w2"
    by (cases susp; auto simp: resume_pending_teep_live_def Let_def split: if_splits)+
  from r [unfolded b] obtain result' s1 where said: "\<And>out. snd result' = Inr out \<Longrightarrow> agent_said A W E (pl_request_id ?live) (pl_wasm ?live) out"
    and o: "run_state (resume_output A W ?live n result') s1 = ((susp, len, Inr resp), (w2, t2))"
    by (rule resume_run_output) (rule that; assumption)
  have "run_state (resume_output A W ?live n result') (fst s1, snd s1) = ((susp, len, Inr resp), (w2, t2))" using o by simp
  from resume_output_verified [OF laws rel rt ri said this] show ?thesis using i w2 by simp
qed

text \<open>The same for a command that resolves and executes at once.\<close>

lemma execute_verified:
  assumes laws: "storage_laws A objs hobj sha" and rel: "storage_reliable A objs hobj" and rt: "runtime_laws objs W E"
    and s: "resolver_mode_view s = ascii ''attestam-verified''" "command_view s \<in> set app_commands"
    and run: "run_state (execute_command A W E s n) (w, t) = (Inr (len, Inr resp), (w', t'))"
  shows "teep_output_is_need_host_io resp \<or>
    (\<exists>code message. resp = teep_error_response_bytes (request_id_view s) code message (command_view s)) \<or>
    ran_installed_app A W E sha (request_id_view s) (wasm_view s) (command_view s) (app_input_view s) n (objs w') resp"
proof -
  have cmd: "command_view s \<noteq> ascii ''teep-agent-resolve''" "command_view s \<noteq> ascii ''teep-agent-resolve-wrapped''"
    "list_ex (bytes_view_eq (command_view s)) app_commands"
    using s(2) by (auto simp: app_commands_def view_eq_iff)
  obtain r w1 t1 where r: "run_state (resolve_application A W E s n) (w, t) = (r, (w1, t1))" by (metis surj_pair)
  have after: "run_state (case r of Refused e \<Rightarrow> State_Monad.return (Inl e) | Answered b \<Rightarrow> State_Monad.return (Inr b)
      | Authorised binary limits \<Rightarrow> do {
          b \<leftarrow> execute_production_app_wasm W (request_id_view s) (command_view s) (app_input_view s) binary limits n;
          State_Monad.return (Inr b) }) (w1, t1) = (Inr (len, Inr resp), (w', t'))"
    using run r cmd by (simp add: execute_command_def view_eq_iff)
  have nr: "r \<noteq> Refused e" for e using after by auto
  let ?ag = "\<lambda>inp. execute_teep_agent_resolve A W E (request_id_view s) (wasm_view s) inp (catalog_view s) (app_wasm_view s)
      (dev_agent_public_key_view s) TEEP_AGENT_PENDING_NONE [] TEEP_AGENT_HOST_IO_RESPONSE_SIZE_MAX"
  from r s(1) nr obtain inp s0 where "run_state (do { result \<leftarrow> ?ag inp; resolve_output A s inp n result }) s0 = (r, (w1, t1))"
    unfolding resolve_application_def by (auto simp: view_eq_iff split: if_splits sum.splits)
  then obtain result s1 where ag: "run_state (?ag inp) s0 = (result, s1)"
    and o: "run_state (resolve_output A s inp n result) s1 = (r, (w1, t1))" by (rule run_bindE)
  obtain w2 t2 where s1: "s1 = (w2, t2)" by (cases s1)
  note out = o [unfolded s1] and said = agent_saidI [OF ag]
  show ?thesis
  proof (cases r)
    case (Refused e)
    with after show ?thesis by simp
  next
    case (Answered b)
    with after have "b = (len, Inr resp)" by simp
    with out Answered show ?thesis
      by (auto simp: resolve_output_def Let_def build_teep_error_execute_response_def dest!: built_in_ok
          split: sum.splits if_splits prod.splits)
  next
    case (Authorised binary limits)
    with out obtain outp where res: "snd result = Inr outp" and app: "run_state (authorised_app A True (app_wasm_view s) outp) w2 = (Inr (binary, limits), w1)"
      "t1 = t2"
      using s(1)
      by (auto simp: resolve_output_def Let_def view_eq_iff split: sum.splits if_splits prod.splits) (metis prod.collapse)
    have ex: "run_state (execute_production_app_wasm W (request_id_view s) (command_view s) (app_input_view s)
        binary limits n) (w1, t1) = ((len, Inr resp), (w', t'))"
      using after Authorised by (auto split: prod.splits)
    from authorised_run [OF laws rel rt said [OF res] app(1) ex] show ?thesis by simp
  qed
qed

section \<open>Properties\<close>

text \<open>
  C3. Whatever the agent does, a command commits at most once, and only with a transcript. No command
  but \<^verbatim>\<open>put\<close> changes persistent storage, for any agent, any application and any message of the host,
  except that there was the transcript of an HTTP exchange pending in the session before the command,
  and storage is as one single commit call left it that gave the digest of this transcript.
\<close>

theorem command_commits_once:
  assumes "storage_laws A objs hobj sha" and "runtime_laws objs W E"
    and "command \<noteq> TA_TWEP_WR_CMD_SECURE_STORAGE_PUT"
    and "run_state (twep_ta_dispatch_command A W E command ps) (w, t) = (r, (w', t'))"
  shows "objs w' = objs w \<or> transcript_pending t \<and>
    (\<exists>ctx c s1 r1 s2. objs (fst s1) = objs w \<and> g_pending_host_io (snd s1) = g_pending_host_io t \<and>
       length (call_digest c) = 32 \<and> mem_compare (ph_request_body_sha256 (g_pending_host_io t)) (call_digest c) = 0 \<and>
       run_state (run_call A ctx c) s1 = (r1, s2) \<and> objs (fst s2) = objs w')"
  using one_commit_storage [OF one_commit_dispatch [OF assms(1-3)] assms(4)]
  unfolding authorised_commit_def by simp


text \<open>
  C5. Along any sequence of calls of the entry points, with any number of sessions, the counters of
  the instance are exact and the limits hold: the count and the bytes of pending transcripts are the
  sums over the open sessions, at most 2 and 64 KiB, no transcript exceeds 32 KiB and no history 8
  answers; and the count of kept modules is the number of sessions with one, and while it
  is not zero the Wasm runtime, which owns them, stays initialised.
\<close>

theorem instance_invariant:
  assumes "(ta_step A W E session_size)\<^sup>*\<^sup>* (w0, ta_created) (w, inst)"
  shows "g_pending_http_transcript_count (ti_vars inst) = total session_transcripts inst \<and>
    g_pending_http_transcript_bytes (ti_vars inst) = total session_bytes inst \<and>
    g_teep_agent_live_session_count (ti_vars inst) = total lives inst \<and>
    total session_transcripts inst \<le> 2 \<and> total session_bytes inst \<le> 65536 \<and>
    (total lives inst \<noteq> 0 \<longrightarrow> g_wamr_runtime_initialized (ti_vars inst)) \<and>
    (\<forall>s. Some s \<in> set (ti_sessions inst) \<longrightarrow> session_bytes s \<le> 32768 \<and> length (pl_history (pending_teep_live s)) \<le> 8)"
proof -
  have "instance_inv (snd (w, inst))"
    using assms by (induction rule: rtranclp_induct) (use instance_created instance_step in auto)
  then show ?thesis
    by (simp add: instance_inv_def TEEP_AGENT_TRANSCRIPT_COUNT_MAX_def TEEP_AGENT_TRANSCRIPT_AGGREGATE_SIZE_MAX_def
        TEEP_AGENT_TRANSCRIPT_SIZE_MAX_def TEEP_AGENT_HOST_IO_HISTORY_MAX_def)
qed

section \<open>Concrete instances\<close>

text \<open>
  A runtime whose instances are the modules themselves: the agent returns the authorisation of an
  application, every other module a document with a standard output, and the output lies at address 16.
\<close>

definition agent_output1 :: bytes where
  "agent_output1 = [0xa2] @ cbor_write_text (ascii ''status'') @ cbor_write_text (ascii ''ok'') @
     cbor_write_text (ascii ''app'') @ [0xa1] @ cbor_write_text (ascii ''sha256'') @ cbor_write_bstr (toy_digest [0, 1])"

definition app_output1 :: bytes where
  "app_output1 = [0xa1] @ cbor_write_text (ascii ''stdout'') @ cbor_write_bstr [7]"

definition toy_output :: "bytes \<Rightarrow> bytes" where
  "toy_output m = (if m = signed1 then agent_output1 else app_output1)"

definition toy_result :: "bytes \<Rightarrow> u32" where
  "toy_result f = (if f = ascii ''twep_app_abi_version'' then 1 else 0)"

definition toy_wamr :: "(device, bytes) wamr" where
  "toy_wamr = \<lparr>wamr_init = State_Monad.return True, wamr_register_natives = State_Monad.return True,
     wamr_load = (\<lambda>m. State_Monad.return True), wamr_instantiate = (\<lambda>m s h. State_Monad.return (Some m)),
     wamr_create_exec_env = (\<lambda>i s. State_Monad.return True), wamr_module_malloc = (\<lambda>i n. (i, 8, True)),
     wamr_write = (\<lambda>i p bs. i),
     wamr_read = (\<lambda>i p n. if p = 8 then [16, 0, 0, 0, of_nat (length (toy_output i)), 0, 0, 0] else toy_output i),
     wamr_validate_app_addr = (\<lambda>i p n. True), wamr_addr_app_to_native = (\<lambda>i p. True),
     wamr_set_instruction_count_limit = (\<lambda>i b. i), wamr_lookup_function = (\<lambda>i f. True),
     wamr_call = (\<lambda>i f args. Done (Some (toy_result f)) i), wamr_call_plain = (\<lambda>i f args. (Some (toy_result f), i))\<rparr>"

definition toy_platform :: "device platform" where
  "toy_platform = \<lparr>platform_random = (\<lambda>n. State_Monad.return (replicate n 4)), platform_time = State_Monad.return (0, 0),
     platform_ecdsa = accept_sig, platform_backend = ascii ''optee''\<rparr>"

lemma toy_runtime_laws: "runtime_laws dev_objs toy_wamr toy_platform"
  by (simp add: runtime_laws_def keeps_def toy_wamr_def toy_platform_def accept_sig_def)

theorem command_commits_once_witness:
  "\<exists>r w' t'. run_state (twep_ta_dispatch_command (sim_api False) toy_wamr toy_platform TA_TWEP_WR_CMD_EXECUTE []) (cat_dev, run_ta) =
     (r, (w', t')) \<and> (dev_objs w' = dev_objs cat_dev \<or> transcript_pending run_ta)"
proof -
  obtain r w' t' where run: "run_state (twep_ta_dispatch_command (sim_api False) toy_wamr toy_platform TA_TWEP_WR_CMD_EXECUTE [])
      (cat_dev, run_ta) = (r, (w', t'))" by (metis surj_pair)
  have "TA_TWEP_WR_CMD_EXECUTE \<noteq> TA_TWEP_WR_CMD_SECURE_STORAGE_PUT"
    by (simp add: TA_TWEP_WR_CMD_EXECUTE_def TA_TWEP_WR_CMD_SECURE_STORAGE_PUT_def)
  from command_commits_once [OF sim_storage_laws toy_runtime_laws this run] run show ?thesis by blast
qed

lemma opened1: "run_state (twep_ta_session_open (sim_api False) 4096 ta_created) cat_dev =
    ((Inr 0, ta_created\<lparr>ti_sessions := [Some new_session]\<rparr>), cat_dev)"
  by (simp add: twep_ta_session_open_def sim_api_def ta_created_def)

theorem instance_invariant_witness:
  "g_pending_http_transcript_count (ti_vars ta_created) = total session_transcripts (ta_created\<lparr>ti_sessions := [Some new_session]\<rparr>)"
  using instance_invariant [OF r_into_rtranclp [where r = "ta_step (sim_api False) toy_wamr toy_platform 4096",
      OF TA_OpenSessionEntryPoint [OF opened1]]]
  by simp

section \<open>A verified request\<close>

text \<open>On a reliable device with an installed application, the authorisation succeeds.\<close>

lemma authorised_app_runs:
  assumes laws: "storage_laws A objs hobj sha" and rel: "storage_reliable A objs hobj"
    and spec: "app_spec sha (objs w) = Inr act" and parse: "parse_teep_resource_limits_output out
      production_resource_limits_default = Inr (limits, app_digest act, given)"
    and size: "app_wasm act \<noteq> []" "length (app_wasm act) \<le> TWEP_PROTECTED_APP_MAX_SIZE"
  shows "\<exists>w'. run_state (authorised_app A True supplied out) w = (Inr (app_wasm act, limits), w') \<and> objs w' = objs w"
proof -
  have load: "\<exists>w1. run_state (twep_app_read_active A b n) w0 = ((Some (length (app_wasm act)),
      if length (app_wasm act) > n then Inl ERROR_SHORT_BUFFER else if \<not> b then Inl ERROR_BAD_PARAMETERS
      else Inr (app_wasm act, app_digest act)), w1) \<and> objs w1 = objs w" if "objs w0 = objs w" for b n w0
  proof -
    have h: "hoare (\<lambda>w'. objs w' = objs w) (load_active_app A) (\<lambda>r w'. objs w' = objs w \<and> r = app_spec sha (objs w))"
      using crash_load_active_app [OF laws reliable_fail_stop [OF rel]] reliable_memory [OF rel]
      by (simp add: crash_hoare_False)
    obtain r w1 where run: "run_state (load_active_app A) w0 = (r, w1)" by fastforce
    with hoareD [OF h that run] spec show ?thesis by (simp add: twep_app_read_active_def)
  qed
  obtain w1 where 1: "run_state (twep_app_read_active A False 0) w = ((Some (length (app_wasm act)), Inl ERROR_SHORT_BUFFER), w1)"
    "objs w1 = objs w" using load [OF refl, of False 0] size(1) by auto
  obtain ok w2 where 2: "run_state (tee_malloc A (length (app_wasm act))) w1 = (ok, w2)" by fastforce
  have ok: "ok" and o2: "objs w2 = objs w"
    using hoareD [OF rel_malloc [OF rel] TrueI 2] hoareD [OF law_malloc [OF laws] _ 2, of "objs w1" "hobj w1"] 1(2) by simp_all
  obtain w3 where 3: "run_state (twep_app_read_active A True (length (app_wasm act))) w2 =
      ((Some (length (app_wasm act)), Inr (app_wasm act, app_digest act)), w3)" "objs w3 = objs w"
    using load [OF o2, of True "length (app_wasm act)"] by auto
  have "run_state (twep_load_protected_app A) w = (Inr (app_wasm act, app_digest act), w3)"
    using 1 2 3 ok size by (simp add: twep_load_protected_app_def Let_def)
  then show ?thesis using parse 3(2) by (simp add: authorised_app_def bind_or_def mem_compare_eq0)
qed

text \<open>A request in the verified mode that the agent authorises, on a device with an installed application.\<close>

definition verified_seen :: production_envelope_seen where
  "verified_seen = nothing_seen\<lparr>request_id_view := [1], command_view := ascii ''helloworld'',
     resolver_mode_view := ascii ''attestam-verified'', wasm_view := signed1\<rparr>"

definition verified_input :: bytes where
  "verified_input = resolve_input_bytes (ascii ''helloworld'') (ascii ''attestam-verified'') []"

definition app_act1 :: app_state where
  "app_act1 = app_of_record 0 1 3 app_id1 [0, 1] (toy_digest [0, 1])"

lemma verify_toy: "run_state (twep_ta_verify_teep_agent_wasm_signature (sim_api False) accept_sig signed1) w = (Inr (), w)"
proof -
  have "case find_signature signed1 of None \<Rightarrow> False | Some (n, p) \<Rightarrow> length (sp_signature p) = 64" by code_simp
  then show ?thesis
    by (auto simp: twep_ta_verify_teep_agent_wasm_signature_def twep_ta_sha256_bytes_def bind_or_def sim_api_def accept_sig_def
        split: option.splits)
qed

lemma verified_facts:
  "build_teep_resolve_input_for_command (ascii ''helloworld'') (ascii ''attestam-verified'') [] 256 = Inr verified_input"
  "parse_teep_resolve_input verified_input = Inr \<lparr>ri_command = ascii ''resolve_app'', ri_target_command = ascii ''helloworld'',
     ri_resolver_mode = ascii ''attestam-verified''\<rparr>"
  "\<not> teep_output_is_need_host_io agent_output1" "parse_teep_error_output agent_output1 = Inl ERROR_BAD_FORMAT"
  "parse_teep_resource_limits_output agent_output1 production_resource_limits_default =
     Inr (production_resource_limits_default, toy_digest [0, 1], False)"
  "extract_stdout_view app_output1 = Inr [7]" "length app_output1 = 10" "length agent_output1 = 57"
  "execute_response_len [1] [7] app_output1 \<le> 100" "[0, 1] \<noteq> signed1" "wasm_view verified_seen \<noteq> []"
  by code_simp+

lemma toy_output_view: "output_view toy_wamr m 8 = (16, if m = signed1 then 57 else 10)"
  by (simp add: output_view_def toy_wamr_def le32_def toy_output_def verified_facts)

lemma toy_ops [simp]:
  "wamr_init toy_wamr = State_Monad.return True" "wamr_register_natives toy_wamr = State_Monad.return True"
  "wamr_load toy_wamr m = State_Monad.return True" "wamr_instantiate toy_wamr m s h = State_Monad.return (Some m)"
  "wamr_create_exec_env toy_wamr i s = State_Monad.return True" "wamr_module_malloc toy_wamr i n = (i, 8, True)"
  "wamr_write toy_wamr i p bs = i" "wamr_validate_app_addr toy_wamr i p k" "wamr_addr_app_to_native toy_wamr i p"
  "wamr_read toy_wamr i 16 n = toy_output i"
  "wamr_set_instruction_count_limit toy_wamr i b = i" "wamr_lookup_function toy_wamr i f"
  "wamr_call toy_wamr i f args = Done (Some (toy_result f)) i" "wamr_call_plain toy_wamr i f args = (Some (toy_result f), i)"
  "platform_ecdsa toy_platform = accept_sig"
  by (simp_all add: toy_wamr_def toy_platform_def)

text \<open>The agent, in a session that has nothing kept from an earlier run.\<close>

lemma toy_agent_run:
  assumes "\<not> ls_active (live_session (g_session t))"
  shows "\<exists>t'. run_state (execute_teep_agent_resolve (sim_api False) toy_wamr toy_platform [1] signed1 verified_input [] [] []
      TEEP_AGENT_PENDING_NONE [] TEEP_AGENT_HOST_IO_RESPONSE_SIZE_MAX) (w, t) = ((Some 57, Inr agent_output1), (w, t'))"
proof -
  have out: "agent_output toy_wamr TEEP_AGENT_HOST_IO_RESPONSE_SIZE_MAX signed1 16 57 = (Some 57, Inr agent_output1)"
    by (simp add: agent_output_def TEEP_AGENT_HOST_IO_RESPONSE_SIZE_MAX_def TEEP_AGENT_TRANSCRIPT_SIZE_MAX_def
        toy_output_def verified_facts)
  have inp: "place_input toy_wamr verified_input i = (i, 8, True)" "place_descriptor toy_wamr i = (i, 8, True)" for i
    by (simp_all add: place_input_def place_descriptor_def verified_input_def resolve_input_bytes_def)
  have call: "run_state (call_agent_main (sim_api False) toy_wamr toy_platform verified_input False signed1
      TEEP_AGENT_HOST_IO_RESPONSE_SIZE_MAX signed1 ctx) (w, t0) = ((Some 57, Inr agent_output1), (w, t0))" for ctx t0
    by (simp add: call_agent_main_def inp out toy_result_def toy_output_view)
  have load: "run_state (load_agent (sim_api False) toy_wamr signed1) (w, t0) = (Inr (False, signed1), (w, t0))"
    if "\<not> ls_active (live_session (g_session t0))" for t0
    using that by (simp add: load_agent_def sim_api_def)
  show ?thesis
    using assms verify_toy
    by (auto simp: execute_teep_agent_resolve_def verified_facts install_dev_key_def supplied_files_def view_eq_iff
        twep_ta_ensure_wamr_runtime_def run_loaded_agent_def register_natives_def load instantiate_agent_def call)
qed

lemma toy_app_run:
  "\<exists>t'. run_state (execute_production_app_wasm toy_wamr [1] (ascii ''helloworld'') [] [0, 1] production_resource_limits_default n)
      (w, t) = (build_execute_response [1] [7] app_output1 n, (w, t'))"
proof -
  have "call_app_main toy_wamr [1] (ascii ''helloworld'') [] production_resource_limits_default b n [0, 1] =
      build_execute_response [1] [7] app_output1 n" for b
    by (simp add: call_app_main_def toy_result_def place_input_def place_descriptor_def app_output_response_def toy_output_view
        verified_facts production_resource_limits_default_def PRODUCTION_MAX_OUTPUT_SIZE_def toy_output_def)
  then show ?thesis
    by (auto simp: execute_production_app_wasm_def twep_ta_ensure_wamr_runtime_def twep_ta_wasm_has_import_section_def)
qed

lemma toy_verified_run:
  assumes seen: "request_id_view s = [1]" "command_view s = ascii ''helloworld''"
    "resolver_mode_view s = ascii ''attestam-verified''" "wasm_view s = signed1"
    "app_input_view s = []" "catalog_view s = []" "app_wasm_view s = []"
    "dev_agent_public_key_view s = []" "attestam_url_view s = []"
    and idle: "\<not> ls_active (live_session (g_session t))"
  shows "\<exists>w t'. run_state (handle_envelope (sim_api False) toy_wamr toy_platform TWEP_TA_ENVELOPE_EXECUTE s n) (app_dev, t) =
     (Inr (build_execute_response [1] [7] app_output1 n), (w, t')) \<and> dev_objs w = dev_objs app_dev"
proof -
  let ?t = "set_timeouts TWEP_TA_ENVELOPE_EXECUTE s t"
  have "\<not> ls_active (live_session (g_session ?t))" using idle by (simp add: set_timeouts_def)
  from toy_agent_run [OF this] obtain t1 where agent: "run_state (execute_teep_agent_resolve (sim_api False) toy_wamr toy_platform
      [1] signed1 verified_input [] [] [] TEEP_AGENT_PENDING_NONE [] TEEP_AGENT_HOST_IO_RESPONSE_SIZE_MAX) (app_dev, ?t) =
      ((Some 57, Inr agent_output1), (app_dev, t1))" by blast
  have act: "app_wasm app_act1 = [0, 1]" "app_digest app_act1 = toy_digest [0, 1]"
    by (simp_all add: app_act1_def app_of_record_def)
  from authorised_app_runs [OF sim_storage_laws sim_storage_reliable app_dev_facts(2) [folded app_act1_def], unfolded act,
      OF verified_facts(5)] obtain w1 where
    app: "run_state (authorised_app (sim_api False) True [] agent_output1) app_dev = (Inr ([0, 1], production_resource_limits_default), w1)"
    "dev_objs w1 = dev_objs app_dev" by (auto simp: TWEP_PROTECTED_APP_MAX_SIZE_def)
  from toy_app_run [of n w1 t1] obtain t2 where
    run: "run_state (execute_production_app_wasm toy_wamr [1] (ascii ''helloworld'') [] [0, 1] production_resource_limits_default n)
      (w1, t1) = (build_execute_response [1] [7] app_output1 n, (w1, t2))" by blast
  have "run_state (resolve_application (sim_api False) toy_wamr toy_platform s n) (app_dev, ?t) =
      (Authorised [0, 1] production_resource_limits_default, (w1, t1))"
    using agent app
    by (simp add: resolve_application_def seen verified_facts resolve_output_def view_eq_iff sim_api_def)
  then have "run_state (execute_command (sim_api False) toy_wamr toy_platform s n) (app_dev, ?t) =
      (Inr (build_execute_response [1] [7] app_output1 n), (w1, t2))"
    using run by (simp add: execute_command_def seen view_eq_iff app_commands_def)
  moreover have "probe_request s = None" by (simp add: probe_request_def seen view_eq_iff)
  moreover have "length signed1 \<noteq> 0" using verified_facts(11) by (simp add: verified_seen_def)
  ultimately show ?thesis
    using app(2) by (simp add: handle_envelope_def seen view_eq_iff)
qed

definition verified_run :: "(tee_error + built) \<times> device \<times> ta_state" where
  "verified_run = run_state (handle_envelope (sim_api False) toy_wamr toy_platform TWEP_TA_ENVELOPE_EXECUTE verified_seen 100)
     (app_dev, ti_vars ta_created)"

lemma verified_run_result:
  "\<exists>w t. verified_run = (Inr (Some (execute_response_len [1] [7] app_output1), Inr (execute_response_bytes [1] [7] app_output1)),
     (w, t)) \<and> dev_objs w = dev_objs app_dev"
  using toy_verified_run [of verified_seen "ti_vars ta_created" 100] verified_facts(9)
  by (simp add: verified_run_def verified_seen_def nothing_seen_def ta_created_def new_session_def zero_live_session_def
      build_execute_response_def built_in_def)


end
