(* ===== verification/Ree_Cbor.thy ===== *)
theory Ree_Cbor
  imports Runtime_Cbor
begin

text \<open>
  The CBOR readers of the host library (\<^verbatim>\<open>lib/twep-wr/src/runtime.c\<close>). A buffer with its length and
  the offset that the functions advance is a cursor. The skipper recurses without a limit on the
  depth; it is defined here with the depth as fuel, and the fuel chosen is proved to be enough.
\<close>

section \<open>Reading\<close>

definition twep_wr_cbor_read_head :: "cursor \<Rightarrow> (byte \<times> u64 \<times> cursor) option" where
  "twep_wr_cbor_read_head c =
     (if coff c \<ge> length (cbuf c) then None
      else let head = cbuf c ! coff c; c1 = adv 1 c; major = drop_bit 5 head; add = head AND 0x1f;
               len = length (cbuf c); b = (\<lambda>i. ucast (cbuf c1 ! (coff c1 + i)) :: u64) in
        if add < 24 then Some (major, ucast add, c1)
        else if add = 24 then (if coff c1 + 1 > len then None else Some (major, b 0, adv 1 c1))
        else if add = 25 then
          (if coff c1 + 2 > len then None else Some (major, push_bit 8 (b 0) OR b 1, adv 2 c1))
        else if add = 26 then
          (if coff c1 + 4 > len then None
           else Some (major, push_bit 24 (b 0) OR push_bit 16 (b 1) OR push_bit 8 (b 2) OR b 3, adv 4 c1))
        else None)"

text \<open>The head of a given major type, as all callers but the skipper ask for it.\<close>

definition read_major :: "cursor \<Rightarrow> byte \<Rightarrow> (u64 \<times> cursor) option" where
  "read_major c want =
     (case twep_wr_cbor_read_head c of None \<Rightarrow> None
      | Some (major, n, c1) \<Rightarrow> if major \<noteq> want then None else Some (n, c1))"

definition twep_wr_cbor_read_text_view :: "cursor \<Rightarrow> (bytes \<times> cursor) option" where
  "twep_wr_cbor_read_text_view c =
     (case read_major c 3 of None \<Rightarrow> None | Some (n, c1) \<Rightarrow> take_view n c1)"

definition twep_wr_cbor_read_bytes_view :: "cursor \<Rightarrow> (bytes \<times> cursor) option" where
  "twep_wr_cbor_read_bytes_view c =
     (case read_major c 2 of None \<Rightarrow> None | Some (n, c1) \<Rightarrow> take_view n c1)"

definition twep_wr_cbor_read_uint32 :: "cursor \<Rightarrow> (u32 \<times> cursor) option" where
  "twep_wr_cbor_read_uint32 c =
     (case read_major c 0 of None \<Rightarrow> None
      | Some (n, c1) \<Rightarrow> if n > 0xffffffff then None else Some (ucast n, c1))"

text \<open>One call of the skipper, with the recursive calls as an argument.\<close>

definition skip_body :: "(cursor \<Rightarrow> cursor option) \<Rightarrow> cursor \<Rightarrow> cursor option" where
  "skip_body skip c =
     (case twep_wr_cbor_read_head c of None \<Rightarrow> None
      | Some (major, n, c1) \<Rightarrow>
        if major = 0 \<or> major = 1 \<or> major = 7 then Some c1
        else if major = 2 \<or> major = 3 then map_option snd (take_view n c1)
        else if major = 4 then for_ok (unat n) skip c1
        else if major = 5 then
          for_ok (unat n) (\<lambda>c. case skip c of None \<Rightarrow> None | Some c' \<Rightarrow> skip c') c1
        else None)"

fun skip_fuel :: "nat \<Rightarrow> cursor \<Rightarrow> cursor option" where
  "skip_fuel 0 c = None"
| "skip_fuel (Suc depth) c = skip_body (skip_fuel depth) c"

definition twep_wr_cbor_skip_value :: "cursor \<Rightarrow> cursor option" where
  "twep_wr_cbor_skip_value c = skip_fuel (Suc (remaining c)) c"

definition twep_wr_bytes_equal_text :: "bytes \<Rightarrow> bytes \<Rightarrow> bool" where
  "twep_wr_bytes_equal_text view text \<longleftrightarrow> length view = length text \<and> mem_compare view text = 0"

text \<open>The string copied to a buffer of \<open>out_cap\<close> bytes with a terminating zero.\<close>

definition twep_wr_copy_text_view :: "bytes \<Rightarrow> nat \<Rightarrow> bytes option" where
  "twep_wr_copy_text_view view out_cap = (if length view \<ge> out_cap then None else Some view)"

section \<open>The reader as a restriction of the one of the trusted application\<close>

lemma nth_after_head:
  assumes "rest c = b # bs" and "i < length bs"
  shows "cbuf c ! (coff (adv 1 c) + i) = bs ! i"
proof -
  have "coff c + Suc i < length (cbuf c)" using arg_cong [OF assms(1), of length] assms(2) by (simp add: rest_def)
  then have "rest c ! Suc i = cbuf c ! (coff c + Suc i)" by (simp add: rest_def)
  then show ?thesis using assms by simp
qed

lemma take_nths:
  "1 \<le> length bs \<Longrightarrow> take 1 bs = [bs ! 0]"
  "2 \<le> length bs \<Longrightarrow> take 2 bs = [bs ! 0, bs ! 1]"
  "4 \<le> length bs \<Longrightarrow> take 4 bs = [bs ! 0, bs ! 1, bs ! 2, bs ! 3]"
proof -
  show "1 \<le> length bs \<Longrightarrow> take 1 bs = [bs ! 0]" by (cases bs) auto
  show "2 \<le> length bs \<Longrightarrow> take 2 bs = [bs ! 0, bs ! 1]" by (cases bs; cases "tl bs") auto
  show "4 \<le> length bs \<Longrightarrow> take 4 bs = [bs ! 0, bs ! 1, bs ! 2, bs ! 3]"
    by (intro nth_equalityI) (auto simp: less_Suc_eq numeral_eq_Suc)
qed

lemma be_fold_nths:
  "be_fold 0 [b0] = ucast b0" "be_fold 0 [b0, b1] = push_bit 8 (ucast b0) OR ucast b1"
  "be_fold 0 [b0, b1, b2, b3] =
     push_bit 24 (ucast b0) OR push_bit 16 (ucast b1) OR push_bit 8 (ucast b2) OR ucast b3"
  by (simp_all, rule bit_word_eqI, auto simp: bit_simps)

text \<open>The head reader on the unread bytes: the same as in the trusted application without 8-byte arguments.\<close>

lemma read_head_rest:
  "twep_wr_cbor_read_head c =
     (case rest c of [] \<Rightarrow> None
      | b # bs \<Rightarrow> if b AND 0x1f < 24 then Some (drop_bit 5 b, ucast (b AND 0x1f), adv 1 c)
          else case ai_bytes (b AND 0x1f) of None \<Rightarrow> None
          | Some k \<Rightarrow> if k = 8 \<or> k > length bs then None
              else Some (drop_bit 5 b, be_fold 0 (take k bs), adv (Suc k) c))"
proof (cases "rest c")
  case Nil
  then show ?thesis using length_rest_pos [of c] by (auto simp: twep_wr_cbor_read_head_def)
next
  case (Cons b bs)
  then have ini: "\<not> length (cbuf c) \<le> coff c" "cbuf c ! coff c = b"
    using length_rest_pos [of c] nth_rest [of c] by auto
  have len: "length (cbuf c) = Suc (coff c) + length bs"
    using arg_cong [OF Cons, of length] ini(1) by (simp add: rest_def)
  have b: "cbuf c ! (coff (adv 1 c) + i) = bs ! i" if "i < length bs" for i
    using nth_after_head [OF Cons that] .
  note unf = twep_wr_cbor_read_head_def Let_def ai_bytes_def Cons ini len be_fold_nths
  consider "b AND 0x1f < 24" | "b AND 0x1f = 24" | "b AND 0x1f = 25" | "b AND 0x1f = 26"
    | "\<not> b AND 0x1f < 24" "b AND 0x1f \<notin> {24, 25, 26}" by blast
  then show ?thesis
  proof cases
    case 2
    then show ?thesis using b [of 0] take_nths(1) [of bs] by (auto simp: unf Suc_le_eq)
  next
    case 3
    then show ?thesis
      using b [of 0] b [of 1] take_nths(2) [of bs] by (cases bs; simp add: unf del: cursor_simps) (auto simp: not_less)
  next
    case 4
    have "bs \<noteq> []" if "4 \<le> length bs" using that by auto
    with 4 show ?thesis
      using b [of 0] b [of 1] b [of 2] b [of 3] take_nths(3) [of bs]
      by (simp add: unf del: cursor_simps) (auto simp: not_less or.assoc)
  qed (simp_all add: unf)
qed

lemma read_major_eq:
  "read_major c m =
     (case cbor_read_len c m of None \<Rightarrow> None
      | Some (n, c') \<Rightarrow> if coff c' \<le> coff c + 5 then Some (n, c') else None)"
proof -
  have k: "ai_bytes a = Some k \<Longrightarrow> k \<noteq> 8 \<longleftrightarrow> Suc k \<le> 5" for a k
    by (auto simp: ai_bytes_def split: if_splits)
  show ?thesis
    by (auto simp: read_major_def read_head_rest cbor_read_len_rest k split: list.split option.split)
qed

lemma read_major_iff:
  "read_major c m = Some (n, c') \<longleftrightarrow>
     (\<exists>h zs. rest c = h @ zs \<and> is_head m n h \<and> length h \<le> 5 \<and> c' = adv (length h) c)"
proof -
  have "read_major c m = Some (n, c') \<longleftrightarrow> cbor_read_len c m = Some (n, c') \<and> coff c' \<le> coff c + 5"
    by (auto simp: read_major_eq split: option.splits if_splits)
  moreover have "coff (adv k c) \<le> coff c + 5 \<longleftrightarrow> k \<le> 5" for k by simp
  ultimately show ?thesis unfolding cbor_read_len_iff by blast
qed

lemma head_size: "m < 8 \<Longrightarrow> v \<le> 0xffffffff \<Longrightarrow> length (cbor_write_type_len m v) \<le> 5"
  by (simp add: rt.wr_size cbor_type_len_size_def)

text \<open>What the trusted application writes, the host library reads.\<close>

interpretation ta_ree: cbor_codec cbor_write_type_len read_major "\<lambda>v. v \<le> 0xffffffff" cbor_type_len_size
proof
  fix major :: byte and v :: u64 and c zs
  assume ok: "major < 8" "v \<le> 0xffffffff"
  then show "length (cbor_write_type_len major v) = cbor_type_len_size v" by (rule rt.wr_size)
  assume "rest c = cbor_write_type_len major v @ zs"
  with ok show "read_major c major = Some (v, adv (length (cbor_write_type_len major v)) c)"
    using rt.rd_wr head_size by (simp add: read_major_eq)
next
  fix c major v c'
  assume "read_major c major = Some (v, c')"
  then have "cbor_read_len c major = Some (v, c')" by (auto simp: read_major_eq split: option.splits if_splits)
  then show "\<exists>k>0. k \<le> remaining c \<and> c' = adv k c" by (rule rt.rd_adv)
qed

lemma major_view_iff:
  "(case read_major c m of None \<Rightarrow> None | Some (n, c1) \<Rightarrow> take_view n c1) = Some (v, c') \<longleftrightarrow>
     (\<exists>n h zs. rest c = h @ v @ zs \<and> is_head m n h \<and> length h \<le> 5 \<and> length v = unat n \<and> c' = adv (length h + length v) c)"
  (is "?L \<longleftrightarrow> ?R")
proof
  assume ?L
  then obtain n h zs where h: "rest c = h @ zs" "is_head m n h" "length h \<le> 5" "take_view n (adv (length h) c) = Some (v, c')"
    by (auto simp: read_major_iff split: option.splits)
  then have "unat n \<le> length zs" "v = take (unat n) zs" "c' = adv (length h + unat n) c"
    by (auto simp: take_view_Some remaining_rest)
  with h show ?R
    by (intro exI [of _ n] exI [of _ h] exI [of _ "drop (unat n) zs"]) simp
next
  assume ?R
  then obtain n h zs where h: "rest c = h @ v @ zs" "is_head m n h" "length h \<le> 5" "length v = unat n"
    "c' = adv (length h + length v) c" by blast
  then have "read_major c m = Some (n, adv (length h) c)" by (auto simp: read_major_iff)
  with h show ?L by (simp add: take_view_rest remaining_rest)
qed

lemmas ree_view_iff =
  major_view_iff [of _ 3, folded twep_wr_cbor_read_text_view_def]
  major_view_iff [of _ 2, folded twep_wr_cbor_read_bytes_view_def]

section \<open>Skipping\<close>

lemma read_head_progress: "twep_wr_cbor_read_head c = Some (m, n, c') \<Longrightarrow> remaining c' < remaining c"
  by (auto simp: read_head_rest remaining_rest split: list.splits if_splits option.splits)

lemma for_ok_progress:
  assumes "\<And>c c'. body c = Some c' \<Longrightarrow> remaining c' \<le> remaining c" and "for_ok n body c = Some c'"
  shows "remaining c' \<le> remaining c"
  using assms(2)
proof (induction n arbitrary: c)
  case (Suc n)
  then show ?case using assms(1) by (fastforce simp: for_ok_Suc split: option.splits)
qed simp

lemma skip_pair_progress:
  assumes "\<And>c c'. skip c = Some c' \<Longrightarrow> remaining c' \<le> remaining c"
    and "(case skip c of None \<Rightarrow> None | Some c' \<Rightarrow> skip c') = Some c''"
  shows "remaining c'' \<le> remaining c"
proof -
  from assms(2) obtain c' where "skip c = Some c'" "skip c' = Some c''" by (auto split: option.splits)
  then show ?thesis using assms(1) order_trans by blast
qed

lemma skip_body_progress:
  assumes "\<And>c c'. skip c = Some c' \<Longrightarrow> remaining c' \<le> remaining c" and "skip_body skip c = Some c'"
  shows "remaining c' < remaining c"
proof -
  from assms(2) obtain m n c1 where h: "twep_wr_cbor_read_head c = Some (m, n, c1)"
    by (auto simp: skip_body_def split: option.splits)
  have "remaining c' \<le> remaining c1"
    using assms(2) h for_ok_progress [of skip, OF assms(1)]
      for_ok_progress [of "\<lambda>c. case skip c of None \<Rightarrow> None | Some c' \<Rightarrow> skip c'", OF skip_pair_progress [of skip, OF assms(1)]]
    by (auto simp: skip_body_def take_view_Some remaining_def split: if_splits option.splits)
  with read_head_progress [OF h] show ?thesis by simp
qed

lemma skip_fuel_progress: "skip_fuel f c = Some c' \<Longrightarrow> remaining c' < remaining c"
proof (induction f arbitrary: c c')
  case (Suc f)
  then show ?case using skip_body_progress [of "skip_fuel f" c c'] less_imp_le by auto
qed simp

lemma for_ok_cong:
  assumes "\<And>c. remaining c \<le> r \<Longrightarrow> body c = body' c" and "\<And>c c'. body c = Some c' \<Longrightarrow> remaining c' \<le> remaining c"
  shows "remaining c \<le> r \<Longrightarrow> for_ok n body c = for_ok n body' c"
proof (induction n arbitrary: c)
  case (Suc n)
  have "for_ok n body c' = for_ok n body' c'" if "body c = Some c'" for c'
    using assms(2) [OF that] Suc.prems by (intro Suc.IH) simp
  then show ?case using assms(1) [OF Suc.prems] by (simp add: for_ok_Suc split: option.split)
qed simp

lemma skip_body_cong:
  assumes "\<And>c. remaining c < r \<Longrightarrow> skip c = skip' c" and "\<And>c c'. skip c = Some c' \<Longrightarrow> remaining c' \<le> remaining c"
    and "remaining c \<le> r"
  shows "skip_body skip c = skip_body skip' c"
proof (cases "twep_wr_cbor_read_head c")
  case None
  then show ?thesis by (simp add: skip_body_def)
next
  case (Some x)
  obtain m n c1 where x: "x = (m, n, c1)" by (cases x)
  have r: "remaining c1 \<le> r - 1" "0 < r" using read_head_progress [of c m n c1] Some x assms(3) by auto
  have eq: "skip c = skip' c" if "remaining c \<le> r - 1" for c using assms(1) [of c] that r(2) by simp
  have pair: "(case skip c of None \<Rightarrow> None | Some c' \<Rightarrow> skip c') = (case skip' c of None \<Rightarrow> None | Some c' \<Rightarrow> skip' c')"
    if "remaining c \<le> r - 1" for c
    using eq [OF that] eq assms(2) [of c] that by (auto split: option.split)
  have e1: "for_ok (unat n) skip c1 = for_ok (unat n) skip' c1"
    by (rule for_ok_cong [OF eq assms(2) r(1)])
  have e2: "for_ok (unat n) (\<lambda>c. case skip c of None \<Rightarrow> None | Some c' \<Rightarrow> skip c') c1 =
      for_ok (unat n) (\<lambda>c. case skip' c of None \<Rightarrow> None | Some c' \<Rightarrow> skip' c') c1"
    by (rule for_ok_cong [OF pair skip_pair_progress [of skip, OF assms(2)] r(1)])
  show ?thesis unfolding skip_body_def Some x option.case prod.case e1 e2 ..
qed

lemma skip_fuel_stable: "remaining c < f \<Longrightarrow> remaining c < f' \<Longrightarrow> skip_fuel f c = skip_fuel f' c"
proof (induction f arbitrary: f' c)
  case (Suc f)
  then obtain g where f': "f' = Suc g" by (cases f') auto
  have "skip_body (skip_fuel f) c = skip_body (skip_fuel g) c"
  proof (rule skip_body_cong)
    show "skip_fuel f c' = skip_fuel g c'" if "remaining c' < remaining c" for c'
      using that Suc.prems f' by (intro Suc.IH) auto
  qed (use skip_fuel_progress in \<open>auto intro: less_imp_le\<close>)
  then show ?case by (simp add: f')
qed simp

lemma skip_value_unfold: "twep_wr_cbor_skip_value c = skip_body twep_wr_cbor_skip_value c"
proof -
  have "skip_body (skip_fuel (remaining c)) c = skip_body twep_wr_cbor_skip_value c"
  proof (rule skip_body_cong)
    show "skip_fuel (remaining c) c' = twep_wr_cbor_skip_value c'" if "remaining c' < remaining c" for c'
      unfolding twep_wr_cbor_skip_value_def using that by (intro skip_fuel_stable) auto
  qed (use skip_fuel_progress in \<open>auto intro: less_imp_le\<close>)
  then show ?thesis by (simp add: twep_wr_cbor_skip_value_def)
qed

lemma skip_nested:
  assumes "rest c = replicate n 0x81 @ 0x00 # zs"
  shows "skip_fuel n c = None \<and> skip_fuel (Suc n) c = Some (adv (Suc n) c)"
  using assms
proof (induction n arbitrary: c)
  case 0
  then have "twep_wr_cbor_read_head c = Some (0, 0, adv 1 c)" by (simp add: read_head_rest)
  then show ?case by (simp add: skip_body_def)
next
  case (Suc n)
  then have h: "twep_wr_cbor_read_head c = Some (4, 1, adv 1 c)" by (simp add: read_head_rest)
  have "skip_fuel n (adv 1 c) = None \<and> skip_fuel (Suc n) (adv 1 c) = Some (adv (Suc n) (adv 1 c))"
    by (rule Suc.IH) (use Suc.prems in simp)
  then show ?case by (simp add: skip_body_def h for_ok_Suc [of 0, simplified])
qed

lemma skip_nested_more:
  "rest c = replicate n 0x81 @ 0x00 # zs \<Longrightarrow> skip_fuel (Suc (Suc n)) c = Some (adv (Suc n) c)"
proof (induction n arbitrary: c)
  case 0
  then have "twep_wr_cbor_read_head c = Some (0, 0, adv 1 c)" by (simp add: read_head_rest)
  then show ?case by (simp add: skip_body_def)
next
  case (Suc n)
  then have h: "twep_wr_cbor_read_head c = Some (4, 1, adv 1 c)" by (simp add: read_head_rest)
  have "skip_fuel (Suc (Suc n)) (adv 1 c) = Some (adv (Suc n) (adv 1 c))"
    by (rule Suc.IH) (use Suc.prems in simp)
  then show ?case
    by (subst skip_fuel.simps) (simp add: skip_body_def h for_ok_Suc [of 0, simplified] del: skip_fuel.simps)
qed

section \<open>Maps and values\<close>

interpretation ree: map_reader "\<lambda>c. read_major c 5" twep_wr_cbor_read_text_view "()"
proof
  show "\<exists>h zs. rest c = h @ zs \<and> c' = adv (length h) c" if "read_major c 5 = Some (n, c')" for c n c'
    using that by (auto simp: read_major_iff)
  fix c k c' assume "twep_wr_cbor_read_text_view c = Some (k, c')"
  then obtain h zs where "rest c = (h @ k) @ zs" "c' = adv (length (h @ k)) c"
    by (auto simp: ree_view_iff)
  then show "\<exists>h zs. rest c = h @ zs \<and> c' = adv (length h) c" by blast
qed

lemma ree_value_write [codec_simps]:
  "rest c = cbor_write_text v @ zs \<Longrightarrow> length v < 2 ^ 32 \<Longrightarrow>
     twep_wr_cbor_read_text_view c = Some (v, adv (length (cbor_write_text v)) c)"
  "rest c = cbor_write_bstr v @ zs \<Longrightarrow> length v < 2 ^ 32 \<Longrightarrow>
     twep_wr_cbor_read_bytes_view c = Some (v, adv (length (cbor_write_bstr v)) c)"
  unfolding twep_wr_cbor_read_text_view_def twep_wr_cbor_read_bytes_view_def
  by (simp_all add: cbor_write_text_def ta_ree.rd_view u32_le)

section \<open>Properties\<close>

text \<open>
  C21. The unbounded recursion of the host's skipper ends on every input: with more levels than unread
  bytes the result no longer depends on the number of levels, and the function defined this way
  satisfies the recursion of the source. The depth is not bounded by anything else: on nested arrays
  all the levels are needed.
\<close>

theorem skip_value_terminates:
  "twep_wr_cbor_skip_value c = skip_body twep_wr_cbor_skip_value c \<and>
   (remaining c < f \<longrightarrow> skip_fuel f c = twep_wr_cbor_skip_value c) \<and>
   skip_fuel n (mk_cursor (replicate n 0x81 @ [0x00])) = None \<and>
   twep_wr_cbor_skip_value (mk_cursor (replicate n 0x81 @ [0x00])) =
     Some (adv (Suc n) (mk_cursor (replicate n 0x81 @ [0x00])))"
proof -
  let ?c = "mk_cursor (replicate n 0x81 @ [0x00])"
  have r: "rest ?c = replicate n 0x81 @ 0x00 # []" by simp
  have v: "twep_wr_cbor_skip_value ?c = skip_fuel (Suc (Suc n)) ?c"
    by (simp add: twep_wr_cbor_skip_value_def remaining_rest del: skip_fuel.simps)
  have "skip_fuel (Suc (Suc n)) ?c = Some (adv (Suc n) ?c)"
    using skip_nested_more [OF r] .
  then show ?thesis
    using skip_value_unfold skip_nested [OF r] v
      skip_fuel_stable [of c f "Suc (remaining c)"]
    by (auto simp: twep_wr_cbor_skip_value_def simp del: skip_fuel.simps)
qed

theorem skip_value_terminates_witness:
  "skip_fuel 5 (mk_cursor [0x81, 0xf6, 0x00]) = twep_wr_cbor_skip_value (mk_cursor [0x81, 0xf6, 0x00])"
  using skip_value_terminates [of "mk_cursor [0x81, 0xf6, 0x00]" 5] by (simp add: remaining_rest)

end
