(* ===== verification/Ree_Runtime.thy ===== *)
theory Ree_Runtime
  imports Ree_Cbor
begin

text \<open>
  The entry points of the host library (\<^verbatim>\<open>lib/twep-wr/src/runtime.c\<close>): the context, the checks of a
  request before it goes to the backend and of the response that comes back, and the checks of the
  names under which the library touches files and protected objects. A C string is the list of its
  bytes before the terminating zero, and a pointer that may be null is an option. The output pointers
  of the interface are not null. \<open>mem i\<close> tells whether the \<open>i\<close>-th allocation of a call succeeds.
\<close>

section \<open>Data\<close>

datatype twep_wr_status_t =
  TWEP_WR_OK | TWEP_WR_ERR_INVALID_ARGUMENT | TWEP_WR_ERR_INIT | TWEP_WR_ERR_CATALOG | TWEP_WR_ERR_TEEP
| TWEP_WR_ERR_WASM_LOAD | TWEP_WR_ERR_WASM_ABI | TWEP_WR_ERR_WASM_RUNTIME | TWEP_WR_ERR_SECURITY
| TWEP_WR_ERR_NO_MEMORY | TWEP_WR_ERR_TEEP_NETWORK | TWEP_WR_ERR_TEEP_ATTESTATION_UNSUPPORTED
| TWEP_WR_ERR_WASM_SIGNATURE

definition TWEP_WR_ABI_VERSION :: u32 where
  "TWEP_WR_ABI_VERSION = 3"

definition TWEP_WR_MAX_COMMAND_LEN :: nat where
  "TWEP_WR_MAX_COMMAND_LEN = 32"

record twep_wr_normalized_request_t =
  rq_request_id :: "bytes option"
  rq_command :: "bytes option"
  rq_app_input :: "bytes option"
  rq_app_input_len :: nat
  rq_timeout_ms :: u32

text \<open>The bytes of the input; a null pointer has none.\<close>

definition app_input_bytes :: "twep_wr_normalized_request_t \<Rightarrow> bytes" where
  "app_input_bytes r = (case rq_app_input r of None \<Rightarrow> [] | Some b \<Rightarrow> b)"

text \<open>
  The callbacks of the embedder: from the two arguments to a status and the bytes stored, or only the
  length they would have when it exceeds the capacity. The type of the status is \<^verbatim>\<open>int32_t\<close>.
\<close>

type_synonym host_fn = "bytes \<Rightarrow> bytes \<Rightarrow> nat \<Rightarrow> int \<times> bytes"

record twep_wr_host_io_t =
  http_post :: "host_fn option"
  create_evidence :: "host_fn option"

record twep_wr_config_t =
  cf_state_dir :: "bytes option"
  cf_resolver_mode :: "bytes option"
  cf_attestam_url :: "bytes option"
  cf_insecure_demo_mode :: bool
  cf_default_timeout_ms :: u32
  cf_max_request_bytes :: u32
  cf_max_response_bytes :: u32

record twep_wr_context =
  abi_version :: u32
  runtime_initialized :: bool
  cx_state_dir :: bytes
  cx_resolver_mode :: "bytes option"
  cx_attestam_url :: "bytes option"
  insecure_demo_mode :: bool
  cx_default_timeout_ms :: u32
  max_request_bytes :: u32
  max_response_bytes :: u32
  host_io :: twep_wr_host_io_t

section \<open>Operations\<close>

definition twep_wr_is_valid_resolver_mode :: "bytes \<Rightarrow> bool" where
  "twep_wr_is_valid_resolver_mode mode \<longleftrightarrow>
     mode = ascii ''mock'' \<or> mode = ascii ''attestam-insecure'' \<or> mode = ascii ''attestam-verified''"

definition twep_wr_string_dup :: "bool \<Rightarrow> bytes \<Rightarrow> bytes option" where
  "twep_wr_string_dup ok s = (if \<not> ok then None else Some s)"

text \<open>
  \<open>optee\<close> selects the backend at compile time; without it the Wasm runtime is started and the
  functions of the agent are registered, whose results are parameters.
\<close>

definition twep_wr_init ::
  "bool \<Rightarrow> (nat \<Rightarrow> bool) \<Rightarrow> bool \<Rightarrow> twep_wr_status_t \<Rightarrow> twep_wr_config_t option \<Rightarrow> twep_wr_status_t + twep_wr_context" where
  "twep_wr_init optee mem wasm_runtime_init register_hostcalls config =
     (case config of None \<Rightarrow> Inl TWEP_WR_ERR_INVALID_ARGUMENT
      | Some cf \<Rightarrow>
        if cf_max_request_bytes cf = 0 \<or> cf_max_response_bytes cf = 0 then Inl TWEP_WR_ERR_INVALID_ARGUMENT
        else case (cf_state_dir cf, cf_resolver_mode cf, cf_attestam_url cf) of
          (Some state_dir, Some mode, Some url) \<Rightarrow>
            if state_dir = [] then Inl TWEP_WR_ERR_INVALID_ARGUMENT
            else if \<not> twep_wr_is_valid_resolver_mode mode then Inl TWEP_WR_ERR_INVALID_ARGUMENT
            else if mode = ascii ''attestam-verified'' \<and> cf_insecure_demo_mode cf
            then Inl TWEP_WR_ERR_INVALID_ARGUMENT
            else if \<not> mem 0 then Inl TWEP_WR_ERR_NO_MEMORY
            else (case (twep_wr_string_dup (mem 1) state_dir, twep_wr_string_dup (mem 2) mode,
                        twep_wr_string_dup (mem 3) url) of
              (Some d, Some m, Some u) \<Rightarrow>
                let ctx = \<lparr>abi_version = 0, runtime_initialized = False, cx_state_dir = d,
                      cx_resolver_mode = Some m, cx_attestam_url = Some u,
                      insecure_demo_mode = cf_insecure_demo_mode cf,
                      cx_default_timeout_ms =
                        (if cf_default_timeout_ms cf = 0 then 5000 else cf_default_timeout_ms cf),
                      max_request_bytes = cf_max_request_bytes cf,
                      max_response_bytes = cf_max_response_bytes cf,
                      host_io = \<lparr>http_post = None, create_evidence = None\<rparr>\<rparr> in
                if optee then Inr (ctx\<lparr>abi_version := TWEP_WR_ABI_VERSION\<rparr>)
                else if \<not> wasm_runtime_init then Inl TWEP_WR_ERR_INIT
                else if register_hostcalls \<noteq> TWEP_WR_OK then Inl TWEP_WR_ERR_INIT
                else Inr (ctx\<lparr>runtime_initialized := True, abi_version := TWEP_WR_ABI_VERSION\<rparr>)
            | _ \<Rightarrow> Inl TWEP_WR_ERR_NO_MEMORY)
        | _ \<Rightarrow> Inl TWEP_WR_ERR_INVALID_ARGUMENT)"

text \<open>The checks before the backend is called, in their order.\<close>

definition execute_guard :: "twep_wr_context \<Rightarrow> twep_wr_normalized_request_t \<Rightarrow> twep_wr_status_t" where
  "execute_guard ctx request =
     (case (rq_request_id request, rq_command request) of
        (Some request_id, Some command) \<Rightarrow>
          if request_id = [] \<or> command = [] then TWEP_WR_ERR_INVALID_ARGUMENT
          else if abi_version ctx \<noteq> TWEP_WR_ABI_VERSION then TWEP_WR_ERR_INIT
          else if rq_app_input request = None \<and> rq_app_input_len request \<noteq> 0 then TWEP_WR_ERR_INVALID_ARGUMENT
          else if length command \<ge> TWEP_WR_MAX_COMMAND_LEN then TWEP_WR_ERR_INVALID_ARGUMENT
          else let remaining = unat (max_request_bytes ctx) in
            if length request_id > remaining then TWEP_WR_ERR_INVALID_ARGUMENT
            else let remaining = remaining - length request_id in
              if length command > remaining then TWEP_WR_ERR_INVALID_ARGUMENT
              else let remaining = remaining - length command in
                if rq_app_input_len request > remaining then TWEP_WR_ERR_INVALID_ARGUMENT
                else TWEP_WR_OK
      | _ \<Rightarrow> TWEP_WR_ERR_INVALID_ARGUMENT)"

text \<open>
  The call of the backend (\<open>run\<close>) changes the outside world \<open>'w\<close>. The response is \<open>None\<close> when the
  output holds a null pointer and the length 0.
\<close>

definition twep_wr_execute ::
  "(twep_wr_context \<Rightarrow> twep_wr_normalized_request_t \<Rightarrow> 'w \<Rightarrow> (twep_wr_status_t \<times> bytes option) \<times> 'w) \<Rightarrow>
   twep_wr_context option \<Rightarrow> twep_wr_normalized_request_t option \<Rightarrow> 'w \<Rightarrow> (twep_wr_status_t \<times> bytes option) \<times> 'w" where
  "twep_wr_execute run ctx request w =
     (case (ctx, request) of
        (Some ctx, Some request) \<Rightarrow>
          if execute_guard ctx request \<noteq> TWEP_WR_OK then ((execute_guard ctx request, None), w)
          else (case run ctx request w of
            ((status, response), w') \<Rightarrow>
              if status = TWEP_WR_OK \<and> length (case response of None \<Rightarrow> [] | Some r \<Rightarrow> r) > unat (max_response_bytes ctx)
              then ((TWEP_WR_ERR_WASM_RUNTIME, None), w')
              else ((status, response), w'))
      | _ \<Rightarrow> ((TWEP_WR_ERR_INVALID_ARGUMENT, None), w))"

definition twep_wr_set_host_io ::
  "twep_wr_context option \<Rightarrow> twep_wr_host_io_t option \<Rightarrow> twep_wr_status_t \<times> twep_wr_context option" where
  "twep_wr_set_host_io ctx io =
     (case ctx of None \<Rightarrow> (TWEP_WR_ERR_INVALID_ARGUMENT, None)
      | Some c \<Rightarrow>
        (case io of
           None \<Rightarrow> (TWEP_WR_OK, Some (c\<lparr>host_io := \<lparr>http_post = None, create_evidence = None\<rparr>\<rparr>))
         | Some h \<Rightarrow> (TWEP_WR_OK, Some (c\<lparr>host_io := h\<rparr>))))"

fun twep_wr_status_string :: "twep_wr_status_t \<Rightarrow> bytes" where
  "twep_wr_status_string TWEP_WR_OK = ascii ''ok''"
| "twep_wr_status_string TWEP_WR_ERR_INVALID_ARGUMENT = ascii ''invalid argument''"
| "twep_wr_status_string TWEP_WR_ERR_INIT = ascii ''init error''"
| "twep_wr_status_string TWEP_WR_ERR_CATALOG = ascii ''catalog error''"
| "twep_wr_status_string TWEP_WR_ERR_TEEP = ascii ''teep error''"
| "twep_wr_status_string TWEP_WR_ERR_WASM_LOAD = ascii ''wasm load error''"
| "twep_wr_status_string TWEP_WR_ERR_WASM_ABI = ascii ''wasm abi error''"
| "twep_wr_status_string TWEP_WR_ERR_WASM_RUNTIME = ascii ''wasm runtime error''"
| "twep_wr_status_string TWEP_WR_ERR_SECURITY = ascii ''security error''"
| "twep_wr_status_string TWEP_WR_ERR_NO_MEMORY = ascii ''no memory''"
| "twep_wr_status_string TWEP_WR_ERR_TEEP_NETWORK = ascii ''teep network error''"
| "twep_wr_status_string TWEP_WR_ERR_TEEP_ATTESTATION_UNSUPPORTED = ascii ''teep attestation unsupported''"
| "twep_wr_status_string TWEP_WR_ERR_WASM_SIGNATURE = ascii ''wasm signature error''"

section \<open>Names\<close>

abbreviation slash :: byte where "slash \<equiv> 0x2f"
abbreviation backslash :: byte where "backslash \<equiv> 0x5c"
abbreviation dot :: byte where "dot \<equiv> 0x2e"

text \<open>\<^verbatim>\<open>strstr(out, "..") != NULL\<close>\<close>

fun has_dotdot :: "bytes \<Rightarrow> bool" where
  "has_dotdot (a # b # bs) \<longleftrightarrow> a = dot \<and> b = dot \<or> has_dotdot (b # bs)"
| "has_dotdot _ \<longleftrightarrow> False"

definition twep_wr_relative_state_file_path :: "bytes option \<Rightarrow> nat \<Rightarrow> bytes option" where
  "twep_wr_relative_state_file_path path out_cap =
     (case path of None \<Rightarrow> None
      | Some p \<Rightarrow>
        if length p = 0 \<or> length p \<ge> out_cap then None
        else if hd p = slash \<or> hd p = backslash then None
        else if list_ex (\<lambda>c. c = 0 \<or> c = backslash) p then None
        else if has_dotdot p then None
        else Some p)"

definition name_char :: "byte \<Rightarrow> bool" where
  "name_char ch \<longleftrightarrow> ch \<ge> of_char CHR ''A'' \<and> ch \<le> of_char CHR ''Z'' \<or>
     ch \<ge> of_char CHR ''a'' \<and> ch \<le> of_char CHR ''z'' \<or>
     ch \<ge> of_char CHR ''0'' \<and> ch \<le> of_char CHR ''9'' \<or>
     ch = of_char CHR ''-'' \<or> ch = of_char CHR ''_'' \<or> ch = dot"

definition twep_wr_protected_object_name :: "bytes option \<Rightarrow> nat \<Rightarrow> bytes option" where
  "twep_wr_protected_object_name name out_cap =
     (case name of None \<Rightarrow> None
      | Some n \<Rightarrow>
        if length n = 0 \<or> length n \<ge> out_cap \<or> hd n = dot then None
        else if \<not> list_all name_char n then None
        else Some n)"

text \<open>\<^verbatim>\<open>snprintf(out, out_cap, "%s/%s", ...)\<close> and its truncation check.\<close>

definition twep_wr_state_relative_path :: "twep_wr_context \<Rightarrow> bytes \<Rightarrow> nat \<Rightarrow> bytes option" where
  "twep_wr_state_relative_path ctx relative out_cap =
     (let s = cx_state_dir ctx @ [slash] @ relative in if length s < out_cap then Some s else None)"

section \<open>The size check\<close>

text \<open>The three comparisons against a shrinking rest are one comparison of the sum.\<close>

lemma execute_guard_iff:
  "execute_guard ctx request = TWEP_WR_OK \<longleftrightarrow>
     (\<exists>request_id command. rq_request_id request = Some request_id \<and> rq_command request = Some command \<and>
        request_id \<noteq> [] \<and> command \<noteq> [] \<and> length command < TWEP_WR_MAX_COMMAND_LEN \<and>
        abi_version ctx = TWEP_WR_ABI_VERSION \<and>
        (rq_app_input request = None \<longrightarrow> rq_app_input_len request = 0) \<and>
        length request_id + length command + rq_app_input_len request \<le> unat (max_request_bytes ctx))"
  by (auto simp: execute_guard_def Let_def split: option.splits)

lemma init_ok:
  assumes "twep_wr_init optee mem wasm reg config = Inr ctx"
  shows "abi_version ctx = TWEP_WR_ABI_VERSION" and "cx_default_timeout_ms ctx \<noteq> 0"
    and "max_request_bytes ctx \<noteq> 0" and "max_response_bytes ctx \<noteq> 0" and "cx_state_dir ctx \<noteq> []"
    and "\<exists>mode. cx_resolver_mode ctx = Some mode \<and> twep_wr_is_valid_resolver_mode mode \<and>
           (mode = ascii ''attestam-verified'' \<longrightarrow> \<not> insecure_demo_mode ctx)"
    and "runtime_initialized ctx \<longleftrightarrow> \<not> optee" and "host_io ctx = \<lparr>http_post = None, create_evidence = None\<rparr>"
  using assms
  by (auto simp: twep_wr_init_def Let_def twep_wr_string_dup_def split: option.splits if_splits)

section \<open>Paths\<close>

text \<open>
  How the operating system resolves a relative path from a directory, given as the list of its
  components: empty components and \<open>.\<close> stay, \<open>..\<close> goes to the parent.
\<close>

fun path_parts :: "bytes \<Rightarrow> bytes list" where
  "path_parts [] = [[]]"
| "path_parts (c # cs) = (if c = slash then [] # path_parts cs else (c # hd (path_parts cs)) # tl (path_parts cs))"

definition path_step :: "bytes \<Rightarrow> bytes list \<Rightarrow> bytes list" where
  "path_step part dir = (if part = [] \<or> part = [dot] then dir else if part = [dot, dot] then butlast dir else dir @ [part])"

definition resolve_path :: "bytes list \<Rightarrow> bytes \<Rightarrow> bytes list" where
  "resolve_path dir p = fold path_step (path_parts p) dir"

lemma path_parts_nonempty [simp]: "path_parts p \<noteq> []"
  by (cases p) auto

lemma no_dotdot_tail: "\<not> has_dotdot (c # cs) \<Longrightarrow> \<not> has_dotdot cs"
  by (cases cs) auto

lemma parts_no_dotdot: "\<not> has_dotdot p \<Longrightarrow> part \<in> set (path_parts p) \<Longrightarrow> \<not> has_dotdot part"
proof (induction p arbitrary: part)
  case (Cons c cs)
  note tl = no_dotdot_tail [OF Cons.prems(1)]
  show ?case
  proof (cases "c = slash")
    case False
    have hd: "\<not> has_dotdot (hd (path_parts cs))" using Cons.IH [OF tl] hd_in_set by force
    have "\<not> has_dotdot (c # hd (path_parts cs))"
      using hd Cons.prems(1) by (cases cs; cases "hd cs = slash") auto
    moreover have "part \<in> set (tl (path_parts cs)) \<Longrightarrow> \<not> has_dotdot part"
      using Cons.IH [OF tl] by (meson list.set_sel(2) path_parts_nonempty)
    ultimately show ?thesis using Cons.prems(2) False by auto
  qed (use Cons tl in auto)
qed simp

lemma resolve_inside:
  assumes "\<forall>part \<in> set parts. part \<noteq> [dot, dot]"
  shows "prefix dir (fold path_step parts dir)"
  using assms
proof (induction parts arbitrary: dir)
  case (Cons part parts)
  have "prefix dir (path_step part dir)" using Cons.prems by (simp add: path_step_def)
  with Cons show ?case using prefix_order.order_trans by fastforce
qed simp

lemma name_parts: "list_all name_char n \<Longrightarrow> path_parts n = [n]"
  by (induction n) (auto simp: name_char_def)

section \<open>Properties\<close>

text \<open>
  The library passes a request to the backend exactly when the combined length of identifier,
  command and input is within the configured limit and the other checks pass; otherwise nothing
  outside is touched and no response is returned. A response longer than the configured maximum is
  never returned.
\<close>

theorem execute_checked:
  assumes "twep_wr_execute run (Some ctx) (Some request) w = ((status, response), w')"
  shows "(execute_guard ctx request \<noteq> TWEP_WR_OK \<longrightarrow>
            status = execute_guard ctx request \<and> response = None \<and> w' = w) \<and>
     (execute_guard ctx request = TWEP_WR_OK \<longrightarrow> w' = snd (run ctx request w)) \<and>
     (status = TWEP_WR_OK \<longrightarrow>
        length (the (rq_request_id request)) + length (the (rq_command request)) + rq_app_input_len request
          \<le> unat (max_request_bytes ctx) \<and>
        length (case response of None \<Rightarrow> [] | Some r \<Rightarrow> r) \<le> unat (max_response_bytes ctx) \<and>
        fst (run ctx request w) = (TWEP_WR_OK, response))"
proof -
  have "status = TWEP_WR_OK \<Longrightarrow> execute_guard ctx request = TWEP_WR_OK"
    using assms by (auto simp: twep_wr_execute_def split: if_splits)
  then show ?thesis
    using assms by (auto simp: twep_wr_execute_def execute_guard_iff not_less split: if_splits prod.splits)
qed

text \<open>
  A context from \<^verbatim>\<open>twep_wr_init\<close> is well formed: its ABI version passes the check of every
  request, its limits and default timeout are not zero, its resolver mode is one of the three
  documented ones, and the verified mode is never combined with the insecure flag.
\<close>

theorem init_well_formed:
  assumes "twep_wr_init optee mem wasm reg config = Inr ctx"
  shows "abi_version ctx = TWEP_WR_ABI_VERSION \<and> cx_default_timeout_ms ctx \<noteq> 0 \<and>
     max_request_bytes ctx \<noteq> 0 \<and> max_response_bytes ctx \<noteq> 0 \<and> cx_state_dir ctx \<noteq> [] \<and>
     (\<exists>mode. cx_resolver_mode ctx = Some mode \<and> twep_wr_is_valid_resolver_mode mode \<and>
        (mode = ascii ''attestam-verified'' \<longrightarrow> \<not> insecure_demo_mode ctx))"
  using init_ok [OF assms] by simp

text \<open>
  A relative path that the library accepts resolves to a place below the directory it starts
  from, whatever the directory is, and an accepted name of a protected object is one file in it.
\<close>

theorem accepted_paths_inside:
  "(twep_wr_relative_state_file_path path cap = Some p \<longrightarrow> prefix dir (resolve_path dir p)) \<and>
   (twep_wr_protected_object_name name cap = Some n \<longrightarrow> resolve_path dir n = dir @ [n])"
proof (intro conjI impI)
  assume "twep_wr_relative_state_file_path path cap = Some p"
  then have "\<not> has_dotdot p" by (auto simp: twep_wr_relative_state_file_path_def split: option.splits if_splits)
  then have "\<forall>part \<in> set (path_parts p). part \<noteq> [dot, dot]" using parts_no_dotdot by fastforce
  then show "prefix dir (resolve_path dir p)" unfolding resolve_path_def by (rule resolve_inside)
next
  assume "twep_wr_protected_object_name name cap = Some n"
  then have "list_all name_char n" "n \<noteq> []" "hd n \<noteq> dot"
    by (auto simp: twep_wr_protected_object_name_def split: option.splits if_splits)
  then show "resolve_path dir n = dir @ [n]"
    by (auto simp: resolve_path_def name_parts path_step_def)
qed

section \<open>Concrete instances\<close>

definition config1 :: twep_wr_config_t where
  "config1 = \<lparr>cf_state_dir = Some (ascii ''state''), cf_resolver_mode = Some (ascii ''mock''),
     cf_attestam_url = Some [], cf_insecure_demo_mode = True, cf_default_timeout_ms = 0,
     cf_max_request_bytes = 16, cf_max_response_bytes = 2\<rparr>"

definition context1 :: twep_wr_context where
  "context1 = projr (twep_wr_init True (\<lambda>_. True) True TWEP_WR_OK (Some config1))"

definition request1 :: twep_wr_normalized_request_t where
  "request1 = \<lparr>rq_request_id = Some (ascii ''r1''), rq_command = Some (ascii ''calcadd''),
     rq_app_input = Some [0xa0], rq_app_input_len = 1, rq_timeout_ms = 0\<rparr>"

theorem execute_checked_witness:
  "length (ascii ''r1'') + length (ascii ''calcadd'') + 1 \<le> unat (max_request_bytes context1)"
proof -
  have "twep_wr_execute (\<lambda>_ _ w. ((TWEP_WR_OK, Some [0xa0]), w + 1)) (Some context1) (Some request1) (0 :: nat) =
      ((TWEP_WR_OK, Some [0xa0]), 1)" by code_simp
  from execute_checked [OF this] show ?thesis by (simp add: request1_def)
qed

theorem init_well_formed_witness:
  "abi_version context1 = TWEP_WR_ABI_VERSION \<and> cx_default_timeout_ms context1 \<noteq> 0"
proof -
  have "twep_wr_init True (\<lambda>_. True) True TWEP_WR_OK (Some config1) = Inr context1"
    by (simp add: context1_def config1_def twep_wr_init_def twep_wr_is_valid_resolver_mode_def twep_wr_string_dup_def)
  from init_well_formed [OF this] show ?thesis by simp
qed

theorem accepted_paths_inside_witness:
  "prefix [ascii ''state''] (resolve_path [ascii ''state''] (ascii ''a/./b'')) \<and>
   resolve_path [ascii ''state''] (ascii ''x.cbor'') = [ascii ''state'', ascii ''x.cbor'']"
proof -
  have "twep_wr_relative_state_file_path (Some (ascii ''a/./b'')) 64 = Some (ascii ''a/./b'')"
    "twep_wr_protected_object_name (Some (ascii ''x.cbor'')) 64 = Some (ascii ''x.cbor'')" by code_simp+
  then show ?thesis
    using accepted_paths_inside [of "Some (ascii ''a/./b'')" 64 "ascii ''a/./b''" "[ascii ''state'']"
      "Some (ascii ''x.cbor'')" "ascii ''x.cbor''"] by simp
qed

end
