(* ===== verification/Ree_Host_Io.thy ===== *)
theory Ree_Host_Io
  imports Ree_Runtime Host_Io
begin

text \<open>
  The host side of the protocol with the trusted application: the envelope of a request
  (\<^verbatim>\<open>platform/optee-common/optee_envelope.c\<close>), the parser of its responses, the host operations it
  asks for and the envelope that resumes it (\<^verbatim>\<open>platform/optee-common/optee_host_io.c\<close>). A
  \<^verbatim>\<open>bytes_view_t\<close> is \<open>None\<close> when its pointer is null. The lemmas connect both ends: what one side
  writes is what the other one reads.
\<close>

section \<open>The writers\<close>

text \<open>\<^verbatim>\<open>optee_envelope.c\<close> has its own copy of the writer.\<close>

definition env_type_len_size :: "u64 \<Rightarrow> nat" where
  "env_type_len_size n =
     (if n < 24 then 1 else if n \<le> 0xff then 2 else if n \<le> 0xffff then 3
      else if n \<le> 0xffffffff then 5 else 9)"

definition env_write_type_len :: "byte \<Rightarrow> u64 \<Rightarrow> bytes" where
  "env_write_type_len major n =
     (if n < 24 then [push_bit 5 major OR ucast n]
      else if n \<le> 0xff then [push_bit 5 major OR 24, ucast n]
      else if n \<le> 0xffff then [push_bit 5 major OR 25, ucast (drop_bit 8 n), ucast n]
      else [push_bit 5 major OR 26, ucast (drop_bit 24 n), ucast (drop_bit 16 n),
            ucast (drop_bit 8 n), ucast n])"

definition env_write_text :: "bytes \<Rightarrow> bytes" where
  "env_write_text text = env_write_type_len 3 (of_nat (length text)) @ text"

definition env_write_bytes :: "bytes \<Rightarrow> bytes" where
  "env_write_bytes bs = env_write_type_len 2 (of_nat (length bs)) @ (if length bs \<noteq> 0 then bs else [])"

definition text_field_len :: "bytes \<Rightarrow> bytes \<Rightarrow> nat" where
  "text_field_len key value =
     env_type_len_size (of_nat (length key)) + length key + env_type_len_size (of_nat (length value)) + length value"

definition bytes_field_len :: "bytes \<Rightarrow> nat \<Rightarrow> nat" where
  "bytes_field_len key value_len =
     env_type_len_size (of_nat (length key)) + length key + env_type_len_size (of_nat value_len) + value_len"

text \<open>\<^verbatim>\<open>optee_host_io.c\<close> has another one, with 8-byte arguments.\<close>

definition cbor_len_size :: "u64 \<Rightarrow> nat" where
  "cbor_len_size n =
     (if n < 24 then 1 else if n \<le> 0xff then 2 else if n \<le> 0xffff then 3
      else if n \<le> 0xffffffff then 5 else 9)"

definition hio_write_type_len :: "byte \<Rightarrow> u64 \<Rightarrow> bytes" where
  "hio_write_type_len major n =
     (if n < 24 then [push_bit 5 major OR ucast n]
      else if n \<le> 0xff then [push_bit 5 major OR 24, ucast n]
      else if n \<le> 0xffff then [push_bit 5 major OR 25, ucast (drop_bit 8 n), ucast n]
      else if n \<le> 0xffffffff then [push_bit 5 major OR 26, ucast (drop_bit 24 n), ucast (drop_bit 16 n),
            ucast (drop_bit 8 n), ucast n]
      else (push_bit 5 major OR 27) # be_bytes 8 n)"

definition hio_write_text :: "bytes \<Rightarrow> bytes" where
  "hio_write_text text = hio_write_type_len 3 (of_nat (length text)) @ text"

definition hio_write_bytes :: "bytes \<Rightarrow> bytes" where
  "hio_write_bytes bs = hio_write_type_len 2 (of_nat (length bs)) @ (if length bs \<noteq> 0 then bs else [])"

definition cbor_text_view_equals :: "bytes \<Rightarrow> bytes \<Rightarrow> bool" where
  "cbor_text_view_equals view text \<longleftrightarrow> length view = length text \<and> mem_compare view text = 0"

text \<open>A view with a null pointer has length 0.\<close>

definition view_bytes :: "bytes option \<Rightarrow> bytes" where
  "view_bytes v = (case v of None \<Rightarrow> [] | Some b \<Rightarrow> b)"

definition hio_write_text_view :: "bytes option \<Rightarrow> bytes" where
  "hio_write_text_view view = hio_write_type_len 3 (of_nat (length (view_bytes view))) @ view_bytes view"

section \<open>Envelopes\<close>

definition execute_envelope_len ::
  "bytes \<Rightarrow> bytes \<Rightarrow> bytes \<Rightarrow> bytes \<Rightarrow> nat \<Rightarrow> u32 \<Rightarrow> nat \<Rightarrow> nat \<Rightarrow> nat \<Rightarrow> nat \<Rightarrow> nat" where
  "execute_envelope_len request_id command resolver_mode attestam_url app_input_len timeout_ms
       wasm_len catalog_len app_wasm_len key_len =
     1 + text_field_len (ascii ''request_id'') request_id + text_field_len (ascii ''command'') command +
     text_field_len (ascii ''resolver_mode'') resolver_mode + text_field_len (ascii ''attestam_url'') attestam_url +
     env_type_len_size (of_nat (length (ascii ''insecure''))) + length (ascii ''insecure'') + 1 +
     bytes_field_len (ascii ''app_input_cbor'') app_input_len +
     env_type_len_size (of_nat (length (ascii ''request_timeout_ms''))) + length (ascii ''request_timeout_ms'') +
     env_type_len_size (ucast timeout_ms) + bytes_field_len (ascii ''wasm_bytes'') wasm_len +
     bytes_field_len (ascii ''catalog_cbor'') catalog_len +
     bytes_field_len (ascii ''app_wasm_bytes'') app_wasm_len +
     bytes_field_len (ascii ''dev_agent_public_key_cbor'') key_len"

definition twep_optee_make_execute_envelope ::
  "bool \<Rightarrow> twep_wr_context \<Rightarrow> bytes \<Rightarrow> bytes \<Rightarrow> bytes \<Rightarrow> bytes \<Rightarrow> bytes \<Rightarrow> bytes \<Rightarrow> bytes \<Rightarrow> u32 \<Rightarrow> (nat \<times> bytes) option" where
  "twep_optee_make_execute_envelope mem ctx request_id command app_input teep_agent_wasm catalog app_wasm
       dev_agent_public_key timeout_ms =
     (let resolver_mode = (case cx_resolver_mode ctx of None \<Rightarrow> ascii ''mock'' | Some m \<Rightarrow> m);
          attestam_url = (case cx_attestam_url ctx of None \<Rightarrow> [] | Some u \<Rightarrow> u);
          len = execute_envelope_len request_id command resolver_mode attestam_url (length app_input) timeout_ms
            (length teep_agent_wasm) (length catalog) (length app_wasm) (length dev_agent_public_key) in
      if \<not> mem then None
      else Some (len,
        [0xab] @ env_write_text (ascii ''request_id'') @ env_write_text request_id @
        env_write_text (ascii ''command'') @ env_write_text command @
        env_write_text (ascii ''resolver_mode'') @ env_write_text resolver_mode @
        env_write_text (ascii ''attestam_url'') @ env_write_text attestam_url @
        env_write_text (ascii ''insecure'') @ [if insecure_demo_mode ctx then 0xf5 else 0xf4] @
        env_write_text (ascii ''app_input_cbor'') @ env_write_bytes app_input @
        env_write_text (ascii ''request_timeout_ms'') @ env_write_type_len 0 (ucast timeout_ms) @
        env_write_text (ascii ''wasm_bytes'') @ env_write_bytes teep_agent_wasm @
        env_write_text (ascii ''catalog_cbor'') @ env_write_bytes catalog @
        env_write_text (ascii ''app_wasm_bytes'') @ env_write_bytes app_wasm @
        env_write_text (ascii ''dev_agent_public_key_cbor'') @ env_write_bytes dev_agent_public_key))"

definition resume_envelope_len :: "bytes \<Rightarrow> bytes \<Rightarrow> nat" where
  "resume_envelope_len request_id host_io_result =
     1 + cbor_len_size (of_nat (length (ascii ''request_id''))) + length (ascii ''request_id'') +
     cbor_len_size (of_nat (length request_id)) + length request_id +
     cbor_len_size (of_nat (length (ascii ''host_io_result_cbor''))) + length (ascii ''host_io_result_cbor'') +
     cbor_len_size (of_nat (length host_io_result)) + length host_io_result"

definition twep_optee_make_resume_envelope :: "bool \<Rightarrow> bytes option \<Rightarrow> bytes option \<Rightarrow> (nat \<times> bytes) option" where
  "twep_optee_make_resume_envelope mem request_id host_io_result =
     (case (request_id, host_io_result) of
        (Some rid, Some result) \<Rightarrow>
          if \<not> mem then None
          else Some (resume_envelope_len rid result,
            [0xa2] @ hio_write_text (ascii ''request_id'') @ hio_write_text_view (Some rid) @
            hio_write_text (ascii ''host_io_result_cbor'') @ hio_write_bytes result)
      | _ \<Rightarrow> None)"

section \<open>Responses\<close>

datatype twep_wr_optee_response_kind_t = TWEP_WR_OPTEE_RESPONSE_FINAL | TWEP_WR_OPTEE_RESPONSE_NEED_HOST_IO

record twep_wr_optee_need_host_io_t =
  nh_request_id :: "bytes option"
  nh_io_id :: "bytes option"
  nh_kind :: "bytes option"
  nh_url :: "bytes option"
  nh_body :: "bytes option"
  nh_challenge :: "bytes option"
  nh_agent_public_key_cose :: "bytes option"
  nh_request_body_sha256 :: "bytes option"
  nh_normalized_input_sha256 :: "bytes option"
  nh_sequence :: u32

definition no_need :: twep_wr_optee_need_host_io_t where
  "no_need = \<lparr>nh_request_id = None, nh_io_id = None, nh_kind = None, nh_url = None, nh_body = None,
     nh_challenge = None, nh_agent_public_key_cose = None, nh_request_body_sha256 = None,
     nh_normalized_input_sha256 = None, nh_sequence = 0\<rparr>"

record response_seen =
  have_final :: bool
  have_need :: bool
  out_final_response :: "bytes option"
  out_need :: twep_wr_optee_need_host_io_t

definition or_false :: "'a option \<Rightarrow> unit + 'a" where
  "or_false r = (case r of None \<Rightarrow> Inl () | Some x \<Rightarrow> Inr x)"

definition need_field :: "(unit, twep_wr_optee_need_host_io_t) field_parser" where
  "need_field key c s =
     (if cbor_text_view_equals key (ascii ''io_id'') then
        stored (\<lambda>v s. s\<lparr>nh_io_id := Some v\<rparr>) s (or_false (twep_wr_cbor_read_text_view c))
      else if cbor_text_view_equals key (ascii ''kind'') then
        stored (\<lambda>v s. s\<lparr>nh_kind := Some v\<rparr>) s (or_false (twep_wr_cbor_read_text_view c))
      else if cbor_text_view_equals key (ascii ''url'') then
        stored (\<lambda>v s. s\<lparr>nh_url := Some v\<rparr>) s (or_false (twep_wr_cbor_read_text_view c))
      else if cbor_text_view_equals key (ascii ''body'') then
        stored (\<lambda>v s. s\<lparr>nh_body := Some v\<rparr>) s (or_false (twep_wr_cbor_read_bytes_view c))
      else if cbor_text_view_equals key (ascii ''challenge'') then
        stored (\<lambda>v s. s\<lparr>nh_challenge := Some v\<rparr>) s (or_false (twep_wr_cbor_read_bytes_view c))
      else if cbor_text_view_equals key (ascii ''agent_public_key_cose'') then
        stored (\<lambda>v s. s\<lparr>nh_agent_public_key_cose := Some v\<rparr>) s (or_false (twep_wr_cbor_read_bytes_view c))
      else if cbor_text_view_equals key (ascii ''sequence'') then
        stored (\<lambda>v s. s\<lparr>nh_sequence := v\<rparr>) s (or_false (twep_wr_cbor_read_uint32 c))
      else if cbor_text_view_equals key (ascii ''request_body_sha256'') then
        stored (\<lambda>v s. s\<lparr>nh_request_body_sha256 := Some v\<rparr>) s (or_false (twep_wr_cbor_read_bytes_view c))
      else if cbor_text_view_equals key (ascii ''normalized_input_sha256'') then
        stored (\<lambda>v s. s\<lparr>nh_normalized_input_sha256 := Some v\<rparr>) s (or_false (twep_wr_cbor_read_bytes_view c))
      else passed id s (or_false (twep_wr_cbor_skip_value c)))"

definition ree_map_entries :: "(unit, 's) field_parser \<Rightarrow> cursor \<Rightarrow> 's \<Rightarrow> unit + cursor \<times> 's" where
  "ree_map_entries = map_entries (\<lambda>c. read_major c 5) twep_wr_cbor_read_text_view ()"

definition response_field :: "(unit, response_seen) field_parser" where
  "response_field key c s =
     (if cbor_text_view_equals key (ascii ''request_id'') then
        stored (\<lambda>v s. s\<lparr>out_need := (out_need s)\<lparr>nh_request_id := Some v\<rparr>\<rparr>) s (or_false (twep_wr_cbor_read_text_view c))
      else if cbor_text_view_equals key (ascii ''final_response_cbor'') then
        stored (\<lambda>v s. s\<lparr>out_final_response := Some v, have_final := True\<rparr>) s (or_false (twep_wr_cbor_read_bytes_view c))
      else if cbor_text_view_equals key (ascii ''need_host_io'') then
        (case ree_map_entries need_field c (out_need s) of
           Inl _ \<Rightarrow> Inl ()
         | Inr (c1, need) \<Rightarrow> Inr (c1, s\<lparr>have_need := True, out_need := need\<rparr>))
      else passed id s (or_false (twep_wr_cbor_skip_value c)))"

definition need_complete :: "twep_wr_optee_need_host_io_t \<Rightarrow> bool" where
  "need_complete n \<longleftrightarrow>
     \<not> (nh_request_id n = None \<or> nh_io_id n = None \<or> nh_kind n = None \<or> nh_sequence n = 0 \<or>
        length (view_bytes (nh_request_body_sha256 n)) \<noteq> 32 \<or>
        length (view_bytes (nh_normalized_input_sha256 n)) \<noteq> 32)"

definition twep_optee_parse_response ::
  "bytes \<Rightarrow> (twep_wr_optee_response_kind_t \<times> bytes option \<times> twep_wr_optee_need_host_io_t) option" where
  "twep_optee_parse_response buf =
     (case ree_map_entries response_field (mk_cursor buf)
             \<lparr>have_final = False, have_need = False, out_final_response = None, out_need = no_need\<rparr> of
        Inl _ \<Rightarrow> None
      | Inr (c1, s) \<Rightarrow>
        if \<not> at_end c1 \<or> have_final s \<and> have_need s \<or> \<not> have_final s \<and> \<not> have_need s then None
        else if have_final s then Some (TWEP_WR_OPTEE_RESPONSE_FINAL, out_final_response s, out_need s)
        else if \<not> need_complete (out_need s) then None
        else Some (TWEP_WR_OPTEE_RESPONSE_NEED_HOST_IO, out_final_response s, out_need s))"

section \<open>Host operations\<close>

definition TWEP_WR_OPTEE_HOST_IO_CAP :: nat where
  "TWEP_WR_OPTEE_HOST_IO_CAP = 128 * 1024"

definition host_io_result_len :: "twep_wr_optee_need_host_io_t \<Rightarrow> bytes \<Rightarrow> nat \<Rightarrow> u32 \<Rightarrow> nat" where
  "host_io_result_len need result_key result_len status =
     1 + cbor_len_size (of_nat (length (ascii ''io_id''))) + length (ascii ''io_id'') +
     cbor_len_size (of_nat (length (view_bytes (nh_io_id need)))) + length (view_bytes (nh_io_id need)) +
     cbor_len_size (of_nat (length (ascii ''kind''))) + length (ascii ''kind'') +
     cbor_len_size (of_nat (length (view_bytes (nh_kind need)))) + length (view_bytes (nh_kind need)) +
     cbor_len_size (of_nat (length (ascii ''status''))) + length (ascii ''status'') + cbor_len_size (ucast status) +
     cbor_len_size (of_nat (length result_key)) + length result_key + cbor_len_size (of_nat result_len) + result_len +
     cbor_len_size (of_nat (length (ascii ''sequence''))) + length (ascii ''sequence'') +
     cbor_len_size (ucast (nh_sequence need)) +
     cbor_len_size (of_nat (length (ascii ''request_body_sha256''))) + length (ascii ''request_body_sha256'') +
     cbor_len_size 32 + 32 +
     cbor_len_size (of_nat (length (ascii ''normalized_input_sha256''))) + length (ascii ''normalized_input_sha256'') +
     cbor_len_size 32 + 32"

definition make_host_io_result_cbor ::
  "bool \<Rightarrow> twep_wr_optee_need_host_io_t \<Rightarrow> bytes \<Rightarrow> bytes \<Rightarrow> u32 \<Rightarrow> (nat \<times> bytes) option" where
  "make_host_io_result_cbor mem need result_key result status =
     (if \<not> mem then None
      else Some (host_io_result_len need result_key (length result) status,
        [0xa7] @ hio_write_text (ascii ''io_id'') @ hio_write_text_view (nh_io_id need) @
        hio_write_text (ascii ''kind'') @ hio_write_text_view (nh_kind need) @
        hio_write_text (ascii ''status'') @ hio_write_type_len 0 (ucast status) @
        hio_write_text result_key @ hio_write_bytes result @
        hio_write_text (ascii ''sequence'') @ hio_write_type_len 0 (ucast (nh_sequence need)) @
        hio_write_text (ascii ''request_body_sha256'') @ hio_write_bytes (view_bytes (nh_request_body_sha256 need)) @
        hio_write_text (ascii ''normalized_input_sha256'') @
        hio_write_bytes (view_bytes (nh_normalized_input_sha256 need))))"

definition call_host :: "host_fn option \<Rightarrow> bytes option \<Rightarrow> bytes option \<Rightarrow> (int \<times> bytes) option" where
  "call_host f a b =
     (case (f, a, b) of (Some f, Some x, Some y) \<Rightarrow> Some (f x y TWEP_WR_OPTEE_HOST_IO_CAP) | _ \<Rightarrow> None)"

text \<open>The status returned, and the result with the length allocated for it.\<close>

definition twep_optee_perform_host_io ::
  "(nat \<Rightarrow> bool) \<Rightarrow> twep_wr_context \<Rightarrow> twep_wr_optee_need_host_io_t \<Rightarrow> twep_wr_status_t \<times> (nat \<times> bytes) option" where
  "twep_optee_perform_host_io mem ctx need =
     (if \<not> mem 0 then (TWEP_WR_ERR_NO_MEMORY, None)
      else let called =
        (if cbor_text_view_equals (view_bytes (nh_kind need)) (ascii ''http_post'') then
           (case call_host (http_post (host_io ctx)) (nh_url need) (nh_body need) of
              None \<Rightarrow> Inl TWEP_WR_ERR_TEEP | Some (st, m) \<Rightarrow> Inr (st, m, ascii ''response_body''))
         else if cbor_text_view_equals (view_bytes (nh_kind need)) (ascii ''create_evidence'') then
           (case call_host (create_evidence (host_io ctx)) (nh_challenge need) (nh_agent_public_key_cose need) of
              None \<Rightarrow> Inl TWEP_WR_ERR_TEEP_ATTESTATION_UNSUPPORTED | Some (st, m) \<Rightarrow> Inr (st, m, ascii ''evidence''))
         else Inl TWEP_WR_ERR_TEEP) in
      case called of
        Inl e \<Rightarrow> (e, None)
      | Inr (host_status, material, result_key) \<Rightarrow>
        if length material > TWEP_WR_OPTEE_HOST_IO_CAP then (TWEP_WR_ERR_TEEP, None)
        else (case make_host_io_result_cbor (mem 1) need result_key material
                     (if host_status < 0 then 1 else of_int host_status) of
          None \<Rightarrow> (TWEP_WR_ERR_NO_MEMORY, None)
        | Some r \<Rightarrow> (if host_status \<noteq> 0 then TWEP_WR_ERR_TEEP_NETWORK else TWEP_WR_OK, Some r)))"

section \<open>Agreement of the writers\<close>

lemma env_writers:
  "env_type_len_size = cbor_type_len_size" "env_write_type_len = cbor_write_type_len"
  "env_write_text = cbor_write_text" "env_write_bytes = cbor_write_bstr"
  by (intro ext, simp add: env_type_len_size_def cbor_type_len_size_def env_write_type_len_def
      cbor_write_type_len_def env_write_text_def cbor_write_text_def env_write_bytes_def)+

lemma hio_writers:
  "cbor_len_size = cbor_type_len_size"
  "n \<le> 0xffffffff \<Longrightarrow> hio_write_type_len m n = cbor_write_type_len m n"
  "length v < 2 ^ 32 \<Longrightarrow> hio_write_text v = cbor_write_text v"
  "length v < 2 ^ 32 \<Longrightarrow> hio_write_bytes v = cbor_write_bstr v"
  "length (view_bytes w) < 2 ^ 32 \<Longrightarrow> hio_write_text_view w = cbor_write_text (view_bytes w)"
proof -
  show eq: "n \<le> 0xffffffff \<Longrightarrow> hio_write_type_len m n = cbor_write_type_len m n" for m n
    by (simp add: hio_write_type_len_def cbor_write_type_len_def)
  show "cbor_len_size = cbor_type_len_size"
    by (intro ext) (simp add: cbor_len_size_def cbor_type_len_size_def)
  show "length v < 2 ^ 32 \<Longrightarrow> hio_write_text v = cbor_write_text v"
    "length v < 2 ^ 32 \<Longrightarrow> hio_write_bytes v = cbor_write_bstr v"
    "length (view_bytes w) < 2 ^ 32 \<Longrightarrow> hio_write_text_view w = cbor_write_text (view_bytes w)"
    by (simp_all add: hio_write_text_def hio_write_bytes_def hio_write_text_view_def cbor_write_text_def eq u32_le)
qed

section \<open>Requests reach the trusted application\<close>

definition execute_seen :: "bytes \<Rightarrow> bytes \<Rightarrow> bytes \<Rightarrow> bytes \<Rightarrow> bytes \<Rightarrow> u32 \<Rightarrow> bytes \<Rightarrow> bytes \<Rightarrow> bytes \<Rightarrow> bytes \<Rightarrow>
    production_envelope_seen" where
  "execute_seen request_id command mode url app_input timeout_ms wasm catalog app_wasm key =
     nothing_seen\<lparr>request_id_view := request_id, seen_request_id := True,
       command_view := command, seen_command := True, resolver_mode_view := mode, seen_resolver_mode := True,
       attestam_url_view := url, seen_attestam_url := True, seen_insecure := True,
       app_input_view := app_input, seen_app_input_cbor := True,
       request_timeout_ms_value := timeout_ms, seen_request_timeout_ms := True,
       wasm_view := wasm, catalog_view := catalog, app_wasm_view := app_wasm, dev_agent_public_key_view := key\<rparr>"

lemma execute_envelope_parses:
  assumes "twep_optee_make_execute_envelope mem ctx request_id command app_input wasm catalog app_wasm key timeout_ms = Some (len, env)"
    and "request_id \<noteq> []" "command \<noteq> []" "cx_resolver_mode ctx = Some mode" "mode \<noteq> []" "cx_attestam_url ctx = Some url"
    and "\<forall>v \<in> {request_id, command, mode, url, app_input, wasm, catalog, app_wasm, key}. length v < 2 ^ 32"
  shows "parse_production_envelope env TWEP_TA_ENVELOPE_EXECUTE =
      Inr (execute_seen request_id command mode url app_input timeout_ms wasm catalog app_wasm key)"
    and "length env = len"
proof -
  let ?es = "[(cbor_write_text (ascii ''request_id'') @ cbor_write_text request_id,
        \<lambda>s. s\<lparr>request_id_view := request_id, seen_request_id := True\<rparr>),
      (cbor_write_text (ascii ''command'') @ cbor_write_text command, \<lambda>s. s\<lparr>command_view := command, seen_command := True\<rparr>),
      (cbor_write_text (ascii ''resolver_mode'') @ cbor_write_text mode,
        \<lambda>s. s\<lparr>resolver_mode_view := mode, seen_resolver_mode := True\<rparr>),
      (cbor_write_text (ascii ''attestam_url'') @ cbor_write_text url,
        \<lambda>s. s\<lparr>attestam_url_view := url, seen_attestam_url := True\<rparr>),
      (cbor_write_text (ascii ''insecure'') @ [if insecure_demo_mode ctx then 0xf5 else 0xf4], \<lambda>s. s\<lparr>seen_insecure := True\<rparr>),
      (cbor_write_text (ascii ''app_input_cbor'') @ cbor_write_bstr app_input,
        \<lambda>s. s\<lparr>app_input_view := app_input, seen_app_input_cbor := True\<rparr>),
      (cbor_write_text (ascii ''request_timeout_ms'') @ cbor_write_type_len 0 (ucast timeout_ms),
        \<lambda>s. s\<lparr>request_timeout_ms_value := timeout_ms, seen_request_timeout_ms := True\<rparr>),
      (cbor_write_text (ascii ''wasm_bytes'') @ cbor_write_bstr wasm, \<lambda>s. s\<lparr>wasm_view := wasm\<rparr>),
      (cbor_write_text (ascii ''catalog_cbor'') @ cbor_write_bstr catalog, \<lambda>s. s\<lparr>catalog_view := catalog\<rparr>),
      (cbor_write_text (ascii ''app_wasm_bytes'') @ cbor_write_bstr app_wasm, \<lambda>s. s\<lparr>app_wasm_view := app_wasm\<rparr>),
      (cbor_write_text (ascii ''dev_agent_public_key_cbor'') @ cbor_write_bstr key, \<lambda>s. s\<lparr>dev_agent_public_key_view := key\<rparr>)]"
  have env: "env = [0xab] @ concat (map fst ?es)"
    and len: "len = execute_envelope_len request_id command mode url (length app_input) timeout_ms
        (length wasm) (length catalog) (length app_wasm) (length key)"
    using assms(1,4,6) by (auto simp: twep_optee_make_execute_envelope_def env_writers Let_def simp del: cbor_write_strings split: if_splits)
  have ok: "\<forall>e \<in> set ?es. ta_entry_ok envelope_field e"
    using assms(2,3,5,7)
    by (intro ball_list entry_okI)
      (simp_all add: envelope_field_def key_eq_iff value_write insecure_value timeout_value del: cbor_write_strings)
  have "parse_map envelope_field env nothing_seen =
      Inr (execute_seen request_id command mode url app_input timeout_ms wasm catalog app_wasm key)"
    by (rule parse_map_writeI [OF map_heads(4) _ ok env]) (simp_all add: execute_seen_def)
  then show "parse_production_envelope env TWEP_TA_ENVELOPE_EXECUTE =
      Inr (execute_seen request_id command mode url app_input timeout_ms wasm catalog app_wasm key)"
    using env by (simp add: parse_production_envelope_def envelope_complete_def execute_seen_def)
  show "length env = len"
    using assms(7) arg_cong [OF env, of length] unfolding len
    by (simp add: execute_envelope_len_def text_field_len_def bytes_field_len_def env_writers length_cbor_write
        rt.wr_size ucast_u32_le)
qed

section \<open>Requests to the host reach it\<close>

abbreviation ree_entry_ok :: "(unit, 's) field_parser \<Rightarrow> bytes \<times> ('s \<Rightarrow> 's) \<Rightarrow> bool" where
  "ree_entry_ok \<equiv> entry_ok twep_wr_cbor_read_text_view ()"

lemma text_view_equals_iff: "cbor_text_view_equals v w \<longleftrightarrow> v = w"
  by (auto simp: cbor_text_view_equals_def mem_compare_eq0)

lemma ree_entry_okI:
  assumes "\<And>c zs s. rest c = v @ zs \<Longrightarrow> field key c s = Inr (adv (length v) c, upd s)" and "length key < 2 ^ 32"
  shows "ree_entry_ok field (cbor_write_text key @ v, upd)"
  by (rule ree.entryI [of _ key]) (use assms ree_value_write(1) in auto)

lemma ree_entries_write:
  assumes "is_head 5 n h" and "length h \<le> 5" and "unat n = length es" and "\<forall>e \<in> set es. ree_entry_ok field e"
    and "rest c = (h @ concat (map fst es)) @ zs"
  shows "ree_map_entries field c s = Inr (adv (length (h @ concat (map fst es))) c, fold snd es s)"
  unfolding ree_map_entries_def
  by (rule ree.entries_write) (use assms in \<open>auto simp: read_major_iff\<close>)

lemma ree_uint32_write:
  "rest c = cbor_write_type_len 0 (ucast x) @ zs \<Longrightarrow>
     twep_wr_cbor_read_uint32 c = Some (x, adv (length (cbor_write_type_len 0 (ucast x))) c)"
  using ta_ree.rd_wr [of 0 "ucast x" c zs] by (simp add: twep_wr_cbor_read_uint32_def ucast_u32_le not_less)

lemma ree_uint32_1: "rest c = 1 # zs \<Longrightarrow> twep_wr_cbor_read_uint32 c = Some (1, adv 1 c)"
  using ree_uint32_write [of c 1 zs] by (simp add: cbor_write_type_len_def)

lemma ree_skip_1: "rest c = 1 # zs \<Longrightarrow> twep_wr_cbor_skip_value c = Some (adv 1 c)"
  by (subst skip_value_unfold) (simp add: skip_body_def read_head_rest)

lemma or_false_simps [simp]: "or_false (Some x) = Inr x" "or_false None = Inl ()"
  by (simp_all add: or_false_def)

definition sent_need :: "pending_host_io_state \<Rightarrow> bytes \<Rightarrow> bytes \<Rightarrow> bytes \<Rightarrow> twep_wr_optee_need_host_io_t" where
  "sent_need p io_id url body =
     no_need\<lparr>nh_request_id := Some (ph_request_id p), nh_io_id := Some io_id, nh_kind := Some (ascii ''http_post''),
       nh_url := Some url, nh_body := Some body, nh_sequence := 1,
       nh_request_body_sha256 := Some (ph_request_body_sha256 p),
       nh_normalized_input_sha256 := Some (ph_normalized_input_sha256 p)\<rparr>"

definition need_entries :: "pending_host_io_state \<Rightarrow> bytes \<Rightarrow> bytes \<Rightarrow> bytes \<Rightarrow>
    (bytes \<times> (twep_wr_optee_need_host_io_t \<Rightarrow> twep_wr_optee_need_host_io_t)) list" where
  "need_entries p io_id url body =
     [(cbor_write_text (ascii ''io_id'') @ cbor_write_text io_id, \<lambda>s. s\<lparr>nh_io_id := Some io_id\<rparr>),
      (cbor_write_text (ascii ''kind'') @ cbor_write_text (ascii ''http_post''), \<lambda>s. s\<lparr>nh_kind := Some (ascii ''http_post'')\<rparr>),
      (cbor_write_text (ascii ''url'') @ cbor_write_text url, \<lambda>s. s\<lparr>nh_url := Some url\<rparr>),
      (cbor_write_text (ascii ''body'') @ cbor_write_bstr body, \<lambda>s. s\<lparr>nh_body := Some body\<rparr>),
      (cbor_write_text (ascii ''sequence'') @ [1], \<lambda>s. s\<lparr>nh_sequence := 1\<rparr>),
      (cbor_write_text (ascii ''request_body_sha256'') @ cbor_write_bstr (ph_request_body_sha256 p),
        \<lambda>s. s\<lparr>nh_request_body_sha256 := Some (ph_request_body_sha256 p)\<rparr>),
      (cbor_write_text (ascii ''normalized_input_sha256'') @ cbor_write_bstr (ph_normalized_input_sha256 p),
        \<lambda>s. s\<lparr>nh_normalized_input_sha256 := Some (ph_normalized_input_sha256 p)\<rparr>)]"

definition need_map :: "pending_host_io_state \<Rightarrow> bytes \<Rightarrow> bytes \<Rightarrow> bytes \<Rightarrow> bytes" where
  "need_map p io_id url body = [0xa7] @ concat (map fst (need_entries p io_id url body))"

definition response_entries :: "pending_host_io_state \<Rightarrow> bytes \<Rightarrow> bytes \<Rightarrow> bytes \<Rightarrow>
    (bytes \<times> (response_seen \<Rightarrow> response_seen)) list" where
  "response_entries p io_id url body =
     [(cbor_write_text (ascii ''schema_version'') @ [1], \<lambda>s. s),
      (cbor_write_text (ascii ''request_id'') @ cbor_write_text (ph_request_id p),
        \<lambda>s. s\<lparr>out_need := (out_need s)\<lparr>nh_request_id := Some (ph_request_id p)\<rparr>\<rparr>),
      (cbor_write_text (ascii ''need_host_io'') @ need_map p io_id url body,
        \<lambda>s. s\<lparr>have_need := True, out_need := fold snd (need_entries p io_id url body) (out_need s)\<rparr>)]"

lemma need_map_read:
  assumes "length io_id < 2 ^ 32" "length url < 2 ^ 32" "length body < 2 ^ 32"
    and "length (ph_request_body_sha256 p) = 32" "length (ph_normalized_input_sha256 p) = 32"
    and "rest c = need_map p io_id url body @ zs"
  shows "ree_map_entries need_field c s =
      Inr (adv (length (need_map p io_id url body)) c, fold snd (need_entries p io_id url body) s)"
proof -
  have "\<forall>e \<in> set (need_entries p io_id url body). ree_entry_ok need_field e"
    using assms(1-5) unfolding need_entries_def
    by (intro ball_list ree_entry_okI)
      (simp_all add: need_field_def text_view_equals_iff ree_value_write ree_uint32_1 del: cbor_write_strings)
  from ree_entries_write [OF map_heads(3) _ _ this assms(6) [unfolded need_map_def], of s]
  show ?thesis by (simp add: need_map_def need_entries_def)
qed

lemma need_host_io_parses:
  assumes "ph_sequence p = 1" and "length (ph_request_id p) < 2 ^ 32"
    and sizes: "length io_id < 2 ^ 32" "length url < 2 ^ 32" "length body < 2 ^ 32"
      "length (ph_request_body_sha256 p) = 32" "length (ph_normalized_input_sha256 p) = 32"
  shows "twep_optee_parse_response (need_host_io_bytes p io_id url body) =
      Some (TWEP_WR_OPTEE_RESPONSE_NEED_HOST_IO, None, sent_need p io_id url body)"
proof -
  let ?es = "response_entries p io_id url body"
  have ok: "\<forall>e \<in> set ?es. ree_entry_ok response_field e"
    using assms(2) unfolding response_entries_def
    by (intro ball_list ree_entry_okI)
      (simp_all add: response_field_def text_view_equals_iff ree_value_write ree_skip_1 need_map_read [OF sizes])
  have buf: "need_host_io_bytes p io_id url body = [0xa3] @ concat (map fst ?es)"
    using assms(1) by (simp add: need_host_io_bytes_def response_entries_def need_map_def need_entries_def)
  have "ree_map_entries response_field (mk_cursor (need_host_io_bytes p io_id url body)) s =
      Inr (adv (length (need_host_io_bytes p io_id url body)) (mk_cursor (need_host_io_bytes p io_id url body)), fold snd ?es s)" for s
    unfolding buf by (rule ree_entries_write [OF map_heads(2) _ _ ok, of _ "[]"]) (simp_all add: response_entries_def)
  then show ?thesis
    using assms(6,7)
    by (simp add: twep_optee_parse_response_def at_end_def response_entries_def need_entries_def need_complete_def
        view_bytes_def sent_need_def no_need_def)
qed

section \<open>Results come back\<close>

lemma uint_value_write:
  "rest c = cbor_write_type_len 0 x @ zs \<Longrightarrow> x \<le> 0xffffffff \<Longrightarrow>
     uint_value c = Inr (x, adv (length (cbor_write_type_len 0 x)) c)"
  by (simp add: uint_value_def value_write(5))

text \<open>The strings of a result and what the two parsers of the trusted application make of them.\<close>

definition result_strings ::
  "twep_wr_optee_need_host_io_t \<Rightarrow> bytes \<Rightarrow> bytes \<Rightarrow> u32 \<Rightarrow> (bytes \<times> bytes) list" where
  "result_strings need result_key result status =
     [(ascii ''io_id'', cbor_write_text (view_bytes (nh_io_id need))),
      (ascii ''kind'', cbor_write_text (view_bytes (nh_kind need))),
      (ascii ''status'', cbor_write_type_len 0 (ucast status)),
      (result_key, cbor_write_bstr result),
      (ascii ''sequence'', cbor_write_type_len 0 (ucast (nh_sequence need))),
      (ascii ''request_body_sha256'', cbor_write_bstr (view_bytes (nh_request_body_sha256 need))),
      (ascii ''normalized_input_sha256'', cbor_write_bstr (view_bytes (nh_normalized_input_sha256 need)))]"

definition need_sizes :: "twep_wr_optee_need_host_io_t \<Rightarrow> bool" where
  "need_sizes need \<longleftrightarrow> nh_io_id need \<noteq> None \<and> view_bytes (nh_io_id need) \<noteq> [] \<and> length (view_bytes (nh_io_id need)) < 2 ^ 32 \<and>
     view_bytes (nh_kind need) \<noteq> [] \<and> length (view_bytes (nh_kind need)) < 2 ^ 32 \<and>
     length (view_bytes (nh_request_body_sha256 need)) = 32 \<and> length (view_bytes (nh_normalized_input_sha256 need)) = 32"

lemma result_written:
  assumes "make_host_io_result_cbor mem need result_key result status = Some (len, bs)" and "need_sizes need"
    and "length result < 2 ^ 32" and "length result_key < 2 ^ 32" and "length us = 7"
  shows "bs = [0xa7] @ concat (map fst (with_effects (result_strings need result_key result status) us))"
    and "length bs = len" and "bs \<noteq> []"
proof -
  obtain u1 u2 u3 u4 u5 u6 u7 where us: "us = [u1, u2, u3, u4, u5, u6, u7]"
    using assms(5) by (auto simp: length_Suc_conv numeral_eq_Suc)
  show "bs = [0xa7] @ concat (map fst (with_effects (result_strings need result_key result status) us))"
    using assms(1-4)
    by (auto simp: us make_host_io_result_cbor_def need_sizes_def hio_writers with_effects_def result_strings_def ucast_u32_le
        split: if_splits)
  moreover have "length bs = len"
    using assms(1-4)
    by (auto simp: make_host_io_result_cbor_def need_sizes_def hio_writers host_io_result_len_def length_cbor_write
        rt.wr_size ucast_u32_le split: if_splits)
  ultimately show "length bs = len" "bs \<noteq> []" by simp_all
qed

definition check_effects ::
  "pending_host_io_state \<Rightarrow> twep_wr_optee_need_host_io_t \<Rightarrow> u32 \<Rightarrow> (result_flags \<Rightarrow> result_flags) list" where
  "check_effects p need status =
     [\<lambda>s. s\<lparr>io_id_ok := view_bytes (nh_io_id need) = ph_io_id p\<rparr>, \<lambda>s. s\<lparr>kind_ok := view_bytes (nh_kind need) = ph_kind p\<rparr>,
      \<lambda>s. s\<lparr>status_ok := status = 0\<rparr>, id, \<lambda>s. s\<lparr>sequence_ok := ucast (nh_sequence need) = ph_sequence p\<rparr>,
      \<lambda>s. s\<lparr>request_body_sha_ok := view_bytes (nh_request_body_sha256 need) = ph_request_body_sha256 p\<rparr>,
      \<lambda>s. s\<lparr>normalized_input_sha_ok := view_bytes (nh_normalized_input_sha256 need) = ph_normalized_input_sha256 p\<rparr>]"

text \<open>The result is accepted exactly when it answers the pending request and reports success.\<close>

lemma result_checked:
  assumes made: "make_host_io_result_cbor mem need result_key result status = Some (len, bs)" "need_sizes need"
      "length result < 2 ^ 32" and key: "result_key \<in> {ascii ''response_body'', ascii ''evidence''}"
    and p: "length (ph_request_body_sha256 p) = 32" "length (ph_normalized_input_sha256 p) = 32"
  shows "host_io_result_ok p bs \<longleftrightarrow> status = 0 \<and> view_bytes (nh_io_id need) = ph_io_id p \<and>
     view_bytes (nh_kind need) = ph_kind p \<and> ucast (nh_sequence need) = ph_sequence p \<and>
     view_bytes (nh_request_body_sha256 need) = ph_request_body_sha256 p \<and>
     view_bytes (nh_normalized_input_sha256 need) = ph_normalized_input_sha256 p"
proof -
  let ?es = "with_effects (result_strings need result_key result status) (check_effects p need status)"
  have kl: "length result_key < 2 ^ 32" using key by auto
  note w = result_written [OF made(1-3) kl, of "check_effects p need status"]
  have eq: "length v = length q \<and> mem_compare v q = 0 \<longleftrightarrow> v = q" for v q by (auto simp: mem_compare_eq0)
  have eq32: "length v = 32 \<and> mem_compare v q = 0 \<longleftrightarrow> v = q" if "length q = 32" for v q :: bytes
    using that by (metis eq)
  have ok: "\<forall>e \<in> set ?es. ta_entry_ok (host_io_result_field p) e"
    using made(2,3) key p kl unfolding result_strings_def check_effects_def
    by (intro with_effects_ok)
      (auto simp: host_io_result_field_def key_eq_iff value_write uint_value_write need_sizes_def eq eq32 ucast_u32_le
        skip_write simp del: cbor_write_strings)
  have "parse_map (host_io_result_field p) bs no_flags =
      Inr (fold snd ?es no_flags)"
    by (rule parse_map_writeI [OF map_heads(3) _ ok w(1)])
      (simp_all add: with_effects_def result_strings_def check_effects_def)
  then show ?thesis
    using w(3) by (auto simp: host_io_result_ok_def all_flags_def with_effects_def result_strings_def check_effects_def)
qed

definition payload_effects ::
  "twep_wr_optee_need_host_io_t \<Rightarrow> bytes \<Rightarrow> bytes \<Rightarrow> (result_payload \<Rightarrow> result_payload) list" where
  "payload_effects need result_key result =
     [id, \<lambda>s. s\<lparr>rp_kind := view_bytes (nh_kind need)\<rparr>, id,
      if result_key = ascii ''response_body'' then rp_response_body_update (\<lambda>_. result) else rp_evidence_update (\<lambda>_. result),
      id, id, id]"

lemma result_payload_read:
  assumes made: "make_host_io_result_cbor mem need result_key result status = Some (len, bs)" "need_sizes need"
      "length result < 2 ^ 32"
    and key: "(view_bytes (nh_kind need), result_key, kind) \<in>
      {(ascii ''http_post'', ascii ''response_body'', TEEP_AGENT_PENDING_HTTP_POST),
       (ascii ''create_evidence'', ascii ''evidence'', TEEP_AGENT_PENDING_CREATE_EVIDENCE)}"
  shows "parse_host_io_result_payload bs = Inr (kind, result)"
proof -
  let ?s = "\<lparr>rp_kind = [], rp_response_body = [], rp_evidence = []\<rparr>"
  let ?es = "with_effects (result_strings need result_key result status) (payload_effects need result_key result)"
  have kl: "length result_key < 2 ^ 32" using key by auto
  note w = result_written [OF made(1-3) kl, of "payload_effects need result_key result"]
  have ok: "\<forall>e \<in> set ?es. ta_entry_ok result_payload_field e"
    using made(2,3) key kl unfolding result_strings_def payload_effects_def
    by (intro with_effects_ok)
      (auto simp: result_payload_field_def key_eq_iff value_write need_sizes_def ucast_u32_le skip_write
        simp del: cbor_write_strings)
  have "parse_map result_payload_field bs ?s = Inr (fold snd ?es ?s)"
    by (rule parse_map_writeI [OF map_heads(3) _ ok w(1)])
      (simp_all add: with_effects_def result_strings_def payload_effects_def)
  then show ?thesis
    using w(3) key
    by (auto simp: parse_host_io_result_payload_def with_effects_def result_strings_def payload_effects_def view_eq_iff)
qed

lemma resume_envelope_parses:
  assumes "twep_optee_make_resume_envelope mem (Some request_id) (Some result) = Some (len, env)"
    and "request_id \<noteq> []" "length request_id < 2 ^ 32" "length result < 2 ^ 32"
  shows "parse_production_envelope env TWEP_TA_ENVELOPE_RESUME_HOST_IO =
      Inr (nothing_seen\<lparr>request_id_view := request_id, seen_request_id := True,
        host_io_result_view := result, seen_host_io_result_cbor := True\<rparr>)"
    and "length env = len"
proof -
  let ?es = "with_effects [(ascii ''request_id'', cbor_write_text request_id), (ascii ''host_io_result_cbor'', cbor_write_bstr result)]
      [\<lambda>s. s\<lparr>request_id_view := request_id, seen_request_id := True\<rparr>,
       \<lambda>s :: production_envelope_seen. s\<lparr>host_io_result_view := result, seen_host_io_result_cbor := True\<rparr>]"
  have env: "env = [0xa2] @ concat (map fst ?es)"
    and len: "len = resume_envelope_len request_id result"
    using assms by (auto simp: twep_optee_make_resume_envelope_def hio_writers with_effects_def view_bytes_def split: if_splits)
  have ok: "\<forall>e \<in> set ?es. ta_entry_ok envelope_field e"
    using assms(2-4)
    by (intro with_effects_ok) (simp_all add: envelope_field_def key_eq_iff value_write del: cbor_write_strings)
  have "parse_map envelope_field env nothing_seen = Inr (nothing_seen\<lparr>request_id_view := request_id, seen_request_id := True,
        host_io_result_view := result, seen_host_io_result_cbor := True\<rparr>)"
    by (rule parse_map_writeI [OF map_heads(1) _ ok env]) (simp_all add: with_effects_def)
  then show "parse_production_envelope env TWEP_TA_ENVELOPE_RESUME_HOST_IO =
      Inr (nothing_seen\<lparr>request_id_view := request_id, seen_request_id := True,
        host_io_result_view := result, seen_host_io_result_cbor := True\<rparr>)"
    using env by (simp add: parse_production_envelope_def envelope_complete_def)
  show "length env = len"
    using assms(3,4) unfolding env len
    by (simp add: resume_envelope_len_def hio_writers length_cbor_write with_effects_def)
qed

section \<open>The exchange\<close>

lemma final_parses:
  assumes "length request_id < 2 ^ 32" "length response < 2 ^ 32"
  shows "twep_optee_parse_response (final_response_bytes request_id response) =
      Some (TWEP_WR_OPTEE_RESPONSE_FINAL, Some response, no_need\<lparr>nh_request_id := Some request_id\<rparr>)"
proof -
  let ?buf = "final_response_bytes request_id response"
  let ?es = "[(cbor_write_text (ascii ''schema_version'') @ [1], \<lambda>s. s),
      (cbor_write_text (ascii ''request_id'') @ cbor_write_text request_id,
        \<lambda>s. s\<lparr>out_need := (out_need s)\<lparr>nh_request_id := Some request_id\<rparr>\<rparr>),
      (cbor_write_text (ascii ''final_response_cbor'') @ cbor_write_bstr response,
        \<lambda>s :: response_seen. s\<lparr>out_final_response := Some response, have_final := True\<rparr>)]"
  have ok: "\<forall>e \<in> set ?es. ree_entry_ok response_field e"
    using assms
    by (intro ball_list ree_entry_okI)
      (simp_all add: response_field_def text_view_equals_iff ree_value_write ree_skip_1 del: cbor_write_strings)
  have buf: "?buf = [0xa3] @ concat (map fst ?es)" by (simp add: final_response_bytes_def)
  have "ree_map_entries response_field (mk_cursor ?buf) s = Inr (adv (length ?buf) (mk_cursor ?buf), fold snd ?es s)" for s
    unfolding buf by (rule ree_entries_write [OF map_heads(2) _ _ ok, of _ "[]"]) simp_all
  then show ?thesis by (simp add: twep_optee_parse_response_def at_end_def)
qed

lemma perform_http:
  assumes "http_post (host_io ctx) = Some f" and "f url body TWEP_WR_OPTEE_HOST_IO_CAP = (status, material)"
    and "length material \<le> TWEP_WR_OPTEE_HOST_IO_CAP"
  obtains len result where
    "twep_optee_perform_host_io (\<lambda>_. True) ctx (sent_need p io_id url body) =
      (if status \<noteq> 0 then TWEP_WR_ERR_TEEP_NETWORK else TWEP_WR_OK, Some (len, result))"
    "make_host_io_result_cbor True (sent_need p io_id url body) (ascii ''response_body'') material
      (if status < 0 then 1 else of_int status) = Some (len, result)"
  using assms
  by (simp add: twep_optee_perform_host_io_def make_host_io_result_cbor_def call_host_def text_view_equals_iff
      sent_need_def no_need_def view_bytes_def)

lemma cap_small: "length material \<le> TWEP_WR_OPTEE_HOST_IO_CAP \<Longrightarrow> length material < 2 ^ 32"
  by (simp add: TWEP_WR_OPTEE_HOST_IO_CAP_def)

text \<open>What the host makes of a request to it, from the response of the trusted application to the result.\<close>

lemma exchange:
  assumes laws: "storage_laws A objs hobj sha" and io: "io_id \<noteq> []" and url: "length url < 2 ^ 32"
    and built: "run_state (build_need_host_io_response A request_id command input io_id url body out_size) (w, t) =
      ((len, Inr out), (w', t'))"
    and f: "http_post (host_io ctx) = Some f" "f url body TWEP_WR_OPTEE_HOST_IO_CAP = (status, material)"
      "length material \<le> TWEP_WR_OPTEE_HOST_IO_CAP"
  obtains n result where
    "twep_optee_parse_response out =
      Some (TWEP_WR_OPTEE_RESPONSE_NEED_HOST_IO, None, sent_need (g_pending_host_io t') io_id url body)"
    "twep_optee_perform_host_io (\<lambda>_. True) ctx (sent_need (g_pending_host_io t') io_id url body) =
      (if status \<noteq> 0 then TWEP_WR_ERR_TEEP_NETWORK else TWEP_WR_OK, Some (n, result))"
    "make_host_io_result_cbor True (sent_need (g_pending_host_io t') io_id url body) (ascii ''response_body'') material
      (if status < 0 then 1 else of_int status) = Some (n, result)"
    "need_sizes (sent_need (g_pending_host_io t') io_id url body)"
    "host_io_result_ok (g_pending_host_io t') result \<longleftrightarrow> (if status < 0 then 1 else of_int status :: u32) = 0"
    "request_id \<noteq> []" "length request_id < 64" "ph_request_id (g_pending_host_io t') = request_id"
    "ph_active (g_pending_host_io t')" "length io_id < 64"
proof -
  let ?p = "g_pending_host_io t'"
  note b = need_host_io_built [OF laws built url]
  have p: "ph_sequence ?p = 1" "ph_request_id ?p = request_id" "ph_io_id ?p = io_id" "ph_kind ?p = ascii ''http_post''"
    "ph_active ?p" "length (ph_request_body_sha256 ?p) = 32" "length (ph_normalized_input_sha256 ?p) = 32"
    "request_id \<noteq> []" "length request_id < 64" "length io_id < 64" "length body < 2 ^ 32"
    using b(1,5-7) by (auto simp: saved_request_def request_fits_def TEEP_AGENT_TRANSCRIPT_SIZE_MAX_def)
  obtain n result where r: "twep_optee_perform_host_io (\<lambda>_. True) ctx (sent_need ?p io_id url body) =
      (if status \<noteq> 0 then TWEP_WR_ERR_TEEP_NETWORK else TWEP_WR_OK, Some (n, result))"
    and made: "make_host_io_result_cbor True (sent_need ?p io_id url body) (ascii ''response_body'') material
      (if status < 0 then 1 else of_int status) = Some (n, result)"
    using perform_http [OF f] by blast
  have sizes: "need_sizes (sent_need ?p io_id url body)"
    using p io by (auto simp: need_sizes_def sent_need_def no_need_def view_bytes_def)
  have "host_io_result_ok ?p result \<longleftrightarrow> (if status < 0 then 1 else of_int status :: u32) = 0"
    using result_checked [OF made sizes cap_small [OF f(3)] _ p(6,7)] p(1-4)
    by (auto simp: sent_need_def no_need_def view_bytes_def)
  moreover have "twep_optee_parse_response out = Some (TWEP_WR_OPTEE_RESPONSE_NEED_HOST_IO, None, sent_need ?p io_id url body)"
    unfolding b(2) by (rule need_host_io_parses) (use p url in auto)
  ultimately show ?thesis using that r made sizes p by blast
qed

section \<open>Properties\<close>

text \<open>
  C22. The trusted application reads from the envelope of a request exactly what the host put into
  it, field by field, and the envelope fills the memory allocated for it exactly.
\<close>

theorem execute_envelope_roundtrip:
  assumes "twep_optee_make_execute_envelope mem ctx request_id command app_input wasm catalog app_wasm key timeout_ms = Some (len, env)"
    and "request_id \<noteq> []" "command \<noteq> []" "cx_resolver_mode ctx = Some mode" "mode \<noteq> []" "cx_attestam_url ctx = Some url"
    and "\<forall>v \<in> {request_id, command, mode, url, app_input, wasm, catalog, app_wasm, key}. length v < 2 ^ 32"
  shows "length env = len \<and> parse_production_envelope env TWEP_TA_ENVELOPE_EXECUTE =
      Inr (execute_seen request_id command mode url app_input timeout_ms wasm catalog app_wasm key)"
  using execute_envelope_parses [OF assms] by simp

text \<open>
  C23. The exchange for a host operation closes: the host understands the request that the trusted
  application built, its callback gets the url and the body, and when it succeeds the result goes
  back in an envelope that the application accepts for the pending request, and from which it takes
  exactly the bytes that the callback delivered. Every buffer on the way is filled exactly.
\<close>

theorem host_io_exchange:
  assumes "storage_laws A objs hobj sha" and "io_id \<noteq> []" and "length url < 2 ^ 32"
    and "run_state (build_need_host_io_response A request_id command input io_id url body out_size) (w, t) =
      ((len, Inr out), (w', t'))"
    and "http_post (host_io ctx) = Some f" "f url body TWEP_WR_OPTEE_HOST_IO_CAP = (0, material)"
      "length material \<le> TWEP_WR_OPTEE_HOST_IO_CAP"
  shows "\<exists>need result renv seen.
     twep_optee_parse_response out = Some (TWEP_WR_OPTEE_RESPONSE_NEED_HOST_IO, None, need) \<and>
     twep_optee_perform_host_io (\<lambda>_. True) ctx need = (TWEP_WR_OK, Some (length result, result)) \<and>
     twep_optee_make_resume_envelope True (nh_request_id need) (Some result) = Some (length renv, renv) \<and>
     parse_production_envelope renv TWEP_TA_ENVELOPE_RESUME_HOST_IO = Inr seen \<and>
     pending_request_matches t' (request_id_view seen) \<and>
     host_io_result_ok (g_pending_host_io t') (host_io_result_view seen) \<and>
     parse_host_io_result_payload (host_io_result_view seen) = Inr (TEEP_AGENT_PENDING_HTTP_POST, material)"
proof -
  let ?need = "sent_need (g_pending_host_io t') io_id url body"
  obtain n result where e: "twep_optee_parse_response out = Some (TWEP_WR_OPTEE_RESPONSE_NEED_HOST_IO, None, ?need)"
    "twep_optee_perform_host_io (\<lambda>_. True) ctx ?need = (TWEP_WR_OK, Some (n, result))"
    "make_host_io_result_cbor True ?need (ascii ''response_body'') material 0 = Some (n, result)"
    "need_sizes ?need" "host_io_result_ok (g_pending_host_io t') result"
    "request_id \<noteq> []" "length request_id < 64" "ph_request_id (g_pending_host_io t') = request_id"
    "ph_active (g_pending_host_io t')" "length io_id < 64"
    by (rule exchange [OF assms]) simp
  have len: "length result = n"
    using result_written(2) [OF e(3,4) cap_small [OF assms(7)], of "replicate 7 id"] by simp
  have "n < 2 ^ 32"
    using e(3,10) assms(7)
    by (auto simp: make_host_io_result_cbor_def host_io_result_len_def cbor_len_size_def sent_need_def no_need_def
        view_bytes_def TWEP_WR_OPTEE_HOST_IO_CAP_def)
  obtain k renv where m: "twep_optee_make_resume_envelope True (Some request_id) (Some result) = Some (k, renv)"
    by (simp add: twep_optee_make_resume_envelope_def)
  note r = resume_envelope_parses [OF m e(6)]
  have "parse_host_io_result_payload result = Inr (TEEP_AGENT_PENDING_HTTP_POST, material)"
    by (rule result_payload_read [OF e(3,4) cap_small [OF assms(7)]]) (simp add: sent_need_def view_bytes_def)
  moreover have "pending_request_matches t' request_id"
    using e(8,9) by (simp add: pending_request_matches_def mem_compare_eq0)
  moreover have "nh_request_id ?need = Some request_id" by (simp add: sent_need_def e(8))
  ultimately show ?thesis
    using e(1,2,5,7) r m len \<open>n < 2 ^ 32\<close> by (intro exI [of _ ?need] exI [of _ result] exI [of _ renv]) simp
qed

text \<open>
  C24. When the callback fails, the host reports a network error, and the result it built would be
  refused by the trusted application: a failed operation is never taken for an answer.
\<close>

theorem failed_host_io_refused:
  assumes "storage_laws A objs hobj sha" and "io_id \<noteq> []" and "length url < 2 ^ 32"
    and "run_state (build_need_host_io_response A request_id command input io_id url body out_size) (w, t) =
      ((len, Inr out), (w', t'))"
    and "http_post (host_io ctx) = Some f" "f url body TWEP_WR_OPTEE_HOST_IO_CAP = (status, material)"
      "length material \<le> TWEP_WR_OPTEE_HOST_IO_CAP"
    and "status \<noteq> 0" "- (2 ^ 31) \<le> status" "status < 2 ^ 31"
  shows "\<exists>need n result. twep_optee_parse_response out = Some (TWEP_WR_OPTEE_RESPONSE_NEED_HOST_IO, None, need) \<and>
     twep_optee_perform_host_io (\<lambda>_. True) ctx need = (TWEP_WR_ERR_TEEP_NETWORK, Some (n, result)) \<and>
     \<not> host_io_result_ok (g_pending_host_io t') result"
proof -
  have nz: "(if status < 0 then 1 else of_int status :: u32) \<noteq> 0"
  proof
    assume z: "(if status < 0 then 1 else of_int status :: u32) = 0"
    then have "0 \<le> status" by (simp split: if_splits)
    moreover from z this have "uint (of_int status :: u32) = 0" by (simp split: if_splits)
    ultimately show False using assms(8,10) by (simp add: uint_word_of_int take_bit_eq_mod)
  qed
  show ?thesis by (rule exchange [OF assms(1-7)]) (use nz assms(8) in \<open>simp; blast\<close>)
qed

section \<open>Concrete instances\<close>

definition ctx1 :: twep_wr_context where
  "ctx1 = context1\<lparr>host_io := \<lparr>http_post = Some (\<lambda>url body cap. (if body = [1, 2] then 0 else -5, [7, 8, 9])),
     create_evidence = None\<rparr>\<rparr>"

definition ctx2 :: twep_wr_context where
  "ctx2 = context1\<lparr>host_io := \<lparr>http_post = Some (\<lambda>url body cap. (-5, [])), create_evidence = None\<rparr>\<rparr>"

lemma ctx_simps [simp]: "host_io ctx1 = \<lparr>http_post = Some (\<lambda>url body cap. (if body = [1, 2] then 0 else -5, [7, 8, 9])), create_evidence = None\<rparr>"
  "host_io ctx2 = \<lparr>http_post = Some (\<lambda>url body cap. (-5, [])), create_evidence = None\<rparr>"
  by (simp_all add: ctx1_def ctx2_def)

theorem execute_envelope_roundtrip_witness:
  "\<exists>env. parse_production_envelope env TWEP_TA_ENVELOPE_EXECUTE =
     Inr (execute_seen (ascii ''r1'') (ascii ''calcadd'') (ascii ''mock'') [] [0xa0] 5000 [1] [2] [3] [])"
proof -
  have c: "cx_resolver_mode context1 = Some (ascii ''mock'')" "cx_attestam_url context1 = Some []" by code_simp+
  obtain len env where e: "twep_optee_make_execute_envelope True context1 (ascii ''r1'') (ascii ''calcadd'') [0xa0] [1] [2] [3] [] 5000 =
      Some (len, env)" by (simp add: twep_optee_make_execute_envelope_def Let_def)
  from execute_envelope_roundtrip [OF e _ _ c(1) _ c(2)] show ?thesis by auto
qed

lemma exchange_setup: "ascii ''io-1'' \<noteq> []" "length (ascii ''u'') < 2 ^ 32" "length [7 :: byte, 8, 9] \<le> TWEP_WR_OPTEE_HOST_IO_CAP"
  "length ([] :: bytes) \<le> TWEP_WR_OPTEE_HOST_IO_CAP"
  by (simp_all add: TWEP_WR_OPTEE_HOST_IO_CAP_def)

theorem host_io_exchange_witness:
  "\<exists>result. host_io_result_ok (g_pending_host_io (snd (snd need1))) result \<and>
     parse_host_io_result_payload result = Inr (TEEP_AGENT_PENDING_HTTP_POST, [7, 8, 9])"
  using host_io_exchange [OF sim_storage_laws exchange_setup(1,2) built_split [OF need1_facts(1)], of ctx1 _ "[7, 8, 9]"]
    exchange_setup(3) by auto

theorem failed_host_io_refused_witness:
  "\<exists>need n result. twep_optee_perform_host_io (\<lambda>_. True) ctx2 need = (TWEP_WR_ERR_TEEP_NETWORK, Some (n, result)) \<and>
     \<not> host_io_result_ok (g_pending_host_io (snd (snd need1))) result"
  using failed_host_io_refused [OF sim_storage_laws exchange_setup(1,2) built_split [OF need1_facts(1)], of ctx2 _ "- 5" "[]"]
    exchange_setup(4) by auto

end
