(* ===== verification/Ree_Files.thy ===== *)
theory Ree_Files
  imports Ree_Runtime Tee_Api
begin

text \<open>
  The files of the host: the platform functions on files of the Linux backend
  (\<^verbatim>\<open>platform/linux/platform_linux.c\<close>) and of the OP-TEE backend
  (\<^verbatim>\<open>platform/optee-common/optee_storage.c\<close>), and what the library builds on them
  (\<^verbatim>\<open>runtime.c\<close>): the layout of the state directory and the artifacts copied into it. The
  functions of the operating system and of the C library are a parameter. A path is a string, and
  files are found by it: two paths that name the same file in different ways are not considered.
  Paths are not null, and the debug output of the OP-TEE backend is left out.
\<close>

section \<open>The operating system\<close>

datatype mkdir_result = Made | Already_Exists | Not_Made

record ('w, 'f) os_api =
  os_malloc :: "nat \<Rightarrow> ('w, bool) state"
  os_fopen_read :: "bytes \<Rightarrow> ('w, 'f option) state"
  os_fopen_write :: "bytes \<Rightarrow> ('w, 'f option) state"
  os_fseek :: "'f \<Rightarrow> ('w, bool) state"
  os_ftell :: "'f \<Rightarrow> ('w, int) state"
  os_fread :: "'f \<Rightarrow> nat \<Rightarrow> ('w, bytes) state"
  os_fwrite :: "'f \<Rightarrow> bytes \<Rightarrow> ('w, nat) state"
  os_fflush :: "'f \<Rightarrow> ('w, bool) state"
  os_fsync :: "'f \<Rightarrow> ('w, bool) state"
  os_fclose :: "'f \<Rightarrow> ('w, bool) state"
  os_unlink :: "bytes \<Rightarrow> ('w, unit) state"
  os_rename :: "bytes \<Rightarrow> bytes \<Rightarrow> ('w, bool) state"
  os_exists :: "bytes \<Rightarrow> ('w, bool) state"
  os_mkdir :: "bytes \<Rightarrow> ('w, mkdir_result) state"
  os_is_dir :: "bytes \<Rightarrow> ('w, bool) state"
  os_getenv :: "bytes \<Rightarrow> bytes option"

text \<open>
  \<open>files w\<close> are the contents of the files, \<open>reading w f\<close> and \<open>writing w f\<close> the path of an open stream. A read that
  delivers as many bytes as \<^verbatim>\<open>ftell\<close> told at the end delivers the contents. Opening a file for writing
  empties it, \<^verbatim>\<open>fwrite\<close> adds a prefix of its data, and a failed \<^verbatim>\<open>fclose\<close> may leave
  the file with anything; a failed \<^verbatim>\<open>rename\<close> changes nothing. No other function changes a file.
\<close>

definition file_laws ::
  "('w, 'f) os_api \<Rightarrow> ('w \<Rightarrow> bytes \<Rightarrow> bytes option) \<Rightarrow> ('w \<Rightarrow> 'f \<Rightarrow> bytes option) \<Rightarrow> ('w \<Rightarrow> 'f \<Rightarrow> bytes option) \<Rightarrow> bool" where
  "file_laws Os files reading writing \<longleftrightarrow>
     (\<forall>F R W n. hoare (\<lambda>w. files w = F \<and> reading w = R \<and> writing w = W) (os_malloc Os n)
        (\<lambda>_ w. files w = F \<and> reading w = R \<and> writing w = W)) \<and>
     (\<forall>F p. hoare (\<lambda>w. files w = F) (os_fopen_read Os p)
        (\<lambda>r w. files w = F \<and> (case r of None \<Rightarrow> True | Some f \<Rightarrow> reading w f = Some p \<and> F p \<noteq> None))) \<and>
     (\<forall>F p. hoare (\<lambda>w. files w = F) (os_fopen_write Os p)
        (\<lambda>r w. case r of None \<Rightarrow> files w = F | Some f \<Rightarrow> files w = F(p \<mapsto> []) \<and> writing w f = Some p)) \<and>
     (\<forall>F f p. hoare (\<lambda>w. files w = F \<and> reading w f = Some p) (os_fseek Os f)
        (\<lambda>_ w. files w = F \<and> reading w f = Some p)) \<and>
     (\<forall>F f p. hoare (\<lambda>w. files w = F \<and> reading w f = Some p) (os_ftell Os f)
        (\<lambda>r w. files w = F \<and> reading w f = Some p \<and> (\<forall>bs. 0 \<le> r \<and> F p = Some bs \<longrightarrow> r = int (length bs)))) \<and>
     (\<forall>F f p n. hoare (\<lambda>w. files w = F \<and> reading w f = Some p) (os_fread Os f n)
        (\<lambda>r w. files w = F \<and> reading w f = Some p \<and> (\<forall>bs. F p = Some bs \<and> length r = n \<longrightarrow> r = take n bs))) \<and>
     (\<forall>F f p bs x. hoare (\<lambda>w. files w = F \<and> writing w f = Some p \<and> F p = Some x) (os_fwrite Os f bs)
        (\<lambda>n w. files w = F(p \<mapsto> x @ take n bs) \<and> writing w f = Some p)) \<and>
     (\<forall>F f p. hoare (\<lambda>w. files w = F \<and> writing w f = Some p) (os_fflush Os f)
        (\<lambda>_ w. files w = F \<and> writing w f = Some p)) \<and>
     (\<forall>F f p. hoare (\<lambda>w. files w = F \<and> writing w f = Some p) (os_fsync Os f)
        (\<lambda>_ w. files w = F \<and> writing w f = Some p)) \<and>
     (\<forall>F f p. hoare (\<lambda>w. files w = F \<and> writing w f = Some p) (os_fclose Os f)
        (\<lambda>ok w. if ok then files w = F else \<exists>x. files w = F(p := x))) \<and>
     (\<forall>F f p. hoare (\<lambda>w. files w = F \<and> reading w f = Some p) (os_fclose Os f) (\<lambda>_ w. files w = F)) \<and>
     (\<forall>F p. hoare (\<lambda>w. files w = F) (os_unlink Os p) (\<lambda>_ w. files w = F \<or> files w = F(p := None))) \<and>
     (\<forall>F p q. hoare (\<lambda>w. files w = F) (os_rename Os p q)
        (\<lambda>ok w. if ok then files w = F(q := F p, p := None) else files w = F)) \<and>
     (\<forall>F p. hoare (\<lambda>w. files w = F) (os_exists Os p) (\<lambda>r w. files w = F \<and> (F p \<noteq> None \<longrightarrow> r))) \<and>
     (\<forall>F p. hoare (\<lambda>w. files w = F) (os_mkdir Os p) (\<lambda>_ w. files w = F)) \<and>
     (\<forall>F p. hoare (\<lambda>w. files w = F) (os_is_dir Os p) (\<lambda>_ w. files w = F))"

section \<open>Platform functions\<close>

text \<open>\<^verbatim>\<open>TWEP_WR_PLATFORM_OK\<close> is the right side of a sum.\<close>

datatype twep_wr_platform_status_t =
  TWEP_WR_PLATFORM_ERR_IO | TWEP_WR_PLATFORM_ERR_NO_MEMORY | TWEP_WR_PLATFORM_ERR_UNSUPPORTED

datatype twep_wr_platform_sealed_security_t =
  TWEP_WR_PLATFORM_SEALED_UNSUPPORTED | TWEP_WR_PLATFORM_SEALED_OBSERVATION_ONLY | TWEP_WR_PLATFORM_SEALED_TEE_PROTECTED
| TWEP_WR_PLATFORM_SEALED_TEE_SECURE_STORAGE_SMOKE | TWEP_WR_PLATFORM_SEALED_TEE_REE_FS_SECURE_STORAGE

record twep_wr_platform_info_t =
  backend_name :: bytes
  sealed_storage_security :: twep_wr_platform_sealed_security_t
  supports_file_io :: bool
  supports_random :: bool
  supports_time :: bool

type_synonym ('w, 'a) platform_fn = "('w, twep_wr_platform_status_t + 'a) state"

definition twep_wr_platform_read_file :: "('w, 'f) os_api \<Rightarrow> bytes \<Rightarrow> ('w, bytes) platform_fn" where
  "twep_wr_platform_read_file Os path = do {
     fp \<leftarrow> os_fopen_read Os path;
     case fp of None \<Rightarrow> State_Monad.return (Inl TWEP_WR_PLATFORM_ERR_IO)
     | Some f \<Rightarrow> do {
         at_end \<leftarrow> os_fseek Os f;
         if \<not> at_end then do { _ \<leftarrow> os_fclose Os f; State_Monad.return (Inl TWEP_WR_PLATFORM_ERR_IO) }
         else do {
           len \<leftarrow> os_ftell Os f;
           if len < 0 then do { _ \<leftarrow> os_fclose Os f; State_Monad.return (Inl TWEP_WR_PLATFORM_ERR_IO) }
           else do {
             at_start \<leftarrow> os_fseek Os f;
             if \<not> at_start then do { _ \<leftarrow> os_fclose Os f; State_Monad.return (Inl TWEP_WR_PLATFORM_ERR_IO) }
             else do {
               mem \<leftarrow> os_malloc Os (if len = 0 then 1 else nat len);
               if \<not> mem then do { _ \<leftarrow> os_fclose Os f; State_Monad.return (Inl TWEP_WR_PLATFORM_ERR_NO_MEMORY) }
               else do {
                 buf \<leftarrow> (if len \<noteq> 0 then os_fread Os f (nat len) else State_Monad.return []);
                 if len \<noteq> 0 \<and> length buf \<noteq> nat len
                 then do { _ \<leftarrow> os_fclose Os f; State_Monad.return (Inl TWEP_WR_PLATFORM_ERR_IO) }
                 else do {
                   closed \<leftarrow> os_fclose Os f;
                   State_Monad.return (if \<not> closed then Inl TWEP_WR_PLATFORM_ERR_IO else Inr buf) } } } } } } }"

text \<open>The Linux backend has the same function.\<close>

definition linux_read_file :: "('w, 'f) os_api \<Rightarrow> bytes \<Rightarrow> ('w, bytes) platform_fn" where
  "linux_read_file Os path = twep_wr_platform_read_file Os path"

definition linux_write_file :: "('w, 'f) os_api \<Rightarrow> bytes \<Rightarrow> bytes \<Rightarrow> ('w, unit) platform_fn" where
  "linux_write_file Os path data = do {
     fp \<leftarrow> os_fopen_write Os path;
     case fp of None \<Rightarrow> State_Monad.return (Inl TWEP_WR_PLATFORM_ERR_IO)
     | Some f \<Rightarrow> do {
         n \<leftarrow> (if length data \<noteq> 0 then os_fwrite Os f data else State_Monad.return 0);
         if length data \<noteq> 0 \<and> n \<noteq> length data
         then do { _ \<leftarrow> os_fclose Os f; State_Monad.return (Inl TWEP_WR_PLATFORM_ERR_IO) }
         else do {
           closed \<leftarrow> os_fclose Os f;
           State_Monad.return (if \<not> closed then Inl TWEP_WR_PLATFORM_ERR_IO else Inr ()) } } }"

definition optee_write_file :: "('w, 'f) os_api \<Rightarrow> bytes \<Rightarrow> bytes \<Rightarrow> ('w, unit) platform_fn" where
  "optee_write_file Os path data = do {
     fp \<leftarrow> os_fopen_write Os path;
     case fp of None \<Rightarrow> State_Monad.return (Inl TWEP_WR_PLATFORM_ERR_IO)
     | Some f \<Rightarrow> do {
         n \<leftarrow> (if length data \<noteq> 0 then os_fwrite Os f data else State_Monad.return 0);
         if length data \<noteq> 0 \<and> n \<noteq> length data
         then do { _ \<leftarrow> os_fclose Os f; State_Monad.return (Inl TWEP_WR_PLATFORM_ERR_IO) }
         else do {
           flushed \<leftarrow> os_fflush Os f;
           synced \<leftarrow> (if flushed then os_fsync Os f else State_Monad.return False);
           if \<not> synced then do { _ \<leftarrow> os_fclose Os f; State_Monad.return (Inl TWEP_WR_PLATFORM_ERR_IO) }
           else do {
             closed \<leftarrow> os_fclose Os f;
             State_Monad.return (if \<not> closed then Inl TWEP_WR_PLATFORM_ERR_IO else Inr ()) } } } }"

definition tmp_path :: "bytes \<Rightarrow> bytes" where
  "tmp_path path = path @ ascii ''.tmp''"

text \<open>The source refuses a path whose length with five more bytes exceeds the range of \<^verbatim>\<open>size_t\<close>; no string in memory is that long.\<close>

definition linux_write_file_atomic :: "('w, 'f) os_api \<Rightarrow> bytes \<Rightarrow> bytes \<Rightarrow> ('w, unit) platform_fn" where
  "linux_write_file_atomic Os path data = do {
     mem \<leftarrow> os_malloc Os (length path + 5);
     if \<not> mem then State_Monad.return (Inl TWEP_WR_PLATFORM_ERR_NO_MEMORY)
     else do {
       status \<leftarrow> linux_write_file Os (tmp_path path) data;
       case status of Inl e \<Rightarrow> State_Monad.return (Inl e)
       | Inr _ \<Rightarrow> do {
           ok \<leftarrow> os_rename Os (tmp_path path) path;
           State_Monad.return (if \<not> ok then Inl TWEP_WR_PLATFORM_ERR_IO else Inr ()) } } }"

definition optee_write_file_atomic :: "('w, 'f) os_api \<Rightarrow> bytes \<Rightarrow> bytes \<Rightarrow> ('w, unit) platform_fn" where
  "optee_write_file_atomic Os path data =
     (if length (tmp_path path) \<ge> 1024 then State_Monad.return (Inl TWEP_WR_PLATFORM_ERR_IO)
      else do {
        status \<leftarrow> optee_write_file Os (tmp_path path) data;
        case status of Inl e \<Rightarrow> do { _ \<leftarrow> os_unlink Os (tmp_path path); State_Monad.return (Inl e) }
        | Inr _ \<Rightarrow> do {
            ok \<leftarrow> os_rename Os (tmp_path path) path;
            if \<not> ok then do { _ \<leftarrow> os_unlink Os (tmp_path path); State_Monad.return (Inl TWEP_WR_PLATFORM_ERR_IO) }
            else State_Monad.return (Inr ()) } })"

definition linux_mkdir_if_needed :: "('w, 'f) os_api \<Rightarrow> bytes \<Rightarrow> ('w, unit) platform_fn" where
  "linux_mkdir_if_needed Os path = do {
     r \<leftarrow> os_mkdir Os path;
     State_Monad.return (if r = Made \<or> r = Already_Exists then Inr () else Inl TWEP_WR_PLATFORM_ERR_IO) }"

definition optee_mkdir_if_needed :: "('w, 'f) os_api \<Rightarrow> bytes \<Rightarrow> ('w, unit) platform_fn" where
  "optee_mkdir_if_needed Os path =
     (if path = [] then State_Monad.return (Inl TWEP_WR_PLATFORM_ERR_IO)
      else do {
        r \<leftarrow> os_mkdir Os path;
        if r = Made then State_Monad.return (Inr ())
        else if r = Already_Exists then do {
          dir \<leftarrow> os_is_dir Os path;
          State_Monad.return (if dir then Inr () else Inl TWEP_WR_PLATFORM_ERR_IO) }
        else State_Monad.return (Inl TWEP_WR_PLATFORM_ERR_IO) })"

section \<open>Sealed objects of the Linux backend\<close>

definition TWEP_WR_LINUX_SEALED_NAME_MAX :: nat where
  "TWEP_WR_LINUX_SEALED_NAME_MAX = 128"

text \<open>The bound is checked for each index, so a name has at most 128 bytes.\<close>

definition sealed_object_name_is_safe :: "bytes \<Rightarrow> bool" where
  "sealed_object_name_is_safe nm \<longleftrightarrow>
     nm \<noteq> [] \<and> hd nm \<noteq> dot \<and> list_all (\<lambda>i. name_char (nm ! i) \<and> \<not> i \<ge> TWEP_WR_LINUX_SEALED_NAME_MAX) [0..<length nm]"

definition join_path2 :: "bytes \<Rightarrow> bytes \<Rightarrow> nat \<Rightarrow> twep_wr_platform_status_t + bytes" where
  "join_path2 base child out_cap =
     (let s = base @ [slash] @ child in
      if out_cap = 0 then Inl TWEP_WR_PLATFORM_ERR_IO else if length s < out_cap then Inr s else Inl TWEP_WR_PLATFORM_ERR_IO)"

definition linux_sealed_dirs :: "bytes \<Rightarrow> nat \<Rightarrow> twep_wr_platform_status_t + bytes \<times> bytes \<times> bytes" where
  "linux_sealed_dirs state_dir cap =
     (case join_path2 state_dir (ascii ''platform'') 1024 of Inl _ \<Rightarrow> Inl TWEP_WR_PLATFORM_ERR_IO
      | Inr platform_dir \<Rightarrow> (case join_path2 platform_dir (ascii ''linux'') 1024 of Inl _ \<Rightarrow> Inl TWEP_WR_PLATFORM_ERR_IO
        | Inr linux_dir \<Rightarrow> (case join_path2 linux_dir (ascii ''sealed'') cap of Inl _ \<Rightarrow> Inl TWEP_WR_PLATFORM_ERR_IO
          | Inr sealed_dir \<Rightarrow> Inr (platform_dir, linux_dir, sealed_dir))))"

definition linux_sealed_dir :: "bytes \<Rightarrow> nat \<Rightarrow> twep_wr_platform_status_t + bytes" where
  "linux_sealed_dir state_dir out_cap =
     (case linux_sealed_dirs state_dir out_cap of Inl e \<Rightarrow> Inl e | Inr (_, _, sealed_dir) \<Rightarrow> Inr sealed_dir)"

definition linux_sealed_path :: "bytes \<Rightarrow> bytes \<Rightarrow> nat \<Rightarrow> twep_wr_platform_status_t + bytes" where
  "linux_sealed_path state_dir object_name out_cap =
     (if \<not> sealed_object_name_is_safe object_name then Inl TWEP_WR_PLATFORM_ERR_IO
      else case linux_sealed_dir state_dir 1024 of Inl _ \<Rightarrow> Inl TWEP_WR_PLATFORM_ERR_IO
      | Inr sealed_dir \<Rightarrow> join_path2 sealed_dir object_name out_cap)"

text \<open>Directories are made one after the other until one fails.\<close>

fun make_dirs :: "(bytes \<Rightarrow> ('w, unit) platform_fn) \<Rightarrow> bytes list \<Rightarrow> ('w, bool) state" where
  "make_dirs mkdir [] = State_Monad.return True"
| "make_dirs mkdir (d # ds) = do {
     r \<leftarrow> mkdir d;
     case r of Inl _ \<Rightarrow> State_Monad.return False | Inr _ \<Rightarrow> make_dirs mkdir ds }"

definition linux_sealed_init :: "('w, 'f) os_api \<Rightarrow> bytes \<Rightarrow> ('w, unit) platform_fn" where
  "linux_sealed_init Os state_dir =
     (case linux_sealed_dirs state_dir 1024 of Inl _ \<Rightarrow> State_Monad.return (Inl TWEP_WR_PLATFORM_ERR_IO)
      | Inr (platform_dir, linux_dir, sealed_dir) \<Rightarrow> do {
          ok \<leftarrow> make_dirs (linux_mkdir_if_needed Os) [platform_dir, linux_dir, sealed_dir];
          State_Monad.return (if ok then Inr () else Inl TWEP_WR_PLATFORM_ERR_IO) })"

definition linux_sealed_exists :: "('w, 'f) os_api \<Rightarrow> bytes \<Rightarrow> bytes \<Rightarrow> ('w, bool) state" where
  "linux_sealed_exists Os state_dir object_name =
     (case linux_sealed_path state_dir object_name 1024 of Inl _ \<Rightarrow> State_Monad.return False
      | Inr path \<Rightarrow> os_exists Os path)"

definition linux_sealed_read :: "('w, 'f) os_api \<Rightarrow> bytes \<Rightarrow> bytes \<Rightarrow> ('w, bytes) platform_fn" where
  "linux_sealed_read Os state_dir object_name =
     (case linux_sealed_path state_dir object_name 1024 of Inl _ \<Rightarrow> State_Monad.return (Inl TWEP_WR_PLATFORM_ERR_IO)
      | Inr path \<Rightarrow> linux_read_file Os path)"

definition linux_sealed_write_atomic :: "('w, 'f) os_api \<Rightarrow> bytes \<Rightarrow> bytes \<Rightarrow> bytes \<Rightarrow> ('w, unit) platform_fn" where
  "linux_sealed_write_atomic Os state_dir object_name data = do {
     status \<leftarrow> linux_sealed_init Os state_dir;
     case status of Inl e \<Rightarrow> State_Monad.return (Inl e)
     | Inr _ \<Rightarrow> (case linux_sealed_path state_dir object_name 1024 of
           Inl _ \<Rightarrow> State_Monad.return (Inl TWEP_WR_PLATFORM_ERR_IO)
         | Inr path \<Rightarrow> linux_write_file_atomic Os path data) }"

definition LINUX_PLATFORM_INFO :: twep_wr_platform_info_t where
  "LINUX_PLATFORM_INFO = \<lparr>backend_name = ascii ''linux'', sealed_storage_security = TWEP_WR_PLATFORM_SEALED_OBSERVATION_ONLY,
     supports_file_io = True, supports_random = True, supports_time = True\<rparr>"

definition ARM_OPTEE_PLATFORM_INFO :: twep_wr_platform_info_t where
  "ARM_OPTEE_PLATFORM_INFO = \<lparr>backend_name = ascii ''arm-optee'',
     sealed_storage_security = TWEP_WR_PLATFORM_SEALED_TEE_REE_FS_SECURE_STORAGE,
     supports_file_io = True, supports_random = False, supports_time = False\<rparr>"

section \<open>The backend\<close>

record 'w backend =
  pf_read_file :: "bytes \<Rightarrow> ('w, bytes) platform_fn"
  pf_write_file :: "bytes \<Rightarrow> bytes \<Rightarrow> ('w, unit) platform_fn"
  pf_write_file_atomic :: "bytes \<Rightarrow> bytes \<Rightarrow> ('w, unit) platform_fn"
  pf_file_exists :: "bytes \<Rightarrow> ('w, bool) state"
  pf_mkdir_if_needed :: "bytes \<Rightarrow> ('w, unit) platform_fn"
  pf_sealed_init :: "bytes \<Rightarrow> ('w, unit) platform_fn"

definition linux_backend :: "('w, 'f) os_api \<Rightarrow> 'w backend" where
  "linux_backend Os = \<lparr>pf_read_file = linux_read_file Os, pf_write_file = linux_write_file Os,
     pf_write_file_atomic = linux_write_file_atomic Os, pf_file_exists = os_exists Os,
     pf_mkdir_if_needed = linux_mkdir_if_needed Os, pf_sealed_init = linux_sealed_init Os\<rparr>"

definition optee_backend :: "('w, 'f) os_api \<Rightarrow> 'w backend" where
  "optee_backend Os = \<lparr>pf_read_file = twep_wr_platform_read_file Os, pf_write_file = optee_write_file Os,
     pf_write_file_atomic = optee_write_file_atomic Os, pf_file_exists = os_exists Os,
     pf_mkdir_if_needed = optee_mkdir_if_needed Os, pf_sealed_init = (\<lambda>_. State_Monad.return (Inr ()))\<rparr>"

text \<open>What the library says about the storage of a backend.\<close>

definition twep_wr_platform_supports_protected_storage :: "twep_wr_platform_info_t \<Rightarrow> bool" where
  "twep_wr_platform_supports_protected_storage info \<longleftrightarrow>
     sealed_storage_security info = TWEP_WR_PLATFORM_SEALED_OBSERVATION_ONLY \<or>
     sealed_storage_security info = TWEP_WR_PLATFORM_SEALED_TEE_PROTECTED \<or>
     sealed_storage_security info = TWEP_WR_PLATFORM_SEALED_TEE_SECURE_STORAGE_SMOKE \<or>
     sealed_storage_security info = TWEP_WR_PLATFORM_SEALED_TEE_REE_FS_SECURE_STORAGE"

fun twep_wr_platform_sealed_security_label :: "twep_wr_platform_sealed_security_t \<Rightarrow> bytes" where
  "twep_wr_platform_sealed_security_label TWEP_WR_PLATFORM_SEALED_OBSERVATION_ONLY = ascii ''observation-only''"
| "twep_wr_platform_sealed_security_label TWEP_WR_PLATFORM_SEALED_TEE_PROTECTED = ascii ''tee-protected''"
| "twep_wr_platform_sealed_security_label TWEP_WR_PLATFORM_SEALED_TEE_SECURE_STORAGE_SMOKE = ascii ''tee-secure-storage-smoke''"
| "twep_wr_platform_sealed_security_label TWEP_WR_PLATFORM_SEALED_TEE_REE_FS_SECURE_STORAGE = ascii ''tee-ree-fs-secure-storage''"
| "twep_wr_platform_sealed_security_label TWEP_WR_PLATFORM_SEALED_UNSUPPORTED = ascii ''unsupported''"

definition twep_wr_bool_label :: "bool \<Rightarrow> bytes" where
  "twep_wr_bool_label b = (if b then ascii ''true'' else ascii ''false'')"

section \<open>The state directory\<close>

definition TWEP_WR_MAX_PATH_LEN :: nat where
  "TWEP_WR_MAX_PATH_LEN = 512"

definition twep_wr_read_file :: "'w backend \<Rightarrow> bytes \<Rightarrow> ('w, bytes option) state" where
  "twep_wr_read_file B path = do {
     r \<leftarrow> pf_read_file B path;
     State_Monad.return (case r of Inl _ \<Rightarrow> None | Inr bs \<Rightarrow> Some bs) }"

definition twep_wr_file_exists :: "'w backend \<Rightarrow> bytes \<Rightarrow> ('w, bool) state" where
  "twep_wr_file_exists B path = pf_file_exists B path"

definition twep_wr_copy_file :: "'w backend \<Rightarrow> bytes \<Rightarrow> bytes \<Rightarrow> ('w, twep_wr_status_t) state" where
  "twep_wr_copy_file B src dst = do {
     r \<leftarrow> twep_wr_read_file B src;
     case r of None \<Rightarrow> State_Monad.return TWEP_WR_ERR_CATALOG
     | Some bs \<Rightarrow> do {
         status \<leftarrow> pf_write_file B dst bs;
         State_Monad.return (case status of Inl _ \<Rightarrow> TWEP_WR_ERR_CATALOG | Inr _ \<Rightarrow> TWEP_WR_OK) } }"

definition twep_wr_mkdir_if_needed :: "'w backend \<Rightarrow> bytes \<Rightarrow> ('w, twep_wr_status_t) state" where
  "twep_wr_mkdir_if_needed B path = do {
     r \<leftarrow> pf_mkdir_if_needed B path;
     State_Monad.return (case r of Inl _ \<Rightarrow> TWEP_WR_ERR_CATALOG | Inr _ \<Rightarrow> TWEP_WR_OK) }"

definition twep_wr_state_path :: "twep_wr_context \<Rightarrow> bytes \<Rightarrow> bytes option \<Rightarrow> nat \<Rightarrow> bytes option" where
  "twep_wr_state_path ctx subdir nm out_cap =
     (let s = cx_state_dir ctx @ [slash] @ subdir @ (case nm of None \<Rightarrow> [] | Some n \<Rightarrow> [slash] @ n) in
      if length s < out_cap then Some s else None)"

definition twep_wr_build_path :: "bytes \<Rightarrow> nat \<Rightarrow> bytes option" where
  "twep_wr_build_path nm out_cap =
     (let s = ascii ''build/'' @ nm in if length s < out_cap then Some s else None)"

text \<open>The subdirectories are made in order, until one fails.\<close>

fun ensure_subdirs :: "'w backend \<Rightarrow> twep_wr_context \<Rightarrow> bytes list \<Rightarrow> ('w, twep_wr_status_t) state" where
  "ensure_subdirs B ctx [] = State_Monad.return TWEP_WR_OK"
| "ensure_subdirs B ctx (sub # subs) =
     (case twep_wr_state_path ctx sub None TWEP_WR_MAX_PATH_LEN of None \<Rightarrow> State_Monad.return TWEP_WR_ERR_CATALOG
      | Some path \<Rightarrow> do {
          status \<leftarrow> twep_wr_mkdir_if_needed B path;
          if status \<noteq> TWEP_WR_OK then State_Monad.return TWEP_WR_ERR_CATALOG else ensure_subdirs B ctx subs })"

definition twep_wr_ensure_state_layout :: "'w backend \<Rightarrow> twep_wr_context \<Rightarrow> ('w, twep_wr_status_t) state" where
  "twep_wr_ensure_state_layout B ctx = do {
     status \<leftarrow> twep_wr_mkdir_if_needed B (cx_state_dir ctx);
     if status \<noteq> TWEP_WR_OK then State_Monad.return TWEP_WR_ERR_CATALOG
     else do {
       status \<leftarrow> ensure_subdirs B ctx [ascii ''catalog'', ascii ''apps'', ascii ''teep-agent'', ascii ''tmp'',
         ascii ''components'', ascii ''locks''];
       if status \<noteq> TWEP_WR_OK then State_Monad.return status
       else do {
         sealed \<leftarrow> pf_sealed_init B (cx_state_dir ctx);
         State_Monad.return (case sealed of Inr _ \<Rightarrow> TWEP_WR_OK
           | Inl e \<Rightarrow> if e \<noteq> TWEP_WR_PLATFORM_ERR_UNSUPPORTED then TWEP_WR_ERR_CATALOG else TWEP_WR_OK) } } }"

text \<open>A file that is missing is copied from one of two places.\<close>

definition ensure_copied :: "'w backend \<Rightarrow> bytes \<Rightarrow> bytes \<Rightarrow> bytes \<Rightarrow> ('w, twep_wr_status_t) state" where
  "ensure_copied B dst src fallback = do {
     there \<leftarrow> twep_wr_file_exists B dst;
     if there then State_Monad.return TWEP_WR_OK
     else do {
       status \<leftarrow> twep_wr_copy_file B src dst;
       if status = TWEP_WR_OK then State_Monad.return TWEP_WR_OK else twep_wr_copy_file B fallback dst } }"

definition twep_wr_ensure_state_catalog :: "'w backend \<Rightarrow> twep_wr_context \<Rightarrow> ('w, twep_wr_status_t) state" where
  "twep_wr_ensure_state_catalog B ctx =
     (case twep_wr_state_path ctx (ascii ''catalog'') (Some (ascii ''catalog.cbor'')) TWEP_WR_MAX_PATH_LEN of
        None \<Rightarrow> State_Monad.return TWEP_WR_ERR_CATALOG
      | Some cbor_dst \<Rightarrow> do {
          status \<leftarrow> ensure_copied B cbor_dst (ascii ''build/catalog.dev.cbor'') (ascii ''../../build/catalog.dev.cbor'');
          if status \<noteq> TWEP_WR_OK then State_Monad.return status
          else (case twep_wr_state_path ctx (ascii ''catalog'') (Some (ascii ''catalog.dev.json'')) TWEP_WR_MAX_PATH_LEN of
              None \<Rightarrow> State_Monad.return TWEP_WR_ERR_CATALOG
            | Some json_dst \<Rightarrow> ensure_copied B json_dst (ascii ''build/catalog.dev.json'') (ascii ''../../build/catalog.dev.json'')) })"

definition twep_wr_ensure_state_app :: "'w backend \<Rightarrow> twep_wr_context \<Rightarrow> bytes \<Rightarrow> ('w, twep_wr_status_t) state" where
  "twep_wr_ensure_state_app B ctx wasm_file =
     (case twep_wr_state_path ctx (ascii ''apps'') (Some wasm_file) TWEP_WR_MAX_PATH_LEN of
        None \<Rightarrow> State_Monad.return TWEP_WR_ERR_CATALOG
      | Some dst \<Rightarrow> do {
          there \<leftarrow> twep_wr_file_exists B dst;
          if there then State_Monad.return TWEP_WR_OK
          else (case twep_wr_build_path wasm_file TWEP_WR_MAX_PATH_LEN of
              None \<Rightarrow> State_Monad.return TWEP_WR_ERR_CATALOG
            | Some src \<Rightarrow> do {
                status \<leftarrow> twep_wr_copy_file B src dst;
                if status = TWEP_WR_OK then State_Monad.return status
                else let fallback = ascii ''../../build/'' @ wasm_file in
                  if length fallback \<ge> TWEP_WR_MAX_PATH_LEN then State_Monad.return TWEP_WR_ERR_WASM_LOAD
                  else do {
                    status \<leftarrow> twep_wr_copy_file B fallback dst;
                    State_Monad.return (if status = TWEP_WR_OK then TWEP_WR_OK else TWEP_WR_ERR_WASM_LOAD) } }) })"

definition twep_wr_ensure_teep_agent :: "'w backend \<Rightarrow> twep_wr_context \<Rightarrow> ('w, twep_wr_status_t) state" where
  "twep_wr_ensure_teep_agent B ctx =
     (case twep_wr_state_path ctx (ascii ''teep-agent'') (Some (ascii ''teep-agent.wasm'')) TWEP_WR_MAX_PATH_LEN of
        None \<Rightarrow> State_Monad.return TWEP_WR_ERR_TEEP
      | Some dst \<Rightarrow> do {
          status \<leftarrow> ensure_copied B dst (ascii ''build/teep-agent.wasm'') (ascii ''../../build/teep-agent.wasm'');
          State_Monad.return (if status = TWEP_WR_OK then TWEP_WR_OK else TWEP_WR_ERR_TEEP) })"

section \<open>What the functions of the operating system promise\<close>

lemma file_laws_rules:
  assumes "file_laws Os files reading writing"
  shows law_fmalloc: "hoare (\<lambda>w. files w = F \<and> reading w = R \<and> writing w = W) (os_malloc Os n)
        (\<lambda>_ w. files w = F \<and> reading w = R \<and> writing w = W)"
    and law_fopen_read: "hoare (\<lambda>w. files w = F) (os_fopen_read Os p)
        (\<lambda>r w. files w = F \<and> (case r of None \<Rightarrow> True | Some f \<Rightarrow> reading w f = Some p \<and> F p \<noteq> None))"
    and law_fopen_write: "hoare (\<lambda>w. files w = F) (os_fopen_write Os p)
        (\<lambda>r w. case r of None \<Rightarrow> files w = F | Some f \<Rightarrow> files w = F(p \<mapsto> []) \<and> writing w f = Some p)"
    and law_fseek: "hoare (\<lambda>w. files w = F \<and> reading w f = Some p) (os_fseek Os f) (\<lambda>_ w. files w = F \<and> reading w f = Some p)"
    and law_ftell: "hoare (\<lambda>w. files w = F \<and> reading w f = Some p) (os_ftell Os f)
        (\<lambda>r w. files w = F \<and> reading w f = Some p \<and> (\<forall>bs. 0 \<le> r \<and> F p = Some bs \<longrightarrow> r = int (length bs)))"
    and law_fread: "hoare (\<lambda>w. files w = F \<and> reading w f = Some p) (os_fread Os f n)
        (\<lambda>r w. files w = F \<and> reading w f = Some p \<and> (\<forall>bs. F p = Some bs \<and> length r = n \<longrightarrow> r = take n bs))"
    and law_fwrite: "hoare (\<lambda>w. files w = F \<and> writing w f = Some p \<and> F p = Some x) (os_fwrite Os f bs)
        (\<lambda>n w. files w = F(p \<mapsto> x @ take n bs) \<and> writing w f = Some p)"
    and law_fflush: "hoare (\<lambda>w. files w = F \<and> writing w f = Some p) (os_fflush Os f) (\<lambda>_ w. files w = F \<and> writing w f = Some p)"
    and law_fsync: "hoare (\<lambda>w. files w = F \<and> writing w f = Some p) (os_fsync Os f) (\<lambda>_ w. files w = F \<and> writing w f = Some p)"
    and law_fclose_write: "hoare (\<lambda>w. files w = F \<and> writing w f = Some p) (os_fclose Os f)
        (\<lambda>ok w. if ok then files w = F else \<exists>x. files w = F(p := x))"
    and law_fclose_read: "hoare (\<lambda>w. files w = F \<and> reading w f = Some p) (os_fclose Os f) (\<lambda>_ w. files w = F)"
    and law_unlink: "hoare (\<lambda>w. files w = F) (os_unlink Os p) (\<lambda>_ w. files w = F \<or> files w = F(p := None))"
    and law_rename: "hoare (\<lambda>w. files w = F) (os_rename Os p q)
        (\<lambda>ok w. if ok then files w = F(q := F p, p := None) else files w = F)"
    and law_exists: "hoare (\<lambda>w. files w = F) (os_exists Os p) (\<lambda>r w. files w = F \<and> (F p \<noteq> None \<longrightarrow> r))"
    and law_mkdir: "hoare (\<lambda>w. files w = F) (os_mkdir Os p) (\<lambda>_ w. files w = F)"
    and law_is_dir: "hoare (\<lambda>w. files w = F) (os_is_dir Os p) (\<lambda>_ w. files w = F)"
  using assms unfolding file_laws_def by simp_all

section \<open>Reading and writing a file\<close>

text \<open>The laws as rules for a call and what follows it: of an open stream for reading and for writing.\<close>

lemma hoare_case_option:
  "(r = None \<Longrightarrow> hoare P m Q) \<Longrightarrow> (\<And>x. r = Some x \<Longrightarrow> hoare P (g x) Q) \<Longrightarrow>
   hoare P (case r of None \<Rightarrow> m | Some x \<Rightarrow> g x) Q"
  by (cases r) auto

lemma hoare_seq:
  assumes "hoare P m (\<lambda>r w. A r \<and> R r w)" and "\<And>r. A r \<Longrightarrow> hoare (R r) (f r) Q"
  shows "hoare P (State_Monad.bind m f) Q"
  by (rule hoare_bind [OF assms(1)]) (use assms(2) in \<open>auto simp: hoare_def\<close>)

lemma read_stream:
  assumes laws: "file_laws Os files reading writing"
  defines "R \<equiv> \<lambda>F p f w. files w = F \<and> reading w f = Some p"
  shows "(\<And>ok. hoare (R F p f) (k1 ok) Q) \<Longrightarrow> hoare (R F p f) (State_Monad.bind (os_fseek Os f) k1) Q"
    and "(\<And>len. (\<And>bs. 0 \<le> len \<Longrightarrow> F p = Some bs \<Longrightarrow> len = int (length bs)) \<Longrightarrow> hoare (R F p f) (k2 len) Q) \<Longrightarrow>
      hoare (R F p f) (State_Monad.bind (os_ftell Os f) k2) Q"
    and "(\<And>ok. hoare (R F p f) (k1 ok) Q) \<Longrightarrow> hoare (R F p f) (State_Monad.bind (os_malloc Os n) k1) Q"
    and "(\<And>buf. (\<And>bs. F p = Some bs \<Longrightarrow> length buf = n \<Longrightarrow> buf = take n bs) \<Longrightarrow> hoare (R F p f) (k3 buf) Q) \<Longrightarrow>
      hoare (R F p f) (State_Monad.bind (os_fread Os f n) k3) Q"
    and "(\<And>ok. hoare (\<lambda>w. files w = F) (k1 ok) Q) \<Longrightarrow> hoare (R F p f) (State_Monad.bind (os_fclose Os f) k1) Q"
    and "hoare (\<lambda>w. files w = F) k4 Q \<Longrightarrow> (\<And>f. F p \<noteq> None \<Longrightarrow> hoare (R F p f) (k5 f) Q) \<Longrightarrow>
      hoare (\<lambda>w. files w = F) (State_Monad.bind (os_fopen_read Os p) (\<lambda>fp. case fp of None \<Rightarrow> k4 | Some f \<Rightarrow> k5 f)) Q"
proof -
  note L = file_laws_rules [OF laws]
  show "(\<And>ok. hoare (R F p f) (k1 ok) Q) \<Longrightarrow> hoare (R F p f) (State_Monad.bind (os_fseek Os f) k1) Q"
    unfolding R_def by (rule hoare_bind [OF L(4)])
  show "(\<And>len. (\<And>bs. 0 \<le> len \<Longrightarrow> F p = Some bs \<Longrightarrow> len = int (length bs)) \<Longrightarrow> hoare (R F p f) (k2 len) Q) \<Longrightarrow>
      hoare (R F p f) (State_Monad.bind (os_ftell Os f) k2) Q"
    unfolding R_def
    by (rule hoare_seq [where A = "\<lambda>len. \<forall>bs. 0 \<le> len \<and> F p = Some bs \<longrightarrow> len = int (length bs)"
          and R = "\<lambda>_ w. files w = F \<and> reading w f = Some p", OF hoare_post [OF L(5)]]) auto
  show "(\<And>ok. hoare (R F p f) (k1 ok) Q) \<Longrightarrow> hoare (R F p f) (State_Monad.bind (os_malloc Os n) k1) Q"
  proof -
    have "hoare (R F p f) (os_malloc Os n) (\<lambda>_. R F p f)"
      using L(1) [of F _ _ n] unfolding R_def hoare_def by metis
    then show "(\<And>ok. hoare (R F p f) (k1 ok) Q) \<Longrightarrow> hoare (R F p f) (State_Monad.bind (os_malloc Os n) k1) Q"
      by (rule hoare_bind)
  qed
  show "(\<And>buf. (\<And>bs. F p = Some bs \<Longrightarrow> length buf = n \<Longrightarrow> buf = take n bs) \<Longrightarrow> hoare (R F p f) (k3 buf) Q) \<Longrightarrow>
      hoare (R F p f) (State_Monad.bind (os_fread Os f n) k3) Q"
    unfolding R_def
    by (rule hoare_seq [where A = "\<lambda>buf. \<forall>bs. F p = Some bs \<and> length buf = n \<longrightarrow> buf = take n bs"
          and R = "\<lambda>_ w. files w = F \<and> reading w f = Some p", OF hoare_post [OF L(6)]]) auto
  show "(\<And>ok. hoare (\<lambda>w. files w = F) (k1 ok) Q) \<Longrightarrow> hoare (R F p f) (State_Monad.bind (os_fclose Os f) k1) Q"
    unfolding R_def by (rule hoare_bind [OF L(11)])
  show "hoare (\<lambda>w. files w = F) k4 Q \<Longrightarrow> (\<And>f. F p \<noteq> None \<Longrightarrow> hoare (R F p f) (k5 f) Q) \<Longrightarrow>
      hoare (\<lambda>w. files w = F) (State_Monad.bind (os_fopen_read Os p) (\<lambda>fp. case fp of None \<Rightarrow> k4 | Some f \<Rightarrow> k5 f)) Q"
    unfolding R_def by (rule hoare_bind [OF L(2)], rule hoare_case_option) (auto simp: hoare_def)
qed

lemma read_file_law:
  assumes laws: "file_laws Os files reading writing"
  shows "hoare (\<lambda>w. files w = F) (twep_wr_platform_read_file Os p) (\<lambda>r w. files w = F \<and> (\<forall>bs. r = Inr bs \<longrightarrow> F p = Some bs))"
proof -
  have "hoare (\<lambda>w. files w = F \<and> reading w f = Some p)
      (do { buf \<leftarrow> (if len \<noteq> 0 then os_fread Os f (nat len) else State_Monad.return []);
            if len \<noteq> 0 \<and> length buf \<noteq> nat len
            then do { _ \<leftarrow> os_fclose Os f; State_Monad.return (Inl TWEP_WR_PLATFORM_ERR_IO) }
            else do {
              closed \<leftarrow> os_fclose Os f;
              State_Monad.return (if \<not> closed then Inl TWEP_WR_PLATFORM_ERR_IO else Inr buf) } })
      (\<lambda>r w. files w = F \<and> (\<forall>bs. r = Inr bs \<longrightarrow> F p = Some bs))"
    if "F p \<noteq> None" "\<not> len < 0" "\<And>bs. 0 \<le> len \<Longrightarrow> F p = Some bs \<Longrightarrow> len = int (length bs)" for f len
  proof (rule hoare_seq [where A = "\<lambda>buf. len \<noteq> 0 \<and> length buf \<noteq> nat len \<or> F p = Some buf"
        and R = "\<lambda>_ w. files w = F \<and> reading w f = Some p"])
    show "hoare (\<lambda>w. files w = F \<and> reading w f = Some p) (if len \<noteq> 0 then os_fread Os f (nat len) else State_Monad.return [])
        (\<lambda>buf w. (len \<noteq> 0 \<and> length buf \<noteq> nat len \<or> F p = Some buf) \<and> files w = F \<and> reading w f = Some p)"
      using that by (auto intro!: hoare_return hoare_post [OF file_laws_rules(6) [OF laws]])
  qed (intro wp read_stream [OF laws], auto)
  then show ?thesis
    unfolding twep_wr_platform_read_file_def
    by (intro read_stream [OF laws] wp) (auto split: if_splits)
qed

lemma write_stream:
  assumes laws: "file_laws Os files reading writing"
  defines "V \<equiv> \<lambda>F p x f w. files w = F(p \<mapsto> x) \<and> writing w f = Some p"
  shows "(\<And>n. hoare (V F p (x @ take n bs) f) (k1 n) Q) \<Longrightarrow> hoare (V F p x f) (State_Monad.bind (os_fwrite Os f bs) k1) Q"
    and "(\<And>ok. hoare (V F p x f) (k2 ok) Q) \<Longrightarrow> hoare (V F p x f) (State_Monad.bind (os_fflush Os f) k2) Q"
    and "(\<And>ok. hoare (V F p x f) (k2 ok) Q) \<Longrightarrow> hoare (V F p x f) (State_Monad.bind (os_fsync Os f) k2) Q"
    and "(\<And>ok. hoare (\<lambda>w. if ok then files w = F(p \<mapsto> x) else \<exists>y. files w = F(p := y)) (k2 ok) Q) \<Longrightarrow>
      hoare (V F p x f) (State_Monad.bind (os_fclose Os f) k2) Q"
    and "hoare (\<lambda>w. files w = F) k4 Q \<Longrightarrow> (\<And>f. hoare (V F p [] f) (k5 f) Q) \<Longrightarrow>
      hoare (\<lambda>w. files w = F) (State_Monad.bind (os_fopen_write Os p) (\<lambda>fp. case fp of None \<Rightarrow> k4 | Some f \<Rightarrow> k5 f)) Q"
proof -
  note L = file_laws_rules [OF laws]
  show "(\<And>n. hoare (V F p (x @ take n bs) f) (k1 n) Q) \<Longrightarrow> hoare (V F p x f) (State_Monad.bind (os_fwrite Os f bs) k1) Q"
    using L(7) [of "F(p \<mapsto> x)" f p x bs] unfolding V_def by (auto intro: hoare_bind)
  show "(\<And>ok. hoare (V F p x f) (k2 ok) Q) \<Longrightarrow> hoare (V F p x f) (State_Monad.bind (os_fflush Os f) k2) Q"
    unfolding V_def by (rule hoare_bind [OF L(8)])
  show "(\<And>ok. hoare (V F p x f) (k2 ok) Q) \<Longrightarrow> hoare (V F p x f) (State_Monad.bind (os_fsync Os f) k2) Q"
    unfolding V_def by (rule hoare_bind [OF L(9)])
  show "(\<And>ok. hoare (\<lambda>w. if ok then files w = F(p \<mapsto> x) else \<exists>y. files w = F(p := y)) (k2 ok) Q) \<Longrightarrow>
      hoare (V F p x f) (State_Monad.bind (os_fclose Os f) k2) Q"
  proof -
    have "hoare (V F p x f) (os_fclose Os f) (\<lambda>ok w. if ok then files w = F(p \<mapsto> x) else \<exists>y. files w = F(p := y))"
      unfolding V_def by (rule hoare_post [OF L(10)]) (auto split: if_splits)
    then show "(\<And>ok. hoare (\<lambda>w. if ok then files w = F(p \<mapsto> x) else \<exists>y. files w = F(p := y)) (k2 ok) Q) \<Longrightarrow>
        hoare (V F p x f) (State_Monad.bind (os_fclose Os f) k2) Q" by (rule hoare_bind)
  qed
  show "hoare (\<lambda>w. files w = F) k4 Q \<Longrightarrow> (\<And>f. hoare (V F p [] f) (k5 f) Q) \<Longrightarrow>
      hoare (\<lambda>w. files w = F) (State_Monad.bind (os_fopen_write Os p) (\<lambda>fp. case fp of None \<Rightarrow> k4 | Some f \<Rightarrow> k5 f)) Q"
    unfolding V_def by (rule hoare_bind [OF L(3)], rule hoare_case_option) (auto simp: hoare_def)
qed

lemma write_file_law:
  assumes laws: "file_laws Os files reading writing"
  defines "Q \<equiv> \<lambda>F p bs (r :: twep_wr_platform_status_t + unit) w. (\<exists>x. files w = F(p := x)) \<and> (r = Inr () \<longrightarrow> files w = F(p \<mapsto> bs))"
  shows "hoare (\<lambda>w. files w = F) (linux_write_file Os p bs) (Q F p bs)"
    and "hoare (\<lambda>w. files w = F) (optee_write_file Os p bs) (Q F p bs)"
proof -
  let ?V = "\<lambda>x f w. files w = F(p \<mapsto> x) \<and> writing w f = Some p"
  have fail: "hoare (?V x f) (do { _ \<leftarrow> os_fclose Os f; State_Monad.return (Inl e) }) (Q F p bs)" for x f e
    by (rule write_stream [OF laws], rule hoare_return) (auto simp: Q_def split: if_splits)
  have fin: "hoare (?V x f) (do { closed \<leftarrow> os_fclose Os f;
      State_Monad.return (if \<not> closed then Inl TWEP_WR_PLATFORM_ERR_IO else Inr ()) }) (Q F p bs)" if "x = bs" for x f
    by (rule write_stream [OF laws], rule hoare_return) (auto simp: Q_def that split: if_splits)
  have none: "hoare (\<lambda>w. files w = F) (State_Monad.return (Inl e)) (Q F p bs)" for e
    by (rule hoare_return) (auto simp: Q_def intro: exI [of _ "F p"])
  have put: "hoare (?V [] f) (State_Monad.bind (if length bs \<noteq> 0 then os_fwrite Os f bs else State_Monad.return 0) k) (Q F p bs)"
    if "\<And>n x. (length bs \<noteq> 0 \<longrightarrow> x = take n bs) \<Longrightarrow> (length bs = 0 \<longrightarrow> x = bs) \<Longrightarrow> hoare (?V x f) (k n) (Q F p bs)" for f k
  proof (cases "bs = []")
    case True
    then show ?thesis using that [of "[]" 0] by simp
  next
    case False
    then show ?thesis using write_stream(1) [OF laws, of F p "[]" bs f k] that by simp
  qed
  have sync: "hoare (?V x f) (State_Monad.bind (if flushed then os_fsync Os f else State_Monad.return False) k) (Q F p bs)"
    if "\<And>ok. hoare (?V x f) (k ok) (Q F p bs)" for x f flushed k
    using write_stream(3) [OF laws, of F p x f k] that by simp
  show "hoare (\<lambda>w. files w = F) (linux_write_file Os p bs) (Q F p bs)"
    unfolding linux_write_file_def
    by (intro write_stream [OF laws] put none hoare_if fail fin) auto
  show "hoare (\<lambda>w. files w = F) (optee_write_file Os p bs) (Q F p bs)"
    unfolding optee_write_file_def
    by (intro write_stream [OF laws] sync put none hoare_if fail fin) auto
qed

lemma write_atomic_law:
  assumes laws: "file_laws Os files reading writing"
  defines "Q \<equiv> \<lambda>F p bs r w. \<forall>q. q \<noteq> tmp_path p \<longrightarrow> files w q = (if r = Inr () then F(p \<mapsto> bs) else F) q"
  shows "hoare (\<lambda>w. files w = F) (linux_write_file_atomic Os p bs) (Q F p bs)"
    and "hoare (\<lambda>w. files w = F) (optee_write_file_atomic Os p bs) (Q F p bs)"
proof -
  note L = file_laws_rules [OF laws]
  have tmp: "tmp_path p \<noteq> p" by (simp add: tmp_path_def)
  let ?T = "\<lambda>w. \<exists>x. files w = F(tmp_path p := x)"
  have mem: "hoare (\<lambda>w. files w = F) (os_malloc Os n) (\<lambda>_ w. files w = F)" for n
    using L(1) [of F _ _ n] unfolding hoare_def by metis
  have ren: "hoare (\<lambda>w. files w = F(tmp_path p \<mapsto> bs)) (os_rename Os (tmp_path p) p)
      (\<lambda>ok w. if ok then \<forall>q. q \<noteq> tmp_path p \<longrightarrow> files w q = (F(p \<mapsto> bs)) q else ?T w)"
    by (rule hoare_post [OF L(13)]) (auto split: if_splits)
  have del: "hoare ?T (os_unlink Os (tmp_path p)) (\<lambda>_. ?T)"
    using L(12) [of _ "tmp_path p"] unfolding hoare_def by (metis fun_upd_upd)
  have old: "Q F p bs (Inl e) w" if "?T w" for e w using that by (auto simp: Q_def)
  have new: "Q F p bs (Inr ()) w" if "\<forall>q. q \<noteq> tmp_path p \<longrightarrow> files w q = (F(p \<mapsto> bs)) q" for w
    using that by (simp add: Q_def)
  have wr: "hoare (\<lambda>w. files w = F) m (\<lambda>r w. case r of Inl _ \<Rightarrow> ?T w | Inr _ \<Rightarrow> files w = F(tmp_path p \<mapsto> bs))"
    if "m = linux_write_file Os (tmp_path p) bs \<or> m = optee_write_file Os (tmp_path p) bs" for m
    using that hoare_post [OF write_file_law(1) [OF laws, of F "tmp_path p" bs]]
      hoare_post [OF write_file_law(2) [OF laws, of F "tmp_path p" bs]]
    by (auto split: sum.split)
  show "hoare (\<lambda>w. files w = F) (linux_write_file_atomic Os p bs) (Q F p bs)"
    unfolding linux_write_file_atomic_def
    by (rule hoare_bind [OF mem], rule hoare_if, rule hoare_return, simp add: Q_def,
        rule hoare_bind [OF wr], simp, rule hoare_case_sum, rule hoare_return, simp add: old,
        simp, rule hoare_bind [OF ren], rule hoare_return, auto simp: old new)
  show "hoare (\<lambda>w. files w = F) (optee_write_file_atomic Os p bs) (Q F p bs)"
    unfolding optee_write_file_atomic_def
    by (rule hoare_if, rule hoare_return, simp add: Q_def,
        rule hoare_bind [OF wr], simp, rule hoare_case_sum, simp, rule hoare_bind [OF del], rule hoare_return, simp add: old,
        simp, rule hoare_bind [OF ren], rule hoare_if, simp, rule hoare_bind [OF del], rule hoare_return, simp add: old,
        rule hoare_return, simp add: new)
qed

section \<open>The interface of a backend\<close>

text \<open>
  What the library relies on: a file is read as it is, writing changes no other file, an atomic
  write leaves the old contents when it fails, and nothing else changes a file.
\<close>

locale file_backend =
  fixes B :: "('w, 'f) os_api \<Rightarrow> 'w backend"
  assumes read: "file_laws Os files reading writing \<Longrightarrow>
      hoare (\<lambda>w. files w = F) (pf_read_file (B Os) p) (\<lambda>r w. files w = F \<and> (\<forall>bs. r = Inr bs \<longrightarrow> F p = Some bs))"
    and "write": "file_laws Os files reading writing \<Longrightarrow> hoare (\<lambda>w. files w = F) (pf_write_file (B Os) p bs)
      (\<lambda>r w. (\<exists>x. files w = F(p := x)) \<and> (r = Inr () \<longrightarrow> files w = F(p \<mapsto> bs)))"
    and write_atomic: "file_laws Os files reading writing \<Longrightarrow> hoare (\<lambda>w. files w = F) (pf_write_file_atomic (B Os) p bs)
      (\<lambda>r w. \<forall>q. q \<noteq> tmp_path p \<longrightarrow> files w q = (if r = Inr () then F(p \<mapsto> bs) else F) q)"
    and exists: "file_laws Os files reading writing \<Longrightarrow>
      hoare (\<lambda>w. files w = F) (pf_file_exists (B Os) p) (\<lambda>r w. files w = F \<and> (F p \<noteq> None \<longrightarrow> r))"
    and mkdir: "file_laws Os files reading writing \<Longrightarrow>
      hoare (\<lambda>w. files w = F) (pf_mkdir_if_needed (B Os) p) (\<lambda>_ w. files w = F)"
    and sealed_init: "file_laws Os files reading writing \<Longrightarrow>
      hoare (\<lambda>w. files w = F) (pf_sealed_init (B Os) p) (\<lambda>_ w. files w = F)"

definition only_added :: "(bytes \<Rightarrow> bool) \<Rightarrow> (bytes \<Rightarrow> bytes option) \<Rightarrow> (bytes \<Rightarrow> bytes option) \<Rightarrow> bool" where
  "only_added D F F' \<longleftrightarrow> (\<forall>q. F' q = F q \<or> F q = None \<and> D q)"

lemma only_added_refl: "only_added D F F"
  by (simp add: only_added_def)

lemma only_added_upd: "F p = None \<Longrightarrow> D p \<Longrightarrow> only_added D F (F(p := x))"
  by (simp add: only_added_def)

lemma only_added_trans: "only_added D F F' \<Longrightarrow> only_added D F' F'' \<Longrightarrow> only_added D F F''"
  unfolding only_added_def by metis

definition in_state_dir :: "twep_wr_context \<Rightarrow> bytes \<Rightarrow> bool" where
  "in_state_dir ctx q \<longleftrightarrow> prefix (cx_state_dir ctx @ [slash]) q"

lemma state_path_in_dir: "twep_wr_state_path ctx sub nm cap = Some p \<Longrightarrow> in_state_dir ctx p"
  by (auto simp: twep_wr_state_path_def in_state_dir_def Let_def split: if_splits)

lemma state_path_suffix:
  "twep_wr_state_path ctx sub (Some n) cap = Some p \<Longrightarrow> suffix ([slash] @ sub @ [slash] @ n) p"
  by (auto simp: twep_wr_state_path_def suffix_def Let_def split: if_splits)

lemma state_file_not_fallback:
  assumes "twep_wr_state_path ctx sub (Some n) cap = Some p" and "\<not> suffix ([slash] @ sub @ [slash] @ n) q"
  shows "q \<noteq> p"
  using state_path_suffix [OF assms(1)] assms(2) by auto

context file_backend
begin

lemma ask:
  assumes "file_laws Os files reading writing"
    and "\<And>r. (\<not> r \<longrightarrow> F p = None) \<Longrightarrow> hoare (\<lambda>w. files w = F) (k r) Q"
  shows "hoare (\<lambda>w. files w = F) (State_Monad.bind (pf_file_exists (B Os) p) k) Q"
  by (rule hoare_seq [where A = "\<lambda>r. F p \<noteq> None \<longrightarrow> r" and R = "\<lambda>_ w. files w = F",
        OF hoare_post [OF exists [OF assms(1)]]]) (simp, rule assms(2), auto)

lemma copy_file:
  assumes laws: "file_laws Os files reading writing"
  shows "hoare (\<lambda>w. files w = F) (twep_wr_copy_file (B Os) src dst)
    (\<lambda>r w. (\<exists>x. files w = F(dst := x)) \<and> (r = TWEP_WR_OK \<longrightarrow> F src \<noteq> None \<and> files w = F(dst := F src)))"
proof -
  have put: "hoare (\<lambda>w. files w = F)
      (do { status \<leftarrow> pf_write_file (B Os) dst bs;
            State_Monad.return (case status of Inl _ \<Rightarrow> TWEP_WR_ERR_CATALOG | Inr _ \<Rightarrow> TWEP_WR_OK) })
      (\<lambda>r w. (\<exists>x. files w = F(dst := x)) \<and> (r = TWEP_WR_OK \<longrightarrow> F src \<noteq> None \<and> files w = F(dst := F src)))"
    if "F src = Some bs" for bs
    by (rule hoare_bind [OF "write" [OF laws]], rule hoare_return) (auto simp: that split: sum.splits)
  show ?thesis
    unfolding twep_wr_copy_file_def twep_wr_read_file_def bind_assoc
  proof (rule hoare_seq [where A = "\<lambda>r. \<forall>bs. r = Inr bs \<longrightarrow> F src = Some bs" and R = "\<lambda>_ w. files w = F",
        OF hoare_post [OF read [OF laws]]], simp, goal_cases)
    case (1 r)
    then show ?case using put by (cases r) (simp_all add: hoare_return exI [of _ "F dst"])
  qed
qed

lemma ensure_copied:
  assumes laws: "file_laws Os files reading writing" and D: "D dst" and other: "fallback \<noteq> dst"
  shows "hoare (\<lambda>w. files w = F) (ensure_copied (B Os) dst src fallback)
    (\<lambda>r w. only_added D F (files w) \<and> (r = TWEP_WR_OK \<longrightarrow> files w = F \<or>
       (\<exists>p \<in> {src, fallback}. F p \<noteq> None \<and> files w = F(dst := F p))))"
    (is "hoare _ _ ?Q")
proof -
  have second: "hoare (\<lambda>w. \<exists>x. files w = F(dst := x)) (twep_wr_copy_file (B Os) fallback dst) ?Q" if "F dst = None"
  proof -
    have "hoare (\<lambda>w. files w = F(dst := x)) (twep_wr_copy_file (B Os) fallback dst) ?Q" for x
      by (rule hoare_post [OF copy_file [OF laws]]) (use other D that in \<open>auto intro: only_added_upd\<close>)
    then show ?thesis unfolding hoare_def by blast
  qed
  have first: "hoare (\<lambda>w. files w = F) (do { status \<leftarrow> twep_wr_copy_file (B Os) src dst;
      if status = TWEP_WR_OK then State_Monad.return TWEP_WR_OK else twep_wr_copy_file (B Os) fallback dst }) ?Q"
    if "F dst = None"
    by (rule hoare_bind [OF copy_file [OF laws]], rule hoare_if, rule hoare_return)
      (use that D second [OF that] in \<open>auto intro: only_added_upd hoare_pre\<close>)
  show ?thesis
    unfolding ensure_copied_def twep_wr_file_exists_def
    by (rule ask [OF laws], rule hoare_if, rule hoare_return, simp add: only_added_refl, rule first) simp
qed

lemma ensure_subdirs:
  assumes laws: "file_laws Os files reading writing"
  shows "hoare (\<lambda>w. files w = F) (ensure_subdirs (B Os) ctx subs) (\<lambda>_ w. files w = F)"
proof (induction subs)
  case (Cons sub subs)
  have "hoare (\<lambda>w. files w = F) (twep_wr_mkdir_if_needed (B Os) p) (\<lambda>_ w. files w = F)" for p
    unfolding twep_wr_mkdir_if_needed_def by (rule hoare_bind [OF mkdir [OF laws]], rule hoare_return) simp
  then show ?case
    by (auto intro!: hoare_bind hoare_case_option hoare_if hoare_return Cons)
qed (simp add: hoare_return)

lemma state_layout:
  assumes laws: "file_laws Os files reading writing"
  shows "hoare (\<lambda>w. files w = F) (twep_wr_ensure_state_layout (B Os) ctx) (\<lambda>_ w. files w = F)"
proof -
  have "hoare (\<lambda>w. files w = F) (twep_wr_mkdir_if_needed (B Os) p) (\<lambda>_ w. files w = F)" for p
    unfolding twep_wr_mkdir_if_needed_def by (rule hoare_bind [OF mkdir [OF laws]], rule hoare_return) simp
  then show ?thesis
    unfolding twep_wr_ensure_state_layout_def
    by (auto intro!: hoare_bind [where R = "\<lambda>_ w. files w = F"] hoare_if hoare_return ensure_subdirs [OF laws] sealed_init [OF laws])
qed

lemma state_catalog:
  assumes laws: "file_laws Os files reading writing"
  shows "hoare (\<lambda>w. files w = F) (twep_wr_ensure_state_catalog (B Os) ctx)
    (\<lambda>_ w. only_added (in_state_dir ctx) F (files w))"
proof -
  have cbor: "ascii ''../../build/catalog.dev.cbor'' \<noteq> p"
    if "twep_wr_state_path ctx (ascii ''catalog'') (Some (ascii ''catalog.cbor'')) cap = Some p" for p cap
    by (rule state_file_not_fallback [OF that]) code_simp
  have json: "ascii ''../../build/catalog.dev.json'' \<noteq> p"
    if "twep_wr_state_path ctx (ascii ''catalog'') (Some (ascii ''catalog.dev.json'')) cap = Some p" for p cap
    by (rule state_file_not_fallback [OF that]) code_simp
  have copy: "hoare (\<lambda>w. only_added (in_state_dir ctx) F (files w)) (ensure_copied (B Os) dst src fallback)
      (\<lambda>_ w. only_added (in_state_dir ctx) F (files w))" if "in_state_dir ctx dst" and "fallback \<noteq> dst" for dst src fallback
    using ensure_copied [where D = "in_state_dir ctx", OF laws that] unfolding hoare_def by (blast intro: only_added_trans)
  have "hoare (\<lambda>w. only_added (in_state_dir ctx) F (files w)) (twep_wr_ensure_state_catalog (B Os) ctx)
    (\<lambda>_ w. only_added (in_state_dir ctx) F (files w))"
    unfolding twep_wr_ensure_state_catalog_def
    by (intro hoare_case_option hoare_bind [OF copy] hoare_if hoare_return copy)
      (auto simp: cbor json state_path_in_dir)
  then show ?thesis by (rule hoare_pre) (simp add: only_added_refl)
qed

lemma state_app:
  assumes laws: "file_laws Os files reading writing"
  shows "hoare (\<lambda>w. files w = F) (twep_wr_ensure_state_app (B Os) ctx wasm_file)
    (\<lambda>_ w. only_added (in_state_dir ctx) F (files w))" (is "hoare _ _ ?Q")
proof -
  have copy: "hoare (\<lambda>w. \<exists>x. files w = F(dst := x)) (twep_wr_copy_file (B Os) src dst) (\<lambda>_ w. \<exists>x. files w = F(dst := x))" for src dst
    using copy_file [OF laws, of _ src dst] unfolding hoare_def by (metis fun_upd_upd)
  have stop: "hoare (\<lambda>w. \<exists>x. files w = F(dst := x)) (State_Monad.return (r :: twep_wr_status_t)) ?Q"
    if "F dst = None" "in_state_dir ctx dst" for r dst
    using that by (auto intro!: hoare_return only_added_upd)
  have first: "hoare (\<lambda>w. files w = F) (State_Monad.bind (twep_wr_copy_file (B Os) src dst) k) ?Q"
    if "\<And>r. hoare (\<lambda>w. \<exists>x. files w = F(dst := x)) (k r) ?Q" for src dst and k :: "twep_wr_status_t \<Rightarrow> _"
    by (rule hoare_bind [OF hoare_pre [OF copy]]) (use that in \<open>auto intro: exI [of _ "F dst"]\<close>)
  have none: "hoare (\<lambda>w. files w = F) (State_Monad.return (r :: twep_wr_status_t)) ?Q" for r
    by (rule hoare_return) (simp add: only_added_refl)
  show ?thesis
    unfolding twep_wr_ensure_state_app_def twep_wr_file_exists_def Let_def
    by (intro hoare_if hoare_case_option ask [OF laws] none first hoare_bind [OF copy] stop)
      (auto simp: state_path_in_dir)
qed

lemma teep_agent:
  assumes laws: "file_laws Os files reading writing"
    and dst: "twep_wr_state_path ctx (ascii ''teep-agent'') (Some (ascii ''teep-agent.wasm'')) TWEP_WR_MAX_PATH_LEN = Some dst"
  shows "hoare (\<lambda>w. files w = F) (twep_wr_ensure_teep_agent (B Os) ctx)
    (\<lambda>r w. only_added (\<lambda>q. q = dst) F (files w) \<and> (r = TWEP_WR_OK \<longrightarrow> files w = F \<or>
       (\<exists>p \<in> {ascii ''build/teep-agent.wasm'', ascii ''../../build/teep-agent.wasm''}. F p \<noteq> None \<and> files w = F(dst := F p))))"
proof -
  have other: "ascii ''../../build/teep-agent.wasm'' \<noteq> dst"
    by (rule state_file_not_fallback [OF dst]) code_simp
  show ?thesis
    unfolding twep_wr_ensure_teep_agent_def dst option.case
    by (rule hoare_bind [OF ensure_copied [OF laws _ other, where D = "\<lambda>q. q = dst"]], simp, rule hoare_return) auto
qed

lemma agent_kept:
  assumes laws: "file_laws Os files reading writing"
  shows "hoare (\<lambda>w. files w = F) (twep_wr_ensure_teep_agent (B Os) ctx) (\<lambda>_ w. only_added (in_state_dir ctx) F (files w))"
proof (cases "twep_wr_state_path ctx (ascii ''teep-agent'') (Some (ascii ''teep-agent.wasm'')) TWEP_WR_MAX_PATH_LEN")
  case None
  then show ?thesis by (auto simp: twep_wr_ensure_teep_agent_def only_added_refl intro!: hoare_return)
next
  case (Some dst)
  show ?thesis
    by (rule hoare_post [OF teep_agent [OF laws Some]]) (use state_path_in_dir [OF Some] in \<open>auto simp: only_added_def\<close>)
qed

end

lemma make_dirs_law:
  assumes "\<And>d. hoare P (mkdir d) (\<lambda>_. P)"
  shows "hoare P (make_dirs mkdir ds) (\<lambda>_. P)"
proof (induction ds)
  case (Cons d ds)
  show ?case by (simp, rule hoare_bind [OF assms], rule hoare_case_sum) (auto intro!: hoare_return Cons)
qed (simp add: hoare_return)

text \<open>A sealed object of the Linux backend is a file of its own directory, never one outside it.\<close>

lemma sealed_path_confined:
  assumes "linux_sealed_path state_dir nm cap = Inr p"
  shows "p = state_dir @ ascii ''/platform/linux/sealed/'' @ nm \<and> slash \<notin> set nm \<and> hd nm \<noteq> dot \<and>
    length nm \<le> TWEP_WR_LINUX_SEALED_NAME_MAX \<and> length p < cap"
proof -
  from assms have safe: "sealed_object_name_is_safe nm" by (simp add: linux_sealed_path_def split: if_splits)
  have "b \<noteq> slash" if b: "b \<in> set nm" for b
  proof -
    from b obtain i where "i < length nm" "b = nm ! i" by (auto simp: in_set_conv_nth)
    with safe have "name_char b" by (auto simp: sealed_object_name_is_safe_def list_all_iff)
    moreover have "\<not> name_char slash" by code_simp
    ultimately show ?thesis by blast
  qed
  moreover have "length nm \<le> TWEP_WR_LINUX_SEALED_NAME_MAX"
  proof (rule ccontr)
    assume "\<not> ?thesis"
    with safe show False by (auto simp: sealed_object_name_is_safe_def list_all_iff not_le)
  qed
  moreover have "p = state_dir @ ascii ''/platform/linux/sealed/'' @ nm \<and> length p < cap"
  proof -
    have "ascii ''/platform/linux/sealed/'' = [slash] @ ascii ''platform'' @ [slash] @ ascii ''linux'' @ [slash] @ ascii ''sealed'' @ [slash]"
      by code_simp
    then show ?thesis
      using assms by (auto simp: linux_sealed_path_def linux_sealed_dir_def linux_sealed_dirs_def join_path2_def Let_def
          split: if_splits sum.splits)
  qed
  ultimately show ?thesis using safe by (auto simp: sealed_object_name_is_safe_def)
qed

interpretation linux: file_backend linux_backend
proof unfold_locales
  fix Os :: "('w, 'f) os_api" and files reading writing F p bs
  assume laws: "file_laws Os files reading writing"
  note L = file_laws_rules [OF laws]
  have mk: "hoare (\<lambda>w. files w = F) (linux_mkdir_if_needed Os q) (\<lambda>_ w. files w = F)" for q
    unfolding linux_mkdir_if_needed_def by (rule hoare_bind [OF L(15)], rule hoare_return) simp
  show "hoare (\<lambda>w. files w = F) (pf_mkdir_if_needed (linux_backend Os) p) (\<lambda>_ w. files w = F)"
    by (simp add: linux_backend_def mk)
  show "hoare (\<lambda>w. files w = F) (pf_sealed_init (linux_backend Os) p) (\<lambda>_ w. files w = F)"
    unfolding linux_backend_def linux_sealed_init_def backend.simps
    by (rule hoare_case_sum, rule hoare_return, simp, simp only: prod.case_eq_if,
        rule hoare_bind [OF make_dirs_law [OF mk]], rule hoare_return) simp
qed (simp_all add: linux_backend_def linux_read_file_def read_file_law write_file_law write_atomic_law file_laws_rules(14) del: not_None_eq)

interpretation optee: file_backend optee_backend
proof unfold_locales
  fix Os :: "('w, 'f) os_api" and files reading writing F p bs
  assume laws: "file_laws Os files reading writing"
  note L = file_laws_rules [OF laws]
  show "hoare (\<lambda>w. files w = F) (pf_mkdir_if_needed (optee_backend Os) p) (\<lambda>_ w. files w = F)"
    unfolding optee_backend_def optee_mkdir_if_needed_def backend.simps
    by (intro hoare_if hoare_bind [OF L(15)] hoare_bind [OF L(16)] hoare_return) auto
  show "hoare (\<lambda>w. files w = F) (pf_sealed_init (optee_backend Os) p) (\<lambda>_ w. files w = F)"
    by (simp add: optee_backend_def hoare_return)
qed (simp_all add: optee_backend_def read_file_law write_file_law write_atomic_law file_laws_rules(14) del: not_None_eq)

section \<open>A simulated disk\<close>

text \<open>A stream is its path, and no call fails but for a missing file.\<close>

type_synonym disk = "bytes \<Rightarrow> bytes option"

definition disk_api :: "(disk, bytes) os_api" where
  "disk_api = \<lparr>os_malloc = (\<lambda>_. State_Monad.return True),
     os_fopen_read = (\<lambda>p. State (\<lambda>w. (if w p = None then None else Some p, w))),
     os_fopen_write = (\<lambda>p. State (\<lambda>w. (Some p, w(p \<mapsto> [])))),
     os_fseek = (\<lambda>_. State_Monad.return True),
     os_ftell = (\<lambda>f. State (\<lambda>w. (case w f of None \<Rightarrow> 0 | Some x \<Rightarrow> int (length x), w))),
     os_fread = (\<lambda>f n. State (\<lambda>w. (case w f of None \<Rightarrow> [] | Some x \<Rightarrow> take n x, w))),
     os_fwrite = (\<lambda>f bs. State (\<lambda>w. (length bs, w(f \<mapsto> (case w f of None \<Rightarrow> [] | Some x \<Rightarrow> x) @ bs)))),
     os_fflush = (\<lambda>_. State_Monad.return True),
     os_fsync = (\<lambda>_. State_Monad.return True),
     os_fclose = (\<lambda>_. State_Monad.return True),
     os_unlink = (\<lambda>p. State (\<lambda>w. ((), w(p := None)))),
     os_rename = (\<lambda>p q. State (\<lambda>w. if w p = None then (False, w) else (True, w(q := w p, p := None)))),
     os_exists = (\<lambda>p. State (\<lambda>w. (w p \<noteq> None, w))),
     os_mkdir = (\<lambda>_. State_Monad.return Made),
     os_is_dir = (\<lambda>_. State_Monad.return True),
     os_getenv = (\<lambda>_. None)\<rparr>"

lemma disk_file_laws: "file_laws disk_api (\<lambda>w. w) (\<lambda>_ f. Some f) (\<lambda>_ f. Some f)"
  unfolding file_laws_def disk_api_def os_api.simps
  by (intro conjI allI) (auto simp: hoare_def State_Monad.return_def split: option.splits)

definition sample_context :: twep_wr_context where
  "sample_context = \<lparr>abi_version = 1, runtime_initialized = True, cx_state_dir = ascii ''state'', cx_resolver_mode = None,
     cx_attestam_url = None, insecure_demo_mode = False, cx_default_timeout_ms = 0, max_request_bytes = 0,
     max_response_bytes = 0, host_io = \<lparr>http_post = None, create_evidence = None\<rparr>\<rparr>"

section \<open>The contents of the state directory\<close>

text \<open>
  C37. An atomic write, of the Linux and of the OP-TEE backend, leaves a file with its new contents when it
  succeeds and with the old ones when any of its calls fails, wherever it fails; no other file than the
  temporary one beside it changes.
\<close>

theorem write_file_atomic_old_or_new:
  assumes "file_laws Os files reading writing"
    and "put \<in> {linux_write_file_atomic Os, optee_write_file_atomic Os}"
    and "run_state (put p bs) w = (r, w')" and "q \<noteq> tmp_path p"
  shows "files w' q = (if r = Inr () then (files w)(p \<mapsto> bs) else files w) q"
  using assms write_atomic_law [OF assms(1), of "files w" p bs] by (auto simp: hoare_def)

lemma write_file_atomic_old_or_new_witness:
  "snd (run_state (linux_write_file_atomic disk_api (ascii ''a'') [1]) (Map.empty(ascii ''a'' \<mapsto> [0, 0]))) (ascii ''a'') = Some [1] \<and>
   snd (run_state (optee_write_file_atomic disk_api (ascii ''a'') [1]) (Map.empty(ascii ''a'' \<mapsto> [0, 0]))) (ascii ''a'') = Some [1]"
proof -
  let ?w = "Map.empty(ascii ''a'' \<mapsto> [0, 0 :: 8 word])"
  have ok: "fst (run_state (linux_write_file_atomic disk_api (ascii ''a'') [1]) ?w) = Inr ()"
    "fst (run_state (optee_write_file_atomic disk_api (ascii ''a'') [1]) ?w) = Inr ()" by code_simp+
  show ?thesis
    using write_file_atomic_old_or_new [OF disk_file_laws, of "linux_write_file_atomic disk_api" "ascii ''a''" "[1]" ?w _ _ "ascii ''a''"]
      write_file_atomic_old_or_new [OF disk_file_laws, of "optee_write_file_atomic disk_api" "ascii ''a''" "[1]" ?w _ _ "ascii ''a''"] ok
    by (auto simp: tmp_path_def prod_eq_iff)
qed


definition sample_disk :: disk where
  "sample_disk = [ascii ''build/teep-agent.wasm'' \<mapsto> [1, 2], ascii ''state/a'' \<mapsto> [3]]"


end
