(* ===== verification/Optee_Execute.thy ===== *)
theory Optee_Execute
  imports Production_Runtime Ree_Host_Io Ree_Files
begin

text \<open>
  A request from the host library to the trusted application and back
  (\<^verbatim>\<open>platform/optee-common/optee_execute.c\<close>, \<^verbatim>\<open>optee_transport.c\<close>, \<^verbatim>\<open>optee_session_storage.c\<close>,
  \<^verbatim>\<open>optee_artifacts.c\<close>, \<^verbatim>\<open>optee_candidate.c\<close> and the sealed objects of \<^verbatim>\<open>optee_storage.c\<close>). The two sides
  meet here: a call of the client API that is delivered runs the entry point of the trusted application
  on its own world. Freeing memory and zeroing the session struct have no effect in the model.
\<close>

section \<open>The client API\<close>

text \<open>
  The machine is the world of the host, the world of the secure side, and the instance of the trusted
  application. The client library is a parameter: whether a context can be made, and whether a call is
  delivered or fails before it reaches the trusted application. \<open>teec_fresh\<close> is what a new buffer holds.
  \<open>teec_mem i j\<close> tells whether the \<open>j\<close>-th allocation of the host operation in round \<open>i\<close> succeeds.
\<close>

type_synonym ('o, 'w) machine = "'o \<times> 'w \<times> ta_instance"

record 'o teec =
  TEEC_InitializeContext :: "('o, tee_error + unit) state"
  TEEC_FinalizeContext :: "('o, unit) state"
  teec_deliver :: "('o, tee_error option) state"
  teec_fresh :: bytes
  teec_mem :: "nat \<Rightarrow> nat \<Rightarrow> bool"

definition on_host :: "('o, 'a) state \<Rightarrow> (('o, 'w) machine, 'a) state" where
  "on_host m = State (\<lambda>(v, x). let (r, v') = run_state m v in (r, v', x))"

definition on_ta :: "(ta_instance \<Rightarrow> ('w, 'a \<times> ta_instance) state) \<Rightarrow> (('o, 'w) machine, 'a) state" where
  "on_ta m = State (\<lambda>(v, w, inst). let ((r, inst'), w') = run_state (m inst) w in (r, v, w', inst'))"

text \<open>The trusted application: its services, its Wasm runtime, its platform, and the size of a session.\<close>

type_synonym ('w, 'h, 'i) trusted = "('w, 'h) tee_api \<times> ('w, 'i) wamr \<times> 'w platform \<times> nat"

definition TEEC_OpenSession :: "'o teec \<Rightarrow> ('w, 'h, 'i) trusted \<Rightarrow> (('o, 'w) machine, tee_error + nat) state" where
  "TEEC_OpenSession T = (\<lambda>(A, W, E, session_size). do {
     d \<leftarrow> on_host (teec_deliver T);
     case d of Some e \<Rightarrow> State_Monad.return (Inl e) | None \<Rightarrow> on_ta (twep_ta_session_open A session_size) })"

definition TEEC_CloseSession :: "nat \<Rightarrow> (('o, 'w) machine, unit) state" where
  "TEEC_CloseSession h = on_ta (\<lambda>inst. State_Monad.return ((), twep_ta_session_close h inst))"

definition TEEC_InvokeCommand ::
  "'o teec \<Rightarrow> ('w, 'h, 'i) trusted \<Rightarrow> nat \<Rightarrow> u32 \<Rightarrow> tee_param list \<Rightarrow> (('o, 'w) machine, tee_error + tee_param list) state" where
  "TEEC_InvokeCommand T = (\<lambda>(A, W, E, _) h command ps. do {
     d \<leftarrow> on_host (teec_deliver T);
     case d of Some e \<Rightarrow> State_Monad.return (Inl e)
     | None \<Rightarrow> do {
         (res, ps') \<leftarrow> on_ta (twep_ta_session_invoke A W E h command ps);
         State_Monad.return (case res of Inl e \<Rightarrow> Inl e | Inr _ \<Rightarrow> Inr ps') } })"

text \<open>The size of the output parameter after a call, and the buffer behind it.\<close>

definition received :: "bytes \<Rightarrow> tee_param list \<Rightarrow> nat \<times> bytes" where
  "received buf ps =
     (case ps ! 1 of MEMREF_OUTPUT n (Some bs) \<Rightarrow> (n, bs @ drop (length bs) buf)
      | MEMREF_OUTPUT n None \<Rightarrow> (n, buf) | _ \<Rightarrow> (0, buf))"

section \<open>Transport\<close>

definition twep_optee_platform_status :: "tee_error \<Rightarrow> twep_wr_platform_status_t" where
  "twep_optee_platform_status result =
     (case result of
        ERROR_OUT_OF_MEMORY \<Rightarrow> TWEP_WR_PLATFORM_ERR_NO_MEMORY
      | ERROR_NOT_SUPPORTED \<Rightarrow> TWEP_WR_PLATFORM_ERR_UNSUPPORTED
      | _ \<Rightarrow> TWEP_WR_PLATFORM_ERR_IO)"

definition twep_optee_wr_status :: "tee_error \<Rightarrow> twep_wr_status_t" where
  "twep_optee_wr_status result =
     (case result of
        ERROR_OUT_OF_MEMORY \<Rightarrow> TWEP_WR_ERR_NO_MEMORY
      | ERROR_BAD_PARAMETERS \<Rightarrow> TWEP_WR_ERR_INVALID_ARGUMENT
      | ERROR_BAD_FORMAT \<Rightarrow> TWEP_WR_ERR_INVALID_ARGUMENT
      | ERROR_SHORT_BUFFER \<Rightarrow> TWEP_WR_ERR_INVALID_ARGUMENT
      | ERROR_SECURITY \<Rightarrow> TWEP_WR_ERR_SECURITY
      | _ \<Rightarrow> TWEP_WR_ERR_TEEP)"

definition twep_optee_open :: "'o teec \<Rightarrow> ('w, 'h, 'i) trusted \<Rightarrow> (('o, 'w) machine, twep_wr_platform_status_t + nat) state" where
  "twep_optee_open T TA = do {
     result \<leftarrow> on_host (TEEC_InitializeContext T);
     case result of Inl e \<Rightarrow> State_Monad.return (Inl (twep_optee_platform_status e))
     | Inr _ \<Rightarrow> do {
         result \<leftarrow> TEEC_OpenSession T TA;
         case result of
           Inl e \<Rightarrow> do {
             _ \<leftarrow> on_host (TEEC_FinalizeContext T);
             State_Monad.return (Inl (twep_optee_platform_status e)) }
         | Inr h \<Rightarrow> State_Monad.return (Inr h) } }"

definition twep_optee_close :: "'o teec \<Rightarrow> nat \<Rightarrow> (('o, 'w) machine, unit) state" where
  "twep_optee_close T h = do {
     _ \<leftarrow> TEEC_CloseSession h;
     on_host (TEEC_FinalizeContext T) }"

section \<open>Sealed objects\<close>

definition TWEP_WR_OPTEE_READ_CAP :: nat where
  "TWEP_WR_OPTEE_READ_CAP = 64 * 1024"

definition teec_storage_get ::
  "'o teec \<Rightarrow> ('w, 'h, 'i) trusted \<Rightarrow> nat \<Rightarrow> bytes \<Rightarrow> (('o, 'w) machine, tee_error + bytes) state" where
  "teec_storage_get T TA h object_name = do {
     res \<leftarrow> TEEC_InvokeCommand T TA h TA_TWEP_WR_CMD_SECURE_STORAGE_GET
       [MEMREF_INPUT object_name, MEMREF_OUTPUT TWEP_WR_OPTEE_READ_CAP None, PARAM_NONE, PARAM_NONE];
     State_Monad.return (case res of Inl e \<Rightarrow> Inl e
       | Inr ps \<Rightarrow> (case received (teec_fresh T) ps of (n, buf) \<Rightarrow> Inr (take n buf))) }"

definition twep_optee_session_secure_storage_get ::
  "('o, 'f) os_api \<Rightarrow> 'o teec \<Rightarrow> ('w, 'h, 'i) trusted \<Rightarrow> nat \<Rightarrow> bytes \<Rightarrow>
   (('o, 'w) machine, twep_wr_platform_status_t + bytes) state" where
  "twep_optee_session_secure_storage_get Os T TA h object_name =
     (if object_name = [] then State_Monad.return (Inl TWEP_WR_PLATFORM_ERR_IO)
      else do {
        mem \<leftarrow> on_host (os_malloc Os TWEP_WR_OPTEE_READ_CAP);
        if \<not> mem then State_Monad.return (Inl TWEP_WR_PLATFORM_ERR_NO_MEMORY)
        else do {
          res \<leftarrow> teec_storage_get T TA h object_name;
          State_Monad.return (case res of Inl e \<Rightarrow> Inl (twep_optee_platform_status e) | Inr bs \<Rightarrow> Inr bs) } })"

definition optee_sealed_read ::
  "('o, 'f) os_api \<Rightarrow> 'o teec \<Rightarrow> ('w, 'h, 'i) trusted \<Rightarrow> bytes \<Rightarrow> (('o, 'w) machine, twep_wr_platform_status_t + bytes) state" where
  "optee_sealed_read Os T TA object_name =
     (if length object_name = 0 then State_Monad.return (Inl TWEP_WR_PLATFORM_ERR_IO)
      else do {
        mem \<leftarrow> on_host (os_malloc Os TWEP_WR_OPTEE_READ_CAP);
        if \<not> mem then State_Monad.return (Inl TWEP_WR_PLATFORM_ERR_NO_MEMORY)
        else do {
          session \<leftarrow> twep_optee_open T TA;
          case session of Inl e \<Rightarrow> State_Monad.return (Inl e)
          | Inr h \<Rightarrow> do {
              res \<leftarrow> teec_storage_get T TA h object_name;
              _ \<leftarrow> twep_optee_close T h;
              State_Monad.return (case res of Inl e \<Rightarrow> Inl (twep_optee_platform_status e) | Inr bs \<Rightarrow> Inr bs) } } })"

definition optee_sealed_exists ::
  "('o, 'f) os_api \<Rightarrow> 'o teec \<Rightarrow> ('w, 'h, 'i) trusted \<Rightarrow> bytes \<Rightarrow> (('o, 'w) machine, bool) state" where
  "optee_sealed_exists Os T TA object_name = do {
     r \<leftarrow> optee_sealed_read Os T TA object_name;
     State_Monad.return (case r of Inl _ \<Rightarrow> False | Inr _ \<Rightarrow> True) }"

text \<open>The catalogue state is not written through this interface.\<close>

definition optee_sealed_write_atomic ::
  "'o teec \<Rightarrow> ('w, 'h, 'i) trusted \<Rightarrow> bytes \<Rightarrow> bytes \<Rightarrow> (('o, 'w) machine, twep_wr_platform_status_t + unit) state" where
  "optee_sealed_write_atomic T TA object_name data =
     (if length data = 0 then State_Monad.return (Inl TWEP_WR_PLATFORM_ERR_IO)
      else if object_name = ascii ''twep-catalog-state.cbor'' \<or> object_name = ascii ''twep-catalog-state.0.cbor'' \<or>
        object_name = ascii ''twep-catalog-state.1.cbor'' then State_Monad.return (Inl TWEP_WR_PLATFORM_ERR_IO)
      else if length object_name = 0 then State_Monad.return (Inl TWEP_WR_PLATFORM_ERR_IO)
      else do {
        session \<leftarrow> twep_optee_open T TA;
        case session of Inl e \<Rightarrow> State_Monad.return (Inl e)
        | Inr h \<Rightarrow> do {
            res \<leftarrow> TEEC_InvokeCommand T TA h TA_TWEP_WR_CMD_SECURE_STORAGE_PUT
              [MEMREF_INPUT object_name, MEMREF_INPUT data, PARAM_NONE, PARAM_NONE];
            _ \<leftarrow> twep_optee_close T h;
            State_Monad.return (case res of Inl e \<Rightarrow> Inl (twep_optee_platform_status e) | Inr _ \<Rightarrow> Inr ()) } })"

section \<open>Artifacts\<close>

definition twep_optee_read_dev_agent_public_key ::
  "'o backend \<Rightarrow> twep_wr_context \<Rightarrow> ('o, twep_wr_status_t + bytes) state" where
  "twep_optee_read_dev_agent_public_key B ctx =
     (case twep_wr_state_path ctx (ascii ''teep-agent'') (Some (ascii ''dev-agent-public-key.cbor'')) TWEP_WR_MAX_PATH_LEN of
        None \<Rightarrow> State_Monad.return (Inl TWEP_WR_ERR_INVALID_ARGUMENT)
      | Some path \<Rightarrow> do {
          there \<leftarrow> twep_wr_file_exists B path;
          if \<not> there then State_Monad.return (Inr [])
          else do {
            r \<leftarrow> twep_wr_read_file B path;
            State_Monad.return (case r of None \<Rightarrow> Inl TWEP_WR_ERR_TEEP | Some key \<Rightarrow> Inr key) } })"

definition twep_optee_read_teep_agent_wasm :: "'o backend \<Rightarrow> twep_wr_context \<Rightarrow> ('o, twep_wr_status_t + bytes) state" where
  "twep_optee_read_teep_agent_wasm B ctx =
     (case twep_wr_state_path ctx (ascii ''teep-agent'') (Some (ascii ''teep-agent.wasm'')) TWEP_WR_MAX_PATH_LEN of
        None \<Rightarrow> State_Monad.return (Inl TWEP_WR_ERR_TEEP)
      | Some path \<Rightarrow> do {
          r \<leftarrow> twep_wr_read_file B path;
          State_Monad.return (case r of None \<Rightarrow> Inl TWEP_WR_ERR_TEEP | Some wasm \<Rightarrow> Inr wasm) })"

text \<open>A step after which the function returns unless it succeeded.\<close>

definition must :: "('o, twep_wr_status_t) state \<Rightarrow> ('o, twep_wr_status_t + 'a) state \<Rightarrow> ('o, twep_wr_status_t + 'a) state" where
  "must m k = do { status \<leftarrow> m; if status \<noteq> TWEP_WR_OK then State_Monad.return (Inl status) else k }"

definition read_state_file ::
  "'o backend \<Rightarrow> twep_wr_context \<Rightarrow> bytes \<Rightarrow> bytes \<Rightarrow> twep_wr_status_t \<Rightarrow> ('o, twep_wr_status_t + bytes) state" where
  "read_state_file B ctx subdir nm err =
     (case twep_wr_state_path ctx subdir (Some nm) TWEP_WR_MAX_PATH_LEN of None \<Rightarrow> State_Monad.return (Inl err)
      | Some path \<Rightarrow> do {
          r \<leftarrow> twep_wr_read_file B path;
          State_Monad.return (case r of None \<Rightarrow> Inl err | Some bs \<Rightarrow> Inr bs) })"

definition twep_optee_read_resolved_app_artifacts ::
  "'o backend \<Rightarrow> twep_wr_context \<Rightarrow> bytes \<Rightarrow> ('o, twep_wr_status_t + bytes \<times> bytes \<times> bytes) state" where
  "twep_optee_read_resolved_app_artifacts B ctx wasm_file =
     must (twep_wr_ensure_state_layout B ctx) (must (twep_wr_ensure_teep_agent B ctx)
      (must (twep_wr_ensure_state_catalog B ctx) (must (twep_wr_ensure_state_app B ctx wasm_file) (do {
        agent \<leftarrow> twep_optee_read_teep_agent_wasm B ctx;
        case agent of Inl e \<Rightarrow> State_Monad.return (Inl e)
        | Inr agent \<Rightarrow> do {
            catalog \<leftarrow> read_state_file B ctx (ascii ''catalog'') (ascii ''catalog.cbor'') TWEP_WR_ERR_CATALOG;
            case catalog of Inl e \<Rightarrow> State_Monad.return (Inl e)
            | Inr catalog \<Rightarrow> do {
                app \<leftarrow> read_state_file B ctx (ascii ''apps'') wasm_file TWEP_WR_ERR_WASM_LOAD;
                State_Monad.return (case app of Inl e \<Rightarrow> Inl e | Inr app \<Rightarrow> Inr (agent, catalog, app)) } } }))))"

definition twep_optee_read_wrapped_error_artifacts ::
  "'o backend \<Rightarrow> twep_wr_context \<Rightarrow> ('o, twep_wr_status_t + bytes \<times> bytes \<times> bytes) state" where
  "twep_optee_read_wrapped_error_artifacts B ctx = twep_optee_read_resolved_app_artifacts B ctx (ascii ''helloworld.wasm'')"

definition twep_optee_read_verified_acceptance_artifacts ::
  "'o backend \<Rightarrow> twep_wr_context \<Rightarrow> ('o, twep_wr_status_t + bytes) state" where
  "twep_optee_read_verified_acceptance_artifacts B ctx =
     must (twep_wr_ensure_state_layout B ctx) (must (twep_wr_ensure_teep_agent B ctx)
       (twep_optee_read_teep_agent_wasm B ctx))"

section \<open>A request\<close>

definition TWEP_WR_OPTEE_EXECUTE_RESPONSE_CAP :: nat where
  "TWEP_WR_OPTEE_EXECUTE_RESPONSE_CAP = 64 * 1024"

definition TWEP_WR_OPTEE_HOST_IO_MAX_ROUNDS :: nat where
  "TWEP_WR_OPTEE_HOST_IO_MAX_ROUNDS = 8"

text \<open>
  The diagnostics that are written to files for an operator are a parameter: they may open sessions
  of their own.
\<close>

record ('o, 'w) diagnostics =
  twep_optee_write_verified_diagnostics :: "twep_wr_context \<Rightarrow> (('o, 'w) machine, unit) state"
  twep_optee_write_verified_evidence_snapshot ::
    "twep_wr_context \<Rightarrow> bytes \<Rightarrow> bytes \<Rightarrow> bytes \<Rightarrow> (('o, 'w) machine, unit) state"

text \<open>The end of a round with an answer: in the verified mode the evidence is read before the session is closed.\<close>

definition evidence_snapshot ::
  "('o, 'f) os_api \<Rightarrow> 'o teec \<Rightarrow> ('w, 'h, 'i) trusted \<Rightarrow> nat \<Rightarrow> (('o, 'w) machine, (bytes \<times> bytes \<times> bytes) option) state" where
  "evidence_snapshot Os T TA h = do {
     evidence \<leftarrow> twep_optee_session_secure_storage_get Os T TA h (ascii ''verified-evidence-result.cbor'');
     case evidence of Inl _ \<Rightarrow> State_Monad.return None
     | Inr evidence \<Rightarrow> do {
         slot0 \<leftarrow> twep_optee_session_secure_storage_get Os T TA h (ascii ''teep-acceptance-state.0.cbor'');
         case slot0 of Inl _ \<Rightarrow> State_Monad.return None
         | Inr slot0 \<Rightarrow> do {
             slot1 \<leftarrow> twep_optee_session_secure_storage_get Os T TA h (ascii ''teep-acceptance-state.1.cbor'');
             State_Monad.return (Some (evidence, slot0, case slot1 of Inl _ \<Rightarrow> [] | Inr bs \<Rightarrow> bs)) } } }"

definition answer ::
  "('o, 'f) os_api \<Rightarrow> 'o teec \<Rightarrow> ('o, 'w) diagnostics \<Rightarrow> ('w, 'h, 'i) trusted \<Rightarrow> twep_wr_context \<Rightarrow> bool \<Rightarrow> nat \<Rightarrow> bool \<Rightarrow> bytes \<Rightarrow>
   (('o, 'w) machine, twep_wr_status_t \<times> bytes option) state" where
  "answer Os T D TA ctx verified_acceptance h final response = do {
     snapshot \<leftarrow> (if verified_acceptance then evidence_snapshot Os T TA h else State_Monad.return None);
     _ \<leftarrow> twep_optee_close T h;
     _ \<leftarrow> (case snapshot of
          Some (evidence, slot0, slot1) \<Rightarrow> twep_optee_write_verified_evidence_snapshot D ctx evidence slot0 slot1
        | None \<Rightarrow> if final then twep_optee_write_verified_diagnostics D ctx else State_Monad.return ());
     State_Monad.return (TWEP_WR_OK, Some response) }"

definition give_up :: "'o teec \<Rightarrow> nat \<Rightarrow> twep_wr_status_t \<Rightarrow> (('o, 'w) machine, twep_wr_status_t \<times> bytes option) state" where
  "give_up T h st = do { _ \<leftarrow> twep_optee_close T h; State_Monad.return (st, None) }"

text \<open>
  The second half of a round, with the size of the response and the buffer: \<open>next\<close> continues with the
  envelope for the next round.
\<close>

definition after_call ::
  "('o, 'f) os_api \<Rightarrow> 'o teec \<Rightarrow> ('o, 'w) diagnostics \<Rightarrow> ('w, 'h, 'i) trusted \<Rightarrow> twep_wr_context \<Rightarrow> bool \<Rightarrow> nat \<Rightarrow> nat \<Rightarrow>
   (bytes \<Rightarrow> (('o, 'w) machine, twep_wr_status_t \<times> bytes option) state) \<Rightarrow> bytes \<Rightarrow>
   (('o, 'w) machine, twep_wr_status_t \<times> bytes option) state" where
  "after_call Os T D TA ctx verified_acceptance h round next response =
     (case twep_optee_parse_response response of
        None \<Rightarrow> answer Os T D TA ctx verified_acceptance h False response
      | Some (kind, final_response, need) \<Rightarrow>
        if kind = TWEP_WR_OPTEE_RESPONSE_FINAL then do {
          mem \<leftarrow> on_host (os_malloc Os (if length (view_bytes final_response) = 0 then 1 else length (view_bytes final_response)));
          if \<not> mem then give_up T h TWEP_WR_ERR_NO_MEMORY
          else answer Os T D TA ctx verified_acceptance h True (view_bytes final_response) }
        else (case twep_optee_perform_host_io (teec_mem T round) ctx need of
          (io_status, host_io_result) \<Rightarrow>
            if io_status \<noteq> TWEP_WR_OK then give_up T h io_status
            else (case twep_optee_make_resume_envelope (teec_mem T round 2) (nh_request_id need)
                        (map_option snd host_io_result) of
                None \<Rightarrow> give_up T h TWEP_WR_ERR_NO_MEMORY
              | Some (_, resume_envelope) \<Rightarrow> next resume_envelope)))"

text \<open>
  The rounds that are left, with the envelope to send and the buffer for the response. The first round
  executes the request, every other one resumes it with the result of a host operation.
\<close>

fun execute_rounds ::
  "('o, 'f) os_api \<Rightarrow> 'o teec \<Rightarrow> ('o, 'w) diagnostics \<Rightarrow> ('w, 'h, 'i) trusted \<Rightarrow> twep_wr_context \<Rightarrow> bool \<Rightarrow> nat \<Rightarrow> nat \<Rightarrow> nat \<Rightarrow>
   bytes \<Rightarrow> bytes \<Rightarrow> (('o, 'w) machine, twep_wr_status_t \<times> bytes option) state" where
  "execute_rounds Os T D TA ctx verified_acceptance h 0 round envelope buf = give_up T h TWEP_WR_ERR_TEEP"
| "execute_rounds Os T D TA ctx verified_acceptance h (Suc left) round envelope buf = do {
     res \<leftarrow> TEEC_InvokeCommand T TA h (if round = 0 then TA_TWEP_WR_CMD_EXECUTE else TA_TWEP_WR_CMD_RESUME_HOST_IO)
       [MEMREF_INPUT envelope, MEMREF_OUTPUT TWEP_WR_OPTEE_EXECUTE_RESPONSE_CAP None, PARAM_NONE, PARAM_NONE];
     case res of Inl e \<Rightarrow> give_up T h (twep_optee_wr_status e)
     | Inr ps \<Rightarrow>
       let (n, buf') = received buf ps in
       after_call Os T D TA ctx verified_acceptance h round
         (\<lambda>resume_envelope. execute_rounds Os T D TA ctx verified_acceptance h left (round + 1) resume_envelope buf')
         (take n buf') }"

definition wasm_file_of :: "bytes \<Rightarrow> bytes option" where
  "wasm_file_of command =
     (if command = ascii ''helloworld'' \<or> command = ascii ''remotehello'' then Some (ascii ''helloworld.wasm'')
      else if command = ascii ''calcadd'' then Some (ascii ''calcadd.wasm'')
      else if command = ascii ''negaposi'' then Some (ascii ''negaposi.wasm'')
      else None)"

text \<open>In the verified mode the host sends the agent, but neither a catalogue nor an application.\<close>

definition read_artifacts ::
  "'o backend \<Rightarrow> twep_wr_context \<Rightarrow> bool \<Rightarrow> bytes option \<Rightarrow> ('o, twep_wr_status_t + bytes \<times> bytes \<times> bytes) state" where
  "read_artifacts B ctx verified_acceptance wasm_file =
     (if verified_acceptance then do {
        r \<leftarrow> twep_optee_read_verified_acceptance_artifacts B ctx;
        State_Monad.return (case r of Inl e \<Rightarrow> Inl e | Inr agent \<Rightarrow> Inr (agent, [], [])) }
      else case wasm_file of
        None \<Rightarrow> twep_optee_read_wrapped_error_artifacts B ctx
      | Some wasm_file \<Rightarrow> twep_optee_read_resolved_app_artifacts B ctx wasm_file)"

text \<open>From the opened session on.\<close>

definition execute_session ::
  "('o, 'f) os_api \<Rightarrow> 'o teec \<Rightarrow> ('o, 'w) diagnostics \<Rightarrow> ('w, 'h, 'i) trusted \<Rightarrow> twep_wr_context \<Rightarrow> bool \<Rightarrow> bytes \<Rightarrow>
   (('o, 'w) machine, twep_wr_status_t \<times> bytes option) state" where
  "execute_session Os T D TA ctx verified_acceptance envelope = do {
     session \<leftarrow> twep_optee_open T TA;
     case session of
       Inl e \<Rightarrow> State_Monad.return
         (if e = TWEP_WR_PLATFORM_ERR_NO_MEMORY then TWEP_WR_ERR_NO_MEMORY else TWEP_WR_ERR_TEEP, None)
     | Inr h \<Rightarrow> execute_rounds Os T D TA ctx verified_acceptance h TWEP_WR_OPTEE_HOST_IO_MAX_ROUNDS 0 envelope (teec_fresh T) }"

text \<open>The guard of the caller makes sure that the request has a command and an identifier.\<close>

definition twep_wr_optee_execute ::
  "('o, 'f) os_api \<Rightarrow> 'o teec \<Rightarrow> ('o, 'w) diagnostics \<Rightarrow> ('w, 'h, 'i) trusted \<Rightarrow> twep_wr_context \<Rightarrow> twep_wr_normalized_request_t \<Rightarrow>
   (('o, 'w) machine, twep_wr_status_t \<times> bytes option) state" where
  "twep_wr_optee_execute Os T D TA ctx request =
     (let command = view_bytes (rq_command request);
          command_is_wrapped = (command = ascii ''teep-agent-resolve-wrapped'');
          verified_acceptance = (cx_resolver_mode ctx = Some (ascii ''attestam-verified''));
          B = optee_backend Os in
      if command_is_wrapped \<and> (rq_app_input request = None \<or> rq_app_input_len request = 0)
      then State_Monad.return (TWEP_WR_ERR_INVALID_ARGUMENT, None)
      else if \<not> command_is_wrapped \<and> wasm_file_of command = None then State_Monad.return (TWEP_WR_ERR_TEEP, None)
      else do {
        artifacts \<leftarrow> on_host (read_artifacts B ctx verified_acceptance (if command_is_wrapped then None else wasm_file_of command));
        case artifacts of Inl e \<Rightarrow> State_Monad.return (e, None)
        | Inr (teep_agent_wasm, catalog, app_binary) \<Rightarrow> do {
            key \<leftarrow> on_host (twep_optee_read_dev_agent_public_key B ctx);
            case key of Inl e \<Rightarrow> State_Monad.return (e, None)
            | Inr dev_agent_public_key \<Rightarrow> do {
                let timeout = (if rq_timeout_ms request = 0 then cx_default_timeout_ms ctx else rq_timeout_ms request);
                mem \<leftarrow> on_host (os_malloc Os (execute_envelope_len (view_bytes (rq_request_id request)) command
                  (case cx_resolver_mode ctx of None \<Rightarrow> ascii ''mock'' | Some m \<Rightarrow> m) (view_bytes (cx_attestam_url ctx))
                  (length (app_input_bytes request)) timeout (length teep_agent_wasm) (length catalog) (length app_binary)
                  (length dev_agent_public_key)));
                case twep_optee_make_execute_envelope mem ctx (view_bytes (rq_request_id request)) command
                       (app_input_bytes request) teep_agent_wasm catalog app_binary dev_agent_public_key timeout of
                  None \<Rightarrow> State_Monad.return (TWEP_WR_ERR_NO_MEMORY, None)
                | Some (_, envelope) \<Rightarrow> do {
                    mem \<leftarrow> on_host (os_malloc Os TWEP_WR_OPTEE_EXECUTE_RESPONSE_CAP);
                    if \<not> mem then State_Monad.return (TWEP_WR_ERR_NO_MEMORY, None)
                    else do {
                      _ \<leftarrow> twep_optee_write_verified_diagnostics D ctx;
                      execute_session Os T D TA ctx verified_acceptance envelope } } } } })"

section \<open>What the host reads from the responses of the trusted application\<close>

lemma for_loop_add:
  "for_loop (m + n) f x = (case for_loop m f x of Inl e \<Rightarrow> Inl e | Inr y \<Rightarrow> for_loop n f y)"
proof (induction m arbitrary: x)
  case (Suc m)
  then show ?case by (simp add: for_loop_Suc split: sum.split)
qed simp

lemma for_loop_last: "for_loop (Suc n) f x = (case for_loop n f x of Inl e \<Rightarrow> Inl e | Inr y \<Rightarrow> f y)"
proof -
  have "for_loop (Suc 0) f y = f y" for y by (simp add: for_loop_Suc split: sum.split)
  then show ?thesis using for_loop_add [of n "Suc 0" f x] by (simp split: sum.split)
qed

lemma ree_skip_view:
  "twep_wr_cbor_read_text_view c = Some (v, c') \<Longrightarrow> twep_wr_cbor_skip_value c = Some c'"
  "twep_wr_cbor_read_bytes_view c = Some (v, c') \<Longrightarrow> twep_wr_cbor_skip_value c = Some c'"
  by (subst skip_value_unfold, auto simp: twep_wr_cbor_read_text_view_def twep_wr_cbor_read_bytes_view_def read_major_def
      skip_body_def split: option.splits if_splits)+

lemma ree_skip_0: "rest c = 0 # zs \<Longrightarrow> twep_wr_cbor_skip_value c = Some (adv 1 c)"
  by (subst skip_value_unfold) (simp add: skip_body_def read_head_rest)

lemmas ree_skip_write = ree_skip_view(1) [OF ree_value_write(1)] ree_skip_view(2) [OF ree_value_write(2)]

text \<open>A map whose last entry is one that the host passes over, and that has no entry the host looks for.\<close>

lemma response_not_for_host:
  assumes head: "is_head 5 n h" "length h \<le> 5" "unat n = Suc (length es)"
    and ok: "\<forall>e \<in> set es. ree_entry_ok response_field e" and key: "length key < 2 ^ 32"
      "key \<notin> {ascii ''request_id'', ascii ''final_response_cbor'', ascii ''need_host_io''}"
    and flags: "\<And>s. have_final (fold snd es s) = have_final s \<and> have_need (fold snd es s) = have_need s"
    and buf: "buf = h @ concat (map fst es) @ cbor_write_text key @ v"
  shows "twep_optee_parse_response buf = None"
proof -
  define s where "s = \<lparr>have_final = False, have_need = False, out_final_response = None, out_need = no_need\<rparr>"
  have "read_major (mk_cursor buf) 5 = Some (n, adv (length h) (mk_cursor buf))"
    using head buf by (auto simp: read_major_iff)
  moreover have "for_loop (unat n) (map_entry twep_wr_cbor_read_text_view () response_field) (adv (length h) (mk_cursor buf), s) =
      (case for_loop (length es) (map_entry twep_wr_cbor_read_text_view () response_field) (adv (length h) (mk_cursor buf), s) of
         Inl e \<Rightarrow> Inl e | Inr y \<Rightarrow> map_entry twep_wr_cbor_read_text_view () response_field y)"
    unfolding head(3) by (rule for_loop_last)
  moreover have "for_loop (length es) (map_entry twep_wr_cbor_read_text_view () response_field) (adv (length h) (mk_cursor buf), s) =
      Inr (adv (length (concat (map fst es))) (adv (length h) (mk_cursor buf)), fold snd es s)"
    by (rule ree.loop_entries [OF ok, of _ "cbor_write_text key @ v"]) (simp add: buf)
  moreover have "\<not> have_final s' \<and> \<not> have_need s'"
    if "map_entry twep_wr_cbor_read_text_view () response_field
      (adv (length (concat (map fst es))) (adv (length h) (mk_cursor buf)), fold snd es s) = Inr (c', s')" for c' s'
    using ree_value_write(1) [OF _ key(1), of "adv (length (concat (map fst es))) (adv (length h) (mk_cursor buf))" v] that key(2) flags [of s]
    by (auto simp: map_entry_def response_field_def text_view_equals_iff passed_def s_def buf split: sum.splits)
  ultimately have "\<not> have_final s' \<and> \<not> have_need s'" if "ree_map_entries response_field (mk_cursor buf) s = Inr (c', s')" for c' s'
    using that by (simp add: ree_map_entries_def map_entries_def)
  then show ?thesis
    unfolding twep_optee_parse_response_def s_def [symmetric] by (auto split: sum.split prod.split)
qed

text \<open>Responses that answer a request themselves are not for the host library to look into.\<close>

lemma answers_not_for_host:
  assumes "length request_id < 2 ^ 32" and "length out < 2 ^ 32"
  shows "twep_optee_parse_response (execute_response_bytes request_id out app_out) = None"
    and "twep_optee_parse_response (teep_error_response_bytes request_id code message command) = None"
    and "twep_optee_parse_response (app_runtime_error_bytes request_id command code message reason) = None"
proof -
  let ?head = "[(cbor_write_text (ascii ''schema_version'') @ [1], \<lambda>s. s),
      (cbor_write_text (ascii ''request_id'') @ cbor_write_text request_id,
        \<lambda>s. s\<lparr>out_need := (out_need s)\<lparr>nh_request_id := Some request_id\<rparr>\<rparr>)]"
  let ?es = "\<lambda>status code. ?head @ [(cbor_write_text (ascii ''status'') @ cbor_write_text status, \<lambda>s :: response_seen. s),
      (cbor_write_text (ascii ''exit_code'') @ [code], \<lambda>s. s)]"
  let ?xs = "?es (ascii ''ok'') 0 @ [(cbor_write_text (ascii ''stdout'') @ cbor_write_bstr out, \<lambda>s. s)]"
  have ok: "\<forall>e \<in> set (?es v code). ree_entry_ok response_field e" if "length v < 2 ^ 32" "code = 0 \<or> code = 1" for v code
    using that assms
    by (auto intro!: ree_entry_okI simp: response_field_def text_view_equals_iff ree_value_write(1) ree_skip_write
        ree_skip_1 ree_skip_0 passed_def stored_def simp del: cbor_write_strings)
  have ok5: "\<forall>e \<in> set ?xs. ree_entry_ok response_field e"
    using ok [of "ascii ''ok''" 0] assms
    by (auto intro!: ree_entry_okI simp: response_field_def text_view_equals_iff ree_skip_write passed_def
        simp del: cbor_write_strings)
  show "twep_optee_parse_response (execute_response_bytes request_id out app_out) = None"
    by (rule response_not_for_host [OF map_head_6 _ _ ok5, of "ascii ''app_output''"])
      (simp_all add: execute_response_bytes_def cbor_write_text_def)
  have ok4: "\<forall>e \<in> set (?es (ascii ''error'') 1). ree_entry_ok response_field e" by (rule ok) simp_all
  have head5: "is_head 5 5 [0xa5]" by (simp add: is_head_def)
  show "twep_optee_parse_response (teep_error_response_bytes request_id code message command) = None"
    "twep_optee_parse_response (app_runtime_error_bytes request_id command code message reason) = None"
    by (rule response_not_for_host [OF head5 _ _ ok4, of "ascii ''error''"];
        simp add: teep_error_response_bytes_def app_runtime_error_bytes_def)+
qed

section \<open>The request that stays pending\<close>

text \<open>What identifies the pending request: runs of the agent keep it, and resuming uses it.\<close>

definition live_key :: "ta_state \<Rightarrow> bool \<times> bytes \<times> bytes \<times> bytes \<times> bytes \<times> bytes" where
  "live_key t = (let p = g_pending_teep_live t in
     (pl_active p, pl_request_id p, pl_command p, pl_wasm p, pl_input p, pl_app_input p))"

lemma live_key_updates:
  "live_key (pending_host_io_clear t) = live_key t" "live_key (record_commit k q d v eg n g t) = live_key t"
  "live_key (set_pending_host_io ph t) = live_key t" "live_key (keep_live_module live module t) = live_key t"
  "live_key (twep_ta_wamr_cleanup_if_idle t) = live_key t"
  "live_key (t\<lparr>g_pending_http_transcript_count := m, g_pending_http_transcript_bytes := n'\<rparr>) = live_key t"
  "live_key (t\<lparr>g_teep_agent_natives_registered := b\<rparr>) = live_key t"
  "live_key (t\<lparr>g_wamr_runtime_initialized := b\<rparr>) = live_key t"
  by (simp_all add: live_key_def pending_host_io_clear_def record_commit_def Let_def set_pending_host_io_def
      set_pending_teep_live_def keep_live_module_def teep_agent_live_session_release_def twep_ta_wamr_cleanup_if_idle_def)

lemma live_key_requests:
  "preserves (\<lambda>t. live_key t = x) (save_pending_host_io_request A i c inp io kind body)"
  "preserves (\<lambda>t. live_key t = x) (build_need_host_io_response A i c inp io url body n)"
  "preserves (\<lambda>t. live_key t = x) (build_need_evidence_response_with_payload A i c inp ch key n)"
  "preserves (\<lambda>t. live_key t = x) (pending_teep_live_append_history A k p)"
proof -
  show save: "preserves (\<lambda>t. live_key t = x) (save_pending_host_io_request A i c inp io kind body)" for io kind body
    unfolding save_pending_host_io_request_def Let_def by (intro preserve) (simp_all add: live_key_updates)
  show "preserves (\<lambda>t. live_key t = x) (build_need_host_io_response A i c inp io url body n)"
    "preserves (\<lambda>t. live_key t = x) (build_need_evidence_response_with_payload A i c inp ch key n)"
    unfolding build_need_host_io_response_def build_need_evidence_response_with_payload_def Let_def
    by (intro preserve save; simp add: live_key_updates)+
  show "preserves (\<lambda>t. live_key t = x) (pending_teep_live_append_history A k p)"
    unfolding pending_teep_live_append_history_def
    by (intro preserve) (simp add: live_key_def set_pending_teep_live_def Let_def)
qed

lemma live_key_calls: "preserves (\<lambda>t. live_key t = x) (run_host_call A E c ctx)"
proof -
  have tr: "preserves (\<lambda>t. live_key t = x) (commit_with_transcript A q commit nt)"
    if "\<And>g t. live_key (nt g t) = live_key t" for q commit nt
    unfolding commit_with_transcript_def by (intro preserve) (simp_all add: that live_key_updates)
  have call: "preserves (\<lambda>t. live_key t = x) (run_call A ctx c)" for ctx c
    by (cases c)
      (simp_all only: run_call.simps teep_host_commit_acceptance_def teep_host_commit_catalog_def teep_host_commit_app_def Let_def,
        (intro preserve tr preserves_reading; simp add: live_key_updates)+)
  show ?thesis by (cases c) (simp_all only: run_host_call.simps, (intro preserve preserves_reading call)+)
qed

lemma live_key_module: "preserves (\<lambda>t. live_key t = x) (run_module A E m ctx)"
proof (induction m arbitrary: ctx)
  case (Call c k)
  then have "preserves (\<lambda>t. live_key t = x) (run_module A E (k a) ctx)" for a ctx by simp
  then show ?case by (simp only: run_module.simps) (intro preserve live_key_calls)
qed (simp only: run_module.simps, intro preserve)

lemma live_key_agent:
  "preserves (\<lambda>t. live_key t = x) (execute_teep_agent_resolve A W E i wasm input cat aw key replay payload n)"
proof -
  let ?I = "\<lambda>t. live_key t = x"
  have "preserves ?I (teep_agent_pending_to_need_host_io A ctx n)" for ctx
    unfolding teep_agent_pending_to_need_host_io_def
    by (auto intro!: preserve live_key_requests split: option.split teep_agent_pending_hostcall.split)
  then have susp: "preserves ?I (suspend_agent A live module ctx n)" for live module ctx
    unfolding suspend_agent_def by (intro preserve) (simp_all add: live_key_updates)
  have main: "preserves ?I (call_agent_main A W E input live module n i ctx)" for live module i ctx
    unfolding call_agent_main_def Let_def by (intro preserve live_key_module susp)
  have inst: "preserves ?I (instantiate_agent A W E input live module n ctx)" for live module ctx
    unfolding instantiate_agent_def by (intro preserve main)
  have reg: "preserves ?I (register_natives W)" "preserves ?I (twep_ta_ensure_wamr_runtime W)"
    unfolding register_natives_def twep_ta_ensure_wamr_runtime_def
    by (intro preserve; simp add: live_key_updates)+
  have run: "preserves ?I (run_loaded_agent A W E wasm input n ctx)" for ctx
    unfolding run_loaded_agent_def by (intro preserve reg preserves_reading inst)
  have clean: "preserves ?I (modify_ta (\<lambda>t. if g_wamr_runtime_initialized t then twep_ta_wamr_cleanup_if_idle t else t))"
    by (intro preserve) (simp add: live_key_updates)
  show ?thesis
    unfolding execute_teep_agent_resolve_def by (intro preserve reg run preserves_reading clean)
qed

text \<open>Saving a request stores its identification.\<close>

lemma live_save_key:
  assumes "run_state (pending_teep_live_save A i c wasm inp ai cat aw key) s = (Inr u, s')"
  shows "live_key (snd s') = (True, i, c, wasm, inp, ai)"
proof -
  obtain w t where s: "s = (w, t)" by (cases s)
  show ?thesis
    using assms unfolding s
    by (auto simp: pending_teep_live_save_def then_copy_def copy_view_alloc_def live_key_def set_pending_teep_live_def Let_def
        split: if_splits prod.splits)
qed

section \<open>What a command leaves\<close>

text \<open>
  \<open>settled\<close>: the response has the length that was stored for it, and the host takes it as the answer, or
  takes what it wraps.
\<close>

definition settled :: "bytes \<Rightarrow> nat option \<Rightarrow> bytes \<Rightarrow> bool" where
  "settled i len resp \<longleftrightarrow> len = Some (length resp) \<and> length resp < 2 ^ 32 \<and> (twep_optee_parse_response resp = None \<or>
     (\<exists>inner nd. resp = final_response_bytes i inner \<and>
        twep_optee_parse_response resp = Some (TWEP_WR_OPTEE_RESPONSE_FINAL, Some inner, nd)))"

lemma built_in_Inr: "built_in n k bs = (len, Inr resp) \<longleftrightarrow> len = Some k \<and> resp = bs \<and> k \<le> n"
  by (auto simp: built_in_def)

lemma built_settled:
  assumes n: "n < 2 ^ 32"
  shows "build_execute_response i out app n = (len, Inr resp) \<Longrightarrow> len = Some (length resp) \<and> twep_optee_parse_response resp = None"
    and "build_app_runtime_error_execute_response i c code m reason n = (len, Inr resp) \<Longrightarrow>
      len = Some (length resp) \<and> twep_optee_parse_response resp = None"
    and "build_teep_error_execute_response i code m c n = (len, Inr resp) \<Longrightarrow>
      len = Some (length resp) \<and> twep_optee_parse_response resp = None"
    and "build_final_response_wrapper i inner n = (len, Inr resp) \<Longrightarrow> settled i len resp"
proof -
  show "len = Some (length resp) \<and> twep_optee_parse_response resp = None"
    if b: "build_execute_response i out app n = (len, Inr resp)"
  proof -
    from b n have "length i < 2 ^ 32" "length out < 2 ^ 32" "length app < 2 ^ 32"
      by (simp_all add: build_execute_response_def built_in_Inr execute_response_len_def)
    with b app_responses_exact(1) [of i "[]" "[]" "[]" "[]" out app] answers_not_for_host(1) show ?thesis
      by (simp add: build_execute_response_def built_in_Inr)
  qed
  show "len = Some (length resp) \<and> twep_optee_parse_response resp = None"
    if b: "build_app_runtime_error_execute_response i c code m reason n = (len, Inr resp)"
  proof -
    from b n have "length i < 2 ^ 32" "length c < 2 ^ 32" "length code < 2 ^ 32" "length m < 2 ^ 32" "length reason < 2 ^ 32"
      by (simp_all add: build_app_runtime_error_execute_response_def built_in_Inr app_runtime_error_len_def Let_def)
    with b app_responses_exact(3) [of i c code m reason "[]" "[]"] answers_not_for_host(3) [of i "[]"] show ?thesis
      by (simp add: build_app_runtime_error_execute_response_def built_in_Inr)
  qed
  show "len = Some (length resp) \<and> twep_optee_parse_response resp = None"
    if b: "build_teep_error_execute_response i code m c n = (len, Inr resp)"
  proof -
    from b n have "length i < 2 ^ 32" "length c < 2 ^ 32" "length code < 2 ^ 32" "length m < 2 ^ 32"
      by (simp_all add: build_teep_error_execute_response_def built_in_Inr teep_error_response_len_def Let_def)
    with b app_responses_exact(2) [of i c code m "[]" "[]" "[]"] answers_not_for_host(2) [of i "[]"] show ?thesis
      by (simp add: build_teep_error_execute_response_def built_in_Inr)
  qed
  show "settled i len resp" if b: "build_final_response_wrapper i inner n = (len, Inr resp)"
  proof -
    from b n have "length i < 2 ^ 32" "length inner < 2 ^ 32"
      by (simp_all add: build_final_response_wrapper_def built_in_Inr final_response_len_def)
    with b n final_response_exact [of i inner] final_parses [of i inner] show ?thesis
      by (auto simp: settled_def build_final_response_wrapper_def built_in_Inr)
  qed
qed

lemma app_settled:
  assumes "run_state (execute_production_app_wasm W i c inp binary limits n) s = ((len, Inr resp), s')" and "n < 2 ^ 32"
  shows "len = Some (length resp) \<and> twep_optee_parse_response resp = None"
proof -
  have out: "len = Some (length resp) \<and> twep_optee_parse_response resp = None"
    if "app_output_response W i c limits n j p = (len, Inr resp)" for j p
    using that built_settled(1,2) [OF assms(2)]
    by (auto simp: app_output_response_def Let_def split: prod.splits if_splits sum.splits)
  have main: "len = Some (length resp) \<and> twep_optee_parse_response resp = None"
    if "call_app_main W i c inp limits b n j = (len, Inr resp)" for b j
    using that out by (auto simp: call_app_main_def Let_def split: prod.splits if_splits)
  obtain w t where s: "s = (w, t)" by (cases s)
  from assms(1) main show ?thesis
    unfolding s execute_production_app_wasm_def
    by (elim run_bindE) (auto elim!: run_bindE split: if_splits option.splits)
qed

lemma live_key_kept:
  "(\<And>x. preserves (\<lambda>t. live_key t = x) m) \<Longrightarrow> run_state m s = (r, s') \<Longrightarrow> live_key (snd s') = live_key (snd s)"
  using preservesD [of "\<lambda>t. live_key t = live_key (snd s)" m "fst s" "snd s" r "fst s'" "snd s'"] by simp

lemma settled_error: "n < 2 ^ 32 \<Longrightarrow> build_teep_error_execute_response i code m c n = (len, Inr resp) \<Longrightarrow> settled i' len resp"
  using built_settled(3) [of n i code m c len resp] by (auto simp: settled_def build_teep_error_execute_response_def built_in_Inr)

lemma resume_settled:
  assumes run: "run_state (resume_pending_teep_live A W E i result n) (w, t) = ((len, Inr resp), (w', t'))" and n: "n < 2 ^ 32"
  shows "live_key t' = live_key t \<and> teep_output_is_need_host_io resp \<or> settled i len resp"
proof -
  let ?live = "g_pending_teep_live t"
  obtain w1 where m: "run_state (tee_malloc A TEEP_AGENT_HOST_IO_RESPONSE_SIZE_MAX) w = (True, w1)"
    and i: "i = pl_request_id ?live"
    using run by (cases "run_state (tee_malloc A TEEP_AGENT_HOST_IO_RESPONSE_SIZE_MAX) w")
      (auto simp: resume_pending_teep_live_def Let_def mem_compare_eq0 split: if_splits)
  obtain susp b w2 t2 where r: "run_state (resume_run A W E ?live result n) (w1, t) = ((susp, b), (w2, t2))"
    by (metis surj_pair)
  have b: "b = (len, Inr resp)" and t': "susp \<Longrightarrow> t' = t2"
    using run m r by (cases susp; auto simp: resume_pending_teep_live_def Let_def split: if_splits)+
  have out: "(susp \<longrightarrow> s2 = s1 \<and> teep_output_is_need_host_io resp) \<and> (\<not> susp \<longrightarrow> settled i len resp)"
    if "run_state (resume_output A W ?live n res) s1 = ((susp, len, Inr resp), s2)" for res s1 s2
  proof -
    have app: "settled i len resp"
      if "run_state (execute_production_app_wasm W (pl_request_id ?live) (pl_command ?live) (pl_app_input ?live) b l 4096) s0 = ((k, x), s3)"
        and "(case x of Inl e \<Rightarrow> (None, Inl e) | Inr f \<Rightarrow> build_final_response_wrapper (pl_request_id ?live) f n) = (len, Inr resp)"
      for b l s0 k x s3
      using that built_settled(4) [OF n, of i _ len resp] i by (cases x) auto
    show ?thesis
      using that i app
      by (auto simp: resume_output_def Let_def split: sum.splits if_splits prod.splits elim!: run_bindE
          intro: built_settled(4) [OF n] settled_error [OF n])
  qed
  from r [unfolded b] obtain k p h s1 where h: "run_state (pending_teep_live_append_history A k p) (w1, t) = (h, s1)"
    and r1: "run_state (case h of Inl e \<Rightarrow> State_Monad.return (False, None, Inl e)
       | Inr _ \<Rightarrow> do { res \<leftarrow> execute_teep_agent_resolve A W E (pl_request_id ?live) (pl_wasm ?live) (pl_input ?live)
                (pl_catalog ?live) (pl_app_wasm ?live) (pl_dev_agent_public_key ?live) TEEP_AGENT_PENDING_NONE []
                TEEP_AGENT_HOST_IO_RESPONSE_SIZE_MAX;
              resume_output A W ?live n res }) s1 = ((susp, len, Inr resp), (w2, t2))"
    unfolding resume_run_def by (auto elim!: run_bindE split: sum.splits prod.splits)
  then obtain res s2 where ag: "run_state (execute_teep_agent_resolve A W E (pl_request_id ?live) (pl_wasm ?live) (pl_input ?live)
        (pl_catalog ?live) (pl_app_wasm ?live) (pl_dev_agent_public_key ?live) TEEP_AGENT_PENDING_NONE []
        TEEP_AGENT_HOST_IO_RESPONSE_SIZE_MAX) s1 = (res, s2)"
    and o: "run_state (resume_output A W ?live n res) s2 = ((susp, len, Inr resp), (w2, t2))"
    by (cases h) (auto split: prod.splits)
  have "live_key (snd s1) = live_key t"
    using live_key_kept [OF live_key_requests(4) h] by simp
  moreover have "live_key (snd s2) = live_key (snd s1)"
    by (rule live_key_kept [OF live_key_agent ag])
  ultimately show ?thesis using out [OF o] t' by (cases susp) auto
qed

lemma app_command_facts:
  assumes "c \<in> set app_commands"
  shows "bytes_view_is_safe_command c" "c \<noteq> []" "length c < 2 ^ 32" "c \<noteq> ascii ''teep-agent-resolve-wrapped''" "wasm_file_of c \<noteq> None"
proof -
  have "list_all (\<lambda>c. bytes_view_is_safe_command c \<and> c \<noteq> [] \<and> length c < 100 \<and> c \<noteq> ascii ''teep-agent-resolve-wrapped'' \<and>
      wasm_file_of c \<noteq> None) app_commands" by code_simp
  with assms have "bytes_view_is_safe_command c \<and> c \<noteq> [] \<and> length c < 100 \<and> c \<noteq> ascii ''teep-agent-resolve-wrapped'' \<and>
      wasm_file_of c \<noteq> None" unfolding list_all_iff by blast
  then show "bytes_view_is_safe_command c" "c \<noteq> []" "length c < 2 ^ 32" "c \<noteq> ascii ''teep-agent-resolve-wrapped''"
    "wasm_file_of c \<noteq> None" by auto
qed

lemma verified_input_parses:
  assumes "build_teep_resolve_input_for_command c (ascii ''attestam-verified'') url 256 = Inr inp" and "c \<in> set app_commands"
  shows "\<exists>ri. parse_teep_resolve_input inp = Inr ri \<and> ri_command ri = ascii ''resolve_app'' \<and>
    ri_resolver_mode ri = ascii ''attestam-verified''"
proof -
  note safe = app_command_facts(1-3) [OF assms(2)]
  from assms(1) have inp: "inp = resolve_input_bytes c (ascii ''attestam-verified'') url" and "length url < 2 ^ 32"
    by (auto simp: build_teep_resolve_input_for_command_def Let_def resolve_input_len_def split: if_splits)
  moreover have "inp \<noteq> []" by (simp add: inp resolve_input_bytes_def)
  moreover have "\<not> list_ex (bytes_view_eq (ascii ''resolve_app'')) probe_commands"
    by (simp add: probe_commands_def view_eq_iff)
  ultimately show ?thesis
    using safe resolve_input_parses [OF safe(2,3), of "ascii ''attestam-verified''" url]
    by (simp add: parse_teep_resolve_input_def view_eq_iff del: ex_simps)
qed

lemma execute_settled:
  assumes s: "resolver_mode_view s = ascii ''attestam-verified''" "command_view s \<in> set app_commands"
    and run: "run_state (execute_command A W E s n) (w, t) = (Inr (len, Inr resp), (w', t'))" and n: "n < 2 ^ 32"
  shows "(\<exists>inp ri. live_key t' = (True, request_id_view s, command_view s, wasm_view s, inp, app_input_view s) \<and>
      parse_teep_resolve_input inp = Inr ri \<and> ri_command ri = ascii ''resolve_app'' \<and>
      ri_resolver_mode ri = ascii ''attestam-verified'' \<and> teep_output_is_need_host_io resp) \<or>
    len = Some (length resp) \<and> twep_optee_parse_response resp = None"
proof -
  have cmd: "command_view s \<noteq> ascii ''teep-agent-resolve''" "command_view s \<noteq> ascii ''teep-agent-resolve-wrapped''"
    "list_ex (bytes_view_eq (command_view s)) app_commands"
    using s(2) by (auto simp: app_commands_def view_eq_iff)
  from run cmd have "run_state (do { r \<leftarrow> resolve_application A W E s n;
      case r of Refused e \<Rightarrow> State_Monad.return (Inl e) | Answered b \<Rightarrow> State_Monad.return (Inr b)
      | Authorised binary limits \<Rightarrow> do {
          b \<leftarrow> execute_production_app_wasm W (request_id_view s) (command_view s) (app_input_view s) binary limits n;
          State_Monad.return (Inr b) } }) (w, t) = (Inr (len, Inr resp), (w', t'))"
    by (simp only: execute_command_def view_eq_iff if_False if_True simp_thms)
  then obtain r s1 where r: "run_state (resolve_application A W E s n) (w, t) = (r, s1)"
    and after: "run_state (case r of Refused e \<Rightarrow> State_Monad.return (Inl e) | Answered b \<Rightarrow> State_Monad.return (Inr b)
      | Authorised binary limits \<Rightarrow> do {
          b \<leftarrow> execute_production_app_wasm W (request_id_view s) (command_view s) (app_input_view s) binary limits n;
          State_Monad.return (Inr b) }) s1 = (Inr (len, Inr resp), (w', t'))"
    by (rule run_bindE)
  let ?ag = "\<lambda>inp. execute_teep_agent_resolve A W E (request_id_view s) (wasm_view s) inp (catalog_view s) (app_wasm_view s)
      (dev_agent_public_key_view s) TEEP_AGENT_PENDING_NONE [] TEEP_AGENT_HOST_IO_RESPONSE_SIZE_MAX"
  show ?thesis
  proof (cases r)
    case (Refused e)
    with after show ?thesis by simp
  next
    case (Authorised binary limits)
    with after have "run_state (execute_production_app_wasm W (request_id_view s) (command_view s) (app_input_view s)
        binary limits n) s1 = ((len, Inr resp), (w', t'))" by (auto split: prod.splits)
    from app_settled [OF this n] show ?thesis by blast
  next
    case (Answered b)
    with after have b: "b = (len, Inr resp)" and s1: "s1 = (w', t')" by simp_all
    from r s(1) Answered obtain inp s0 where inp: "build_teep_resolve_input_for_command (command_view s) (ascii ''attestam-verified'')
        (attestam_url_view s) 256 = Inr inp"
      and "run_state (do { result \<leftarrow> ?ag inp; resolve_output A s inp n result }) s0 = (r, s1)"
      unfolding resolve_application_def by (auto simp: view_eq_iff split: if_splits sum.splits)
    then obtain result s2 where o: "run_state (resolve_output A s inp n result) s2 = (r, s1)" by (auto split: prod.splits)
    have save: "live_key t' = (True, request_id_view s, command_view s, wasm_view s, inp, app_input_view s)"
      if "run_state (pending_teep_live_save A (request_id_view s) (command_view s) (wasm_view s) inp (app_input_view s)
         (catalog_view s) (app_wasm_view s) (dev_agent_public_key_view s)) s2 = (Inr (), (w', t'))"
      using live_save_key [OF that] by simp
    from o Answered b s1 save verified_input_parses [OF inp s(2)] built_settled(3) [OF n] show ?thesis
      by (auto simp: resolve_output_def Let_def split: sum.splits if_splits prod.splits)
  qed
qed

section \<open>One call\<close>

lemma envelope_routed:
  "twep_ta_dispatch_command A W E TA_TWEP_WR_CMD_EXECUTE = twep_ta_cmd_production_envelope A W E TWEP_TA_ENVELOPE_EXECUTE"
  "twep_ta_dispatch_command A W E TA_TWEP_WR_CMD_RESUME_HOST_IO =
     twep_ta_cmd_production_envelope A W E TWEP_TA_ENVELOPE_RESUME_HOST_IO"
  "twep_ta_dispatch_command A W E TA_TWEP_WR_CMD_SECURE_STORAGE_GET = plain (twep_ta_cmd_secure_storage_get A)"
  "twep_ta_dispatch_command A W E TA_TWEP_WR_CMD_MEASURE_WASM = plain (twep_ta_cmd_measure_wasm A)"
  by (intro ext, simp add: twep_ta_dispatch_command_def routes_def TA_TWEP_WR_CMD_PING_def
      TA_TWEP_WR_CMD_GET_PLATFORM_STATUS_def TA_TWEP_WR_CMD_SECURE_STORAGE_PUT_def TA_TWEP_WR_CMD_SECURE_STORAGE_GET_def
      TA_TWEP_WR_CMD_GET_RANDOM_def TA_TWEP_WR_CMD_GET_TIME_def TA_TWEP_WR_CMD_CBOR_DRY_RUN_def
      TA_TWEP_WR_CMD_WAMR_SPIKE_EXEC_def TA_TWEP_WR_CMD_INIT_def TA_TWEP_WR_CMD_EXECUTE_def
      TA_TWEP_WR_CMD_RESUME_HOST_IO_def TA_TWEP_WR_CMD_MEASURE_WASM_def)+

definition stored_len :: "nat option \<Rightarrow> nat" where
  "stored_len len = (case len of None \<Rightarrow> 0 | Some n \<Rightarrow> n)"

lemma invoke_envelope:
  assumes run: "run_state (TEEC_InvokeCommand T (A, W, E, sz) h command
      [MEMREF_INPUT env, MEMREF_OUTPUT cap None, PARAM_NONE, PARAM_NONE]) (v, w, inst) = (Inr ps, (v', w', inst'))"
    and cmd: "twep_ta_dispatch_command A W E command = twep_ta_cmd_production_envelope A W E kind"
    and ses: "session_of inst h = Some sess"
  obtains s len resp t where "parse_production_envelope env kind = Inr s"
    "run_state (handle_envelope A W E kind s cap) (w, (ti_vars inst)\<lparr>g_session := sess\<rparr>) = (Inr (len, Inr resp), (w', t))"
    "session_of inst' h = Some (g_session t)" "ti_vars inst' = t"
    "\<And>buf. received buf ps = (stored_len len, resp @ drop (length resp) buf)"
proof -
  let ?ps = "[MEMREF_INPUT env, MEMREF_OUTPUT cap None, PARAM_NONE, PARAM_NONE]"
  let ?t = "(ti_vars inst)\<lparr>g_session := sess\<rparr>"
  from run have "\<exists>v1. run_state (twep_ta_session_invoke A W E h command ?ps inst) w = (((Inr (), ps), inst'), w')"
    by (auto simp: TEEC_InvokeCommand_def on_host_def on_ta_def Let_def split: prod.splits option.splits sum.splits)
  then obtain t where d: "run_state (twep_ta_cmd_production_envelope A W E kind ?ps) (w, ?t) = ((Inr (), ps), (w', t))"
    and inst': "inst' = inst\<lparr>ti_vars := t, ti_sessions := (ti_sessions inst)[h := Some (g_session t)]\<rparr>"
    by (auto simp: twep_ta_session_invoke_def ses cmd Let_def split: prod.splits)
  from d obtain s r where s: "parse_production_envelope env kind = Inr s"
    and r: "run_state (handle_envelope A W E kind s cap) (w, ?t) = (r, (w', t))"
    and e: "(case r of Inl e \<Rightarrow> (Inl e, ?ps) | Inr b \<Rightarrow> respond ?ps None b) = (Inr (), ps)"
    by (auto simp: twep_ta_cmd_production_envelope_def split: if_splits sum.splits prod.splits)
  from e obtain len resp where b: "r = Inr (len, Inr resp)" "ps = ?ps[1 := MEMREF_OUTPUT (stored_len len) (Some resp)]"
    by (auto simp: respond_def Let_def stored_len_def split: sum.splits)
  have "session_of inst' h = Some (g_session t)"
    using ses by (auto simp: inst' session_of_def split: if_splits)
  with s r b show thesis by (intro that [of s len resp t]) (simp_all add: inst' received_def)
qed

section \<open>The end of a request keeps protected storage\<close>

text \<open>The objects in the secure world, and computations that keep them.\<close>

definition store_of :: "('w \<Rightarrow> store) \<Rightarrow> ('o, 'w) machine \<Rightarrow> store" where
  "store_of objs v = objs (fst (snd v))"

definition keeps_store :: "('w \<Rightarrow> store) \<Rightarrow> (('o, 'w) machine, 'a) state \<Rightarrow> bool" where
  "keeps_store objs m \<longleftrightarrow> (\<forall>v r v'. run_state m v = (r, v') \<longrightarrow> store_of objs v' = store_of objs v)"

lemma keeps_store_rules:
  "keeps_store objs (State_Monad.return x)" "keeps_store objs (on_host m)"
  "keeps_store objs m' \<Longrightarrow> (\<And>x. keeps_store objs (f x)) \<Longrightarrow> keeps_store objs (State_Monad.bind m' f)"
  "keeps_store objs p \<Longrightarrow> keeps_store objs q \<Longrightarrow> keeps_store objs (if b then p else q)"
  "(\<And>e. keeps_store objs (g e)) \<Longrightarrow> (\<And>x. keeps_store objs (k x)) \<Longrightarrow> keeps_store objs (case z of Inl e \<Rightarrow> g e | Inr x \<Rightarrow> k x)"
  "keeps_store objs p \<Longrightarrow> (\<And>x. keeps_store objs (k' x)) \<Longrightarrow> keeps_store objs (case y of None \<Rightarrow> p | Some x \<Rightarrow> k' x)"
  "(\<And>x y. keeps_store objs (h x y)) \<Longrightarrow> keeps_store objs (case pr of (x, y) \<Rightarrow> h x y)"
proof -
  show "keeps_store objs m' \<Longrightarrow> (\<And>x. keeps_store objs (f x)) \<Longrightarrow> keeps_store objs (State_Monad.bind m' f)"
    unfolding keeps_store_def by (metis run_bindE)
qed (auto simp: keeps_store_def store_of_def on_host_def split: prod.splits sum.splits option.splits)

lemma keeps_store_calls:
  assumes laws: "storage_laws A objs hobj sha" and rt: "runtime_laws objs W E"
  shows "cmd = TA_TWEP_WR_CMD_SECURE_STORAGE_GET \<or> cmd = TA_TWEP_WR_CMD_MEASURE_WASM \<Longrightarrow>
      keeps_store objs (TEEC_InvokeCommand T (A, W, E, sz) h cmd ps)"
    and "keeps_store objs (twep_optee_session_secure_storage_get Os T (A, W, E, sz) h nm)"
    and "keeps_store objs (twep_optee_open T (A, W, E, sz))"
    and "keeps_store objs (twep_optee_close T h)"
proof -
  show call: "keeps_store objs (TEEC_InvokeCommand T (A, W, E, sz) h cmd ps)"
    if "cmd = TA_TWEP_WR_CMD_SECURE_STORAGE_GET \<or> cmd = TA_TWEP_WR_CMD_MEASURE_WASM" for cmd ps
  proof -
    have "quiet objs (twep_ta_dispatch_command A W E cmd ps)"
      using that quiet_plain(3,4) [OF laws rt, of ps] by (auto simp: envelope_routed)
    then have "keeps_store objs (on_ta (twep_ta_session_invoke A W E h cmd ps))"
      by (auto simp: keeps_store_def store_of_def on_ta_def twep_ta_session_invoke_def quiet_def split: prod.splits option.splits)
    then show ?thesis unfolding TEEC_InvokeCommand_def prod.case by (intro keeps_store_rules)
  qed
  show "keeps_store objs (twep_optee_session_secure_storage_get Os T (A, W, E, sz) h nm)"
    unfolding twep_optee_session_secure_storage_get_def teec_storage_get_def
    by (intro keeps_store_rules call) simp
  have "keeps_store objs (on_ta (twep_ta_session_open A sz))"
    using keeps_tee(1) [OF laws, of sz]
    by (auto simp: keeps_store_def store_of_def on_ta_def twep_ta_session_open_def keeps_def split: prod.splits)
      (metis snd_conv)
  then show "keeps_store objs (twep_optee_open T (A, W, E, sz))"
    unfolding twep_optee_open_def TEEC_OpenSession_def prod.case by (intro keeps_store_rules)
  have "keeps_store objs (TEEC_CloseSession h)"
    by (auto simp: TEEC_CloseSession_def keeps_store_def store_of_def on_ta_def)
  then show "keeps_store objs (twep_optee_close T h)"
    unfolding twep_optee_close_def by (intro keeps_store_rules)
qed

text \<open>The diagnostics write files of the host and read protected objects; they leave these as they are.\<close>

definition diagnostics_laws :: "('w \<Rightarrow> store) \<Rightarrow> ('o, 'w) diagnostics \<Rightarrow> bool" where
  "diagnostics_laws objs D \<longleftrightarrow> (\<forall>ctx. keeps_store objs (twep_optee_write_verified_diagnostics D ctx)) \<and>
     (\<forall>ctx e s0 s1. keeps_store objs (twep_optee_write_verified_evidence_snapshot D ctx e s0 s1))"

lemma answer_result:
  assumes laws: "storage_laws A objs hobj sha" and rt: "runtime_laws objs W E" and D: "diagnostics_laws objs D"
    and run: "run_state (answer Os T D (A, W, E, sz) ctx ver h final resp) v = ((st, r), v')"
  shows "st = TWEP_WR_OK \<and> r = Some resp \<and> store_of objs v' = store_of objs v"
proof -
  note calls = keeps_store_calls [OF laws rt]
  have "keeps_store objs (evidence_snapshot Os T (A, W, E, sz) h)"
    unfolding evidence_snapshot_def by (intro keeps_store_rules calls)
  then have "keeps_store objs (answer Os T D (A, W, E, sz) ctx ver h final resp)"
    unfolding answer_def using D [unfolded diagnostics_laws_def] by (auto intro!: keeps_store_rules calls)
  with run have "store_of objs v' = store_of objs v" unfolding keeps_store_def by blast
  moreover from run have "st = TWEP_WR_OK" "r = Some resp"
    unfolding answer_def by (elim run_bindE; simp)+
  ultimately show ?thesis by simp
qed

section \<open>All rounds\<close>

text \<open>
  \<open>misread\<close>: the agent asked for a host operation in an answer in which the host did not find one; the host
  then takes the answer itself, or what it wraps, for the response.
\<close>

definition misread :: "bytes \<Rightarrow> bytes \<Rightarrow> bool" where
  "misread m r \<longleftrightarrow> teep_output_is_need_host_io m \<and> (\<exists>n rest_of.
     twep_optee_parse_response (take n (m @ rest_of)) = None \<and> r = take n (m @ rest_of) \<or>
     (\<exists>f nd. twep_optee_parse_response (take n (m @ rest_of)) = Some (TWEP_WR_OPTEE_RESPONSE_FINAL, f, nd) \<and> r = view_bytes f))"

definition host_outcome ::
  "('w, 'h) tee_api \<Rightarrow> ('w, 'i) wamr \<Rightarrow> 'w platform \<Rightarrow> (bytes \<Rightarrow> bytes) \<Rightarrow> bytes \<Rightarrow> bytes \<Rightarrow> bytes \<Rightarrow> bytes \<Rightarrow> store \<Rightarrow> bytes \<Rightarrow> bool" where
  "host_outcome A W E sha request_id agent command input S r \<longleftrightarrow>
     (\<exists>n. ran_installed_app A W E sha request_id agent command input n S r) \<or>
     (\<exists>code message. r = teep_error_response_bytes request_id code message command) \<or>
     (\<exists>m. misread m r)"

definition verdict ::
  "('w, 'h) tee_api \<Rightarrow> ('w, 'i) wamr \<Rightarrow> 'w platform \<Rightarrow> (bytes \<Rightarrow> bytes) \<Rightarrow> bytes \<Rightarrow> bytes \<Rightarrow> bytes \<Rightarrow> bytes \<Rightarrow> store \<Rightarrow>
   nat option \<Rightarrow> bytes \<Rightarrow> bool" where
  "verdict A W E sha i agent c inp S len resp \<longleftrightarrow> len = Some (length resp) \<and>
     (twep_optee_parse_response resp = None \<and> host_outcome A W E sha i agent c inp S resp \<or>
      (\<exists>inner nd. twep_optee_parse_response resp = Some (TWEP_WR_OPTEE_RESPONSE_FINAL, Some inner, nd) \<and>
         host_outcome A W E sha i agent c inp S inner))"

lemma misread_whole:
  assumes "teep_output_is_need_host_io m"
  shows "twep_optee_parse_response m = None \<Longrightarrow> misread m m"
    and "twep_optee_parse_response m = Some (TWEP_WR_OPTEE_RESPONSE_FINAL, f, nd) \<Longrightarrow> misread m (view_bytes f)"
  using assms unfolding misread_def by (intro conjI exI [of _ "length m"] exI [of _ "[]"]; simp)+

definition pending_verified :: "bytes \<Rightarrow> bytes \<Rightarrow> bytes \<Rightarrow> bytes \<Rightarrow> ta_state \<Rightarrow> bool" where
  "pending_verified i agent c inp t \<longleftrightarrow> (\<exists>rin ri. live_key t = (True, i, c, agent, rin, inp) \<and>
     parse_teep_resolve_input rin = Inr ri \<and> ri_command ri = ascii ''resolve_app'' \<and>
     ri_resolver_mode ri = ascii ''attestam-verified'')"

lemma execute_verdict:
  assumes laws: "storage_laws A objs hobj sha" and rel: "storage_reliable A objs hobj" and rt: "runtime_laws objs W E"
    and s: "resolver_mode_view s = ascii ''attestam-verified''" "command_view s \<in> set app_commands" "wasm_view s \<noteq> []"
    and run: "run_state (handle_envelope A W E TWEP_TA_ENVELOPE_EXECUTE s n) (w, t) = (Inr (len, Inr resp), (w', t'))"
    and n: "n < 2 ^ 32"
  shows "teep_output_is_need_host_io resp \<and>
      pending_verified (request_id_view s) (wasm_view s) (command_view s) (app_input_view s) t' \<or>
    verdict A W E sha (request_id_view s) (wasm_view s) (command_view s) (app_input_view s) (objs w') len resp"
proof -
  have "probe_request s = None" "\<not> bytes_view_eq (command_view s) (ascii ''teep-agent-hostcall-evidence'')"
    using s(2) by (auto simp: probe_request_def app_commands_def view_eq_iff)
  with run s(3) have ex: "run_state (execute_command A W E s n) (w, set_timeouts TWEP_TA_ENVELOPE_EXECUTE s t) =
      (Inr (len, Inr resp), (w', t'))" by (simp add: handle_envelope_def)
  from execute_settled [OF s(1,2) ex n] show ?thesis
  proof (elim disjE)
    assume plain: "len = Some (length resp) \<and> twep_optee_parse_response resp = None"
    with execute_verified [OF laws rel rt s(1,2) ex] misread_whole(1) [of resp]
    have "host_outcome A W E sha (request_id_view s) (wasm_view s) (command_view s) (app_input_view s) (objs w') resp"
      by (auto simp: host_outcome_def)
    with plain show ?thesis by (simp add: verdict_def)
  qed (auto simp: pending_verified_def)
qed

lemma error_not_final: "teep_error_response_bytes i code m c \<noteq> final_response_bytes i' r"
  by (simp add: teep_error_response_bytes_def final_response_bytes_def)

lemma resume_verdict:
  assumes laws: "storage_laws A objs hobj sha" and rel: "storage_reliable A objs hobj" and rt: "runtime_laws objs W E"
    and pend: "pending_verified i agent c inp t"
    and run: "run_state (handle_envelope A W E TWEP_TA_ENVELOPE_RESUME_HOST_IO s n) (w, t) = (Inr (len, Inr resp), (w', t'))"
    and n: "n < 2 ^ 32"
  shows "teep_output_is_need_host_io resp \<and> pending_verified i agent c inp t' \<or>
    verdict A W E sha i agent c inp (objs w') len resp"
proof -
  from pend obtain rin ri where key: "live_key t = (True, i, c, agent, rin, inp)"
    and ri: "parse_teep_resolve_input rin = Inr ri" "ri_command ri = ascii ''resolve_app''"
      "ri_resolver_mode ri = ascii ''attestam-verified''" unfolding pending_verified_def by blast
  let ?live = "g_pending_teep_live t"
  have live: "pl_active ?live" "pl_request_id ?live = i" "pl_command ?live = c" "pl_wasm ?live = agent" "pl_input ?live = rin"
    "pl_app_input ?live = inp" using key by (simp_all add: live_key_def Let_def)
  have r: "run_state (resume_pending_teep_live A W E (request_id_view s) (host_io_result_view s) n) (w, t) =
      ((len, Inr resp), (w', t'))"
    using run live(1) by (auto simp: handle_envelope_def set_timeouts_def split: prod.splits)
  note res = resume_verified [OF laws rel rt _ ri(2,3) r, unfolded live, OF ri(1)]
  then have id: "request_id_view s = i" by simp
  from resume_settled [OF r n, unfolded id] show ?thesis
  proof (elim disjE)
    assume st: "settled i len resp"
    have final: "twep_optee_parse_response resp = Some (TWEP_WR_OPTEE_RESPONSE_FINAL, Some inner, no_need\<lparr>nh_request_id := Some i\<rparr>)"
      if "resp = final_response_bytes i inner" for inner
    proof -
      have "length i \<le> length resp" "length inner \<le> length resp"
        unfolding that by (simp_all add: final_response_bytes_def cbor_write_text_def)
      with st show ?thesis unfolding that by (intro final_parses) (auto simp: settled_def)
    qed
    have "host_outcome A W E sha i agent c inp (objs w') resp" if "twep_optee_parse_response resp = None"
      using res [unfolded id] final misread_whole(1) [of resp] that by (auto simp: host_outcome_def)
    moreover have "host_outcome A W E sha i agent c inp (objs w') inner"
      if "twep_optee_parse_response resp = Some (TWEP_WR_OPTEE_RESPONSE_FINAL, Some inner, nd)" "resp = final_response_bytes i inner"
      for inner nd
    proof -
      from res [unfolded id] consider "teep_output_is_need_host_io resp"
        | code m where "resp = teep_error_response_bytes i code m c"
        | f where "resp = final_response_bytes i f" "ran_installed_app A W E sha i agent c inp 4096 (objs w') f" by blast
      then show ?thesis
      proof cases
        case 1
        from misread_whole(2) [OF 1 that(1)] show ?thesis by (auto simp: host_outcome_def view_bytes_def)
      next
        case 2
        with that(2) error_not_final show ?thesis by metis
      next
        case 3
        with final [OF 3(1)] that(1) show ?thesis by (auto simp: host_outcome_def)
      qed
    qed
    ultimately show ?thesis using st by (auto simp: settled_def verdict_def)
  qed (use key ri in \<open>auto simp: pending_verified_def\<close>)
qed

lemma give_up_fails: "st \<noteq> TWEP_WR_OK \<Longrightarrow> run_state (give_up T h st) v \<noteq> ((TWEP_WR_OK, r), v')"
  by (auto simp: give_up_def elim!: run_bindE split: prod.splits)

lemma wr_status_fails: "twep_optee_wr_status e \<noteq> TWEP_WR_OK"
  by (simp add: twep_optee_wr_status_def split: tee_error.split)

lemma after_call_outcome:
  assumes laws: "storage_laws A objs hobj sha" and rt: "runtime_laws objs W E" and D: "diagnostics_laws objs D"
    and run: "run_state (after_call Os T D (A, W, E, sz) ctx ver h round k (take (stored_len len) (resp @ tl_buf))) v =
      ((TWEP_WR_OK, Some r), v')"
    and fact: "teep_output_is_need_host_io resp \<and> P \<or> verdict A W E sha i agent c inp (store_of objs v) len resp"
    and IH: "\<And>env v. P \<Longrightarrow> run_state (k env) v = ((TWEP_WR_OK, Some r), v') \<Longrightarrow>
      snd v = snd v0 \<Longrightarrow> host_outcome A W E sha i agent c inp (store_of objs v') r"
    and v0: "snd v = snd v0"
  shows "host_outcome A W E sha i agent c inp (store_of objs v') r"
proof -
  let ?resp = "take (stored_len len) (resp @ tl_buf)"
  have fin: "r = view_bytes f \<and> store_of objs v' = store_of objs v"
    if "twep_optee_parse_response ?resp = Some (TWEP_WR_OPTEE_RESPONSE_FINAL, f, nd)" for f nd
  proof -
    from run that obtain mem v1 where m: "run_state (on_host (os_malloc Os (if length (view_bytes f) = 0 then 1 else length (view_bytes f)))) v = (mem, v1)"
      and a: "run_state (if \<not> mem then give_up T h TWEP_WR_ERR_NO_MEMORY
          else answer Os T D (A, W, E, sz) ctx ver h True (view_bytes f)) v1 = ((TWEP_WR_OK, Some r), v')"
      unfolding after_call_def by (auto elim!: run_bindE split: prod.splits)
    from a give_up_fails [of TWEP_WR_ERR_NO_MEMORY T h v1 "Some r" v'] have mem by (cases mem) auto
    with a answer_result [OF laws rt D, of Os T sz ctx ver h True "view_bytes f" v1] have
      "r = view_bytes f" "store_of objs v' = store_of objs v1" by auto
    moreover have "store_of objs v1 = store_of objs v" by (rule keeps_store_rules(2) [unfolded keeps_store_def, rule_format, OF m])
    ultimately show ?thesis by simp
  qed
  have none: "r = ?resp \<and> store_of objs v' = store_of objs v" if "twep_optee_parse_response ?resp = None"
    using run that answer_result [OF laws rt D, of Os T sz ctx ver h False ?resp v] by (auto simp: after_call_def)
  show ?thesis
  proof (cases "twep_optee_parse_response ?resp")
    case None
    with none have r: "r = ?resp" "store_of objs v' = store_of objs v" by auto
    from fact show ?thesis
    proof
      assume "teep_output_is_need_host_io resp \<and> P"
      with None r(1) have "misread resp r" unfolding misread_def by blast
      then show ?thesis by (auto simp: host_outcome_def)
    next
      assume vd: "verdict A W E sha i agent c inp (store_of objs v) len resp"
      then have "?resp = resp" by (simp add: verdict_def stored_len_def)
      with vd None r show ?thesis by (auto simp: verdict_def)
    qed
  next
    case (Some q)
    then obtain kind f nd where q: "q = (kind, f, nd)" by (cases q)
    show ?thesis
    proof (cases kind)
      case TWEP_WR_OPTEE_RESPONSE_FINAL
      with Some q fin have r: "r = view_bytes f" "store_of objs v' = store_of objs v" by auto
      from fact show ?thesis
      proof
        assume "teep_output_is_need_host_io resp \<and> P"
        with Some q r(1) TWEP_WR_OPTEE_RESPONSE_FINAL have "misread resp r" unfolding misread_def by blast
        then show ?thesis by (auto simp: host_outcome_def)
      next
        assume vd: "verdict A W E sha i agent c inp (store_of objs v) len resp"
        then have "?resp = resp" by (simp add: verdict_def stored_len_def)
        with vd Some q r TWEP_WR_OPTEE_RESPONSE_FINAL show ?thesis by (auto simp: verdict_def view_bytes_def)
      qed
    next
      case TWEP_WR_OPTEE_RESPONSE_NEED_HOST_IO
      have "\<not> verdict A W E sha i agent c inp (store_of objs v) len resp"
        using Some q TWEP_WR_OPTEE_RESPONSE_NEED_HOST_IO by (auto simp: verdict_def stored_len_def)
      with fact have P by blast
      moreover from run Some q TWEP_WR_OPTEE_RESPONSE_NEED_HOST_IO obtain env where "run_state (k env) v = ((TWEP_WR_OK, Some r), v')"
        by (auto simp: after_call_def give_up_fails split: prod.splits if_splits option.splits)
      ultimately show ?thesis using IH v0 by blast
    qed
  qed
qed

text \<open>From the second round on, the request is pending in the session.\<close>

definition waiting :: "nat \<Rightarrow> bytes \<Rightarrow> bytes \<Rightarrow> bytes \<Rightarrow> bytes \<Rightarrow> ta_instance \<Rightarrow> bool" where
  "waiting h i agent c inp inst \<longleftrightarrow> (\<exists>sess. session_of inst h = Some sess \<and>
     pending_verified i agent c inp ((ti_vars inst)\<lparr>g_session := sess\<rparr>))"

lemma waitingI: "session_of inst h = Some (g_session (ti_vars inst)) \<Longrightarrow> pending_verified i agent c inp (ti_vars inst) \<Longrightarrow>
    waiting h i agent c inp inst"
  unfolding waiting_def pending_verified_def live_key_def by auto

lemma rounds_outcome:
  assumes laws: "storage_laws A objs hobj sha" and rel: "storage_reliable A objs hobj" and rt: "runtime_laws objs W E"
    and D: "diagnostics_laws objs D"
  shows "run_state (execute_rounds Os T D (A, W, E, sz) ctx ver h left round env buf) v = ((TWEP_WR_OK, Some r), v') \<Longrightarrow>
    (if round = 0 then (\<exists>sess s. session_of (snd (snd v)) h = Some sess \<and>
       parse_production_envelope env TWEP_TA_ENVELOPE_EXECUTE = Inr s \<and> resolver_mode_view s = ascii ''attestam-verified'' \<and>
       command_view s \<in> set app_commands \<and> wasm_view s \<noteq> [] \<and>
       (request_id_view s, wasm_view s, command_view s, app_input_view s) = (i, agent, c, inp))
     else waiting h i agent c inp (snd (snd v))) \<Longrightarrow>
    host_outcome A W E sha i agent c inp (store_of objs v') r"
proof (induction left arbitrary: round env buf v)
  case 0
  then have "run_state (give_up T h TWEP_WR_ERR_TEEP) v = ((TWEP_WR_OK, Some r), v')" by simp
  then show ?case using give_up_fails [of TWEP_WR_ERR_TEEP T h v "Some r" v'] by simp
next
  case (Suc left)
  let ?cmd = "if round = 0 then TA_TWEP_WR_CMD_EXECUTE else TA_TWEP_WR_CMD_RESUME_HOST_IO"
  let ?kind = "if round = 0 then TWEP_TA_ENVELOPE_EXECUTE else TWEP_TA_ENVELOPE_RESUME_HOST_IO"
  let ?cap = "TWEP_WR_OPTEE_EXECUTE_RESPONSE_CAP"
  obtain hv w inst where v: "v = (hv, w, inst)" by (cases v)
  from Suc.prems(2) obtain sess where ses: "session_of inst h = Some sess"
    unfolding v by (auto simp: waiting_def split: if_splits)
  from Suc.prems(1) obtain res v1 where
    call: "run_state (TEEC_InvokeCommand T (A, W, E, sz) h ?cmd
        [MEMREF_INPUT env, MEMREF_OUTPUT ?cap None, PARAM_NONE, PARAM_NONE]) v = (res, v1)"
    and "run_state (case res of Inl e \<Rightarrow> give_up T h (twep_optee_wr_status e)
     | Inr ps \<Rightarrow> let (n, buf') = received buf ps in
       after_call Os T D (A, W, E, sz) ctx ver h round
         (\<lambda>env. execute_rounds Os T D (A, W, E, sz) ctx ver h left (round + 1) env buf') (take n buf')) v1 = ((TWEP_WR_OK, Some r), v')"
    by (simp only: execute_rounds.simps) (rule run_bindE)
  then obtain ps where res: "res = Inr ps"
    and after: "run_state (let (n, buf') = received buf ps in
       after_call Os T D (A, W, E, sz) ctx ver h round
         (\<lambda>env. execute_rounds Os T D (A, W, E, sz) ctx ver h left (round + 1) env buf') (take n buf')) v1 = ((TWEP_WR_OK, Some r), v')"
    using give_up_fails [OF wr_status_fails, of T h "projl res" v1 "Some r" v'] by (cases res) auto
  obtain hv1 w1 inst1 where v1: "v1 = (hv1, w1, inst1)" by (cases v1)
  have kind: "twep_ta_dispatch_command A W E ?cmd = twep_ta_cmd_production_envelope A W E ?kind"
    by (simp add: envelope_routed)
  obtain s len resp t where s: "parse_production_envelope env ?kind = Inr s"
    and h: "run_state (handle_envelope A W E ?kind s ?cap) (w, (ti_vars inst)\<lparr>g_session := sess\<rparr>) = (Inr (len, Inr resp), (w1, t))"
    and t: "session_of inst1 h = Some (g_session t)" "ti_vars inst1 = t"
    and rec: "\<And>buf. received buf ps = (stored_len len, resp @ drop (length resp) buf)"
    by (rule invoke_envelope [OF call [unfolded v v1 res] kind ses]) (rule that; assumption)
  have n: "?cap < 2 ^ 32" by (simp add: TWEP_WR_OPTEE_EXECUTE_RESPONSE_CAP_def)
  have "teep_output_is_need_host_io resp \<and> pending_verified i agent c inp t \<or> verdict A W E sha i agent c inp (objs w1) len resp"
  proof (cases "round = 0")
    case True
    with Suc.prems(2) s have "resolver_mode_view s = ascii ''attestam-verified''" "command_view s \<in> set app_commands" "wasm_view s \<noteq> []"
      "(request_id_view s, wasm_view s, command_view s, app_input_view s) = (i, agent, c, inp)" by auto
    with execute_verdict [OF laws rel rt, of s ?cap w _ len resp w1 t] h n True show ?thesis by auto
  next
    case False
    with Suc.prems(2) ses have "pending_verified i agent c inp ((ti_vars inst)\<lparr>g_session := sess\<rparr>)" by (auto simp: waiting_def v)
    with resume_verdict [OF laws rel rt this _ n] h False show ?thesis by simp
  qed
  then have "teep_output_is_need_host_io resp \<and> waiting h i agent c inp inst1 \<or>
      verdict A W E sha i agent c inp (store_of objs v1) len resp"
    using waitingI [of inst1 h i agent c inp] t by (auto simp: store_of_def v1)
  then show ?case
  proof (rule after_call_outcome [OF laws rt D after [unfolded rec Let_def prod.case]])
    show "host_outcome A W E sha i agent c inp (store_of objs v') r"
      if "waiting h i agent c inp inst1" "snd v2 = snd v1"
        "run_state (execute_rounds Os T D (A, W, E, sz) ctx ver h left (round + 1) env2 (resp @ drop (length resp) buf)) v2 =
          ((TWEP_WR_OK, Some r), v')" for env2 v2
      using Suc.IH [OF that(3)] that(1,2) by (simp add: v1)
  qed simp
qed

section \<open>From the request to the answer\<close>

lemma open_session:
  assumes "run_state (twep_optee_open T (A, W, E, sz)) v = (Inr h, v')"
  shows "session_of (snd (snd v')) h = Some new_session"
proof -
  from assms obtain v1 v2 where "run_state (on_ta (twep_ta_session_open A sz)) v1 = (Inr h, v2)" "v' = v2"
    unfolding twep_optee_open_def TEEC_OpenSession_def
    by (auto split: sum.splits option.splits prod.splits)
  then show ?thesis
    by (cases v1) (auto simp: on_ta_def twep_ta_session_open_def session_of_def nth_append Let_def split: prod.splits if_splits)
qed

text \<open>The agent is the file of the state directory, or one of the two files it is copied from.\<close>

definition agent_paths :: "twep_wr_context \<Rightarrow> bytes set" where
  "agent_paths ctx =
     {p. twep_wr_state_path ctx (ascii ''teep-agent'') (Some (ascii ''teep-agent.wasm'')) TWEP_WR_MAX_PATH_LEN = Some p} \<union>
     {ascii ''build/teep-agent.wasm'', ascii ''../../build/teep-agent.wasm''}"

lemma read_agent_file:
  assumes laws: "file_laws Os files reading writing"
  shows "hoare (\<lambda>v. files v = F) (twep_optee_read_verified_acceptance_artifacts (optee_backend Os) ctx)
    (\<lambda>r v. \<forall>agent. r = Inr agent \<longrightarrow> (\<exists>p \<in> agent_paths ctx. F p = Some agent) \<and>
       (\<forall>q bs. files v q = Some bs \<longrightarrow> (\<exists>p. F p = Some bs)))"
    (is "hoare _ _ ?Q")
proof (cases "twep_wr_state_path ctx (ascii ''teep-agent'') (Some (ascii ''teep-agent.wasm'')) TWEP_WR_MAX_PATH_LEN")
  case None
  then show ?thesis
    unfolding twep_optee_read_verified_acceptance_artifacts_def must_def twep_wr_ensure_teep_agent_def
    by (intro hoare_bind [OF optee.state_layout [OF laws]] hoare_if hoare_return) (auto simp: hoare_def)
next
  case (Some dst)
  let ?B = "optee_backend Os"
  let ?R = "\<lambda>v. (\<forall>a. files v dst = Some a \<longrightarrow> (\<exists>p \<in> agent_paths ctx. F p = Some a)) \<and>
    (\<forall>q bs. files v q = Some bs \<longrightarrow> (\<exists>p. F p = Some bs))"
  have must: "hoare P (must m k) ?Q" if "hoare P m (\<lambda>st v. st = TWEP_WR_OK \<longrightarrow> R v)" "hoare R k ?Q" for P m k R
    unfolding must_def
    by (rule hoare_bind [OF that(1)]) (use that(2) in \<open>auto simp: hoare_def\<close>)
  have agent: "hoare (\<lambda>v. files v = F) (twep_wr_ensure_teep_agent ?B ctx) (\<lambda>st v. st = TWEP_WR_OK \<longrightarrow> ?R v)"
    by (rule hoare_post [OF optee.teep_agent [OF laws Some]]) (auto simp: agent_paths_def Some split: if_splits)
  have g: "hoare (\<lambda>v. files v = G) (twep_optee_read_teep_agent_wasm ?B ctx)
      (\<lambda>r v. files v = G \<and> (\<forall>agent. r = Inr agent \<longrightarrow> G dst = Some agent))" for G
    unfolding twep_optee_read_teep_agent_wasm_def twep_wr_read_file_def bind_assoc Some option.case
    by (rule hoare_bind [OF optee.read [OF laws]]) (auto simp: hoare_def split: sum.splits option.splits)
  have read: "hoare ?R (twep_optee_read_teep_agent_wasm ?B ctx) ?Q"
    unfolding hoare_def
  proof (intro allI impI)
    fix v agent
    assume "?R v" and "fst (run_state (twep_optee_read_teep_agent_wasm ?B ctx) v) = Inr agent"
    then show "(\<exists>p \<in> agent_paths ctx. F p = Some agent) \<and>
        (\<forall>q bs. files (snd (run_state (twep_optee_read_teep_agent_wasm ?B ctx) v)) q = Some bs \<longrightarrow> (\<exists>p. F p = Some bs))"
      using g [of "files v", unfolded hoare_def, rule_format, OF refl] by auto
  qed
  show ?thesis
    unfolding twep_optee_read_verified_acceptance_artifacts_def
    by (rule must [where R = "\<lambda>v. files v = F", OF hoare_post [OF optee.state_layout [OF laws]]], simp, rule must [OF agent read])
qed

lemma dev_key_file:
  assumes laws: "file_laws Os files reading writing"
  shows "hoare (\<lambda>v. files v = F) (twep_optee_read_dev_agent_public_key (optee_backend Os) ctx)
    (\<lambda>r v. \<forall>key. r = Inr key \<longrightarrow> key = [] \<or> (\<exists>p. F p = Some key))"
  unfolding twep_optee_read_dev_agent_public_key_def twep_wr_read_file_def bind_assoc twep_wr_file_exists_def
  by (rule hoare_case_option, rule hoare_return, simp, rule optee.ask [OF laws], rule hoare_if, rule hoare_return, simp,
      rule hoare_bind [OF optee.read [OF laws]]) (auto simp: hoare_def split: sum.splits option.splits)

lemma on_host_run: "run_state (on_host m) v = (x, v') \<Longrightarrow> run_state m (fst v) = (x, fst v') \<and> snd v' = snd v"
  by (cases v) (auto simp: on_host_def Let_def split: prod.splits)

lemma optee_execute_verified:
  assumes laws: "storage_laws A objs hobj sha" and rel: "storage_reliable A objs hobj" and rt: "runtime_laws objs W E"
    and D: "diagnostics_laws objs D" and files: "file_laws Os files reading writing"
    and small: "\<And>p bs. files (fst v) p = Some bs \<Longrightarrow> length bs < 2 ^ 32"
    and ctx: "cx_resolver_mode ctx = Some (ascii ''attestam-verified'')" "cx_attestam_url ctx = Some url" "length url < 2 ^ 32"
    and rq: "rq_request_id request = Some i" "i \<noteq> []" "length i < 2 ^ 32" "rq_command request = Some c" "c \<in> set app_commands"
      "length (app_input_bytes request) < 2 ^ 32"
    and run: "run_state (twep_wr_optee_execute Os T D (A, W, E, sz) ctx request) v = ((TWEP_WR_OK, Some resp), v')"
  obtains agent where "\<exists>p \<in> agent_paths ctx. files (fst v) p = Some agent"
    "agent \<noteq> [] \<longrightarrow> host_outcome A W E sha i agent c (app_input_bytes request) (store_of objs v') resp"
proof -
  let ?TA = "(A, W, E, sz)" and ?B = "optee_backend Os" and ?ok = "((TWEP_WR_OK, Some resp), v')"
  note c = app_command_facts [OF rq(5)]
  have vb: "view_bytes (rq_command request) = c" "view_bytes (rq_request_id request) = i" using rq by (simp_all add: view_bytes_def)
  let ?rest = "\<lambda>agent catalog app key envelope. do {
      mem \<leftarrow> on_host (os_malloc Os TWEP_WR_OPTEE_EXECUTE_RESPONSE_CAP);
      if \<not> mem then State_Monad.return (TWEP_WR_ERR_NO_MEMORY, None)
      else do { _ \<leftarrow> twep_optee_write_verified_diagnostics D ctx; execute_session Os T D ?TA ctx True envelope } }"
  from run c ctx(1) obtain art v1 where
    a1: "run_state (on_host (read_artifacts ?B ctx True (wasm_file_of c))) v = (art, v1)"
    and r1: "run_state (case art of Inl e \<Rightarrow> State_Monad.return (e, None) | Inr (agent, catalog, app) \<Rightarrow> do {
        key \<leftarrow> on_host (twep_optee_read_dev_agent_public_key ?B ctx);
        case key of Inl e \<Rightarrow> State_Monad.return (e, None)
        | Inr key \<Rightarrow> (let timeout = if rq_timeout_ms request = 0 then cx_default_timeout_ms ctx else rq_timeout_ms request in
          do { mem \<leftarrow> on_host (os_malloc Os (execute_envelope_len i c (ascii ''attestam-verified'') (view_bytes (cx_attestam_url ctx))
                  (length (app_input_bytes request)) timeout (length agent) (length catalog) (length app) (length key)));
               case twep_optee_make_execute_envelope mem ctx i c (app_input_bytes request) agent catalog app key timeout of
                 None \<Rightarrow> State_Monad.return (TWEP_WR_ERR_NO_MEMORY, None)
               | Some (_, envelope) \<Rightarrow> ?rest agent catalog app key envelope }) }) v1 = ?ok"
    unfolding twep_wr_optee_execute_def Let_def vb by (simp only: option.case simp_thms if_False if_True) (rule run_bindE)
  from a1 r1 obtain agent where art: "art = Inr (agent, [], [])"
    and ag: "run_state (twep_optee_read_verified_acceptance_artifacts ?B ctx) (fst v) = (Inr agent, fst v1)"
    by (auto simp: read_artifacts_def dest!: on_host_run split: sum.splits prod.splits)
  from hoareD [OF read_agent_file [OF files] refl, of ctx "fst v"] ag
  have F: "\<exists>p \<in> agent_paths ctx. files (fst v) p = Some agent" "\<And>q bs. files (fst v1) q = Some bs \<Longrightarrow> \<exists>p. files (fst v) p = Some bs" by auto
  from r1 art obtain key v2 where a2: "run_state (on_host (twep_optee_read_dev_agent_public_key ?B ctx)) v1 = (Inr key, v2)"
    and r2: "run_state (let timeout = if rq_timeout_ms request = 0 then cx_default_timeout_ms ctx else rq_timeout_ms request in
          do { mem \<leftarrow> on_host (os_malloc Os (execute_envelope_len i c (ascii ''attestam-verified'') (view_bytes (cx_attestam_url ctx))
                  (length (app_input_bytes request)) timeout (length agent) 0 0 (length key)));
               case twep_optee_make_execute_envelope mem ctx i c (app_input_bytes request) agent [] [] key timeout of
                 None \<Rightarrow> State_Monad.return (TWEP_WR_ERR_NO_MEMORY, None)
               | Some (_, envelope) \<Rightarrow> ?rest agent [] [] key envelope }) v2 = ?ok"
    by (auto elim!: run_bindE split: sum.splits prod.splits)
  from hoareD [OF dev_key_file [OF files] refl, of ctx "fst v1"] a2
  have key: "key = [] \<or> (\<exists>p. files (fst v1) p = Some key)" by (auto dest!: on_host_run)
  from r2 obtain mem k timeout envelope v3 where
    env: "twep_optee_make_execute_envelope mem ctx i c (app_input_bytes request) agent [] [] key timeout = Some (k, envelope)"
    and r3: "run_state (?rest agent [] [] key envelope) v3 = ?ok"
    unfolding Let_def by (auto elim!: run_bindE split: option.splits prod.splits)
  from r3 obtain v4 where r4: "run_state (execute_session Os T D ?TA ctx True envelope) v4 = ?ok"
    by (auto split: if_splits prod.splits)
  then obtain h v5 where op: "run_state (twep_optee_open T ?TA) v4 = (Inr h, v5)"
    and r5: "run_state (execute_rounds Os T D ?TA ctx True h TWEP_WR_OPTEE_HOST_IO_MAX_ROUNDS 0 envelope (teec_fresh T)) v5 = ?ok"
    unfolding execute_session_def by (auto split: sum.splits if_splits prod.splits)
  have sizes: "length agent < 2 ^ 32" "length key < 2 ^ 32" using F small key by fastforce+
  have parse: "parse_production_envelope envelope TWEP_TA_ENVELOPE_EXECUTE =
      Inr (execute_seen i c (ascii ''attestam-verified'') url (app_input_bytes request) timeout agent [] [] key)"
    by (rule execute_envelope_parses(1) [OF env rq(2) c(2) ctx(1) _ ctx(2)])
      (use rq(3,6) c(3) ctx(3) sizes in auto)
  have "host_outcome A W E sha i agent c (app_input_bytes request) (store_of objs v') resp" if "agent \<noteq> []"
    by (rule rounds_outcome [OF laws rel rt D r5])
      (use open_session [OF op] parse rq(5) that in \<open>auto simp: execute_seen_def nothing_seen_def\<close>)
  with F(1) show thesis by (intro that) auto
qed

section \<open>Sessions are closed\<close>

definition open_handles :: "ta_instance \<Rightarrow> nat set" where
  "open_handles inst = {k. session_of inst k \<noteq> None}"

definition opens :: "nat set \<Rightarrow> ('o, 'w) machine \<Rightarrow> bool" where
  "opens H v \<longleftrightarrow> open_handles (snd (snd v)) = H"

lemma opens_host: "hoare (opens H) (on_host m) (\<lambda>_. opens H)"
  by (auto simp: hoare_def on_host_def opens_def split: prod.splits)

lemma opens_call: "hoare (opens H) (TEEC_InvokeCommand T TA h command ps) (\<lambda>_. opens H)"
proof -
  obtain A W E sz where TA: "TA = (A, W, E, sz)" by (cases TA)
  have "open_handles (inst\<lparr>ti_vars := t, ti_sessions := (ti_sessions inst)[h := Some x]\<rparr>) = open_handles inst"
    if "session_of inst h = Some y" for inst t x y
    using that by (auto simp: open_handles_def session_of_def nth_list_update split: if_splits)
  then have ta: "hoare (opens H) (on_ta (twep_ta_session_invoke A W E h command ps)) (\<lambda>_. opens H)"
    by (auto simp: hoare_def on_ta_def opens_def twep_ta_session_invoke_def split: prod.splits option.splits)
  show ?thesis
    unfolding TEEC_InvokeCommand_def TA prod.case
    by (rule hoare_bind [OF opens_host], rule hoare_case_option, rule hoare_bind [OF ta])
      (auto intro: hoare_return split: prod.split)
qed

lemma opens_close: "hoare (opens (insert h H)) (twep_optee_close T h) (\<lambda>_. opens (H - {h}))"
proof -
  have "open_handles (twep_ta_session_close h inst) = open_handles inst - {h}" for inst
    by (auto simp: open_handles_def twep_ta_session_close_def session_of_def Let_def nth_list_update split: option.splits if_splits)
  then have "hoare (opens (insert h H)) (TEEC_CloseSession h) (\<lambda>_. opens (H - {h}))"
    by (auto simp: hoare_def TEEC_CloseSession_def on_ta_def opens_def)
  then show ?thesis unfolding twep_optee_close_def by (rule hoare_bind) (rule opens_host)
qed

lemma opens_open:
  "hoare (opens H) (twep_optee_open T TA) (\<lambda>r v. case r of Inl _ \<Rightarrow> opens H v | Inr h \<Rightarrow> h \<notin> H \<and> opens (insert h H) v)"
proof -
  obtain A W E sz where TA: "TA = (A, W, E, sz)" by (cases TA)
  let ?Q = "\<lambda>r v. case r of Inl _ \<Rightarrow> opens H v | Inr h \<Rightarrow> h \<notin> H \<and> opens (insert h H) v"
  have "open_handles (inst\<lparr>ti_sessions := ti_sessions inst @ [Some x]\<rparr>) = insert (length (ti_sessions inst)) (open_handles inst)"
    "length (ti_sessions inst) \<notin> open_handles inst" for inst x
    by (auto simp: open_handles_def session_of_def nth_append)
  then have ta: "hoare (opens H) (on_ta (twep_ta_session_open A sz)) ?Q"
    by (auto simp: hoare_def on_ta_def opens_def twep_ta_session_open_def split: prod.splits)
  have ses: "hoare (opens H) (TEEC_OpenSession T TA) ?Q"
    unfolding TEEC_OpenSession_def TA prod.case
    by (rule hoare_bind [OF opens_host], rule hoare_case_option, rule ta) (auto intro: hoare_return)
  show ?thesis
    unfolding twep_optee_open_def
  proof (rule hoare_bind [OF opens_host], rule hoare_case_sum, rule hoare_return, simp, rule hoare_bind [OF ses])
    show "hoare (?Q r) (case r of Inl e \<Rightarrow> do { _ \<leftarrow> on_host (TEEC_FinalizeContext T); State_Monad.return (Inl (twep_optee_platform_status e)) }
        | Inr h \<Rightarrow> State_Monad.return (Inr h)) ?Q" for r
      by (cases r) (auto intro!: hoare_return hoare_bind [OF opens_host])
  qed
qed

definition diagnostics_close :: "('o, 'w) diagnostics \<Rightarrow> bool" where
  "diagnostics_close D \<longleftrightarrow> (\<forall>H ctx. hoare (opens H) (twep_optee_write_verified_diagnostics D ctx) (\<lambda>_. opens H)) \<and>
     (\<forall>H ctx e s0 s1. hoare (opens H) (twep_optee_write_verified_evidence_snapshot D ctx e s0 s1) (\<lambda>_. opens H))"

lemma opens_rounds:
  assumes D: "diagnostics_close D" and new: "h \<notin> H"
  shows "hoare (opens (insert h H)) (execute_rounds Os T D TA ctx ver h left round env buf) (\<lambda>_. opens H)"
proof -
  have close: "hoare (opens (insert h H)) (twep_optee_close T h) (\<lambda>_. opens H)"
    using opens_close [of h H T] new by simp
  have give_up: "hoare (opens (insert h H)) (give_up T h st) (\<lambda>_. opens H)" for st
    unfolding give_up_def by (rule hoare_bind [OF close]) (rule hoare_return, simp)
  have get: "hoare (opens H') (twep_optee_session_secure_storage_get Os T TA h nm) (\<lambda>_. opens H')" for H' nm
    unfolding twep_optee_session_secure_storage_get_def teec_storage_get_def
    by (intro hoare_if hoare_bind [OF opens_host] hoare_bind [OF opens_call] hoare_bind hoare_return) auto
  have snap: "hoare (opens H') (evidence_snapshot Os T TA h) (\<lambda>_. opens H')" for H'
    unfolding evidence_snapshot_def by (intro hoare_bind [OF get] hoare_case_sum hoare_return) auto
  have wr: "hoare (opens H) (case s of None \<Rightarrow> if final then twep_optee_write_verified_diagnostics D ctx else State_Monad.return ()
      | Some (e, s0, s1) \<Rightarrow> twep_optee_write_verified_evidence_snapshot D ctx e s0 s1) (\<lambda>_. opens H)" for s final
    using D by (auto simp: diagnostics_close_def intro!: hoare_return split: option.split)
  have answer: "hoare (opens (insert h H)) (answer Os T D TA ctx ver h final resp) (\<lambda>_. opens H)" for final resp
    unfolding answer_def
    by (rule hoare_bind [where R = "\<lambda>_. opens (insert h H)"], rule hoare_if, rule snap, rule hoare_return, simp,
        rule hoare_bind [OF close], rule hoare_bind [OF wr], rule hoare_return, simp)
  show ?thesis
  proof (induction left arbitrary: round env buf)
    case 0
    then show ?case using give_up by simp
  next
    case (Suc left)
    have after: "hoare (opens (insert h H)) (after_call Os T D TA ctx ver h round
        (\<lambda>env. execute_rounds Os T D TA ctx ver h left (round + 1) env buf') resp) (\<lambda>_. opens H)" for buf' resp
      unfolding after_call_def
      by (auto intro!: answer give_up Suc.IH hoare_bind [OF opens_host] hoare_if split: option.split prod.split
          simp del: execute_rounds.simps)
    show ?case
      by (simp only: execute_rounds.simps, rule hoare_bind [OF opens_call], rule hoare_case_sum, rule give_up)
        (use after in \<open>simp add: Let_def split: prod.split\<close>)
  qed
qed

lemma opens_execute:
  assumes D: "diagnostics_close D"
  shows "hoare (opens H) (twep_wr_optee_execute Os T D TA ctx request) (\<lambda>_. opens H)"
proof -
  have ses: "hoare (opens H) (execute_session Os T D TA ctx ver env) (\<lambda>_. opens H)" for ver env
    unfolding execute_session_def
  proof (rule hoare_bind [OF opens_open])
    show "hoare (\<lambda>v. case r of Inl _ \<Rightarrow> opens H v | Inr h \<Rightarrow> h \<notin> H \<and> opens (insert h H) v)
        (case r of Inl e \<Rightarrow> State_Monad.return (if e = TWEP_WR_PLATFORM_ERR_NO_MEMORY then TWEP_WR_ERR_NO_MEMORY else TWEP_WR_ERR_TEEP, None)
         | Inr h \<Rightarrow> execute_rounds Os T D TA ctx ver h TWEP_WR_OPTEE_HOST_IO_MAX_ROUNDS 0 env (teec_fresh T)) (\<lambda>_. opens H)" for r
      using opens_rounds [OF D, of _ H Os T TA ctx ver TWEP_WR_OPTEE_HOST_IO_MAX_ROUNDS 0 env "teec_fresh T"]
      by (cases r) (auto intro!: hoare_return simp: hoare_def)
  qed
  have diag: "hoare (opens H) (twep_optee_write_verified_diagnostics D ctx) (\<lambda>_. opens H)"
    using D by (simp add: diagnostics_close_def)
  show ?thesis
    unfolding twep_wr_optee_execute_def Let_def
    by (auto intro!: hoare_if hoare_return hoare_bind [OF opens_host] hoare_bind [OF diag] ses split: sum.split option.split prod.split)
qed

section \<open>A request from the embedder\<close>

text \<open>The outcome of a request in the verified mode, with any diagnostics that keep the protected objects.\<close>

lemma request_outcome:
  assumes "storage_laws A objs hobj sha" and "storage_reliable A objs hobj" and "runtime_laws objs W E"
    and "diagnostics_laws objs D" and "file_laws Os files reading writing"
    and "\<forall>p bs. files (fst v) p = Some bs \<longrightarrow> length bs < 2 ^ 32" and "\<forall>p \<in> agent_paths ctx. files (fst v) p \<noteq> Some []"
    and "cx_resolver_mode ctx = Some (ascii ''attestam-verified'')" and "cx_attestam_url ctx = Some url" and "length url < 2 ^ 32"
    and "rq_command request = Some c" and "c \<in> set app_commands"
    and "rq_app_input_len request = length (app_input_bytes request)"
    and "twep_wr_execute (\<lambda>ctx request. run_state (twep_wr_optee_execute Os T D (A, W, E, sz) ctx request))
      (Some ctx) (Some request) v = ((TWEP_WR_OK, Some resp), v')"
  shows "\<exists>agent i. rq_request_id request = Some i \<and> (\<exists>p \<in> agent_paths ctx. files (fst v) p = Some agent) \<and>
    length resp \<le> unat (max_response_bytes ctx) \<and>
    ((\<exists>n. ran_installed_app A W E sha i agent c (app_input_bytes request) n (objs (fst (snd v'))) resp) \<or>
     (\<exists>code message. resp = teep_error_response_bytes i code message c) \<or> (\<exists>m. misread m resp))"
proof -
  from assms(14) have guard: "execute_guard ctx request = TWEP_WR_OK"
    and run: "run_state (twep_wr_optee_execute Os T D (A, W, E, sz) ctx request) v = ((TWEP_WR_OK, Some resp), v')"
    and fits: "length resp \<le> unat (max_response_bytes ctx)"
    by (auto simp: twep_wr_execute_def split: if_splits prod.splits)
  from guard assms(11) obtain i where i: "rq_request_id request = Some i" "i \<noteq> []"
    and len: "length i + length c + rq_app_input_len request \<le> unat (max_request_bytes ctx)"
    by (auto simp: execute_guard_iff)
  have "unat (max_request_bytes ctx) < 2 ^ 32" using unsigned_less [of "max_request_bytes ctx"] by simp
  with len assms(13) have small: "length i < 2 ^ 32" "length (app_input_bytes request) < 2 ^ 32" by linarith+
  obtain agent where "\<exists>p \<in> agent_paths ctx. files (fst v) p = Some agent"
    "agent \<noteq> [] \<longrightarrow> host_outcome A W E sha i agent c (app_input_bytes request) (store_of objs v') resp"
    by (rule optee_execute_verified [OF assms(1-5) _ assms(8-10) i small(1) assms(11,12) small(2) run]) (use assms(6) in auto)
  with i(1) fits assms(7) show ?thesis by (fastforce simp: host_outcome_def store_of_def)
qed

text \<open>The sessions that are open after a request are those that were open before.\<close>

lemma request_sessions:
  assumes "diagnostics_close D"
    and "twep_wr_execute (\<lambda>ctx request. run_state (twep_wr_optee_execute Os T D TA ctx request)) ctx request v = (r, v')"
  shows "open_handles (snd (snd v')) = open_handles (snd (snd v))"
proof -
  have "open_handles (snd (snd v1)) = open_handles (snd (snd v))"
    if "run_state (twep_wr_optee_execute Os T D TA c rq) v = (x, v1)" for c rq x v1
    using hoareD [OF opens_execute [OF assms(1)] _ that, of "open_handles (snd (snd v))"] by (simp add: opens_def)
  with assms(2) show ?thesis
    by (auto simp: twep_wr_execute_def split: option.splits prod.splits if_splits)
qed

end
