(* ===== verification/Ree_Fields.thy ===== *)
theory Ree_Fields
  imports Ree_Cbor
begin

text \<open>
  The part of the diagnostics of the OP-TEE backend that reads CBOR
  (\<^verbatim>\<open>platform/optee-common/optee_diagnostics.c\<close>): the readers of one field of a map, and the
  validators of the protected objects that are built on them. All readers of a field have the same
  loop, which is \<open>map_lookup\<close> with what is done at the field as an argument; a loop that returns from its
  middle does so with \<open>Inl\<close>. A validator that returns false is \<open>None\<close>: its callers drop what it stored.
  Null pointers are left out; a view is \<open>None\<close> when its pointer is null.
\<close>

section \<open>Fields of a map\<close>

definition cbor_text_view_equals :: "bytes \<Rightarrow> bytes \<Rightarrow> bool" where
  "cbor_text_view_equals view text \<longleftrightarrow> length view = length text \<and> mem_compare view text = 0"

definition twep_optee_bytes_view_equals :: "bytes \<Rightarrow> bytes \<Rightarrow> bool" where
  "twep_optee_bytes_view_equals view bs \<longleftrightarrow> length view = length bs \<and> mem_compare view bs = 0"

definition cbor_read_array_len :: "cursor \<Rightarrow> (u64 \<times> cursor) option" where
  "cbor_read_array_len c = read_major c 4"

definition lookup_entry :: "(cursor \<Rightarrow> 'v option) \<Rightarrow> bytes \<Rightarrow> cursor \<Rightarrow> 'v option + cursor" where
  "lookup_entry at_field field c =
     (case twep_wr_cbor_read_text_view c of None \<Rightarrow> Inl None
      | Some (key, c1) \<Rightarrow>
        if cbor_text_view_equals key field then Inl (at_field c1)
        else case twep_wr_cbor_skip_value c1 of None \<Rightarrow> Inl None | Some c2 \<Rightarrow> Inr c2)"

definition map_lookup :: "(cursor \<Rightarrow> 'v option) \<Rightarrow> 'v option \<Rightarrow> bytes \<Rightarrow> bytes \<Rightarrow> 'v option" where
  "map_lookup at_field missing buf field =
     (case read_major (mk_cursor buf) 5 of None \<Rightarrow> None
      | Some (pairs, c) \<Rightarrow>
        (case for_loop (unat pairs) (lookup_entry at_field field) c of Inl r \<Rightarrow> r | Inr _ \<Rightarrow> missing))"

definition cbor_map_uint_field :: "bytes \<Rightarrow> bytes \<Rightarrow> u32 option" where
  "cbor_map_uint_field = map_lookup (\<lambda>c. map_option fst (twep_wr_cbor_read_uint32 c)) None"

definition cbor_map_uint64_field :: "bytes \<Rightarrow> bytes \<Rightarrow> u64 option" where
  "cbor_map_uint64_field = map_lookup (\<lambda>c. map_option fst (read_major c 0)) None"

definition cbor_map_text_field :: "bytes \<Rightarrow> bytes \<Rightarrow> bytes option" where
  "cbor_map_text_field = map_lookup (\<lambda>c. map_option fst (twep_wr_cbor_read_text_view c)) None"

definition cbor_map_bytes_field :: "bytes \<Rightarrow> bytes \<Rightarrow> bytes option" where
  "cbor_map_bytes_field = map_lookup (\<lambda>c. map_option fst (twep_wr_cbor_read_bytes_view c)) None"

definition bool_at :: "cursor \<Rightarrow> bool option" where
  "bool_at c =
     (case read_major c 7 of None \<Rightarrow> None
      | Some (v, _) \<Rightarrow> if v \<noteq> 20 \<and> v \<noteq> 21 then None else Some (v = 21))"

definition cbor_map_bool_field :: "bytes \<Rightarrow> bytes \<Rightarrow> bool option" where
  "cbor_map_bool_field = map_lookup bool_at None"

text \<open>A field that may be missing: \<open>Some None\<close> when it is.\<close>

definition cbor_map_optional_bool_field :: "bytes \<Rightarrow> bytes \<Rightarrow> bool option option" where
  "cbor_map_optional_bool_field = map_lookup (\<lambda>c. map_option Some (bool_at c)) (Some None)"

definition cbor_map_optional_text_field :: "bytes \<Rightarrow> bytes \<Rightarrow> bytes option option" where
  "cbor_map_optional_text_field =
     map_lookup (\<lambda>c. map_option (\<lambda>(v, _). Some v) (twep_wr_cbor_read_text_view c)) (Some None)"

definition cbor_map_optional_bytes_field :: "bytes \<Rightarrow> bytes \<Rightarrow> bytes option option" where
  "cbor_map_optional_bytes_field =
     map_lookup (\<lambda>c. map_option (\<lambda>(v, _). Some v) (twep_wr_cbor_read_bytes_view c)) (Some None)"

definition cbor_map_text_field_equals :: "bytes \<Rightarrow> bytes \<Rightarrow> bytes \<Rightarrow> bool" where
  "cbor_map_text_field_equals buf field expected \<longleftrightarrow>
     map_lookup (\<lambda>c. map_option (\<lambda>(v, _). cbor_text_view_equals v expected) (twep_wr_cbor_read_text_view c)) None buf field
       = Some True"

definition nonempty_item :: "cursor \<Rightarrow> unit + cursor" where
  "nonempty_item c =
     (case twep_wr_cbor_read_bytes_view c of None \<Rightarrow> Inl ()
      | Some (v, c1) \<Rightarrow> if length v = 0 then Inl () else Inr c1)"

definition cbor_map_bytes_array_valid :: "bytes \<Rightarrow> bytes \<Rightarrow> bool" where
  "cbor_map_bytes_array_valid buf field \<longleftrightarrow>
     map_lookup (\<lambda>c. case cbor_read_array_len c of None \<Rightarrow> None
       | Some (items, c1) \<Rightarrow> (case for_loop (unat items) nonempty_item c1 of Inl _ \<Rightarrow> None | Inr _ \<Rightarrow> Some ())) None buf field
       = Some ()"

text \<open>The loop returns the answer as soon as it is known.\<close>

definition equal_item :: "bytes \<Rightarrow> cursor \<Rightarrow> bool + cursor" where
  "equal_item expected c =
     (case twep_wr_cbor_read_bytes_view c of None \<Rightarrow> Inl False
      | Some (v, c1) \<Rightarrow> if twep_optee_bytes_view_equals v expected then Inl True else Inr c1)"

definition cbor_map_bytes_array_contains :: "bytes \<Rightarrow> bytes \<Rightarrow> bytes \<Rightarrow> bool" where
  "cbor_map_bytes_array_contains buf field expected \<longleftrightarrow>
     map_lookup (\<lambda>c. case cbor_read_array_len c of None \<Rightarrow> None
       | Some (items, c1) \<Rightarrow> Some (case for_loop (unat items) (equal_item expected) c1 of Inl b \<Rightarrow> b | Inr _ \<Rightarrow> False)) None buf field
       = Some True"

definition cbor_top_level_map_well_formed :: "bytes \<Rightarrow> bool" where
  "cbor_top_level_map_well_formed buf \<longleftrightarrow>
     length buf \<noteq> 0 \<and> read_major (mk_cursor buf) 5 \<noteq> None \<and>
     (case twep_wr_cbor_skip_value (mk_cursor buf) of None \<Rightarrow> False | Some c \<Rightarrow> coff c = length buf)"

section \<open>The key identifier of a signed message\<close>

definition kid_entry :: "cursor \<Rightarrow> bytes option + cursor" where
  "kid_entry c =
     (case twep_wr_cbor_read_head c of None \<Rightarrow> Inl None
      | Some (key_major, key_value, c1) \<Rightarrow>
        if key_major = 0 \<and> key_value = 4 then
          Inl (case twep_wr_cbor_read_bytes_view c1 of None \<Rightarrow> None | Some (kid, _) \<Rightarrow> if length kid \<noteq> 0 then Some kid else None)
        else case twep_wr_cbor_skip_value c1 of None \<Rightarrow> Inl None | Some c2 \<Rightarrow> Inr c2)"

definition cose_sign1_unprotected_kid :: "bytes \<Rightarrow> bytes option" where
  "cose_sign1_unprotected_kid buf = do {
     ensure (length buf \<noteq> 0);
     (tag, c) \<leftarrow> read_major (mk_cursor buf) 6;
     ensure (tag = 18);
     (items, c) \<leftarrow> cbor_read_array_len c;
     ensure (items = 4);
     c \<leftarrow> twep_wr_cbor_skip_value c;
     (pairs, c) \<leftarrow> read_major c 5;
     case for_loop (unat pairs) kid_entry c of Inl r \<Rightarrow> r | Inr _ \<Rightarrow> None }"

section \<open>Credentials\<close>

definition SHA256_DIGEST_LENGTH :: nat where
  "SHA256_DIGEST_LENGTH = 32"

text \<open>The issuer, the key identifier and the epoch of a credential; \<open>[]\<close> stands for no expected entry.\<close>

definition validate_protected_public_key_credential :: "bytes \<Rightarrow> bytes \<Rightarrow> bytes \<Rightarrow> (bytes \<times> bytes \<times> u32) option" where
  "validate_protected_public_key_credential buf purpose entry_id = do {
     ensure (cbor_top_level_map_well_formed buf);
     entry \<leftarrow> cbor_map_bytes_field buf (ascii ''entry_id'');
     issuer \<leftarrow> cbor_map_bytes_field buf (ascii ''issuer_id'');
     ensure (length issuer \<noteq> 0);
     credential_kid \<leftarrow> cbor_map_bytes_field buf (ascii ''kid'');
     ensure (length credential_kid \<noteq> 0);
     ensure (cbor_map_text_field_equals buf (ascii ''purpose'') purpose);
     ensure (cbor_map_text_field_equals buf (ascii ''alg'') (ascii ''ESP256''));
     ensure (cbor_map_text_field_equals buf (ascii ''crv'') (ascii ''P-256''));
     not_before \<leftarrow> cbor_map_uint_field buf (ascii ''not_before'');
     not_after \<leftarrow> cbor_map_uint_field buf (ascii ''not_after'');
     provisioning_epoch \<leftarrow> cbor_map_uint_field buf (ascii ''provisioning_epoch'');
     x \<leftarrow> cbor_map_bytes_field buf (ascii ''x'');
     ensure (length x = SHA256_DIGEST_LENGTH);
     y \<leftarrow> cbor_map_bytes_field buf (ascii ''y'');
     ensure (length y = SHA256_DIGEST_LENGTH);
     ensure (\<not> not_before > not_after);
     ensure (provisioning_epoch \<noteq> 0);
     ensure (\<not> (entry_id \<noteq> [] \<and> \<not> twep_optee_bytes_view_equals entry entry_id));
     Some (issuer, credential_kid, provisioning_epoch) }"

record credential_array_info =
  total_entries :: u32
  matched_entries :: u32
  selected_provisioning_epoch :: u32
  selected_issuer_id :: "bytes option"
  selected_kid :: "bytes option"

definition no_credential :: credential_array_info where
  "no_credential = \<lparr>total_entries = 0, matched_entries = 0, selected_provisioning_epoch = 0, selected_issuer_id = None,
     selected_kid = None\<rparr>"

definition select_credential :: "bytes \<times> bytes \<times> u32 \<Rightarrow> credential_array_info \<Rightarrow> credential_array_info" where
  "select_credential = (\<lambda>(issuer_id, kid, provisioning_epoch) info.
     let info = info\<lparr>matched_entries := matched_entries info + 1\<rparr> in
     if selected_kid info = None \<or> provisioning_epoch \<ge> selected_provisioning_epoch info
     then info\<lparr>selected_provisioning_epoch := provisioning_epoch, selected_issuer_id := Some issuer_id, selected_kid := Some kid\<rparr>
     else info)"

definition item_bytes :: "cursor \<Rightarrow> cursor \<Rightarrow> bytes" where
  "item_bytes c c' = take (coff c' - coff c) (drop (coff c) (cbuf c))"

definition credential_entry ::
  "bytes \<Rightarrow> bytes \<Rightarrow> cursor \<times> bool \<times> credential_array_info \<Rightarrow> unit + cursor \<times> bool \<times> credential_array_info" where
  "credential_entry purpose entry_id = (\<lambda>(c, found_match, info).
     case twep_wr_cbor_skip_value c of None \<Rightarrow> Inl ()
     | Some c2 \<Rightarrow>
       (case validate_protected_public_key_credential (item_bytes c c2) purpose [] of None \<Rightarrow> Inl ()
        | Some cred \<Rightarrow>
          (case cbor_map_bytes_field (item_bytes c c2) (ascii ''entry_id'') of None \<Rightarrow> Inl ()
           | Some entry \<Rightarrow>
             if \<not> twep_optee_bytes_view_equals entry entry_id then Inr (c2, found_match, info)
             else Inr (c2, True, select_credential cred info))))"

definition credential_array :: "bytes \<Rightarrow> bytes \<Rightarrow> cursor \<Rightarrow> credential_array_info option" where
  "credential_array purpose entry_id c = do {
     (items, c) \<leftarrow> cbor_read_array_len c;
     ensure (items \<noteq> 0);
     case for_loop (unat items) (credential_entry purpose entry_id) (c, False, no_credential\<lparr>total_entries := ucast items\<rparr>) of
       Inl _ \<Rightarrow> None
     | Inr (_, found_match, info) \<Rightarrow> if found_match then Some info else None }"

definition cbor_map_credential_array_valid :: "bytes \<Rightarrow> bytes \<Rightarrow> bytes \<Rightarrow> bytes \<Rightarrow> credential_array_info option" where
  "cbor_map_credential_array_valid buf field purpose entry_id =
     (if \<not> cbor_top_level_map_well_formed buf then None
      else map_lookup (credential_array purpose entry_id) None buf field)"

definition attestam_entry_id :: bytes where
  "attestam_entry_id = ascii ''tam-entry''"

definition suit_entry_id :: bytes where
  "suit_entry_id = ascii ''suit-entry''"

text \<open>The epoch of the store, and what was selected for the two purposes.\<close>

definition validate_protected_credential_store ::
  "bytes \<Rightarrow> (u32 \<times> credential_array_info \<times> credential_array_info) option" where
  "validate_protected_credential_store buf = do {
     ensure (cbor_top_level_map_well_formed buf);
     schema_version \<leftarrow> cbor_map_uint_field buf (ascii ''schema_version'');
     ensure (schema_version = 1);
     epoch \<leftarrow> cbor_map_uint_field buf (ascii ''store_epoch'');
     ensure (epoch \<noteq> 0);
     attestam_info \<leftarrow> cbor_map_credential_array_valid buf (ascii ''attestam_message_verification_keys'')
       (ascii ''attestam-message-verification'') attestam_entry_id;
     suit_info \<leftarrow> cbor_map_credential_array_valid buf (ascii ''suit_content_verification_keys'')
       (ascii ''suit-content-verification'') suit_entry_id;
     Some (epoch, attestam_info, suit_info) }"

section \<open>Policy objects\<close>

text \<open>Whether both issuers are on the list.\<close>

definition validate_protected_issuer_allowlist :: "bytes \<Rightarrow> bytes option \<Rightarrow> bytes option \<Rightarrow> bool option" where
  "validate_protected_issuer_allowlist buf attestam_issuer_id suit_issuer_id = do {
     ensure (cbor_top_level_map_well_formed buf);
     schema_version \<leftarrow> cbor_map_uint_field buf (ascii ''schema_version'');
     ensure (schema_version = 1);
     ensure (cbor_map_bytes_array_valid buf (ascii ''issuer_ids''));
     Some (case (attestam_issuer_id, suit_issuer_id) of
         (Some a, Some s) \<Rightarrow> cbor_map_bytes_array_contains buf (ascii ''issuer_ids'') a \<and>
           cbor_map_bytes_array_contains buf (ascii ''issuer_ids'') s
       | _ \<Rightarrow> False) }"

definition validate_protected_store_freshness :: "bytes \<Rightarrow> u32 option" where
  "validate_protected_store_freshness buf = do {
     ensure (cbor_top_level_map_well_formed buf);
     schema_version \<leftarrow> cbor_map_uint_field buf (ascii ''schema_version'');
     ensure (schema_version = 1);
     cbor_map_uint_field buf (ascii ''max_store_epoch'') }"

text \<open>Whether the two entries are revoked.\<close>

definition validate_protected_revocation_state :: "bytes \<Rightarrow> (bool \<times> bool) option" where
  "validate_protected_revocation_state buf = do {
     ensure (cbor_top_level_map_well_formed buf);
     schema_version \<leftarrow> cbor_map_uint_field buf (ascii ''schema_version'');
     ensure (schema_version = 1);
     ensure (cbor_map_bytes_array_valid buf (ascii ''revoked_entry_ids''));
     Some (cbor_map_bytes_array_contains buf (ascii ''revoked_entry_ids'') attestam_entry_id,
       cbor_map_bytes_array_contains buf (ascii ''revoked_entry_ids'') suit_entry_id) }"

section \<open>Evidence\<close>

record evidence =
  verifier_result :: bytes
  decision_source :: bytes
  nonce_match :: bool
  cnf_key_match :: bool
  platform_match :: bool
  tam_response_verified :: bool
  challenge_response_bound :: bool
  acceptance_generation_present :: bool
  acceptance_generation :: u64

definition no_evidence :: evidence where
  "no_evidence = \<lparr>verifier_result = ascii ''none'', decision_source = ascii ''none'', nonce_match = False, cnf_key_match = False,
     platform_match = False, tam_response_verified = False, challenge_response_bound = False,
     acceptance_generation_present = False, acceptance_generation = 0\<rparr>"

definition legacy_verifier_result :: "bytes \<Rightarrow> bytes option" where
  "legacy_verifier_result buf =
     (let says = cbor_map_text_field_equals buf (ascii ''verifier_result'') in
      if says (ascii ''affirming'') then Some (ascii ''affirming'')
      else if says (ascii ''contraindicated'') then Some (ascii ''contraindicated'')
      else if says (ascii ''warning'') then Some (ascii ''warning'')
      else if \<not> says (ascii ''none'') then None else Some (ascii ''none''))"

definition validate_verified_evidence_result :: "bytes \<Rightarrow> evidence option" where
  "validate_verified_evidence_result buf = do {
     ensure (cbor_top_level_map_well_formed buf);
     schema_version \<leftarrow> cbor_map_uint_field buf (ascii ''schema_version'');
     ensure (\<not> (schema_version \<noteq> 1 \<and> schema_version \<noteq> 2));
     if schema_version = 2 then do {
       ensure (cbor_map_text_field_equals buf (ascii ''decision_source'') (ascii ''attestam-signed-update''));
       verified \<leftarrow> cbor_map_bool_field buf (ascii ''tam_response_verified'');
       bound \<leftarrow> cbor_map_bool_field buf (ascii ''challenge_response_bound'');
       gen \<leftarrow> cbor_map_uint64_field buf (ascii ''acceptance_generation'');
       Some (no_evidence\<lparr>decision_source := ascii ''attestam-signed-update'', tam_response_verified := verified,
         challenge_response_bound := bound, acceptance_generation_present := True, acceptance_generation := gen\<rparr>) }
     else do {
       result \<leftarrow> legacy_verifier_result buf;
       nonce \<leftarrow> cbor_map_optional_bool_field buf (ascii ''nonce_match'');
       cnf_key \<leftarrow> cbor_map_optional_bool_field buf (ascii ''cnf_key_match'');
       platform \<leftarrow> cbor_map_optional_bool_field buf (ascii ''platform_match'');
       Some (no_evidence\<lparr>decision_source := ascii ''legacy-direct-result'', verifier_result := result,
         nonce_match := (nonce = Some True), cnf_key_match := (cnf_key = Some True),
         platform_match := (platform = Some True)\<rparr>) } }"

definition optee_acceptance_slot_generation_bytes :: "bytes \<Rightarrow> u64 option" where
  "optee_acceptance_slot_generation_bytes slot = do {
     ensure (length slot \<noteq> 0);
     ensure (cbor_top_level_map_well_formed slot);
     schema_version \<leftarrow> cbor_map_uint_field slot (ascii ''schema_version'');
     ensure (schema_version = 1);
     gen \<leftarrow> cbor_map_uint64_field slot (ascii ''generation'');
     ensure (gen \<noteq> 0);
     Some gen }"

section \<open>Agent identity\<close>

text \<open>Whether the backend, the runtime and the agent are the expected ones, and the expected measurement.\<close>

definition validate_protected_agent_identity :: "bytes \<Rightarrow> bytes \<Rightarrow> (bool \<times> bool \<times> bool \<times> bytes option) option" where
  "validate_protected_agent_identity backend buf = do {
     ensure (cbor_top_level_map_well_formed buf);
     schema_version \<leftarrow> cbor_map_uint_field buf (ascii ''schema_version'');
     ensure (schema_version = 1);
     platform_backend \<leftarrow> cbor_map_text_field buf (ascii ''platform_backend'');
     runtime_location \<leftarrow> cbor_map_optional_text_field buf (ascii ''runtime_location'');
     teep_agent_location \<leftarrow> cbor_map_optional_text_field buf (ascii ''teep_agent_location'');
     measurement \<leftarrow> cbor_map_optional_bytes_field buf (ascii ''measurement_sha256'');
     ensure (case measurement of None \<Rightarrow> True | Some m \<Rightarrow> length m = SHA256_DIGEST_LENGTH);
     Some (cbor_text_view_equals platform_backend backend,
       (case runtime_location of None \<Rightarrow> False | Some l \<Rightarrow> cbor_text_view_equals l (ascii ''optee-ta'')),
       (case teep_agent_location of None \<Rightarrow> False | Some l \<Rightarrow> cbor_text_view_equals l (ascii ''optee-ta'')),
       measurement) }"

section \<open>Maps as association lists\<close>

text \<open>\<open>skips v\<close>: the skipper passes over \<open>v\<close>, whatever follows.\<close>

definition skips :: "bytes \<Rightarrow> bool" where
  "skips v \<longleftrightarrow> (\<forall>c zs. rest c = v @ zs \<longrightarrow> twep_wr_cbor_skip_value c = Some (adv (length v) c))"

lemma skipsD: "skips v \<Longrightarrow> rest c = v @ zs \<Longrightarrow> twep_wr_cbor_skip_value c = Some (adv (length v) c)"
  by (simp add: skips_def)

lemma read_head_write:
  assumes "m < 8" and "n \<le> 0xffffffff" and "rest c = cbor_write_type_len m n @ zs"
  shows "twep_wr_cbor_read_head c = Some (m, n, adv (length (cbor_write_type_len m n)) c)"
  using ta_ree.rd_wr [OF assms] by (auto simp: read_major_def split: option.splits if_splits)

lemma skips_uint: "n \<le> 0xffffffff \<Longrightarrow> skips (cbor_write_type_len 0 n)"
  unfolding skips_def by (intro allI impI, subst skip_value_unfold) (simp add: skip_body_def read_head_write [of 0])

lemma skips_string:
  assumes "m = 2 \<or> m = 3" and "length s < 2 ^ 32"
  shows "skips (cbor_write_type_len m (of_nat (length s)) @ s)"
  unfolding skips_def
proof (intro allI impI)
  fix c zs assume "rest c = (cbor_write_type_len m (of_nat (length s)) @ s) @ zs"
  then have r: "rest c = cbor_write_type_len m (of_nat (length s)) @ s @ zs" by simp
  have "twep_wr_cbor_read_head c = Some (m, of_nat (length s), adv (length (cbor_write_type_len m (of_nat (length s)))) c)"
    by (rule read_head_write [OF _ _ r]) (use assms in \<open>auto simp: u32_le\<close>)
  moreover have "take_view (of_nat (length s)) (adv (length (cbor_write_type_len m (of_nat (length s)))) c) =
      Some (s, adv (length (cbor_write_type_len m (of_nat (length s))) + length s) c)"
    using assms(2) r by (simp add: take_view_rest remaining_rest unat_of_nat_u64)
  ultimately show "twep_wr_cbor_skip_value c = Some (adv (length (cbor_write_type_len m (of_nat (length s)) @ s)) c)"
    using assms(1) by (subst skip_value_unfold) (auto simp: skip_body_def)
qed

lemma skips_text: "length s < 2 ^ 32 \<Longrightarrow> skips (cbor_write_text s)"
  and skips_bstr: "length s < 2 ^ 32 \<Longrightarrow> skips (cbor_write_bstr s)"
  using skips_string [of 3 s] skips_string [of 2 s] by (simp_all add: cbor_write_text_def cbor_write_bstr_def)

lemma skips_bool: "skips [0xf5]" "skips [0xf4]"
  unfolding skips_def by (subst skip_value_unfold, simp add: skip_body_def read_head_rest)+

lemma skips_pairs:
  "\<forall>(a, b) \<in> set ps. skips a \<and> skips b \<Longrightarrow> rest c = concat (map (\<lambda>(a, b). a @ b) ps) @ zs \<Longrightarrow>
   for_ok (length ps) (\<lambda>c. case twep_wr_cbor_skip_value c of None \<Rightarrow> None | Some c' \<Rightarrow> twep_wr_cbor_skip_value c') c =
     Some (adv (length (concat (map (\<lambda>(a, b). a @ b) ps))) c)"
proof (induction ps arbitrary: c)
  case (Cons p ps)
  obtain a b where p: "p = (a, b)" by (cases p)
  with Cons.prems have s: "skips a" "skips b" and r: "rest c = a @ b @ concat (map (\<lambda>(a, b). a @ b) ps) @ zs" by auto
  have "twep_wr_cbor_skip_value (adv (length a) c) = Some (adv (length b) (adv (length a) c))"
    by (rule skipsD [OF s(2)]) (use r in simp)
  with skipsD [OF s(1) r] Cons r p show ?case by (simp add: for_ok_Suc)
qed simp

lemma skips_map:
  assumes "\<forall>(a, b) \<in> set ps. skips a \<and> skips b" and "length ps < 2 ^ 32"
  shows "skips (cbor_write_type_len 5 (of_nat (length ps)) @ concat (map (\<lambda>(a, b). a @ b) ps))"
  unfolding skips_def
proof (intro allI impI)
  fix c zs
  let ?h = "cbor_write_type_len 5 (of_nat (length ps))" and ?b = "concat (map (\<lambda>(a, b). a @ b) ps)"
  assume "rest c = (?h @ ?b) @ zs"
  then have r: "rest c = ?h @ ?b @ zs" by simp
  have h: "twep_wr_cbor_read_head c = Some (5, of_nat (length ps), adv (length ?h) c)"
    by (rule read_head_write [OF _ _ r]) (use assms(2) in \<open>auto simp: u32_le\<close>)
  have l: "for_ok (length ps) (\<lambda>c. case twep_wr_cbor_skip_value c of None \<Rightarrow> None | Some c' \<Rightarrow> twep_wr_cbor_skip_value c')
      (adv (length ?h) c) = Some (adv (length ?b) (adv (length ?h) c))"
    by (rule skips_pairs [OF assms(1)]) (use r in simp)
  have "unat (of_nat (length ps) :: u64) = length ps" using assms(2) by (intro unat_of_nat_u64) simp
  with h l show "twep_wr_cbor_skip_value c = Some (adv (length (?h @ ?b)) c)"
    by (subst skip_value_unfold) (simp add: skip_body_def)
qed

lemma skips_items:
  "\<forall>a \<in> set xs. skips a \<Longrightarrow> rest c = concat xs @ zs \<Longrightarrow> for_ok (length xs) twep_wr_cbor_skip_value c = Some (adv (length (concat xs)) c)"
proof (induction xs arbitrary: c)
  case (Cons x xs)
  then have "twep_wr_cbor_skip_value c = Some (adv (length x) c)" by (auto intro: skipsD)
  with Cons show ?case by (simp add: for_ok_Suc)
qed simp

lemma skips_array:
  assumes "\<forall>a \<in> set xs. skips a" and "length xs < 2 ^ 32"
  shows "skips (cbor_write_type_len 4 (of_nat (length xs)) @ concat xs)"
  unfolding skips_def
proof (intro allI impI)
  fix c zs
  let ?h = "cbor_write_type_len 4 (of_nat (length xs))"
  assume "rest c = (?h @ concat xs) @ zs"
  then have r: "rest c = ?h @ concat xs @ zs" by simp
  have h: "twep_wr_cbor_read_head c = Some (4, of_nat (length xs), adv (length ?h) c)"
    by (rule read_head_write [OF _ _ r]) (use assms(2) in \<open>auto simp: u32_le\<close>)
  have l: "for_ok (length xs) twep_wr_cbor_skip_value (adv (length ?h) c) = Some (adv (length (concat xs)) (adv (length ?h) c))"
    by (rule skips_items [OF assms(1)]) (use r in simp)
  have "unat (of_nat (length xs) :: u64) = length xs" using assms(2) by (intro unat_of_nat_u64) simp
  with h l show "twep_wr_cbor_skip_value c = Some (adv (length (?h @ concat xs)) c)"
    by (subst skip_value_unfold) (simp add: skip_body_def)
qed

text \<open>\<open>map_bytes es\<close>: a map with the keys and the encoded values of \<open>es\<close>.\<close>

definition entry_bytes :: "string \<times> bytes \<Rightarrow> bytes" where
  "entry_bytes e = cbor_write_text (ascii (fst e)) @ snd e"

definition map_bytes :: "(string \<times> bytes) list \<Rightarrow> bytes" where
  "map_bytes es = cbor_write_type_len 5 (of_nat (length es)) @ concat (map entry_bytes es)"

definition map_ok :: "(string \<times> bytes) list \<Rightarrow> bool" where
  "map_ok es \<longleftrightarrow> length es < 2 ^ 32 \<and> (\<forall>(k, v) \<in> set es. length k < 2 ^ 32 \<and> skips v)"

lemma text_equals [simp]: "cbor_text_view_equals a b \<longleftrightarrow> a = b" "twep_optee_bytes_view_equals a b \<longleftrightarrow> a = b"
  by (auto simp: cbor_text_view_equals_def twep_optee_bytes_view_equals_def mem_compare_eq0)

lemma lookup_entry_write:
  assumes "rest c = entry_bytes (k, v) @ zs" and "length k < 2 ^ 32" and "skips v"
  shows "lookup_entry g (ascii f) c =
    (if k = f then Inl (g (adv (length (cbor_write_text (ascii k))) c)) else Inr (adv (length (entry_bytes (k, v))) c))"
proof -
  let ?t = "cbor_write_text (ascii k)"
  from assms(1) have r: "rest c = ?t @ v @ zs" by (simp add: entry_bytes_def)
  have "twep_wr_cbor_read_text_view c = Some (ascii k, adv (length ?t) c)"
    by (rule ree_value_write(1) [OF r]) (use assms(2) in simp)
  moreover have "twep_wr_cbor_skip_value (adv (length ?t) c) = Some (adv (length v) (adv (length ?t) c))"
    by (rule skipsD [OF assms(3)]) (use r in simp)
  ultimately show ?thesis by (simp add: lookup_entry_def entry_bytes_def)
qed

lemma lookup_loop:
  assumes "\<forall>(k, v) \<in> set es. length k < 2 ^ 32 \<and> skips v" and "rest c = concat (map entry_bytes es) @ zs"
  shows "map_of es f = None \<Longrightarrow> for_loop (length es) (lookup_entry g (ascii f)) c = Inr (adv (length (concat (map entry_bytes es))) c)"
    and "map_of es f = Some v \<Longrightarrow> (\<And>c zs. rest c = v @ zs \<Longrightarrow> g c = r) \<Longrightarrow> for_loop (length es) (lookup_entry g (ascii f)) c = Inl r"
  using assms
proof (induction es arbitrary: c)
  case (Cons e es)
  obtain k u where e: "e = (k, u)" by (cases e)
  {
    case 1
    then have "lookup_entry g (ascii f) c = Inr (adv (length (entry_bytes e)) c)"
      using e by (subst e, subst lookup_entry_write) (auto split: if_splits)
    with 1 e Cons.IH(1) [of "adv (length (entry_bytes e)) c"] show ?case by (auto simp: for_loop_Suc split: if_splits)
  next
    case 2
    have le: "lookup_entry g (ascii f) c =
        (if k = f then Inl (g (adv (length (cbor_write_text (ascii k))) c)) else Inr (adv (length (entry_bytes (k, u))) c))"
      by (rule lookup_entry_write) (use 2 e in auto)
    show ?case
    proof (cases "k = f")
      case True
      with 2(1) e have "u = v" by simp
      moreover have "rest (adv (length (cbor_write_text (ascii k))) c) = u @ concat (map entry_bytes es) @ zs"
        using 2(4) e by (simp add: entry_bytes_def [of "(k, u)"])
      ultimately show ?thesis using 2(2) le True by (simp add: for_loop_Suc)
    next
      case False
      then show ?thesis using 2 le e Cons.IH(2) [of "adv (length (entry_bytes e)) c"] by (auto simp: for_loop_Suc)
    qed
  }
qed simp_all

lemma map_head:
  assumes "length es < 2 ^ 32"
  shows "read_major (mk_cursor (map_bytes es)) 5 =
    Some (of_nat (length es), adv (length (cbor_write_type_len 5 (of_nat (length es)))) (mk_cursor (map_bytes es)))"
  by (rule ta_ree.rd_wr [where zs = "concat (map entry_bytes es)"]) (use assms in \<open>auto simp: u32_le map_bytes_def\<close>)

lemma map_lookup_write:
  assumes "map_ok es"
  shows "map_of es f = Some v \<Longrightarrow> (\<And>c zs. rest c = v @ zs \<Longrightarrow> g c = r) \<Longrightarrow> map_lookup g m (map_bytes es) (ascii f) = r"
    and "map_of es f = None \<Longrightarrow> map_lookup g m (map_bytes es) (ascii f) = m"
proof -
  let ?c = "adv (length (cbor_write_type_len 5 (of_nat (length es)))) (mk_cursor (map_bytes es))"
  have es: "length es < 2 ^ 32" "\<forall>(k, v) \<in> set es. length k < 2 ^ 32 \<and> skips v" using assms by (auto simp: map_ok_def)
  have r: "rest ?c = concat (map entry_bytes es) @ []" by (simp add: map_bytes_def)
  have n: "unat (of_nat (length es) :: u64) = length es" using es(1) by (intro unat_of_nat_u64) simp
  show "map_lookup g m (map_bytes es) (ascii f) = r" if "map_of es f = Some v" "\<And>c zs. rest c = v @ zs \<Longrightarrow> g c = r"
    using lookup_loop(2) [OF es(2) r that] map_head [OF es(1)] n by (simp add: map_lookup_def)
  show "map_lookup g m (map_bytes es) (ascii f) = m" if "map_of es f = None"
    using lookup_loop(1) [OF es(2) r that, of g] map_head [OF es(1)] n by (simp add: map_lookup_def)
qed

lemma skips_map_bytes:
  assumes "map_ok es"
  shows "skips (map_bytes es)"
proof -
  let ?ps = "map (\<lambda>(k, v). (cbor_write_text (ascii k), v)) es"
  have "entry_bytes = (\<lambda>(a, b). a @ b) \<circ> (\<lambda>(k, v). (cbor_write_text (ascii k), v))" by (auto simp: entry_bytes_def)
  then have b: "map_bytes es = cbor_write_type_len 5 (of_nat (length ?ps)) @ concat (map (\<lambda>(a, b). a @ b) ?ps)"
    by (simp add: map_bytes_def)
  show ?thesis unfolding b by (rule skips_map) (use assms in \<open>auto simp: map_ok_def skips_text\<close>)
qed

lemma map_well_formed:
  assumes "map_ok es"
  shows "cbor_top_level_map_well_formed (map_bytes es)"
proof -
  from skips_map_bytes [OF assms] have "twep_wr_cbor_skip_value (mk_cursor (map_bytes es)) = Some (adv (length (map_bytes es)) (mk_cursor (map_bytes es)))"
    by (rule skipsD [where zs = "[]"]) simp
  moreover have "map_bytes es \<noteq> []" by (simp add: map_bytes_def cbor_write_type_len_def)
  ultimately show ?thesis
    using map_head [of es] assms by (simp add: cbor_top_level_map_well_formed_def map_ok_def)
qed

lemma uint_at:
  "n \<le> 0xffffffff \<Longrightarrow> rest c = cbor_write_type_len 0 n @ zs \<Longrightarrow> twep_wr_cbor_read_uint32 c = Some (ucast n, adv (length (cbor_write_type_len 0 n)) c)"
  by (simp add: twep_wr_cbor_read_uint32_def ta_ree.rd_wr)

lemma bool_at_write: "rest c = 0xf5 # zs \<Longrightarrow> bool_at c = Some True" "rest c = 0xf4 # zs \<Longrightarrow> bool_at c = Some False"
  by (simp_all add: bool_at_def read_major_def read_head_rest)

text \<open>What the readers find in a map, by the encoding of the value.\<close>

lemma field_write:
  assumes "map_ok es"
  shows "map_of es f = Some (cbor_write_bstr v) \<Longrightarrow> length v < 2 ^ 32 \<Longrightarrow> cbor_map_bytes_field (map_bytes es) (ascii f) = Some v"
    and "map_of es f = Some (cbor_write_text v) \<Longrightarrow> length v < 2 ^ 32 \<Longrightarrow> cbor_map_text_field (map_bytes es) (ascii f) = Some v"
    and "map_of es f = Some (cbor_write_text v) \<Longrightarrow> length v < 2 ^ 32 \<Longrightarrow>
      cbor_map_text_field_equals (map_bytes es) (ascii f) e \<longleftrightarrow> v = e"
    and "map_of es f = Some (cbor_write_type_len 0 n) \<Longrightarrow> n \<le> 0xffffffff \<Longrightarrow> cbor_map_uint_field (map_bytes es) (ascii f) = Some (ucast n)"
    and "map_of es f = Some (cbor_write_type_len 0 n) \<Longrightarrow> n \<le> 0xffffffff \<Longrightarrow> cbor_map_uint64_field (map_bytes es) (ascii f) = Some n"
    and "map_of es f = Some [0xf5] \<Longrightarrow> cbor_map_bool_field (map_bytes es) (ascii f) = Some True"
    and "map_of es f = Some [0xf4] \<Longrightarrow> cbor_map_bool_field (map_bytes es) (ascii f) = Some False"
  unfolding cbor_map_bytes_field_def cbor_map_text_field_def cbor_map_uint_field_def cbor_map_uint64_field_def cbor_map_bool_field_def
    cbor_map_text_field_equals_def
  by (subst map_lookup_write(1) [OF assms], assumption, simp add: ree_value_write uint_at ta_ree.rd_wr bool_at_write, simp)+

lemmas skips_values = skips_uint skips_text skips_bstr skips_bool

section \<open>The selected credential\<close>

text \<open>The items of an array, each with what the validator reads from it.\<close>

type_synonym credential = "bytes \<times> bytes \<times> bytes \<times> u32"

definition read_credential :: "bytes \<Rightarrow> bytes \<Rightarrow> credential option" where
  "read_credential purpose item = do {
     cred \<leftarrow> validate_protected_public_key_credential item purpose [];
     entry \<leftarrow> cbor_map_bytes_field item (ascii ''entry_id'');
     Some (entry, cred) }"

fun read_credentials :: "nat \<Rightarrow> bytes \<Rightarrow> cursor \<Rightarrow> credential list option" where
  "read_credentials 0 purpose c = Some []"
| "read_credentials (Suc n) purpose c = do {
     c2 \<leftarrow> twep_wr_cbor_skip_value c;
     x \<leftarrow> read_credential purpose (item_bytes c c2);
     xs \<leftarrow> read_credentials n purpose c2;
     Some (x # xs) }"

definition credential_list :: "bytes \<Rightarrow> cursor \<Rightarrow> credential list option" where
  "credential_list purpose c = do {
     (items, c) \<leftarrow> cbor_read_array_len c;
     read_credentials (unat items) purpose c }"

definition matching :: "bytes \<Rightarrow> credential list \<Rightarrow> (bytes \<times> bytes \<times> u32) list" where
  "matching entry_id xs = map snd (filter (\<lambda>x. fst x = entry_id) xs)"

text \<open>The loop does the same as a fold over the matching credentials.\<close>

lemma credential_loop:
  "for_loop n (credential_entry purpose entry_id) (c, f, info) =
     (case read_credentials n purpose c of None \<Rightarrow> Inl ()
      | Some xs \<Rightarrow> Inr (((\<lambda>c. the (twep_wr_cbor_skip_value c)) ^^ n) c, f \<or> matching entry_id xs \<noteq> [],
          fold select_credential (matching entry_id xs) info))"
proof (induction n arbitrary: c f info)
  case (Suc n)
  then show ?case
    by (auto simp: for_loop_Suc credential_entry_def read_credential_def matching_def funpow_Suc_right
        simp del: funpow.simps split: option.splits bind_splits)
qed (simp add: matching_def)

text \<open>Of the credentials seen so far the selected one has the largest epoch, and their number is counted.\<close>

definition latest :: "(bytes \<times> bytes \<times> u32) list \<Rightarrow> credential_array_info \<Rightarrow> bool" where
  "latest ms info \<longleftrightarrow> matched_entries info = of_nat (length ms) \<and> (if ms = [] then selected_kid info = None
     else \<exists>i k p. (i, k, p) \<in> set ms \<and> selected_issuer_id info = Some i \<and> selected_kid info = Some k \<and>
       selected_provisioning_epoch info = p \<and> (\<forall>(i', k', p') \<in> set ms. p' \<le> p))"

lemma select_latest: "latest ms info \<Longrightarrow> latest (ms @ [m]) (select_credential m info)"
  by (cases m) (auto simp: latest_def select_credential_def Let_def split: if_splits)

lemma fold_latest: "latest ms info \<Longrightarrow> latest (ms @ ns) (fold select_credential ns info)"
proof (induction ns arbitrary: ms info)
  case (Cons n ns)
  from Cons.IH [OF select_latest [OF Cons.prems, of n]] show ?case by simp
qed simp

lemma fold_total [simp]: "total_entries (fold select_credential ms info) = total_entries info"
  by (induction ms arbitrary: info) (auto simp: select_credential_def Let_def)

lemma credential_array_spec:
  "credential_array purpose entry_id c =
     (case credential_list purpose c of None \<Rightarrow> None
      | Some xs \<Rightarrow> if matching entry_id xs = [] then None
          else Some (fold select_credential (matching entry_id xs) (no_credential\<lparr>total_entries := of_nat (length xs)\<rparr>)))"
proof -
  have len: "length xs = n" if "read_credentials n purpose c = Some xs" for n c xs
    using that by (induction n arbitrary: c xs) (auto split: bind_splits)
  have none: "read_credentials 0 purpose c = Some []" for c by simp
  show ?thesis
    by (auto simp: credential_array_def credential_list_def credential_loop matching_def ensure_def dest: len
        split: option.splits bind_splits prod.splits)
qed

lemma lookup_loop_bind:
  "for_loop n (lookup_entry (\<lambda>c. Option.bind (g c) k) f) c =
     (case for_loop n (lookup_entry g f) c of Inl r \<Rightarrow> Inl (Option.bind r k) | Inr c' \<Rightarrow> Inr c')"
proof (induction n arbitrary: c)
  case (Suc n)
  then show ?case by (simp add: for_loop_Suc lookup_entry_def split: option.split prod.split)
qed simp

lemma map_lookup_bind: "map_lookup (\<lambda>c. Option.bind (g c) k) None buf f = Option.bind (map_lookup g None buf f) k"
  by (simp add: map_lookup_def lookup_loop_bind split: option.split sum.split)

lemma credential_array_valid_spec:
  "cbor_map_credential_array_valid buf field purpose entry_id =
     (if \<not> cbor_top_level_map_well_formed buf then None
      else case map_lookup (credential_list purpose) None buf field of None \<Rightarrow> None
      | Some xs \<Rightarrow> if matching entry_id xs = [] then None
          else Some (fold select_credential (matching entry_id xs) (no_credential\<lparr>total_entries := of_nat (length xs)\<rparr>)))"
proof -
  let ?k = "\<lambda>xs. if matching entry_id xs = [] then None
      else Some (fold select_credential (matching entry_id xs) (no_credential\<lparr>total_entries := of_nat (length xs)\<rparr>))"
  have "credential_array purpose entry_id = (\<lambda>c. Option.bind (credential_list purpose c) ?k)"
    by (rule ext) (simp add: credential_array_spec split: option.split)
  then show ?thesis by (simp add: cbor_map_credential_array_valid_def map_lookup_bind split: option.split)
qed

lemma fold_latest_all: "latest ms (fold select_credential ms (no_credential\<lparr>total_entries := n\<rparr>))"
proof -
  have "latest [] (no_credential\<lparr>total_entries := n\<rparr>)" by (simp add: latest_def no_credential_def)
  from fold_latest [OF this, of ms] show ?thesis by simp
qed

text \<open>
  C36. The credential that the diagnostics use from the protected store. Of an array of credentials, all of which must be
  valid for the purpose, those with the expected entry identifier count, and of these one with the largest
  provisioning epoch is selected; the array is refused when no credential has the identifier.
  The total number is reported for the whole array.
\<close>

theorem latest_credential_selected:
  assumes "cbor_top_level_map_well_formed buf" and "map_lookup (credential_list purpose) None buf field = r"
  shows "(cbor_map_credential_array_valid buf field purpose entry_id \<noteq> None \<longleftrightarrow>
      (\<exists>xs. r = Some xs \<and> (\<exists>x \<in> set xs. fst x = entry_id))) \<and>
    (\<forall>info xs. cbor_map_credential_array_valid buf field purpose entry_id = Some info \<and> r = Some xs \<longrightarrow>
      latest (matching entry_id xs) info \<and> total_entries info = of_nat (length xs))"
proof -
  have "matching entry_id xs = [] \<longleftrightarrow> (\<forall>x \<in> set xs. fst x \<noteq> entry_id)" for xs
    by (auto simp: matching_def filter_empty_conv)
  with assms fold_latest_all show ?thesis
    by (auto simp: credential_array_valid_spec split: option.splits if_splits)
qed

section \<open>A concrete store\<close>

definition credential_fields :: "bytes \<Rightarrow> u64 \<Rightarrow> (string \<times> bytes) list" where
  "credential_fields kid epoch = [(''entry_id'', cbor_write_bstr [2]), (''issuer_id'', cbor_write_bstr [9]),
     (''kid'', cbor_write_bstr kid), (''purpose'', cbor_write_text [1]), (''alg'', cbor_write_text (ascii ''ESP256'')),
     (''crv'', cbor_write_text (ascii ''P-256'')), (''not_before'', cbor_write_type_len 0 0), (''not_after'', cbor_write_type_len 0 10),
     (''provisioning_epoch'', cbor_write_type_len 0 epoch), (''x'', cbor_write_bstr (replicate 32 1)),
     (''y'', cbor_write_bstr (replicate 32 2))]"

lemma credential_read:
  assumes "kid \<noteq> []" and "length kid < 2 ^ 32" and "epoch \<le> 0xffffffff" and "(ucast epoch :: u32) \<noteq> 0"
  shows "read_credential [1] (map_bytes (credential_fields kid epoch)) = Some ([2], [9], kid, ucast epoch)"
    and "skips (map_bytes (credential_fields kid epoch))"
proof -
  have ok: "map_ok (credential_fields kid epoch)"
    using assms by (simp add: map_ok_def credential_fields_def skips_values del: cbor_write_strings)
  then show "skips (map_bytes (credential_fields kid epoch))" by (rule skips_map_bytes)
  show "read_credential [1] (map_bytes (credential_fields kid epoch)) = Some ([2], [9], kid, ucast epoch)"
    unfolding read_credential_def validate_protected_public_key_credential_def
    using ok assms by (simp add: map_well_formed field_write [OF ok] credential_fields_def [THEN arg_cong [where f = map_of]]
        SHA256_DIGEST_LENGTH_def del: cbor_write_strings)
qed

lemma item_bytes_write: "rest c = b @ zs \<Longrightarrow> item_bytes c (adv (length b) c) = b"
  by (simp add: item_bytes_def rest_def [symmetric])

definition keys2 :: "(string \<times> bytes) list" where
  "keys2 = [(''keys'', cbor_write_type_len 4 2 @ map_bytes (credential_fields [3] 7) @ map_bytes (credential_fields [5] 4))]"

lemma keys2_read:
  "cbor_top_level_map_well_formed (map_bytes keys2)"
  "map_lookup (credential_list [1]) None (map_bytes keys2) (ascii ''keys'') = Some [([2], [9], [3], 7), ([2], [9], [5], 4)]"
proof -
  let ?a = "map_bytes (credential_fields [3] 7)" and ?b = "map_bytes (credential_fields [5] 4)"
  have a: "read_credential [1] ?a = Some ([2], [9], [3], 7)" "skips ?a"
    and b: "read_credential [1] ?b = Some ([2], [9], [5], 4)" "skips ?b"
    using credential_read [of "[3]" 7] credential_read [of "[5]" 4] by simp_all
  have "skips (cbor_write_type_len 4 2 @ ?a @ ?b)" using skips_array [of "[?a, ?b]"] a(2) b(2) by simp
  then have ok: "map_ok keys2" by (simp add: map_ok_def keys2_def)
  then show "cbor_top_level_map_well_formed (map_bytes keys2)" by (rule map_well_formed)
  show "map_lookup (credential_list [1]) None (map_bytes keys2) (ascii ''keys'') = Some [([2], [9], [3], 7), ([2], [9], [5], 4)]"
  proof (rule map_lookup_write(1) [OF ok])
    show "map_of keys2 ''keys'' = Some (cbor_write_type_len 4 2 @ ?a @ ?b)" by (simp add: keys2_def)
    fix c zs assume r: "rest c = (cbor_write_type_len 4 2 @ ?a @ ?b) @ zs"
    let ?c = "adv (length (cbor_write_type_len 4 2)) c"
    have h: "cbor_read_array_len c = Some (2, ?c)" using r by (simp add: cbor_read_array_len_def ta_ree.rd_wr)
    from r have r1: "rest ?c = ?a @ ?b @ zs" and r2: "rest (adv (length ?a) ?c) = ?b @ zs" by simp_all
    have "read_credentials (Suc (Suc 0)) [1] ?c = Some [([2], [9], [3], 7), ([2], [9], [5], 4)]"
      using skipsD [OF a(2) r1] skipsD [OF b(2) r2] item_bytes_write [OF r1] item_bytes_write [OF r2] a(1) b(1) by simp
    with h show "credential_list [1] c = Some [([2], [9], [3], 7), ([2], [9], [5], 4)]"
      by (simp add: credential_list_def numeral_2_eq_2 [symmetric] del: read_credentials.simps)
  qed
qed

theorem latest_credential_selected_witness:
  "\<exists>info. cbor_map_credential_array_valid (map_bytes keys2) (ascii ''keys'') [1] [2] = Some info \<and> matched_entries info = 2 \<and>
     selected_kid info = Some [3] \<and> total_entries info = 2"
proof -
  have m: "matching [2] [([2], [9], [3], 7), ([2], [9], [5], 4)] = [([9], [3], 7), ([9], [5], 4 :: u32)]" by (simp add: matching_def)
  from latest_credential_selected [OF keys2_read, of "[2]"] obtain info where
    "cbor_map_credential_array_valid (map_bytes keys2) (ascii ''keys'') [1] [2] = Some info" by auto
  with latest_credential_selected [OF keys2_read, of "[2]"] m show ?thesis
    by (auto simp: latest_def)
qed

end
