(* ===== verification/Optee_Diagnostics.thy ===== *)
theory Optee_Diagnostics
  imports Optee_Execute Ree_Fields
begin

text \<open>
  The status files that the OP-TEE backend writes for an operator
  (\<^verbatim>\<open>platform/optee-common/optee_diagnostics.c\<close>): the protected objects read through the trusted
  application, the decisions on the credentials, the evidence and the identity of the agent, and the
  five files. With them the request loop of \<open>Optee_Execute\<close> is complete, and its two results on whole
  requests are stated here for the code as it is. Every file is a list of lines \<^verbatim>\<open>key=value\<close>, cut at
  the size of its buffer.
\<close>

section \<open>Reading from the trusted application\<close>

definition optee_measure_wasm ::
  "'o teec \<Rightarrow> ('w, 'h, 'i) trusted \<Rightarrow> bytes \<Rightarrow> (('o, 'w) machine, bytes option) state" where
  "optee_measure_wasm T TA wasm =
     (if length wasm = 0 then State_Monad.return None
      else do {
        session \<leftarrow> twep_optee_open T TA;
        case session of Inl _ \<Rightarrow> State_Monad.return None
        | Inr h \<Rightarrow> do {
            res \<leftarrow> TEEC_InvokeCommand T TA h TA_TWEP_WR_CMD_MEASURE_WASM
              [MEMREF_INPUT wasm, MEMREF_OUTPUT SHA256_DIGEST_LENGTH None, PARAM_NONE, PARAM_NONE];
            _ \<leftarrow> twep_optee_close T h;
            State_Monad.return (case res of Inl _ \<Rightarrow> None
              | Inr ps \<Rightarrow> (case received (replicate SHA256_DIGEST_LENGTH 0) ps of
                  (n, sha256) \<Rightarrow> if n = SHA256_DIGEST_LENGTH then Some sha256 else None)) } })"

text \<open>What became of the read of a protected object, and the word for it in the files.\<close>

datatype object_load = Load_Absent | Load_Malformed | Loaded bytes

definition optee_protected_object_load_status ::
  "('o, 'f) os_api \<Rightarrow> 'o teec \<Rightarrow> ('w, 'h, 'i) trusted \<Rightarrow> bytes \<Rightarrow> (('o, 'w) machine, object_load) state" where
  "optee_protected_object_load_status Os T TA object_name = do {
     r \<leftarrow> optee_sealed_read Os T TA object_name;
     State_Monad.return (case r of Inr bs \<Rightarrow> Loaded bs
       | Inl e \<Rightarrow> if e = TWEP_WR_PLATFORM_ERR_IO then Load_Absent else Load_Malformed) }"

text \<open>An object that was loaded but is refused by its validator counts as malformed.\<close>

definition checked :: "(bytes \<Rightarrow> 'a option) \<Rightarrow> object_load \<Rightarrow> 'a option" where
  "checked validate load = (case load of Loaded bs \<Rightarrow> validate bs | _ \<Rightarrow> None)"

definition load_label :: "(bytes \<Rightarrow> 'a option) \<Rightarrow> object_load \<Rightarrow> bytes" where
  "load_label validate load =
     (case load of Load_Absent \<Rightarrow> ascii ''absent'' | Load_Malformed \<Rightarrow> ascii ''malformed''
      | Loaded bs \<Rightarrow> if validate bs = None then ascii ''malformed'' else ascii ''loaded-unbound'')"

definition optee_acceptance_slot_generation ::
  "('o, 'f) os_api \<Rightarrow> 'o teec \<Rightarrow> ('w, 'h, 'i) trusted \<Rightarrow> bytes \<Rightarrow> (('o, 'w) machine, u64 option) state" where
  "optee_acceptance_slot_generation Os T TA object_name = do {
     load \<leftarrow> optee_protected_object_load_status Os T TA object_name;
     State_Monad.return (case load of
         Loaded slot \<Rightarrow> do {
           ensure (cbor_top_level_map_well_formed slot);
           schema_version \<leftarrow> cbor_map_uint_field slot (ascii ''schema_version'');
           ensure (schema_version = 1);
           gen \<leftarrow> cbor_map_uint64_field slot (ascii ''generation'');
           ensure (gen \<noteq> 0);
           Some gen }
       | _ \<Rightarrow> None) }"

text \<open>The larger of the generations that were found.\<close>

definition newer :: "u64 option \<Rightarrow> u64 option \<Rightarrow> u64 option" where
  "newer slot0 slot1 =
     (case slot1 of None \<Rightarrow> slot0
      | Some g1 \<Rightarrow> (case slot0 of None \<Rightarrow> Some g1 | Some g0 \<Rightarrow> if g1 > g0 then Some g1 else Some g0))"

definition optee_acceptance_generation ::
  "('o, 'f) os_api \<Rightarrow> 'o teec \<Rightarrow> ('w, 'h, 'i) trusted \<Rightarrow> (('o, 'w) machine, u64 option) state" where
  "optee_acceptance_generation Os T TA = do {
     slot0 \<leftarrow> optee_acceptance_slot_generation Os T TA (ascii ''teep-acceptance-state.0.cbor'');
     slot1 \<leftarrow> optee_acceptance_slot_generation Os T TA (ascii ''teep-acceptance-state.1.cbor'');
     State_Monad.return (newer slot0 slot1) }"

section \<open>Status files\<close>

definition status_text :: "nat \<Rightarrow> (string \<times> bytes) list \<Rightarrow> bytes" where
  "status_text buf_cap lines = take (buf_cap - 1) (concat (map (\<lambda>(k, v). ascii k @ ascii ''='' @ v @ [10]) lines))"

fun digits :: "nat \<Rightarrow> bytes" where
  "digits n = (if n < 10 then [of_nat (48 + n)] else digits (n div 10) @ [of_nat (48 + n mod 10)])"

text \<open>\<^verbatim>\<open>%d\<close> prints a 32-bit count as a signed number.\<close>

definition decimal :: "u32 \<Rightarrow> bytes" where
  "decimal w = (let i = sint w in if i < 0 then ascii ''-'' @ digits (nat (- i)) else digits (nat i))"

definition write_status ::
  "('o, 'f) os_api \<Rightarrow> twep_wr_context \<Rightarrow> bytes \<Rightarrow> bytes \<Rightarrow> ('o, unit) state" where
  "write_status Os ctx nm text =
     (case twep_wr_state_path ctx (ascii ''teep-agent'') (Some nm) TWEP_WR_MAX_PATH_LEN of None \<Rightarrow> State_Monad.return ()
      | Some path \<Rightarrow> do {
          _ \<leftarrow> optee_write_file_atomic Os path text;
          State_Monad.return () })"

text \<open>The text before it is put into the buffer.\<close>

definition platform_status :: "bytes \<Rightarrow> bytes" where
  "platform_status backend = concat (map (\<lambda>(k, v). ascii k @ ascii ''='' @ v @ [10])
     [(''platform-backend'', backend), (''runtime-location'', ascii ''optee-ta''), (''teep-agent-location'', ascii ''optee-ta''),
      (''catalog-resolution-location'', ascii ''optee-ta''), (''sealed-storage-security'', ascii ''tee-ree-fs-secure-storage''),
      (''sealed-storage-rollback-protected'', ascii ''false''), (''protected-storage-supported'', ascii ''true''),
      (''file-io'', ascii ''false''), (''random'', ascii ''true''), (''time'', ascii ''true'')])"

definition evidence_status :: "bytes \<Rightarrow> bytes \<Rightarrow> evidence \<Rightarrow> bool \<Rightarrow> bytes \<Rightarrow> bool \<Rightarrow> bytes" where
  "evidence_status source load ev generation_current binding affirming = status_text 768
     [(''evidence-model-ready'', ascii ''true''), (''evidence-source'', source), (''evidence-result-load'', load),
      (''evidence-verifier-result'', verifier_result ev), (''evidence-decision-source'', decision_source ev),
      (''evidence-nonce-match'', twep_wr_bool_label (nonce_match ev)),
      (''evidence-cnf-key-match'', twep_wr_bool_label (cnf_key_match ev)),
      (''evidence-platform-match'', twep_wr_bool_label (platform_match ev)),
      (''evidence-tam-response-verified'', twep_wr_bool_label (tam_response_verified ev)),
      (''evidence-challenge-response-bound'', twep_wr_bool_label (challenge_response_bound ev)),
      (''evidence-acceptance-generation-current'', twep_wr_bool_label generation_current),
      (''evidence-binding'', binding), (''evidence-affirming'', twep_wr_bool_label affirming)]"

definition agent_identity_status :: "bytes \<Rightarrow> bytes \<Rightarrow> bool \<Rightarrow> bool \<Rightarrow> bool \<Rightarrow> bytes \<Rightarrow> bytes \<Rightarrow> bytes \<Rightarrow> bool \<Rightarrow> bytes" where
  "agent_identity_status backend load backend_match runtime_match teep_agent_match measurement measurement_source binding bound =
     status_text 1024
     [(''agent-identity-model-ready'', ascii ''true''), (''platform-backend'', backend), (''runtime-location'', ascii ''optee-ta''),
      (''teep-agent-location'', ascii ''optee-ta''), (''sealed-storage-rollback-protected'', ascii ''false''),
      (''agent-identity-source'', ascii ''platform-status-ta-local''), (''agent-identity-observed'', ascii ''true''),
      (''protected-agent-identity-load'', load),
      (''protected-agent-identity-backend-match'', twep_wr_bool_label backend_match),
      (''protected-agent-identity-runtime-match'', twep_wr_bool_label runtime_match),
      (''protected-agent-identity-teep-agent-match'', twep_wr_bool_label teep_agent_match),
      (''protected-agent-identity-measurement'', measurement),
      (''protected-agent-identity-measurement-source'', measurement_source),
      (''agent-identity-binding'', binding), (''agent-identity-bound'', twep_wr_bool_label bound)]"

section \<open>Credentials\<close>

text \<open>What is known of the protected store and of the policy objects, with the key identifier observed in the input.\<close>

record credential_facts =
  has_verified_input :: bool
  store_load :: bytes
  allowlist_load :: bytes
  freshness_load :: bytes
  revocation_load :: bytes
  attestam_key_count :: u32
  suit_key_count :: u32
  issuer_allowlist_match :: bool
  protected_store_epoch_fresh :: bool
  protected_credentials_not_revoked :: bool
  protected_store_bound :: bool

definition credential_facts_of ::
  "bool \<Rightarrow> bytes option \<Rightarrow> object_load \<Rightarrow> object_load \<Rightarrow> object_load \<Rightarrow> object_load \<Rightarrow> credential_facts" where
  "credential_facts_of has_input observed_kid store allowlist freshness revocation =
     (let credentials = checked validate_protected_credential_store store;
          (epoch, attestam, suit) = (case credentials of None \<Rightarrow> (0, no_credential, no_credential) | Some x \<Rightarrow> x);
          validate_allowlist = (\<lambda>bs. validate_protected_issuer_allowlist bs (selected_issuer_id attestam) (selected_issuer_id suit));
          fresh = checked validate_protected_store_freshness freshness;
          revoked = checked validate_protected_revocation_state revocation;
          kid_match = (case (observed_kid, selected_kid attestam, selected_kid suit) of
              (Some k, Some a, Some s) \<Rightarrow> has_input \<and> length k \<noteq> 0 \<and> length a \<noteq> 0 \<and> length s \<noteq> 0 \<and> twep_optee_bytes_view_equals a k
            | _ \<Rightarrow> False) in
      \<lparr>has_verified_input = has_input,
       store_load = load_label validate_protected_credential_store store,
       allowlist_load = load_label validate_allowlist allowlist,
       freshness_load = load_label validate_protected_store_freshness freshness,
       revocation_load = load_label validate_protected_revocation_state revocation,
       attestam_key_count = total_entries attestam, suit_key_count = total_entries suit,
       issuer_allowlist_match = (checked validate_allowlist allowlist = Some True),
       protected_store_epoch_fresh = (credentials \<noteq> None \<and> (case fresh of None \<Rightarrow> False | Some m \<Rightarrow> epoch \<ge> m)),
       protected_credentials_not_revoked = (credentials \<noteq> None \<and> revoked = Some (False, False)),
       protected_store_bound = (has_input \<and> credentials \<noteq> None \<and> kid_match)\<rparr>)"

definition issuer_allowlist_bound :: "credential_facts \<Rightarrow> bool" where
  "issuer_allowlist_bound f \<longleftrightarrow> protected_store_bound f \<and> issuer_allowlist_match f"

definition store_freshness_bound :: "credential_facts \<Rightarrow> bool" where
  "store_freshness_bound f \<longleftrightarrow> protected_store_bound f \<and> protected_store_epoch_fresh f"

definition revocation_state_bound :: "credential_facts \<Rightarrow> bool" where
  "revocation_state_bound f \<longleftrightarrow> protected_store_bound f \<and> protected_credentials_not_revoked f"

definition bound_label :: "bool \<Rightarrow> bool \<Rightarrow> bytes" where
  "bound_label bound matched = (if bound then ascii ''bound'' else if matched then ascii ''matched-unbound'' else ascii ''unverified'')"

definition credential_status :: "credential_facts \<Rightarrow> bool \<Rightarrow> bytes" where
  "credential_status f trust_anchor_bound = status_text 2048
     [(''credential-model-ready'', ascii ''true''), (''verified-teep-required-credentials'', ascii ''2''),
      (''attestam-message-verification-key'', ascii ''unbound''), (''suit-content-verification-key'', ascii ''unbound''),
      (''attestam-message-verification-key-binding'', if has_verified_input f then ascii ''observed-kid-unbound'' else ascii ''no-kid''),
      (''observed-attestam-kid'', if has_verified_input f then ascii ''present'' else ascii ''none''),
      (''trust-anchor-load'', ascii ''absent''), (''protected-credential-store-load'', store_load f),
      (''protected-credential-store-attestam-message-verification-keys'', decimal (attestam_key_count f)),
      (''protected-credential-store-suit-content-verification-keys'', decimal (suit_key_count f)),
      (''protected-credential-store-attestam-key-binding'', if has_verified_input f
         then if protected_store_bound f then ascii ''observed-kid-entry-protected-storage-bound'' else ascii ''observed-kid-unbound''
         else ascii ''no-kid''),
      (''protected-credential-store-issuer-binding'', if issuer_allowlist_bound f then ascii ''bound'' else ascii ''unverified''),
      (''protected-credential-store-issuer-allowlist-match'', twep_wr_bool_label (issuer_allowlist_match f)),
      (''protected-credential-store-rotation-policy'', bound_label (store_freshness_bound f) (protected_store_epoch_fresh f)),
      (''protected-credential-store-revocation-status'', bound_label (revocation_state_bound f) (protected_credentials_not_revoked f)),
      (''protected-revocation-state-match'', twep_wr_bool_label (protected_credentials_not_revoked f)),
      (''protected-credential-store-freshness'', bound_label (store_freshness_bound f) (protected_store_epoch_fresh f)),
      (''protected-store-freshness-epoch-match'', twep_wr_bool_label (protected_store_epoch_fresh f)),
      (''platform-issuer-allowlist-load'', allowlist_load f), (''platform-store-freshness-load'', freshness_load f),
      (''platform-revocation-state-load'', revocation_load f),
      (''protected-storage-binding'', ascii ''tee-ree-fs-secure-storage''),
      (''protected-credential-store-bound'', twep_wr_bool_label (protected_store_bound f)),
      (''issuer-allowlist-bound'', twep_wr_bool_label (issuer_allowlist_bound f)),
      (''store-freshness-bound'', twep_wr_bool_label (store_freshness_bound f)),
      (''revocation-state-bound'', twep_wr_bool_label (revocation_state_bound f)),
      (''trust-anchor-bound'', twep_wr_bool_label trust_anchor_bound)]"

section \<open>Evidence and agent identity\<close>

text \<open>The evidence is affirmed when the server signed the update and the generation it names is the current one.\<close>

definition evidence_affirmed :: "evidence \<Rightarrow> bool \<Rightarrow> bool" where
  "evidence_affirmed ev generation_current \<longleftrightarrow>
     decision_source ev = ascii ''attestam-signed-update'' \<and> tam_response_verified ev \<and> challenge_response_bound ev \<and>
     generation_current"

definition generation_is_current :: "evidence \<Rightarrow> u64 option \<Rightarrow> bool" where
  "generation_is_current ev current \<longleftrightarrow> acceptance_generation_present ev \<and> current = Some (acceptance_generation ev)"

definition evidence_binding :: "evidence \<Rightarrow> bool \<Rightarrow> bytes" where
  "evidence_binding ev generation_current =
     (if evidence_affirmed ev generation_current then ascii ''bound''
      else if verifier_result ev = ascii ''affirming'' \<and> nonce_match ev \<and> cnf_key_match ev \<and> platform_match ev
      then ascii ''matched-unbound'' else ascii ''unbound'')"

text \<open>The measurement of the agent, when the protected identity expects one.\<close>

definition agent_measurement ::
  "('o, 'f) os_api \<Rightarrow> 'o teec \<Rightarrow> ('w, 'h, 'i) trusted \<Rightarrow> twep_wr_context \<Rightarrow> bytes option \<Rightarrow>
   (('o, 'w) machine, bytes \<times> bytes) state" where
  "agent_measurement Os T TA ctx expected =
     (case expected of None \<Rightarrow> State_Monad.return (ascii ''absent'', ascii ''none'')
      | Some m \<Rightarrow> if length m \<noteq> SHA256_DIGEST_LENGTH then State_Monad.return (ascii ''absent'', ascii ''none'')
        else do {
          wasm \<leftarrow> on_host (twep_optee_read_teep_agent_wasm (optee_backend Os) ctx);
          case wasm of Inl _ \<Rightarrow> State_Monad.return (ascii ''mismatch'', ascii ''optee-ta-measure-unavailable'')
          | Inr wasm \<Rightarrow> do {
              sha256 \<leftarrow> optee_measure_wasm T TA wasm;
              State_Monad.return (case sha256 of None \<Rightarrow> (ascii ''mismatch'', ascii ''optee-ta-measure-unavailable'')
                | Some d \<Rightarrow> (if mem_compare d m = 0 then ascii ''matched'' else ascii ''mismatch'', ascii ''optee-ta-measure-wasm'')) } })"

section \<open>The diagnostics\<close>

text \<open>
  The steps of the fixture that would verify the whole chain are not part of the diagnostics:
  \<^verbatim>\<open>fixture_verified\<close> is a constant of the function.
\<close>

definition fixture_verified :: bool where
  "fixture_verified = False"

definition trust_anchor_ready :: "credential_facts \<Rightarrow> bool \<Rightarrow> bool \<Rightarrow> bool" where
  "trust_anchor_ready f evidence_affirming agent_identity_bound \<longleftrightarrow>
     fixture_verified \<and> protected_store_bound f \<and> issuer_allowlist_bound f \<and> store_freshness_bound f \<and>
     revocation_state_bound f \<and> evidence_affirming \<and> agent_identity_bound"

definition verified_state :: "bool \<Rightarrow> bool \<Rightarrow> bool \<Rightarrow> bytes" where
  "verified_state evidence_affirming agent_identity_bound trust_anchor_bound =
     (let final_verified = trust_anchor_bound;
          missing_step = (if fixture_verified then ascii ''none'' else ascii ''teep.cose_outer_unverified'');
          final_missing_step = (if fixture_verified then if final_verified then ascii ''none'' else ascii ''teep.trust_anchor_unbound''
            else ascii ''teep.cose_outer_unverified'') in
      status_text 512
     [(''cose-outer-verified'', ascii ''false''), (''session-token-bound'', ascii ''false''), (''suit-auth-verified'', ascii ''false''),
      (''sequence-fresh'', ascii ''false''), (''evidence-affirming'', twep_wr_bool_label evidence_affirming),
      (''agent-identity-bound'', twep_wr_bool_label agent_identity_bound), (''fixture-verified'', ascii ''false''),
      (''trust-anchor-bound'', twep_wr_bool_label trust_anchor_bound), (''final-verified'', twep_wr_bool_label final_verified),
      (''missing-step'', missing_step), (''final-missing-step'', final_missing_step)])"

text \<open>The key identifier of the signed message that the host left in the state directory.\<close>

definition observed_kid ::
  "('o, 'f) os_api \<Rightarrow> twep_wr_context \<Rightarrow> ('o, bool \<times> bytes option) state" where
  "observed_kid Os ctx =
     (case twep_wr_state_path ctx (ascii ''teep-agent'') (Some (ascii ''verified-input.cose'')) TWEP_WR_MAX_PATH_LEN of
        None \<Rightarrow> State_Monad.return (False, None)
      | Some path \<Rightarrow> do {
          there \<leftarrow> twep_wr_file_exists (optee_backend Os) path;
          if \<not> there then State_Monad.return (False, None)
          else do {
            r \<leftarrow> twep_wr_read_file (optee_backend Os) path;
            State_Monad.return (True, case r of None \<Rightarrow> None | Some bs \<Rightarrow> cose_sign1_unprotected_kid bs) } })"

text \<open>The files, in the order in which they are written.\<close>

definition write_status_files ::
  "('o, 'f) os_api \<Rightarrow> twep_wr_context \<Rightarrow> (string \<times> bytes) list \<Rightarrow> ('o, unit) state" where
  "write_status_files Os ctx texts = foldr (\<lambda>(nm, text) m. do { _ \<leftarrow> write_status Os ctx (ascii nm) text; m }) texts
     (State_Monad.return ())"

definition write_verified_diagnostics ::
  "twep_wr_platform_info_t \<Rightarrow> ('o, 'f) os_api \<Rightarrow> 'o teec \<Rightarrow> ('w, 'h, 'i) trusted \<Rightarrow> twep_wr_context \<Rightarrow> (('o, 'w) machine, unit) state" where
  "write_verified_diagnostics info Os T TA ctx =
     (let platform = platform_status (backend_name info) in
      if length platform \<ge> 512 then State_Monad.return ()
      else if cx_resolver_mode ctx \<noteq> Some (ascii ''attestam-verified'') then State_Monad.return ()
      else do {
        store \<leftarrow> optee_protected_object_load_status Os T TA (ascii ''protected-credential-store.cbor'');
        allowlist \<leftarrow> optee_protected_object_load_status Os T TA (ascii ''protected-issuer-allowlist.cbor'');
        freshness \<leftarrow> optee_protected_object_load_status Os T TA (ascii ''protected-store-freshness.cbor'');
        revocation \<leftarrow> optee_protected_object_load_status Os T TA (ascii ''protected-revocation-state.cbor'');
        identity \<leftarrow> optee_protected_object_load_status Os T TA (ascii ''protected-agent-identity.cbor'');
        evidence_result \<leftarrow> optee_protected_object_load_status Os T TA (ascii ''verified-evidence-result.cbor'');
        (has_input, kid) \<leftarrow> on_host (observed_kid Os ctx);
        let facts = credential_facts_of has_input kid store allowlist freshness revocation;
        let validate_identity = validate_protected_agent_identity (backend_name info);
        let (backend_match, runtime_match, teep_agent_match, expected_measurement) =
          (case checked validate_identity identity of None \<Rightarrow> (False, False, False, None) | Some x \<Rightarrow> x);
        let evidence_loaded = (checked validate_verified_evidence_result evidence_result \<noteq> None);
        let ev = (case checked validate_verified_evidence_result evidence_result of None \<Rightarrow> no_evidence | Some ev \<Rightarrow> ev);
        current \<leftarrow> (if acceptance_generation_present ev then optee_acceptance_generation Os T TA else State_Monad.return None);
        let generation_current = generation_is_current ev current;
        let affirming = evidence_affirmed ev generation_current;
        (measurement, measurement_source) \<leftarrow> agent_measurement Os T TA ctx expected_measurement;
        let identity_matches = (backend_match \<and> runtime_match \<and> teep_agent_match);
        let identity_bound = (identity_matches \<and> measurement = ascii ''matched'');
        let identity_binding = (if \<not> identity_matches then ascii ''unbound''
          else if identity_bound then ascii ''bound'' else ascii ''matched-unbound'');
        let trust_anchor_bound = trust_anchor_ready facts affirming identity_bound;
        on_host (write_status_files Os ctx
          [(''verified-state.txt'', verified_state affirming identity_bound trust_anchor_bound),
           (''credential-status.txt'', credential_status facts trust_anchor_bound),
           (''platform-status.txt'', platform),
           (''evidence-status.txt'', evidence_status
              (if evidence_loaded then ascii ''verified-evidence-result'' else ascii ''none'')
              (load_label validate_verified_evidence_result evidence_result) ev generation_current
              (evidence_binding ev generation_current) affirming),
           (''agent-identity-status.txt'', agent_identity_status (backend_name info) (load_label validate_identity identity)
              backend_match runtime_match teep_agent_match measurement measurement_source identity_binding identity_bound)]) })"

definition write_verified_evidence_snapshot ::
  "('o, 'f) os_api \<Rightarrow> twep_wr_context \<Rightarrow> bytes \<Rightarrow> bytes \<Rightarrow> bytes \<Rightarrow> ('o, unit) state" where
  "write_verified_evidence_snapshot Os ctx evidence_result slot0 slot1 =
     (if length evidence_result = 0 then State_Monad.return ()
      else case validate_verified_evidence_result evidence_result of None \<Rightarrow> State_Monad.return ()
      | Some ev \<Rightarrow>
        let generation_current = generation_is_current ev
              (newer (optee_acceptance_slot_generation_bytes slot0) (optee_acceptance_slot_generation_bytes slot1));
            affirming = evidence_affirmed ev generation_current in
        write_status Os ctx (ascii ''evidence-status.txt'')
          (evidence_status (ascii ''verified-evidence-result'') (ascii ''loaded-session-snapshot'') ev generation_current
            (if affirming then ascii ''bound'' else ascii ''unbound'') affirming))"

text \<open>The two functions that the request loop calls.\<close>

definition optee_diagnostics ::
  "twep_wr_platform_info_t \<Rightarrow> ('o, 'f) os_api \<Rightarrow> 'o teec \<Rightarrow> ('w, 'h, 'i) trusted \<Rightarrow> ('o, 'w) diagnostics" where
  "optee_diagnostics info Os T TA =
     \<lparr>twep_optee_write_verified_diagnostics = write_verified_diagnostics info Os T TA,
      twep_optee_write_verified_evidence_snapshot =
        (\<lambda>ctx evidence slot0 slot1. on_host (write_verified_evidence_snapshot Os ctx evidence slot0 slot1))\<rparr>"

section \<open>What the diagnostics leave alone\<close>

text \<open>The protected objects of the trusted application.\<close>

lemma keeps_store_sealed:
  assumes laws: "storage_laws A objs hobj sha" and rt: "runtime_laws objs W E"
  shows "keeps_store objs (optee_sealed_read Os T (A, W, E, sz) nm)"
    and "keeps_store objs (optee_measure_wasm T (A, W, E, sz) wasm)"
    and "keeps_store objs (optee_protected_object_load_status Os T (A, W, E, sz) nm)"
    and "keeps_store objs (optee_acceptance_generation Os T (A, W, E, sz))"
    and "keeps_store objs (agent_measurement Os T (A, W, E, sz) ctx m)"
proof -
  note calls = keeps_store_calls [OF laws rt]
  show read: "keeps_store objs (optee_sealed_read Os T (A, W, E, sz) nm)" for nm
    unfolding optee_sealed_read_def teec_storage_get_def by (intro keeps_store_rules calls) simp
  show measure: "keeps_store objs (optee_measure_wasm T (A, W, E, sz) wasm)" for wasm
    unfolding optee_measure_wasm_def by (intro keeps_store_rules calls) simp
  show load: "keeps_store objs (optee_protected_object_load_status Os T (A, W, E, sz) nm)" for nm
    unfolding optee_protected_object_load_status_def by (intro keeps_store_rules read)
  show "keeps_store objs (optee_acceptance_generation Os T (A, W, E, sz))"
    unfolding optee_acceptance_generation_def optee_acceptance_slot_generation_def by (intro keeps_store_rules load)
  show "keeps_store objs (agent_measurement Os T (A, W, E, sz) ctx m)"
    unfolding agent_measurement_def by (intro keeps_store_rules measure)
qed

lemma diagnostics_keep_store:
  assumes "storage_laws A objs hobj sha" and "runtime_laws objs W E"
  shows "diagnostics_laws objs (optee_diagnostics info Os T (A, W, E, sz))"
  unfolding diagnostics_laws_def optee_diagnostics_def write_verified_diagnostics_def Let_def diagnostics.simps
  by (intro conjI allI keeps_store_rules keeps_store_sealed [OF assms])

text \<open>The sessions of the trusted application: each reading opens one and closes it again.\<close>

lemma opens_session:
  assumes "\<And>h. hoare (opens (insert h H)) (m h) (\<lambda>_. opens (insert h H))"
  shows "hoare (opens H) (do {
      session \<leftarrow> twep_optee_open T TA;
      case session of Inl e \<Rightarrow> State_Monad.return (f e)
      | Inr h \<Rightarrow> do { res \<leftarrow> m h; _ \<leftarrow> twep_optee_close T h; State_Monad.return (g res) } }) (\<lambda>_. opens H)"
proof (rule hoare_bind [OF opens_open])
  show "hoare (\<lambda>v. case r of Inl _ \<Rightarrow> opens H v | Inr h \<Rightarrow> h \<notin> H \<and> opens (insert h H) v)
     (case r of Inl e \<Rightarrow> State_Monad.return (f e)
      | Inr h \<Rightarrow> do { res \<leftarrow> m h; _ \<leftarrow> twep_optee_close T h; State_Monad.return (g res) }) (\<lambda>_. opens H)" for r
  proof (cases r)
    case (Inl e)
    then show ?thesis by (auto intro: hoare_return)
  next
    case (Inr h)
    have "hoare (opens (insert h H)) (do { res \<leftarrow> m h; _ \<leftarrow> twep_optee_close T h; State_Monad.return (g res) }) (\<lambda>_. opens H)"
      if "h \<notin> H"
      using opens_close [of h H T] that
      by (intro hoare_bind [OF assms] hoare_bind [where R = "\<lambda>_. opens H"] hoare_return) auto
    then show ?thesis using Inr by (auto simp: hoare_def)
  qed
qed

lemma opens_sealed:
  "hoare (opens H) (optee_sealed_read Os T TA nm) (\<lambda>_. opens H)"
  "hoare (opens H) (optee_measure_wasm T TA wasm) (\<lambda>_. opens H)"
  "hoare (opens H) (optee_protected_object_load_status Os T TA nm) (\<lambda>_. opens H)"
  "hoare (opens H) (optee_acceptance_generation Os T TA) (\<lambda>_. opens H)"
  "hoare (opens H) (agent_measurement Os T TA ctx m) (\<lambda>_. opens H)"
proof -
  have get: "hoare (opens H') (teec_storage_get T TA h nm) (\<lambda>_. opens H')" for H' h nm
    unfolding teec_storage_get_def by (intro hoare_bind [OF opens_call] hoare_return) auto
  show read: "hoare (opens H) (optee_sealed_read Os T TA nm) (\<lambda>_. opens H)" for nm
    unfolding optee_sealed_read_def
    by (intro hoare_if hoare_bind [OF opens_host] hoare_return opens_session get) auto
  show measure: "hoare (opens H) (optee_measure_wasm T TA wasm) (\<lambda>_. opens H)" for wasm
    unfolding optee_measure_wasm_def
    by (intro hoare_if hoare_return opens_session opens_call) auto
  show load: "hoare (opens H) (optee_protected_object_load_status Os T TA nm) (\<lambda>_. opens H)" for nm
    unfolding optee_protected_object_load_status_def by (intro hoare_bind [OF read] hoare_return) auto
  show "hoare (opens H) (optee_acceptance_generation Os T TA) (\<lambda>_. opens H)"
    unfolding optee_acceptance_generation_def optee_acceptance_slot_generation_def bind_assoc
    by (intro hoare_bind [OF load] hoare_return) (auto intro!: hoare_bind [OF load] hoare_return)
  show "hoare (opens H) (agent_measurement Os T TA ctx m) (\<lambda>_. opens H)"
    unfolding agent_measurement_def
    by (auto intro!: hoare_if hoare_return hoare_bind [OF opens_host] hoare_bind [OF measure] split: option.split sum.split)
qed

lemma diagnostics_sessions: "diagnostics_close (optee_diagnostics info Os T TA)"
  unfolding diagnostics_close_def optee_diagnostics_def write_verified_diagnostics_def Let_def diagnostics.simps
  by (auto intro!: hoare_if hoare_return hoare_bind [OF opens_sealed(3)] hoare_bind [OF opens_sealed(4)] hoare_bind [OF opens_sealed(5)]
      hoare_bind [OF opens_host] hoare_bind [where R = "\<lambda>_. opens _"] opens_host opens_sealed split: prod.split)

section \<open>The evidence that the trusted application publishes\<close>

lemma write_uint64: "n \<le> 0xffffffff \<Longrightarrow> cbor_write_uint64 n = cbor_write_type_len 0 n"
  by (simp add: cbor_write_uint64_def cbor_write_type_len_def)

definition result_fields :: "bytes \<Rightarrow> (string \<times> bytes) list" where
  "result_fields gen = [(''schema_version'', cbor_write_type_len 0 2),
     (''decision_source'', cbor_write_text (ascii ''attestam-signed-update'')), (''tam_response_verified'', [0xf5]),
     (''challenge_response_bound'', [0xf5]), (''acceptance_generation'', gen)]"

lemma result_map: "acceptance_result_bytes gen = map_bytes (result_fields (cbor_write_uint64 gen))"
proof -
  have "cbor_write_type_len 5 5 = [0xa5]" by (simp add: cbor_write_type_len_def)
  then show ?thesis
    by (simp add: acceptance_result_bytes_def map_bytes_def result_fields_def entry_bytes_def write_uint64 [of 2])
qed

definition published :: "u64 \<Rightarrow> evidence" where
  "published gen = no_evidence\<lparr>decision_source := ascii ''attestam-signed-update'', tam_response_verified := True,
     challenge_response_bound := True, acceptance_generation_present := True, acceptance_generation := gen\<rparr>"

lemma published_read:
  assumes "gen \<le> 0xffffffff"
  shows "validate_verified_evidence_result (acceptance_result_bytes gen) = Some (published gen)"
proof -
  have ok: "map_ok (result_fields (cbor_write_type_len 0 gen))"
    using assms by (simp add: map_ok_def result_fields_def skips_values)
  show ?thesis
    unfolding validate_verified_evidence_result_def result_map write_uint64 [OF assms]
    using assms by (simp add: map_well_formed [OF ok] field_write(3-6) [OF ok] result_fields_def [THEN arg_cong [where f = map_of]]
        published_def)
qed

text \<open>A generation of more than 32 bits is written with eight bytes, which the readers of the host do not know.\<close>

lemma skips_pairs_fail:
  "\<forall>(a, b) \<in> set ps. skips a \<and> skips b \<Longrightarrow> skips a \<Longrightarrow> rest c = concat (map (\<lambda>(a, b). a @ b) ps) @ a @ zs \<Longrightarrow>
   (\<And>c. rest c = zs \<Longrightarrow> twep_wr_cbor_skip_value c = None) \<Longrightarrow>
   for_ok (Suc (length ps)) (\<lambda>c. case twep_wr_cbor_skip_value c of None \<Rightarrow> None | Some c' \<Rightarrow> twep_wr_cbor_skip_value c') c = None"
proof (induction ps arbitrary: c)
  case Nil
  then have "twep_wr_cbor_skip_value c = Some (adv (length a) c)" by (auto intro: skipsD)
  with Nil show ?case by (simp add: for_ok_Suc)
next
  case (Cons p ps)
  obtain x y where p: "p = (x, y)" by (cases p)
  with Cons.prems have s: "skips x" "skips y" and r: "rest c = x @ y @ concat (map (\<lambda>(a, b). a @ b) ps) @ a @ zs" by auto
  have "twep_wr_cbor_skip_value (adv (length x) c) = Some (adv (length y) (adv (length x) c))"
    by (rule skipsD [OF s(2)]) (use r in simp)
  with skipsD [OF s(1) r] Cons r p show ?case by (subst for_ok_Suc) simp
qed

lemma large_generation_unreadable:
  assumes "gen > 0xffffffff"
  shows "validate_verified_evidence_result (acceptance_result_bytes gen) = None"
proof -
  let ?es = "result_fields (cbor_write_uint64 gen)"
  let ?ps = "map (\<lambda>(k, v). (cbor_write_text (ascii k), v)) (butlast ?es)"
  let ?c = "mk_cursor (map_bytes ?es)" and ?h = "cbor_write_type_len 5 5"
  have u: "cbor_write_uint64 gen = 0x1b # be_bytes 8 gen"
  proof -
    have over: "\<not> gen \<le> k" if "k \<le> 0xffffffff" for k using assms that by (meson leD order_trans)
    from over [of 24] over [of "0xff"] over [of "0xffff"] over [of "0xffffffff"]
    have "\<not> gen < 24" "\<not> gen \<le> 0xff" "\<not> gen \<le> 0xffff" "\<not> gen \<le> 0xffffffff" by (auto intro: less_imp_le)
    then show ?thesis by (simp add: cbor_write_uint64_def)
  qed
  have stop: "twep_wr_cbor_skip_value c = None" if "rest c = cbor_write_uint64 gen" for c
    using that by (subst skip_value_unfold) (simp add: skip_body_def read_head_rest u ai_bytes_def)
  have r: "rest ?c = ?h @ concat (map (\<lambda>(a, b). a @ b) ?ps) @ cbor_write_text (ascii ''acceptance_generation'') @ cbor_write_uint64 gen"
    by (simp add: map_bytes_def result_fields_def entry_bytes_def)
  have h: "twep_wr_cbor_read_head ?c = Some (5, 5, adv (length ?h) ?c)"
    by (rule read_head_write [OF _ _ r]) simp_all
  have "for_ok (Suc (length ?ps)) (\<lambda>c. case twep_wr_cbor_skip_value c of None \<Rightarrow> None | Some c' \<Rightarrow> twep_wr_cbor_skip_value c')
      (adv (length ?h) ?c) = None"
    by (rule skips_pairs_fail [OF _ _ _ stop])
      (use r in \<open>auto simp: result_fields_def skips_values intro!: skips_text\<close>)
  moreover have "Suc (length ?ps) = 5" by (simp add: result_fields_def)
  ultimately have "twep_wr_cbor_skip_value ?c = None"
    by (subst skip_value_unfold) (simp add: skip_body_def h)
  then show ?thesis
    by (simp add: validate_verified_evidence_result_def result_map cbor_top_level_map_well_formed_def)
qed

section \<open>The slots of the acceptance state\<close>

definition slot_fields :: "u64 \<Rightarrow> component_sequence list \<Rightarrow> bytes \<Rightarrow> (string \<times> bytes) list" where
  "slot_fields gen cs dg = [(''generation'', cbor_write_type_len 0 gen), (''schema_version'', cbor_write_type_len 0 1),
     (''component_sequences'', cbor_write_type_len 5 (of_nat (length cs)) @
        concat (map (\<lambda>(a, b). a @ b) (map (\<lambda>c. (cbor_write_bstr (comp_id c), cbor_write_type_len 0 (comp_seq c))) cs))),
     (''last_consumed_query_response_sha256'', cbor_write_bstr dg)]"

text \<open>All numbers of a slot fit into 32 bits.\<close>

definition small_slot :: "acceptance_state \<Rightarrow> bool" where
  "small_slot st \<longleftrightarrow> generation st \<le> 0xffffffff \<and> (\<forall>c \<in> set (components st). comp_seq c \<le> 0xffffffff)"

lemma slot_map:
  assumes "gen \<le> 0xffffffff" and "\<forall>c \<in> set cs. comp_seq c \<le> 0xffffffff \<and> length (comp_id c) < 2 ^ 32" and "length cs < 2 ^ 32"
    and "length dg = 32"
  shows "encode_slot gen cs dg = map_bytes (slot_fields gen cs dg)"
proof -
  have head: "write_type_len m n = cbor_write_type_len m n" if "n \<le> 0xffffffff" for m n
    using cbor_write_type_len_eq [OF that] by simp
  have str: "write_text s = cbor_write_text s" "write_bstr s = cbor_write_bstr s" if "length s < 2 ^ 32" for s
    using that by (simp_all add: write_text_def write_bstr_def cbor_write_text_def head u32_le)
  have comps: "encode_components cs =
      concat (map (\<lambda>(a, b). a @ b) (map (\<lambda>c. (cbor_write_bstr (comp_id c), cbor_write_type_len 0 (comp_seq c))) cs))"
    unfolding encode_components_def map_map
    by (intro arg_cong [where f = concat] map_cong refl) (use assms(2) in \<open>simp add: encode_component_def str head\<close>)
  show ?thesis
    using assms by (simp add: encode_slot_def map_bytes_def slot_fields_def entry_bytes_def comps head str u32_le)
qed

lemma slot_read:
  assumes "slot_view_of S nm = Valid st" and "small_slot st" and "S nm = Some bs"
  shows "optee_acceptance_slot_generation_bytes bs = Some (generation st)"
proof -
  from assms(1,3) obtain gen cs dg where bs: "length bs \<le> ACCEPTANCE_STATE_MAX_SIZE" "parse_slot_fields bs = Some (gen, 1, cs, dg)"
    and st: "st = slot_state bs gen cs dg" by (auto simp: slot_view_Valid)
  note canon = parse_slot_fields_canonical [OF bs(2)]
  have len: "length (comp_id c) < 2 ^ 32" if "c \<in> set cs" for c
  proof -
    have "length (encode_component c) \<le> length (encode_components cs)"
      unfolding encode_components_def using that by (induction cs) auto
    moreover have "length (comp_id c) \<le> length (encode_component c)" by (simp add: encode_component_def write_bstr_def)
    moreover have "length (encode_components cs) \<le> length bs" using canon(1) by (simp add: encode_slot_def)
    ultimately show ?thesis using bs(1) by (simp add: ACCEPTANCE_STATE_MAX_SIZE_def)
  qed
  have n: "length cs < 2 ^ 32" using canon(3) by (simp add: comps_ok_def ACCEPTANCE_STATE_MAX_COMPONENTS_def)
  have small: "gen \<le> 0xffffffff" "\<forall>c \<in> set cs. comp_seq c \<le> 0xffffffff" and gen: "generation st = gen"
    using assms(2) st by (auto simp: small_slot_def slot_state_def)
  have eq: "bs = map_bytes (slot_fields gen cs dg)"
    unfolding canon(1) by (rule slot_map) (use small len n canon(4) in auto)
  have "skips (cbor_write_type_len 5 (of_nat (length cs)) @
      concat (map (\<lambda>(a, b). a @ b) (map (\<lambda>c. (cbor_write_bstr (comp_id c), cbor_write_type_len 0 (comp_seq c))) cs)))"
    using skips_map [of "map (\<lambda>c. (cbor_write_bstr (comp_id c), cbor_write_type_len 0 (comp_seq c))) cs"] small len n
    by (simp add: skips_values del: cbor_write_strings)
  then have ok: "map_ok (slot_fields gen cs dg)"
    using small canon(4) skips_bstr [of dg] by (simp add: map_ok_def slot_fields_def skips_values)
  have "bs \<noteq> []" unfolding eq by (simp add: map_bytes_def cbor_write_type_len_def)
  then show ?thesis
    unfolding optee_acceptance_slot_generation_bytes_def gen
    using small canon(2) ok
    by (simp add: eq map_well_formed [OF ok] field_write(4,5) [OF ok] slot_fields_def [THEN arg_cong [where f = map_of]])
qed

text \<open>The host finds the generation that the trusted application works with.\<close>

definition object_bytes :: "store \<Rightarrow> bytes \<Rightarrow> bytes" where
  "object_bytes S nm = (case S nm of None \<Rightarrow> [] | Some bs \<Rightarrow> bs)"

definition readable_slot :: "store \<Rightarrow> bytes \<Rightarrow> bool" where
  "readable_slot S nm \<longleftrightarrow> S nm = None \<or> (\<exists>st. slot_view_of S nm = Valid st \<and> small_slot st)"

lemma host_generation:
  assumes "load_spec S = Inr st" and "active_slot st \<noteq> -1" and "readable_slot S slot0_id" and "readable_slot S slot1_id"
  shows "newer (optee_acceptance_slot_generation_bytes (object_bytes S slot0_id))
      (optee_acceptance_slot_generation_bytes (object_bytes S slot1_id)) = Some (generation st)"
proof -
  have none: "optee_acceptance_slot_generation_bytes [] = None" by (simp add: optee_acceptance_slot_generation_bytes_def)
  have view: "slot_view_of S nm = Absent \<and> optee_acceptance_slot_generation_bytes (object_bytes S nm) = None \<or>
      (\<exists>st. slot_view_of S nm = Valid st \<and> optee_acceptance_slot_generation_bytes (object_bytes S nm) = Some (generation st))"
    if "readable_slot S nm" for nm
    using that slot_read [of S nm] by (auto simp: readable_slot_def object_bytes_def none slot_view_Absent slot_view_Valid)
  show ?thesis
    using view [OF assms(3)] view [OF assms(4)] assms(1,2) legacy_view_active [of S]
    by (auto simp: load_spec_def resolve_def newer_def split: if_splits)
qed

section \<open>Files of the host\<close>

text \<open>\<open>touches S m\<close>: the files of the host outside of \<open>S\<close> are the same after \<open>m\<close>.\<close>

definition touches :: "('o \<Rightarrow> bytes \<Rightarrow> bytes option) \<Rightarrow> bytes set \<Rightarrow> (('o, 'w) machine, 'a) state \<Rightarrow> bool" where
  "touches files S m \<longleftrightarrow> (\<forall>v r v' p. run_state m v = (r, v') \<longrightarrow> p \<notin> S \<longrightarrow> files (fst v') p = files (fst v) p)"

lemma touches_rules:
  "touches files S (State_Monad.return x)" "touches files S (on_ta k)"
  "touches files S m \<Longrightarrow> (\<And>x. touches files S (f x)) \<Longrightarrow> touches files S (State_Monad.bind m f)"
  "touches files S p \<Longrightarrow> touches files S q \<Longrightarrow> touches files S (if b then p else q)"
  "(\<And>e. touches files S (g e)) \<Longrightarrow> (\<And>x. touches files S (k' x)) \<Longrightarrow> touches files S (case z of Inl e \<Rightarrow> g e | Inr x \<Rightarrow> k' x)"
  "touches files S p \<Longrightarrow> (\<And>x. touches files S (k'' x)) \<Longrightarrow> touches files S (case y of None \<Rightarrow> p | Some x \<Rightarrow> k'' x)"
  "(\<And>x y. touches files S (h x y)) \<Longrightarrow> touches files S (case pr of (x, y) \<Rightarrow> h x y)"
proof -
  show "touches files S (State_Monad.bind m f)" if "touches files S m" "\<And>x. touches files S (f x)"
    using that unfolding touches_def by (metis run_bindE)
qed (auto simp: touches_def on_ta_def split: prod.splits sum.splits option.splits)

lemma touches_host:
  assumes "\<And>F. hoare (\<lambda>w. files w = F) m (\<lambda>_ w. \<forall>p. p \<notin> S \<longrightarrow> files w p = F p)"
  shows "touches files S (on_host m)"
  unfolding touches_def
proof (intro allI impI)
  fix v r v' p assume "run_state (on_host m) v = (r, v')" and "p \<notin> S"
  with hoareD [OF assms refl, of "fst v" r "fst v'"] show "files (fst v') p = files (fst v) p" by (auto dest!: on_host_run)
qed

text \<open>The client library does not change files.\<close>

definition client_laws :: "('o \<Rightarrow> bytes \<Rightarrow> bytes option) \<Rightarrow> 'o teec \<Rightarrow> bool" where
  "client_laws files T \<longleftrightarrow>
     (\<forall>F. hoare (\<lambda>w. files w = F) (TEEC_InitializeContext T) (\<lambda>_ w. files w = F)) \<and>
     (\<forall>F. hoare (\<lambda>w. files w = F) (TEEC_FinalizeContext T) (\<lambda>_ w. files w = F)) \<and>
     (\<forall>F. hoare (\<lambda>w. files w = F) (teec_deliver T) (\<lambda>_ w. files w = F))"

lemma touches_client:
  assumes "client_laws files T"
  shows "touches files S (on_host (TEEC_InitializeContext T))" "touches files S (on_host (TEEC_FinalizeContext T))"
    "touches files S (on_host (teec_deliver T))"
  using assms unfolding client_laws_def by (auto simp: hoare_def intro!: touches_host)

lemma touches_sealed:
  assumes T: "client_laws files T" and laws: "file_laws Os files reading writing"
  shows "touches files S (optee_protected_object_load_status Os T TA nm)"
    and "touches files S (optee_acceptance_generation Os T TA)"
    and "touches files S (agent_measurement Os T TA ctx m)"
proof -
  obtain A W E sz where TA: "TA = (A, W, E, sz)" by (cases TA)
  note client = touches_client [OF T]
  have opens: "touches files S (twep_optee_open T TA)"
    unfolding twep_optee_open_def TEEC_OpenSession_def TA prod.case by (intro touches_rules client)
  have close: "touches files S (twep_optee_close T h)" for h
    unfolding twep_optee_close_def TEEC_CloseSession_def by (intro touches_rules client)
  have call: "touches files S (TEEC_InvokeCommand T TA h cmd ps)" for h cmd ps
    unfolding TEEC_InvokeCommand_def TA prod.case by (intro touches_rules client)
  have mem: "touches files S (on_host (os_malloc Os n))" for n
    by (rule touches_host) (use file_laws_rules(1) [OF laws] in \<open>auto simp: hoare_def\<close>)
  show load: "touches files S (optee_protected_object_load_status Os T TA nm)" for nm
    unfolding optee_protected_object_load_status_def optee_sealed_read_def teec_storage_get_def
    by (intro touches_rules mem opens close call)
  show "touches files S (optee_acceptance_generation Os T TA)"
    unfolding optee_acceptance_generation_def optee_acceptance_slot_generation_def by (intro touches_rules load)
  have read: "touches files S (on_host (twep_optee_read_teep_agent_wasm (optee_backend Os) ctx))"
    unfolding twep_optee_read_teep_agent_wasm_def twep_wr_read_file_def bind_assoc
    by (rule touches_host, rule hoare_case_option, rule hoare_return, simp, rule hoare_bind [OF optee.read [OF laws]])
      (auto simp: hoare_def)
  show "touches files S (agent_measurement Os T TA ctx m)"
    unfolding agent_measurement_def optee_measure_wasm_def by (intro touches_rules read opens close call)
qed

text \<open>The status files, and the files next to them through which they are replaced.\<close>

definition status_files :: "string list" where
  "status_files = [''verified-state.txt'', ''credential-status.txt'', ''platform-status.txt'', ''evidence-status.txt'',
     ''agent-identity-status.txt'']"

definition status_paths :: "twep_wr_context \<Rightarrow> bytes set" where
  "status_paths ctx = {p. \<exists>nm \<in> set status_files. \<exists>q.
     twep_wr_state_path ctx (ascii ''teep-agent'') (Some (ascii nm)) TWEP_WR_MAX_PATH_LEN = Some q \<and> (p = q \<or> p = tmp_path q)}"

lemma write_status_law:
  assumes "file_laws Os files reading writing"
    and "twep_wr_state_path ctx (ascii ''teep-agent'') (Some nm) TWEP_WR_MAX_PATH_LEN = Some p"
  shows "hoare (\<lambda>w. files w = F) (write_status Os ctx nm text)
    (\<lambda>_ w. (files w p = F p \<or> files w p = Some text) \<and> (\<forall>q. q \<noteq> p \<and> q \<noteq> tmp_path p \<longrightarrow> files w q = F q))"
proof -
  have "p \<noteq> tmp_path p" by (simp add: tmp_path_def)
  then show ?thesis
    unfolding write_status_def assms(2) option.case
    by (intro hoare_bind [OF write_atomic_law(2) [OF assms(1)]] hoare_return) auto
qed

lemma touches_status:
  assumes laws: "file_laws Os files reading writing" and nm: "nm \<in> set status_files"
  shows "hoare (\<lambda>w. \<forall>p. p \<notin> status_paths ctx \<longrightarrow> files w p = F p) (write_status Os ctx (ascii nm) text)
    (\<lambda>_ w. \<forall>p. p \<notin> status_paths ctx \<longrightarrow> files w p = F p)"
proof (cases "twep_wr_state_path ctx (ascii ''teep-agent'') (Some (ascii nm)) TWEP_WR_MAX_PATH_LEN")
  case None
  then show ?thesis by (auto simp: write_status_def intro: hoare_return)
next
  case (Some q)
  with nm have "q \<in> status_paths ctx" "tmp_path q \<in> status_paths ctx" by (auto simp: status_paths_def)
  then have "p \<noteq> q" "p \<noteq> tmp_path q" if "p \<notin> status_paths ctx" for p using that by auto
  with write_status_law [OF laws Some] show ?thesis unfolding hoare_def by metis
qed

lemma touches_status_files:
  assumes laws: "file_laws Os files reading writing" and nms: "\<forall>(nm, text) \<in> set texts. nm \<in> set status_files"
  shows "hoare (\<lambda>w. \<forall>p. p \<notin> status_paths ctx \<longrightarrow> files w p = F p) (write_status_files Os ctx texts)
    (\<lambda>_ w. \<forall>p. p \<notin> status_paths ctx \<longrightarrow> files w p = F p)"
  using nms
proof (induction texts)
  case (Cons x texts)
  then show ?case
    by (cases x) (auto simp: write_status_files_def intro!: hoare_bind [OF touches_status [OF laws]])
qed (auto simp: write_status_files_def intro: hoare_return)

lemma touches_diagnostics:
  assumes T: "client_laws files T" and laws: "file_laws Os files reading writing"
  shows "touches files (status_paths ctx) (write_verified_diagnostics info Os T TA ctx)"
proof -
  have kid: "touches files S (on_host (observed_kid Os ctx))" for S
    unfolding observed_kid_def twep_wr_read_file_def bind_assoc twep_wr_file_exists_def
    by (rule touches_host, rule hoare_case_option, rule hoare_return, simp, rule optee.ask [OF laws], rule hoare_if, rule hoare_return,
        simp, rule hoare_bind [OF optee.read [OF laws]]) (auto simp: hoare_def)
  have files: "touches files (status_paths ctx) (on_host (write_status_files Os ctx texts))"
    if "\<forall>(nm, text) \<in> set texts. nm \<in> set status_files" for texts
    by (rule touches_host, rule hoare_pre [OF touches_status_files [OF laws that]]) auto
  show ?thesis
    unfolding write_verified_diagnostics_def Let_def
    by (intro touches_rules touches_sealed [OF T laws] kid files) (auto simp: status_files_def)
qed

section \<open>Properties\<close>


text \<open>
  C33. A request leaves no session behind. On every path, whichever call of the client library fails or is
  not delivered, whatever the trusted application answers, and with any number of host
  operations and of sessions for the diagnostics, the sessions of the trusted application that are open when the library
  returns are exactly those that were open before.
\<close>

theorem request_closes_session:
  assumes "twep_wr_execute (\<lambda>ctx request. run_state (twep_wr_optee_execute Os T (optee_diagnostics info Os T TA) TA ctx request))
    ctx request v = (r, v')"
  shows "open_handles (snd (snd v')) = open_handles (snd (snd v))"
  by (rule request_sessions [OF diagnostics_sessions assms])

text \<open>
  C35. The diagnostics only observe. They leave the protected objects of the trusted application and its open
  sessions as they are, and of the files of the host they change at most the five status files of the state
  directory and the temporary files these are written through.
\<close>

theorem diagnostics_observe:
  assumes "storage_laws A objs hobj sha" and "runtime_laws objs W E" and "file_laws Os files reading writing" and "client_laws files T"
    and "run_state (write_verified_diagnostics info Os T (A, W, E, sz) ctx) v = (r, v')"
  shows "objs (fst (snd v')) = objs (fst (snd v)) \<and> open_handles (snd (snd v')) = open_handles (snd (snd v)) \<and>
    (\<forall>p. p \<notin> status_paths ctx \<longrightarrow> files (fst v') p = files (fst v) p)"
proof -
  have "keeps_store objs (write_verified_diagnostics info Os T (A, W, E, sz) ctx)"
    using diagnostics_keep_store [OF assms(1,2), of info Os T sz] by (simp add: diagnostics_laws_def optee_diagnostics_def)
  with assms(5) have "objs (fst (snd v')) = objs (fst (snd v))" unfolding keeps_store_def store_of_def by blast
  moreover have "open_handles (snd (snd v')) = open_handles (snd (snd v))"
  proof -
    have "hoare (opens (open_handles (snd (snd v)))) (write_verified_diagnostics info Os T (A, W, E, sz) ctx)
        (\<lambda>_. opens (open_handles (snd (snd v))))"
      using diagnostics_sessions [of info Os T "(A, W, E, sz)"] by (simp add: diagnostics_close_def optee_diagnostics_def)
    from hoareD [OF this _ assms(5)] show ?thesis by (simp add: opens_def)
  qed
  moreover have "\<forall>p. p \<notin> status_paths ctx \<longrightarrow> files (fst v') p = files (fst v) p"
    using touches_diagnostics [OF assms(4,3), of ctx info "(A, W, E, sz)"] assms(5) unfolding touches_def by blast
  ultimately show ?thesis by blast
qed


section \<open>A concrete request\<close>

definition ideal_teec :: "disk teec" where
  "ideal_teec = \<lparr>TEEC_InitializeContext = State_Monad.return (Inr ()), TEEC_FinalizeContext = State_Monad.return (),
     teec_deliver = State_Monad.return None, teec_fresh = [], teec_mem = (\<lambda>_ _. True)\<rparr>"

definition agent_disk :: disk where
  "agent_disk = [ascii ''state/teep-agent/teep-agent.wasm'' \<mapsto> signed1]"

definition ctx3 :: twep_wr_context where
  "ctx3 = sample_context\<lparr>abi_version := TWEP_WR_ABI_VERSION, cx_resolver_mode := Some (ascii ''attestam-verified''),
     cx_attestam_url := Some [], max_request_bytes := 1000, max_response_bytes := 1000\<rparr>"

definition request3 :: twep_wr_normalized_request_t where
  "request3 = \<lparr>rq_request_id = Some [1], rq_command = Some (ascii ''helloworld''), rq_app_input = None, rq_app_input_len = 0,
     rq_timeout_ms = 0\<rparr>"

definition toy_trusted :: "(device, bytes, bytes) trusted" where
  "toy_trusted = (sim_api False, toy_wamr, toy_platform, 4096)"

definition diag3 :: "(disk, device) diagnostics" where
  "diag3 = optee_diagnostics ARM_OPTEE_PLATFORM_INFO disk_api ideal_teec toy_trusted"

lemma ideal_client [simp]:
  "TEEC_InitializeContext ideal_teec = State_Monad.return (Inr ())" "TEEC_FinalizeContext ideal_teec = State_Monad.return ()"
  "teec_deliver ideal_teec = State_Monad.return None" "teec_fresh ideal_teec = []"
  by (simp_all add: ideal_teec_def)

lemma on_host_return [simp]: "on_host (State_Monad.return x) = State_Monad.return x"
  by (rule state.expand) (auto simp: on_host_def State_Monad.return_def)

text \<open>An instance all of whose sessions are closed stays one when an object is read that does not exist.\<close>

definition idle :: "ta_instance \<Rightarrow> bool" where
  "idle inst \<longleftrightarrow> set (ti_sessions inst) \<subseteq> {None}"

lemma open_idle:
  "run_state (twep_optee_open ideal_teec toy_trusted) (d, x, inst) =
     (Inr (length (ti_sessions inst)), (d, x, inst\<lparr>ti_sessions := ti_sessions inst @ [Some new_session]\<rparr>))"
  by (simp add: twep_optee_open_def TEEC_OpenSession_def toy_trusted_def on_ta_def twep_ta_session_open_def sim_api_def)

lemma get_missing:
  assumes "dev_objs x nm = None"
  shows "\<exists>e ps'. run_state (twep_ta_cmd_secure_storage_get (sim_api False) [MEMREF_INPUT nm, MEMREF_OUTPUT n None, PARAM_NONE, PARAM_NONE]) x =
     ((Inl e, ps'), x) \<and> twep_optee_platform_status e = TWEP_WR_PLATFORM_ERR_IO"
  using assms
  by (auto simp: twep_ta_cmd_secure_storage_get_def storage_get_def sim_api_def bind_or_def powered_def
      twep_optee_platform_status_def)

lemma sealed_missing:
  assumes "dev_objs x nm = None" and "nm \<noteq> []" and "idle inst"
  shows "\<exists>inst'. idle inst' \<and> run_state (optee_sealed_read disk_api ideal_teec toy_trusted nm) (d, x, inst) =
     (Inl TWEP_WR_PLATFORM_ERR_IO, (d, x, inst'))"
proof -
  let ?h = "length (ti_sessions inst)"
  let ?ps = "[MEMREF_INPUT nm, MEMREF_OUTPUT TWEP_WR_OPTEE_READ_CAP None, PARAM_NONE, PARAM_NONE]"
  let ?i = "inst\<lparr>ti_sessions := ti_sessions inst @ [Some new_session]\<rparr>"
  from get_missing [OF assms(1), of TWEP_WR_OPTEE_READ_CAP] obtain e ps' where
    get: "run_state (twep_ta_cmd_secure_storage_get (sim_api False) ?ps) x = ((Inl e, ps'), x)"
    and e: "twep_optee_platform_status e = TWEP_WR_PLATFORM_ERR_IO" by blast
  let ?t = "(ti_vars inst)\<lparr>g_session := new_session\<rparr>"
  let ?j = "inst\<lparr>ti_vars := ?t, ti_sessions := ti_sessions inst @ [Some new_session]\<rparr>"
  have call: "run_state (TEEC_InvokeCommand ideal_teec toy_trusted ?h TA_TWEP_WR_CMD_SECURE_STORAGE_GET ?ps) (d, x, ?i) = (Inl e, (d, x, ?j))"
    using get by (simp add: TEEC_InvokeCommand_def toy_trusted_def on_ta_def twep_ta_session_invoke_def session_of_def
        envelope_routed plain_def in_tee_def)
  obtain t' where close: "run_state (twep_optee_close ideal_teec ?h) (d, x, ?j) =
      ((), (d, x, inst\<lparr>ti_vars := t', ti_sessions := ti_sessions inst @ [None]\<rparr>))"
    by (simp add: twep_optee_close_def TEEC_CloseSession_def on_ta_def twep_ta_session_close_def session_of_def Let_def)
  have mem: "on_host (os_malloc disk_api n) = State_Monad.return True" for n by (simp add: disk_api_def)
  from call close e assms(2,3) show ?thesis
    by (auto simp: optee_sealed_read_def mem open_idle teec_storage_get_def idle_def)
qed

text \<open>The diagnostics of a device without any of their objects.\<close>

lemma load_missing:
  assumes "dev_objs x nm = None" and "nm \<noteq> []" and "idle inst"
  shows "\<exists>inst'. idle inst' \<and> run_state (optee_protected_object_load_status disk_api ideal_teec toy_trusted nm) (d, x, inst) =
     (Load_Absent, (d, x, inst'))"
  using sealed_missing [OF assms, of d] by (auto simp: optee_protected_object_load_status_def)

lemma diagnostics_missing:
  assumes "\<forall>nm \<in> {ascii ''protected-credential-store.cbor'', ascii ''protected-issuer-allowlist.cbor'',
      ascii ''protected-store-freshness.cbor'', ascii ''protected-revocation-state.cbor'', ascii ''protected-agent-identity.cbor'',
      ascii ''verified-evidence-result.cbor''}. dev_objs x nm = None" and "idle inst"
  shows "\<exists>d' inst'. idle inst' \<and> run_state (write_verified_diagnostics info disk_api ideal_teec toy_trusted ctx) (d, x, inst) =
     ((), (d', x, inst'))"
proof -
  let ?L = "\<lambda>nm. optee_protected_object_load_status disk_api ideal_teec toy_trusted (ascii nm)"
  from assms obtain i1 where 1: "idle i1" "run_state (?L ''protected-credential-store.cbor'') (d, x, inst) = (Load_Absent, (d, x, i1))"
    using load_missing [of x "ascii ''protected-credential-store.cbor''" inst d] by auto
  with assms obtain i2 where 2: "idle i2" "run_state (?L ''protected-issuer-allowlist.cbor'') (d, x, i1) = (Load_Absent, (d, x, i2))"
    using load_missing [of x "ascii ''protected-issuer-allowlist.cbor''" i1 d] by auto
  with assms obtain i3 where 3: "idle i3" "run_state (?L ''protected-store-freshness.cbor'') (d, x, i2) = (Load_Absent, (d, x, i3))"
    using load_missing [of x "ascii ''protected-store-freshness.cbor''" i2 d] by auto
  with assms obtain i4 where 4: "idle i4" "run_state (?L ''protected-revocation-state.cbor'') (d, x, i3) = (Load_Absent, (d, x, i4))"
    using load_missing [of x "ascii ''protected-revocation-state.cbor''" i3 d] by auto
  with assms obtain i5 where 5: "idle i5" "run_state (?L ''protected-agent-identity.cbor'') (d, x, i4) = (Load_Absent, (d, x, i5))"
    using load_missing [of x "ascii ''protected-agent-identity.cbor''" i4 d] by auto
  with assms obtain i6 where 6: "idle i6" "run_state (?L ''verified-evidence-result.cbor'') (d, x, i5) = (Load_Absent, (d, x, i6))"
    using load_missing [of x "ascii ''verified-evidence-result.cbor''" i5 d] by auto
  have host: "\<exists>d'. run_state (on_host m) (d0, x, i6) = (fst (run_state m d0), (d', x, i6))" for m :: "(disk, 'a) state" and d0
    by (simp add: on_host_def split: prod.split)
  have absent: "checked f Load_Absent = None" for f :: "bytes \<Rightarrow> 'b option" by (simp add: checked_def)
  obtain d1 where kid: "run_state (on_host (observed_kid disk_api ctx)) (d, x, i6) = (fst (run_state (observed_kid disk_api ctx) d), (d1, x, i6))"
    using host by blast
  show ?thesis
    using 6(1) assms(2)
    by (auto simp: write_verified_diagnostics_def Let_def 1(2) 2(2) 3(2) 4(2) 5(2) 6(2) kid absent no_evidence_def agent_measurement_def
        on_host_def split: prod.split)
qed

text \<open>The host finds the agent where it was installed, and no developer key.\<close>

lemma artifacts3:
  "run_state (on_host (read_artifacts (optee_backend disk_api) ctx3 True wfile)) (agent_disk, x) = (Inr (signed1, [], []), (agent_disk, x))"
  "run_state (on_host (twep_optee_read_dev_agent_public_key (optee_backend disk_api) ctx3)) (agent_disk, x) = (Inr [], (agent_disk, x))"
proof -
  have paths: "twep_wr_state_path ctx3 (ascii ''teep-agent'') (Some (ascii ''teep-agent.wasm'')) TWEP_WR_MAX_PATH_LEN =
      Some (ascii ''state/teep-agent/teep-agent.wasm'')"
    "twep_wr_state_path ctx3 (ascii ''teep-agent'') (Some (ascii ''dev-agent-public-key.cbor'')) TWEP_WR_MAX_PATH_LEN =
      Some (ascii ''state/teep-agent/dev-agent-public-key.cbor'')" by code_simp+
  have sub: "twep_wr_state_path ctx3 sub None TWEP_WR_MAX_PATH_LEN = Some (ascii ''state'' @ [slash] @ sub)" if "length sub < 20" for sub
    using that by (simp add: twep_wr_state_path_def ctx3_def sample_context_def TWEP_WR_MAX_PATH_LEN_def)
  have layout: "run_state (twep_wr_ensure_state_layout (optee_backend disk_api) ctx3) w = (TWEP_WR_OK, w)" for w
    by (simp add: twep_wr_ensure_state_layout_def twep_wr_mkdir_if_needed_def optee_backend_def optee_mkdir_if_needed_def
        disk_api_def sub ctx3_def [THEN arg_cong [where f = cx_state_dir]] sample_context_def)
  have agent: "run_state (twep_wr_ensure_teep_agent (optee_backend disk_api) ctx3) agent_disk = (TWEP_WR_OK, agent_disk)"
    by (simp add: twep_wr_ensure_teep_agent_def paths ensure_copied_def twep_wr_file_exists_def optee_backend_def disk_api_def agent_disk_def)
  have read: "run_state (twep_optee_read_teep_agent_wasm (optee_backend disk_api) ctx3) agent_disk = (Inr signed1, agent_disk)"
    by (simp add: twep_optee_read_teep_agent_wasm_def paths twep_wr_read_file_def optee_backend_def twep_wr_platform_read_file_def
        disk_api_def agent_disk_def)
  show "run_state (on_host (read_artifacts (optee_backend disk_api) ctx3 True wfile)) (agent_disk, x) = (Inr (signed1, [], []), (agent_disk, x))"
    by (simp add: on_host_def read_artifacts_def twep_optee_read_verified_acceptance_artifacts_def must_def layout agent read)
  show "run_state (on_host (twep_optee_read_dev_agent_public_key (optee_backend disk_api) ctx3)) (agent_disk, x) = (Inr [], (agent_disk, x))"
    by (simp add: on_host_def twep_optee_read_dev_agent_public_key_def paths twep_wr_file_exists_def optee_backend_def disk_api_def agent_disk_def)
qed

definition answer3 :: bytes where
  "answer3 = execute_response_bytes [1] [7] app_output1"

lemma answer3_facts:
  "twep_optee_parse_response answer3 = None" "length answer3 = execute_response_len [1] [7] app_output1" "length answer3 \<le> 100"
  "length signed1 < 1000" "signed1 \<noteq> []" "length production_skeleton_response < 100"
proof -
  show "twep_optee_parse_response answer3 = None" unfolding answer3_def by (rule answers_not_for_host(1)) simp_all
  show "length answer3 = execute_response_len [1] [7] app_output1" "length answer3 \<le> 100" "length signed1 < 1000" "signed1 \<noteq> []"
    "length production_skeleton_response < 100" by code_simp+
qed

text \<open>The first round, in a new session.\<close>

lemma call3:
  assumes "parse_production_envelope env TWEP_TA_ENVELOPE_EXECUTE =
      Inr (execute_seen [1] (ascii ''helloworld'') (ascii ''attestam-verified'') [] [] t signed1 [] [] [])" and "env \<noteq> []"
  defines "ps \<equiv> [MEMREF_INPUT env, MEMREF_OUTPUT TWEP_WR_OPTEE_EXECUTE_RESPONSE_CAP None, PARAM_NONE, PARAM_NONE]"
  shows "\<exists>w i. run_state (TEEC_InvokeCommand ideal_teec toy_trusted (length (ti_sessions inst)) TA_TWEP_WR_CMD_EXECUTE ps)
      (d, app_dev, inst\<lparr>ti_sessions := ti_sessions inst @ [Some new_session]\<rparr>) =
    (Inr (ps[1 := MEMREF_OUTPUT (length answer3) (Some answer3)]), (d, w, i))"
proof -
  let ?s = "execute_seen [1] (ascii ''helloworld'') (ascii ''attestam-verified'') [] [] t signed1 [] [] []"
  let ?t = "(ti_vars inst)\<lparr>g_session := new_session\<rparr>"
  have "\<not> ls_active (live_session (g_session ?t))" by (simp add: new_session_def zero_live_session_def)
  then obtain w t' where run: "run_state (handle_envelope (sim_api False) toy_wamr toy_platform TWEP_TA_ENVELOPE_EXECUTE ?s
      TWEP_WR_OPTEE_EXECUTE_RESPONSE_CAP) (app_dev, ?t) =
      (Inr (build_execute_response [1] [7] app_output1 TWEP_WR_OPTEE_EXECUTE_RESPONSE_CAP), (w, t'))"
    using toy_verified_run [of ?s ?t TWEP_WR_OPTEE_EXECUTE_RESPONSE_CAP]
    by (auto simp: execute_seen_def nothing_seen_def)
  have built: "build_execute_response [1] [7] app_output1 TWEP_WR_OPTEE_EXECUTE_RESPONSE_CAP = (Some (length answer3), Inr answer3)"
    using answer3_facts(2,3) by (simp add: build_execute_response_def built_in_Inr answer3_def TWEP_WR_OPTEE_EXECUTE_RESPONSE_CAP_def)
  have cap: "\<not> TWEP_WR_OPTEE_EXECUTE_RESPONSE_CAP < length production_skeleton_response"
    using answer3_facts(6) by (simp add: TWEP_WR_OPTEE_EXECUTE_RESPONSE_CAP_def)
  have "run_state (twep_ta_cmd_production_envelope (sim_api False) toy_wamr toy_platform TWEP_TA_ENVELOPE_EXECUTE ps) (app_dev, ?t) =
      ((Inr (), ps[1 := MEMREF_OUTPUT (length answer3) (Some answer3)]), (w, t'))"
    using run built cap assms(1,2) by (simp add: twep_ta_cmd_production_envelope_def ps_def respond_def)
  then show ?thesis
    by (simp add: TEEC_InvokeCommand_def toy_trusted_def on_ta_def twep_ta_session_invoke_def session_of_def envelope_routed)
qed

lemma app_dev_missing:
  "dev_objs app_dev nm = None" if "nm \<noteq> slot0_id" "nm \<noteq> app_slot0_id"
  using that by (simp add: app_dev_def)

lemma diag3_laws: "diagnostics_laws dev_objs diag3"
  unfolding diag3_def toy_trusted_def by (rule diagnostics_keep_store [OF sim_storage_laws toy_runtime_laws])

lemma run3:
  "\<exists>v'. run_state (twep_wr_optee_execute disk_api ideal_teec diag3 toy_trusted ctx3 request3) (agent_disk, app_dev, ta_created) =
     ((TWEP_WR_OK, Some answer3), v')"
proof -
  obtain k env where env: "twep_optee_make_execute_envelope True ctx3 [1] (ascii ''helloworld'') [] signed1 [] [] []
      (cx_default_timeout_ms ctx3) = Some (k, env)" by (simp add: twep_optee_make_execute_envelope_def Let_def)
  then have ne: "env \<noteq> []" by (auto simp: twep_optee_make_execute_envelope_def Let_def)
  have parse: "parse_production_envelope env TWEP_TA_ENVELOPE_EXECUTE =
      Inr (execute_seen [1] (ascii ''helloworld'') (ascii ''attestam-verified'') [] [] (cx_default_timeout_ms ctx3) signed1 [] [] [])"
    by (rule execute_envelope_parses(1) [OF env]) (use answer3_facts(4) in \<open>auto simp: ctx3_def\<close>)
  obtain d inst where diag: "run_state (twep_optee_write_verified_diagnostics diag3 ctx3) (agent_disk, app_dev, ta_created) =
      ((), (d, app_dev, inst))"
    using diagnostics_missing [of app_dev ta_created ARM_OPTEE_PLATFORM_INFO ctx3 agent_disk]
    by (auto simp: diag3_def optee_diagnostics_def app_dev_missing slot0_id_def app_slot0_id_def idle_def ta_created_def)
  let ?v = "(d, app_dev, inst\<lparr>ti_sessions := ti_sessions inst @ [Some new_session]\<rparr>)" and ?h = "length (ti_sessions inst)"
  from call3 [OF parse ne] obtain w i where call: "run_state (TEEC_InvokeCommand ideal_teec toy_trusted ?h TA_TWEP_WR_CMD_EXECUTE
      [MEMREF_INPUT env, MEMREF_OUTPUT TWEP_WR_OPTEE_EXECUTE_RESPONSE_CAP None, PARAM_NONE, PARAM_NONE]) ?v =
      (Inr [MEMREF_INPUT env, MEMREF_OUTPUT (length answer3) (Some answer3), PARAM_NONE, PARAM_NONE], (d, w, i))" by fastforce
  obtain st r v' where ans: "run_state (answer disk_api ideal_teec diag3 toy_trusted ctx3 True ?h False answer3) (d, w, i) = ((st, r), v')"
    by (metis surj_pair)
  from answer_result [OF sim_storage_laws toy_runtime_laws diag3_laws ans [unfolded toy_trusted_def]]
  have ans: "run_state (answer disk_api ideal_teec diag3 toy_trusted ctx3 True ?h False answer3) (d, w, i) =
      ((TWEP_WR_OK, Some answer3), v')" using ans by simp
  have rounds: "run_state (execute_rounds disk_api ideal_teec diag3 toy_trusted ctx3 True ?h (Suc n) 0 env []) ?v =
      ((TWEP_WR_OK, Some answer3), v')" for n
    using call ans answer3_facts(1) by (simp add: received_def after_call_def)
  have eight: "TWEP_WR_OPTEE_HOST_IO_MAX_ROUNDS = Suc 7" by (simp add: TWEP_WR_OPTEE_HOST_IO_MAX_ROUNDS_def)
  have session: "run_state (execute_session disk_api ideal_teec diag3 toy_trusted ctx3 True env) (d, app_dev, inst) =
      ((TWEP_WR_OK, Some answer3), v')"
    using open_idle [of d app_dev inst] rounds [of 7, folded eight] by (simp add: execute_session_def)
  have mem: "on_host (os_malloc disk_api j) = State_Monad.return True" for j by (simp add: disk_api_def)
  have rq: "view_bytes (rq_command request3) = ascii ''helloworld''" "view_bytes (rq_request_id request3) = [1]"
    "app_input_bytes request3 = []" "rq_timeout_ms request3 = 0"
    by (simp_all add: request3_def view_bytes_def app_input_bytes_def)
  have mode: "cx_resolver_mode ctx3 = Some (ascii ''attestam-verified'')" by (simp add: ctx3_def)
  have cmd: "ascii ''helloworld'' \<noteq> ascii ''teep-agent-resolve-wrapped''" "wasm_file_of (ascii ''helloworld'') \<noteq> None"
    by code_simp+
  show ?thesis
    unfolding twep_wr_optee_execute_def Let_def rq
    using cmd by (cases v') (simp add: mem mode artifacts3 diag env session)
qed

lemma execute3:
  "\<exists>v'. twep_wr_execute (\<lambda>ctx request. run_state (twep_wr_optee_execute disk_api ideal_teec diag3 toy_trusted ctx request))
      (Some ctx3) (Some request3) (agent_disk, app_dev, ta_created) = ((TWEP_WR_OK, Some answer3), v')"
proof -
  have guard: "execute_guard ctx3 request3 = TWEP_WR_OK" by code_simp
  have "max_response_bytes ctx3 = 1000" by (simp add: ctx3_def)
  with run3 guard answer3_facts(3) show ?thesis by (auto simp: twep_wr_execute_def)
qed


theorem request_closes_session_witness:
  "open_handles (snd (snd (snd (twep_wr_execute (\<lambda>ctx request. run_state (twep_wr_optee_execute disk_api ideal_teec diag3
     toy_trusted ctx request)) (Some ctx3) (Some request3) (agent_disk, app_dev, ta_created))))) = {}"
proof -
  have "open_handles ta_created = {}" by (simp add: open_handles_def session_of_def ta_created_def)
  then show ?thesis
    using request_closes_session [of disk_api ideal_teec ARM_OPTEE_PLATFORM_INFO toy_trusted "Some ctx3" "Some request3"
        "(agent_disk, app_dev, ta_created)"]
    by (metis diag3_def prod.collapse snd_conv)
qed

theorem diagnostics_observe_witness:
  "\<exists>r v'. run_state (write_verified_diagnostics ARM_OPTEE_PLATFORM_INFO disk_api ideal_teec toy_trusted ctx3) (agent_disk, app_dev, ta_created) = (r, v') \<and>
     dev_objs (fst (snd v')) = dev_objs app_dev \<and> open_handles (snd (snd v')) = open_handles ta_created \<and>
     (\<forall>p. p \<notin> status_paths ctx3 \<longrightarrow> fst v' p = agent_disk p)"
proof -
  obtain r v' where run: "run_state (write_verified_diagnostics ARM_OPTEE_PLATFORM_INFO disk_api ideal_teec toy_trusted ctx3)
      (agent_disk, app_dev, ta_created) = (r, v')" by (metis surj_pair)
  have "client_laws (\<lambda>w. w) ideal_teec" by (simp add: client_laws_def hoare_def)
  from diagnostics_observe [OF sim_storage_laws toy_runtime_laws disk_file_laws this run [unfolded toy_trusted_def]] run
  show ?thesis by auto
qed


end
