(* ===== verification/Response_Cbor.thy ===== *)
theory Response_Cbor
  imports Ree_Host_Io
begin

text \<open>
  The responses that the host library builds when it runs an application itself
  (\<^verbatim>\<open>lib/twep-wr/src/response_cbor.c\<close>). Each builder computes a length, allocates it and then writes;
  the model returns the length allocated and the bytes written, so that the two can be compared.
\<close>

section \<open>Builders\<close>

definition rsp_type_len_size :: "u64 \<Rightarrow> nat" where
  "rsp_type_len_size n =
     (if n < 24 then 1 else if n \<le> 0xff then 2 else if n \<le> 0xffff then 3
      else if n \<le> 0xffffffff then 5 else 9)"

definition rsp_write_type_len :: "byte \<Rightarrow> u64 \<Rightarrow> bytes" where
  "rsp_write_type_len major n =
     (let head = push_bit 5 major in
      if n < 24 then [head OR ucast n]
      else if n \<le> 0xff then [head OR 24, ucast n]
      else if n \<le> 0xffff then [head OR 25, ucast (drop_bit 8 n), ucast n]
      else if n \<le> 0xffffffff then [head OR 26, ucast (drop_bit 24 n), ucast (drop_bit 16 n),
            ucast (drop_bit 8 n), ucast n]
      else [head OR 27, ucast (drop_bit 56 n), ucast (drop_bit 48 n), ucast (drop_bit 40 n), ucast (drop_bit 32 n),
            ucast (drop_bit 24 n), ucast (drop_bit 16 n), ucast (drop_bit 8 n), ucast n])"

text \<open>Text of at most 23 bytes; a longer one is not written at all.\<close>

definition rsp_write_text :: "bytes \<Rightarrow> bytes" where
  "rsp_write_text text = (if length text > 23 then [] else (0x60 OR of_nat (length text)) # text)"

definition rsp_write_text_view :: "bytes \<Rightarrow> bytes" where
  "rsp_write_text_view text = rsp_write_type_len 3 (of_nat (length text)) @ text"

definition make_response_len :: "bytes \<Rightarrow> bytes \<Rightarrow> bytes \<Rightarrow> nat" where
  "make_response_len request_id stdout_bytes app_output =
     1 + 1 + 14 + 1 + 1 + 10 + rsp_type_len_size (of_nat (length request_id)) + length request_id +
     1 + 6 + 1 + 2 + 1 + 9 + 1 + 1 + 6 + rsp_type_len_size (of_nat (length stdout_bytes)) + length stdout_bytes +
     (1 + 10 + rsp_type_len_size (of_nat (length app_output)) + length app_output)"

definition make_response_bytes :: "bytes \<Rightarrow> bytes \<Rightarrow> bytes \<Rightarrow> bytes" where
  "make_response_bytes request_id stdout_bytes app_output =
     [0xa6, 0x6e] @ ascii ''schema_version'' @ [0x01, 0x6a] @ ascii ''request_id'' @
     rsp_write_type_len 3 (of_nat (length request_id)) @ request_id @
     [0x66] @ ascii ''status'' @ [0x62] @ ascii ''ok'' @ [0x69] @ ascii ''exit_code'' @ [0x00] @
     [0x66] @ ascii ''stdout'' @ rsp_write_type_len 2 (of_nat (length stdout_bytes)) @ stdout_bytes @
     [0x6a] @ ascii ''app_output'' @ rsp_write_type_len 2 (of_nat (length app_output)) @ app_output"

definition twep_wr_make_response ::
  "bool \<Rightarrow> bytes \<Rightarrow> bytes \<Rightarrow> bytes \<Rightarrow> twep_wr_status_t + nat \<times> bytes" where
  "twep_wr_make_response mem request_id stdout_bytes app_output =
     (if length stdout_bytes > UINT32_MAX \<or> length app_output > UINT32_MAX then Inl TWEP_WR_ERR_WASM_RUNTIME
      else if \<not> mem then Inl TWEP_WR_ERR_NO_MEMORY
      else Inr (make_response_len request_id stdout_bytes app_output,
                make_response_bytes request_id stdout_bytes app_output))"

text \<open>The code and the message for the status of an application, an \<^verbatim>\<open>int32_t\<close>.\<close>

definition app_error_text :: "int \<Rightarrow> bytes \<times> bytes" where
  "app_error_text app_status =
     (if app_status = 1 then (ascii ''app.input_cbor'', ascii ''invalid input'')
      else if app_status = 2 then (ascii ''app.invalid_argument'', ascii ''invalid argument'')
      else if app_status = 4 then (ascii ''app.no_memory'', ascii ''no memory'')
      else if app_status = 5 then (ascii ''app.unsupported_command'', ascii ''unsupported command'')
      else if app_status = 6 then (ascii ''app.unsupported_format'', ascii ''unsupported format'')
      else if app_status = 3 then (ascii ''app.output_generation'', ascii ''output generation error'')
      else if app_status = 7 then (ascii ''app.resource_limit'', ascii ''resource limit exceeded'')
      else if app_status = 127 then (ascii ''app.internal'', ascii ''internal app error'')
      else (ascii ''app.runtime'', ascii ''runtime error''))"

definition status_magnitude :: "int \<Rightarrow> u64" where
  "status_magnitude app_status = of_int (if app_status < 0 then -1 - app_status else app_status)"

definition app_error_len :: "bytes \<Rightarrow> int \<Rightarrow> bytes \<Rightarrow> bytes \<Rightarrow> nat" where
  "app_error_len request_id app_status command wasm_file =
     (let (code, message) = app_error_text app_status in
      1 + 1 + 14 + 1 + 1 + 10 + rsp_type_len_size (of_nat (length request_id)) + length request_id +
      1 + 6 + 1 + 5 + 1 + 9 + 1 + 1 + 5 + 1 + 4 + 1 + length code + 1 + 7 + 1 + length message + 1 + 7 + 1 +
      1 + 11 + rsp_type_len_size (status_magnitude app_status) +
      1 + 7 + rsp_type_len_size (of_nat (length command)) + length command +
      1 + 9 + rsp_type_len_size (of_nat (length wasm_file)) + length wasm_file)"

definition app_error_bytes :: "bytes \<Rightarrow> int \<Rightarrow> bytes \<Rightarrow> bytes \<Rightarrow> bytes" where
  "app_error_bytes request_id app_status command wasm_file =
     (let (code, message) = app_error_text app_status in
      [0xa5] @ rsp_write_text (ascii ''schema_version'') @ [0x01] @
      rsp_write_text (ascii ''request_id'') @ rsp_write_text_view request_id @
      rsp_write_text (ascii ''status'') @ rsp_write_text (ascii ''error'') @
      rsp_write_text (ascii ''exit_code'') @ [0x01] @
      rsp_write_text (ascii ''error'') @ [0xa3] @
      rsp_write_text (ascii ''code'') @ rsp_write_text code @
      rsp_write_text (ascii ''message'') @ rsp_write_text message @
      rsp_write_text (ascii ''details'') @ [0xa3] @
      rsp_write_text (ascii ''return_code'') @
      rsp_write_type_len (if app_status \<ge> 0 then 0 else 1) (status_magnitude app_status) @
      rsp_write_text (ascii ''command'') @ rsp_write_text_view command @
      rsp_write_text (ascii ''wasm_file'') @ rsp_write_text_view wasm_file)"

definition twep_wr_make_app_error_response ::
  "bool \<Rightarrow> bytes \<Rightarrow> int \<Rightarrow> bytes option \<Rightarrow> bytes option \<Rightarrow> twep_wr_status_t + nat \<times> bytes" where
  "twep_wr_make_app_error_response mem request_id app_status command wasm_file =
     (let command = (case command of None \<Rightarrow> [] | Some c \<Rightarrow> c);
          wasm_file = (case wasm_file of None \<Rightarrow> [] | Some f \<Rightarrow> f);
          (code, message) = app_error_text app_status in
      if length code > 23 \<or> length message > 23 then Inl TWEP_WR_ERR_WASM_RUNTIME
      else if \<not> mem then Inl TWEP_WR_ERR_NO_MEMORY
      else Inr (app_error_len request_id app_status command wasm_file,
                app_error_bytes request_id app_status command wasm_file))"

section \<open>Lengths\<close>

lemma length_rsp_write_type_len [simp]: "length (rsp_write_type_len m n) = rsp_type_len_size n"
  by (simp add: rsp_write_type_len_def rsp_type_len_size_def)

lemma length_rsp_write_text: "length t \<le> 23 \<Longrightarrow> length (rsp_write_text t) = Suc (length t)"
  by (simp add: rsp_write_text_def)

lemma length_rsp_write_text_view [simp]:
  "length (rsp_write_text_view t) = rsp_type_len_size (of_nat (length t)) + length t"
  by (simp add: rsp_write_text_view_def)

lemma app_error_text_short: "length (fst (app_error_text s)) \<le> 23" "length (snd (app_error_text s)) \<le> 23"
  by (simp_all add: app_error_text_def)

lemma make_response_exact: "length (make_response_bytes r s a) = make_response_len r s a"
  by (simp add: make_response_bytes_def make_response_len_def)

lemma app_error_overrun: "length (app_error_bytes r s c w) = app_error_len r s c w + 1"
proof (cases "app_error_text s")
  case (Pair code message)
  then show ?thesis
    using app_error_text_short [of s]
    by (simp add: app_error_bytes_def app_error_len_def length_rsp_write_text)
qed

section \<open>Properties\<close>

text \<open>
  C25. A successful response fills the memory allocated for it exactly. The builder of error
  responses always succeeds when memory is available, and it always writes one byte more than it
  allocated: the length counts one of the two nested map heads only.
\<close>

theorem response_lengths:
  "(twep_wr_make_response mem r s a = Inr (len, bs) \<longrightarrow> length bs = len) \<and>
   (\<exists>len bs. twep_wr_make_app_error_response True r st c w = Inr (len, bs) \<and> length bs = len + 1)"
proof
  show "twep_wr_make_response mem r s a = Inr (len, bs) \<longrightarrow> length bs = len"
    by (auto simp: twep_wr_make_response_def make_response_exact split: if_splits)
  show "\<exists>len bs. twep_wr_make_app_error_response True r st c w = Inr (len, bs) \<and> length bs = len + 1"
    using app_error_text_short [of st]
    by (cases "app_error_text st") (simp add: twep_wr_make_app_error_response_def Let_def app_error_overrun)
qed

theorem response_lengths_witness:
  "length (make_response_bytes (ascii ''r1'') [] [0xa0]) = make_response_len (ascii ''r1'') [] [0xa0]"
proof -
  have "twep_wr_make_response True (ascii ''r1'') [] [0xa0] =
      Inr (make_response_len (ascii ''r1'') [] [0xa0], make_response_bytes (ascii ''r1'') [] [0xa0])"
    by (simp add: twep_wr_make_response_def UINT32_MAX_def)
  then show ?thesis using response_lengths [of True "ascii ''r1''" "[]" "[0xa0]"] by auto
qed

end
