(* ===== verification/Ree_Resolver.thy ===== *)
theory Ree_Resolver
  imports Ree_Files Response_Cbor App_Runtime
begin

text \<open>
  The part of the host library that runs applications without a trusted application, as the Linux
  backend does, as far as it computes on bytes: the check of the signature of a Wasm binary
  (\<^verbatim>\<open>lib/twep-wr/src/wasm_signature.c\<close>), the input and the output of the TEEP agent
  (\<^verbatim>\<open>catalog_resolver.c\<close>), and the output of an application (\<^verbatim>\<open>app_runtime.c\<close>). OpenSSL is a parameter.
\<close>

section \<open>Numbers and sections\<close>

text \<open>The reader has the loop of the import scanner of the trusted application.\<close>

definition ree_read_varuint32 :: "bytes \<Rightarrow> nat \<Rightarrow> nat \<Rightarrow> (u32 \<times> nat) option" where
  "ree_read_varuint32 buf len off = leb_loop 5 buf len off 0"

definition custom_section_name :: "bytes \<Rightarrow> (bytes \<times> nat) option" where
  "custom_section_name payload =
     (case ree_read_varuint32 payload (length payload) 0 of None \<Rightarrow> None
      | Some (name_len, off) \<Rightarrow>
        if unat name_len > length payload - off then None
        else Some (take (unat name_len) (drop off payload), off + unat name_len))"

section \<open>The signature\<close>

text \<open>A view that has not been set is empty.\<close>

record wasm_signature_t =
  sg_alg :: bytes
  sg_kid :: bytes
  sg_role :: bytes
  sg_sig :: bytes
  sg_prefix :: bytes

definition no_signature :: wasm_signature_t where
  "no_signature = \<lparr>sg_alg = [], sg_kid = [], sg_role = [], sg_sig = [], sg_prefix = []\<rparr>"

text \<open>One entry of the map; a field that comes twice keeps the last value.\<close>

definition ree_signature_field :: "bytes \<Rightarrow> cursor \<times> wasm_signature_t \<Rightarrow> (cursor \<times> wasm_signature_t) option" where
  "ree_signature_field key s =
     (let c = fst s; out = snd s in
      if twep_wr_bytes_equal_text key (ascii ''alg'') then
        map_option (\<lambda>(v, c1). (c1, out\<lparr>sg_alg := v\<rparr>)) (twep_wr_cbor_read_text_view c)
      else if twep_wr_bytes_equal_text key (ascii ''kid'') then
        map_option (\<lambda>(v, c1). (c1, out\<lparr>sg_kid := v\<rparr>)) (twep_wr_cbor_read_bytes_view c)
      else if twep_wr_bytes_equal_text key (ascii ''role'') then
        map_option (\<lambda>(v, c1). (c1, out\<lparr>sg_role := v\<rparr>)) (twep_wr_cbor_read_text_view c)
      else if twep_wr_bytes_equal_text key (ascii ''sig'') then
        map_option (\<lambda>(v, c1). (c1, out\<lparr>sg_sig := v\<rparr>)) (twep_wr_cbor_read_bytes_view c)
      else map_option (\<lambda>c1. (c1, out)) (twep_wr_cbor_skip_value c))"

text \<open>A loop over the entries of a map, the key of each being read first.\<close>

definition read_entries ::
  "nat \<Rightarrow> (bytes \<Rightarrow> cursor \<times> 's \<Rightarrow> (cursor \<times> 's) option) \<Rightarrow> cursor \<times> 's \<Rightarrow> (cursor \<times> 's) option" where
  "read_entries pairs field =
     for_ok pairs (\<lambda>s. case twep_wr_cbor_read_text_view (fst s) of None \<Rightarrow> None
       | Some (key, c) \<Rightarrow> field key (c, snd s))"

definition ree_parse_signature_payload :: "bytes \<Rightarrow> wasm_signature_t \<Rightarrow> wasm_signature_t option" where
  "ree_parse_signature_payload payload out =
     (case read_major (mk_cursor payload) 5 of None \<Rightarrow> None
      | Some (pairs, c) \<Rightarrow> (case read_entries (unat pairs) ree_signature_field (c, out) of None \<Rightarrow> None
        | Some (c1, sig) \<Rightarrow>
          if coff c1 = length payload \<and> twep_wr_bytes_equal_text (sg_alg sig) (ascii ''ESP256'') \<and>
             length (sg_kid sig) > 0 \<and> length (sg_sig sig) = 64 then Some sig else None))"

text \<open>The loop over the sections, from an offset on.\<close>

function scan_signature :: "bytes \<Rightarrow> nat \<Rightarrow> wasm_signature_t option" where
  "scan_signature wasm section_start =
     (if section_start \<ge> length wasm then None
      else case ree_read_varuint32 wasm (length wasm) (section_start + 1) of None \<Rightarrow> None
      | Some (section_size, off) \<Rightarrow>
        if unat section_size > length wasm - off then None
        else let payload = take (unat section_size) (drop off wasm); section_end = off + unat section_size in
          (case (if wasm ! section_start = 0 then custom_section_name payload else None) of
             Some (name, name_end) \<Rightarrow>
               if length name = 8 \<and> mem_compare name (ascii ''twep.sig'') = 0 then
                 if section_end \<noteq> length wasm then None
                 else ree_parse_signature_payload (drop name_end payload)
                   (no_signature\<lparr>sg_prefix := take section_start wasm\<rparr>)
               else scan_signature wasm section_end
           | None \<Rightarrow> scan_signature wasm section_end))"
  by pat_completeness auto
termination
  by (relation "measure (\<lambda>(wasm, off). length wasm - off)")
     (auto simp: ree_read_varuint32_def read_leb_u32_def [symmetric] dest!: read_progress(2))

declare scan_signature.simps [simp del]

definition parse_wasm_signature :: "bytes \<Rightarrow> wasm_signature_t option" where
  "parse_wasm_signature wasm =
     (if length wasm < 8 \<or> mem_compare (take 4 wasm) wasm_magic \<noteq> 0 then None else scan_signature wasm 8)"

section \<open>Verification\<close>

text \<open>
  OpenSSL: the DER encoding of a signature from its two numbers, a public key of the curve P-256 from
  its point, and the verification of a message with the digest SHA-256. Each call may fail.
\<close>

record ('w, 'k) openssl =
  ossl_der_signature :: "bytes \<Rightarrow> bytes \<Rightarrow> ('w, bytes option) state"
  ossl_public_key :: "bytes \<Rightarrow> ('w, 'k option) state"
  ossl_digest_verify :: "'k \<Rightarrow> bytes \<Rightarrow> bytes \<Rightarrow> ('w, bool) state"
  ossl_sha256 :: "bytes \<Rightarrow> bytes"

definition der_encode_raw_signature :: "('w, 'k) openssl \<Rightarrow> bytes \<Rightarrow> nat \<Rightarrow> ('w, bytes option) state" where
  "der_encode_raw_signature L raw_sig out_len =
     (if length raw_sig \<noteq> 64 then State_Monad.return None
      else do {
        der \<leftarrow> ossl_der_signature L (take 32 raw_sig) (take 32 (drop 32 raw_sig));
        State_Monad.return (case der of None \<Rightarrow> None
          | Some d \<Rightarrow> if d = [] \<or> length d > out_len then None else Some d) })"

definition p256_public_key_from_coordinates :: "('w, 'k) openssl \<Rightarrow> bytes \<Rightarrow> bytes \<Rightarrow> ('w, 'k option) state" where
  "p256_public_key_from_coordinates L x y = ossl_public_key L (0x04 # x @ y)"

definition verify_esp256 :: "('w, 'k) openssl \<Rightarrow> bytes \<Rightarrow> bytes \<Rightarrow> bytes \<Rightarrow> bytes \<Rightarrow> ('w, bool) state" where
  "verify_esp256 L x y signature message = do {
     der \<leftarrow> der_encode_raw_signature L signature 80;
     case der of None \<Rightarrow> State_Monad.return False
     | Some der_sig \<Rightarrow> do {
         pkey \<leftarrow> p256_public_key_from_coordinates L x y;
         case pkey of None \<Rightarrow> State_Monad.return False
         | Some k \<Rightarrow> ossl_digest_verify L k der_sig message } }"

definition app_code_signing_x :: bytes where
  "app_code_signing_x =
     [0xe5, 0xb5, 0x8f, 0xb0, 0x88, 0xd3, 0xa0, 0x75, 0xc3, 0x22, 0xd9, 0xc2, 0xca, 0x0e, 0xf4, 0xd6,
      0xca, 0xdb, 0xcc, 0x5c, 0x30, 0x6a, 0x5e, 0x44, 0x01, 0x2e, 0x65, 0x18, 0xa4, 0xbc, 0x2f, 0x58]"

definition app_code_signing_y :: bytes where
  "app_code_signing_y =
     [0x2a, 0xb7, 0xd2, 0x2f, 0x7c, 0xdb, 0x0f, 0x36, 0xb5, 0x83, 0x8d, 0x39, 0xbd, 0x89, 0xbd, 0x8e,
      0x68, 0xdc, 0x99, 0x8c, 0x1b, 0xf7, 0x5b, 0x41, 0x30, 0xef, 0xd3, 0x67, 0x5c, 0x1b, 0x3d, 0x1c]"

datatype twep_wr_wasm_signature_role_t =
  TWEP_WR_WASM_SIGNATURE_ROLE_TEEP_AGENT | TWEP_WR_WASM_SIGNATURE_ROLE_APP

text \<open>The key of the agent is the one the trusted application has.\<close>

definition twep_wr_verify_wasm_signature ::
  "('w, 'k) openssl \<Rightarrow> bytes \<Rightarrow> twep_wr_wasm_signature_role_t \<Rightarrow> ('w, bool) state" where
  "twep_wr_verify_wasm_signature L wasm role =
     (case parse_wasm_signature wasm of None \<Rightarrow> State_Monad.return False
      | Some sig \<Rightarrow> (case role of
          TWEP_WR_WASM_SIGNATURE_ROLE_TEEP_AGENT \<Rightarrow>
            if \<not> twep_wr_bytes_equal_text (sg_role sig) (ascii ''teep-agent'') then State_Monad.return False
            else verify_esp256 L teep_agent_public_x teep_agent_public_y (sg_sig sig) (sg_prefix sig)
        | TWEP_WR_WASM_SIGNATURE_ROLE_APP \<Rightarrow>
            if \<not> twep_wr_bytes_equal_text (sg_role sig) (ascii ''app'') then State_Monad.return False
            else verify_esp256 L app_code_signing_x app_code_signing_y (sg_sig sig) (sg_prefix sig)))"

definition twep_wr_sha256_matches :: "('w, 'k) openssl \<Rightarrow> bytes \<Rightarrow> bytes \<Rightarrow> bool" where
  "twep_wr_sha256_matches L bs expected \<longleftrightarrow> mem_compare (ossl_sha256 L bs) expected = 0"


section \<open>The input of the agent\<close>

text \<open>\<^verbatim>\<open>catalog_resolver.c\<close> has its own copy of the writers of \<^verbatim>\<open>response_cbor.c\<close>.\<close>

definition res_write_text :: "bytes \<Rightarrow> bytes" where
  "res_write_text text = rsp_write_text text"

definition res_write_text_view :: "bytes \<Rightarrow> bytes" where
  "res_write_text_view text = rsp_write_text_view text"

definition res_type_len_size :: "u64 \<Rightarrow> nat" where
  "res_type_len_size n = rsp_type_len_size n"

definition res_write_type_len :: "byte \<Rightarrow> u64 \<Rightarrow> bytes" where
  "res_write_type_len major n = rsp_write_type_len major n"

definition or_empty :: "bytes option \<Rightarrow> bytes" where
  "or_empty s = (case s of None \<Rightarrow> [] | Some t \<Rightarrow> t)"

text \<open>The length that is allocated and the bytes that are written.\<close>

definition host_resolve_input_len :: "bytes \<Rightarrow> bytes \<Rightarrow> bytes \<Rightarrow> bytes \<Rightarrow> nat" where
  "host_resolve_input_len command mode state_dir url =
     1 + res_type_len_size 14 + 14 + 1 + res_type_len_size 7 + 7 + res_type_len_size 11 + 11 +
     res_type_len_size 14 + 14 + res_type_len_size (of_nat (length command)) + length command +
     res_type_len_size 13 + 13 + res_type_len_size (of_nat (length mode)) + length mode +
     res_type_len_size 9 + 9 + res_type_len_size (of_nat (length state_dir)) + length state_dir +
     res_type_len_size 12 + 12 + res_type_len_size (of_nat (length url)) + length url"

definition host_resolve_input_bytes :: "bytes \<Rightarrow> bytes \<Rightarrow> bytes \<Rightarrow> bytes \<Rightarrow> bytes" where
  "host_resolve_input_bytes command mode state_dir url =
     [0xa6] @ res_write_text (ascii ''schema_version'') @ [0x01] @
     res_write_text (ascii ''command'') @ res_write_text (ascii ''resolve_app'') @
     res_write_text (ascii ''target_command'') @ res_write_text_view command @
     res_write_text (ascii ''resolver_mode'') @ res_write_text_view mode @
     res_write_text (ascii ''state_dir'') @ res_write_text_view state_dir @
     res_write_text (ascii ''attestam_url'') @ res_write_text_view url"

definition make_teep_resolve_input ::
  "('w, 'f) os_api \<Rightarrow> twep_wr_context \<Rightarrow> bytes \<Rightarrow> ('w, twep_wr_status_t + nat \<times> bytes) state" where
  "make_teep_resolve_input Os ctx command =
     (let mode = or_empty (cx_resolver_mode ctx); state_dir = cx_state_dir ctx; url = or_empty (cx_attestam_url ctx) in
      if length command = 0 \<or> length command > TWEP_WR_MAX_COMMAND_LEN
      then State_Monad.return (Inl TWEP_WR_ERR_INVALID_ARGUMENT)
      else do {
        ok \<leftarrow> os_malloc Os (host_resolve_input_len command mode state_dir url);
        State_Monad.return (if \<not> ok then Inl TWEP_WR_ERR_NO_MEMORY
          else Inr (host_resolve_input_len command mode state_dir url, host_resolve_input_bytes command mode state_dir url)) })"

section \<open>The output of the agent\<close>

definition TWEP_WR_DEFAULT_STACK_SIZE :: u32 where
  "TWEP_WR_DEFAULT_STACK_SIZE = 64 * 1024"

definition TWEP_WR_DEFAULT_HEAP_SIZE :: u32 where
  "TWEP_WR_DEFAULT_HEAP_SIZE = 1024 * 1024"

definition TWEP_WR_DEFAULT_MAX_OUTPUT_SIZE :: u32 where
  "TWEP_WR_DEFAULT_MAX_OUTPUT_SIZE = 16 * 1024 * 1024"

definition TWEP_WR_GLOBAL_MAX_STACK_SIZE :: u32 where
  "TWEP_WR_GLOBAL_MAX_STACK_SIZE = 1024 * 1024"

definition TWEP_WR_GLOBAL_MAX_HEAP_SIZE :: u32 where
  "TWEP_WR_GLOBAL_MAX_HEAP_SIZE = 16 * 1024 * 1024"

definition TWEP_WR_GLOBAL_MAX_OUTPUT_SIZE :: u32 where
  "TWEP_WR_GLOBAL_MAX_OUTPUT_SIZE = 16 * 1024 * 1024"

definition TWEP_WR_MAX_WASM_FILE_LEN :: nat where
  "TWEP_WR_MAX_WASM_FILE_LEN = 128"

text \<open>The strings are those before the first zero.\<close>

record catalog_entry_t =
  ce_command :: bytes
  ce_wasm_file :: bytes
  ce_sha256 :: bytes
  ce_stack_bytes :: u32
  ce_heap_bytes :: u32
  ce_timeout_ms :: u32
  ce_max_output_bytes :: u32

definition cleared_entry :: catalog_entry_t where
  "cleared_entry = \<lparr>ce_command = [], ce_wasm_file = [], ce_sha256 = replicate 32 0, ce_stack_bytes = 0,
     ce_heap_bytes = 0, ce_timeout_ms = 0, ce_max_output_bytes = 0\<rparr>"

definition apply_default_resource_limits :: "catalog_entry_t \<Rightarrow> catalog_entry_t" where
  "apply_default_resource_limits e = e\<lparr>ce_stack_bytes := TWEP_WR_DEFAULT_STACK_SIZE,
     ce_heap_bytes := TWEP_WR_DEFAULT_HEAP_SIZE, ce_timeout_ms := 0,
     ce_max_output_bytes := TWEP_WR_DEFAULT_MAX_OUTPUT_SIZE\<rparr>"

definition clamp_limit :: "u32 \<Rightarrow> u32 \<Rightarrow> u32" where
  "clamp_limit limit v = (if v = 0 \<or> v > limit then limit else v)"

definition clamp_resource_limits :: "catalog_entry_t \<Rightarrow> catalog_entry_t" where
  "clamp_resource_limits e = e\<lparr>
     ce_stack_bytes := clamp_limit TWEP_WR_GLOBAL_MAX_STACK_SIZE (ce_stack_bytes e),
     ce_heap_bytes := clamp_limit TWEP_WR_GLOBAL_MAX_HEAP_SIZE (ce_heap_bytes e),
     ce_max_output_bytes := clamp_limit TWEP_WR_GLOBAL_MAX_OUTPUT_SIZE (ce_max_output_bytes e)\<rparr>"

definition is_safe_wasm_basename :: "bytes \<Rightarrow> bool" where
  "is_safe_wasm_basename wasm_file \<longleftrightarrow>
     wasm_file \<noteq> [] \<and> length wasm_file > 5 \<and> drop (length wasm_file - 5) wasm_file = ascii ''.wasm'' \<and>
     list_all name_char wasm_file"

definition teep_error_status_from_code :: "bytes \<Rightarrow> twep_wr_status_t" where
  "teep_error_status_from_code code =
     (if twep_wr_bytes_equal_text code (ascii ''catalog.not_found'') \<or> twep_wr_bytes_equal_text code (ascii ''catalog.invalid'')
      then TWEP_WR_ERR_CATALOG
      else if twep_wr_bytes_equal_text code (ascii ''app.hash_mismatch'') then TWEP_WR_ERR_SECURITY
      else if twep_wr_bytes_equal_text code (ascii ''teep.network'') then TWEP_WR_ERR_TEEP_NETWORK
      else if twep_wr_bytes_equal_text code (ascii ''teep.attestation_unsupported'') then TWEP_WR_ERR_TEEP_ATTESTATION_UNSUPPORTED
      else if twep_wr_bytes_equal_text code (ascii ''teep.verified_required'') then TWEP_WR_ERR_TEEP
      else TWEP_WR_ERR_TEEP)"

text \<open>The source returns a status; its only caller looks whether it is \<^verbatim>\<open>TWEP_WR_OK\<close>.\<close>

definition limit_field :: "bytes \<Rightarrow> cursor \<times> catalog_entry_t \<Rightarrow> (cursor \<times> catalog_entry_t) option" where
  "limit_field key s =
     (let c = fst s; e = snd s in
      if twep_wr_bytes_equal_text key (ascii ''stack_bytes'') then
        map_option (\<lambda>(v, c1). (c1, e\<lparr>ce_stack_bytes := v\<rparr>)) (twep_wr_cbor_read_uint32 c)
      else if twep_wr_bytes_equal_text key (ascii ''heap_bytes'') then
        map_option (\<lambda>(v, c1). (c1, e\<lparr>ce_heap_bytes := v\<rparr>)) (twep_wr_cbor_read_uint32 c)
      else if twep_wr_bytes_equal_text key (ascii ''timeout_ms'') then
        map_option (\<lambda>(v, c1). (c1, e\<lparr>ce_timeout_ms := v\<rparr>)) (twep_wr_cbor_read_uint32 c)
      else if twep_wr_bytes_equal_text key (ascii ''max_output_bytes'') then
        map_option (\<lambda>(v, c1). (c1, e\<lparr>ce_max_output_bytes := v\<rparr>)) (twep_wr_cbor_read_uint32 c)
      else map_option (\<lambda>c1. (c1, e)) (twep_wr_cbor_skip_value c))"

definition parse_cbor_resource_limits :: "cursor \<Rightarrow> catalog_entry_t \<Rightarrow> (cursor \<times> catalog_entry_t) option" where
  "parse_cbor_resource_limits c e =
     (case read_major c 5 of None \<Rightarrow> None
      | Some (pairs, c1) \<Rightarrow> read_entries (unat pairs) limit_field (c1, e))"

record app_fields =
  af_command :: bool
  af_component_id :: bool
  af_version :: bool
  af_abi :: bool
  af_wasm_file :: bool
  af_sha :: bool
  af_entry :: catalog_entry_t

definition app_map_field :: "bytes \<Rightarrow> bytes \<Rightarrow> cursor \<times> app_fields \<Rightarrow> (cursor \<times> app_fields) option" where
  "app_map_field command key s =
     (let c = fst s; a = snd s; text = twep_wr_cbor_read_text_view c in
      if twep_wr_bytes_equal_text key (ascii ''command'') then
        (case text of None \<Rightarrow> None
         | Some (v, c1) \<Rightarrow> if \<not> twep_wr_bytes_equal_text v command then None else Some (c1, a\<lparr>af_command := True\<rparr>))
      else if twep_wr_bytes_equal_text key (ascii ''component_id'') then
        (case text of None \<Rightarrow> None
         | Some (v, c1) \<Rightarrow> if length v = 0 then None else Some (c1, a\<lparr>af_component_id := True\<rparr>))
      else if twep_wr_bytes_equal_text key (ascii ''version'') then
        (case text of None \<Rightarrow> None
         | Some (v, c1) \<Rightarrow> if length v = 0 then None else Some (c1, a\<lparr>af_version := True\<rparr>))
      else if twep_wr_bytes_equal_text key (ascii ''abi'') then
        (case text of None \<Rightarrow> None
         | Some (v, c1) \<Rightarrow>
           if \<not> twep_wr_bytes_equal_text v (ascii ''twep-app-v1'') then None else Some (c1, a\<lparr>af_abi := True\<rparr>))
      else if twep_wr_bytes_equal_text key (ascii ''wasm_file'') then
        (case text of None \<Rightarrow> None
         | Some (v, c1) \<Rightarrow> (case twep_wr_copy_text_view v TWEP_WR_MAX_WASM_FILE_LEN of None \<Rightarrow> None
           | Some s \<Rightarrow> let name = takeWhile (\<lambda>b. b \<noteq> 0) s in
               if \<not> is_safe_wasm_basename name then None
               else Some (c1, a\<lparr>af_wasm_file := True, af_entry := (af_entry a)\<lparr>ce_wasm_file := name\<rparr>\<rparr>)))
      else if twep_wr_bytes_equal_text key (ascii ''sha256'') then
        (case twep_wr_cbor_read_bytes_view c of None \<Rightarrow> None
         | Some (v, c1) \<Rightarrow> if length v \<noteq> 32 then None
             else Some (c1, a\<lparr>af_sha := True, af_entry := (af_entry a)\<lparr>ce_sha256 := v\<rparr>\<rparr>))
      else if twep_wr_bytes_equal_text key (ascii ''resource_limits'') then
        map_option (\<lambda>(c1, e). (c1, a\<lparr>af_entry := e\<rparr>)) (parse_cbor_resource_limits c (af_entry a))
      else map_option (\<lambda>c1. (c1, a)) (twep_wr_cbor_skip_value c))"

definition parse_app_map :: "bytes \<Rightarrow> cursor \<Rightarrow> catalog_entry_t \<Rightarrow> (cursor \<times> catalog_entry_t) option" where
  "parse_app_map command c e =
     (case read_major c 5 of None \<Rightarrow> None
      | Some (app_pairs, c1) \<Rightarrow>
        (case read_entries (unat app_pairs) (app_map_field command)
            (c1, \<lparr>af_command = False, af_component_id = False, af_version = False, af_abi = False,
                  af_wasm_file = False, af_sha = False, af_entry = e\<rparr>) of None \<Rightarrow> None
         | Some (c2, a) \<Rightarrow>
           if \<not> af_command a \<or> \<not> af_component_id a \<or> \<not> af_version a \<or> \<not> af_abi a \<or> \<not> af_wasm_file a \<or> \<not> af_sha a
           then None else Some (c2, af_entry a)))"

text \<open>The code of an error, once it has been seen.\<close>

definition error_map_field ::
  "bytes \<Rightarrow> cursor \<times> twep_wr_status_t option \<Rightarrow> (cursor \<times> twep_wr_status_t option) option" where
  "error_map_field key s =
     (if twep_wr_bytes_equal_text key (ascii ''code'') then
        (case twep_wr_cbor_read_text_view (fst s) of None \<Rightarrow> None
         | Some (code, c1) \<Rightarrow> if length code = 0 then None else Some (c1, Some (teep_error_status_from_code code)))
      else map_option (\<lambda>c1. (c1, snd s)) (twep_wr_cbor_skip_value (fst s)))"

definition parse_error_map :: "cursor \<Rightarrow> (cursor \<times> twep_wr_status_t) option" where
  "parse_error_map c =
     (case read_major c 5 of None \<Rightarrow> None
      | Some (error_pairs, c1) \<Rightarrow> (case read_entries (unat error_pairs) error_map_field (c1, None) of None \<Rightarrow> None
        | Some (c2, code) \<Rightarrow> map_option (Pair c2) code))"

record resolve_fields =
  rf_ok_status :: bool
  rf_app :: bool
  rf_error_status :: bool
  rf_error :: twep_wr_status_t
  rf_entry :: catalog_entry_t

definition resolve_field :: "bytes \<Rightarrow> bytes \<Rightarrow> cursor \<times> resolve_fields \<Rightarrow> (cursor \<times> resolve_fields) option" where
  "resolve_field command key s =
     (let c = fst s; r = snd s in
      if twep_wr_bytes_equal_text key (ascii ''status'') then
        (case twep_wr_cbor_read_text_view c of None \<Rightarrow> None
         | Some (v, c1) \<Rightarrow>
           if twep_wr_bytes_equal_text v (ascii ''ok'') then Some (c1, r\<lparr>rf_ok_status := True\<rparr>)
           else if twep_wr_bytes_equal_text v (ascii ''error'') then Some (c1, r\<lparr>rf_error_status := True\<rparr>)
           else None)
      else if twep_wr_bytes_equal_text key (ascii ''error'') then
        map_option (\<lambda>(c1, st). (c1, r\<lparr>rf_error := st\<rparr>)) (parse_error_map c)
      else if twep_wr_bytes_equal_text key (ascii ''app'') then
        map_option (\<lambda>(c1, e). (c1, r\<lparr>rf_app := True, rf_entry := e\<rparr>)) (parse_app_map command c (rf_entry r))
      else map_option (\<lambda>c1. (c1, r)) (twep_wr_cbor_skip_value c))"

definition parse_teep_resolve_output :: "bytes \<Rightarrow> bytes \<Rightarrow> twep_wr_status_t + catalog_entry_t" where
  "parse_teep_resolve_output output command =
     (if length command \<ge> TWEP_WR_MAX_COMMAND_LEN then Inl TWEP_WR_ERR_TEEP
      else case read_major (mk_cursor output) 5 of None \<Rightarrow> Inl TWEP_WR_ERR_TEEP
      | Some (pairs, c) \<Rightarrow>
        (case read_entries (unat pairs) (resolve_field command)
            (c, \<lparr>rf_ok_status = False, rf_app = False, rf_error_status = False, rf_error = TWEP_WR_ERR_TEEP,
                 rf_entry = apply_default_resource_limits cleared_entry\<rparr>) of None \<Rightarrow> Inl TWEP_WR_ERR_TEEP
         | Some (_, r) \<Rightarrow>
           if \<not> rf_ok_status r \<or> \<not> rf_app r then Inl (if rf_error_status r then rf_error r else TWEP_WR_ERR_TEEP)
           else Inr (clamp_resource_limits ((rf_entry r)\<lparr>ce_command := command\<rparr>))))"

section \<open>The run of an application\<close>

text \<open>The timeout that counts: that of the catalog or the default, shortened by the request.\<close>

definition effective_timeout_ms :: "twep_wr_context \<Rightarrow> twep_wr_normalized_request_t \<Rightarrow> catalog_entry_t \<Rightarrow> u32" where
  "effective_timeout_ms ctx request e =
     (let t = (if ce_timeout_ms e = 0 then cx_default_timeout_ms ctx else ce_timeout_ms e);
          t = (if rq_timeout_ms request \<noteq> 0 \<and> rq_timeout_ms request < t then rq_timeout_ms request else t)
      in if t = 0 then 5000 else t)"

text \<open>The limit on the number of instructions that is set; the cast to \<^verbatim>\<open>int\<close> keeps it.\<close>

definition apply_instruction_budget :: "u32 \<Rightarrow> int option" where
  "apply_instruction_budget timeout =
     (if timeout = 0 then None
      else let budget = (ucast timeout :: u64) * 100000 in
        Some (uint (if budget > 0x7fffffff then 0x7fffffff else budget)))"

definition host_stdout_field :: "bytes \<Rightarrow> cursor \<times> bytes \<Rightarrow> (cursor \<times> bytes) option" where
  "host_stdout_field key s =
     (if twep_wr_bytes_equal_text key (ascii ''stdout'') then
        map_option (\<lambda>(v, c1). (c1, v)) (twep_wr_cbor_read_bytes_view (fst s))
      else map_option (\<lambda>c1. (c1, snd s)) (twep_wr_cbor_skip_value (fst s)))"

definition extract_optional_stdout :: "bytes \<Rightarrow> twep_wr_status_t + bytes" where
  "extract_optional_stdout app_output =
     (case read_major (mk_cursor app_output) 5 of None \<Rightarrow> Inl TWEP_WR_ERR_WASM_ABI
      | Some (pairs, c) \<Rightarrow> (case read_entries (unat pairs) host_stdout_field (c, []) of None \<Rightarrow> Inl TWEP_WR_ERR_WASM_ABI
        | Some (c1, out) \<Rightarrow> if coff c1 \<noteq> length app_output then Inl TWEP_WR_ERR_WASM_ABI else Inr out))"

section \<open>Loops over the entries of a map\<close>

lemma read_entries_invariant:
  assumes "read_entries n field (c, s) = Some (c', s')" and "I s"
    and "\<And>key c s c' s'. field key (c, s) = Some (c', s') \<Longrightarrow> I s \<Longrightarrow> I s'"
  shows "I s'"
proof -
  have "I (snd q')" if "(case twep_wr_cbor_read_text_view (fst q) of None \<Rightarrow> None | Some (key, c) \<Rightarrow> field key (c, snd q)) = Some q'"
    and "I (snd q)" for q q'
    using that assms(3) [of _ _ "snd q" "fst q'" "snd q'"] by (auto split: option.splits)
  from for_ok_invariant [OF assms(1) [unfolded read_entries_def], of "\<lambda>q. I (snd q)"] this assms(2)
  show ?thesis by simp
qed

lemma equal_text_iff [simp]: "twep_wr_bytes_equal_text v t \<longleftrightarrow> v = t"
  by (auto simp: twep_wr_bytes_equal_text_def mem_compare_eq0)

section \<open>The signature section\<close>

lemma ree_varuint_eq: "ree_read_varuint32 = read_leb_u32"
  by (simp add: fun_eq_iff ree_read_varuint32_def read_leb_u32_def)

lemma payload_facts:
  assumes "ree_parse_signature_payload payload out = Some sig"
  shows "sg_alg sig = ascii ''ESP256''" "sg_kid sig \<noteq> []" "length (sg_sig sig) = 64" "sg_prefix sig = sg_prefix out"
proof -
  from assms obtain pairs c c1 where loop: "read_entries pairs ree_signature_field (c, out) = Some (c1, sig)"
    and checked: "sg_alg sig = ascii ''ESP256''" "sg_kid sig \<noteq> []" "length (sg_sig sig) = 64"
    by (auto simp: ree_parse_signature_payload_def split: option.splits if_splits)
  then show "sg_alg sig = ascii ''ESP256''" "sg_kid sig \<noteq> []" "length (sg_sig sig) = 64" by simp_all
  have "sg_prefix s' = sg_prefix s" if "ree_signature_field key (c, s) = Some (c', s')" for key c s c' s'
    using that by (auto simp: ree_signature_field_def Let_def split: if_splits)
  with read_entries_invariant [OF loop, of "\<lambda>s. sg_prefix s = sg_prefix out"] show "sg_prefix sig = sg_prefix out" by simp
qed

lemma scan_signature_sound:
  "scan_signature wasm off = Some sig \<Longrightarrow>
   \<exists>n. sections read_leb_u32 wasm off n \<and> section_at read_leb_u32 wasm n 0 (length wasm) \<and>
     sg_prefix sig = take n wasm \<and> length (sg_sig sig) = 64"
proof (induction wasm off rule: scan_signature.induct)
  case (1 wasm off)
  then obtain sz p where len: "off < length wasm" and rd: "read_leb_u32 wasm (length wasm) (off + 1) = Some (sz, p)"
    and fit: "\<not> unat sz > length wasm - p"
    by (subst (asm) (3) scan_signature.simps) (auto simp: Let_def ree_varuint_eq split: if_splits option.splits)
  let ?e = "p + unat sz" and ?pl = "take (unat sz) (drop p wasm)"
  let ?name = "if wasm ! off = 0 then custom_section_name ?pl else None"
  have e: "?e \<le> length wasm" using read_progress(2) [OF rd] fit by linarith
  note step = scan_signature.simps [of wasm off, unfolded ree_varuint_eq]
  note rd' = rd [folded ree_varuint_eq]
  have next_ok: ?case if "\<exists>n. sections read_leb_u32 wasm ?e n \<and> section_at read_leb_u32 wasm n 0 (length wasm) \<and>
      sg_prefix sig = take n wasm \<and> length (sg_sig sig) = 64"
    using that sections.more [where rd = read_leb_u32, OF len rd e] by blast
  show ?case
  proof (cases ?name)
    case None
    with "1.prems" len rd fit have "scan_signature wasm ?e = Some sig" by (simp add: step Let_def)
    then show ?thesis using next_ok "1.IH"(1) [OF _ rd' refl fit refl refl None] len by simp
  next
    case (Some q)
    obtain name name_end where q: "q = (name, name_end)" by fastforce
    show ?thesis
    proof (cases "length name = 8 \<and> mem_compare name (ascii ''twep.sig'') = 0")
      case sig: True
      with "1.prems" len rd fit Some q have last: "?e = length wasm"
        and pl: "ree_parse_signature_payload (drop name_end ?pl) (no_signature\<lparr>sg_prefix := take off wasm\<rparr>) = Some sig"
        by (simp_all add: step Let_def split: if_splits)
      have "wasm ! off = 0" using Some by (simp split: if_splits)
      then have "section_at read_leb_u32 wasm off 0 (length wasm)" using len rd last by (auto simp: section_at_def)
      then show ?thesis using payload_facts [OF pl] sections.here by fastforce
    next
      case other: False
      with "1.prems" len rd fit Some q have "scan_signature wasm ?e = Some sig" by (simp add: step Let_def split: if_splits)
      then show ?thesis using next_ok "1.IH"(2) [OF _ rd' refl fit refl refl Some q [symmetric] other] len by simp
    qed
  qed
qed

section \<open>Entries of the catalog\<close>

lemma limits_keep:
  assumes "parse_cbor_resource_limits c e = Some (c', e')"
  shows "ce_wasm_file e' = ce_wasm_file e" "ce_sha256 e' = ce_sha256 e"
proof -
  from assms obtain pairs c1 where loop: "read_entries pairs limit_field (c1, e) = Some (c', e')"
    by (auto simp: parse_cbor_resource_limits_def split: option.splits)
  have step: "ce_wasm_file s' = ce_wasm_file s \<and> ce_sha256 s' = ce_sha256 s"
    if "limit_field key (c, s) = Some (c', s')" for key c s c' s'
    using that by (auto simp: limit_field_def Let_def split: if_splits)
  show "ce_wasm_file e' = ce_wasm_file e"
    using read_entries_invariant [OF loop, of "\<lambda>s. ce_wasm_file s = ce_wasm_file e"] step by simp
  show "ce_sha256 e' = ce_sha256 e"
    using read_entries_invariant [OF loop, of "\<lambda>s. ce_sha256 s = ce_sha256 e"] step by simp
qed

definition safe_name :: "bytes \<Rightarrow> bool" where
  "safe_name f \<longleftrightarrow> is_safe_wasm_basename f \<and> length f < TWEP_WR_MAX_WASM_FILE_LEN"

lemma app_map_safe:
  assumes "parse_app_map command c e = Some (c', e')" and "length (ce_sha256 e) = 32"
  shows "safe_name (ce_wasm_file e') \<and> length (ce_sha256 e') = 32"
proof -
  let ?I = "\<lambda>a. length (ce_sha256 (af_entry a)) = 32 \<and> (af_wasm_file a \<longrightarrow> safe_name (ce_wasm_file (af_entry a)))"
  from assms(1) obtain pairs c1 a where loop: "read_entries pairs (app_map_field command)
      (c1, \<lparr>af_command = False, af_component_id = False, af_version = False, af_abi = False,
                  af_wasm_file = False, af_sha = False, af_entry = e\<rparr>) = Some (c', a)"
    and a: "af_wasm_file a" "e' = af_entry a"
    by (auto simp: parse_app_map_def split: option.splits if_splits)
  have short: "length (takeWhile Q xs) < n" if "length xs < n" for Q and xs :: bytes and n
    using that length_takeWhile_le [of Q xs] by simp
  have "?I s'" if "app_map_field command key (c, s) = Some (c', s')" "?I s" for key c s c' s'
    using that
    by (auto simp: app_map_field_def Let_def safe_name_def twep_wr_copy_text_view_def limits_keep not_le short
        split: if_splits option.splits)
  with read_entries_invariant [OF loop, of ?I] assms(2) a show ?thesis by simp
qed

lemma clamp_bounds: "limit \<noteq> 0 \<Longrightarrow> 0 < clamp_limit limit v \<and> clamp_limit limit v \<le> limit"
  by (auto simp: clamp_limit_def word_gt_0)

lemma safe_name_part: "safe_name f \<Longrightarrow> resolve_path dir f = dir @ [f]"
proof -
  assume "safe_name f"
  then have f: "list_all name_char f" "5 < length f" by (simp_all add: safe_name_def is_safe_wasm_basename_def)
  then have "f \<noteq> []" "f \<noteq> [dot]" "f \<noteq> [dot, dot]" by auto
  with f(1) show ?thesis by (simp add: resolve_path_def name_parts path_step_def)
qed

lemma resolved_safe:
  assumes "parse_teep_resolve_output out command = Inr e"
  shows "safe_name (ce_wasm_file e)" and "length (ce_sha256 e) = 32" and "ce_command e = command"
    and "ce_stack_bytes e \<le> TWEP_WR_GLOBAL_MAX_STACK_SIZE" and "ce_heap_bytes e \<le> TWEP_WR_GLOBAL_MAX_HEAP_SIZE"
    and "ce_max_output_bytes e \<le> TWEP_WR_GLOBAL_MAX_OUTPUT_SIZE"
    and "ce_stack_bytes e \<noteq> 0" "ce_heap_bytes e \<noteq> 0" "ce_max_output_bytes e \<noteq> 0"
proof -
  let ?I = "\<lambda>r. length (ce_sha256 (rf_entry r)) = 32 \<and> (rf_app r \<longrightarrow> safe_name (ce_wasm_file (rf_entry r)))"
  from assms obtain pairs c c1 r where loop: "read_entries pairs (resolve_field command)
      (c, \<lparr>rf_ok_status = False, rf_app = False, rf_error_status = False, rf_error = TWEP_WR_ERR_TEEP,
                 rf_entry = apply_default_resource_limits cleared_entry\<rparr>) = Some (c1, r)"
    and r: "rf_app r" "e = clamp_resource_limits ((rf_entry r)\<lparr>ce_command := command\<rparr>)"
    by (auto simp: parse_teep_resolve_output_def split: option.splits if_splits)
  have "?I s'" if "resolve_field command key (c, s) = Some (c', s')" "?I s" for key c s c' s'
    using that app_map_safe by (auto simp: resolve_field_def Let_def split: if_splits option.splits)
  with read_entries_invariant [OF loop, of ?I] r(1) have "?I r"
    by (simp add: apply_default_resource_limits_def cleared_entry_def)
  with r show "safe_name (ce_wasm_file e)" "length (ce_sha256 e) = 32" "ce_command e = command"
    by (simp_all add: clamp_resource_limits_def)
  show "ce_stack_bytes e \<le> TWEP_WR_GLOBAL_MAX_STACK_SIZE" "ce_heap_bytes e \<le> TWEP_WR_GLOBAL_MAX_HEAP_SIZE"
    "ce_max_output_bytes e \<le> TWEP_WR_GLOBAL_MAX_OUTPUT_SIZE"
    "ce_stack_bytes e \<noteq> 0" "ce_heap_bytes e \<noteq> 0" "ce_max_output_bytes e \<noteq> 0"
    using r(2) clamp_bounds [of TWEP_WR_GLOBAL_MAX_STACK_SIZE "ce_stack_bytes (rf_entry r)"]
      clamp_bounds [of TWEP_WR_GLOBAL_MAX_HEAP_SIZE "ce_heap_bytes (rf_entry r)"]
      clamp_bounds [of TWEP_WR_GLOBAL_MAX_OUTPUT_SIZE "ce_max_output_bytes (rf_entry r)"]
    by (simp_all add: clamp_resource_limits_def TWEP_WR_GLOBAL_MAX_STACK_SIZE_def TWEP_WR_GLOBAL_MAX_HEAP_SIZE_def
        TWEP_WR_GLOBAL_MAX_OUTPUT_SIZE_def word_gt_0)
qed

section \<open>The input of the agent\<close>

lemma rsp_cbor_same:
  "length v < 2 ^ 32 \<Longrightarrow> rsp_write_text_view v = cbor_write_view_text v"
  "length v \<le> 23 \<Longrightarrow> rsp_write_text v = cbor_write_text v"
proof -
  have head: "rsp_write_type_len m (of_nat n) = cbor_write_type_len m (of_nat n)" if "n < 2 ^ 32" for m n
  proof -
    have "(of_nat n :: u64) \<le> 0xffffffff" using that by (simp add: word_le_nat_alt unat_of_nat_u64)
    then show ?thesis by (simp add: rsp_write_type_len_def cbor_write_type_len_def Let_def)
  qed
  show "rsp_write_text_view v = cbor_write_view_text v" if "length v < 2 ^ 32"
    using head [OF that] by (simp add: rsp_write_text_view_def cbor_write_text_def)
  show "rsp_write_text v = cbor_write_text v" if "length v \<le> 23"
  proof -
    have n: "length v < 2 ^ 64" using that by simp
    have lt: "(of_nat (length v) :: u64) < 24" using that unat_of_nat_u64 [OF n] by (simp add: word_less_nat_alt)
    have "unat (ucast (of_nat (length v) :: u64) :: byte) = length v" "unat (of_nat (length v) :: byte) = length v"
      using that unat_of_nat_u64 [OF n] by (simp_all add: unsigned_ucast_eq take_bit_nat_eq_self unat_of_nat)
    then have "(ucast (of_nat (length v) :: u64) :: byte) = of_nat (length v)" by (simp only: word_unat_eq_iff)
    with lt show ?thesis using that by (simp add: rsp_write_text_def cbor_write_text_def cbor_write_type_len_def)
  qed
qed

lemma resolve_input_exact: "length (host_resolve_input_bytes c m d u) = host_resolve_input_len c m d u"
  by (simp add: host_resolve_input_bytes_def host_resolve_input_len_def res_write_text_def res_write_text_view_def
      res_type_len_size_def length_rsp_write_text rsp_type_len_size_def [of 14] rsp_type_len_size_def [of 13]
      rsp_type_len_size_def [of 12] rsp_type_len_size_def [of 11] rsp_type_len_size_def [of 9] rsp_type_len_size_def [of 7])

lemma resolve_input_same:
  assumes "length c < 2 ^ 32" "length m < 2 ^ 32" "length u < 2 ^ 32"
  shows "host_resolve_input_bytes c m [] u = resolve_input_bytes c m u"
  using assms
  by (simp add: host_resolve_input_bytes_def resolve_input_bytes_def res_write_text_def res_write_text_view_def rsp_cbor_same
      cbor_write_view_text_def [of "[]"] cbor_write_text_def [of "[]"])

section \<open>Instructions\<close>

lemma effective_timeout_pos: "effective_timeout_ms ctx request e \<noteq> 0"
  by (simp add: effective_timeout_ms_def Let_def)

lemma budget_range:
  assumes "apply_instruction_budget t = Some n"
  shows "0 < n" "n \<le> 100000 * uint t" "n < 2 ^ 31"
proof -
  have t: "t \<noteq> 0" using assms by (simp add: apply_instruction_budget_def split: if_splits)
  have pos: "0 < uint t" using t uint_ge_0 [of t] by (simp add: order_le_less uint_0_iff)
  have lt: "uint t < 2 ^ 32" using uint_bounded [of t] by simp
  have prod: "uint ((ucast t :: u64) * 100000) = uint t * 100000"
    using lt by (simp add: uint_word_arith_bintrs unsigned_ucast_eq take_bit_int_eq_self)
  have le: "(0x7fffffff :: u64) < ucast t * 100000 \<longleftrightarrow> 0x7fffffff < uint t * 100000"
    by (simp add: word_less_def prod)
  show "0 < n" "n \<le> 100000 * uint t" "n < 2 ^ 31"
    using assms t pos le prod by (auto simp: apply_instruction_budget_def Let_def split: if_splits)
qed

section \<open>Properties\<close>

text \<open>
  The host accepts a binary only when the signature covers all of its code: the binary is the header,
  complete sections up to some offset, and one custom section that ends exactly at the end of the binary;
  OpenSSL has verified a signature of 64 bytes found there, with the key built in for the role, over
  everything before the section.
\<close>

theorem host_signature_covers_module:
  assumes "run_state (twep_wr_verify_wasm_signature L wasm role) w = (True, w')"
  shows "\<exists>n sig der k w0 w1 w2. take 4 wasm = wasm_magic \<and> sections read_leb_u32 wasm 8 n \<and>
     section_at read_leb_u32 wasm n 0 (length wasm) \<and> length sig = 64 \<and>
     fst (run_state (ossl_der_signature L (take 32 sig) (drop 32 sig)) w0) = Some der \<and>
     fst (run_state (ossl_public_key L (0x04 # (case role of
        TWEP_WR_WASM_SIGNATURE_ROLE_TEEP_AGENT \<Rightarrow> teep_agent_public_x @ teep_agent_public_y
      | TWEP_WR_WASM_SIGNATURE_ROLE_APP \<Rightarrow> app_code_signing_x @ app_code_signing_y))) w1) = Some k \<and>
     run_state (ossl_digest_verify L k der (take n wasm)) w2 = (True, w')"
proof -
  obtain sig where parsed: "parse_wasm_signature wasm = Some sig"
    using assms by (cases "parse_wasm_signature wasm") (auto simp: twep_wr_verify_wasm_signature_def)
  then have magic: "take 4 wasm = wasm_magic" and scan: "scan_signature wasm 8 = Some sig"
    by (auto simp: parse_wasm_signature_def mem_compare_eq0 wasm_magic_def split: if_splits)
  obtain n where n: "sections read_leb_u32 wasm 8 n" "section_at read_leb_u32 wasm n 0 (length wasm)"
    "sg_prefix sig = take n wasm" "length (sg_sig sig) = 64"
    using scan_signature_sound [OF scan] by blast
  have "\<exists>der k w0 w1 w2. fst (run_state (ossl_der_signature L (take 32 (sg_sig sig)) (drop 32 (sg_sig sig))) w0) = Some der \<and>
      fst (run_state (ossl_public_key L (0x04 # x @ y)) w1) = Some k \<and>
      run_state (ossl_digest_verify L k der (take n wasm)) w2 = (True, w')"
    if "run_state (verify_esp256 L x y (sg_sig sig) (take n wasm)) w = (True, w')" for x y
    using that n(4)
    by (auto simp: verify_esp256_def der_encode_raw_signature_def p256_public_key_from_coordinates_def
        split: prod.splits option.splits if_splits) (metis fst_conv)+
  with assms parsed n show ?thesis
    using magic by (cases role) (fastforce simp: twep_wr_verify_wasm_signature_def split: if_splits)+
qed


text \<open>
  The host and the trusted application ask the agent in the same words: the input of the host fills the
  memory allocated for it exactly, and with an empty state directory it is the input that the trusted
  application builds.
\<close>

theorem agent_input_agrees:
  assumes "length mode < 2 ^ 32" "length url < 2 ^ 32" "length command < 2 ^ 32" "mode \<noteq> []"
  shows "length (host_resolve_input_bytes command mode state_dir url) = host_resolve_input_len command mode state_dir url \<and>
     (build_teep_resolve_input_for_command command mode url n = Inr bs \<longrightarrow> bs = host_resolve_input_bytes command mode [] url)"
  using assms
  by (simp add: resolve_input_exact resolve_input_same build_teep_resolve_input_for_command_def Let_def)

section \<open>Concrete instances\<close>

definition trusting_openssl :: "(unit, unit) openssl" where
  "trusting_openssl = \<lparr>ossl_der_signature = (\<lambda>r s. State_Monad.return (Some (r @ s))),
     ossl_public_key = (\<lambda>_. State_Monad.return (Some ())), ossl_digest_verify = (\<lambda>_ _ _. State_Monad.return True),
     ossl_sha256 = toy_digest\<rparr>"

lemma signed1_accepted:
  "run_state (twep_wr_verify_wasm_signature trusting_openssl signed1 TWEP_WR_WASM_SIGNATURE_ROLE_TEEP_AGENT) () = (True, ())"
  by code_simp

theorem host_signature_covers_module_witness:
  "\<exists>n. sections read_leb_u32 signed1 8 n \<and> section_at read_leb_u32 signed1 n 0 (length signed1)"
  using host_signature_covers_module [OF signed1_accepted] by blast

definition resolve_output1 :: bytes where
  "resolve_output1 = [0xa2] @ cbor_write_text (ascii ''status'') @ cbor_write_text (ascii ''ok'') @
     cbor_write_text (ascii ''app'') @ [0xa7] @ cbor_write_text (ascii ''command'') @ cbor_write_text (ascii ''hi'') @
     cbor_write_text (ascii ''component_id'') @ cbor_write_text (ascii ''c'') @
     cbor_write_text (ascii ''version'') @ cbor_write_text (ascii ''1'') @
     cbor_write_text (ascii ''abi'') @ cbor_write_text (ascii ''twep-app-v1'') @
     cbor_write_text (ascii ''wasm_file'') @ cbor_write_text (ascii ''hi.wasm'') @
     cbor_write_text (ascii ''sha256'') @ cbor_write_bstr (replicate 32 7) @
     cbor_write_text (ascii ''resource_limits'') @ [0xa1] @
     cbor_write_text (ascii ''stack_bytes'') @ cbor_write_type_len 0 0xffffffff"

definition entry1 :: catalog_entry_t where
  "entry1 = \<lparr>ce_command = ascii ''hi'', ce_wasm_file = ascii ''hi.wasm'', ce_sha256 = replicate 32 7,
     ce_stack_bytes = 0x100000, ce_heap_bytes = 0x100000, ce_timeout_ms = 0, ce_max_output_bytes = 0x1000000\<rparr>"

lemma resolve_output1_parsed: "parse_teep_resolve_output resolve_output1 (ascii ''hi'') = Inr entry1"
  by code_simp


theorem agent_input_agrees_witness:
  "length (host_resolve_input_bytes (ascii ''hi'') (ascii ''mock'') (ascii ''state'') []) =
     host_resolve_input_len (ascii ''hi'') (ascii ''mock'') (ascii ''state'') [] \<and>
   build_teep_resolve_input_for_command (ascii ''hi'') (ascii ''mock'') [] 200 =
     Inr (host_resolve_input_bytes (ascii ''hi'') (ascii ''mock'') [] [])"
proof -
  have "\<not> isl (build_teep_resolve_input_for_command (ascii ''hi'') (ascii ''mock'') [] 200)" by code_simp
  then obtain bs where "build_teep_resolve_input_for_command (ascii ''hi'') (ascii ''mock'') [] 200 = Inr bs"
    by (cases "build_teep_resolve_input_for_command (ascii ''hi'') (ascii ''mock'') [] 200") auto
  then show ?thesis
    using agent_input_agrees [of "ascii ''mock''" "[]" "ascii ''hi''" "ascii ''state''" 200 bs] by simp
qed

end
