(* ===== verification/Ree_Agent.thy ===== *)
theory Ree_Agent
  imports Ree_Resolver
begin

text \<open>
  The host library without a trusted application: the functions it offers to the TEEP agent
  (\<^verbatim>\<open>lib/twep-wr/src/teep_agent_runtime.c\<close>), the run of the agent that resolves a command
  (\<^verbatim>\<open>catalog_resolver.c\<close>) and the run of the application (\<^verbatim>\<open>app_runtime.c\<close>), on the Linux backend and on
  the two backends that support nothing. The Wasm runtime is a parameter: as in the trusted application
  an instance is a value of an arbitrary type, and a call of a function of a module is a finite tree of
  calls of the library, which ends with a trap or a number. The pointers that a module passes are not
  null, and lengths of binaries and inputs fit in \<^verbatim>\<open>uint32_t\<close>. Output on \<^verbatim>\<open>stderr\<close> is left out.
\<close>

unbundle bit_operations_syntax

section \<open>The platform\<close>

text \<open>
  Random numbers and the clock of the operating system. A call of \<^verbatim>\<open>getrandom\<close> that is interrupted is
  repeated by the source; \<open>os_getrandom\<close> is the first one that is not, and \<open>None\<close> another error. The clock gives seconds and
  nanoseconds.
\<close>

record 'w os_misc =
  os_getrandom :: "nat \<Rightarrow> ('w, bytes option) state"
  os_clock :: "('w, (u64 \<times> u64) option) state"

function linux_random :: "'w os_misc \<Rightarrow> nat \<Rightarrow> ('w, bytes) platform_fn" where
  "linux_random X n =
     (if n = 0 then State_Monad.return (Inr [])
      else do {
        r \<leftarrow> os_getrandom X n;
        case r of None \<Rightarrow> State_Monad.return (Inl TWEP_WR_PLATFORM_ERR_IO)
        | Some bs \<Rightarrow>
          if bs = [] then State_Monad.return (Inl TWEP_WR_PLATFORM_ERR_IO)
          else do {
            more_bytes \<leftarrow> linux_random X (n - length bs);
            State_Monad.return (case more_bytes of Inl e \<Rightarrow> Inl e | Inr cs \<Rightarrow> Inr (bs @ cs)) } })"
  by pat_completeness auto
termination by (relation "measure snd") auto

declare linux_random.simps [simp del]

definition linux_unix_time_ms :: "'w os_misc \<Rightarrow> ('w, u64) state" where
  "linux_unix_time_ms X = do {
     ts \<leftarrow> os_clock X;
     State_Monad.return (case ts of None \<Rightarrow> 0 | Some (sec, nsec) \<Rightarrow> sec * 1000 + nsec div 1000000) }"

text \<open>What the library takes from its backend.\<close>

record 'w host_services =
  hs_backend :: "'w backend"
  hs_info :: twep_wr_platform_info_t
  hs_sealed_read :: "bytes \<Rightarrow> bytes \<Rightarrow> ('w, bytes) platform_fn"
  hs_random :: "nat \<Rightarrow> ('w, bytes) platform_fn"
  hs_time :: "('w, u64) state"

definition linux_services :: "('w, 'f) os_api \<Rightarrow> 'w os_misc \<Rightarrow> 'w host_services" where
  "linux_services Os X = \<lparr>hs_backend = linux_backend Os, hs_info = LINUX_PLATFORM_INFO,
     hs_sealed_read = linux_sealed_read Os, hs_random = linux_random X, hs_time = linux_unix_time_ms X\<rparr>"

definition sgx_platform_info :: twep_wr_platform_info_t where
  "sgx_platform_info = \<lparr>backend_name = ascii ''sgx'', sealed_storage_security = TWEP_WR_PLATFORM_SEALED_UNSUPPORTED,
     supports_file_io = False, supports_random = False, supports_time = False\<rparr>"

definition keystone_platform_info :: twep_wr_platform_info_t where
  "keystone_platform_info = \<lparr>backend_name = ascii ''keystone'', sealed_storage_security = TWEP_WR_PLATFORM_SEALED_UNSUPPORTED,
     supports_file_io = False, supports_random = False, supports_time = False\<rparr>"

definition riscv_optee_platform_info :: twep_wr_platform_info_t where
  "riscv_optee_platform_info = \<lparr>backend_name = ascii ''riscv-optee'',
     sealed_storage_security = TWEP_WR_PLATFORM_SEALED_TEE_REE_FS_SECURE_STORAGE,
     supports_file_io = True, supports_random = False, supports_time = False\<rparr>"

definition unsupported_backend :: "'w backend" where
  "unsupported_backend = \<lparr>pf_read_file = (\<lambda>_. State_Monad.return (Inl TWEP_WR_PLATFORM_ERR_UNSUPPORTED)),
     pf_write_file = (\<lambda>_ _. State_Monad.return (Inl TWEP_WR_PLATFORM_ERR_UNSUPPORTED)),
     pf_write_file_atomic = (\<lambda>_ _. State_Monad.return (Inl TWEP_WR_PLATFORM_ERR_UNSUPPORTED)),
     pf_file_exists = (\<lambda>_. State_Monad.return False),
     pf_mkdir_if_needed = (\<lambda>_. State_Monad.return (Inl TWEP_WR_PLATFORM_ERR_UNSUPPORTED)),
     pf_sealed_init = (\<lambda>_. State_Monad.return (Inl TWEP_WR_PLATFORM_ERR_UNSUPPORTED))\<rparr>"

definition sgx_services :: "'w host_services" where
  "sgx_services = \<lparr>hs_backend = unsupported_backend, hs_info = sgx_platform_info,
     hs_sealed_read = (\<lambda>_ _. State_Monad.return (Inl TWEP_WR_PLATFORM_ERR_UNSUPPORTED)),
     hs_random = (\<lambda>_. State_Monad.return (Inl TWEP_WR_PLATFORM_ERR_UNSUPPORTED)), hs_time = State_Monad.return 0\<rparr>"

definition keystone_services :: "'w host_services" where
  "keystone_services = sgx_services\<lparr>hs_info := keystone_platform_info\<rparr>"

section \<open>Functions for the agent\<close>

definition TWEP_WR_TEEP_AGENT_CAPABILITY :: u32 where
  "TWEP_WR_TEEP_AGENT_CAPABILITY = 0x54454550"

record teep_agent_exec_context_t =
  tx_ctx :: "twep_wr_context option"
  tx_wasm :: bytes
  tx_capability :: u32

text \<open>Whether the Wasm runtime takes the table of the functions for the agent is the argument.\<close>

definition twep_wr_register_teep_agent_hostcalls :: "bool \<Rightarrow> twep_wr_status_t" where
  "twep_wr_register_teep_agent_hostcalls registered = (if \<not> registered then TWEP_WR_ERR_INIT else TWEP_WR_OK)"

text \<open>The user data of an execution environment is absent unless it has been set.\<close>

type_synonym user_data = "teep_agent_exec_context_t option"

definition twep_wr_teep_agent_context_from_exec_env :: "user_data \<Rightarrow> twep_wr_context option" where
  "twep_wr_teep_agent_context_from_exec_env u =
     (case u of None \<Rightarrow> None
      | Some t \<Rightarrow> if tx_capability t \<noteq> TWEP_WR_TEEP_AGENT_CAPABILITY then None else tx_ctx t)"

text \<open>
  The table \<^verbatim>\<open>teep_agent_native_symbols\<close>. An answer of a function that fills a buffer is its status, the length
  it stores, if it stores one, and the bytes it stores.
\<close>

datatype agent_call =
  Agent_Log
| Agent_Read_File bytes nat
| Agent_Write_File bytes bytes
| Agent_Read_Protected bytes nat
| Agent_Http_Post bytes bytes nat
| Agent_Create_Evidence bytes bytes nat
| Agent_Platform_Status nat
| Agent_Measurement nat
| Agent_Acceptance_Generation
| Agent_Commit_Acceptance bytes bytes u64 u64
| Agent_Commit_Catalog bytes bytes u64 u64 bytes bytes
| Agent_Random nat
| Agent_Unix_Time_Ms

type_synonym filled = "int \<times> nat option \<times> bytes option"

datatype agent_answer =
  No_Answer | Filled filled | Agent_Status int | Agent_Generation int "u64 option" | Agent_Bytes int "bytes option" | Agent_Time u64

definition fill :: "bytes \<Rightarrow> nat \<Rightarrow> filled" where
  "fill bs buf_cap =
     (if length bs > buf_cap then (2, Some (clamp_u32 (length bs)), None)
      else (0, Some (clamp_u32 (length bs)), Some bs))"

text \<open>The two checks of a path, and the path below the state directory.\<close>

definition agent_path :: "user_data \<Rightarrow> bytes \<Rightarrow> bytes option" where
  "agent_path u path =
     (case twep_wr_teep_agent_context_from_exec_env u of None \<Rightarrow> None
      | Some ctx \<Rightarrow> (case twep_wr_relative_state_file_path (Some path) TWEP_WR_MAX_PATH_LEN of None \<Rightarrow> None
        | Some relative \<Rightarrow> twep_wr_state_relative_path ctx relative TWEP_WR_MAX_PATH_LEN))"

definition twep_host_read_file :: "'w host_services \<Rightarrow> user_data \<Rightarrow> bytes \<Rightarrow> nat \<Rightarrow> ('w, filled) state" where
  "twep_host_read_file S u path buf_cap =
     (case agent_path u path of None \<Rightarrow> State_Monad.return (1, None, None)
      | Some full_path \<Rightarrow> do {
          r \<leftarrow> twep_wr_read_file (hs_backend S) full_path;
          State_Monad.return (case r of None \<Rightarrow> (3, None, None) | Some bs \<Rightarrow> fill bs buf_cap) })"

definition twep_host_write_file :: "'w host_services \<Rightarrow> user_data \<Rightarrow> bytes \<Rightarrow> bytes \<Rightarrow> ('w, int) state" where
  "twep_host_write_file S u path data =
     (case agent_path u path of None \<Rightarrow> State_Monad.return 1
      | Some full_path \<Rightarrow> do {
          r \<leftarrow> pf_write_file_atomic (hs_backend S) full_path data;
          State_Monad.return (case r of Inr _ \<Rightarrow> 0 | Inl _ \<Rightarrow> 7) })"

definition twep_host_read_protected :: "'w host_services \<Rightarrow> user_data \<Rightarrow> bytes \<Rightarrow> nat \<Rightarrow> ('w, filled) state" where
  "twep_host_read_protected S u object_name buf_cap =
     (case twep_wr_teep_agent_context_from_exec_env u of None \<Rightarrow> State_Monad.return (1, None, None)
      | Some ctx \<Rightarrow> (case twep_wr_protected_object_name (Some object_name) TWEP_WR_MAX_PATH_LEN of
          None \<Rightarrow> State_Monad.return (1, None, None)
        | Some name \<Rightarrow>
          if \<not> twep_wr_platform_supports_protected_storage (hs_info S) then State_Monad.return (8, None, None)
          else do {
            r \<leftarrow> hs_sealed_read S (cx_state_dir ctx) name;
            State_Monad.return (case r of
              Inl e \<Rightarrow> (if e = TWEP_WR_PLATFORM_ERR_UNSUPPORTED then 8 else 3, None, None)
            | Inr bs \<Rightarrow> fill bs buf_cap) }))"

definition insecure_mode :: "twep_wr_context \<Rightarrow> bool" where
  "insecure_mode ctx \<longleftrightarrow> or_empty (cx_resolver_mode ctx) = ascii ''attestam-insecure'' \<and> insecure_demo_mode ctx"

text \<open>The answer of a callback of the embedder.\<close>

definition called_back :: "int \<times> bytes \<Rightarrow> nat \<Rightarrow> filled" where
  "called_back r buf_cap =
     (fst r, Some (clamp_u32 (length (snd r))), if length (snd r) > buf_cap then None else Some (snd r))"

definition twep_host_http_post :: "user_data \<Rightarrow> bytes \<Rightarrow> bytes \<Rightarrow> nat \<Rightarrow> filled" where
  "twep_host_http_post u url body buf_cap =
     (case twep_wr_teep_agent_context_from_exec_env u of None \<Rightarrow> (1, None, None)
      | Some ctx \<Rightarrow>
        if \<not> insecure_mode ctx then (4, Some 0, None)
        else let allowed = or_empty (cx_attestam_url ctx) in
          if length allowed = 0 \<or> length allowed \<noteq> length url \<or> mem_compare allowed url \<noteq> 0 then (4, Some 0, None)
          else case http_post (host_io ctx) of None \<Rightarrow> (5, Some 0, None)
          | Some f \<Rightarrow> called_back (f url body buf_cap) buf_cap)"

definition twep_host_create_evidence :: "user_data \<Rightarrow> bytes \<Rightarrow> bytes \<Rightarrow> nat \<Rightarrow> filled" where
  "twep_host_create_evidence u challenge agent_public_key_cose buf_cap =
     (case twep_wr_teep_agent_context_from_exec_env u of None \<Rightarrow> (1, None, None)
      | Some ctx \<Rightarrow>
        if \<not> insecure_mode ctx then (4, Some 0, None)
        else case create_evidence (host_io ctx) of None \<Rightarrow> (8, Some 0, None)
        | Some f \<Rightarrow> called_back (f challenge agent_public_key_cose buf_cap) buf_cap)"

definition newline :: bytes where
  "newline = [0x0a]"

definition platform_status_text :: "twep_wr_platform_info_t \<Rightarrow> bytes" where
  "platform_status_text info =
     ascii ''platform-backend='' @ backend_name info @ newline @
     ascii ''sealed-storage-security='' @ twep_wr_platform_sealed_security_label (sealed_storage_security info) @ newline @
     ascii ''sealed-storage-rollback-protected='' @
       twep_wr_bool_label (sealed_storage_security info = TWEP_WR_PLATFORM_SEALED_TEE_PROTECTED) @ newline @
     ascii ''protected-storage-supported='' @ twep_wr_bool_label (twep_wr_platform_supports_protected_storage info) @ newline @
     ascii ''file-io='' @ twep_wr_bool_label (supports_file_io info) @ newline @
     ascii ''random='' @ twep_wr_bool_label (supports_random info) @ newline @
     ascii ''time='' @ twep_wr_bool_label (supports_time info) @ newline"

definition twep_host_platform_status :: "'w host_services \<Rightarrow> user_data \<Rightarrow> nat \<Rightarrow> filled" where
  "twep_host_platform_status S u buf_cap =
     (case twep_wr_teep_agent_context_from_exec_env u of None \<Rightarrow> (1, None, None)
      | Some _ \<Rightarrow>
        let text = platform_status_text (hs_info S) in
        if length text = 0 \<or> length text \<ge> 256 then (7, None, None) else fill text buf_cap)"

text \<open>The only function that does not ask for the context, only for the capability.\<close>

definition twep_host_teep_agent_measurement_sha256 :: "('w, 'k) openssl \<Rightarrow> user_data \<Rightarrow> nat \<Rightarrow> filled" where
  "twep_host_teep_agent_measurement_sha256 L u buf_cap =
     (case u of None \<Rightarrow> (1, None, None)
      | Some t \<Rightarrow>
        if tx_capability t \<noteq> TWEP_WR_TEEP_AGENT_CAPABILITY then (1, None, None)
        else if length (tx_wasm t) = 0 then (8, Some 0, None)
        else if buf_cap < 32 then (2, Some 32, None)
        else (0, Some 32, Some (ossl_sha256 L (tx_wasm t))))"

text \<open>There is no acceptance state without a trusted application: the three functions are refused.\<close>

definition twep_host_acceptance_generation :: "user_data \<Rightarrow> int \<times> u64 option" where
  "twep_host_acceptance_generation u =
     (case twep_wr_teep_agent_context_from_exec_env u of None \<Rightarrow> (1, None) | Some _ \<Rightarrow> (8, Some 0))"

definition twep_host_commit_acceptance :: "user_data \<Rightarrow> bytes \<Rightarrow> bytes \<Rightarrow> u64 \<Rightarrow> u64 \<Rightarrow> int \<times> u64 option" where
  "twep_host_commit_acceptance u digest_bytes component_id sequence expected_generation =
     (case twep_wr_teep_agent_context_from_exec_env u of None \<Rightarrow> (1, None) | Some _ \<Rightarrow> (8, Some 0))"

definition twep_host_commit_catalog ::
  "user_data \<Rightarrow> bytes \<Rightarrow> bytes \<Rightarrow> u64 \<Rightarrow> u64 \<Rightarrow> bytes \<Rightarrow> bytes \<Rightarrow> int \<times> u64 option" where
  "twep_host_commit_catalog u digest_bytes component_id sequence expected_generation catalog catalog_digest =
     (case twep_wr_teep_agent_context_from_exec_env u of None \<Rightarrow> (1, None) | Some _ \<Rightarrow> (8, Some 0))"

definition twep_host_random :: "'w host_services \<Rightarrow> user_data \<Rightarrow> nat \<Rightarrow> ('w, int \<times> bytes option) state" where
  "twep_host_random S u buf_len =
     (case twep_wr_teep_agent_context_from_exec_env u of None \<Rightarrow> State_Monad.return (1, None)
      | Some _ \<Rightarrow> do {
          r \<leftarrow> hs_random S buf_len;
          State_Monad.return (case r of Inr bs \<Rightarrow> (0, Some bs) | Inl _ \<Rightarrow> (7, None)) })"

definition twep_host_unix_time_ms :: "'w host_services \<Rightarrow> user_data \<Rightarrow> ('w, u64) state" where
  "twep_host_unix_time_ms S u =
     (case twep_wr_teep_agent_context_from_exec_env u of None \<Rightarrow> State_Monad.return 0 | Some _ \<Rightarrow> hs_time S)"

text \<open>\<^verbatim>\<open>twep_host_log\<close> only writes to \<^verbatim>\<open>stderr\<close>.\<close>

primrec agent_host_call ::
  "'w host_services \<Rightarrow> ('w, 'k) openssl \<Rightarrow> user_data \<Rightarrow> agent_call \<Rightarrow> ('w, agent_answer) state" where
  "agent_host_call S L u Agent_Log = State_Monad.return No_Answer"
| "agent_host_call S L u (Agent_Read_File path cap) = do {
     r \<leftarrow> twep_host_read_file S u path cap; State_Monad.return (Filled r) }"
| "agent_host_call S L u (Agent_Write_File path data) = do {
     r \<leftarrow> twep_host_write_file S u path data; State_Monad.return (Agent_Status r) }"
| "agent_host_call S L u (Agent_Read_Protected nm cap) = do {
     r \<leftarrow> twep_host_read_protected S u nm cap; State_Monad.return (Filled r) }"
| "agent_host_call S L u (Agent_Http_Post url body cap) = State_Monad.return (Filled (twep_host_http_post u url body cap))"
| "agent_host_call S L u (Agent_Create_Evidence challenge key cap) =
     State_Monad.return (Filled (twep_host_create_evidence u challenge key cap))"
| "agent_host_call S L u (Agent_Platform_Status cap) = State_Monad.return (Filled (twep_host_platform_status S u cap))"
| "agent_host_call S L u (Agent_Measurement cap) =
     State_Monad.return (Filled (twep_host_teep_agent_measurement_sha256 L u cap))"
| "agent_host_call S L u Agent_Acceptance_Generation =
     State_Monad.return (case twep_host_acceptance_generation u of (st, g) \<Rightarrow> Agent_Generation st g)"
| "agent_host_call S L u (Agent_Commit_Acceptance d i n g) =
     State_Monad.return (case twep_host_commit_acceptance u d i n g of (st, v) \<Rightarrow> Agent_Generation st v)"
| "agent_host_call S L u (Agent_Commit_Catalog d i n g cat cd) =
     State_Monad.return (case twep_host_commit_catalog u d i n g cat cd of (st, v) \<Rightarrow> Agent_Generation st v)"
| "agent_host_call S L u (Agent_Random n) = do {
     (st, bs) \<leftarrow> twep_host_random S u n; State_Monad.return (Agent_Bytes st bs) }"
| "agent_host_call S L u Agent_Unix_Time_Ms = do {
     ms \<leftarrow> twep_host_unix_time_ms S u; State_Monad.return (Agent_Time ms) }"

section \<open>The Wasm runtime\<close>

datatype 'i agent_run = Ended "u32 option" 'i | Calls agent_call "agent_answer \<Rightarrow> 'i agent_run"

text \<open>\<open>rt_module_malloc\<close> returns an address and whether there is a native pointer for it.\<close>

record ('w, 'i) host_wamr =
  rt_load :: "bytes \<Rightarrow> ('w, bool) state"
  rt_instantiate :: "bytes \<Rightarrow> u32 \<Rightarrow> u32 \<Rightarrow> ('w, 'i option) state"
  rt_create_exec_env :: "'i \<Rightarrow> u32 \<Rightarrow> ('w, bool) state"
  rt_module_malloc :: "'i \<Rightarrow> nat \<Rightarrow> 'i \<times> u32 \<times> bool"
  rt_write :: "'i \<Rightarrow> u32 \<Rightarrow> bytes \<Rightarrow> 'i"
  rt_read :: "'i \<Rightarrow> u32 \<Rightarrow> nat \<Rightarrow> bytes"
  rt_validate_app_addr :: "'i \<Rightarrow> u32 \<Rightarrow> u32 \<Rightarrow> bool"
  rt_addr_app_to_native :: "'i \<Rightarrow> u32 \<Rightarrow> bool"
  rt_set_instruction_count_limit :: "'i \<Rightarrow> int \<Rightarrow> 'i"
  rt_lookup_function :: "'i \<Rightarrow> bytes \<Rightarrow> bool"
  rt_call_wasm :: "'i \<Rightarrow> bytes \<Rightarrow> u32 list \<Rightarrow> 'i agent_run"

primrec run_calls ::
  "'w host_services \<Rightarrow> ('w, 'k) openssl \<Rightarrow> user_data \<Rightarrow> 'i agent_run \<Rightarrow> ('w, u32 option \<times> 'i) state" where
  "run_calls S L u (Ended r i) = State_Monad.return (r, i)"
| "run_calls S L u (Calls c k) = do { a \<leftarrow> agent_host_call S L u c; run_calls S L u (k a) }"

text \<open>A host: the parameters that the functions below share.\<close>

record ('w, 'f, 'k, 'i) host =
  h_os :: "('w, 'f) os_api"
  h_services :: "'w host_services"
  h_openssl :: "('w, 'k) openssl"
  h_wamr :: "('w, 'i) host_wamr"

definition call_wasm ::
  "('w, 'f, 'k, 'i) host \<Rightarrow> user_data \<Rightarrow> 'i \<Rightarrow> bytes \<Rightarrow> u32 list \<Rightarrow> ('w, u32 option \<times> 'i) state" where
  "call_wasm H u i name args = run_calls (h_services H) (h_openssl H) u (rt_call_wasm (h_wamr H) i name args)"

definition twep_wr_call_u32_no_args ::
  "('w, 'f, 'k, 'i) host \<Rightarrow> user_data \<Rightarrow> 'i \<Rightarrow> bytes \<Rightarrow> ('w, (twep_wr_status_t + u32) \<times> 'i) state" where
  "twep_wr_call_u32_no_args H u i name =
     (if \<not> rt_lookup_function (h_wamr H) i name then State_Monad.return (Inl TWEP_WR_ERR_WASM_ABI, i)
      else do {
        (r, i') \<leftarrow> call_wasm H u i name [];
        State_Monad.return (case r of None \<Rightarrow> Inl TWEP_WR_ERR_WASM_RUNTIME | Some v \<Rightarrow> Inr v, i') })"

definition twep_wr_call_free :: "('w, 'f, 'k, 'i) host \<Rightarrow> user_data \<Rightarrow> 'i \<Rightarrow> u32 \<Rightarrow> u32 \<Rightarrow> ('w, twep_wr_status_t) state" where
  "twep_wr_call_free H u i ptr len =
     (if \<not> rt_lookup_function (h_wamr H) i (ascii ''twep_app_free'') then State_Monad.return TWEP_WR_ERR_WASM_ABI
      else do {
        (r, _) \<leftarrow> call_wasm H u i (ascii ''twep_app_free'') [ptr, len];
        State_Monad.return (if r = None then TWEP_WR_ERR_WASM_RUNTIME else TWEP_WR_OK) })"

text \<open>Bytes placed in the memory of the module; the flag says whether the allocation succeeded.\<close>

definition place :: "('w, 'f, 'k, 'i) host \<Rightarrow> bytes \<Rightarrow> 'i \<Rightarrow> 'i \<times> u32 \<times> bool" where
  "place H bs i =
     (let (i1, ptr, native) = rt_module_malloc (h_wamr H) i (length bs) in
      if ptr = 0 \<or> \<not> native then (i1, ptr, False) else (rt_write (h_wamr H) i1 ptr bs, ptr, True))"

definition descriptor :: "('w, 'f, 'k, 'i) host \<Rightarrow> 'i \<Rightarrow> u32 \<Rightarrow> u32 \<times> u32" where
  "descriptor H i desc_ptr =
     (let desc = rt_read (h_wamr H) i desc_ptr 8 in (le32 desc, le32 (drop 4 desc)))"

section \<open>The run of the agent\<close>

text \<open>
  An outcome, the instance, and the address and length of the output, which the caller gives back to
  the module; the address is 0 as long as there is none.
\<close>

type_synonym 'i agent_result = "(twep_wr_status_t + catalog_entry_t) \<times> 'i \<times> u32 \<times> u32"

definition host_agent_output :: "('w, 'f, 'k, 'i) host \<Rightarrow> bytes \<Rightarrow> 'i \<Rightarrow> u32 \<Rightarrow> 'i agent_result" where
  "host_agent_output H command i desc_ptr =
     (case descriptor H i desc_ptr of (output_ptr, output_len) \<Rightarrow>
        if output_ptr = 0 \<or> output_len = 0 \<or> \<not> rt_validate_app_addr (h_wamr H) i output_ptr output_len
        then (Inl TWEP_WR_ERR_TEEP, i, output_ptr, output_len)
        else if \<not> rt_addr_app_to_native (h_wamr H) i output_ptr then (Inl TWEP_WR_ERR_TEEP, i, output_ptr, output_len)
        else (parse_teep_resolve_output (rt_read (h_wamr H) i output_ptr (unat output_len)) command, i, output_ptr, output_len))"

definition agent_main ::
  "('w, 'f, 'k, 'i) host \<Rightarrow> user_data \<Rightarrow> twep_wr_context \<Rightarrow> bytes \<Rightarrow> 'i \<Rightarrow> ('w, 'i agent_result) state" where
  "agent_main H u ctx command i = do {
     (abi, i) \<leftarrow> twep_wr_call_u32_no_args H u i (ascii ''twep_app_abi_version'');
     if abi \<noteq> Inr 1 then State_Monad.return (Inl TWEP_WR_ERR_TEEP, i, 0, 0)
     else do {
       built \<leftarrow> make_teep_resolve_input (h_os H) ctx command;
       case built of Inl e \<Rightarrow> State_Monad.return (Inl e, i, 0, 0)
       | Inr (_, input) \<Rightarrow> (case place H input i of (i, input_ptr, ok) \<Rightarrow>
           if \<not> ok then State_Monad.return (Inl TWEP_WR_ERR_NO_MEMORY, i, 0, 0)
           else case place H (replicate 8 0) i of (i, desc_ptr, ok) \<Rightarrow>
             if \<not> ok then State_Monad.return (Inl TWEP_WR_ERR_NO_MEMORY, i, 0, 0)
             else if \<not> rt_lookup_function (h_wamr H) i (ascii ''twep_app_main'')
             then State_Monad.return (Inl TWEP_WR_ERR_TEEP, i, 0, 0)
             else do {
               (r, i) \<leftarrow> call_wasm H u i (ascii ''twep_app_main'') [input_ptr, of_nat (length input), desc_ptr];
               State_Monad.return (case r of None \<Rightarrow> (Inl TWEP_WR_ERR_TEEP, i, 0, 0)
                 | Some v \<Rightarrow>
                   if sint v = 5 then (Inl TWEP_WR_ERR_CATALOG, i, 0, 0)
                   else if sint v = 7 then (Inl TWEP_WR_ERR_SECURITY, i, 0, 0)
                   else if sint v \<noteq> 0 then (Inl TWEP_WR_ERR_TEEP, i, 0, 0)
                   else host_agent_output H command i desc_ptr) }) } }"

definition run_agent_binary ::
  "('w, 'f, 'k, 'i) host \<Rightarrow> twep_wr_context \<Rightarrow> bytes \<Rightarrow> bytes \<Rightarrow> ('w, twep_wr_status_t + catalog_entry_t) state" where
  "run_agent_binary H ctx command wasm = do {
     loaded \<leftarrow> rt_load (h_wamr H) wasm;
     if \<not> loaded then State_Monad.return (Inl TWEP_WR_ERR_TEEP)
     else do {
       inst \<leftarrow> rt_instantiate (h_wamr H) wasm TWEP_WR_DEFAULT_STACK_SIZE TWEP_WR_DEFAULT_HEAP_SIZE;
       case inst of None \<Rightarrow> State_Monad.return (Inl TWEP_WR_ERR_TEEP)
       | Some i \<Rightarrow> do {
           ok \<leftarrow> rt_create_exec_env (h_wamr H) i TWEP_WR_DEFAULT_STACK_SIZE;
           if \<not> ok then State_Monad.return (Inl TWEP_WR_ERR_NO_MEMORY)
           else do {
             let u = Some \<lparr>tx_ctx = Some ctx, tx_wasm = wasm, tx_capability = TWEP_WR_TEEP_AGENT_CAPABILITY\<rparr>;
             (res, i, output_ptr, output_len) \<leftarrow> agent_main H u ctx command i;
             _ \<leftarrow> (if output_ptr \<noteq> 0 then twep_wr_call_free H u i output_ptr output_len
                    else State_Monad.return TWEP_WR_OK);
             State_Monad.return res } } } }"

definition run_teep_agent_resolve ::
  "('w, 'f, 'k, 'i) host \<Rightarrow> twep_wr_context \<Rightarrow> bytes \<Rightarrow> ('w, twep_wr_status_t + catalog_entry_t) state" where
  "run_teep_agent_resolve H ctx command = do {
     status \<leftarrow> twep_wr_ensure_teep_agent (hs_backend (h_services H)) ctx;
     if status \<noteq> TWEP_WR_OK then State_Monad.return (Inl status)
     else case twep_wr_state_path ctx (ascii ''teep-agent'') (Some (ascii ''teep-agent.wasm'')) TWEP_WR_MAX_PATH_LEN of
       None \<Rightarrow> State_Monad.return (Inl TWEP_WR_ERR_TEEP)
     | Some path \<Rightarrow> do {
         r \<leftarrow> twep_wr_read_file (hs_backend (h_services H)) path;
         case r of None \<Rightarrow> State_Monad.return (Inl TWEP_WR_ERR_TEEP)
         | Some wasm \<Rightarrow> do {
             signed \<leftarrow> twep_wr_verify_wasm_signature (h_openssl H) wasm TWEP_WR_WASM_SIGNATURE_ROLE_TEEP_AGENT;
             if \<not> signed then State_Monad.return (Inl TWEP_WR_ERR_WASM_SIGNATURE)
             else run_agent_binary H ctx command wasm } } }"

text \<open>The catalog of the environment variable replaces the one in the state directory.\<close>

definition override_catalog :: "('w, 'f, 'k, 'i) host \<Rightarrow> twep_wr_context \<Rightarrow> ('w, twep_wr_status_t) state" where
  "override_catalog H ctx =
     (case os_getenv (h_os H) (ascii ''TWEP_CATALOG_CBOR'') of None \<Rightarrow> State_Monad.return TWEP_WR_OK
      | Some catalog_cbor_path \<Rightarrow>
        if catalog_cbor_path = [] then State_Monad.return TWEP_WR_OK
        else case twep_wr_state_path ctx (ascii ''catalog'') (Some (ascii ''catalog.cbor'')) TWEP_WR_MAX_PATH_LEN of
          None \<Rightarrow> State_Monad.return TWEP_WR_ERR_CATALOG
        | Some state_catalog \<Rightarrow> twep_wr_copy_file (hs_backend (h_services H)) catalog_cbor_path state_catalog)"

definition lookup_catalog_entry_dev_resolver ::
  "('w, 'f, 'k, 'i) host \<Rightarrow> twep_wr_context \<Rightarrow> bytes \<Rightarrow> ('w, twep_wr_status_t + catalog_entry_t) state" where
  "lookup_catalog_entry_dev_resolver H ctx command = do {
     status \<leftarrow> twep_wr_ensure_state_layout (hs_backend (h_services H)) ctx;
     if status \<noteq> TWEP_WR_OK then State_Monad.return (Inl status)
     else do {
       status \<leftarrow> twep_wr_ensure_state_catalog (hs_backend (h_services H)) ctx;
       if status \<noteq> TWEP_WR_OK then State_Monad.return (Inl status)
       else do {
         status \<leftarrow> override_catalog H ctx;
         if status \<noteq> TWEP_WR_OK then State_Monad.return (Inl status)
         else do {
           res \<leftarrow> run_teep_agent_resolve H ctx command;
           case res of Inl e \<Rightarrow> State_Monad.return (Inl e)
           | Inr entry \<Rightarrow>
             (case twep_wr_state_path ctx (ascii ''apps'') (Some (ce_wasm_file entry)) TWEP_WR_MAX_PATH_LEN of
                None \<Rightarrow> State_Monad.return (Inl TWEP_WR_ERR_CATALOG)
              | Some app_path \<Rightarrow> do {
                  there \<leftarrow> twep_wr_file_exists (hs_backend (h_services H)) app_path;
                  if there then State_Monad.return (Inr entry)
                  else do {
                    status \<leftarrow> twep_wr_ensure_state_app (hs_backend (h_services H)) ctx (ce_wasm_file entry);
                    if status \<noteq> TWEP_WR_OK then State_Monad.return (Inl status)
                    else run_teep_agent_resolve H ctx command } }) } } } }"

definition lookup_catalog_entry_verified_resolver ::
  "('w, 'f, 'k, 'i) host \<Rightarrow> twep_wr_context \<Rightarrow> bytes \<Rightarrow> ('w, twep_wr_status_t + catalog_entry_t) state" where
  "lookup_catalog_entry_verified_resolver H ctx command = do {
     status \<leftarrow> twep_wr_ensure_state_layout (hs_backend (h_services H)) ctx;
     if status \<noteq> TWEP_WR_OK then State_Monad.return (Inl status) else run_teep_agent_resolve H ctx command }"

definition twep_wr_lookup_catalog_entry ::
  "('w, 'f, 'k, 'i) host \<Rightarrow> twep_wr_context \<Rightarrow> bytes option \<Rightarrow> ('w, twep_wr_status_t + catalog_entry_t) state" where
  "twep_wr_lookup_catalog_entry H ctx command =
     (case command of None \<Rightarrow> State_Monad.return (Inl TWEP_WR_ERR_INVALID_ARGUMENT)
      | Some command \<Rightarrow>
        if or_empty (cx_resolver_mode ctx) = ascii ''attestam-verified''
        then lookup_catalog_entry_verified_resolver H ctx command
        else lookup_catalog_entry_dev_resolver H ctx command)"

section \<open>The run of an application\<close>

definition read_wasm_from_state :: "'w backend \<Rightarrow> twep_wr_context \<Rightarrow> bytes \<Rightarrow> ('w, bytes option) state" where
  "read_wasm_from_state B ctx wasm_file =
     (case twep_wr_state_path ctx (ascii ''apps'') (Some wasm_file) TWEP_WR_MAX_PATH_LEN of
        None \<Rightarrow> State_Monad.return None
      | Some path \<Rightarrow> twep_wr_read_file B path)"

type_synonym response = "twep_wr_status_t \<times> bytes option"

definition built_response :: "twep_wr_status_t + nat \<times> bytes \<Rightarrow> response" where
  "built_response r = (case r of Inl e \<Rightarrow> (e, None) | Inr (_, bs) \<Rightarrow> (TWEP_WR_OK, Some bs))"

text \<open>The output of an application whose main function returned 0.\<close>

definition host_app_output ::
  "('w, 'f, 'k, 'i) host \<Rightarrow> bytes \<Rightarrow> catalog_entry_t \<Rightarrow> 'i \<Rightarrow> u32 \<Rightarrow> u32 \<Rightarrow> ('w, response) state" where
  "host_app_output H request_id entry i output_ptr output_len =
     (if output_ptr = 0 \<or> output_len = 0 \<or> \<not> rt_validate_app_addr (h_wamr H) i output_ptr output_len
      then State_Monad.return (TWEP_WR_ERR_WASM_ABI, None)
      else if output_len > ce_max_output_bytes entry then State_Monad.return (TWEP_WR_ERR_WASM_RUNTIME, None)
      else if \<not> rt_addr_app_to_native (h_wamr H) i output_ptr then State_Monad.return (TWEP_WR_ERR_WASM_ABI, None)
      else let output = rt_read (h_wamr H) i output_ptr (unat output_len) in
        case extract_optional_stdout output of Inl e \<Rightarrow> State_Monad.return (e, None)
        | Inr stdout_bytes \<Rightarrow> do {
            mem \<leftarrow> os_malloc (h_os H) (make_response_len request_id stdout_bytes output);
            State_Monad.return (built_response (twep_wr_make_response mem request_id stdout_bytes output)) })"

text \<open>The budget is set on the environment of the instance just before the main function is called.\<close>

definition host_app_main ::
  "('w, 'f, 'k, 'i) host \<Rightarrow> bytes \<Rightarrow> bytes option \<Rightarrow> bytes \<Rightarrow> catalog_entry_t \<Rightarrow> u32 \<Rightarrow> 'i \<Rightarrow> ('w, response) state" where
  "host_app_main H request_id command input entry timeout i = do {
     (abi, i) \<leftarrow> twep_wr_call_u32_no_args H None i (ascii ''twep_app_abi_version'');
     if abi \<noteq> Inr 1 then State_Monad.return (TWEP_WR_ERR_WASM_ABI, None)
     else case (if length input > 0 then place H input i else (i, 0, True)) of (i, input_ptr, ok) \<Rightarrow>
       if \<not> ok then State_Monad.return (TWEP_WR_ERR_NO_MEMORY, None)
       else case place H (replicate 8 0) i of (i, desc_ptr, ok) \<Rightarrow>
         if \<not> ok then State_Monad.return (TWEP_WR_ERR_NO_MEMORY, None)
         else if \<not> rt_lookup_function (h_wamr H) i (ascii ''twep_app_main'')
         then State_Monad.return (TWEP_WR_ERR_WASM_ABI, None)
         else do {
           let i = (case apply_instruction_budget timeout of None \<Rightarrow> i
             | Some n \<Rightarrow> rt_set_instruction_count_limit (h_wamr H) i n);
           (r, i) \<leftarrow> call_wasm H None i (ascii ''twep_app_main'') [input_ptr, of_nat (length input), desc_ptr];
           case r of None \<Rightarrow> State_Monad.return (TWEP_WR_ERR_WASM_RUNTIME, None)
           | Some v \<Rightarrow>
             if sint v \<noteq> 0 then do {
               mem \<leftarrow> os_malloc (h_os H)
                 (app_error_len request_id (sint v) (or_empty command) (ce_wasm_file entry));
               State_Monad.return (built_response
                 (twep_wr_make_app_error_response mem request_id (sint v) command (Some (ce_wasm_file entry)))) }
             else (case descriptor H i desc_ptr of (output_ptr, output_len) \<Rightarrow> do {
               res \<leftarrow> host_app_output H request_id entry i output_ptr output_len;
               _ \<leftarrow> (if output_ptr \<noteq> 0 then twep_wr_call_free H None i output_ptr output_len
                      else State_Monad.return TWEP_WR_OK);
               State_Monad.return res }) } }"

definition run_app_binary ::
  "('w, 'f, 'k, 'i) host \<Rightarrow> twep_wr_normalized_request_t \<Rightarrow> catalog_entry_t \<Rightarrow> u32 \<Rightarrow> bytes \<Rightarrow> ('w, response) state" where
  "run_app_binary H request entry timeout wasm = do {
     loaded \<leftarrow> rt_load (h_wamr H) wasm;
     if \<not> loaded then State_Monad.return (TWEP_WR_ERR_WASM_LOAD, None)
     else do {
       inst \<leftarrow> rt_instantiate (h_wamr H) wasm (ce_stack_bytes entry) (ce_heap_bytes entry);
       case inst of None \<Rightarrow> State_Monad.return (TWEP_WR_ERR_WASM_LOAD, None)
       | Some i \<Rightarrow> do {
           ok \<leftarrow> rt_create_exec_env (h_wamr H) i (ce_stack_bytes entry);
           if \<not> ok then State_Monad.return (TWEP_WR_ERR_NO_MEMORY, None)
           else host_app_main H (or_empty (rq_request_id request)) (rq_command request) (app_input_bytes request)
             entry timeout i } } }"

definition twep_wr_run_app_wasm ::
  "('w, 'f, 'k, 'i) host \<Rightarrow> twep_wr_context \<Rightarrow> twep_wr_normalized_request_t \<Rightarrow> ('w, response) state" where
  "twep_wr_run_app_wasm H ctx request = do {
     res \<leftarrow> twep_wr_lookup_catalog_entry H ctx (rq_command request);
     case res of Inl e \<Rightarrow> State_Monad.return (e, None)
     | Inr entry \<Rightarrow> do {
         r \<leftarrow> read_wasm_from_state (hs_backend (h_services H)) ctx (ce_wasm_file entry);
         case r of None \<Rightarrow> State_Monad.return (TWEP_WR_ERR_WASM_LOAD, None)
         | Some wasm \<Rightarrow>
           if \<not> twep_wr_sha256_matches (h_openssl H) wasm (ce_sha256 entry)
           then State_Monad.return (TWEP_WR_ERR_SECURITY, None)
           else do {
             signed \<leftarrow> twep_wr_verify_wasm_signature (h_openssl H) wasm TWEP_WR_WASM_SIGNATURE_ROLE_APP;
             if \<not> signed then State_Monad.return (TWEP_WR_ERR_WASM_SIGNATURE, None)
             else run_app_binary H request entry (effective_timeout_ms ctx request entry) wasm } } }"

text \<open>The entry point of the library with a backend that has no trusted application.\<close>

definition host_execute ::
  "('w, 'f, 'k, 'i) host \<Rightarrow> twep_wr_context option \<Rightarrow> twep_wr_normalized_request_t option \<Rightarrow> 'w \<Rightarrow> response \<times> 'w" where
  "host_execute H = twep_wr_execute (\<lambda>ctx request. run_state (twep_wr_run_app_wasm H ctx request))"

section \<open>Calls without the capability\<close>

text \<open>
  Without user data every function refuses: the answer depends on nothing but the call, and the
  world stays as it is.
\<close>

primrec refusal :: "agent_call \<Rightarrow> agent_answer" where
  "refusal Agent_Log = No_Answer"
| "refusal (Agent_Read_File path cap) = Filled (1, None, None)"
| "refusal (Agent_Write_File path data) = Agent_Status 1"
| "refusal (Agent_Read_Protected nm cap) = Filled (1, None, None)"
| "refusal (Agent_Http_Post url body cap) = Filled (1, None, None)"
| "refusal (Agent_Create_Evidence challenge key cap) = Filled (1, None, None)"
| "refusal (Agent_Platform_Status cap) = Filled (1, None, None)"
| "refusal (Agent_Measurement cap) = Filled (1, None, None)"
| "refusal Agent_Acceptance_Generation = Agent_Generation 1 None"
| "refusal (Agent_Commit_Acceptance d i n g) = Agent_Generation 1 None"
| "refusal (Agent_Commit_Catalog d i n g cat cd) = Agent_Generation 1 None"
| "refusal (Agent_Random n) = Agent_Bytes 1 None"
| "refusal Agent_Unix_Time_Ms = Agent_Time 0"

primrec refused_run :: "'i agent_run \<Rightarrow> u32 option \<times> 'i" where
  "refused_run (Ended r i) = (r, i)"
| "refused_run (Calls c k) = refused_run (k (refusal c))"

lemmas host_function_defs = twep_host_read_file_def twep_host_write_file_def twep_host_read_protected_def
  twep_host_http_post_def twep_host_create_evidence_def twep_host_platform_status_def
  twep_host_teep_agent_measurement_sha256_def twep_host_acceptance_generation_def twep_host_commit_acceptance_def
  twep_host_commit_catalog_def twep_host_random_def twep_host_unix_time_ms_def agent_path_def
  twep_wr_teep_agent_context_from_exec_env_def

lemma refused_call: "run_state (agent_host_call S L None c) w = (refusal c, w)"
  by (cases c) (simp_all add: host_function_defs)

lemma refused_calls: "run_state (run_calls S L None r) w = (refused_run r, w)"
  by (induction r arbitrary: w) (simp_all add: refused_call)

section \<open>Callbacks\<close>

lemma callbacks_call:
  assumes "\<not> insecure_mode ctx"
  shows "agent_host_call S L (Some \<lparr>tx_ctx = Some (ctx\<lparr>host_io := io\<rparr>), tx_wasm = b, tx_capability = cap\<rparr>) c =
    agent_host_call S L (Some \<lparr>tx_ctx = Some ctx, tx_wasm = b, tx_capability = cap\<rparr>) c"
  using assms
  by (cases c) (simp_all add: host_function_defs twep_wr_state_relative_path_def insecure_mode_def
      cong del: if_weak_cong option.case_cong_weak sum.case_cong_weak)

lemma callbacks_run:
  assumes "\<not> insecure_mode ctx"
  shows "run_calls S L (Some \<lparr>tx_ctx = Some (ctx\<lparr>host_io := io\<rparr>), tx_wasm = b, tx_capability = cap\<rparr>) r =
    run_calls S L (Some \<lparr>tx_ctx = Some ctx, tx_wasm = b, tx_capability = cap\<rparr>) r"
  by (induction r) (simp_all add: callbacks_call [OF assms])

lemma context_kept:
  "twep_wr_state_path (ctx\<lparr>host_io := io\<rparr>) = twep_wr_state_path ctx"
  "ensure_subdirs B (ctx\<lparr>host_io := io\<rparr>) subs = ensure_subdirs B ctx subs"
  "twep_wr_ensure_state_layout B (ctx\<lparr>host_io := io\<rparr>) = twep_wr_ensure_state_layout B ctx"
  "twep_wr_ensure_state_catalog B (ctx\<lparr>host_io := io\<rparr>) = twep_wr_ensure_state_catalog B ctx"
  "twep_wr_ensure_state_app B (ctx\<lparr>host_io := io\<rparr>) f = twep_wr_ensure_state_app B ctx f"
  "twep_wr_ensure_teep_agent B (ctx\<lparr>host_io := io\<rparr>) = twep_wr_ensure_teep_agent B ctx"
  "override_catalog H (ctx\<lparr>host_io := io\<rparr>) = override_catalog H ctx"
  "make_teep_resolve_input Os (ctx\<lparr>host_io := io\<rparr>) command = make_teep_resolve_input Os ctx command"
  "read_wasm_from_state B (ctx\<lparr>host_io := io\<rparr>) f = read_wasm_from_state B ctx f"
  "effective_timeout_ms (ctx\<lparr>host_io := io\<rparr>) rq e = effective_timeout_ms ctx rq e"
proof -
  show path: "twep_wr_state_path (ctx\<lparr>host_io := io\<rparr>) = twep_wr_state_path ctx"
    by (simp add: fun_eq_iff twep_wr_state_path_def)
  show subs: "ensure_subdirs B (ctx\<lparr>host_io := io\<rparr>) subs = ensure_subdirs B ctx subs" for subs
    by (induction subs) (simp_all add: path cong del: if_weak_cong option.case_cong_weak sum.case_cong_weak)
  show "twep_wr_ensure_state_layout B (ctx\<lparr>host_io := io\<rparr>) = twep_wr_ensure_state_layout B ctx"
    by (simp add: twep_wr_ensure_state_layout_def subs del: ensure_subdirs.simps
        cong del: if_weak_cong option.case_cong_weak sum.case_cong_weak)
qed (simp_all add: twep_wr_ensure_state_catalog_def twep_wr_ensure_state_app_def twep_wr_ensure_teep_agent_def
  override_catalog_def make_teep_resolve_input_def read_wasm_from_state_def effective_timeout_ms_def
  twep_wr_state_path_def cong del: if_weak_cong option.case_cong_weak sum.case_cong_weak)

lemma callbacks_agent:
  assumes "\<not> insecure_mode ctx"
  shows "run_teep_agent_resolve H (ctx\<lparr>host_io := io\<rparr>) command = run_teep_agent_resolve H ctx command"
  unfolding run_teep_agent_resolve_def run_agent_binary_def agent_main_def twep_wr_call_u32_no_args_def
    twep_wr_call_free_def call_wasm_def Let_def context_kept callbacks_run [OF assms] ..

section \<open>Signed binaries\<close>

definition signed_by :: "('w, 'k) openssl \<Rightarrow> twep_wr_wasm_signature_role_t \<Rightarrow> bytes \<Rightarrow> bool" where
  "signed_by L role wasm \<longleftrightarrow> (\<exists>w. fst (run_state (twep_wr_verify_wasm_signature L wasm role) w))"

text \<open>Two continuations that agree on the values that can occur.\<close>

lemma bind_agree:
  assumes "\<And>s r s'. run_state m s = (r, s') \<Longrightarrow> run_state (f r) s' = run_state (g r) s'"
  shows "run_state (State_Monad.bind m f) s = run_state (State_Monad.bind m g) s"
  using assms by (simp split: prod.split)

text \<open>What a result can be.\<close>

definition gives :: "('a \<Rightarrow> bool) \<Rightarrow> ('s, 'a) state \<Rightarrow> bool" where
  "gives P m \<longleftrightarrow> (\<forall>s. P (fst (run_state m s)))"

lemma gives_rules:
  "P x \<Longrightarrow> gives P (State_Monad.return x)"
  "(\<And>x. gives P (f x)) \<Longrightarrow> gives P (State_Monad.bind m f)"
  "(b \<Longrightarrow> gives P p) \<Longrightarrow> (\<not> b \<Longrightarrow> gives P q) \<Longrightarrow> gives P (if b then p else q)"
  "(\<And>e. z = Inl e \<Longrightarrow> gives P (g e)) \<Longrightarrow> (\<And>x. z = Inr x \<Longrightarrow> gives P (k x)) \<Longrightarrow> gives P (case z of Inl e \<Rightarrow> g e | Inr x \<Rightarrow> k x)"
  "gives P p \<Longrightarrow> (\<And>x. gives P (j x)) \<Longrightarrow> gives P (case y of None \<Rightarrow> p | Some x \<Rightarrow> j x)"
  "(\<And>x y. gives P (h x y)) \<Longrightarrow> gives P (case pr of (x, y) \<Rightarrow> h x y)"
  by (auto simp: gives_def split: prod.splits sum.splits option.splits)

lemma gives_bind: "gives Q m \<Longrightarrow> (\<And>x. Q x \<Longrightarrow> gives P (f x)) \<Longrightarrow> gives P (State_Monad.bind m f)"
  unfolding gives_def by (auto split: prod.split) (metis fst_conv)

text \<open>A result of the resolver comes from the output of an agent for the command.\<close>

definition from_agent :: "bytes \<Rightarrow> twep_wr_status_t + catalog_entry_t \<Rightarrow> bool" where
  "from_agent command r \<longleftrightarrow> (\<forall>e. r = Inr e \<longrightarrow> (\<exists>out. parse_teep_resolve_output out command = Inr e))"

lemma from_agent_simps [simp]: "from_agent c (Inl e)" "from_agent command (parse_teep_resolve_output out command)"
  by (auto simp: from_agent_def)

lemma agent_main_gives: "gives (\<lambda>r. from_agent command (fst r)) (agent_main H u ctx command i)"
  unfolding agent_main_def host_agent_output_def
  by (intro gives_rules) (auto split: option.splits prod.splits)

lemma resolver_gives:
  "gives (from_agent command) (run_teep_agent_resolve H ctx command)"
  "gives (from_agent (or_empty c)) (twep_wr_lookup_catalog_entry H ctx c)"
proof -
  have main: "gives (from_agent command) (State_Monad.bind (agent_main H u ctx command i)
      (\<lambda>(res, i, p, l). State_Monad.bind (k i p l) (\<lambda>_. State_Monad.return res)))"
    for u ctx command i and k :: "_ \<Rightarrow> _ \<Rightarrow> _ \<Rightarrow> (_, twep_wr_status_t) state"
    by (rule gives_bind [OF agent_main_gives]) (auto intro!: gives_rules)
  show run: "gives (from_agent command) (run_teep_agent_resolve H ctx command)" for ctx command
    unfolding run_teep_agent_resolve_def run_agent_binary_def Let_def
    by (intro main gives_rules) simp_all
  show "gives (from_agent (or_empty c)) (twep_wr_lookup_catalog_entry H ctx c)"
    unfolding twep_wr_lookup_catalog_entry_def lookup_catalog_entry_dev_resolver_def lookup_catalog_entry_verified_resolver_def
    by (cases c; simp only: option.case or_empty_def)
      (intro run gives_bind [OF run] gives_rules from_agent_simps; auto simp: from_agent_def split: sum.splits)+
qed

text \<open>A host whose runtime loads and instantiates binaries in another way.\<close>

definition other_loader ::
  "('w, 'f, 'k, 'i) host \<Rightarrow> (bytes \<Rightarrow> ('w, bool) state) \<Rightarrow> (bytes \<Rightarrow> u32 \<Rightarrow> u32 \<Rightarrow> ('w, 'i option) state) \<Rightarrow>
   ('w, 'f, 'k, 'i) host" where
  "other_loader H load inst = H\<lparr>h_wamr := (h_wamr H)\<lparr>rt_load := load, rt_instantiate := inst\<rparr>\<rparr>"

lemma other_loader_fields:
  "h_os (other_loader H load inst) = h_os H" "h_services (other_loader H load inst) = h_services H"
  "h_openssl (other_loader H load inst) = h_openssl H"
  "rt_load (h_wamr (other_loader H load inst)) = load" "rt_instantiate (h_wamr (other_loader H load inst)) = inst"
  "rt_create_exec_env (h_wamr (other_loader H load inst)) = rt_create_exec_env (h_wamr H)"
  "call_wasm (other_loader H load inst) = call_wasm H" "place (other_loader H load inst) = place H"
  "descriptor (other_loader H load inst) = descriptor H"
  "rt_lookup_function (h_wamr (other_loader H load inst)) = rt_lookup_function (h_wamr H)"
  "rt_validate_app_addr (h_wamr (other_loader H load inst)) = rt_validate_app_addr (h_wamr H)"
  "rt_addr_app_to_native (h_wamr (other_loader H load inst)) = rt_addr_app_to_native (h_wamr H)"
  "rt_read (h_wamr (other_loader H load inst)) = rt_read (h_wamr H)"
  "rt_set_instruction_count_limit (h_wamr (other_loader H load inst)) = rt_set_instruction_count_limit (h_wamr H)"
  by (simp_all add: other_loader_def call_wasm_def place_def descriptor_def fun_eq_iff cong del: if_weak_cong)

lemma other_loader_runs:
  "twep_wr_call_free (other_loader H load inst) = twep_wr_call_free H"
  "agent_main (other_loader H load inst) = agent_main H" "host_app_main (other_loader H load inst) = host_app_main H"
  "override_catalog (other_loader H load inst) = override_catalog H"
  unfolding fun_eq_iff agent_main_def host_app_main_def host_app_output_def host_agent_output_def twep_wr_call_u32_no_args_def
    twep_wr_call_free_def override_catalog_def other_loader_fields by simp_all

definition only_differs_unsigned ::
  "('w, 'f, 'k, 'i) host \<Rightarrow> (bytes \<Rightarrow> ('w, bool) state) \<Rightarrow> (bytes \<Rightarrow> u32 \<Rightarrow> u32 \<Rightarrow> ('w, 'i option) state) \<Rightarrow> bool" where
  "only_differs_unsigned H load inst \<longleftrightarrow>
     (\<forall>wasm stack heap. (\<exists>role. signed_by (h_openssl H) role wasm) \<and> stack \<le> TWEP_WR_GLOBAL_MAX_STACK_SIZE \<and>
        heap \<le> TWEP_WR_GLOBAL_MAX_HEAP_SIZE \<longrightarrow>
        load wasm = rt_load (h_wamr H) wasm \<and> inst wasm stack heap = rt_instantiate (h_wamr H) wasm stack heap)"

lemma agree_cases:
  "(\<And>e. z = Inl e \<Longrightarrow> run_state (f e) s = run_state (f' e) s) \<Longrightarrow> (\<And>x. z = Inr x \<Longrightarrow> run_state (g x) s = run_state (g' x) s) \<Longrightarrow>
   run_state (case_sum f g z) s = run_state (case_sum f' g' z) s"
  "run_state m s = run_state m' s \<Longrightarrow> (\<And>x. y = Some x \<Longrightarrow> run_state (h x) s = run_state (h' x) s) \<Longrightarrow>
   run_state (case_option m h y) s = run_state (case_option m' h' y) s"
  "run_state m s = run_state m' s \<Longrightarrow> run_state n s = run_state n' s \<Longrightarrow> run_state (if b then m else n) s = run_state (if b then m' else n') s"
  by (auto split: sum.splits option.splits)

lemma same_if_verified:
  assumes "\<And>w. signed_by L role wasm \<Longrightarrow> run_state (f True) w = run_state (g True) w"
    and "\<And>w. run_state (f False) w = run_state (g False) w"
  shows "run_state (State_Monad.bind (twep_wr_verify_wasm_signature L wasm role) f) w =
    run_state (State_Monad.bind (twep_wr_verify_wasm_signature L wasm role) g) w"
proof (rule bind_agree)
  fix s r s' assume "run_state (twep_wr_verify_wasm_signature L wasm role) s = (r, s')"
  then have "r \<Longrightarrow> signed_by L role wasm" unfolding signed_by_def by (metis fst_conv)
  then show "run_state (f r) s' = run_state (g r) s'" using assms by (cases r) simp_all
qed

lemma agent_only_signed:
  assumes "only_differs_unsigned H load inst"
  shows "run_teep_agent_resolve (other_loader H load inst) ctx command = run_teep_agent_resolve H ctx command"
proof (rule state.expand, rule ext)
  have small: "TWEP_WR_DEFAULT_STACK_SIZE \<le> TWEP_WR_GLOBAL_MAX_STACK_SIZE"
    "TWEP_WR_DEFAULT_HEAP_SIZE \<le> TWEP_WR_GLOBAL_MAX_HEAP_SIZE" by code_simp+
  have bin: "run_agent_binary (other_loader H load inst) ctx command wasm = run_agent_binary H ctx command wasm"
    if "signed_by (h_openssl H) role wasm" for wasm role
  proof -
    have eq: "load wasm = rt_load (h_wamr H) wasm"
      "inst wasm TWEP_WR_DEFAULT_STACK_SIZE TWEP_WR_DEFAULT_HEAP_SIZE =
       rt_instantiate (h_wamr H) wasm TWEP_WR_DEFAULT_STACK_SIZE TWEP_WR_DEFAULT_HEAP_SIZE"
      using assms that small unfolding only_differs_unsigned_def by blast+
    show ?thesis unfolding run_agent_binary_def other_loader_fields other_loader_runs eq ..
  qed
  show "run_state (run_teep_agent_resolve (other_loader H load inst) ctx command) w =
      run_state (run_teep_agent_resolve H ctx command) w" for w
    unfolding run_teep_agent_resolve_def other_loader_fields
    by (rule bind_agree, rule agree_cases(3), simp, rule agree_cases(2), simp, rule bind_agree, rule agree_cases(2), simp,
        rule same_if_verified) (simp_all add: bin)
qed

lemma lookup_only_signed:
  assumes "only_differs_unsigned H load inst"
  shows "twep_wr_lookup_catalog_entry (other_loader H load inst) ctx c = twep_wr_lookup_catalog_entry H ctx c"
  unfolding twep_wr_lookup_catalog_entry_def lookup_catalog_entry_dev_resolver_def
    lookup_catalog_entry_verified_resolver_def other_loader_fields other_loader_runs agent_only_signed [OF assms] ..

section \<open>Paths below the state directory\<close>

definition inside :: "bytes \<Rightarrow> bool" where
  "inside rel \<longleftrightarrow> (\<forall>dir. prefix dir (resolve_path dir rel))"

text \<open>A file below the state directory, or the temporary file beside one.\<close>

definition below_state_dir :: "twep_wr_context \<Rightarrow> bytes \<Rightarrow> bool" where
  "below_state_dir ctx q \<longleftrightarrow> (\<exists>rel. inside rel \<and>
     (q = cx_state_dir ctx @ [slash] @ rel \<or> q = tmp_path (cx_state_dir ctx @ [slash] @ rel)))"

lemma inside_parts: "\<forall>part \<in> set (path_parts rel). part \<noteq> [dot, dot] \<Longrightarrow> inside rel"
  by (simp add: inside_def resolve_path_def resolve_inside)

lemma inside_no_dotdot: "\<not> has_dotdot rel \<Longrightarrow> inside rel"
  by (rule inside_parts) (use parts_no_dotdot in fastforce)

lemma path_parts_app: "path_parts (a @ slash # b) = path_parts a @ path_parts b"
  by (induction a) auto

lemma safe_app_inside: "safe_name f \<Longrightarrow> inside (ascii ''apps'' @ [slash] @ f)"
proof (rule inside_parts)
  assume "safe_name f"
  then have f: "list_all name_char f" "5 < length f" by (simp_all add: safe_name_def is_safe_wasm_basename_def)
  have apps: "path_parts (ascii ''apps'') = [ascii ''apps'']" by code_simp
  with f have "path_parts (ascii ''apps'' @ [slash] @ f) = [ascii ''apps'', f]"
    using path_parts_app [of "ascii ''apps''" f] name_parts [OF f(1)] apps by simp
  moreover have "f \<noteq> [dot, dot]" using f(2) by auto
  moreover have "ascii ''apps'' \<noteq> [dot, dot]" by code_simp
  ultimately show "\<forall>part \<in> set (path_parts (ascii ''apps'' @ [slash] @ f)). part \<noteq> [dot, dot]" by simp
qed

lemma state_path_below:
  "twep_wr_state_path ctx sub (Some n) cap = Some p \<Longrightarrow> inside (sub @ [slash] @ n) \<Longrightarrow> below_state_dir ctx p"
  by (auto simp: twep_wr_state_path_def below_state_dir_def Let_def split: if_splits)

lemma agent_path_below:
  assumes "agent_path (Some \<lparr>tx_ctx = Some ctx, tx_wasm = b, tx_capability = cap\<rparr>) path = Some p"
  shows "below_state_dir ctx p" "below_state_dir ctx (tmp_path p)"
proof -
  from assms obtain rel where "\<not> has_dotdot rel" "p = cx_state_dir ctx @ [slash] @ rel"
    by (auto simp: agent_path_def twep_wr_teep_agent_context_from_exec_env_def twep_wr_relative_state_file_path_def
        twep_wr_state_relative_path_def Let_def split: option.splits if_splits)
  then show "below_state_dir ctx p" "below_state_dir ctx (tmp_path p)"
    using inside_no_dotdot by (auto simp: below_state_dir_def)
qed

section \<open>Files that change\<close>

text \<open>\<open>stays files D m\<close>: only files with the property \<open>D\<close> are different after \<open>m\<close>.\<close>

definition stays :: "('w \<Rightarrow> store) \<Rightarrow> (bytes \<Rightarrow> bool) \<Rightarrow> ('w, 'a) state \<Rightarrow> bool" where
  "stays files D m \<longleftrightarrow> (\<forall>w q. files (snd (run_state m w)) q \<noteq> files w q \<longrightarrow> D q)"

lemma stays_bind: "stays files D m \<Longrightarrow> (\<And>x. stays files D (f x)) \<Longrightarrow> stays files D (State_Monad.bind m f)"
  unfolding stays_def by (auto split: prod.split) (metis snd_conv)

lemma stays_rules:
  "stays files D (State_Monad.return x)"
  "(b \<Longrightarrow> stays files D p) \<Longrightarrow> (\<not> b \<Longrightarrow> stays files D q) \<Longrightarrow> stays files D (if b then p else q)"
  "(\<And>e. stays files D (g e)) \<Longrightarrow> (\<And>x. z = Inr x \<Longrightarrow> stays files D (k x)) \<Longrightarrow> stays files D (case z of Inl e \<Rightarrow> g e | Inr x \<Rightarrow> k x)"
  "stays files D p \<Longrightarrow> (\<And>x. y = Some x \<Longrightarrow> stays files D (j x)) \<Longrightarrow> stays files D (case y of None \<Rightarrow> p | Some x \<Rightarrow> j x)"
  "(\<And>x y. stays files D (h x y)) \<Longrightarrow> stays files D (case pr of (x, y) \<Rightarrow> h x y)"
  by (auto simp: stays_def split: prod.splits sum.splits option.splits)

lemma stays_keeps: "keeps files m \<Longrightarrow> stays files D m"
  by (simp add: keeps_def stays_def)

lemma stays_hoare:
  assumes "\<And>F. hoare (\<lambda>w. files w = F) m (\<lambda>_ w. \<forall>q. \<not> D q \<longrightarrow> files w q = F q)"
  shows "stays files D m"
  using assms unfolding hoare_def stays_def by blast

lemma stays_same:
  "(\<And>F. hoare (\<lambda>w. files w = F) m (\<lambda>r w. files w = F \<and> Q F r)) \<Longrightarrow> stays files D m"
  "(\<And>F. hoare (\<lambda>w. files w = F) m (\<lambda>_ w. files w = F)) \<Longrightarrow> stays files D m"
proof -
  show "stays files D m" if "\<And>F. hoare (\<lambda>w. files w = F) m (\<lambda>r w. files w = F \<and> Q F r)"
    by (rule stays_hoare, rule hoare_post [OF that]) simp
  show "stays files D m" if "\<And>F. hoare (\<lambda>w. files w = F) m (\<lambda>_ w. files w = F)"
    by (rule stays_hoare, rule hoare_post [OF that]) simp
qed

text \<open>The Linux host: neither the Wasm runtime nor OpenSSL, the random numbers or the clock change a file,
  and a digest has 32 bytes.\<close>

definition linux_host ::
  "('w, 'f, 'k, 'i) host \<Rightarrow> 'w os_misc \<Rightarrow> ('w \<Rightarrow> store) \<Rightarrow> ('w \<Rightarrow> 'f \<Rightarrow> bytes option) \<Rightarrow> ('w \<Rightarrow> 'f \<Rightarrow> bytes option) \<Rightarrow> bool" where
  "linux_host H X files reading writing \<longleftrightarrow>
     h_services H = linux_services (h_os H) X \<and> file_laws (h_os H) files reading writing \<and>
     (\<forall>n. keeps files (os_getrandom X n)) \<and> keeps files (os_clock X) \<and>
     (\<forall>m. keeps files (rt_load (h_wamr H) m)) \<and> (\<forall>m s h. keeps files (rt_instantiate (h_wamr H) m s h)) \<and>
     (\<forall>i s. keeps files (rt_create_exec_env (h_wamr H) i s)) \<and>
     (\<forall>r s. keeps files (ossl_der_signature (h_openssl H) r s)) \<and> (\<forall>p. keeps files (ossl_public_key (h_openssl H) p)) \<and>
     (\<forall>k s m. keeps files (ossl_digest_verify (h_openssl H) k s m)) \<and> (\<forall>bs. length (ossl_sha256 (h_openssl H) bs) = 32)"

lemma random_stays: "(\<And>n. keeps files (os_getrandom X n)) \<Longrightarrow> stays files D (linux_random X n)"
proof (induction X n rule: linux_random.induct)
  case (1 X n)
  show ?case
    by (subst linux_random.simps) (intro stays_rules stays_bind stays_keeps [OF "1.prems"] "1.IH" "1.prems"; simp)
qed

lemma backend_stays:
  assumes "file_laws Os files reading writing"
  shows "stays files D (pf_read_file (linux_backend Os) p)" "stays files D (pf_file_exists (linux_backend Os) p)"
    "stays files D (pf_mkdir_if_needed (linux_backend Os) p)" "stays files D (pf_sealed_init (linux_backend Os) p)"
    "stays files D (os_malloc Os n)" "stays files D (linux_sealed_read Os d nm)"
    "D p \<Longrightarrow> stays files D (pf_write_file (linux_backend Os) p bs)"
    "D p \<Longrightarrow> D (tmp_path p) \<Longrightarrow> stays files D (pf_write_file_atomic (linux_backend Os) p bs)"
proof -
  show read: "stays files D (pf_read_file (linux_backend Os) p)" for p
    by (rule stays_same(1) [OF linux.read [OF assms]])
  show "stays files D (linux_sealed_read Os d nm)"
    using read unfolding linux_sealed_read_def by (intro stays_rules) (simp_all add: linux_backend_def)
  show "stays files D (os_malloc Os n)"
    by (rule stays_hoare) (use file_laws_rules(1) [OF assms] in \<open>auto simp: hoare_def\<close>)
  show "stays files D (pf_write_file (linux_backend Os) p bs)" if "D p"
    by (rule stays_hoare, rule hoare_post [OF "linux.write" [OF assms]]) (use that in auto)
  show "stays files D (pf_write_file_atomic (linux_backend Os) p bs)" if "D p" "D (tmp_path p)"
  proof (rule stays_hoare, rule hoare_post [OF linux.write_atomic [OF assms]], intro allI impI)
    fix F r w q
    assume new: "\<forall>q. q \<noteq> tmp_path p \<longrightarrow> files w q = (if r = Inr () then F(p \<mapsto> bs) else F) q" and "\<not> D q"
    then have "q \<noteq> tmp_path p" "q \<noteq> p" using that by auto
    with new show "files w q = F q" by simp
  qed
qed (rule stays_same(1) [OF linux.exists [OF assms]] stays_same(2) [OF linux.mkdir [OF assms]]
  stays_same(2) [OF linux.sealed_init [OF assms]])+

section \<open>The files of a request\<close>

lemma library_stays:
  assumes laws: "file_laws Os files reading writing"
  shows "stays files D (twep_wr_read_file (linux_backend Os) p)" "stays files D (twep_wr_file_exists (linux_backend Os) p)"
    "D dst \<Longrightarrow> stays files D (twep_wr_copy_file (linux_backend Os) src dst)"
    "D dst \<Longrightarrow> stays files D (ensure_copied (linux_backend Os) dst src fallback)"
    "stays files D (twep_wr_ensure_state_layout (linux_backend Os) ctx)"
proof -
  note B = backend_stays [OF laws]
  show read: "stays files D (twep_wr_read_file (linux_backend Os) p)" for p
    unfolding twep_wr_read_file_def by (intro stays_bind stays_rules B)
  show exists: "stays files D (twep_wr_file_exists (linux_backend Os) p)" for p
    unfolding twep_wr_file_exists_def by (rule B)
  show copy: "stays files D (twep_wr_copy_file (linux_backend Os) src dst)" if "D dst" for src dst
    unfolding twep_wr_copy_file_def by (intro stays_bind stays_rules read B that)
  show "stays files D (ensure_copied (linux_backend Os) dst src fallback)" if "D dst"
    unfolding ensure_copied_def by (intro stays_bind stays_rules exists copy that)
  have dir: "stays files D (twep_wr_mkdir_if_needed (linux_backend Os) p)" for p
    unfolding twep_wr_mkdir_if_needed_def by (intro stays_bind stays_rules B)
  have subs: "stays files D (ensure_subdirs (linux_backend Os) ctx ds)" for ds
  proof (induction ds)
    case (Cons d ds)
    show ?case unfolding ensure_subdirs.simps by (intro stays_bind stays_rules dir Cons)
  qed (simp add: stays_rules)
  show "stays files D (twep_wr_ensure_state_layout (linux_backend Os) ctx)"
    unfolding twep_wr_ensure_state_layout_def by (intro stays_bind stays_rules dir subs B)
qed

lemma fixed_names_below:
  "twep_wr_state_path ctx (ascii ''catalog'') (Some (ascii ''catalog.cbor'')) cap = Some p \<Longrightarrow> below_state_dir ctx p"
  "twep_wr_state_path ctx (ascii ''catalog'') (Some (ascii ''catalog.dev.json'')) cap = Some p \<Longrightarrow> below_state_dir ctx p"
  "twep_wr_state_path ctx (ascii ''teep-agent'') (Some (ascii ''teep-agent.wasm'')) cap = Some p \<Longrightarrow> below_state_dir ctx p"
  "twep_wr_state_path ctx (ascii ''apps'') (Some f) cap = Some p \<Longrightarrow> safe_name f \<Longrightarrow> below_state_dir ctx p"
proof -
  show "twep_wr_state_path ctx (ascii ''apps'') (Some f) cap = Some p \<Longrightarrow> safe_name f \<Longrightarrow> below_state_dir ctx p"
    by (erule state_path_below, erule safe_app_inside)
qed (erule state_path_below, rule inside_no_dotdot, code_simp)+

lemma ensure_stays:
  assumes laws: "file_laws Os files reading writing"
  shows "stays files (below_state_dir ctx) (twep_wr_ensure_state_catalog (linux_backend Os) ctx)"
    "stays files (below_state_dir ctx) (twep_wr_ensure_teep_agent (linux_backend Os) ctx)"
    "safe_name f \<Longrightarrow> stays files (below_state_dir ctx) (twep_wr_ensure_state_app (linux_backend Os) ctx f)"
  unfolding twep_wr_ensure_state_catalog_def twep_wr_ensure_teep_agent_def twep_wr_ensure_state_app_def Let_def
  by (intro stays_bind stays_rules library_stays [OF laws]; auto intro: fixed_names_below)+

lemma verify_stays:
  assumes "linux_host H X files reading writing"
  shows "stays files D (twep_wr_verify_wasm_signature (h_openssl H) wasm role)"
proof -
  note K = assms [unfolded linux_host_def]
  have "stays files D (verify_esp256 (h_openssl H) x y sig msg)" for x y sig msg
    unfolding verify_esp256_def der_encode_raw_signature_def p256_public_key_from_coordinates_def
    by (intro stays_bind stays_rules stays_keeps) (use K in simp_all)
  then show ?thesis
    unfolding twep_wr_verify_wasm_signature_def by (intro stays_rules) (auto intro!: stays_rules split: twep_wr_wasm_signature_role_t.split)
qed

lemma agent_call_stays:
  assumes "linux_host H X files reading writing"
  shows "stays files (below_state_dir ctx)
    (agent_host_call (h_services H) L (Some \<lparr>tx_ctx = Some ctx, tx_wasm = b, tx_capability = cap\<rparr>) c)"
proof -
  from assms have laws: "file_laws (h_os H) files reading writing" and S: "h_services H = linux_services (h_os H) X"
    and X: "\<And>n. keeps files (os_getrandom X n)" "keeps files (os_clock X)" by (auto simp: linux_host_def)
  note S = S [unfolded linux_services_def]
  have atomic: "stays files (below_state_dir ctx) (pf_write_file_atomic (linux_backend (h_os H)) p bs)"
    if "agent_path (Some \<lparr>tx_ctx = Some ctx, tx_wasm = b, tx_capability = cap\<rparr>) path = Some p" for path p bs
    using agent_path_below [OF that] by (rule backend_stays(8) [OF laws])
  show ?thesis
    unfolding S
    by (cases c; simp only: agent_host_call.simps host_services.simps twep_host_read_file_def twep_host_write_file_def
        twep_host_read_protected_def twep_host_random_def twep_host_unix_time_ms_def linux_unix_time_ms_def)
      (intro stays_bind stays_rules library_stays [OF laws] backend_stays [OF laws] atomic random_stays X stays_keeps [OF X(2)];
       assumption)+
qed

lemma agent_run_stays:
  assumes "linux_host H X files reading writing"
  shows "stays files (below_state_dir ctx)
    (run_calls (h_services H) L (Some \<lparr>tx_ctx = Some ctx, tx_wasm = b, tx_capability = cap\<rparr>) r)"
proof (induction r)
  case (Calls c k)
  show ?case unfolding run_calls.simps by (intro stays_bind agent_call_stays [OF assms] Calls) simp
qed (simp add: stays_rules)

lemma app_run_stays: "stays files D (run_calls S L None r)"
  by (simp add: stays_def refused_calls)

lemma resolve_stays:
  assumes host: "linux_host H X files reading writing"
  shows "stays files (below_state_dir ctx) (run_teep_agent_resolve H ctx command)"
proof -
  from host have laws: "file_laws (h_os H) files reading writing" and S: "hs_backend (h_services H) = linux_backend (h_os H)"
    and W: "\<And>m. keeps files (rt_load (h_wamr H) m)" "\<And>m s h. keeps files (rt_instantiate (h_wamr H) m s h)"
      "\<And>i s. keeps files (rt_create_exec_env (h_wamr H) i s)" by (auto simp: linux_host_def linux_services_def)
  note lib = library_stays [OF laws] ensure_stays [OF laws] backend_stays(5) [OF laws] verify_stays [OF host]
  show ?thesis
    unfolding run_teep_agent_resolve_def run_agent_binary_def agent_main_def twep_wr_call_u32_no_args_def
      twep_wr_call_free_def call_wasm_def make_teep_resolve_input_def Let_def S
    by (intro stays_bind stays_rules lib stays_keeps [OF W(1)] stays_keeps [OF W(2)] stays_keeps [OF W(3)] agent_run_stays [OF host])
qed

lemma stays_bind_gives:
  assumes "gives Q m" and "stays files D m" and "\<And>x. Q x \<Longrightarrow> stays files D (f x)"
  shows "stays files D (State_Monad.bind m f)"
  unfolding stays_def
proof (intro allI impI)
  fix w q assume changed: "files (snd (run_state (State_Monad.bind m f) w)) q \<noteq> files w q"
  obtain x w1 where m: "run_state m w = (x, w1)" by fastforce
  have "Q x" using assms(1) m unfolding gives_def by (metis fst_conv)
  then have "files (snd (run_state (f x) w1)) q \<noteq> files w1 q \<longrightarrow> D q" using assms(3) unfolding stays_def by blast
  moreover have "files w1 q \<noteq> files w q \<longrightarrow> D q" using assms(2) m unfolding stays_def by (metis snd_conv)
  ultimately show "D q" using changed m by (auto split: prod.splits)
qed

lemma lookup_stays:
  assumes host: "linux_host H X files reading writing"
  shows "stays files (below_state_dir ctx) (twep_wr_lookup_catalog_entry H ctx c)"
proof -
  from host have laws: "file_laws (h_os H) files reading writing" and S: "hs_backend (h_services H) = linux_backend (h_os H)"
    by (auto simp: linux_host_def linux_services_def)
  note lib = library_stays [OF laws] ensure_stays [OF laws] resolve_stays [OF host]
  have over: "stays files (below_state_dir ctx) (override_catalog H ctx)"
    unfolding override_catalog_def S by (intro stays_rules lib; auto intro: fixed_names_below)
  have safe: "safe_name (ce_wasm_file e)" if "from_agent command r" "r = Inr e" for command r e
    using that resolved_safe(1) by (auto simp: from_agent_def)
  show ?thesis
    unfolding twep_wr_lookup_catalog_entry_def lookup_catalog_entry_dev_resolver_def lookup_catalog_entry_verified_resolver_def S
    by (intro stays_rules stays_bind_gives [OF resolver_gives(1)] stays_bind lib over; erule safe; assumption)
qed

lemma app_stays:
  assumes host: "linux_host H X files reading writing"
  shows "stays files D (run_app_binary H request e t wasm)" "stays files D (read_wasm_from_state (hs_backend (h_services H)) ctx f)"
proof -
  from host have laws: "file_laws (h_os H) files reading writing" and S: "hs_backend (h_services H) = linux_backend (h_os H)"
    and W: "\<And>m. keeps files (rt_load (h_wamr H) m)" "\<And>m s h. keeps files (rt_instantiate (h_wamr H) m s h)"
      "\<And>i s. keeps files (rt_create_exec_env (h_wamr H) i s)" by (auto simp: linux_host_def linux_services_def)
  show "stays files D (run_app_binary H request e t wasm)"
    unfolding run_app_binary_def host_app_main_def host_app_output_def twep_wr_call_u32_no_args_def twep_wr_call_free_def
      call_wasm_def Let_def
    by (intro stays_bind stays_rules backend_stays(5) [OF laws] stays_keeps [OF W(1)] stays_keeps [OF W(2)]
        stays_keeps [OF W(3)] app_run_stays)
  show "stays files D (read_wasm_from_state (hs_backend (h_services H)) ctx f)"
    unfolding read_wasm_from_state_def S by (intro stays_rules library_stays [OF laws])
qed

lemma request_stays:
  assumes host: "linux_host H X files reading writing"
  shows "stays files (below_state_dir ctx) (twep_wr_run_app_wasm H ctx request)"
  unfolding twep_wr_run_app_wasm_def
  by (intro stays_bind stays_rules lookup_stays [OF host] app_stays [OF host] verify_stays [OF host])

section \<open>Responses\<close>

text \<open>A response holds the output of the application, or the number it returned.\<close>

definition app_response :: "twep_wr_normalized_request_t \<Rightarrow> catalog_entry_t \<Rightarrow> bytes \<Rightarrow> bool" where
  "app_response request e bs \<longleftrightarrow>
     (\<exists>out so. extract_optional_stdout out = Inr so \<and> bs = make_response_bytes (or_empty (rq_request_id request)) so out) \<or>
     (\<exists>st. st \<noteq> 0 \<and> bs = app_error_bytes (or_empty (rq_request_id request)) st (or_empty (rq_command request)) (ce_wasm_file e))"

lemma built_response_simps:
  "built_response (twep_wr_make_response mem i so out) = (TWEP_WR_OK, r) \<Longrightarrow> r = Some (make_response_bytes i so out)"
  "built_response (twep_wr_make_app_error_response mem i st c (Some f)) = (TWEP_WR_OK, r) \<Longrightarrow>
   r = Some (app_error_bytes i st (or_empty c) f)"
  by (auto simp: built_response_def twep_wr_make_response_def twep_wr_make_app_error_response_def or_empty_def Let_def
      split: if_splits prod.splits option.splits)

lemma read_app_file:
  assumes laws: "file_laws Os files reading writing"
    and "run_state (read_wasm_from_state (linux_backend Os) ctx f) w = (Some wasm, w')"
  shows "files w (cx_state_dir ctx @ [slash] @ ascii ''apps'' @ [slash] @ f) = Some wasm"
proof -
  from assms(2) obtain p where p: "twep_wr_state_path ctx (ascii ''apps'') (Some f) TWEP_WR_MAX_PATH_LEN = Some p"
    by (cases "twep_wr_state_path ctx (ascii ''apps'') (Some f) TWEP_WR_MAX_PATH_LEN") (auto simp: read_wasm_from_state_def)
  obtain r w1 where r: "run_state (pf_read_file (linux_backend Os) p) w = (r, w1)" by fastforce
  with p assms(2) have "r = Inr wasm"
    by (cases r) (auto simp: read_wasm_from_state_def twep_wr_read_file_def)
  with hoareD [OF linux.read [OF laws] refl r] have "files w p = Some wasm" by simp
  moreover have "p = cx_state_dir ctx @ [slash] @ ascii ''apps'' @ [slash] @ f"
    using p by (simp add: twep_wr_state_path_def Let_def split: if_splits)
  ultimately show ?thesis by simp
qed

lemma extract_error: "extract_optional_stdout out = Inl e \<Longrightarrow> e = TWEP_WR_ERR_WASM_ABI"
  by (auto simp: extract_optional_stdout_def split: option.splits if_splits)

lemma app_gives:
  "gives (\<lambda>(st, r). st = TWEP_WR_OK \<longrightarrow> (\<exists>bs. r = Some bs \<and> app_response request e bs)) (run_app_binary H request e t wasm)"
proof -
  let ?P = "\<lambda>(st, r). st = TWEP_WR_OK \<longrightarrow> (\<exists>bs. r = Some bs \<and> app_response request e bs)"
  have out: "gives ?P (host_app_output H (or_empty (rq_request_id request)) e i p l)" for i p l
    unfolding host_app_output_def Let_def
    by (intro gives_rules; auto simp: app_response_def dest!: built_response_simps(1) extract_error)
  have pass: "gives ?P (State_Monad.bind (host_app_output H (or_empty (rq_request_id request)) e i p l)
      (\<lambda>res. State_Monad.bind (k res) (\<lambda>_. State_Monad.return res)))" for i p l and k :: "_ \<Rightarrow> (_, twep_wr_status_t) state"
    by (rule gives_bind [OF out]) (auto intro!: gives_rules)
  show ?thesis
    unfolding run_app_binary_def host_app_main_def Let_def
    by (intro pass gives_rules; auto simp: app_response_def dest!: built_response_simps(2))
qed

section \<open>Properties\<close>

text \<open>
  C7. Only signed binaries reach the Wasm runtime, and never with more memory than the global limits: what the
  runtime does with any other binary, or with larger limits, makes no difference to any request. A
  binary counts as signed when the verification for the role of the agent or of an application can succeed.
\<close>

theorem only_signed_binaries_run:
  assumes "only_differs_unsigned H load inst"
  shows "run_state (twep_wr_run_app_wasm (other_loader H load inst) ctx request) w =
    run_state (twep_wr_run_app_wasm H ctx request) w"
proof -
  have bin: "run_app_binary (other_loader H load inst) request e t wasm = run_app_binary H request e t wasm"
    if "signed_by (h_openssl H) TWEP_WR_WASM_SIGNATURE_ROLE_APP wasm" "from_agent c (Inr e)" for wasm e t c
  proof -
    have "ce_stack_bytes e \<le> TWEP_WR_GLOBAL_MAX_STACK_SIZE" "ce_heap_bytes e \<le> TWEP_WR_GLOBAL_MAX_HEAP_SIZE"
      using that(2) resolved_safe(4,5) by (auto simp: from_agent_def)
    then have eq: "load wasm = rt_load (h_wamr H) wasm"
      "inst wasm (ce_stack_bytes e) (ce_heap_bytes e) = rt_instantiate (h_wamr H) wasm (ce_stack_bytes e) (ce_heap_bytes e)"
      using that(1) assms unfolding only_differs_unsigned_def by blast+
    show ?thesis unfolding run_app_binary_def other_loader_fields other_loader_runs eq ..
  qed
  have entry: "from_agent (or_empty (rq_command request)) r" if "run_state (twep_wr_lookup_catalog_entry H ctx (rq_command request)) s = (r, s')" for r s s'
    using resolver_gives(2) [of "rq_command request" H ctx] that unfolding gives_def by (metis fst_conv)
  show ?thesis
    unfolding twep_wr_run_app_wasm_def other_loader_fields lookup_only_signed [OF assms]
    by (rule bind_agree, drule entry, rule agree_cases(1), simp, rule bind_agree, rule agree_cases(2), simp,
        rule agree_cases(3), simp, rule same_if_verified) (simp_all add: bin)
qed


text \<open>
  C9. On the Linux backend a request changes only files that lie below the state directory, whatever the
  agent and the application do and whatever fails: a file that is different afterwards is at a relative path that
  resolves to a place below its starting directory, or is the temporary file beside such a file.
\<close>

theorem request_confined:
  assumes "linux_host H X files reading writing"
    and "run_state (twep_wr_run_app_wasm H ctx request) w = (r, w')" and "files w' q \<noteq> files w q"
  shows "\<exists>rel. (\<forall>dir. prefix dir (resolve_path dir rel)) \<and>
     (q = cx_state_dir ctx @ [slash] @ rel \<or> q = cx_state_dir ctx @ [slash] @ rel @ ascii ''.tmp'')"
proof -
  have "below_state_dir ctx q"
    using request_stays [OF assms(1), of ctx request] assms(2,3) unfolding stays_def by (metis snd_conv)
  then show ?thesis by (simp add: below_state_dir_def inside_def tmp_path_def)
qed



section \<open>Concrete instances\<close>

text \<open>
  A host with a disk that never fails and a runtime whose modules try to write a file before every
  return. The agent names the application, and both are signed.
\<close>

definition signed_app4 :: bytes where
  "signed_app4 = wasm_magic @ [1, 0, 0, 0] @ [1, 0] @ [0, 106, 8] @ ascii ''twep.sig'' @
     [0xa4] @ cbor_write_text (ascii ''alg'') @ cbor_write_text (ascii ''ESP256'') @
     cbor_write_text (ascii ''kid'') @ cbor_write_bstr [1] @
     cbor_write_text (ascii ''sig'') @ cbor_write_bstr (replicate 64 7) @
     cbor_write_text (ascii ''role'') @ cbor_write_text (ascii ''app'')"

definition resolve_output4 :: bytes where
  "resolve_output4 = [0xa2] @ cbor_write_text (ascii ''status'') @ cbor_write_text (ascii ''ok'') @
     cbor_write_text (ascii ''app'') @ [0xa6] @ cbor_write_text (ascii ''command'') @ cbor_write_text (ascii ''hi'') @
     cbor_write_text (ascii ''component_id'') @ cbor_write_text (ascii ''c'') @
     cbor_write_text (ascii ''version'') @ cbor_write_text (ascii ''1'') @
     cbor_write_text (ascii ''abi'') @ cbor_write_text (ascii ''twep-app-v1'') @
     cbor_write_text (ascii ''wasm_file'') @ cbor_write_text (ascii ''hi.wasm'') @
     cbor_write_text (ascii ''sha256'') @ cbor_write_bstr (toy_digest signed_app4)"

definition output4 :: "bytes \<Rightarrow> bytes" where
  "output4 i = (if i = signed1 then resolve_output4 else [0xa0])"

definition wamr4 :: "(disk, bytes) host_wamr" where
  "wamr4 = \<lparr>rt_load = (\<lambda>_. State_Monad.return True), rt_instantiate = (\<lambda>m _ _. State_Monad.return (Some m)),
     rt_create_exec_env = (\<lambda>_ _. State_Monad.return True), rt_module_malloc = (\<lambda>i n. (i, if n = 8 then 8 else 16, True)),
     rt_write = (\<lambda>i _ _. i),
     rt_read = (\<lambda>i p n. if p = 8 then [1, 0, 0, 0, of_nat (length (output4 i)), 0, 0, 0] else output4 i),
     rt_validate_app_addr = (\<lambda>_ _ _. True), rt_addr_app_to_native = (\<lambda>_ _. True),
     rt_set_instruction_count_limit = (\<lambda>i _. i), rt_lookup_function = (\<lambda>_ _. True),
     rt_call_wasm = (\<lambda>i name args. Calls (Agent_Write_File (ascii ''log'') [7])
       (\<lambda>_. Ended (Some (if name = ascii ''twep_app_abi_version'' then 1 else 0)) i))\<rparr>"

definition openssl4 :: "(disk, unit) openssl" where
  "openssl4 = \<lparr>ossl_der_signature = (\<lambda>r s. State_Monad.return (Some (r @ s))),
     ossl_public_key = (\<lambda>_. State_Monad.return (Some ())), ossl_digest_verify = (\<lambda>_ _ _. State_Monad.return True),
     ossl_sha256 = toy_digest\<rparr>"

definition misc4 :: "disk os_misc" where
  "misc4 = \<lparr>os_getrandom = (\<lambda>n. State_Monad.return (Some (replicate n 0))), os_clock = State_Monad.return None\<rparr>"

definition host4 :: "(disk, bytes, unit, bytes) host" where
  "host4 = \<lparr>h_os = disk_api, h_services = linux_services disk_api misc4, h_openssl = openssl4, h_wamr = wamr4\<rparr>"

lemma host4_linux: "linux_host host4 misc4 (\<lambda>w. w) (\<lambda>_ f. Some f) (\<lambda>_ f. Some f)"
  by (simp add: linux_host_def host4_def misc4_def wamr4_def openssl4_def disk_file_laws keeps_def)

definition ctx4 :: twep_wr_context where
  "ctx4 = sample_context\<lparr>cx_resolver_mode := Some (ascii ''attestam-verified'')\<rparr>"

definition request4 :: twep_wr_normalized_request_t where
  "request4 = \<lparr>rq_request_id = Some (ascii ''r''), rq_command = Some (ascii ''hi''), rq_app_input = None,
     rq_app_input_len = 0, rq_timeout_ms = 0\<rparr>"

definition disk4 :: disk where
  "disk4 = [ascii ''state/teep-agent/teep-agent.wasm'' \<mapsto> signed1, ascii ''state/apps/hi.wasm'' \<mapsto> signed_app4]"

lemma run4: "fst (run_state (twep_wr_run_app_wasm host4 ctx4 request4) disk4) =
    (TWEP_WR_OK, Some (make_response_bytes (ascii ''r'') [] [0xa0])) \<and>
  snd (run_state (twep_wr_run_app_wasm host4 ctx4 request4) disk4) (ascii ''state/log'') = Some [7]"
  by code_simp

abbreviation after4 :: disk where
  "after4 \<equiv> snd (run_state (twep_wr_run_app_wasm host4 ctx4 request4) disk4)"

lemma run4_eq: "run_state (twep_wr_run_app_wasm host4 ctx4 request4) disk4 =
    ((TWEP_WR_OK, Some (make_response_bytes (ascii ''r'') [] [0xa0])), after4)"
  using run4 by (simp add: prod_eq_iff)

definition load4 :: "bytes \<Rightarrow> (disk, bool) state" where
  "load4 m = (if m = [] then State_Monad.return False else State_Monad.return True)"

lemma unsigned4: "only_differs_unsigned host4 load4 (rt_instantiate wamr4)"
proof -
  have "\<not> signed_by openssl4 role []" for role
    by (simp add: signed_by_def twep_wr_verify_wasm_signature_def parse_wasm_signature_def)
  then show ?thesis by (auto simp: only_differs_unsigned_def load4_def host4_def wamr4_def)
qed

theorem only_signed_binaries_run_witness:
  "fst (run_state (twep_wr_run_app_wasm (other_loader host4 load4 (rt_instantiate wamr4)) ctx4 request4) disk4) =
    (TWEP_WR_OK, Some (make_response_bytes (ascii ''r'') [] [0xa0]))"
  using only_signed_binaries_run [OF unsigned4, of ctx4 request4 disk4] run4 by simp


theorem request_confined_witness:
  "after4 (ascii ''state/log'') = Some [7] \<and>
   (\<exists>rel. (\<forall>dir. prefix dir (resolve_path dir rel)) \<and>
     (ascii ''state/log'' = cx_state_dir ctx4 @ [slash] @ rel \<or>
      ascii ''state/log'' = cx_state_dir ctx4 @ [slash] @ rel @ ascii ''.tmp''))"
proof -
  have "disk4 (ascii ''state/log'') = None" by code_simp
  with run4 have "after4 (ascii ''state/log'') \<noteq> disk4 (ascii ''state/log'')" by simp
  then have "(\<lambda>w. w) after4 (ascii ''state/log'') \<noteq> (\<lambda>w. w) disk4 (ascii ''state/log'')" by simp
  note confined = request_confined [where files = "\<lambda>w. w", OF host4_linux run4_eq this]
  show ?thesis using run4 confined by (rule conjunct2 [THEN conjI])
qed



text \<open>The two backends without support refuse every request before anything is touched.\<close>

lemma unsupported_refused:
  assumes "h_services H \<in> {sgx_services, keystone_services}"
  shows "run_state (twep_wr_run_app_wasm H ctx request) w =
    ((if rq_command request = None then TWEP_WR_ERR_INVALID_ARGUMENT else TWEP_WR_ERR_CATALOG, None), w)"
  using assms
  by (auto simp: twep_wr_run_app_wasm_def twep_wr_lookup_catalog_entry_def lookup_catalog_entry_dev_resolver_def
      lookup_catalog_entry_verified_resolver_def twep_wr_ensure_state_layout_def twep_wr_mkdir_if_needed_def
      sgx_services_def keystone_services_def unsupported_backend_def split: option.splits)

end
