(* ===== verification/Spec2Isabelle.thy ===== *)
theory Spec2Isabelle
  imports Optee_Diagnostics Ree_Agent
begin

text \<open>
  \<^bold>\<open>Verification library of twep\<close>

  twep executes WebAssembly applications for a client, either on the host or in an OP-TEE trusted
  application (TA). A TEEP agent, itself a signed WebAssembly module, decides which application may
  run; in the mode \<^verbatim>\<open>attestam-verified\<close> it talks to a trust anchor manager and records in protected
  storage what it has accepted. The library models the C code of the TA (\<^verbatim>\<open>src/optee/twep-wr-ta/ta\<close>)
  and of the host library (\<^verbatim>\<open>src/lib/twep-wr/src\<close>).

  \<^bold>\<open>How the parts interact.\<close> A client calls \<^verbatim>\<open>twep_wr_execute\<close>. The OP-TEE backend opens a session
  with the TA and sends the request, with the agent's binary, as a CBOR envelope. The TA verifies the
  agent's signature and runs it. When the agent needs a host operation (an HTTP exchange or evidence),
  the TA suspends the request and answers with a request to the host; the host performs it and
  resumes the TA with the result, and the agent runs again from its start with the history of
  answers. During a run the agent may commit what it accepted: the acceptance state, a catalog or an
  application. A final answer authorises an application, which the TA executes; its output is the
  response.

  \<^bold>\<open>Theories and sources.\<close>

  \<^item> \<^verbatim>\<open>Prelude\<close>: bytes and words, the state monad with errors and its Hoare rules, lemmas on lists.
  \<^item> \<^verbatim>\<open>Cbor_Interface\<close>: locales for a reader and a writer of CBOR heads and for the parser of a map,
    with the lemma that what is written is read back; interpreted for the readers of the TA and of
    the host.
  \<^item> \<^verbatim>\<open>Tee_Api\<close>: the functions of the TEE as a record of state transformers, with the laws of storage
    (\<open>storage_laws\<close>), of storage that does not fail (\<open>storage_reliable\<close>) and of a power loss
    (\<open>fail_stop\<close>), and a simulated device that satisfies them.
  \<^item> \<^verbatim>\<open>Slot_Interface\<close>: a locale for records kept in two slots.
  \<^item> \<^verbatim>\<open>Canonical_Cbor\<close>, \<^verbatim>\<open>Acceptance_State\<close>, \<^verbatim>\<open>Catalog_State\<close> (\<^verbatim>\<open>acceptance_state.c\<close>) and
    \<^verbatim>\<open>Protected_App\<close> (\<^verbatim>\<open>protected_app.c\<close>): the protected records, their commits and queries.
  \<^item> \<^verbatim>\<open>Runtime_Cbor\<close> (\<^verbatim>\<open>ta_runtime_cbor.c\<close>): the TA's CBOR reader and the envelopes.
  \<^item> \<^verbatim>\<open>Host_Io\<close> (\<^verbatim>\<open>ta_host_io_continuation.c\<close>): pending host operations, their requests and results.
  \<^item> \<^verbatim>\<open>Storage_Commands\<close> (\<^verbatim>\<open>ta_secure_storage.c\<close>, \<^verbatim>\<open>ta_basic_commands.c\<close>): the generic commands.
  \<^item> \<^verbatim>\<open>Wasm_Signature\<close> (\<^verbatim>\<open>ta_wasm_signature.c\<close>, \<^verbatim>\<open>ta_wamr_spike.c\<close>): signature and import scan.
  \<^item> \<^verbatim>\<open>Teep_Hostcalls\<close> (\<^verbatim>\<open>ta_teep_hostcalls.c\<close>): the functions the agent may call.
  \<^item> \<^verbatim>\<open>Wasm_Runtime\<close>, \<^verbatim>\<open>App_Runtime\<close> (\<^verbatim>\<open>ta_app_runtime.c\<close>, \<^verbatim>\<open>ta_wamr_spike.c\<close>), \<^verbatim>\<open>Agent_Runtime\<close>
    (\<^verbatim>\<open>ta_teep_runtime.c\<close>): the runs of modules.
  \<^item> \<^verbatim>\<open>Production_Runtime\<close> (\<^verbatim>\<open>ta_production_runtime.c\<close>, \<^verbatim>\<open>ta_command_router.c\<close>, \<^verbatim>\<open>twep_wr_ta.c\<close>): the
    commands, sessions and entry points, the latter as the step relation \<open>ta_step\<close>.
  \<^item> \<^verbatim>\<open>Ree_Cbor\<close>, \<^verbatim>\<open>Ree_Runtime\<close> (\<^verbatim>\<open>runtime.c\<close>), \<^verbatim>\<open>Response_Cbor\<close> (\<^verbatim>\<open>response_cbor.c\<close>),
    \<^verbatim>\<open>Ree_Host_Io\<close> (\<^verbatim>\<open>optee_envelope.c\<close>, \<^verbatim>\<open>optee_host_io.c\<close>): the host library.
  \<^item> \<^verbatim>\<open>Ree_Files\<close> (\<^verbatim>\<open>platform_linux.c\<close>, \<^verbatim>\<open>optee_storage.c\<close>, the state directory of \<^verbatim>\<open>runtime.c\<close>): the files of the
    host. The locale \<open>file_backend\<close> is the contract of a backend, interpreted for the Linux and the OP-TEE one.
  \<^item> \<^verbatim>\<open>Optee_Execute\<close> (\<^verbatim>\<open>optee_execute.c\<close>, \<^verbatim>\<open>optee_transport.c\<close>, \<^verbatim>\<open>optee_session_storage.c\<close>, \<^verbatim>\<open>optee_artifacts.c\<close>,
    \<^verbatim>\<open>optee_candidate.c\<close>, sealed objects of \<^verbatim>\<open>optee_storage.c\<close>): a request of the host, with the calls of the client API
    connected to the entry points of the TA.
  \<^item> \<^verbatim>\<open>Ree_Fields\<close>, \<^verbatim>\<open>Optee_Diagnostics\<close> (\<^verbatim>\<open>optee_diagnostics.c\<close>): the validators of the protected objects and the
    status files for an operator, which the request loop calls through the record \<open>diagnostics\<close>.
  \<^item> \<^verbatim>\<open>Ree_Resolver\<close> (\<^verbatim>\<open>wasm_signature.c\<close>, the parsers of \<^verbatim>\<open>catalog_resolver.c\<close> and \<^verbatim>\<open>app_runtime.c\<close>) and \<^verbatim>\<open>Ree_Agent\<close>
    (\<^verbatim>\<open>teep_agent_runtime.c\<close>, the runs of \<^verbatim>\<open>catalog_resolver.c\<close> and \<^verbatim>\<open>app_runtime.c\<close>, random numbers and clock of
    \<^verbatim>\<open>platform_linux.c\<close>, \<^verbatim>\<open>platform_sgx.c\<close>, \<^verbatim>\<open>platform_keystone.c\<close>): the host library without a TA. The record \<open>host\<close>
    holds the operating system, the services of the backend, OpenSSL and the Wasm runtime.

  Structs are records, enumerations datatypes, fixed-width integers words; a buffer with its length is
  a list of bytes, and a pointer that may be null an option. A function that returns a \<^verbatim>\<open>TEE_Result\<close> or
  a status returns a sum; the length stored through an output pointer is part of the result where
  callers use it. Functions with effects are state transformers over an abstract world, paired with the
  variables of the TA where these matter.

  \<^bold>\<open>Parameters.\<close> The TEE (storage, memory, digests, signatures, random numbers, time), the Wasm runtime
  WAMR, the operating system, OpenSSL, the TEE client library and the callbacks of the client are not part of the repository; they are arguments of
  the definitions, with their documented behaviour as named hypotheses, and every property with such a
  hypothesis is applied to a simulated device. The Wasm modules are arbitrary: a run of a module is a
  finite tree of calls into the TA, finite because the number of instructions is limited.

  \<^bold>\<open>What is shown.\<close> For the protected records: the parsers accept exactly the canonical encodings;
  commits are atomic with storage failing at any call; generations and sequence numbers never go back; a commit
  with stale arguments changes nothing; and what a torn first commit and a failing read do.
  For the protocol: both ends read what the other one wrote; a pending request is resumed at most
  once, with a result bound to it. For the agent: transient objects refine a bounded map; a command
  commits at most once, and only with the transcript of an HTTP exchange; in the verified mode only
  the installed application is executed. For an instance of the TA: its counters are exact and
  within their limits along any sequence of calls. For the host: checked requests and responses, paths
  that stay in their directory, a terminating CBOR skipper, files that are replaced as a whole, and artifacts that are never
  overwritten. For both together: a successful answer in the verified mode is the result of the installed
  application, through any number of host operations; every session is closed again; the diagnostics change nothing but
  their files, and what these say about the evidence agrees with the acceptance state of the TA. For the host without a
  TA: only signed binaries reach the Wasm runtime, with limited memory; a response comes from the application that
  the agent named, by its digest; an application can use none of the functions for the agent; a request
  changes no file outside of the state directory; and the callbacks of the client are used in the insecure mode only.

  \<^bold>\<open>Bounds and fuel.\<close> Recursion follows the input and needs no fuel, except where the code itself
  limits the depth (8 levels in the TA's skipper) and in the host's skipper, which recurses with
  fuel; a fuel linear in the length of the input is shown to be enough on every input. The request loop
  of the host is limited to 8 rounds by the code.

  \<^bold>\<open>Not modelled.\<close> The test build of the TA (\<^verbatim>\<open>ta_d043_test.c\<close> and the code under
  \<^verbatim>\<open>TWEP_TA_D043_TEST_HOOKS\<close>); the platform shims of WAMR; the test drivers under \<^verbatim>\<open>host/\<close>;
  logging; and the
  Go and Rust parts of the repository. Memory that is released, and what a failed command leaves in its
  output buffer, are not visible in the model.
\<close>

end
